(* ===== verification/Sela_Prelude.thy ===== *)
theory Sela_Prelude
  imports Main
begin

text \<open>
  Shared vocabulary of the development: fallible results (\<open>llvm::Expected\<close> and
  \<open>llvm::Error\<close> of the code), the early-exit loops built on them, and a locale for the
  contract that every validation routine of the code has.
\<close>

section \<open>Fallible results\<close>

text \<open>
  \<open>llvm::Expected<T>\<close> is a sum: \<open>Inl\<close> holds the message of the \<open>llvm::StringError\<close>, \<open>Inr\<close> the
  value. \<open>llvm::Error\<close> is the same with the unit value for \<open>llvm::Error::success()\<close>.
\<close>

type_synonym 'a expected = "string + 'a"

abbreviation success :: "unit expected" where
  "success \<equiv> Inr ()"

text \<open>\<open>if (!x) return x.takeError();\<close>\<close>

definition bindE :: "'e + 'a \<Rightarrow> ('a \<Rightarrow> 'e + 'b) \<Rightarrow> 'e + 'b" where
  "bindE m f = (case m of Inl e \<Rightarrow> Inl e | Inr x \<Rightarrow> f x)"

lemma bindE_simps [simp]:
  "bindE (Inl e) f = Inl e"
  "bindE (Inr x) f = f x"
  by (simp_all add: bindE_def)

lemma bindE_Inr_iff: "bindE m f = Inr y \<longleftrightarrow> (\<exists>x. m = Inr x \<and> f x = Inr y)"
  by (cases m) auto

lemma bindE_InrE:
  assumes "bindE m f = Inr y"
  obtains x where "m = Inr x" "f x = Inr y"
  using assms by (auto simp: bindE_Inr_iff)

lemma bindE_cong [fundef_cong]:
  assumes "m = m'" and "\<And>x. m' = Inr x \<Longrightarrow> f x = g x"
  shows "bindE m f = bindE m' g"
  using assms by (cases m') auto

lemma bindE_assoc: "bindE (bindE m f) g = bindE m (\<lambda>x. bindE (f x) g)"
  by (cases m) auto

section \<open>Early-exit loops\<close>

text \<open>A range-based \<open>for\<close> whose body threads a state and may return an error.\<close>

fun foldE :: "('a \<Rightarrow> 's \<Rightarrow> 'e + 's) \<Rightarrow> 'a list \<Rightarrow> 's \<Rightarrow> 'e + 's" where
  "foldE f [] s = Inr s"
| "foldE f (x # xs) s = bindE (f x s) (\<lambda>t. foldE f xs t)"

text \<open>A loop that only checks.\<close>

fun forE :: "('a \<Rightarrow> 'e + unit) \<Rightarrow> 'a list \<Rightarrow> 'e + unit" where
  "forE f [] = Inr ()"
| "forE f (x # xs) = bindE (f x) (\<lambda>_. forE f xs)"

text \<open>A loop that pushes one converted element per iteration.\<close>

fun mapE :: "('a \<Rightarrow> 'e + 'b) \<Rightarrow> 'a list \<Rightarrow> 'e + 'b list" where
  "mapE f [] = Inr []"
| "mapE f (x # xs) = bindE (f x) (\<lambda>y. bindE (mapE f xs) (\<lambda>ys. Inr (y # ys)))"

lemma foldE_cong [fundef_cong]:
  assumes "xs = ys" "s = t" and "\<And>x s. x \<in> set ys \<Longrightarrow> f x s = g x s"
  shows "foldE f xs s = foldE g ys t"
  using assms
proof (induction ys arbitrary: xs s t)
  case Nil
  then show ?case by simp
next
  case (Cons y ys)
  have "foldE f ys = foldE g ys"
    using Cons.prems(3) by (intro ext Cons.IH) auto
  then show ?case using Cons.prems by simp
qed

lemma forE_cong [fundef_cong]:
  assumes "xs = ys" and "\<And>x. x \<in> set ys \<Longrightarrow> f x = g x"
  shows "forE f xs = forE g ys"
  using assms by (induction ys arbitrary: xs) auto

lemma mapE_cong [fundef_cong]:
  assumes "xs = ys" and "\<And>x. x \<in> set ys \<Longrightarrow> f x = g x"
  shows "mapE f xs = mapE g ys"
  using assms by (induction ys arbitrary: xs) auto

lemma foldE_Cons_InrE:
  assumes "foldE f (x # xs) s = Inr t"
  obtains u where "f x s = Inr u" "foldE f xs u = Inr t"
  using assms by (auto elim: bindE_InrE)

lemma foldE_append: "foldE f (xs @ ys) s = bindE (foldE f xs s) (\<lambda>t. foldE f ys t)"
  by (induction xs arbitrary: s) (auto simp: bindE_assoc fun_eq_iff intro!: bindE_cong)

lemma forE_success_iff: "forE f xs = Inr () \<longleftrightarrow> (\<forall>x \<in> set xs. f x = Inr ())"
  by (induction xs) (auto simp: bindE_Inr_iff)

lemma mapE_Inr_iff:
  "mapE f xs = Inr ys \<longleftrightarrow> list_all2 (\<lambda>x y. f x = Inr y) xs ys"
  by (induction xs arbitrary: ys) (auto simp: bindE_Inr_iff list_all2_Cons1)

lemma mapE_length: "mapE f xs = Inr ys \<Longrightarrow> length ys = length xs"
  by (auto simp: mapE_Inr_iff dest: list_all2_lengthD)

text \<open>An invariant of the loop body is an invariant of the loop.\<close>

lemma foldE_invariant:
  assumes "foldE f xs s = Inr t" and "P s"
    and "\<And>x s t. x \<in> set xs \<Longrightarrow> P s \<Longrightarrow> f x s = Inr t \<Longrightarrow> P t"
  shows "P t"
  using assms
proof (induction xs arbitrary: s)
  case Nil
  then show ?case by simp
next
  case (Cons x xs)
  from Cons.prems(1) obtain u where u: "f x s = Inr u" "foldE f xs u = Inr t"
    by (auto elim: bindE_InrE)
  have "P u" using Cons.prems(2,3) u(1) by auto
  with u(2) Cons.prems(3) show ?case by (intro Cons.IH) auto
qed

section \<open>The contract of a validation routine\<close>

text \<open>
  Most of the code is validation: a routine returns success or a message, and a client calls it
  on every element of an inventory. The contract of such a routine is the predicate it decides.
  The client's lemmas are proved once, here.
\<close>

locale validator =
  fixes check :: "'a \<Rightarrow> unit expected"
    and ok :: "'a \<Rightarrow> bool"
  assumes check_iff: "check x = Inr () \<longleftrightarrow> ok x"
begin

lemma sound: "check x = Inr () \<Longrightarrow> ok x"
  by (simp add: check_iff)

lemma complete: "ok x \<Longrightarrow> check x = Inr ()"
  by (simp add: check_iff)

lemma reject: "\<not> ok x \<Longrightarrow> \<exists>message. check x = Inl message"
  using check_iff [of x] by (cases "check x") auto

lemma all_iff: "forE check xs = Inr () \<longleftrightarrow> list_all ok xs"
  by (simp add: forE_success_iff list_all_iff check_iff)

lemma all_reject:
  assumes "x \<in> set xs" "\<not> ok x"
  shows "\<exists>message. forE check xs = Inl message"
proof (cases "forE check xs")
  case (Inr u)
  then have "list_all ok xs" by (cases u) (simp add: all_iff)
  with assms show ?thesis by (auto simp: list_all_iff)
qed blast

lemma then_iff: "bindE (check x) (\<lambda>_. k) = Inr y \<longleftrightarrow> ok x \<and> k = Inr y"
  by (auto simp: bindE_Inr_iff check_iff)

end

section \<open>Named rule collections and small facts\<close>

named_theorems sela_defs \<open>definitions to unfold when an operation is executed symbolically\<close>

lemma if_Inl_Inr [simp]:
  "(if c then Inl e else k) = Inr y \<longleftrightarrow> \<not> c \<and> k = Inr y"
  "(if c then k else Inl e) = Inr y \<longleftrightarrow> c \<and> k = Inr y"
  by auto

lemma find_key_iff:
  "distinct (map f xs) \<Longrightarrow> List.find (\<lambda>t. f t = k) xs = Some t \<longleftrightarrow> t \<in> set xs \<and> f t = k"
  by (induction xs) auto

lemma find_key_None_iff: "List.find (\<lambda>t. f t = k) xs = None \<longleftrightarrow> k \<notin> f ` set xs"
  by (induction xs) auto

lemma map_of_Some_mem: "map_of kvs k = Some v \<Longrightarrow> (k, v) \<in> set kvs"
  by (rule map_of_SomeD)

lemma map_of_mem_iff:
  assumes "distinct (map fst kvs)"
  shows "(k, v) \<in> set kvs \<longleftrightarrow> map_of kvs k = Some v"
  using assms by simp

lemma distinct_filter_map_fst: "distinct (map fst kvs) \<Longrightarrow> distinct (map fst (filter P kvs))"
  by (induction kvs) auto

end
