(* ===== verification/Targets.thy ===== *)
theory Targets
  imports Sela_Prelude
begin

text \<open>
  The registry of native targets (\<open>include/sela/Targets.h\<close>, \<open>src/targets/Targets.cpp\<close>) and the
  publication-architecture selection built on it (\<open>src/support/Selection.cpp\<close>).
\<close>

section \<open>The target registry\<close>

record TargetInfo =
  target_id :: string
  triple :: string
  sysrootTriple :: string
  target_layout :: string
  multiarch :: string
  gccTriple :: string
  llvmBackend :: string
  target_abi :: string
  cpu :: string
  target_features :: string
  floatABI :: string
  byteOrder :: string
  loader :: string
  compilerRTArch :: string
  lldEmulation :: string
  packageArch :: string
  qemuUser :: string
  wordBits :: nat
  elfClass :: nat
  elfMachine :: nat
  plainCharSigned :: bool

definition info_x86_64 :: TargetInfo where
  "info_x86_64 = \<lparr>
     target_id = ''x86_64'',
     triple = ''x86_64-unknown-linux-gnu'',
     sysrootTriple = ''x86_64-linux-gnu'',
     target_layout = ''e-m:e-p270:32:32-p271:32:32-p272:64:64-i64:64-i128:128-f80:128-n8:16:32:64-S128'',
     multiarch = ''x86_64-linux-gnu'',
     gccTriple = ''x86_64-linux-gnu'',
     llvmBackend = ''X86'',
     target_abi = ''sysv-amd64'',
     cpu = ''x86-64'',
     target_features = ''+cmov,+cx8,+fxsr,+mmx,+sse,+sse2,+x87'',
     floatABI = ''default'',
     byteOrder = ''little'',
     loader = ''ld-linux-x86-64.so.2'',
     compilerRTArch = ''x86_64'',
     lldEmulation = ''elf_x86_64'',
     packageArch = ''amd64'',
     qemuUser = ''qemu-x86_64'',
     wordBits = 64,
     elfClass = 2,
     elfMachine = 62,
     plainCharSigned = True\<rparr>"

definition info_i686 :: TargetInfo where
  "info_i686 = \<lparr>
     target_id = ''i686'',
     triple = ''i686-unknown-linux-gnu'',
     sysrootTriple = ''i686-linux-gnu'',
     target_layout = ''e-m:e-p:32:32-p270:32:32-p271:32:32-p272:64:64-i128:128-f64:32:64-f80:32-n8:16:32-S128'',
     multiarch = ''i386-linux-gnu'',
     gccTriple = ''i686-linux-gnu'',
     llvmBackend = ''X86'',
     target_abi = ''sysv-i386'',
     cpu = ''i686'',
     target_features = ''+cmov,+cx8,+x87'',
     floatABI = ''default'',
     byteOrder = ''little'',
     loader = ''ld-linux.so.2'',
     compilerRTArch = ''i386'',
     lldEmulation = ''elf_i386'',
     packageArch = ''i386'',
     qemuUser = ''qemu-i386'',
     wordBits = 32,
     elfClass = 1,
     elfMachine = 3,
     plainCharSigned = True\<rparr>"

definition info_armv7 :: TargetInfo where
  "info_armv7 = \<lparr>
     target_id = ''armv7'',
     triple = ''armv7-unknown-linux-gnueabihf'',
     sysrootTriple = ''armv7-linux-gnueabihf'',
     target_layout = ''e-m:e-p:32:32-Fi8-i64:64-v128:64:128-a:0:32-n32-S64'',
     multiarch = ''arm-linux-gnueabihf'',
     gccTriple = ''arm-linux-gnueabihf'',
     llvmBackend = ''ARM'',
     target_abi = ''aapcs32-vfp'',
     cpu = ''generic'',
     target_features = ''+armv7-a,+dsp,+fp64,+vfp2,+vfp2sp,+vfp3d16,+vfp3d16sp,-aes,-d32,-fp-armv8,-fp-armv8d16,-fp-armv8d16sp,-fp-armv8sp,-fp16,-fp16fml,-fullfp16,-neon,-sha2,-thumb-mode,-vfp3,-vfp3sp,-vfp4,-vfp4d16,-vfp4d16sp,-vfp4sp'',
     floatABI = ''hard'',
     byteOrder = ''little'',
     loader = ''ld-linux-armhf.so.3'',
     compilerRTArch = ''armhf'',
     lldEmulation = ''armelf_linux_eabi'',
     packageArch = ''armhf'',
     qemuUser = ''qemu-arm'',
     wordBits = 32,
     elfClass = 1,
     elfMachine = 40,
     plainCharSigned = False\<rparr>"

definition info_aarch64 :: TargetInfo where
  "info_aarch64 = \<lparr>
     target_id = ''aarch64'',
     triple = ''aarch64-unknown-linux-gnu'',
     sysrootTriple = ''aarch64-linux-gnu'',
     target_layout = ''e-m:e-i8:8:32-i16:16:32-i64:64-i128:128-n32:64-S128'',
     multiarch = ''aarch64-linux-gnu'',
     gccTriple = ''aarch64-linux-gnu'',
     llvmBackend = ''AArch64'',
     target_abi = ''aapcs64'',
     cpu = ''generic'',
     target_features = ''+fp-armv8,+neon,+v8a,-fmv,-outline-atomics'',
     floatABI = ''default'',
     byteOrder = ''little'',
     loader = ''ld-linux-aarch64.so.1'',
     compilerRTArch = ''aarch64'',
     lldEmulation = ''aarch64linux'',
     packageArch = ''arm64'',
     qemuUser = ''qemu-aarch64'',
     wordBits = 64,
     elfClass = 2,
     elfMachine = 183,
     plainCharSigned = False\<rparr>"

definition all_targets :: "TargetInfo list" where
  "all_targets = [info_x86_64, info_i686, info_armv7, info_aarch64]"

text \<open>\<open>targets::find\<close>: the first registry entry with this identity, or a null pointer.\<close>

definition targets_find :: "string \<Rightarrow> TargetInfo option" where
  "targets_find i = List.find (\<lambda>t. target_id t = i) all_targets"

definition clangArgs :: "TargetInfo \<Rightarrow> string list" where
  "clangArgs t =
     (if target_id t = ''armv7'' then [''-march=armv7-a'', ''-mfpu=vfpv3-d16'', ''-mfloat-abi=hard'']
      else if target_id t = ''aarch64'' then [''-march=armv8-a'']
      else [])"

definition publicationArgs :: "TargetInfo \<Rightarrow> string list" where
  "publicationArgs t =
     (if target_id t = ''aarch64'' then [''-mno-outline-atomics'', ''-mno-fmv''] else [])"

lemma target_id_simps [simp]:
  "target_id info_x86_64 = ''x86_64''"
  "target_id info_i686 = ''i686''"
  "target_id info_armv7 = ''armv7''"
  "target_id info_aarch64 = ''aarch64''"
  by (simp_all add: info_x86_64_def info_i686_def info_armv7_def info_aarch64_def)

lemma wordBits_simps [simp]:
  "wordBits info_x86_64 = 64"
  "wordBits info_i686 = 32"
  "wordBits info_armv7 = 32"
  "wordBits info_aarch64 = 64"
  by (simp_all add: info_x86_64_def info_i686_def info_armv7_def info_aarch64_def)

lemma llvmBackend_simps [simp]:
  "llvmBackend info_x86_64 = ''X86''"
  "llvmBackend info_i686 = ''X86''"
  "llvmBackend info_armv7 = ''ARM''"
  "llvmBackend info_aarch64 = ''AArch64''"
  by (simp_all add: info_x86_64_def info_i686_def info_armv7_def info_aarch64_def)

definition all_target_ids :: "string list" where
  "all_target_ids = map target_id all_targets"

lemma all_target_ids_eq: "all_target_ids = [''x86_64'', ''i686'', ''armv7'', ''aarch64'']"
  by (simp add: all_target_ids_def all_targets_def)

lemma distinct_all_target_ids: "distinct all_target_ids"
  by (simp add: all_target_ids_eq)

lemma targets_find_simps [simp]:
  "targets_find ''x86_64'' = Some info_x86_64"
  "targets_find ''i686'' = Some info_i686"
  "targets_find ''armv7'' = Some info_armv7"
  "targets_find ''aarch64'' = Some info_aarch64"
  by (simp_all add: targets_find_def all_targets_def)

lemma targets_find_Some_iff:
  "targets_find i = Some t \<longleftrightarrow> t \<in> set all_targets \<and> target_id t = i"
  using distinct_all_target_ids
  unfolding targets_find_def all_target_ids_def by (rule find_key_iff)

lemma targets_find_None_iff: "targets_find i = None \<longleftrightarrow> i \<notin> set all_target_ids"
  by (simp add: targets_find_def find_key_None_iff all_target_ids_def)

lemma targets_find_known_iff: "targets_find i \<noteq> None \<longleftrightarrow> i \<in> set all_target_ids"
  by (simp add: targets_find_None_iff)

lemma targets_find_id: "targets_find i = Some t \<Longrightarrow> target_id t = i"
  by (simp add: targets_find_Some_iff)

section \<open>Publication target selection\<close>

text \<open>\<open>StringRef::split(fields, ',', -1, true)\<close>: empty fields are kept, the empty text has one.\<close>

fun split_on :: "char \<Rightarrow> string \<Rightarrow> string list" where
  "split_on c [] = [[]]"
| "split_on c (x # xs) =
     (if x = c then [] # split_on c xs
      else case split_on c xs of [] \<Rightarrow> [[x]] | w # ws \<Rightarrow> (x # w) # ws)"

text \<open>\<open>targetSelectionText\<close>: a comma before every target but the first non-empty prefix.\<close>

fun selection_text_from :: "string \<Rightarrow> string list \<Rightarrow> string" where
  "selection_text_from result [] = result"
| "selection_text_from result (t # ts) =
     selection_text_from ((if result \<noteq> [] then result @ '','' else result) @ t) ts"

definition targetSelectionText :: "string list \<Rightarrow> string" where
  "targetSelectionText ts = selection_text_from [] ts"

text \<open>The loop of \<open>parseTargetSelection\<close> over the fields, for a registry with the identities \<open>ids\<close>.\<close>

definition select_field :: "string list \<Rightarrow> string \<Rightarrow> string set \<Rightarrow> string set expected" where
  "select_field ids field selected =
     (if field = [] then Inl ''architecture selection contains an empty target''
      else if field \<notin> set ids then Inl (''unknown publication architecture: '' @ field)
      else if field \<in> selected then Inl (''duplicate publication architecture: '' @ field)
      else Inr (insert field selected))"

definition parse_selection :: "string list \<Rightarrow> string \<Rightarrow> string list expected" where
  "parse_selection ids text =
     bindE (foldE (select_field ids) (split_on CHR '','' text) {})
       (\<lambda>selected. Inr (filter (\<lambda>i. i \<in> selected) ids))"

definition parseTargetSelection :: "string \<Rightarrow> string list expected" where
  "parseTargetSelection text = parse_selection all_target_ids text"

text \<open>\<open>publicationTargets\<close>; \<open>env\<close> is the value of \<open>SELA_ARCHS\<close>, \<open>None\<close> when it is unset.\<close>

definition publicationTargets :: "string list \<Rightarrow> string option \<Rightarrow> string list expected" where
  "publicationTargets requested env =
     (if requested \<noteq> [] then
        bindE (forE (\<lambda>t. if targets_find t = None
                         then Inl (''unknown publication architecture: '' @ t) else success) requested)
          (\<lambda>_. parseTargetSelection (targetSelectionText requested))
      else case env of
        Some configured \<Rightarrow> parseTargetSelection configured
      | None \<Rightarrow> Inr all_target_ids)"

section \<open>Selection over any registry\<close>

text \<open>
  What the selection relies on in a registry: its identities are distinct, non-empty and free of
  the separator.
\<close>

locale target_registry =
  fixes ids :: "string list"
  assumes ids_distinct: "distinct ids"
    and ids_nonempty: "[] \<notin> set ids"
    and ids_no_comma: "i \<in> set ids \<Longrightarrow> CHR '','' \<notin> set i"
begin

lemma select_fields_iff:
  "foldE (select_field ids) parts seen = Inr s \<longleftrightarrow>
     distinct parts \<and> set parts \<subseteq> set ids \<and> set parts \<inter> seen = {} \<and> s = seen \<union> set parts"
proof (induction parts arbitrary: seen)
  case Nil
  then show ?case by auto
next
  case (Cons f fs)
  show ?case
  proof (cases "f \<in> set ids \<and> f \<notin> seen")
    case True
    then have "f \<noteq> []" using ids_nonempty by auto
    with True Cons.IH [of "insert f seen"] show ?thesis by (auto simp: select_field_def)
  next
    case False
    then show ?thesis by (auto simp: select_field_def)
  qed
qed

lemma parse_selection_iff:
  "parse_selection ids text = Inr r \<longleftrightarrow>
     distinct (split_on CHR '','' text) \<and> set (split_on CHR '','' text) \<subseteq> set ids \<and>
     r = filter (\<lambda>i. i \<in> set (split_on CHR '','' text)) ids"
  by (auto simp: parse_selection_def bindE_Inr_iff select_fields_iff)

lemma parse_selection_set:
  assumes "parse_selection ids text = Inr r"
  shows "set r = set (split_on CHR '','' text)" "distinct r"
  using assms ids_distinct by (auto simp: parse_selection_iff)

end

lemma split_on_append_sep:
  "c \<notin> set w \<Longrightarrow> split_on c (w @ c # rest) = w # split_on c rest"
  by (induction w) auto

lemma split_on_no_sep: "c \<notin> set w \<Longrightarrow> split_on c w = [w]"
  by (induction w) auto

lemma selection_text_from_nonempty:
  "r \<noteq> [] \<Longrightarrow> (\<forall>t \<in> set ts. CHR '','' \<notin> set t) \<Longrightarrow>
   \<exists>suffix. selection_text_from r ts = r @ suffix \<and>
     (ts = [] \<longrightarrow> suffix = []) \<and>
     (ts \<noteq> [] \<longrightarrow> (\<exists>rest. suffix = CHR '','' # rest \<and> split_on CHR '','' rest = ts))"
proof (induction ts arbitrary: r)
  case Nil
  then show ?case by simp
next
  case (Cons t ts)
  obtain s where s: "selection_text_from (r @ '','' @ t) ts = (r @ '','' @ t) @ s"
    "ts = [] \<longrightarrow> s = []"
    "ts \<noteq> [] \<longrightarrow> (\<exists>rest. s = CHR '','' # rest \<and> split_on CHR '','' rest = ts)"
    using Cons.IH [of "r @ '','' @ t"] Cons.prems by auto
  have t: "CHR '','' \<notin> set t" using Cons.prems by simp
  have "split_on CHR '','' (t @ s) = t # ts"
    using s(2,3) t by (cases "ts = []") (auto simp: split_on_no_sep split_on_append_sep)
  with s Cons.prems show ?case by auto
qed

lemma split_targetSelectionText:
  assumes "ts \<noteq> []" and "\<forall>t \<in> set ts. t \<noteq> [] \<and> CHR '','' \<notin> set t"
  shows "split_on CHR '','' (targetSelectionText ts) = ts"
proof (cases ts)
  case Nil
  with assms show ?thesis by simp
next
  case (Cons t us)
  have t: "t \<noteq> []" "CHR '','' \<notin> set t" using assms Cons by auto
  obtain s where s: "selection_text_from t us = t @ s" "us = [] \<longrightarrow> s = []"
    "us \<noteq> [] \<longrightarrow> (\<exists>rest. s = CHR '','' # rest \<and> split_on CHR '','' rest = us)"
    using selection_text_from_nonempty [of t us] assms Cons by auto
  have "targetSelectionText ts = t @ s" by (simp add: targetSelectionText_def Cons s(1))
  with s(2,3) t Cons show ?thesis
    by (cases "us = []") (auto simp: split_on_no_sep split_on_append_sep)
qed

context target_registry
begin

lemma parse_text_roundtrip:
  assumes "ts \<noteq> []" "distinct ts" "set ts \<subseteq> set ids"
  shows "parse_selection ids (targetSelectionText ts) = Inr (filter (\<lambda>i. i \<in> set ts) ids)"
proof -
  have "\<forall>t \<in> set ts. t \<noteq> [] \<and> CHR '','' \<notin> set t"
    using assms(3) ids_nonempty ids_no_comma by blast
  then have "split_on CHR '','' (targetSelectionText ts) = ts"
    using split_targetSelectionText [OF assms(1)] by simp
  with assms show ?thesis by (simp add: parse_selection_iff)
qed

end

interpretation reg: target_registry all_target_ids
  by unfold_locales (auto simp: all_target_ids_eq)

lemma publicationTargets_explicit:
  assumes "requested \<noteq> []" "set requested \<subseteq> set all_target_ids"
  shows "publicationTargets requested env = parseTargetSelection (targetSelectionText requested)"
proof -
  have "forE (\<lambda>t. if targets_find t = None
               then Inl (''unknown publication architecture: '' @ t) else success) requested = Inr ()"
    using assms(2) by (auto simp: forE_success_iff targets_find_known_iff [symmetric])
  with assms(1) show ?thesis by (simp add: publicationTargets_def)
qed

end
