(* ===== verification/Std_Map.thy ===== *)
theory Std_Map
  imports Sela_Prelude "HOL-Library.List_Lexorder" "HOL-Library.Char_ord"
begin

text \<open>
  The parts of the C++ standard library the code leans on everywhere: \<open>std::map\<close> (an association
  list kept in key order, so that iteration order and size are those of the code) and decimal
  printing (\<open>std::to_string\<close>).
\<close>

section \<open>std::map\<close>

type_synonym ('k, 'v) smap = "('k \<times> 'v) list"

abbreviation smap_at :: "('k, 'v) smap \<Rightarrow> 'k \<Rightarrow> 'v option" where
  "smap_at \<equiv> map_of"

text \<open>\<open>m[k] = v\<close>.\<close>

fun smap_put :: "'k::linorder \<Rightarrow> 'v \<Rightarrow> ('k, 'v) smap \<Rightarrow> ('k, 'v) smap" where
  "smap_put k v [] = [(k, v)]"
| "smap_put k v ((l, w) # m) =
     (if k < l then (k, v) # (l, w) # m
      else if k = l then (k, v) # m
      else (l, w) # smap_put k v m)"

text \<open>\<open>m.emplace(k, v)\<close> and \<open>m.try_emplace(k, v)\<close>: an existing key keeps its value.\<close>

definition smap_emplace :: "'k::linorder \<Rightarrow> 'v \<Rightarrow> ('k, 'v) smap \<Rightarrow> ('k, 'v) smap" where
  "smap_emplace k v m = (if map_of m k = None then smap_put k v m else m)"

definition smap_wf :: "('k::linorder, 'v) smap \<Rightarrow> bool" where
  "smap_wf m \<longleftrightarrow> sorted_wrt (<) (map fst m)"

lemma smap_wf_Nil [simp]: "smap_wf []"
  by (simp add: smap_wf_def)

lemma smap_at_put: "smap_wf m \<Longrightarrow> map_of (smap_put k v m) = (map_of m)(k \<mapsto> v)"
proof
  fix x assume "smap_wf m"
  then show "map_of (smap_put k v m) x = ((map_of m)(k \<mapsto> v)) x"
    by (induction m) (auto simp: smap_wf_def)
qed

lemma smap_put_keys: "fst ` set (smap_put k v m) = insert k (fst ` set m)"
  by (induction k v m rule: smap_put.induct) (simp_all add: insert_commute)

lemma smap_put_wf: "smap_wf m \<Longrightarrow> smap_wf (smap_put k v m)"
proof (induction m)
  case Nil
  then show ?case by (simp add: smap_wf_def)
next
  case (Cons p m)
  obtain l w where p: "p = (l, w)" by fastforce
  have wf: "smap_wf m" and lt: "\<forall>x \<in> fst ` set m. l < x"
    using Cons.prems by (auto simp: smap_wf_def p)
  have IH: "smap_wf (smap_put k v m)" using Cons.IH wf by simp
  have "\<forall>x \<in> fst ` set (smap_put k v m). x = k \<or> l < x"
    using lt by (auto simp only: smap_put_keys)
  with IH wf lt show ?case by (fastforce simp: smap_wf_def p)
qed

text \<open>The interface of a map object: what its operations do to lookups, domain and invariant.\<close>

locale std_map =
  fixes at :: "'m \<Rightarrow> 'k \<Rightarrow> 'v option"
    and put :: "'k \<Rightarrow> 'v \<Rightarrow> 'm \<Rightarrow> 'm"
    and empty :: "'m"
    and count :: "'m \<Rightarrow> nat"
    and invar :: "'m \<Rightarrow> bool"
  assumes at_empty: "at empty k = None"
    and at_put: "invar m \<Longrightarrow> at (put k v m) = (at m)(k \<mapsto> v)"
    and invar_empty: "invar empty"
    and invar_put: "invar m \<Longrightarrow> invar (put k v m)"
    and count_dom: "invar m \<Longrightarrow> finite (dom (at m)) \<and> count m = card (dom (at m))"
begin

lemma puts_invar: "invar m \<Longrightarrow> invar (fold (\<lambda>(k, v). put k v) kvs m)"
  by (induction kvs arbitrary: m) (auto intro: invar_put)

lemma puts_at_notin:
  "invar m \<Longrightarrow> k \<notin> fst ` set kvs \<Longrightarrow> at (fold (\<lambda>(k, v). put k v) kvs m) k = at m k"
  by (induction kvs arbitrary: m) (auto simp: at_put invar_put)

lemma puts_at:
  "invar m \<Longrightarrow> distinct (map fst kvs) \<Longrightarrow> (k, v) \<in> set kvs \<Longrightarrow>
   at (fold (\<lambda>(k, v). put k v) kvs m) k = Some v"
proof (induction kvs arbitrary: m)
  case Nil
  then show ?case by simp
next
  case (Cons p kvs)
  obtain l w where p: "p = (l, w)" by fastforce
  show ?case
  proof (cases "(k, v) = (l, w)")
    case True
    with Cons.prems show ?thesis
      by (auto simp: p puts_at_notin invar_put at_put)
  next
    case False
    with Cons show ?thesis by (auto simp: p invar_put)
  qed
qed

lemma puts_dom:
  "invar m \<Longrightarrow> dom (at (fold (\<lambda>(k, v). put k v) kvs m)) = dom (at m) \<union> fst ` set kvs"
  by (induction kvs arbitrary: m) (simp_all add: at_put invar_put case_prod_unfold)

lemma put_count: "invar m \<Longrightarrow> count (put k v m) = (if at m k = None then Suc (count m) else count m)"
  using count_dom [of m] count_dom [of "put k v m"]
  by (auto simp: invar_put at_put card_insert_if domIff)

text \<open>If a set of keys is covered by the map and has its size, it is the map's domain.\<close>

lemma covers_dom:
  assumes "invar m" "S \<subseteq> dom (at m)" "card S = count m"
  shows "S = dom (at m)"
  using assms count_dom [of m] by (metis card_subset_eq)

end

lemma smap_wf_distinct: "smap_wf m \<Longrightarrow> distinct (map fst m)"
  by (auto simp: smap_wf_def strict_sorted_iff)

interpretation smap: std_map map_of smap_put "[]" length smap_wf
proof unfold_locales
  fix m :: "('a::linorder \<times> 'b) list" assume "smap_wf m"
  then have d: "distinct (map fst m)" by (rule smap_wf_distinct)
  have "card (dom (map_of m)) = length m"
    using d distinct_card [OF d] by (simp add: dom_map_of_conv_image_fst)
  then show "finite (dom (map_of m)) \<and> length m = card (dom (map_of m))"
    by (simp add: finite_dom_map_of)
qed (simp_all add: smap_at_put smap_put_wf)

lemma smap_emplace_wf: "smap_wf m \<Longrightarrow> smap_wf (smap_emplace k v m)"
  by (simp add: smap_emplace_def smap_put_wf)

lemma smap_at_emplace:
  "smap_wf m \<Longrightarrow> map_of (smap_emplace k v m) =
     (if map_of m k = None then (map_of m)(k \<mapsto> v) else map_of m)"
  by (simp add: smap_emplace_def smap_at_put)

section \<open>std::to_string\<close>

definition digit_char :: "nat \<Rightarrow> char" where
  "digit_char d = char_of (48 + d)"

fun to_string :: "nat \<Rightarrow> string" where
  "to_string n = (if n < 10 then [digit_char n] else to_string (n div 10) @ [digit_char (n mod 10)])"

declare to_string.simps [simp del]

lemma digit_char_inj: "a < 10 \<Longrightarrow> b < 10 \<Longrightarrow> digit_char a = digit_char b \<Longrightarrow> a = b"
proof -
  assume ab: "a < 10" "b < 10" and "digit_char a = digit_char b"
  then have "(of_char (char_of (48 + a)) :: nat) = of_char (char_of (48 + b))"
    by (simp add: digit_char_def)
  with ab show "a = b" by simp
qed

definition of_digits :: "string \<Rightarrow> nat" where
  "of_digits s = foldl (\<lambda>n c. 10 * n + (of_char c - 48)) 0 s"

lemma of_digits_to_string: "of_digits (to_string n) = n"
proof (induction n rule: to_string.induct)
  case (1 n)
  have digit: "d < 10 \<Longrightarrow> of_char (digit_char d) = 48 + d" for d :: nat
    by (simp add: digit_char_def)
  show ?case
  proof (cases "n < 10")
    case True
    then show ?thesis by (subst to_string.simps) (simp add: of_digits_def digit)
  next
    case False
    then have IH: "of_digits (to_string (n div 10)) = n div 10" using 1 by simp
    from False show ?thesis
      by (subst to_string.simps) (use IH in \<open>simp add: of_digits_def digit\<close>)
  qed
qed

lemma to_string_inj [simp]: "to_string a = to_string b \<longleftrightarrow> a = b"
  by (metis of_digits_to_string)

end
