(* ===== verification/Json_Model.thy ===== *)
theory Json_Model
  imports Std_Map Complex_Main
begin

text \<open>
  JSON values as the code sees them through \<open>llvm::json\<close>: the accessors it uses, and the
  third-party codec functions (\<open>llvm::json::parse\<close>, the \<open>formatv\<close> printer behind \<open>jsonText\<close>,
  SHA-256 behind \<open>digest\<close>), which are parameters collected in one record.
\<close>

datatype json =
    JNull
  | JBool bool
  | JInt int
  | JDouble rat
  | JString string
  | JArray "json list"
  | JObject "(string \<times> json) list"

type_synonym json_object = "(string \<times> json) list"

record codec =
  json_parse :: "string \<Rightarrow> json expected"
  json_text :: "json \<Rightarrow> string"
  digest :: "string \<Rightarrow> string"

fun getAsString :: "json \<Rightarrow> string option" where
  "getAsString (JString s) = Some s"
| "getAsString _ = None"

fun getAsArray :: "json \<Rightarrow> json list option" where
  "getAsArray (JArray a) = Some a"
| "getAsArray _ = None"

fun getAsObject :: "json \<Rightarrow> json_object option" where
  "getAsObject (JObject m) = Some m"
| "getAsObject _ = None"

text \<open>
  \<open>getAsInteger\<close>: the value when it is representable as \<open>int64_t\<close>; a double must be integral.
\<close>

definition int64_min :: int where "int64_min = - (2 ^ 63)"
definition int64_max :: int where "int64_max = 2 ^ 63 - 1"

fun getAsInteger :: "json \<Rightarrow> int option" where
  "getAsInteger (JInt i) = (if int64_min \<le> i \<and> i \<le> int64_max then Some i else None)"
| "getAsInteger (JDouble q) =
     (if of_int \<lfloor>q\<rfloor> = q \<and> int64_min \<le> \<lfloor>q\<rfloor> \<and> \<lfloor>q\<rfloor> \<le> int64_max then Some \<lfloor>q\<rfloor> else None)"
| "getAsInteger _ = None"

definition obj_get :: "json_object \<Rightarrow> string \<Rightarrow> json option" where
  "obj_get m k = map_of m k"

definition getString :: "json_object \<Rightarrow> string \<Rightarrow> string option" where
  "getString m k = Option.bind (map_of m k) getAsString"

definition getInteger :: "json_object \<Rightarrow> string \<Rightarrow> int option" where
  "getInteger m k = Option.bind (map_of m k) getAsInteger"

definition getArray :: "json_object \<Rightarrow> string \<Rightarrow> json list option" where
  "getArray m k = Option.bind (map_of m k) getAsArray"

definition getObject :: "json_object \<Rightarrow> string \<Rightarrow> json_object option" where
  "getObject m k = Option.bind (map_of m k) getAsObject"

lemmas json_get_defs = obj_get_def getString_def getInteger_def getArray_def getObject_def

lemma getAsString_eq_Some [simp]: "getAsString v = Some s \<longleftrightarrow> v = JString s"
  by (cases v) auto

lemma getAsArray_eq_Some [simp]: "getAsArray v = Some a \<longleftrightarrow> v = JArray a"
  by (cases v) auto

lemma getAsObject_eq_Some [simp]: "getAsObject v = Some m \<longleftrightarrow> v = JObject m"
  by (cases v) auto

lemma getAsInteger_JInt: "0 \<le> i \<Longrightarrow> i \<le> int64_max \<Longrightarrow> getAsInteger (JInt i) = Some i"
  by (simp add: int64_min_def int64_max_def)

text \<open>
  The elements of a string array, as the loops \<open>for (auto \&x : *array)\<close> with \<open>x.getAsString()\<close>
  collect them; \<open>None\<close> when an element is not a string.
\<close>

fun string_items :: "json list \<Rightarrow> string list option" where
  "string_items [] = Some []"
| "string_items (v # vs) =
     (case getAsString v of
        None \<Rightarrow> None
      | Some s \<Rightarrow> map_option (\<lambda>ss. s # ss) (string_items vs))"

lemma string_items_map [simp]: "string_items (map JString ss) = Some ss"
  by (induction ss) auto

lemma string_items_Some_iff: "string_items vs = Some ss \<longleftrightarrow> vs = map JString ss"
  by (induction vs arbitrary: ss) (auto split: option.splits)

end
