(* ===== verification/Artifact.thy ===== *)
theory Artifact
  imports Targets Json_Model
begin

text \<open>
  The publication format (\<open>src/artifact/Artifact.cpp\<close>, \<open>include/sela/Artifact/Artifact.h\<close>): names,
  version scripts, the manifest and its validation, the compilation and link plans, and the
  construction of an artifact.
\<close>

section \<open>Data\<close>

type_synonym package_files = "(string, string) smap"

record ArtifactModule =
  am_bytecode :: string
  am_optimization :: string
  am_archiveMember :: string
  am_targets :: "string list"

record ArtifactUnit =
  au_modules :: "nat list"
  au_optimization :: string
  au_archiveMember :: string

type_synonym CompilationPlan = "(string, ArtifactUnit list) smap"

record ArtifactLink =
  al_libraries :: "string list"
  al_options :: "string list"
  al_versionScript :: string

type_synonym LinkPlan = "(string, ArtifactLink) smap"

definition Contract :: string where "Contract = ''sela-prealpha-2''"
definition ArtifactFormatVersion :: int where "ArtifactFormatVersion = 2"
definition MaxBytes :: nat where "MaxBytes = 64 * 1024 * 1024"
definition MaxFiles :: nat where "MaxFiles = 512"
definition Runtime :: string where "Runtime = ''glibc-2.39-0ubuntu8.8''"

definition defaultArtifactTargets :: "string list" where
  "defaultArtifactTargets = all_target_ids"

section \<open>Names\<close>

definition in_range :: "char \<Rightarrow> char \<Rightarrow> char \<Rightarrow> bool" where
  "in_range lo hi c \<longleftrightarrow> (of_char lo :: nat) \<le> of_char c \<and> (of_char c :: nat) \<le> of_char hi"

definition alnum :: "char \<Rightarrow> bool" where
  "alnum c \<longleftrightarrow> in_range CHR ''a'' CHR ''z'' c \<or> in_range CHR ''A'' CHR ''Z'' c \<or>
     in_range CHR ''0'' CHR ''9'' c"

definition validName :: "string \<Rightarrow> bool" where
  "validName name \<longleftrightarrow> name \<noteq> [] \<and> length name \<le> 64 \<and>
     list_all (\<lambda>c. alnum c \<or> c = CHR ''_'' \<or> c = CHR ''-'') name"

definition file_char :: "char \<Rightarrow> bool" where
  "file_char c \<longleftrightarrow> alnum c \<or> c = CHR ''_'' \<or> c = CHR ''-'' \<or> c = CHR ''.'' \<or> c = CHR ''+''"

definition validLibrary :: "string \<Rightarrow> bool" where
  "validLibrary name =
     (case name of
        [] \<Rightarrow> validName name
      | c # rest \<Rightarrow>
          if c = CHR '':'' then
            \<not> (rest = [] \<or> length rest > 128 \<or> rest = ''.'' \<or> rest = ''..'') \<and> list_all file_char rest
          else validName name)"

definition validArchiveMember :: "string \<Rightarrow> bool" where
  "validArchiveMember name \<longleftrightarrow> name \<noteq> [] \<and> length name \<le> 128 \<and> name \<noteq> ''.'' \<and> name \<noteq> ''..'' \<and>
     list_all file_char name"

section \<open>Symbol version scripts\<close>

definition starts_with :: "string \<Rightarrow> string \<Rightarrow> bool" where
  "starts_with pre s \<longleftrightarrow> take (length pre) s = pre"

text \<open>What follows the first occurrence of \<open>*/\<close>.\<close>

fun after_close :: "string \<Rightarrow> string option" where
  "after_close [] = None"
| "after_close (c # cs) = (if starts_with ''*/'' (c # cs) then Some (drop 1 cs) else after_close cs)"

lemma after_close_length: "after_close s = Some r \<Longrightarrow> length r < length s"
  by (induction s) (auto split: if_splits)

definition newline :: char where "newline = CHR 0x0A"

definition script_char :: "char \<Rightarrow> bool" where
  "script_char c \<longleftrightarrow> alnum c \<or> c \<in> set ''_.*?[]+-;:{} '' \<or> c = CHR 0x09 \<or> c = CHR 0x0D \<or> c = newline"

text \<open>The scanning loop from one position on: the output still to be pushed.\<close>

function scan_script :: "string \<Rightarrow> string expected" where
  "scan_script [] = Inr []"
| "scan_script (c # cs) =
     (if starts_with ''/*'' (c # cs) then
        (case after_close (drop 1 cs) of
           None \<Rightarrow> Inl ''unterminated version script comment''
         | Some rest \<Rightarrow> bindE (scan_script rest) (\<lambda>out. Inr (CHR '' '' # out)))
      else if starts_with ''//'' (c # cs) \<or> c = CHR ''#'' then
        bindE (scan_script (dropWhile (\<lambda>d. d \<noteq> newline) (c # cs))) (\<lambda>out. Inr (CHR '' '' # out))
      else if \<not> script_char c then Inl ''unqualified C symbol version script syntax''
      else bindE (scan_script cs) (\<lambda>out. Inr (c # out)))"
  by pat_completeness auto
termination
proof (relation "measure length")
  fix c cs rest
  assume "after_close (drop 1 cs) = Some rest"
  then have "length rest < length (drop 1 cs)" by (rule after_close_length)
  then show "(rest, c # cs) \<in> measure length" by simp
next
  fix c :: char and cs
  assume "starts_with ''//'' (c # cs) \<or> c = CHR ''#''"
  then have "c \<noteq> newline" by (auto simp: starts_with_def newline_def)
  then show "(dropWhile (\<lambda>d. d \<noteq> newline) (c # cs), c # cs) \<in> measure length"
    by (simp add: le_imp_less_Suc length_dropWhile_le)
qed simp_all

text \<open>The characters \<open>StringRef::trim\<close> removes.\<close>

definition trim_char :: "char \<Rightarrow> bool" where
  "trim_char c \<longleftrightarrow> c = CHR '' '' \<or> c = CHR 0x09 \<or> c = newline \<or> c = CHR 0x0B \<or> c = CHR 0x0C \<or> c = CHR 0x0D"

definition normalizeVersionScript :: "string \<Rightarrow> string expected" where
  "normalizeVersionScript text =
     (if text = [] \<or> length text > 65536 then Inl ''empty or oversized symbol version script''
      else bindE (scan_script text) (\<lambda>output.
        if list_all trim_char output then Inl ''symbol version script has no declarations''
        else Inr output))"

section \<open>The compilation plan\<close>

definition domain_id :: "json \<Rightarrow> string set \<Rightarrow> string set expected" where
  "domain_id value ids =
     (case getAsString value of
        None \<Rightarrow> Inl ''invalid module target domain''
      | Some i \<Rightarrow> if i \<in> ids then Inl ''invalid module target domain'' else Inr (insert i ids))"

definition module_domain :: "json \<Rightarrow> string set expected" where
  "module_domain entry =
     (case Option.bind (getAsObject entry) (\<lambda>record. getArray record ''targets'') of
        None \<Rightarrow> Inl ''missing module target domain''
      | Some domain \<Rightarrow>
          if domain = [] then Inl ''missing module target domain''
          else foldE domain_id domain {})"

text \<open>One entry of a unit's \<open>modules\<close>; the state is \<open>(seen, record.modules)\<close>.\<close>

definition plan_member ::
  "string set list \<Rightarrow> string \<Rightarrow> json \<Rightarrow> bool list \<times> nat list \<Rightarrow> (bool list \<times> nat list) expected" where
  "plan_member domains name member st =
     (case st of (seen, modules) \<Rightarrow>
        (case getAsInteger member of
           None \<Rightarrow> Inl ''compilation-unit plan duplicates or misreferences a common fragment''
         | Some i \<Rightarrow>
             if i < 0 \<or> length domains \<le> nat i \<or> seen ! nat i
             then Inl ''compilation-unit plan duplicates or misreferences a common fragment''
             else if name \<notin> domains ! nat i
             then Inl ''compilation-unit plan includes an inactive target fragment''
             else Inr (seen[nat i := True], modules @ [nat i])))"

definition unit_field :: "string \<times> json \<Rightarrow> unit expected" where
  "unit_field field =
     (if fst field \<noteq> ''modules'' \<and> fst field \<noteq> ''optimization'' \<and> fst field \<noteq> ''archive_member''
      then Inl (''unknown compilation-unit field: '' @ fst field) else success)"

definition optimization_levels :: "string list" where
  "optimization_levels = [''O0'', ''O1'', ''O2'', ''O3'', ''Os'', ''Oz'']"

definition unit_archive_member :: "string \<Rightarrow> json_object \<Rightarrow> string expected" where
  "unit_archive_member kind unit =
     (if kind = ''static'' then
        (case getString unit ''archive_member'' of
           None \<Rightarrow> Inl ''invalid static archive member identity''
         | Some member \<Rightarrow> if \<not> validArchiveMember member
                          then Inl ''invalid static archive member identity'' else Inr member)
      else if obj_get unit ''archive_member'' \<noteq> None
      then Inl ''archive member identity requires static output''
      else Inr [])"

text \<open>One compilation unit; the state is \<open>(seen, destination)\<close>.\<close>

definition plan_unit ::
  "string \<Rightarrow> string set list \<Rightarrow> string \<Rightarrow> json \<Rightarrow> bool list \<times> ArtifactUnit list \<Rightarrow>
   (bool list \<times> ArtifactUnit list) expected" where
  "plan_unit kind domains name entry st =
     (case getAsObject entry of
        None \<Rightarrow> Inl ''invalid compilation-unit record''
      | Some unit \<Rightarrow>
          bindE (forE unit_field unit) (\<lambda>_.
          (case (getArray unit ''modules'', getString unit ''optimization'') of
             (Some members, Some optimization) \<Rightarrow>
               if members = [] \<or> optimization \<notin> set optimization_levels
               then Inl ''invalid compilation-unit members or optimization''
               else
                 bindE (unit_archive_member kind unit) (\<lambda>member.
                 bindE (foldE (plan_member domains name) members (fst st, [])) (\<lambda>(seen, modules).
                   Inr (seen, snd st @ [\<lparr>au_modules = modules, au_optimization = optimization,
                                          au_archiveMember = member\<rparr>])))
           | _ \<Rightarrow> Inl ''invalid compilation-unit members or optimization'')))"

definition plan_target ::
  "string \<Rightarrow> json_object \<Rightarrow> string set list \<Rightarrow> json \<Rightarrow> CompilationPlan \<Rightarrow> CompilationPlan expected" where
  "plan_target kind plans domains target result =
     (case getAsString target of
        None \<Rightarrow> Inl ''invalid compilation target''
      | Some name \<Rightarrow>
          (case getArray plans name of
             None \<Rightarrow> Inl ''invalid compilation-unit inventory''
           | Some units \<Rightarrow>
               if length units > length domains then Inl ''invalid compilation-unit inventory''
               else
                 bindE (foldE (plan_unit kind domains name) units
                          (replicate (length domains) False, case map_of result name of None \<Rightarrow> [] | Some us \<Rightarrow> us))
                   (\<lambda>(seen, destination).
                     if list_ex (\<lambda>i. name \<in> domains ! i \<and> \<not> seen ! i) [0..<length domains]
                     then Inl ''compilation-unit plan drops an active target fragment''
                     else Inr (smap_put name destination result))))"

definition readCompilationPlan :: "json_object \<Rightarrow> CompilationPlan expected" where
  "readCompilationPlan manifest =
     (case (getObject manifest ''compilation_units'', getArray manifest ''targets'',
            getArray manifest ''modules'', getString manifest ''kind'') of
        (Some plans, Some targets, Some modules, Some kind) \<Rightarrow>
          if length plans \<noteq> length targets
          then Inl ''missing or inconsistent native compilation-unit plan''
          else bindE (mapE module_domain modules) (\<lambda>domains.
                 foldE (plan_target kind plans domains) targets [])
      | _ \<Rightarrow> Inl ''missing or inconsistent native compilation-unit plan'')"

section \<open>Link records\<close>

definition check_library :: "json \<Rightarrow> unit expected" where
  "check_library library =
     (case getAsString library of
        None \<Rightarrow> Inl ''invalid native library contract''
      | Some name \<Rightarrow> if \<not> validLibrary name then Inl ''invalid native library contract'' else success)"

definition check_link_option :: "string \<Rightarrow> json \<Rightarrow> unit expected" where
  "check_link_option kind option =
     (case getAsString option of
        None \<Rightarrow> Inl ''unqualified native link option''
      | Some text \<Rightarrow>
          if kind = ''object'' \<or> kind = ''static'' then Inl ''unqualified native link option''
          else if text = ''--export-dynamic'' \<or> text = ''--hash-style=both'' \<or> text = ''--undefined-version''
          then success
          else if kind \<noteq> ''shared'' \<or> \<not> starts_with ''-soname='' text \<or> \<not> validLibrary ('':'' @ drop 8 text)
          then Inl ''unqualified native link option''
          else success)"

definition check_version_script ::
  "codec \<Rightarrow> string \<Rightarrow> string \<Rightarrow> package_files \<Rightarrow> json \<Rightarrow> string set \<Rightarrow> string set expected" where
  "check_version_script c kind scriptPath files value expected =
     (case getAsObject value of
        None \<Rightarrow> Inl ''invalid symbol version script record''
      | Some script \<Rightarrow>
          if kind \<noteq> ''shared'' \<or> length script \<noteq> 2 \<or> getString script ''path'' \<noteq> Some scriptPath
          then Inl ''invalid symbol version script record''
          else (case smap_at files scriptPath of
             None \<Rightarrow> Inl ''missing or corrupt symbol version script''
           | Some contents \<Rightarrow>
               if getString script ''sha256'' \<noteq> Some (digest c contents)
               then Inl ''missing or corrupt symbol version script''
               else bindE (normalizeVersionScript contents) (\<lambda>normalized.
                 if normalized \<noteq> contents then Inl ''private comments in published symbol version script''
                 else Inr (insert scriptPath expected))))"

definition validateLinkRecord ::
  "codec \<Rightarrow> json_object \<Rightarrow> string \<Rightarrow> string \<Rightarrow> package_files \<Rightarrow> string set \<Rightarrow> string set expected" where
  "validateLinkRecord c object kind scriptPath files expected =
     (case getArray object ''libraries'' of
        None \<Rightarrow> Inl ''missing library declarations''
      | Some libraries \<Rightarrow>
          bindE (forE check_library libraries) (\<lambda>_.
          if kind = ''static'' \<and> libraries \<noteq> []
          then Inl ''static archive dependency linkage must be declared by its consuming native link''
          else (case getArray object ''link_options'' of
             None \<Rightarrow> Inl ''missing link options''
           | Some options \<Rightarrow>
               bindE (forE (check_link_option kind) options) (\<lambda>_.
               (case obj_get object ''version_script'' of
                  None \<Rightarrow> Inr expected
                | Some value \<Rightarrow> check_version_script c kind scriptPath files value expected)))))"

text \<open>
  \<open>readLinkPlan\<close> dereferences every accessor without a test; \<open>None\<close> is such a dereference of a
  missing value (undefined behaviour, or the exception of \<open>files.at\<close>).
\<close>

definition link_of_record :: "package_files \<Rightarrow> json_object \<Rightarrow> ArtifactLink \<Rightarrow> ArtifactLink option" where
  "link_of_record files record link =
     Option.bind (Option.bind (getArray record ''libraries'') string_items) (\<lambda>libraries.
     Option.bind (Option.bind (getArray record ''link_options'') string_items) (\<lambda>options.
     Option.bind
       (case getObject record ''version_script'' of
          None \<Rightarrow> Some (al_versionScript link)
        | Some script \<Rightarrow> Option.bind (getString script ''path'') (smap_at files))
       (\<lambda>script. Some \<lparr>al_libraries = al_libraries link @ libraries,
                        al_options = al_options link @ options, al_versionScript = script\<rparr>)))"

definition empty_link :: ArtifactLink where
  "empty_link = \<lparr>al_libraries = [], al_options = [], al_versionScript = []\<rparr>"

fun read_links :: "json_object \<Rightarrow> package_files \<Rightarrow> json list \<Rightarrow> LinkPlan \<Rightarrow> LinkPlan option" where
  "read_links manifest files [] plan = Some plan"
| "read_links manifest files (value # values) plan =
     Option.bind (getAsString value) (\<lambda>target.
     Option.bind (case getObject manifest ''target_links'' of
                    None \<Rightarrow> Some manifest
                  | Some byTarget \<Rightarrow> getObject byTarget target) (\<lambda>record.
     Option.bind (link_of_record files record
                    (case smap_at plan target of None \<Rightarrow> empty_link | Some l \<Rightarrow> l)) (\<lambda>link.
       read_links manifest files values (smap_put target link plan))))"

definition readLinkPlan :: "json_object \<Rightarrow> package_files \<Rightarrow> LinkPlan option" where
  "readLinkPlan manifest files =
     Option.bind (getArray manifest ''targets'') (\<lambda>targets. read_links manifest files targets [])"

section \<open>Validation of a package\<close>

definition manifest_fields :: "string list" where
  "manifest_fields = [''format_version'', ''contract'', ''kind'', ''runtime'', ''targets'', ''libraries'',
     ''modules'', ''link_options'', ''version_script'', ''compilation_units'', ''target_links'']"

definition known_field :: "string \<Rightarrow> string list \<Rightarrow> string \<times> json \<Rightarrow> unit expected" where
  "known_field message allowed entry =
     (if fst entry \<notin> set allowed then Inl (message @ fst entry) else success)"

definition seen_target :: "json \<Rightarrow> string set \<Rightarrow> string set expected" where
  "seen_target target seen =
     (case getAsString target of
        None \<Rightarrow> Inl ''unsupported or duplicate target constraint''
      | Some name \<Rightarrow>
          if targets_find name = None \<or> name \<in> seen
          then Inl ''unsupported or duplicate target constraint'' else Inr (insert name seen))"

definition target_script_path :: "string \<Rightarrow> string" where
  "target_script_path target = ''link/'' @ target @ ''.version.script''"

definition check_target_link ::
  "codec \<Rightarrow> json_object \<Rightarrow> string \<Rightarrow> package_files \<Rightarrow> string \<Rightarrow> string set \<Rightarrow> string set expected" where
  "check_target_link c links kind files target expected =
     (case getObject links target of
        None \<Rightarrow> Inl ''missing target link record''
      | Some record \<Rightarrow>
          bindE (forE (\<lambda>field. if fst field \<notin> set [''libraries'', ''link_options'', ''version_script'']
                              then Inl ''unknown target link field'' else success) record) (\<lambda>_.
            validateLinkRecord c record kind (target_script_path target) files expected))"

text \<open>\<open>for (const auto \&target : seenTargets)\<close> visits a \<open>std::set\<close> in its order.\<close>

definition check_target_links ::
  "codec \<Rightarrow> json_object \<Rightarrow> string \<Rightarrow> package_files \<Rightarrow> string set \<Rightarrow> string set \<Rightarrow> string set expected" where
  "check_target_links c object kind files seenTargets expected =
     (case obj_get object ''target_links'' of
        None \<Rightarrow> Inr expected
      | Some raw \<Rightarrow>
          (case getAsObject raw of
             None \<Rightarrow> Inl ''target links require complete records and empty common link settings''
           | Some links \<Rightarrow>
               if length links \<noteq> card seenTargets \<or> getArray object ''libraries'' \<noteq> Some [] \<or>
                  getArray object ''link_options'' \<noteq> Some [] \<or> obj_get object ''version_script'' \<noteq> None
               then Inl ''target links require complete records and empty common link settings''
               else foldE (check_target_link c links kind files) (sorted_list_of_set seenTargets) expected))"

definition module_target :: "string set \<Rightarrow> json \<Rightarrow> string set \<Rightarrow> string set expected" where
  "module_target seenTargets entry moduleTargets =
     (case getAsString entry of
        None \<Rightarrow> Inl ''module target domain is outside the artifact or contains duplicates''
      | Some target \<Rightarrow>
          if target \<notin> seenTargets \<or> target \<in> moduleTargets
          then Inl ''module target domain is outside the artifact or contains duplicates''
          else Inr (insert target moduleTargets))"

definition module_path :: "nat \<Rightarrow> string" where
  "module_path index = ''modules/'' @ to_string index @ ''.selabc''"

definition check_module ::
  "codec \<Rightarrow> package_files \<Rightarrow> string set \<Rightarrow> nat \<times> json \<Rightarrow> string set \<Rightarrow> string set expected" where
  "check_module c files seenTargets item expected =
     (case getAsObject (snd item) of
        None \<Rightarrow> Inl ''invalid module record''
      | Some record \<Rightarrow>
          bindE (forE (known_field ''unknown public module field: '' [''path'', ''sha256'', ''targets'']) record) (\<lambda>_.
          (case getArray record ''targets'' of
             None \<Rightarrow> Inl ''module requires a nonempty target domain''
           | Some domain \<Rightarrow>
               if domain = [] then Inl ''module requires a nonempty target domain''
               else
                 bindE (foldE (module_target seenTargets) domain {}) (\<lambda>_.
                 let path = module_path (fst item) in
                 if getString record ''path'' \<noteq> Some path then Inl ''invalid module path''
                 else (case smap_at files path of
                    None \<Rightarrow> Inl (''missing module or digest mismatch: '' @ path)
                  | Some bytes \<Rightarrow>
                      if getString record ''sha256'' \<noteq> Some (digest c bytes)
                      then Inl (''missing module or digest mismatch: '' @ path)
                      else Inr (insert path expected))))))"

definition artifact_kinds :: "string list" where
  "artifact_kinds = [''object'', ''executable'', ''shared'', ''static'']"

text \<open>\<open>validatePackage\<close> once the manifest has been parsed to an object.\<close>

definition validate_object :: "codec \<Rightarrow> package_files \<Rightarrow> json_object \<Rightarrow> unit expected" where
  "validate_object c files object =
     (if getInteger object ''format_version'' \<noteq> Some ArtifactFormatVersion \<or>
         getString object ''contract'' \<noteq> Some Contract
      then Inl ''unsupported experimental format/compiler contract''
      else
        bindE (forE (known_field ''unknown public manifest field: '' manifest_fields) object) (\<lambda>_.
        case getString object ''kind'' of
          None \<Rightarrow> Inl ''invalid artifact kind''
        | Some kind \<Rightarrow>
            if kind \<notin> set artifact_kinds then Inl ''invalid artifact kind''
            else if getString object ''runtime'' \<noteq> Some Runtime then Inl ''unsupported managed runtime contract''
            else (case getArray object ''targets'' of
              None \<Rightarrow> Inl ''missing target constraints''
            | Some targets \<Rightarrow>
                if targets = [] then Inl ''missing target constraints''
                else
                  bindE (foldE seen_target targets {}) (\<lambda>seenTargets.
                  case getArray object ''modules'' of
                    None \<Rightarrow> Inl ''package has no common IR modules''
                  | Some modules \<Rightarrow>
                      if modules = [] \<and> kind \<noteq> ''static'' then Inl ''package has no common IR modules''
                      else
                        bindE (validateLinkRecord c object kind ''link/version.script'' files {''manifest.json''}) (\<lambda>e1.
                        bindE (check_target_links c object kind files seenTargets e1) (\<lambda>e2.
                        bindE (foldE (check_module c files seenTargets) (List.enumerate 0 modules) e2) (\<lambda>expected.
                        bindE (readCompilationPlan object) (\<lambda>_.
                          if card expected \<noteq> length files then Inl ''package contains undeclared files''
                          else success))))))))"

definition validatePackage :: "codec \<Rightarrow> package_files \<Rightarrow> json expected" where
  "validatePackage c files =
     (case smap_at files ''manifest.json'' of
        None \<Rightarrow> Inl ''missing or oversized manifest''
      | Some manifest \<Rightarrow>
          if length manifest > 1024 * 1024 then Inl ''missing or oversized manifest''
          else bindE (json_parse c manifest) (\<lambda>parsed.
            if json_text c parsed \<noteq> manifest
            then Inl ''manifest must use canonical Sela JSON encoding (no duplicate keys)''
            else (case getAsObject parsed of
                None \<Rightarrow> Inl ''unsupported experimental format/compiler contract''
              | Some object \<Rightarrow> bindE (validate_object c files object) (\<lambda>_. Inr parsed))))"

section \<open>Construction of an artifact\<close>

text \<open>\<open>object[k] = v\<close> on the unordered \<open>json::Object\<close>.\<close>

definition obj_put :: "string \<Rightarrow> json \<Rightarrow> json_object \<Rightarrow> json_object" where
  "obj_put k v m = filter (\<lambda>p. fst p \<noteq> k) m @ [(k, v)]"

text \<open>\<open>int64_t(index)\<close> of a \<open>size_t\<close>.\<close>

definition int64_of_size :: "nat \<Rightarrow> int" where
  "int64_of_size i = (if i < 2 ^ 63 then int i else int i - 2 ^ 64)"

definition module_record :: "codec \<Rightarrow> string list \<Rightarrow> nat \<times> ArtifactModule \<Rightarrow> json" where
  "module_record c targets item =
     (case item of (i, m) \<Rightarrow>
        JObject [(''path'', JString (module_path i)), (''sha256'', JString (digest c (am_bytecode m))),
                 (''targets'', JArray (map JString (if am_targets m = [] then targets else am_targets m)))])"

definition push_unit :: "string \<Rightarrow> ArtifactUnit \<Rightarrow> CompilationPlan \<Rightarrow> CompilationPlan" where
  "push_unit target unit plan =
     smap_put target ((case smap_at plan target of None \<Rightarrow> [] | Some us \<Rightarrow> us) @ [unit]) plan"

definition module_active :: "ArtifactModule \<Rightarrow> string \<Rightarrow> bool" where
  "module_active m target \<longleftrightarrow> am_targets m = [] \<or> target \<in> set (am_targets m)"

definition default_units :: "ArtifactModule list \<Rightarrow> string \<Rightarrow> CompilationPlan \<Rightarrow> CompilationPlan" where
  "default_units modules target plan =
     fold (\<lambda>(i, m) p. if module_active m target
                      then push_unit target \<lparr>au_modules = [i], au_optimization = am_optimization m,
                                              au_archiveMember = am_archiveMember m\<rparr> p
                      else p)
       (List.enumerate 0 modules) plan"

definition default_plan :: "string list \<Rightarrow> ArtifactModule list \<Rightarrow> CompilationPlan" where
  "default_plan targets modules =
     fold (\<lambda>t. smap_emplace t []) targets (fold (default_units modules) targets [])"

definition unit_json :: "ArtifactUnit \<Rightarrow> json" where
  "unit_json unit =
     (let record = [(''modules'', JArray (map (\<lambda>i. JInt (int64_of_size i)) (au_modules unit))),
                    (''optimization'', JString (au_optimization unit))]
      in JObject (if au_archiveMember unit \<noteq> []
                  then obj_put ''archive_member'' (JString (au_archiveMember unit)) record else record))"

definition plan_json :: "CompilationPlan \<Rightarrow> json_object" where
  "plan_json plan =
     fold (\<lambda>(target, units) m. obj_put target (JArray (map unit_json units)) m) plan []"

definition base_manifest ::
  "codec \<Rightarrow> string \<Rightarrow> ArtifactModule list \<Rightarrow> string list \<Rightarrow> string list \<Rightarrow> string list \<Rightarrow>
   CompilationPlan \<Rightarrow> json_object" where
  "base_manifest c kind modules libraries linkOptions targets plan =
     [(''format_version'', JInt ArtifactFormatVersion), (''contract'', JString Contract),
      (''kind'', JString kind), (''targets'', JArray (map JString targets)),
      (''runtime'', JString Runtime), (''libraries'', JArray (map JString libraries)),
      (''link_options'', JArray (map JString linkOptions)),
      (''modules'', JArray (map (module_record c targets) (List.enumerate 0 modules))),
      (''compilation_units'', JObject (plan_json plan))]"

text \<open>Attach a version script to a link record: the record and the file it names.\<close>

definition attach_script ::
  "codec \<Rightarrow> string \<Rightarrow> string \<Rightarrow> json_object \<times> package_files \<Rightarrow> (json_object \<times> package_files) expected" where
  "attach_script c path script st =
     (if script = [] then Inr st
      else bindE (normalizeVersionScript script) (\<lambda>normalized.
        Inr (obj_put ''version_script'' (JObject [(''path'', JString path), (''sha256'', JString (digest c normalized))]) (fst st),
             smap_put path normalized (snd st))))"

definition link_record ::
  "codec \<Rightarrow> string \<times> ArtifactLink \<Rightarrow> json_object \<times> package_files \<Rightarrow> (json_object \<times> package_files) expected" where
  "link_record c item st =
     (case item of (target, link) \<Rightarrow>
        bindE (attach_script c (target_script_path target) (al_versionScript link)
                 ([(''libraries'', JArray (map JString (al_libraries link))),
                   (''link_options'', JArray (map JString (al_options link)))], snd st))
          (\<lambda>(record, files). Inr (obj_put target (JObject record) (fst st), files)))"

definition module_files :: "ArtifactModule list \<Rightarrow> package_files" where
  "module_files modules =
     fold (\<lambda>(i, m). smap_emplace (module_path i) (am_bytecode m)) (List.enumerate 0 modules) []"

definition createArtifact ::
  "codec \<Rightarrow> string \<Rightarrow> ArtifactModule list \<Rightarrow> string list \<Rightarrow> string list \<Rightarrow> string list \<Rightarrow> string \<Rightarrow>
   CompilationPlan \<Rightarrow> LinkPlan \<Rightarrow> package_files expected" where
  "createArtifact c kind modules libraries linkOptions targets versionScript compilationPlan linkPlan =
     (let plan = (if compilationPlan = [] then default_plan targets modules else compilationPlan) in
      bindE (attach_script c ''link/version.script'' versionScript
               (base_manifest c kind modules libraries linkOptions targets plan, module_files modules))
        (\<lambda>(manifest, files).
      bindE (if linkPlan = [] then Inr (manifest, files)
             else if libraries \<noteq> [] \<or> linkOptions \<noteq> [] \<or> versionScript \<noteq> []
             then Inl ''cannot combine common and target-dependent link settings''
             else bindE (foldE (link_record c) linkPlan ([], files)) (\<lambda>(links, files').
                    Inr (obj_put ''target_links'' (JObject links) manifest, files')))
        (\<lambda>(manifest', files').
      let files'' = smap_put ''manifest.json'' (json_text c (JObject manifest')) files' in
      bindE (validatePackage c files'') (\<lambda>_. Inr files''))))"

section \<open>Reading and writing packages\<close>

text \<open>
  The archive library is a parameter. Reading sees the headers it yields, each with the data
  reads it answers (\<open>None\<close>: the library reports an error or end of data), and then its final status.
\<close>

record archive_entry =
  ae_pathname :: "string option"
  ae_regular :: bool
  ae_symlink :: bool
  ae_hardlink :: bool
  ae_size :: int
  ae_reads :: "string option list"

text \<open>\<open>fs::path::lexically_normal\<close> for POSIX paths.\<close>

fun normal_parts :: "bool \<Rightarrow> string list \<Rightarrow> string list \<Rightarrow> string list" where
  "normal_parts rooted acc [] = acc"
| "normal_parts rooted acc (p # ps) =
     (if p = [] \<or> p = ''.'' then normal_parts rooted acc ps
      else if p = ''..'' then
        (if acc \<noteq> [] \<and> last acc \<noteq> ''..'' then normal_parts rooted (butlast acc) ps
         else if rooted then normal_parts rooted acc ps
         else normal_parts rooted (acc @ [p]) ps)
      else normal_parts rooted (acc @ [p]) ps)"

fun join_slash :: "string list \<Rightarrow> string" where
  "join_slash [] = []"
| "join_slash [p] = p"
| "join_slash (p # q # ps) = p @ ''/'' @ join_slash (q # ps)"

definition is_absolute :: "string \<Rightarrow> bool" where
  "is_absolute path \<longleftrightarrow> starts_with ''/'' path"

definition lexically_normal :: "string \<Rightarrow> string" where
  "lexically_normal path =
     (if path = [] then []
      else
        let raw = split_on CHR ''/'' path;
            parts = normal_parts (is_absolute path) [] raw;
            trailing = (last raw = [] \<or> last raw = ''.'' \<or> last raw = ''..'') \<and> parts \<noteq> [] \<and> last parts \<noteq> ''..'';
            body = join_slash parts @ (if trailing then ''/'' else [])
        in if is_absolute path then CHR ''/'' # body else if body = [] then ''.'' else body)"

fun contains_sub :: "string \<Rightarrow> string \<Rightarrow> bool" where
  "contains_sub pat [] = (pat = [])"
| "contains_sub pat (c # cs) = (starts_with pat (c # cs) \<or> contains_sub pat cs)"

definition entry_name_ok :: "archive_entry \<Rightarrow> string \<Rightarrow> bool" where
  "entry_name_ok entry name \<longleftrightarrow>
     \<not> (name = [] \<or> length name > 256 \<or> is_absolute name \<or> lexically_normal name \<noteq> name \<or>
        contains_sub ''..'' name \<or> \<not> ae_regular entry \<or> ae_symlink entry \<or> ae_hardlink entry)"

text \<open>The read loop of one entry: \<open>archive_read_data\<close> returns at most the bytes asked for.\<close>

fun read_entry :: "string \<Rightarrow> nat \<Rightarrow> string option list \<Rightarrow> string \<Rightarrow> string expected" where
  "read_entry name extent [] data =
     (if length data < extent then Inl (''truncated archive entry: '' @ name) else Inr data)"
| "read_entry name extent (r # rs) data =
     (if length data < extent then
        (case r of
           None \<Rightarrow> Inl (''truncated archive entry: '' @ name)
         | Some bytes \<Rightarrow>
             if bytes = [] then Inl (''truncated archive entry: '' @ name)
             else read_entry name extent rs (data @ take (extent - length data) bytes))
      else Inr data)"

text \<open>One header of the archive; the state is \<open>(files, total)\<close>.\<close>

definition read_header ::
  "archive_entry \<Rightarrow> package_files \<times> nat \<Rightarrow> (package_files \<times> nat) expected" where
  "read_header entry st =
     (case ae_pathname entry of
        None \<Rightarrow> Inl ''archive entry without pathname''
      | Some name \<Rightarrow>
          if \<not> entry_name_ok entry name then Inl (''invalid archive entry: '' @ name)
          else if ae_size entry < 0 \<or> nat (ae_size entry) > MaxBytes - snd st \<or>
                  length (fst st) \<ge> MaxFiles \<or> smap_at (fst st) name \<noteq> None
          then Inl (''archive size/count limit or duplicate entry: '' @ name)
          else bindE (read_entry name (nat (ae_size entry)) (ae_reads entry) []) (\<lambda>data.
            Inr (smap_emplace name data (fst st), snd st + length data)))"

text \<open>\<open>archive_status\<close> is the library's message when the header loop does not end at end of file.\<close>

definition readPackage :: "archive_entry list \<Rightarrow> string option \<Rightarrow> package_files expected" where
  "readPackage entries archive_status =
     bindE (foldE read_header entries ([], 0)) (\<lambda>(files, total).
       case archive_status of Some message \<Rightarrow> Inl message | None \<Rightarrow> Inr files)"

text \<open>The size and schema gate of \<open>writePackage\<close>, before anything is created.\<close>

definition write_total :: "string \<times> string \<Rightarrow> nat \<Rightarrow> nat expected" where
  "write_total file sofar =
     (if length (snd file) > MaxBytes - sofar then Inl ''publication exceeds package size limit''
      else Inr (sofar + length (snd file)))"

definition write_gate :: "codec \<Rightarrow> package_files \<Rightarrow> unit expected" where
  "write_gate c files =
     (if length files > MaxFiles then Inl ''too many package files''
      else bindE (foldE write_total files 0) (\<lambda>_. bindE (validatePackage c files) (\<lambda>_. success)))"

end
