(* ===== verification/Artifact_Facts.thy ===== *)
theory Artifact_Facts
  imports Artifact
begin

text \<open>
  Lemmas about the publication format: names, version scripts, the compilation plan, link records
  and package validation. The properties themselves are stated in the root theory.
\<close>

section \<open>Names and version scripts\<close>

lemma alnum_not_slash: "\<not> alnum CHR ''/''" "\<not> alnum CHR ''#''" "\<not> alnum CHR ''*''"
  by (simp_all add: alnum_def in_range_def)

lemma file_char_not_slash: "file_char c \<Longrightarrow> c \<noteq> CHR ''/''"
  using alnum_not_slash by (auto simp: file_char_def)

lemma validName_no_slash: "validName n \<Longrightarrow> CHR ''/'' \<notin> set n"
  using alnum_not_slash by (auto simp: validName_def list_all_iff)

lemma validLibrary_no_slash:
  assumes "validLibrary n"
  shows "CHR ''/'' \<notin> set n"
proof (cases n)
  case (Cons c rest)
  with assms show ?thesis
    by (auto simp: validLibrary_def list_all_iff dest: file_char_not_slash validName_no_slash
        split: if_splits)
qed simp

lemma validArchiveMember_no_slash: "validArchiveMember n \<Longrightarrow> CHR ''/'' \<notin> set n"
  by (auto simp: validArchiveMember_def list_all_iff dest: file_char_not_slash)

lemma script_char_space: "script_char CHR '' ''"
  by (simp add: script_char_def)

lemma script_char_not_comment: "script_char c \<Longrightarrow> c \<noteq> CHR ''/'' \<and> c \<noteq> CHR ''#''"
  using alnum_not_slash by (auto simp: script_char_def newline_def)

declare scan_script.simps(2) [simp del]

lemma scan_script_Inr_cases:
  assumes "scan_script (c # cs) = Inr out"
  obtains (block) rest out' where "after_close (drop 1 cs) = Some rest" "scan_script rest = Inr out'"
      "out = CHR '' '' # out'" "length rest \<le> length cs"
    | (line) out' where "scan_script (dropWhile (\<lambda>d. d \<noteq> newline) cs) = Inr out'" "out = CHR '' '' # out'"
    | (other) out' where "scan_script cs = Inr out'" "out = c # out'" "script_char c"
proof -
  consider (b) "starts_with ''/*'' (c # cs)"
    | (l) "\<not> starts_with ''/*'' (c # cs)" "starts_with ''//'' (c # cs) \<or> c = CHR ''#''"
    | (o) "\<not> starts_with ''/*'' (c # cs)" "\<not> (starts_with ''//'' (c # cs) \<or> c = CHR ''#'')"
    by blast
  then show thesis
  proof cases
    case b
    with assms obtain rest out' where r: "after_close (drop 1 cs) = Some rest"
      "scan_script rest = Inr out'" "out = CHR '' '' # out'"
      by (auto simp: scan_script.simps(2) bindE_Inr_iff split: option.splits)
    with after_close_length [OF r(1)] show thesis by (intro block [OF r]) simp
  next
    case l
    then have "c \<noteq> newline" by (auto simp: starts_with_def newline_def)
    then have "dropWhile (\<lambda>d. d \<noteq> newline) (c # cs) = dropWhile (\<lambda>d. d \<noteq> newline) cs" by simp
    with assms l obtain out' where
      "scan_script (dropWhile (\<lambda>d. d \<noteq> newline) cs) = Inr out'" "out = CHR '' '' # out'"
      by (simp only: scan_script.simps(2) if_False if_True) (auto simp: bindE_Inr_iff)
    then show thesis by (rule line)
  next
    case o
    with assms show thesis
      by (simp only: scan_script.simps(2) if_False) (auto simp: bindE_Inr_iff intro: other)
  qed
qed

lemma scan_script_chars: "scan_script s = Inr out \<Longrightarrow> list_all script_char out"
proof (induction "length s" arbitrary: s out rule: less_induct)
  case less
  show ?case
  proof (cases s)
    case Nil
    with less.prems show ?thesis by simp
  next
    case (Cons c cs)
    from less.prems [unfolded Cons] show ?thesis
    proof (cases rule: scan_script_Inr_cases)
      case (block rest out')
      with less.hyps [of rest out'] Cons show ?thesis by (simp add: script_char_space)
    next
      case (line out')
      with less.hyps [of "dropWhile (\<lambda>d. d \<noteq> newline) cs" out'] Cons show ?thesis
        by (simp add: script_char_space le_imp_less_Suc length_dropWhile_le)
    next
      case (other out')
      with less.hyps [of cs out'] Cons show ?thesis by simp
    qed
  qed
qed

lemma scan_script_length: "scan_script s = Inr out \<Longrightarrow> length out \<le> length s"
proof (induction "length s" arbitrary: s out rule: less_induct)
  case less
  show ?case
  proof (cases s)
    case Nil
    with less.prems show ?thesis by simp
  next
    case (Cons c cs)
    from less.prems [unfolded Cons] show ?thesis
    proof (cases rule: scan_script_Inr_cases)
      case (block rest out')
      with less.hyps [of rest out'] Cons show ?thesis by simp
    next
      case (line out')
      have "length (dropWhile (\<lambda>d. d \<noteq> newline) cs) \<le> length cs" by (rule length_dropWhile_le)
      with line less.hyps [of "dropWhile (\<lambda>d. d \<noteq> newline) cs" out'] Cons show ?thesis by simp
    next
      case (other out')
      with less.hyps [of cs out'] Cons show ?thesis by simp
    qed
  qed
qed

lemma scan_script_id: "list_all script_char s \<Longrightarrow> scan_script s = Inr s"
proof (induction s)
  case Nil
  then show ?case by simp
next
  case (Cons c cs)
  then have "c \<noteq> CHR ''/''" "c \<noteq> CHR ''#''" "script_char c"
    using script_char_not_comment by auto
  with Cons show ?case by (simp add: scan_script.simps(2) starts_with_def)
qed

lemma normalizeVersionScript_Inr:
  assumes "normalizeVersionScript text = Inr out"
  shows "list_all script_char out" "length out \<le> length text" "length text \<le> 65536"
    "\<not> list_all trim_char out"
  using assms scan_script_chars scan_script_length
  by (auto simp: normalizeVersionScript_def bindE_Inr_iff split: if_splits)

lemma normalizeVersionScript_stable:
  assumes "list_all script_char s" "s \<noteq> []" "length s \<le> 65536" "\<not> list_all trim_char s"
  shows "normalizeVersionScript s = Inr s"
  using assms by (simp add: normalizeVersionScript_def scan_script_id)

lemma normalizeVersionScript_idem:
  assumes "normalizeVersionScript text = Inr out"
  shows "normalizeVersionScript out = Inr out"
proof -
  note facts = normalizeVersionScript_Inr [OF assms]
  from facts(4) have "out \<noteq> []" by auto
  with facts show ?thesis by (intro normalizeVersionScript_stable) auto
qed

section \<open>Element validators\<close>

interpretation libraries: validator check_library "\<lambda>v. \<exists>s. v = JString s \<and> validLibrary s"
  by unfold_locales (auto simp: check_library_def split: option.splits)

definition link_option_ok :: "string \<Rightarrow> json \<Rightarrow> bool" where
  "link_option_ok kind v \<longleftrightarrow>
     (\<exists>s. v = JString s \<and> kind \<noteq> ''object'' \<and> kind \<noteq> ''static'' \<and>
        (s \<in> set [''--export-dynamic'', ''--hash-style=both'', ''--undefined-version''] \<or>
         kind = ''shared'' \<and> starts_with ''-soname='' s \<and> validLibrary ('':'' @ drop 8 s)))"

interpretation link_options: validator "check_link_option kind" "link_option_ok kind" for kind
  by unfold_locales (auto simp: check_link_option_def link_option_ok_def split: option.splits)

interpretation unit_fields: validator unit_field
  "\<lambda>f. fst f \<in> set [''modules'', ''optimization'', ''archive_member'']"
  by unfold_locales (auto simp: unit_field_def)

interpretation known_fields: validator "known_field message allowed" "\<lambda>f. fst f \<in> set allowed"
  for message allowed
  by unfold_locales (auto simp: known_field_def)

section \<open>Set-collecting loops\<close>

text \<open>
  Several loops insert identities into a set and reject a repetition; their contract is that the
  inventory consists of distinct admissible strings and the set is theirs.
\<close>

locale collector =
  fixes step :: "json \<Rightarrow> string set \<Rightarrow> string set expected"
    and ok :: "string \<Rightarrow> bool"
  assumes step_iff: "step v s = Inr t \<longleftrightarrow> (\<exists>x. v = JString x \<and> ok x \<and> x \<notin> s \<and> t = insert x s)"
begin

lemma collect_iff:
  "foldE step vs s = Inr t \<longleftrightarrow>
     (\<exists>xs. vs = map JString xs \<and> list_all ok xs \<and> distinct xs \<and> set xs \<inter> s = {} \<and> t = s \<union> set xs)"
proof (induction vs arbitrary: s)
  case Nil
  then show ?case by auto
next
  case (Cons v vs)
  show ?case (is "?l \<longleftrightarrow> ?r")
  proof
    assume ?l
    then obtain x where x: "v = JString x" "ok x" "x \<notin> s" "foldE step vs (insert x s) = Inr t"
      by (auto simp: bindE_Inr_iff step_iff)
    then obtain xs where "vs = map JString xs" "list_all ok xs" "distinct xs"
      "set xs \<inter> insert x s = {}" "t = insert x s \<union> set xs"
      using Cons.IH by auto
    with x show ?r by (intro exI [of _ "x # xs"]) auto
  next
    assume ?r
    then obtain x xs where "v = JString x" "vs = map JString xs" "ok x" "list_all ok xs"
      "distinct xs" "x \<notin> set xs" "x \<notin> s" "set xs \<inter> s = {}" "t = s \<union> insert x (set xs)"
      by (auto simp: Cons_eq_map_conv)
    then show ?l using Cons.IH [of "insert x s"] by (auto simp: bindE_Inr_iff step_iff)
  qed
qed

lemma collect_set: "foldE step vs {} = Inr t \<Longrightarrow> \<exists>xs. vs = map JString xs \<and> distinct xs \<and> t = set xs \<and> list_all ok xs"
  by (auto simp: collect_iff)

end

interpretation domain_ids: collector domain_id "\<lambda>_. True"
  by unfold_locales (auto simp: domain_id_def split: option.splits)

interpretation seen_targets: collector seen_target "\<lambda>x. x \<in> set all_target_ids"
  by unfold_locales (auto simp: seen_target_def targets_find_None_iff split: option.splits)

interpretation module_targets: collector "module_target seen" "\<lambda>x. x \<in> seen" for seen
  by unfold_locales (auto simp: module_target_def split: option.splits)

section \<open>The compilation plan is an exact cover\<close>

text \<open>
  The specification of a target's units: together they list every fragment active for the target
  exactly once and nothing else.
\<close>

definition active_fragments :: "string set list \<Rightarrow> string \<Rightarrow> nat set" where
  "active_fragments domains name = {i. i < length domains \<and> name \<in> domains ! i}"

definition plan_members :: "ArtifactUnit list \<Rightarrow> nat list" where
  "plan_members units = concat (map au_modules units)"

definition exact_cover :: "string set list \<Rightarrow> string \<Rightarrow> ArtifactUnit list \<Rightarrow> bool" where
  "exact_cover domains name units \<longleftrightarrow>
     distinct (plan_members units) \<and> set (plan_members units) = active_fragments domains name"

text \<open>What \<open>seen\<close> means while the units are read: the members consumed so far.\<close>

definition seen_inv :: "string set list \<Rightarrow> string \<Rightarrow> bool list \<Rightarrow> nat list \<Rightarrow> bool" where
  "seen_inv domains name seen consumed \<longleftrightarrow>
     length seen = length domains \<and> (\<forall>i < length domains. seen ! i \<longleftrightarrow> i \<in> set consumed) \<and>
     distinct consumed \<and> set consumed \<subseteq> active_fragments domains name"

lemma seen_inv_start: "seen_inv domains name (replicate (length domains) False) []"
  by (simp add: seen_inv_def)

lemma plan_member_iff:
  assumes "seen_inv domains name seen consumed"
  shows "plan_member domains name member (seen, ms) = Inr st \<longleftrightarrow>
    (\<exists>i. getAsInteger member = Some (int i) \<and> i \<in> active_fragments domains name \<and> i \<notin> set consumed \<and>
       st = (seen[i := True], ms @ [i]))"
proof -
  have "i < length domains \<Longrightarrow> seen ! i \<longleftrightarrow> i \<in> set consumed" for i
    using assms by (simp add: seen_inv_def)
  moreover have "(\<exists>i. x = int i \<and> P i) \<longleftrightarrow> 0 \<le> x \<and> P (nat x)" for x P
    by (metis nat_int nat_0_le of_nat_0_le_iff)
  ultimately show ?thesis
    by (auto simp: plan_member_def active_fragments_def not_less not_le split: option.splits)
qed

lemma seen_inv_step:
  assumes "seen_inv domains name seen consumed" "i \<in> active_fragments domains name" "i \<notin> set consumed"
  shows "seen_inv domains name (seen[i := True]) (consumed @ [i])"
  using assms by (auto simp: seen_inv_def active_fragments_def nth_list_update)

lemma plan_members_inv:
  assumes "seen_inv domains name seen (consumed @ ms)"
    and "foldE (plan_member domains name) members (seen, ms) = Inr (seen', ms')"
  shows "seen_inv domains name seen' (consumed @ ms')"
  using assms
proof (induction members arbitrary: seen ms)
  case Nil
  then show ?case by simp
next
  case (Cons m members)
  then obtain st where st: "plan_member domains name m (seen, ms) = Inr st"
    "foldE (plan_member domains name) members st = Inr (seen', ms')"
    by (auto elim: bindE_InrE)
  then obtain i where i: "i \<in> active_fragments domains name" "i \<notin> set (consumed @ ms)"
    "st = (seen[i := True], ms @ [i])"
    using plan_member_iff [OF Cons.prems(1)] by blast
  with seen_inv_step [OF Cons.prems(1) i(1,2)] st(2) show ?case
    by (intro Cons.IH [of "seen[i := True]" "ms @ [i]"]) auto
qed

definition unit_ok :: "string \<Rightarrow> ArtifactUnit \<Rightarrow> bool" where
  "unit_ok kind u \<longleftrightarrow>
     au_modules u \<noteq> [] \<and> au_optimization u \<in> set optimization_levels \<and>
     (if kind = ''static'' then validArchiveMember (au_archiveMember u) else au_archiveMember u = [])"

lemma plan_member_shape:
  "plan_member domains name member (seen, ms) = Inr st \<Longrightarrow> \<exists>i. st = (seen[i := True], ms @ [i])"
  by (auto simp: plan_member_def split: option.splits if_splits)

lemma plan_member_length:
  "foldE (plan_member domains name) members (seen, ms) = Inr (seen', ms') \<Longrightarrow>
   length ms' = length ms + length members"
proof (induction members arbitrary: seen ms)
  case Nil
  then show ?case by simp
next
  case (Cons m members)
  then obtain seen1 i where "foldE (plan_member domains name) members (seen1, ms @ [i]) = Inr (seen', ms')"
    by (auto simp: bindE_Inr_iff dest: plan_member_shape)
  then show ?case using Cons.IH by fastforce
qed

lemma unit_archive_member_ok:
  "unit_archive_member kind unit = Inr member \<Longrightarrow>
   (if kind = ''static'' then validArchiveMember member else member = [])"
  by (auto simp: unit_archive_member_def split: option.splits if_splits)

lemma plan_unit_step:
  assumes "plan_unit kind domains name entry (seen, us) = Inr (seen', us')"
    and "seen_inv domains name seen (plan_members us)"
  shows "seen_inv domains name seen' (plan_members us')" "\<exists>u. us' = us @ [u] \<and> unit_ok kind u"
proof -
  from assms(1) obtain members ms optimization member where
    u: "members \<noteq> []" "optimization \<in> set optimization_levels"
       "foldE (plan_member domains name) members (seen, []) = Inr (seen', ms)"
       "us' = us @ [\<lparr>au_modules = ms, au_optimization = optimization, au_archiveMember = member\<rparr>]"
       "if kind = ''static'' then validArchiveMember member else member = []"
    by (auto simp: plan_unit_def bindE_Inr_iff dest: unit_archive_member_ok split: option.splits if_splits)
  have "length ms = length members" using plan_member_length [OF u(3)] by simp
  with u(1) have "ms \<noteq> []" by auto
  then show "\<exists>u. us' = us @ [u] \<and> unit_ok kind u" using u(2,4,5) by (auto simp: unit_ok_def)
  have "seen_inv domains name seen' (plan_members us @ ms)"
    using plan_members_inv [OF _ u(3), of "plan_members us"] assms(2) by simp
  then show "seen_inv domains name seen' (plan_members us')" by (simp add: u(4) plan_members_def)
qed

lemma plan_units_inv:
  assumes "foldE (plan_unit kind domains name) entries (seen, us) = Inr (seen', us')"
    and "seen_inv domains name seen (plan_members us)" "list_all (unit_ok kind) us"
  shows "seen_inv domains name seen' (plan_members us') \<and> list_all (unit_ok kind) us'"
  using assms
proof (induction entries arbitrary: seen us)
  case Nil
  then show ?case by simp
next
  case (Cons e entries)
  then obtain seen1 us1 where step: "plan_unit kind domains name e (seen, us) = Inr (seen1, us1)"
    "foldE (plan_unit kind domains name) entries (seen1, us1) = Inr (seen', us')"
    by (auto elim!: bindE_InrE)
  note unit = plan_unit_step [OF step(1) Cons.prems(2)]
  with Cons.prems(3) have "list_all (unit_ok kind) us1" by auto
  with unit(1) step(2) show ?case by (intro Cons.IH) auto
qed

lemma plan_target_cover:
  assumes "plan_target kind plans domains (JString name) result = Inr result'"
    and "smap_at result name = None"
  obtains us where "result' = smap_put name us result" "exact_cover domains name us"
    "list_all (unit_ok kind) us"
proof -
  from assms obtain units seen us where
    u: "foldE (plan_unit kind domains name) units (replicate (length domains) False, []) = Inr (seen, us)"
       "result' = smap_put name us result"
       "\<not> list_ex (\<lambda>i. name \<in> domains ! i \<and> \<not> seen ! i) [0..<length domains]"
    by (auto simp: plan_target_def bindE_Inr_iff split: option.splits if_splits)
  have "seen_inv domains name seen (plan_members us) \<and> list_all (unit_ok kind) us"
    using plan_units_inv [OF u(1)] seen_inv_start by (simp add: plan_members_def)
  moreover from this u(3) have "active_fragments domains name \<subseteq> set (plan_members us)"
    by (auto simp: seen_inv_def active_fragments_def list_ex_iff)
  ultimately have "exact_cover domains name us" "list_all (unit_ok kind) us"
    by (auto simp: seen_inv_def exact_cover_def)
  with u(2) show thesis by (rule that)
qed

lemma plan_targets_cover:
  assumes "foldE (plan_target kind plans domains) (map JString names) result = Inr plan"
    and "smap_wf result" "distinct names" "\<forall>n \<in> set names. smap_at result n = None"
  shows "smap_wf plan \<and> dom (smap_at plan) = dom (smap_at result) \<union> set names \<and>
    (\<forall>n \<in> set names. \<exists>us. smap_at plan n = Some us \<and> exact_cover domains n us \<and> list_all (unit_ok kind) us) \<and>
    (\<forall>n. n \<notin> set names \<longrightarrow> smap_at plan n = smap_at result n)"
  using assms
proof (induction names arbitrary: result)
  case Nil
  then show ?case by simp
next
  case (Cons n names)
  then obtain r where r: "plan_target kind plans domains (JString n) result = Inr r"
    "foldE (plan_target kind plans domains) (map JString names) r = Inr plan"
    by (auto elim: bindE_InrE)
  from r(1) Cons.prems(4) obtain us where us: "r = smap_put n us result" "exact_cover domains n us"
    "list_all (unit_ok kind) us"
    by (auto elim: plan_target_cover)
  have wf: "smap_wf r" using Cons.prems(2) us(1) by (simp add: smap_put_wf)
  have at: "smap_at r = (smap_at result)(n \<mapsto> us)" using Cons.prems(2) us(1) by (simp add: smap_at_put)
  have "\<forall>m \<in> set names. smap_at r m = None" using Cons.prems(3,4) at by auto
  with Cons.IH [OF r(2) wf] Cons.prems(3) have IH:
    "smap_wf plan" "dom (smap_at plan) = dom (smap_at r) \<union> set names"
    "\<forall>m \<in> set names. \<exists>us. smap_at plan m = Some us \<and> exact_cover domains m us \<and> list_all (unit_ok kind) us"
    "\<forall>m. m \<notin> set names \<longrightarrow> smap_at plan m = smap_at r m"
    by auto
  have "smap_at plan n = Some us" using IH(4) Cons.prems(3) at by simp
  moreover have "dom (smap_at plan) = dom (smap_at result) \<union> set (n # names)"
    using IH(2) by (auto simp: at)
  moreover have "smap_at plan m = smap_at result m" if "m \<notin> set (n # names)" for m
    using that IH(4) at by auto
  ultimately show ?case using IH(1,3) us(2,3) by auto
qed

lemma readCompilationPlan_cover:
  assumes "readCompilationPlan object = Inr plan"
    and "getArray object ''targets'' = Some (map JString names)" "distinct names"
    and "getString object ''kind'' = Some kind"
  obtains modules domains where "getArray object ''modules'' = Some modules"
    "mapE module_domain modules = Inr domains" "dom (smap_at plan) = set names" "smap_wf plan"
    "\<forall>n \<in> set names. \<exists>us. smap_at plan n = Some us \<and> exact_cover domains n us \<and> list_all (unit_ok kind) us"
proof -
  from assms obtain plans modules domains where
    r: "getArray object ''modules'' = Some modules" "mapE module_domain modules = Inr domains"
       "foldE (plan_target kind plans domains) (map JString names) [] = Inr plan"
    by (auto simp: readCompilationPlan_def bindE_Inr_iff split: option.splits)
  from plan_targets_cover [OF r(3)] assms(3) r(1,2) show thesis by (intro that) auto
qed

section \<open>Link records of a validated package\<close>

text \<open>What one accepted link record guarantees, and the file it declares.\<close>

definition link_ok :: "codec \<Rightarrow> json_object \<Rightarrow> string \<Rightarrow> string \<Rightarrow> package_files \<Rightarrow> bool" where
  "link_ok c lrec kind path files \<longleftrightarrow>
     (\<exists>libraries options.
        getArray lrec ''libraries'' = Some (map JString libraries) \<and> list_all validLibrary libraries \<and>
        getArray lrec ''link_options'' = Some (map JString options) \<and>
        (obj_get lrec ''version_script'' = None \<or>
         (\<exists>script contents. kind = ''shared'' \<and> getObject lrec ''version_script'' = Some script \<and>
            getString script ''path'' = Some path \<and> smap_at files path = Some contents \<and>
            getString script ''sha256'' = Some (digest c contents) \<and>
            normalizeVersionScript contents = Inr contents)))"

lemma strings_of_list_all:
  "list_all (\<lambda>v. \<exists>s. v = JString s \<and> P s) vs \<Longrightarrow> \<exists>ss. vs = map JString ss \<and> list_all P ss"
proof (induction vs)
  case Nil
  then show ?case by simp
next
  case (Cons v vs)
  then obtain s ss where "v = JString s" "P s" "vs = map JString ss" "list_all P ss" by auto
  then show ?case by (intro exI [of _ "s # ss"]) simp
qed

lemma link_options_strings:
  assumes "list_all (link_option_ok kind) vs"
  shows "\<exists>ss. vs = map JString ss"
proof -
  have "list_all (\<lambda>v. \<exists>s. v = JString s \<and> True) vs"
    using assms by (auto simp: list_all_iff link_option_ok_def)
  from strings_of_list_all [OF this] show ?thesis by blast
qed

lemma validateLinkRecord_ok:
  assumes "validateLinkRecord c lrec kind path files expected = Inr expected'"
  shows "link_ok c lrec kind path files"
    "expected' = expected \<union> (if obj_get lrec ''version_script'' = None then {} else {path})"
    "expected' - expected \<subseteq> dom (smap_at files)"
proof -
  from assms obtain libs opts where
    l: "getArray lrec ''libraries'' = Some libs" "forE check_library libs = Inr ()"
       "getArray lrec ''link_options'' = Some opts" "forE (check_link_option kind) opts = Inr ()"
    and scr: "(case obj_get lrec ''version_script'' of None \<Rightarrow> Inr expected
           | Some value \<Rightarrow> check_version_script c kind path files value expected) = Inr expected'"
    by (auto simp: validateLinkRecord_def bindE_Inr_iff split: option.splits if_splits)
  from l(2) obtain libraries where libraries: "libs = map JString libraries" "list_all validLibrary libraries"
    using strings_of_list_all libraries.all_iff by blast
  from l(4) obtain options where options: "opts = map JString options"
    using link_options_strings link_options.all_iff by blast
  show "link_ok c lrec kind path files"
    using l(1,3) libraries options scr
    by (auto simp: link_ok_def check_version_script_def bindE_Inr_iff getObject_def obj_get_def
        split: option.splits if_splits)
  show "expected' = expected \<union> (if obj_get lrec ''version_script'' = None then {} else {path})"
    using scr by (auto simp: check_version_script_def bindE_Inr_iff split: option.splits if_splits)
  show "expected' - expected \<subseteq> dom (smap_at files)"
    using scr by (auto simp: check_version_script_def bindE_Inr_iff split: option.splits if_splits)
qed

lemma link_of_record_defined:
  assumes "link_ok c lrec kind path files"
  shows "link_of_record files lrec link \<noteq> None"
  using assms by (auto simp: link_ok_def link_of_record_def getObject_def obj_get_def split: option.splits)

lemma link_of_record_libraries:
  assumes "link_ok c lrec kind path files" "link_of_record files lrec empty_link = Some l"
  shows "list_all validLibrary (al_libraries l)"
    "al_versionScript l = [] \<or> normalizeVersionScript (al_versionScript l) = Inr (al_versionScript l)"
  using assms
  by (auto simp: link_ok_def link_of_record_def empty_link_def getObject_def obj_get_def split: option.splits)

text \<open>The record a target is linked with: its own when the manifest has target links.\<close>

definition link_source :: "json_object \<Rightarrow> string \<Rightarrow> json_object option" where
  "link_source manifest target =
     (case getObject manifest ''target_links'' of
        None \<Rightarrow> Some manifest | Some byTarget \<Rightarrow> getObject byTarget target)"

lemma read_links_defined:
  assumes "\<forall>t \<in> set names. \<exists>lrec kind path. link_source manifest t = Some lrec \<and> link_ok c lrec kind path files"
    and "smap_wf plan"
  shows "\<exists>plan'. read_links manifest files (map JString names) plan = Some plan' \<and> smap_wf plan' \<and>
     dom (smap_at plan') = dom (smap_at plan) \<union> set names"
  using assms
proof (induction names arbitrary: plan)
  case Nil
  then show ?case by simp
next
  case (Cons n names)
  then obtain lrec kind path where r: "link_source manifest n = Some lrec" "link_ok c lrec kind path files"
    by auto
  obtain l where l: "link_of_record files lrec (case smap_at plan n of None \<Rightarrow> empty_link | Some l \<Rightarrow> l) = Some l"
    using link_of_record_defined [OF r(2)] by fastforce
  have "read_links manifest files (map JString (n # names)) plan =
    read_links manifest files (map JString names) (smap_put n l plan)"
    using r(1) l by (simp add: link_source_def)
  moreover obtain plan' where
    "read_links manifest files (map JString names) (smap_put n l plan) = Some plan'" "smap_wf plan'"
    "dom (smap_at plan') = dom (smap_at (smap_put n l plan)) \<union> set names"
    using Cons.IH [of "smap_put n l plan"] Cons.prems by (auto simp: smap_put_wf)
  ultimately show ?case using Cons.prems(2) by (auto simp: smap_at_put)
qed

section \<open>What validation of a package establishes\<close>

lemma check_target_links_ok:
  assumes "check_target_links c object kind files seen expected = Inr expected'" "finite seen"
    and "link_ok c object kind path0 files"
  shows "\<forall>t \<in> seen. \<exists>lrec path. link_source object t = Some lrec \<and> link_ok c lrec kind path files"
    "expected' \<subseteq> expected \<union> target_script_path ` seen"
    "expected' - expected \<subseteq> dom (smap_at files)" "expected \<subseteq> expected'"
proof -
  have loop: "(\<forall>t \<in> set names. \<exists>lrec path. getObject links t = Some lrec \<and> link_ok c lrec kind path files) \<and>
      e' \<subseteq> e \<union> target_script_path ` set names \<and> e' - e \<subseteq> dom (smap_at files) \<and> e \<subseteq> e'"
    if "foldE (check_target_link c links kind files) names e = Inr e'" for links names e e'
    using that
  proof (induction names arbitrary: e)
    case Nil
    then show ?case by simp
  next
    case (Cons n names)
    from Cons.prems obtain e1 where e1: "check_target_link c links kind files n e = Inr e1"
      "foldE (check_target_link c links kind files) names e1 = Inr e'"
      by (rule foldE_Cons_InrE)
    then obtain lrec where s: "getObject links n = Some lrec"
      "validateLinkRecord c lrec kind (target_script_path n) files e = Inr e1"
      "foldE (check_target_link c links kind files) names e1 = Inr e'"
      by (auto simp: bindE_Inr_iff check_target_link_def split: option.splits)
    note one = validateLinkRecord_ok [OF s(2)]
    from Cons.IH [OF s(3)] s(1) one show ?case by (auto split: if_splits)
  qed
  show "\<forall>t \<in> seen. \<exists>lrec path. link_source object t = Some lrec \<and> link_ok c lrec kind path files"
    "expected' \<subseteq> expected \<union> target_script_path ` seen"
    "expected' - expected \<subseteq> dom (smap_at files)" "expected \<subseteq> expected'"
    using assms(1,3) set_sorted_list_of_set [OF assms(2)]
    by (auto simp: check_target_links_def link_source_def getObject_def obj_get_def
        split: option.splits if_splits dest!: loop)
qed

definition module_ok :: "codec \<Rightarrow> package_files \<Rightarrow> string set \<Rightarrow> nat \<Rightarrow> json \<Rightarrow> bool" where
  "module_ok c files seen i entry \<longleftrightarrow>
     (\<exists>lrec names bytes. entry = JObject lrec \<and>
        getArray lrec ''targets'' = Some (map JString names) \<and> names \<noteq> [] \<and> distinct names \<and> set names \<subseteq> seen \<and>
        getString lrec ''path'' = Some (module_path i) \<and> smap_at files (module_path i) = Some bytes \<and>
        getString lrec ''sha256'' = Some (digest c bytes))"

lemma check_module_ok:
  assumes "check_module c files seen (i, entry) expected = Inr expected'"
  shows "module_ok c files seen i entry" "expected' = insert (module_path i) expected"
proof -
  from assms obtain lrec domain mt bytes where
    r: "entry = JObject lrec" "getArray lrec ''targets'' = Some domain" "domain \<noteq> []"
       "foldE (module_target seen) domain {} = Inr mt"
       "getString lrec ''path'' = Some (module_path i)" "smap_at files (module_path i) = Some bytes"
       "getString lrec ''sha256'' = Some (digest c bytes)" "expected' = insert (module_path i) expected"
    by (auto simp: check_module_def bindE_Inr_iff Let_def split: option.splits if_splits)
  from module_targets.collect_set [OF r(4)] obtain names where
    "domain = map JString names" "distinct names" "list_all (\<lambda>x. x \<in> seen) names" by blast
  with r(1-3,5-7) show "module_ok c files seen i entry"
    by (fastforce simp: module_ok_def list_all_iff)
  show "expected' = insert (module_path i) expected" by (rule r(8))
qed

lemma check_modules_ok:
  assumes "foldE (check_module c files seen) (List.enumerate k modules) expected = Inr expected'"
  shows "(\<forall>i < length modules. module_ok c files seen (k + i) (modules ! i)) \<and>
    expected' = expected \<union> module_path ` {k..<k + length modules}"
  using assms
proof (induction modules arbitrary: k expected)
  case Nil
  then show ?case by simp
next
  case (Cons m modules)
  then obtain e where e: "check_module c files seen (k, m) expected = Inr e"
    "foldE (check_module c files seen) (List.enumerate (Suc k) modules) e = Inr expected'"
    by (auto simp: bindE_Inr_iff)
  note one = check_module_ok [OF e(1)] and rest = Cons.IH [OF e(2)]
  have "module_ok c files seen (k + i) ((m # modules) ! i)" if "i < length (m # modules)" for i
    using that one(1) rest by (cases i) auto
  moreover have "{k..<k + length (m # modules)} = insert k {Suc k..<Suc k + length modules}" by auto
  ultimately show ?case using one(2) rest by auto
qed

text \<open>The facts of an accepted manifest, collected for the properties.\<close>

lemma validate_object_facts:
  assumes "validate_object c files object = Inr ()" "smap_wf files"
    and "smap_at files ''manifest.json'' \<noteq> None"
  obtains kind names modules plan where
    "getString object ''kind'' = Some kind" "kind \<in> set artifact_kinds"
    "getArray object ''targets'' = Some (map JString names)" "names \<noteq> []" "distinct names"
    "set names \<subseteq> set all_target_ids"
    "getArray object ''modules'' = Some modules"
    "\<forall>i < length modules. module_ok c files (set names) i (modules ! i)"
    "\<forall>t \<in> set names. \<exists>lrec path. link_source object t = Some lrec \<and> link_ok c lrec kind path files"
    "readCompilationPlan object = Inr plan"
    "dom (smap_at files) \<subseteq> {''manifest.json'', ''link/version.script''} \<union> target_script_path ` set names \<union>
       module_path ` {0..<length modules}"
proof -
  from assms(1) obtain kind targets seen modules e1 e2 e3 plan where
    v: "getString object ''kind'' = Some kind" "kind \<in> set artifact_kinds"
       "getArray object ''targets'' = Some targets" "targets \<noteq> []" "foldE seen_target targets {} = Inr seen"
       "getArray object ''modules'' = Some modules"
       "validateLinkRecord c object kind ''link/version.script'' files {''manifest.json''} = Inr e1"
       "check_target_links c object kind files seen e1 = Inr e2"
       "foldE (check_module c files seen) (List.enumerate 0 modules) e2 = Inr e3"
       "readCompilationPlan object = Inr plan" "card e3 = length files"
    by (auto simp: validate_object_def bindE_Inr_iff split: option.splits if_splits)
  from seen_targets.collect_set [OF v(5)] obtain names where
    names: "targets = map JString names" "distinct names" "seen = set names" "set names \<subseteq> set all_target_ids"
    by (auto simp: list_all_iff)
  note link = validateLinkRecord_ok [OF v(7)]
  note tl = check_target_links_ok [OF v(8) _ link(1)]
  note mods = check_modules_ok [OF v(9)]
  have modpaths: "module_path ` {0..<length modules} \<subseteq> dom (smap_at files)"
    using mods by (auto simp: module_ok_def)
  have e1: "e1 \<subseteq> dom (smap_at files)"
    using link(2,3) assms(3) by (auto split: if_splits)
  have e2: "e2 \<subseteq> dom (smap_at files)"
    using e1 tl(3) names(3) by auto
  have e3: "e3 \<subseteq> dom (smap_at files)"
    using e2 modpaths mods by auto
  have "e3 = dom (smap_at files)" by (rule smap.covers_dom [OF assms(2) e3 v(11)])
  moreover have "e3 \<subseteq> {''manifest.json'', ''link/version.script''} \<union> target_script_path ` set names \<union>
       module_path ` {0..<length modules}"
    using mods link(2) tl(2) names(3) by (auto split: if_splits)
  ultimately show thesis
    using v names mods tl(1) by (intro that) (auto simp: names)
qed

section \<open>Plans survive the manifest\<close>

lemma map_of_drop_key: "map_of (filter (\<lambda>p. fst p \<noteq> k) m) x = (if x = k then None else map_of m x)"
  by (induction m) auto

interpretation object: std_map map_of obj_put "[]" length "\<lambda>m. distinct (map fst m)"
proof unfold_locales
  fix k :: string and v :: json and m :: json_object
  show "map_of (obj_put k v m) = (map_of m)(k \<mapsto> v)"
    by (auto simp: obj_put_def map_add_def fun_eq_iff map_of_drop_key split: option.splits)
  assume d: "distinct (map fst m)"
  then show "distinct (map fst (obj_put k v m))"
    by (auto simp: obj_put_def distinct_filter_map_fst)
  show "finite (dom (map_of m)) \<and> length m = card (dom (map_of m))"
    using distinct_card [OF d] by (simp add: dom_map_of_conv_image_fst)
qed simp_all

lemma plan_json_eq:
  "plan_json plan = fold (\<lambda>(k, v). obj_put k v) (map (\<lambda>(t, us). (t, JArray (map unit_json us))) plan) []"
  by (simp add: plan_json_def fold_map comp_def case_prod_unfold)

lemma plan_json_facts:
  assumes "smap_wf plan"
  shows "length (plan_json plan) = length plan"
    "smap_at plan t = Some us \<Longrightarrow> getArray (plan_json plan) t = Some (map unit_json us)"
proof -
  let ?kvs = "map (\<lambda>(t, us). (t, JArray (map unit_json us))) plan"
  have keys: "map fst ?kvs = map fst plan" by (simp add: case_prod_unfold)
  then have d: "distinct (map fst ?kvs)" using smap_wf_distinct [OF assms] by (simp only: keys)
  have inv: "distinct (map fst (plan_json plan))"
    unfolding plan_json_eq by (rule object.puts_invar) simp
  have "dom (map_of (plan_json plan)) = fst ` set plan"
    unfolding plan_json_eq by (subst object.puts_dom) (auto simp: image_image case_prod_unfold)
  then show "length (plan_json plan) = length plan"
    using object.count_dom [OF inv] distinct_card [OF smap_wf_distinct [OF assms]] by simp
  assume "smap_at plan t = Some us"
  then have "(t, JArray (map unit_json us)) \<in> set ?kvs" by (force dest: map_of_SomeD)
  then have "map_of (plan_json plan) t = Some (JArray (map unit_json us))"
    unfolding plan_json_eq by (intro object.puts_at d) simp_all
  then show "getArray (plan_json plan) t = Some (map unit_json us)" by (simp add: getArray_def)
qed

lemma plan_members_complete:
  assumes "seen_inv domains name seen (consumed @ ms)" "length domains \<le> 2 ^ 63"
    and "distinct (consumed @ ms @ is)" "set is \<subseteq> active_fragments domains name"
  shows "\<exists>seen'. foldE (plan_member domains name) (map (\<lambda>i. JInt (int64_of_size i)) is) (seen, ms) =
      Inr (seen', ms @ is) \<and> seen_inv domains name seen' (consumed @ ms @ is)"
  using assms
proof (induction "is" arbitrary: seen ms)
  case Nil
  then show ?case by simp
next
  case (Cons i js)
  have i: "i \<in> active_fragments domains name" "i \<notin> set (consumed @ ms)" using Cons.prems(3,4) by auto
  then have "i < 2 ^ 63" using Cons.prems(2) by (auto simp: active_fragments_def)
  then have "getAsInteger (JInt (int64_of_size i)) = Some (int i)"
    by (simp add: int64_of_size_def int64_min_def int64_max_def)
  then have step: "plan_member domains name (JInt (int64_of_size i)) (seen, ms) = Inr (seen[i := True], ms @ [i])"
    using plan_member_iff [OF Cons.prems(1)] i by blast
  have "seen_inv domains name (seen[i := True]) (consumed @ ms @ [i])"
    using seen_inv_step [OF Cons.prems(1) i] by simp
  then obtain seen' where "foldE (plan_member domains name) (map (\<lambda>i. JInt (int64_of_size i)) js)
      (seen[i := True], ms @ [i]) = Inr (seen', (ms @ [i]) @ js)"
    "seen_inv domains name seen' (consumed @ (ms @ [i]) @ js)"
    using Cons.IH [of "seen[i := True]" "ms @ [i]"] Cons.prems(2-4) by auto
  with step show ?case by auto
qed

lemma unit_json_reads:
  "unit_json u = JObject m \<Longrightarrow>
     forE unit_field m = Inr () \<and>
     getArray m ''modules'' = Some (map (\<lambda>i. JInt (int64_of_size i)) (au_modules u)) \<and>
     getString m ''optimization'' = Some (au_optimization u) \<and>
     obj_get m ''archive_member'' = (if au_archiveMember u = [] then None else Some (JString (au_archiveMember u)))"
  by (auto simp: unit_json_def Let_def obj_put_def unit_fields.all_iff json_get_defs split: if_splits)

lemma plan_unit_complete:
  assumes "unit_ok kind u" "seen_inv domains name seen (plan_members us)" "length domains \<le> 2 ^ 63"
    and "distinct (plan_members (us @ [u]))" "set (au_modules u) \<subseteq> active_fragments domains name"
  shows "\<exists>seen'. plan_unit kind domains name (unit_json u) (seen, us) = Inr (seen', us @ [u]) \<and>
    seen_inv domains name seen' (plan_members (us @ [u]))"
proof -
  obtain m where m: "unit_json u = JObject m" by (simp add: unit_json_def Let_def)
  note reads = unit_json_reads [OF m]
  obtain seen' where seen': "foldE (plan_member domains name) (map (\<lambda>i. JInt (int64_of_size i)) (au_modules u)) (seen, []) =
      Inr (seen', au_modules u)" "seen_inv domains name seen' (plan_members us @ au_modules u)"
    using plan_members_complete [of domains name seen "plan_members us" "[]" "au_modules u"] assms(2-5)
    by (auto simp: plan_members_def)
  have "unit_archive_member kind m = Inr (au_archiveMember u)"
    using assms(1) reads
    by (auto simp: unit_archive_member_def unit_ok_def getString_def obj_get_def validArchiveMember_def)
  with reads seen' assms(1) show ?thesis
    by (auto simp: plan_unit_def m unit_ok_def plan_members_def)
qed

lemma plan_units_complete:
  assumes "list_all (unit_ok kind) vs" "seen_inv domains name seen (plan_members us)" "length domains \<le> 2 ^ 63"
    and "distinct (plan_members (us @ vs))" "set (plan_members vs) \<subseteq> active_fragments domains name"
  shows "\<exists>seen'. foldE (plan_unit kind domains name) (map unit_json vs) (seen, us) = Inr (seen', us @ vs) \<and>
    seen_inv domains name seen' (plan_members (us @ vs))"
  using assms
proof (induction vs arbitrary: seen us)
  case Nil
  then show ?case by simp
next
  case (Cons v vs)
  have "distinct (plan_members (us @ [v]))" using Cons.prems(4) by (auto simp: plan_members_def)
  moreover have "unit_ok kind v" "set (au_modules v) \<subseteq> active_fragments domains name"
    using Cons.prems(1,5) by (auto simp: plan_members_def)
  ultimately obtain seen1 where s1: "plan_unit kind domains name (unit_json v) (seen, us) = Inr (seen1, us @ [v])"
    "seen_inv domains name seen1 (plan_members (us @ [v]))"
    using plan_unit_complete [of kind v domains name seen us] Cons.prems(2,3) by blast
  then obtain seen' where
    "foldE (plan_unit kind domains name) (map unit_json vs) (seen1, us @ [v]) = Inr (seen', (us @ [v]) @ vs)"
    "seen_inv domains name seen' (plan_members ((us @ [v]) @ vs))"
    using Cons.IH [of seen1 "us @ [v]"] Cons.prems by (auto simp: plan_members_def)
  with s1(1) show ?case by auto
qed

lemma exact_cover_length:
  assumes "exact_cover domains name us" "list_all (unit_ok kind) us"
  shows "length us \<le> length domains"
proof -
  have "length us \<le> length (plan_members us)"
    using assms(2)
  proof (induction us)
    case (Cons u us)
    then have "length (au_modules u) \<ge> 1" by (cases "au_modules u") (auto simp: unit_ok_def)
    with Cons show ?case by (simp add: plan_members_def)
  qed simp
  also have "\<dots> = card (active_fragments domains name)"
    using assms(1) by (auto simp: exact_cover_def dest!: distinct_card)
  also have "\<dots> \<le> card {i. i < length domains}"
    by (rule card_mono) (auto simp: active_fragments_def)
  finally show ?thesis by simp
qed

lemma plan_target_complete:
  assumes "getArray plans name = Some (map unit_json us)" "exact_cover domains name us"
    and "list_all (unit_ok kind) us" "length domains \<le> 2 ^ 63" "smap_at result name = None"
  shows "plan_target kind plans domains (JString name) result = Inr (smap_put name us result)"
proof -
  have cover: "distinct (plan_members us)" "set (plan_members us) = active_fragments domains name"
    using assms(2) by (auto simp: exact_cover_def)
  obtain seen where seen: "foldE (plan_unit kind domains name) (map unit_json us)
      (replicate (length domains) False, []) = Inr (seen, us)" "seen_inv domains name seen (plan_members us)"
    using plan_units_complete [OF assms(3) _ assms(4), of name "replicate (length domains) False" "[]"]
      seen_inv_start cover by (auto simp: plan_members_def)
  have "\<not> list_ex (\<lambda>i. name \<in> domains ! i \<and> \<not> seen ! i) [0..<length domains]"
    using seen(2) cover(2) by (auto simp: seen_inv_def active_fragments_def list_ex_iff)
  with seen(1) assms exact_cover_length [OF assms(2,3)] show ?thesis
    by (simp add: plan_target_def)
qed

lemma plan_targets_complete:
  assumes "\<forall>n \<in> set names. \<exists>us. smap_at plan n = Some us \<and> getArray plans n = Some (map unit_json us) \<and>
      exact_cover domains n us \<and> list_all (unit_ok kind) us"
    and "length domains \<le> 2 ^ 63" "distinct names" "smap_wf result" "\<forall>n \<in> set names. smap_at result n = None"
  shows "\<exists>plan'. foldE (plan_target kind plans domains) (map JString names) result = Inr plan' \<and> smap_wf plan' \<and>
    (\<forall>n. smap_at plan' n = (if n \<in> set names then smap_at plan n else smap_at result n))"
  using assms
proof (induction names arbitrary: result)
  case Nil
  then show ?case by simp
next
  case (Cons n names)
  then obtain us where us: "smap_at plan n = Some us" "getArray plans n = Some (map unit_json us)"
    "exact_cover domains n us" "list_all (unit_ok kind) us" by auto
  let ?r = "smap_put n us result"
  have step: "plan_target kind plans domains (JString n) result = Inr ?r"
    using plan_target_complete [OF us(2-4) Cons.prems(2)] Cons.prems(5) by simp
  have wf: "smap_wf ?r" and at: "smap_at ?r = (smap_at result)(n \<mapsto> us)"
    using Cons.prems(4) by (simp_all add: smap_put_wf smap_at_put)
  have "\<forall>m \<in> set names. smap_at ?r m = None" using Cons.prems(3,5) at by auto
  then obtain plan' where "foldE (plan_target kind plans domains) (map JString names) ?r = Inr plan'"
    "smap_wf plan'" "\<forall>m. smap_at plan' m = (if m \<in> set names then smap_at plan m else smap_at ?r m)"
    using Cons.IH [of ?r] Cons.prems(1-3) wf by auto
  with step us(1) at show ?case by auto
qed

lemma smap_eqI:
  assumes "smap_wf m" "smap_wf m'" "smap_at m = smap_at m'"
  shows "m = m'"
proof -
  have s: "sorted (map fst m)" "sorted (map fst m')" "distinct (map fst m)" "distinct (map fst m')"
    using assms(1,2) by (auto simp: smap_wf_def strict_sorted_iff)
  have "set m = set m'"
    using s(3,4) assms(3) by (metis map_of_eqI map_of_inject_set)
  then show ?thesis using s by (intro map_sorted_distinct_set_unique [of fst]) (auto simp: inj_on_def, (metis eq_key_imp_eq_value)+)
qed

text \<open>The target domain a module is published with.\<close>

definition effective_targets :: "string list \<Rightarrow> ArtifactModule \<Rightarrow> string list" where
  "effective_targets targets m = (if am_targets m = [] then targets else am_targets m)"

text \<open>A plan fit for publication: one exact cover per target, well-formed units.\<close>

definition publishable :: "string \<Rightarrow> string list \<Rightarrow> ArtifactModule list \<Rightarrow> CompilationPlan \<Rightarrow> bool" where
  "publishable kind targets modules plan \<longleftrightarrow>
     smap_wf plan \<and> dom (smap_at plan) = set targets \<and>
     (\<forall>n us. smap_at plan n = Some us \<longrightarrow>
        list_all (unit_ok kind) us \<and> exact_cover (map (\<lambda>m. set (effective_targets targets m)) modules) n us)"

lemma module_domains_of_records:
  assumes "\<forall>m \<in> set modules. distinct (effective_targets targets m) \<and> effective_targets targets m \<noteq> []"
  shows "mapE module_domain (map (module_record c targets) (List.enumerate k modules)) =
    Inr (map (\<lambda>m. set (effective_targets targets m)) modules)"
  using assms
proof (induction modules arbitrary: k)
  case Nil
  then show ?case by simp
next
  case (Cons m modules)
  then have "foldE domain_id (map JString (effective_targets targets m)) {} = Inr (set (effective_targets targets m))"
    by (subst domain_ids.collect_iff) (auto simp: list_all_iff)
  with Cons show ?case
    by (auto simp: module_domain_def module_record_def getArray_def effective_targets_def)
qed

lemma publishable_roundtrip:
  assumes "publishable kind targets modules plan" "distinct targets" "length modules \<le> 2 ^ 63"
    and "\<forall>m \<in> set modules. distinct (effective_targets targets m) \<and> effective_targets targets m \<noteq> []"
  shows "readCompilationPlan (base_manifest c kind modules libraries linkOptions targets plan) = Inr plan"
proof -
  let ?domains = "map (\<lambda>m. set (effective_targets targets m)) modules"
  have wf: "smap_wf plan" and dm: "dom (smap_at plan) = set targets" using assms(1) by (auto simp: publishable_def)
  have len: "length plan = length targets"
    using smap.count_dom [OF wf] dm distinct_card [OF assms(2)] by simp
  have units: "\<forall>n \<in> set targets. \<exists>us. smap_at plan n = Some us \<and>
      getArray (plan_json plan) n = Some (map unit_json us) \<and>
      exact_cover ?domains n us \<and> list_all (unit_ok kind) us"
  proof
    fix n assume "n \<in> set targets"
    then obtain us where us: "smap_at plan n = Some us" using dm by blast
    with assms(1) plan_json_facts(2) [OF wf us] show "\<exists>us. smap_at plan n = Some us \<and>
        getArray (plan_json plan) n = Some (map unit_json us) \<and>
        exact_cover ?domains n us \<and> list_all (unit_ok kind) us"
      by (simp add: publishable_def)
  qed
  obtain plan' where plan': "foldE (plan_target kind (plan_json plan) ?domains) (map JString targets) [] = Inr plan'"
    "smap_wf plan'" "\<forall>n. smap_at plan' n = (if n \<in> set targets then smap_at plan n else None)"
    using plan_targets_complete [OF units _ assms(2), of "[]"] assms(3) by auto
  have "smap_at plan x = None" if "x \<notin> set targets" for x using that dm by (metis domIff)
  then have "smap_at plan' = smap_at plan" using plan'(3) by (auto simp: fun_eq_iff)
  then have "plan' = plan" using smap_eqI [OF plan'(2) wf] by simp
  moreover have "getObject (base_manifest c kind modules libraries linkOptions targets plan) ''compilation_units'' = Some (plan_json plan)"
    "getArray (base_manifest c kind modules libraries linkOptions targets plan) ''targets'' = Some (map JString targets)"
    "getArray (base_manifest c kind modules libraries linkOptions targets plan) ''modules'' =
       Some (map (module_record c targets) (List.enumerate 0 modules))"
    "getString (base_manifest c kind modules libraries linkOptions targets plan) ''kind'' = Some kind"
    by (simp_all add: base_manifest_def json_get_defs)
  ultimately show ?thesis
    using plan'(1) module_domains_of_records [OF assms(4), of c 0] plan_json_facts(1) [OF wf] len
    by (simp add: readCompilationPlan_def)
qed

section \<open>The plan built when none is given\<close>

definition default_unit_list :: "(nat \<times> ArtifactModule) list \<Rightarrow> string \<Rightarrow> ArtifactUnit list" where
  "default_unit_list ms t =
     map (\<lambda>(i, m). \<lparr>au_modules = [i], au_optimization = am_optimization m, au_archiveMember = am_archiveMember m\<rparr>)
       (filter (\<lambda>(i, m). module_active m t) ms)"

lemma push_units_at:
  assumes "smap_wf plan"
  shows "smap_wf (fold (\<lambda>(i, m) p. if module_active m t
       then push_unit t \<lparr>au_modules = [i], au_optimization = am_optimization m, au_archiveMember = am_archiveMember m\<rparr> p
       else p) ms plan) \<and>
    smap_at (fold (\<lambda>(i, m) p. if module_active m t
       then push_unit t \<lparr>au_modules = [i], au_optimization = am_optimization m, au_archiveMember = am_archiveMember m\<rparr> p
       else p) ms plan) =
      (if default_unit_list ms t = [] then smap_at plan
       else (smap_at plan)(t \<mapsto> (case smap_at plan t of None \<Rightarrow> [] | Some us \<Rightarrow> us) @ default_unit_list ms t))"
  using assms
proof (induction ms arbitrary: plan)
  case Nil
  then show ?case by (simp add: default_unit_list_def)
next
  case (Cons im ms)
  obtain i m where im: "im = (i, m)" by fastforce
  show ?case
  proof (cases "module_active m t")
    case False
    with Cons show ?thesis by (simp add: im default_unit_list_def)
  next
    case True
    let ?u = "\<lparr>au_modules = [i], au_optimization = am_optimization m, au_archiveMember = am_archiveMember m\<rparr>"
    have "smap_wf (push_unit t ?u plan)" using Cons.prems by (simp add: push_unit_def smap_put_wf)
    note IH = Cons.IH [OF this]
    have "smap_at (push_unit t ?u plan) = (smap_at plan)(t \<mapsto> (case smap_at plan t of None \<Rightarrow> [] | Some us \<Rightarrow> us) @ [?u])"
      using Cons.prems by (simp add: push_unit_def smap_at_put)
    moreover have "default_unit_list (im # ms) t = ?u # default_unit_list ms t"
      using True by (simp add: default_unit_list_def im)
    ultimately show ?thesis using IH True by (auto simp: im)
  qed
qed

lemma default_units_fold:
  assumes "distinct targets" "smap_wf plan" "\<forall>t \<in> set targets. smap_at plan t = None"
  shows "smap_wf (fold (default_units modules) targets plan) \<and>
    smap_at (fold (default_units modules) targets plan) =
      (\<lambda>t. if t \<in> set targets \<and> default_unit_list (List.enumerate 0 modules) t \<noteq> []
           then Some (default_unit_list (List.enumerate 0 modules) t) else smap_at plan t)"
  using assms
proof (induction targets arbitrary: plan)
  case Nil
  then show ?case by simp
next
  case (Cons t targets)
  note one = push_units_at [OF Cons.prems(2), of t "List.enumerate 0 modules", folded default_units_def]
  have wf: "smap_wf (default_units modules t plan)" using one by simp
  have at: "smap_at (default_units modules t plan) x =
      (if x = t \<and> default_unit_list (List.enumerate 0 modules) t \<noteq> []
       then Some (default_unit_list (List.enumerate 0 modules) t) else smap_at plan x)" for x
    using one Cons.prems(3) by simp
  have "\<forall>x \<in> set targets. smap_at (default_units modules t plan) x = None"
    using Cons.prems(1,3) by (auto simp: at)
  note IH = Cons.IH [OF _ wf this]
  then show ?case using Cons.prems(1) by (simp add: fun_eq_iff at)
qed

lemma emplace_fold:
  assumes "smap_wf plan"
  shows "smap_wf (fold (\<lambda>t. smap_emplace t v) targets plan) \<and>
    smap_at (fold (\<lambda>t. smap_emplace t v) targets plan) =
      (\<lambda>t. if smap_at plan t = None \<and> t \<in> set targets then Some v else smap_at plan t)"
  using assms
proof (induction targets arbitrary: plan)
  case Nil
  then show ?case by simp
next
  case (Cons t targets)
  with Cons.IH [of "smap_emplace t v plan"] show ?case
    by (auto simp: smap_emplace_wf smap_at_emplace fun_eq_iff)
qed

lemma default_plan_at:
  assumes "distinct targets"
  shows "smap_wf (default_plan targets modules)"
    "smap_at (default_plan targets modules) t =
       (if t \<in> set targets then Some (default_unit_list (List.enumerate 0 modules) t) else None)"
proof -
  have start: "\<forall>t \<in> set targets. smap_at [] t = (None :: ArtifactUnit list option)" by simp
  note built = default_units_fold [OF assms smap_wf_Nil start, of modules]
  note filled = emplace_fold [of "fold (default_units modules) targets []" "[]" targets]
  show "smap_wf (default_plan targets modules)" using built filled by (simp add: default_plan_def)
  show "smap_at (default_plan targets modules) t =
       (if t \<in> set targets then Some (default_unit_list (List.enumerate 0 modules) t) else None)"
    using built filled by (simp add: default_plan_def)
qed

lemma enumerate_filter_distinct: "distinct (map fst (filter P (List.enumerate k xs)))"
  by (rule distinct_filter_map_fst) (simp add: enumerate_eq_zip)

lemma default_plan_publishable:
  assumes "distinct targets"
    and "\<forall>m \<in> set modules. am_optimization m \<in> set optimization_levels \<and>
      (if kind = ''static'' then validArchiveMember (am_archiveMember m) else am_archiveMember m = [])"
  shows "publishable kind targets modules (default_plan targets modules)"
proof -
  let ?domains = "map (\<lambda>m. set (effective_targets targets m)) modules"
  let ?units = "default_unit_list (List.enumerate 0 modules)"
  have cover: "exact_cover ?domains t (?units t)" if t: "t \<in> set targets" for t
  proof -
    have members: "plan_members (?units t) = map fst (filter (\<lambda>(i, m). module_active m t) (List.enumerate 0 modules))"
      by (simp add: plan_members_def default_unit_list_def comp_def case_prod_unfold)
    have "set (plan_members (?units t)) = active_fragments ?domains t"
      using t by (force simp: members active_fragments_def in_set_enumerate_eq module_active_def effective_targets_def
          split: if_splits)
    then show ?thesis by (simp add: exact_cover_def members enumerate_filter_distinct)
  qed
  have "list_all (unit_ok kind) (?units t)" for t
    using assms(2) by (auto simp: default_unit_list_def unit_ok_def list_all_iff in_set_enumerate_eq)
  with cover default_plan_at [OF assms(1)] show ?thesis
    by (auto simp: publishable_def domIff split: if_splits)
qed

section \<open>Bounded package input\<close>

lemma read_entry_length:
  "read_entry name extent reads data = Inr d \<Longrightarrow> length data \<le> extent \<Longrightarrow> length d = extent"
proof (induction reads arbitrary: data)
  case Nil
  then show ?case by (auto split: if_splits)
next
  case (Cons r reads)
  then show ?case by (auto split: if_splits option.splits)
qed

text \<open>What the header loop keeps: bounded totals, distinct safe names.\<close>

definition safe_name :: "string \<Rightarrow> bool" where
  "safe_name n \<longleftrightarrow> n \<noteq> [] \<and> length n \<le> 256 \<and> \<not> is_absolute n \<and> \<not> contains_sub ''..'' n"

definition package_inv :: "package_files \<times> nat \<Rightarrow> bool" where
  "package_inv st \<longleftrightarrow>
     smap_wf (fst st) \<and> length (fst st) \<le> MaxFiles \<and> snd st \<le> MaxBytes \<and>
     snd st = sum_list (map (length \<circ> snd) (fst st)) \<and> list_all (safe_name \<circ> fst) (fst st)"

lemma smap_put_new:
  "map_of m k = None \<Longrightarrow> length (smap_put k v m) = Suc (length m) \<and>
     sum_list (map (f \<circ> snd) (smap_put k v m)) = (f v :: nat) + sum_list (map (f \<circ> snd) m)"
  by (induction m) (auto split: if_splits)

lemma list_all_smap_put: "list_all (P \<circ> fst) m \<Longrightarrow> P k \<Longrightarrow> list_all (P \<circ> fst) (smap_put k v m)"
proof -
  assume "list_all (P \<circ> fst) m" "P k"
  moreover have "fst ` set (smap_put k v m) = insert k (fst ` set m)" by (rule smap_put_keys)
  ultimately show ?thesis by (force simp: list_all_iff)
qed

lemma read_header_inv:
  assumes "read_header entry st = Inr st'" "package_inv st"
  shows "package_inv st'"
proof -
  from assms(1) obtain name data where h: "ae_pathname entry = Some name" "entry_name_ok entry name"
    "ae_size entry \<ge> 0" "nat (ae_size entry) \<le> MaxBytes - snd st" "length (fst st) < MaxFiles"
    "smap_at (fst st) name = None" "read_entry name (nat (ae_size entry)) (ae_reads entry) [] = Inr data"
    "st' = (smap_emplace name data (fst st), snd st + length data)"
    by (auto simp: read_header_def bindE_Inr_iff not_less not_le split: option.splits if_splits)
  have len: "length data = nat (ae_size entry)" using read_entry_length [OF h(7)] by simp
  have "safe_name name" using h(2) by (auto simp: entry_name_ok_def safe_name_def)
  with h len assms(2) smap_put_new [OF h(6), of data length] show ?thesis
    by (auto simp: package_inv_def smap_emplace_def smap_put_wf list_all_smap_put)
qed

lemma readPackage_inv:
  assumes "readPackage entries status = Inr files"
  shows "\<exists>n. package_inv (files, n)"
proof -
  from assms obtain n where "foldE read_header entries ([], 0) = Inr (files, n)"
    by (auto simp: readPackage_def bindE_Inr_iff split: option.splits)
  moreover have "package_inv ([], 0)" by (simp add: package_inv_def)
  ultimately have "package_inv (files, n)"
    using foldE_invariant [of read_header entries "([], 0)" "(files, n)" package_inv] read_header_inv by blast
  then show ?thesis ..
qed

end
