(* ===== verification/Support.thy ===== *)
theory Support
  imports Std_Map
begin

text \<open>
  File and process support (\<open>src/support/Support.cpp\<close>). The operating system is an explicit
  script of answers: each system call consumes the next answer of its kind, so interruptions and
  concurrent changes are ordinary sequences of answers.
\<close>

section \<open>System calls\<close>

text \<open>One answer of a system call: interrupted (\<open>EINTR\<close>), failed with \<open>strerror(errno)\<close>, or a value.\<close>

datatype 'a sys = Interrupted | Failed string | Returned 'a

text \<open>
  \<open>do ... while (result < 0 \&\& errno == EINTR)\<close>: \<open>None\<close> when the script ends before an answer, so
  that the call has not returned.
\<close>

fun retry :: "'a sys list \<Rightarrow> ('a expected \<times> 'a sys list) option" where
  "retry [] = None"
| "retry (Interrupted # answers) = retry answers"
| "retry (Failed e # answers) = Some (Inl e, answers)"
| "retry (Returned x # answers) = Some (Inr x, answers)"

record file_stat =
  st_regular :: bool
  st_size :: int

record os_script =
  os_open :: "unit sys list"
  os_fstat :: "file_stat sys list"
  os_read :: "string sys list"

section \<open>Bounded reading\<close>

definition read_chunk :: nat where "read_chunk = 1024 * 1024"

text \<open>The read loop; a \<open>Returned\<close> answer holds at most as many bytes as were asked for.\<close>

fun read_loop :: "string \<Rightarrow> nat \<Rightarrow> string sys list \<Rightarrow> string \<Rightarrow> (string expected \<times> string sys list) option" where
  "read_loop path extent [] result = (if length result < extent then None else Some (Inr result, []))"
| "read_loop path extent (answer # answers) result =
     (if length result < extent then
        (case answer of
           Interrupted \<Rightarrow> read_loop path extent answers result
         | Failed e \<Rightarrow> Some (Inl (''cannot read '' @ path @ '': '' @ e), answers)
         | Returned bytes \<Rightarrow>
             if bytes = [] then Some (Inl (''input truncated while reading: '' @ path), answers)
             else read_loop path extent answers
                    (result @ take (min (extent - length result) read_chunk) bytes))
      else Some (Inr result, answer # answers))"

definition opened_status :: "string \<Rightarrow> file_stat sys list \<Rightarrow> (file_stat expected \<times> file_stat sys list) option" where
  "opened_status path answers =
     map_option (\<lambda>(r, rest). (case r of Inl e \<Rightarrow> Inl (''cannot stat opened input '' @ path @ '': '' @ e) | Inr s \<Rightarrow> Inr s, rest))
       (retry answers)"

text \<open>After the loop: the file must be at its end and have kept its size.\<close>

definition read_tail :: "string \<Rightarrow> file_stat \<Rightarrow> file_stat sys list \<Rightarrow> string \<Rightarrow> string sys list \<Rightarrow> string expected option" where
  "read_tail path before stats result reads =
     Option.bind (retry reads) (\<lambda>(extra, _).
       case extra of
         Inl e \<Rightarrow> Some (Inl (''cannot check input end '' @ path @ '': '' @ e))
       | Inr bytes \<Rightarrow>
           if bytes \<noteq> [] then Some (Inl (''input grew while reading: '' @ path))
           else Option.bind (opened_status path stats) (\<lambda>(after, _).
             case after of
               Inl e \<Rightarrow> Some (Inl e)
             | Inr after \<Rightarrow>
                 if st_size after \<noteq> st_size before
                 then Some (Inl (''input size changed while reading: '' @ path))
                 else Some (Inr result)))"

definition read_file :: "string \<Rightarrow> nat \<Rightarrow> os_script \<Rightarrow> string expected option" where
  "read_file path limit os =
     Option.bind (retry (os_open os)) (\<lambda>(opened, _).
       case opened of
         Inl e \<Rightarrow> Some (Inl (''cannot open '' @ path @ '': '' @ e))
       | Inr _ \<Rightarrow>
           Option.bind (opened_status path (os_fstat os)) (\<lambda>(before, stats).
             case before of
               Inl e \<Rightarrow> Some (Inl e)
             | Inr before \<Rightarrow>
                 if \<not> st_regular before then Some (Inl (''input is not a regular file: '' @ path))
                 else if st_size before < 0 \<or> st_size before > int limit
                 then Some (Inl (''cannot read bounded input '' @ path @ '': size limit exceeded''))
                 else Option.bind (read_loop path (nat (st_size before)) (os_read os) []) (\<lambda>(result, reads).
                   case result of
                     Inl e \<Rightarrow> Some (Inl e)
                   | Inr bytes \<Rightarrow> read_tail path before stats bytes reads)))"

text \<open>The same script without the interruptions.\<close>

definition uninterrupted :: "'a sys list \<Rightarrow> 'a sys list" where
  "uninterrupted answers = filter (\<lambda>a. a \<noteq> Interrupted) answers"

definition calm :: "os_script \<Rightarrow> os_script" where
  "calm os = \<lparr>os_open = uninterrupted (os_open os), os_fstat = uninterrupted (os_fstat os),
              os_read = uninterrupted (os_read os)\<rparr>"

lemma retry_uninterrupted:
  "retry (uninterrupted answers) = map_option (\<lambda>(r, rest). (r, uninterrupted rest)) (retry answers)"
  by (induction answers rule: retry.induct) (auto simp: uninterrupted_def)

lemma read_loop_done:
  "\<not> length result < extent \<Longrightarrow> read_loop path extent answers result = Some (Inr result, answers)"
  by (cases answers) auto

lemma read_loop_uninterrupted:
  "read_loop path extent (uninterrupted answers) result =
     map_option (\<lambda>(r, rest). (r, uninterrupted rest)) (read_loop path extent answers result)"
  by (induction answers arbitrary: result) (auto simp: uninterrupted_def read_loop_done split: sys.splits)

lemma opened_status_uninterrupted:
  "opened_status path (uninterrupted answers) =
     map_option (\<lambda>(r, rest). (r, uninterrupted rest)) (opened_status path answers)"
  by (cases "retry answers") (auto simp: opened_status_def retry_uninterrupted)

lemma read_tail_uninterrupted:
  "read_tail path before (uninterrupted stats) result (uninterrupted reads) = read_tail path before stats result reads"
  by (cases "retry reads"; cases "opened_status path stats")
    (auto simp: read_tail_def retry_uninterrupted opened_status_uninterrupted split: sum.splits)

lemma read_loop_length:
  "read_loop path extent answers result = Some (Inr bytes, rest) \<Longrightarrow> length result \<le> extent \<Longrightarrow>
   length bytes = extent"
proof (induction answers arbitrary: result)
  case Nil
  then show ?case by (auto split: if_splits)
next
  case (Cons a answers)
  then show ?case by (auto split: if_splits sys.splits)
qed

lemma read_file_calm: "read_file path limit (calm os) = read_file path limit os"
  by (cases "retry (os_open os)"; cases "opened_status path (os_fstat os)")
    (auto simp: read_file_def calm_def retry_uninterrupted opened_status_uninterrupted
      read_loop_uninterrupted read_tail_uninterrupted option.map_comp split: sum.splits Option.bind_splits)

lemma read_file_success:
  assumes "read_file path limit os = Some (Inr bytes)"
  obtains before after stats rest where
    "opened_status path (os_fstat os) = Some (Inr before, stats)" "st_regular before"
    "opened_status path stats = Some (Inr after, rest)"
    "st_size before = int (length bytes)" "st_size after = int (length bytes)" "length bytes \<le> limit"
proof -
  from assms obtain before stats reads where
    r: "opened_status path (os_fstat os) = Some (Inr before, stats)" "st_regular before"
       "0 \<le> st_size before" "st_size before \<le> int limit"
       "read_loop path (nat (st_size before)) (os_read os) [] = Some (Inr bytes, reads)"
       "read_tail path before stats bytes reads = Some (Inr bytes)"
    by (auto simp: read_file_def read_tail_def split: Option.bind_splits sum.splits if_splits)
  have "length bytes = nat (st_size before)" using read_loop_length [OF r(5)] by simp
  moreover obtain after rest where "opened_status path stats = Some (Inr after, rest)" "st_size after = st_size before"
    using r(6) by (auto simp: read_tail_def split: Option.bind_splits sum.splits if_splits)
  ultimately show thesis using r(1-4) by (intro that [of before stats after rest]) auto
qed

section \<open>Atomic installation of an output file\<close>

datatype node = RegularFile string nat | Directory | Symlink | Special

type_synonym path = "string list"
type_synonym filesystem = "path \<rightharpoonup> node"

text \<open>What may go wrong in one installation; the string is the system's message.\<close>

record install_faults =
  if_inspect :: "string option"
  if_mkstemp :: "string option"  \<comment> \<open>the name of the created file, or failure\<close>
  if_copy :: "string option"
  if_chmod :: "string option"
  if_rename :: "string option"
  if_remove_fails :: bool

fun show_path :: "path \<Rightarrow> string" where
  "show_path [] = ''/''"
| "show_path [p] = CHR ''/'' # p"
| "show_path (p # ps) = CHR ''/'' # p @ show_path ps"

text \<open>
  \<open>replaceFile\<close> on an absolute output path. The result is the list of file-system states the
  installation passes through, the last one being final, and the returned error.
\<close>

definition install_steps ::
  "path \<Rightarrow> path \<Rightarrow> bool \<Rightarrow> path \<Rightarrow> install_faults \<Rightarrow> filesystem \<Rightarrow> filesystem list \<times> unit expected" where
  "install_steps source output executable temporary faults fs =
     (let created = fs(temporary \<mapsto> RegularFile [] 384);
          failed = (\<lambda>states e. (states @ [if if_remove_fails faults then last states else (last states)(temporary := None)],
                       Inl (''cannot install output '' @ show_path output @ '': '' @ e)))
      in case (if_copy faults, created source) of
           (None, Some (RegularFile contents mode)) \<Rightarrow>
             (let copied = created(temporary \<mapsto> RegularFile contents mode)
              in case if_chmod faults of
                   Some e \<Rightarrow> failed [created, copied] e
                 | None \<Rightarrow>
                     (let ready = copied(temporary \<mapsto> RegularFile contents (if executable then 493 else 420))
                      in case if_rename faults of
                           Some e \<Rightarrow> failed [created, copied, ready] e
                         | None \<Rightarrow>
                             ([created, copied, ready, ready(output := ready temporary, temporary := None)], success)))
         | (Some e, _) \<Rightarrow> failed [created] e
         | (None, _) \<Rightarrow> failed [created] ''source is not a regular file'')"

definition replaceFile ::
  "path \<Rightarrow> path \<Rightarrow> bool \<Rightarrow> install_faults \<Rightarrow> filesystem \<Rightarrow> filesystem list \<times> unit expected" where
  "replaceFile source output executable faults fs =
     (let parent = butlast output in
      if fs parent \<noteq> Some Directory then ([fs], Inl (''output parent is not a directory: '' @ show_path parent))
      else case if_inspect faults of
        Some e \<Rightarrow> ([fs], Inl (''cannot inspect output: '' @ show_path output @ '': '' @ e))
      | None \<Rightarrow>
          (case fs output of
             Some node \<Rightarrow>
               (case node of
                  RegularFile _ _ \<Rightarrow>
                    (case if_mkstemp faults of
                       None \<Rightarrow> ([fs], Inl ''cannot create output staging file'')
                     | Some name \<Rightarrow> install_steps source output executable (parent @ [name]) faults fs)
                | _ \<Rightarrow> ([fs], Inl (''output must be a regular file, not a directory, symlink or special file: '' @ show_path output)))
           | None \<Rightarrow>
               (case if_mkstemp faults of
                  None \<Rightarrow> ([fs], Inl ''cannot create output staging file'')
                | Some name \<Rightarrow> install_steps source output executable (parent @ [name]) faults fs)))"

text \<open>\<open>mkstemp\<close> creates a file that did not exist.\<close>

definition fresh_staging :: "path \<Rightarrow> install_faults \<Rightarrow> filesystem \<Rightarrow> bool" where
  "fresh_staging output faults fs \<longleftrightarrow>
     (\<forall>name. if_mkstemp faults = Some name \<longrightarrow> fs (butlast output @ [name]) = None \<and> butlast output @ [name] \<noteq> output)"

section \<open>Subprocesses\<close>

datatype exit_status = Exited nat | Signaled nat

text \<open>\<open>waits\<close> are the answers of \<open>waitpid\<close>; a failure other than an interruption is final.\<close>

definition run :: "string list \<Rightarrow> string option \<Rightarrow> exit_status sys list \<Rightarrow> unit expected option" where
  "run args fork_error waits =
     (case args of
        [] \<Rightarrow> Some (Inl ''empty subprocess command'')
      | program # _ \<Rightarrow>
          (case fork_error of
             Some e \<Rightarrow> Some (Inl (''fork failed: '' @ e))
           | None \<Rightarrow>
               map_option (\<lambda>(r, _). case r of
                   Inl _ \<Rightarrow> Inl ''waitpid failed''
                 | Inr status \<Rightarrow>
                     (case status of
                        Exited code \<Rightarrow>
                          if code = 0 then success
                          else Inl (program @ '' failed with exit '' @ to_string code)
                      | Signaled sig \<Rightarrow> Inl (program @ '' failed with signal '' @ to_string sig)))
                 (retry waits)))"

lemma run_success:
  "run args fork_error waits = Some success \<longleftrightarrow>
     args \<noteq> [] \<and> fork_error = None \<and> (\<exists>rest. retry waits = Some (Inr (Exited 0), rest))"
proof (cases "retry waits")
  case None
  then show ?thesis by (auto simp: run_def split: list.splits option.splits)
next
  case (Some p)
  obtain r rest where p: "p = (r, rest)" by fastforce
  show ?thesis
  proof (cases r)
    case (Inl e)
    with Some p show ?thesis by (auto simp: run_def split: list.splits option.splits)
  next
    case (Inr status)
    with Some p show ?thesis
      by (cases status) (auto simp: run_def split: list.splits option.splits)
  qed
qed

text \<open>What the states of an installation have in common, and where it ends.\<close>

lemma install_steps_states:
  assumes "install_steps source output executable temporary faults fs = (states, r)"
    and "fs temporary = None" "temporary \<noteq> output"
  shows "states \<noteq> []"
    "\<forall>s \<in> set states. \<forall>p. p \<noteq> output \<longrightarrow> p \<noteq> temporary \<longrightarrow> s p = fs p"
    "\<forall>s \<in> set states. s output = fs output \<or>
       (\<exists>contents mode. (fs(temporary \<mapsto> RegularFile [] 384)) source = Some (RegularFile contents mode) \<and>
          s output = Some (RegularFile contents (if executable then 493 else 420)))"
    "r = success \<Longrightarrow> \<exists>contents mode. (fs(temporary \<mapsto> RegularFile [] 384)) source = Some (RegularFile contents mode) \<and>
       last states = fs(output \<mapsto> RegularFile contents (if executable then 493 else 420))"
    "r \<noteq> success \<Longrightarrow> \<not> if_remove_fails faults \<Longrightarrow> last states = fs"
  using assms
  by (auto simp: install_steps_def Let_def fun_eq_iff split: option.splits node.splits if_splits)

end
