(* ===== verification/Sdk.thy ===== *)
theory Sdk
  imports Targets Artifact
begin

text \<open>
  The development kit as a value (\<open>src/support/Sdk.cpp\<close>): tool and sysroot paths, compile flags,
  validation and the native link command. File-system queries and the build-time configuration are
  parameters.
\<close>

text \<open>
  The configuration the library is built with: the pinned device target of a compiler bundle
  (\<open>SELA_DEVICE_TARGET\<close>; \<open>None\<close> in the publisher's build), the host architecture macro, the lock
  digest, and whether a consumer receipt is required.
\<close>

record build_config =
  device_target :: "string option"
  host_arch :: string
  sdk_lock :: string
  require_receipt :: bool

record world =
  w_regular :: "string \<Rightarrow> bool"
  w_directory :: "string \<Rightarrow> bool"
  w_absolute :: "string \<Rightarrow> string"

definition supportsProfile :: "build_config \<Rightarrow> string \<Rightarrow> bool" where
  "supportsProfile b profile =
     (case device_target b of Some device \<Rightarrow> profile = device | None \<Rightarrow> targets_find profile \<noteq> None)"

definition hostTarget :: "build_config \<Rightarrow> TargetInfo option" where
  "hostTarget b = targets_find (case device_target b of Some device \<Rightarrow> device | None \<Rightarrow> host_arch b)"

text \<open>\<open>fs::path\<close>'s \<open>operator/\<close> on the relative right-hand sides used here.\<close>

definition path_join :: "string \<Rightarrow> string \<Rightarrow> string" where
  "path_join a b = (if a = [] \<or> last a = CHR ''/'' then a @ b else a @ ''/'' @ b)"


definition sdk_tool :: "string \<Rightarrow> string \<Rightarrow> string" where
  "sdk_tool base name = path_join (path_join base ''host/usr/lib/llvm-18/bin'') name"

definition sdk_sysroot :: "build_config \<Rightarrow> string \<Rightarrow> string \<Rightarrow> string" where
  "sdk_sysroot b base profile =
     (if \<not> supportsProfile b profile then []
      else case targets_find profile of
        None \<Rightarrow> []
      | Some info \<Rightarrow> path_join (path_join base ''sysroots'') (sysrootTriple info))"

definition toolEnvironment :: "build_config \<Rightarrow> string \<Rightarrow> (string \<times> string) list" where
  "toolEnvironment b base =
     [(''LD_LIBRARY_PATH'',
       path_join base ''host/usr/lib/llvm-18/lib'' @ '':'' @
       path_join (path_join base ''host/usr/lib'') (case hostTarget b of None \<Rightarrow> [] | Some t \<Rightarrow> multiarch t))]"

text \<open>\<open>trim\<close> of a receipt.\<close>

definition trim_text :: "string \<Rightarrow> string" where
  "trim_text s = rev (dropWhile trim_char (rev (dropWhile trim_char s)))"

definition check_tool :: "build_config \<Rightarrow> world \<Rightarrow> string \<Rightarrow> string \<Rightarrow> unit expected" where
  "check_tool b w base toolName =
     (if w_regular w (sdk_tool base toolName) then success
      else if require_receipt b
      then Inl (''consumer SDK tool missing: '' @ sdk_tool base toolName @
                ''; rebuild this target's SDK or reinstall its complete compiler bundle'')
      else Inl (''SDK tool missing: '' @ sdk_tool base toolName @ ''; run scripts/bootstrap-sdk.sh''))"

definition check_receipt :: "build_config \<Rightarrow> json expected \<Rightarrow> unit expected" where
  "check_receipt b completion =
     (case completion of
        Inl e \<Rightarrow> Inl (''consumer SDK build is incomplete: '' @ e)
      | Inr v \<Rightarrow>
          (case getAsObject v of
             None \<Rightarrow> Inl ''consumer SDK completion receipt does not match this compiler''
           | Some rec \<Rightarrow>
               if getString rec ''sdk_identity'' \<noteq> Some (sdk_lock b) \<or> getString rec ''profile'' \<noteq> device_target b
               then Inl ''consumer SDK completion receipt does not match this compiler''
               else success))"

text \<open>
  \<open>Sdk::validate\<close>; \<open>receipt\<close> and \<open>completion\<close> are the results of reading the two receipt files,
  \<open>env\<close> the value of \<open>SELA_ARCHS\<close>.
\<close>

definition sdk_validate ::
  "build_config \<Rightarrow> world \<Rightarrow> string \<Rightarrow> string expected \<Rightarrow> json expected \<Rightarrow> bool \<Rightarrow> string list \<Rightarrow> string option \<Rightarrow>
   unit expected" where
  "sdk_validate b w base receipt completion publisher selectedTargets env =
     (case receipt of
        Inl e \<Rightarrow> Inl (''SDK bootstrap receipt missing: '' @ e)
      | Inr text \<Rightarrow>
          if trim_text text \<noteq> sdk_lock b
          then Inl ''SDK package lock does not match this experimental compiler contract''
          else
            bindE (if require_receipt b then check_receipt b completion else success) (\<lambda>_.
            bindE (forE (check_tool b w base) [''opt'', ''llc'', ''ld.lld'', ''llvm-ar'']) (\<lambda>_.
            if \<not> publisher then success
            else if device_target b \<noteq> None then Inl ''this device SDK does not provide publication tools''
            else if \<not> w_regular w (sdk_tool base ''clang'') then Inl ''publisher SDK is missing stock Clang''
            else bindE (publicationTargets selectedTargets env) (\<lambda>selected.
              forE (\<lambda>target. if w_regular w (path_join (sdk_sysroot b base target) ''usr/include/stdio.h'') then success
                   else Inl (''publisher SDK headers missing for '' @ target @ ''; run scripts/bootstrap-sdk.sh''))
                selected))))"

definition compileFlags :: "build_config \<Rightarrow> string \<Rightarrow> string \<Rightarrow> string list" where
  "compileFlags b base profile =
     (if \<not> supportsProfile b profile then []
      else case targets_find profile of
        None \<Rightarrow> []
      | Some target \<Rightarrow>
          [''--target='' @ triple target, ''--sysroot='' @ sdk_sysroot b base profile,
           ''-resource-dir='' @ path_join base ''host/usr/lib/llvm-18/lib/clang/18''] @
          clangArgs target @ publicationArgs target)"

text \<open>The search for one declared native library.\<close>

definition library_found :: "world \<Rightarrow> string list \<Rightarrow> string \<Rightarrow> bool" where
  "library_found w search library =
     (let exact = starts_with '':'' library;
          filename = (if exact then drop 1 library else ''lib'' @ library @ ''.so'')
      in list_ex (\<lambda>d. w_regular w (path_join d filename) \<or>
                      (\<not> exact \<and> w_regular w (path_join d (''lib'' @ library @ ''.a'')))) search)"

definition link_library :: "world \<Rightarrow> string list \<Rightarrow> string \<Rightarrow> string list \<Rightarrow> string list expected" where
  "link_library w search library args =
     (if library = [] \<or> CHR ''/'' \<in> set library \<or> CHR 0x00 \<in> set library
      then Inl ''invalid managed native library name''
      else if \<not> library_found w search library
      then Inl (''missing declared managed native dependency: '' @
                (if starts_with '':'' library then drop 1 library else ''lib'' @ library @ ''.so''))
      else Inr (args @ [''-l'' @ library]))"

definition link_runpath :: "world \<Rightarrow> string \<Rightarrow> string \<Rightarrow> string expected" where
  "link_runpath w directory runpath =
     (if \<not> w_directory w directory \<or> CHR '':'' \<in> set directory
      then Inl (''invalid managed native library directory: '' @ directory)
      else Inr (runpath @ w_absolute w directory @ '':''))"

text \<open>
  The paths a native link names: the target's library and runtime directories, its loader, and
  the compiler runtime.
\<close>

definition link_lib :: "build_config \<Rightarrow> string \<Rightarrow> TargetInfo \<Rightarrow> string \<Rightarrow> string" where
  "link_lib b base info profile = path_join (path_join (sdk_sysroot b base profile) ''usr/lib'') (multiarch info)"

definition link_runtime :: "build_config \<Rightarrow> string \<Rightarrow> TargetInfo \<Rightarrow> string \<Rightarrow> string" where
  "link_runtime b base info profile = path_join (path_join (sdk_sysroot b base profile) ''lib'') (multiarch info)"

definition compiler_runtime :: "string \<Rightarrow> string \<Rightarrow> string" where
  "compiler_runtime base file = path_join (path_join base ''host/usr/lib/llvm-18/lib/clang/18/lib/linux'') file"

definition link_prefix ::
  "build_config \<Rightarrow> world \<Rightarrow> string \<Rightarrow> TargetInfo \<Rightarrow> string \<Rightarrow> string list \<Rightarrow> string \<Rightarrow> bool \<Rightarrow> string list \<Rightarrow> string \<Rightarrow>
   string list" where
  "link_prefix b w base info profile objects output shared libraryDirectories runpath =
     (let lib = link_lib b base info profile;
          runtime = link_runtime b base info profile
      in [sdk_tool base ''ld.lld'', ''-m'', lldEmulation info, ''--sysroot='' @ sdk_sysroot b base profile,
          (if shared then ''-shared'' else ''-pie''), ''--strip-all'', ''--build-id'', ''--eh-frame-hdr'',
          ''--hash-style=gnu'', ''--dynamic-linker='' @ path_join runtime (loader info), ''--enable-new-dtags'',
          ''-rpath'', runpath, ''-z'', ''nodefaultlib'', ''-z'', ''relro'', ''-z'', ''now'', ''-o'', output] @
         (if shared then [] else [path_join lib ''Scrt1.o'']) @
         [path_join lib ''crti.o'', compiler_runtime base (''clang_rt.crtbegin-'' @ compilerRTArch info @ ''.o'')] @
         objects @
         map (\<lambda>d. ''-L'' @ w_absolute w d) libraryDirectories @
         [''-L'' @ lib, ''-L'' @ runtime, ''--no-as-needed''])"

definition linkCommand ::
  "build_config \<Rightarrow> world \<Rightarrow> string \<Rightarrow> string \<Rightarrow> string list \<Rightarrow> string \<Rightarrow> string list \<Rightarrow> bool \<Rightarrow> string list \<Rightarrow>
   string list \<Rightarrow> string list expected" where
  "linkCommand b w base profile objects output libraries shared linkOptions libraryDirectories =
     (if \<not> supportsProfile b profile
      then Inl (''native linking target is unavailable in this compiler: '' @ profile)
      else case targets_find profile of
        None \<Rightarrow> Inl (''native linking target is unavailable in this compiler: '' @ profile)
      | Some info \<Rightarrow>
          (let lib = link_lib b base info profile;
               runtime = link_runtime b base info profile;
               builtins = compiler_runtime base (''libclang_rt.builtins-'' @ compilerRTArch info @ ''.a'');
               crtbegin = compiler_runtime base (''clang_rt.crtbegin-'' @ compilerRTArch info @ ''.o'');
               crtend = compiler_runtime base (''clang_rt.crtend-'' @ compilerRTArch info @ ''.o'')
           in
             bindE (forE (\<lambda>p. if w_regular w p then success else Inl (''SDK link input missing: '' @ p))
                      [path_join lib ''Scrt1.o'', path_join lib ''crti.o'', path_join lib ''crtn.o'',
                       path_join runtime (loader info), path_join lib ''libc.so'', builtins, crtbegin, crtend]) (\<lambda>_.
             bindE (foldE (link_runpath w) libraryDirectories []) (\<lambda>directories.
             bindE (foldE (link_library w (libraryDirectories @ [lib, runtime])) libraries
                      (link_prefix b w base info profile objects output shared libraryDirectories
                         (directories @ runtime @ '':'' @ lib))) (\<lambda>args.
               Inr (args @ linkOptions @ [builtins, ''-lc'', crtend, path_join lib ''crtn.o'']))))))"

lemma link_libraries_iff:
  "foldE (link_library w search) libraries args = Inr args' \<longleftrightarrow>
     (\<forall>l \<in> set libraries. l \<noteq> [] \<and> CHR ''/'' \<notin> set l \<and> CHR 0x00 \<notin> set l \<and> library_found w search l) \<and>
     args' = args @ map (\<lambda>l. ''-l'' @ l) libraries"
proof (induction libraries arbitrary: args)
  case Nil
  then show ?case by auto
next
  case (Cons l libraries)
  show ?case
  proof (cases "l = [] \<or> CHR ''/'' \<in> set l \<or> CHR 0x00 \<in> set l \<or> \<not> library_found w search l")
    case True
    then show ?thesis by (auto simp: link_library_def)
  next
    case False
    then have "link_library w search l args = Inr (args @ [''-l'' @ l])" by (simp add: link_library_def)
    with False Cons.IH show ?thesis by auto
  qed
qed

text \<open>The objects and then the libraries appear in the command, in the order given.\<close>

lemma link_prefix_shape:
  "\<exists>pre mid. link_prefix b w base info profile objects output shared dirs runpath =
     pre @ objects @ mid @ [''--no-as-needed'']"
proof -
  have "\<exists>pre mid. x @ y @ z @ objects @ m @ [p, q, r] = pre @ objects @ mid @ [r]"
    for x y z m :: "string list" and p q r
    by (rule exI [of _ "x @ y @ z"], rule exI [of _ "m @ [p, q]"]) simp
  then show ?thesis unfolding link_prefix_def Let_def by blast
qed

lemma linkCommand_shape:
  assumes "linkCommand b w base profile objects output libraries shared linkOptions dirs = Inr command"
  shows "(\<exists>pre mid post. command =
           pre @ objects @ mid @ [''--no-as-needed''] @ map (\<lambda>l. ''-l'' @ l) libraries @ linkOptions @ post) \<and>
         (\<forall>l \<in> set libraries. l \<noteq> [] \<and> CHR ''/'' \<notin> set l)"
proof -
  from assms obtain info runpath search args post where c:
    "foldE (link_library w search) libraries
       (link_prefix b w base info profile objects output shared dirs runpath) = Inr args"
    "command = args @ linkOptions @ post"
    unfolding linkCommand_def Let_def
    by (auto simp: bindE_Inr_iff simp del: forE.simps split: option.splits if_splits)
  obtain pre mid where
    "link_prefix b w base info profile objects output shared dirs runpath =
       pre @ objects @ mid @ [''--no-as-needed'']"
    using link_prefix_shape by blast
  with c show ?thesis by (auto simp: link_libraries_iff)
qed

end
