(* ===== verification/Dialect.thy ===== *)
theory Dialect
  imports Targets Std_Map
begin

text \<open>
  The public intermediate representation as data: MLIR attributes, the types of the Sela dialect
  (\<open>include/sela/IR/Dialect.h\<close>, \<open>include/sela/IR/Overlap.h\<close>) and operations with regions, blocks and
  SSA values. MLIR itself (its storage, uniquing and structural verifier) is third-party; the
  constructors below are the ones the code distinguishes by \<open>dyn_cast\<close>.
\<close>

section \<open>Attributes and types\<close>

text \<open>
  \<open>IntegerA w n\<close> is a signless integer attribute of width \<open>w\<close> with the zero-extended value \<open>n\<close>; a
  \<open>BoolAttr\<close> is one of width 1. A dictionary is an association list in key order. \<open>FloatT\<close> is any other
  builtin floating-point type, \<open>OtherT\<close> any other type.
\<close>

datatype attr =
    IntegerA nat nat
  | FloatA sty nat
  | StringA string
  | ArrayA "attr list"
  | DictA "(string \<times> attr) list"
  | TypeA sty
  | UnitA
  | DenseI32A "int list"
  | OtherA string
and sty =
    WordT
  | PointerT
  | VaListT
  | VaListArgumentT
  | ArrayT sty attr
  | RecordT string bool "sty list"
  | OverlapT string "sty list" "attr list"
  | ChoiceT attr
  | FunctionT "sty list" "sty list"
  | IntegerT nat
  | VectorT bool "nat list" sty
  | F32T
  | F64T
  | FloatT string
  | OtherT string

type_synonym dict = "(string \<times> attr) list"

lemma size_array_mem: "x \<in> set xs \<Longrightarrow> size x < size (ArrayA xs)"
  by (simp add: size_list_estimation' less_Suc_eq_le)

lemma size_dict_mem: "(k, v) \<in> set d \<Longrightarrow> size v < size (DictA d)"
proof -
  assume "(k, v) \<in> set d"
  then have "size v \<le> size_list (size_prod (\<lambda>_. 0) size) d"
    by (induction d) auto
  then show ?thesis by simp
qed

lemma size_dict_get: "map_of d k = Some v \<Longrightarrow> size v < size (DictA d)"
  by (rule size_dict_mem) (rule map_of_SomeD)

lemma size_type_mem: "x \<in> set xs \<Longrightarrow> size (x :: sty) \<le> size_list size xs"
  by (simp add: size_list_estimation')

lemma sty_size_simps [simp]:
  "size t < size (ArrayT t c)" "size c < size (ArrayT t c)"
  "size c < size (ChoiceT c)" "size t < size (TypeA t)" "size t < size (VectorT b s t)"
  by simp_all

lemma sty_size_mem:
  "x \<in> set xs \<Longrightarrow> size x < size (RecordT i p xs)"
  "x \<in> set xs \<Longrightarrow> size x < size (OverlapT i xs ds)"
  "x \<in> set xs \<Longrightarrow> size x < size (FunctionT xs ys)"
  "x \<in> set ys \<Longrightarrow> size x < size (FunctionT xs ys)"
  using size_type_mem [of x xs] size_type_mem [of x ys] by auto

text \<open>\<open>dyn_cast\<close> and \<open>getAs\<close>.\<close>

fun as_array :: "attr \<Rightarrow> attr list option" where
  "as_array (ArrayA xs) = Some xs"
| "as_array _ = None"

fun as_dict :: "attr \<Rightarrow> dict option" where
  "as_dict (DictA d) = Some d"
| "as_dict _ = None"

fun as_string :: "attr \<Rightarrow> string option" where
  "as_string (StringA s) = Some s"
| "as_string _ = None"

fun as_type :: "attr \<Rightarrow> sty option" where
  "as_type (TypeA t) = Some t"
| "as_type _ = None"

fun as_integer :: "attr \<Rightarrow> (nat \<times> nat) option" where
  "as_integer (IntegerA w n) = Some (w, n)"
| "as_integer _ = None"

fun as_i32s :: "attr \<Rightarrow> int list option" where
  "as_i32s (DenseI32A xs) = Some xs"
| "as_i32s _ = None"

fun as_bool :: "attr \<Rightarrow> bool option" where
  "as_bool (IntegerA w n) = (if w = 1 then Some (n \<noteq> 0) else None)"
| "as_bool _ = None"

definition get_as :: "(attr \<Rightarrow> 'a option) \<Rightarrow> dict \<Rightarrow> string \<Rightarrow> 'a option" where
  "get_as cast d k = Option.bind (map_of d k) cast"

lemma as_array_Some [simp]: "as_array a = Some xs \<longleftrightarrow> a = ArrayA xs"
  by (cases a) auto

lemma as_dict_Some [simp]: "as_dict a = Some d \<longleftrightarrow> a = DictA d"
  by (cases a) auto

lemma as_string_Some [simp]: "as_string a = Some s \<longleftrightarrow> a = StringA s"
  by (cases a) auto

lemma as_type_Some [simp]: "as_type a = Some t \<longleftrightarrow> a = TypeA t"
  by (cases a) auto

lemma as_integer_Some [simp]: "as_integer a = Some p \<longleftrightarrow> a = IntegerA (fst p) (snd p)"
  by (cases a) auto

lemma as_i32s_Some [simp]: "as_i32s a = Some xs \<longleftrightarrow> a = DenseI32A xs"
  by (cases a) auto

lemma get_as_Some: "get_as cast d k = Some x \<longleftrightarrow> (\<exists>a. map_of d k = Some a \<and> cast a = Some x)"
  by (simp add: get_as_def bind_eq_Some_conv)

text \<open>The signed value \<open>getInt()\<close> of a signless integer attribute of at most 64 bits.\<close>

definition get_int :: "nat \<times> nat \<Rightarrow> int" where
  "get_int p = (case p of (w, n) \<Rightarrow> if w > 0 \<and> n \<ge> 2 ^ (w - 1) then int n - 2 ^ w else int n)"

text \<open>\<open>NamedAttrList::set\<close> followed by \<open>getDictionary\<close>, and \<open>removeAttr\<close>.\<close>

definition dict_set :: "string \<Rightarrow> attr \<Rightarrow> dict \<Rightarrow> dict" where
  "dict_set k v d = smap_put k v d"

definition dict_erase :: "string \<Rightarrow> dict \<Rightarrow> dict" where
  "dict_erase k d = filter (\<lambda>p. fst p \<noteq> k) d"

lemma dict_erase_get: "map_of (dict_erase k d) l = (if l = k then None else map_of d l)"
  by (induction d) (auto simp: dict_erase_def)

section \<open>Operations\<close>

text \<open>
  An SSA value is a number, its type is recorded where it is defined (a result or a block
  argument); a successor is a block number. \<open>op_unknown_loc\<close> and the flag of a block argument say
  that the location is \<open>UnknownLoc\<close>.
\<close>

datatype op = Op (op_name: string) (op_attrs: dict) (op_operands: "nat list")
    (op_results: "(nat \<times> sty) list") (op_succs: "nat list") (op_regions: "block list list")
    (op_unknown_loc: bool)
and block = Block (block_id: nat) (block_args: "(nat \<times> sty \<times> bool) list") (block_ops: "op list")

text \<open>A \<open>ModuleOp\<close> has one region with one block.\<close>

definition module_op :: "dict \<Rightarrow> op list \<Rightarrow> op" where
  "module_op attrs ops = Op ''builtin.module'' attrs [] [] [] [[Block 0 [] ops]] True"

definition body_ops :: "op \<Rightarrow> op list" where
  "body_ops m = (case op_regions m of [] \<Rightarrow> [] | r # _ \<Rightarrow> (case r of [] \<Rightarrow> [] | b # _ \<Rightarrow> block_ops b))"

definition set_attrs :: "dict \<Rightarrow> op \<Rightarrow> op" where
  "set_attrs d x = Op (op_name x) d (op_operands x) (op_results x) (op_succs x) (op_regions x) (op_unknown_loc x)"

definition set_regions :: "block list list \<Rightarrow> op \<Rightarrow> op" where
  "set_regions rs x = Op (op_name x) (op_attrs x) (op_operands x) (op_results x) (op_succs x) rs (op_unknown_loc x)"

definition set_body :: "op list \<Rightarrow> op \<Rightarrow> op" where
  "set_body ops m =
     (case op_regions m of
        (Block i args _ # bs) # rs \<Rightarrow> set_regions ((Block i args ops # bs) # rs) m
      | _ \<Rightarrow> m)"

definition op_attr :: "op \<Rightarrow> string \<Rightarrow> attr option" where
  "op_attr x k = map_of (op_attrs x) k"

definition op_get :: "(attr \<Rightarrow> 'a option) \<Rightarrow> op \<Rightarrow> string \<Rightarrow> 'a option" where
  "op_get cast x k = get_as cast (op_attrs x) k"

lemma op_simps [simp]:
  "op_name (set_attrs d x) = op_name x" "op_attrs (set_attrs d x) = d"
  "op_operands (set_attrs d x) = op_operands x" "op_results (set_attrs d x) = op_results x"
  "op_succs (set_attrs d x) = op_succs x" "op_regions (set_attrs d x) = op_regions x"
  "op_name (set_regions rs x) = op_name x" "op_attrs (set_regions rs x) = op_attrs x"
  "op_operands (set_regions rs x) = op_operands x" "op_results (set_regions rs x) = op_results x"
  "op_succs (set_regions rs x) = op_succs x" "op_regions (set_regions rs x) = rs"
  "body_ops (module_op d ops) = ops" "op_attrs (module_op d ops) = d"
  by (simp_all add: set_attrs_def set_regions_def body_ops_def module_op_def)

lemma body_ops_set_attrs [simp]: "body_ops (set_attrs d x) = body_ops x"
  by (simp add: body_ops_def)

text \<open>
  \<open>Operation::walk\<close> (post-order): each operation with its ancestors, nearest first, and the region
  and block index it sits in.
\<close>

type_synonym path = "(op \<times> nat \<times> nat) list"

lemma size_op_mem:
  assumes "blocks \<in> set (op_regions x)" "b \<in> set blocks" "y \<in> set (block_ops b)"
  shows "size y < size x"
proof -
  have "size y < size b" using assms(3) by (cases b) (simp add: size_list_estimation' less_Suc_eq_le)
  also have "size b \<le> size_list size blocks" using assms(2) by (simp add: size_list_estimation')
  also have "\<dots> \<le> size_list (size_list size) (op_regions x)"
    using assms(1) by (rule size_list_estimation') simp
  also have "\<dots> < size x" by (cases x) simp
  finally show ?thesis .
qed

lemma enumerate_mem: "(i, b) \<in> set (List.enumerate n xs) \<Longrightarrow> b \<in> set xs"
  by (induction xs arbitrary: n) auto

function walk_op :: "path \<Rightarrow> op \<Rightarrow> (op \<times> path) list" where
  "walk_op path x =
     concat (map (\<lambda>(r, blocks).
       concat (map (\<lambda>(i, b).
         concat (map (walk_op ((x, r, i) # path)) (block_ops b)))
       (List.enumerate 0 blocks)))
     (List.enumerate 0 (op_regions x))) @ [(x, path)]"
  by pat_completeness auto
termination
  by (relation "measure (\<lambda>(path, x). size x)") (auto dest!: enumerate_mem intro: size_op_mem)

definition walk_module :: "op \<Rightarrow> (op \<times> path) list" where
  "walk_module m = walk_op [] m"

definition parent_op :: "path \<Rightarrow> op option" where
  "parent_op path = (case path of [] \<Rightarrow> None | (p, _, _) # _ \<Rightarrow> Some p)"

text \<open>The types in an attribute, in the order \<open>Attribute::walk\<close> reaches them.\<close>

function walk_types :: "attr \<Rightarrow> sty list" where
  "walk_types (TypeA t) = [t]"
| "walk_types (ArrayA xs) = concat (map walk_types xs)"
| "walk_types (DictA d) = concat (map (\<lambda>p. walk_types (snd p)) d)"
| "walk_types (IntegerA w n) = []"
| "walk_types (FloatA t n) = []"
| "walk_types (StringA s) = []"
| "walk_types UnitA = []"
| "walk_types (DenseI32A xs) = []"
| "walk_types (OtherA s) = []"
  by pat_completeness auto
termination
proof (relation "measure size")
  fix xs and x :: attr
  assume "x \<in> set xs"
  then show "(x, ArrayA xs) \<in> measure size" using size_array_mem by auto
next
  fix d and p :: "string \<times> attr"
  assume "p \<in> set d"
  then show "(snd p, DictA d) \<in> measure size" using size_dict_mem [of "fst p" "snd p" d] by simp
qed simp

end
