(* ===== verification/Domains.thy ===== *)
theory Domains
  imports Dialect
begin

text \<open>
  Target domains (\<open>src/ir/Domains.cpp\<close>): explicit target sets, target-dependent choices, their
  validation, and the specialization of types and attributes to one target.
\<close>

section \<open>Target sets and choices\<close>

definition targetSet :: "string list \<Rightarrow> attr" where
  "targetSet ids = ArrayA (map StringA ids)"

definition containsTarget :: "attr option \<Rightarrow> string \<Rightarrow> bool" where
  "containsTarget input target =
     (case Option.bind input as_array of
        None \<Rightarrow> False
      | Some values \<Rightarrow> list_ex (\<lambda>v. v = StringA target) values)"

text \<open>One observation of \<open>targetChoice\<close>; the state is \<open>unique\<close> zipped with \<open>groups\<close>.\<close>

fun group_observation :: "string \<times> attr \<Rightarrow> (attr \<times> string list) list \<Rightarrow> (attr \<times> string list) list" where
  "group_observation (target, value) [] = [(value, [target])]"
| "group_observation (target, value) ((v, ts) # groups) =
     (if v = value then (v, ts @ [target]) # groups
      else (v, ts) # group_observation (target, value) groups)"

definition choice_groups :: "(string \<times> attr) list \<Rightarrow> (attr \<times> string list) list" where
  "choice_groups observations = fold group_observation observations []"

definition choice_case_attr :: "attr \<times> string list \<Rightarrow> attr" where
  "choice_case_attr g = DictA [(''targets'', targetSet (snd g)), (''value'', fst g)]"

definition targetChoice :: "(string \<times> attr) list \<Rightarrow> attr option" where
  "targetChoice observations =
     (if observations = [] then None
      else
        let groups = choice_groups observations in
        if length groups = 1 then Some (fst (hd groups))
        else Some (DictA [(''target_cases'', ArrayA (map choice_case_attr groups))]))"

text \<open>One case of the loop in \<open>selectAttribute\<close>; the state is \<open>selected\<close>.\<close>

definition select_case :: "string \<Rightarrow> attr \<Rightarrow> attr option \<Rightarrow> attr option expected" where
  "select_case target value selected =
     (case as_dict value of
        None \<Rightarrow> Inl ''invalid target choice case''
      | Some entry \<Rightarrow>
          (case map_of entry ''value'' of
             None \<Rightarrow> Inl ''invalid target choice case''
           | Some v \<Rightarrow>
               if length entry \<noteq> 2 then Inl ''invalid target choice case''
               else if \<not> containsTarget (map_of entry ''targets'') target then Inr selected
               else if selected \<noteq> None then Inl ''overlapping target choice''
               else Inr (Some v)))"

fun is_choice :: "attr \<Rightarrow> bool" where
  "is_choice (DictA d) = (map_of d ''target_cases'' \<noteq> None)"
| "is_choice _ = False"

definition choice_cases :: "attr \<Rightarrow> attr list option" where
  "choice_cases input =
     (case as_dict input of
        None \<Rightarrow> None
      | Some d \<Rightarrow> if length d = 1 then get_as as_array d ''target_cases'' else None)"

definition undefined_for :: "string \<Rightarrow> string" where
  "undefined_for target = ''semantic choice is not defined for qualified target: '' @ target"

fun select_loop :: "nat \<Rightarrow> attr \<Rightarrow> string \<Rightarrow> attr expected" where
  "select_loop 0 input target = Inl ''excessively nested target choice''"
| "select_loop (Suc n) input target =
     (if \<not> is_choice input then Inr input
      else case choice_cases input of
        None \<Rightarrow> Inl ''invalid target choice''
      | Some cases \<Rightarrow>
          bindE (foldE (select_case target) cases None) (\<lambda>selected.
            case selected of
              None \<Rightarrow> Inl (undefined_for target)
            | Some v \<Rightarrow> select_loop n v target))"

definition selectAttribute :: "attr option \<Rightarrow> string \<Rightarrow> attr expected" where
  "selectAttribute input target =
     (case input of
        None \<Rightarrow> Inl ''missing target-dependent semantic attribute''
      | Some a \<Rightarrow> select_loop 64 a target)"

definition evaluateInteger :: "attr option \<Rightarrow> TargetInfo \<Rightarrow> nat expected" where
  "evaluateInteger input target =
     bindE (selectAttribute input (target_id target)) (\<lambda>value.
       case value of
         IntegerA w n \<Rightarrow> if w \<le> 64 then Inr n else Inl ''invalid public target integer expression''
       | StringA text \<Rightarrow> if text = ''pointer_bytes'' then Inr (wordBits target div 8)
                         else Inl ''invalid public target integer expression''
       | _ \<Rightarrow> Inl ''invalid public target integer expression'')"

subsection \<open>What selection yields\<close>

lemma select_case_size:
  assumes "foldE (select_case target) cases s = Inr (Some v)"
  shows "s = Some v \<or> (\<exists>c \<in> set cases. size v < size c)"
  using assms
proof (induction cases arbitrary: s)
  case Nil
  then show ?case by simp
next
  case (Cons c cases)
  from Cons.prems obtain u where u: "select_case target c s = Inr u" "foldE (select_case target) cases u = Inr (Some v)"
    by (rule foldE_Cons_InrE)
  from Cons.IH [OF u(2)] show ?case
  proof
    assume "u = Some v"
    with u(1) show ?thesis
      by (auto simp: select_case_def split: option.splits if_splits dest: size_dict_get)
  qed auto
qed

lemma choice_cases_mem_size:
  assumes "choice_cases input = Some cases" "c \<in> set cases"
  shows "size c < size input"
proof -
  obtain d where d: "input = DictA d" "map_of d ''target_cases'' = Some (ArrayA cases)"
    using assms(1) by (auto simp: choice_cases_def get_as_Some split: option.splits if_splits)
  then show ?thesis using size_dict_get [OF d(2)] size_array_mem [OF assms(2)] by auto
qed

lemma select_loop_size: "select_loop n input target = Inr v \<Longrightarrow> size v \<le> size input"
proof (induction n arbitrary: input)
  case 0
  then show ?case by simp
next
  case (Suc n)
  show ?case
  proof (cases "is_choice input")
    case True
    from Suc.prems True obtain cases u where c: "choice_cases input = Some cases"
      "foldE (select_case target) cases None = Inr (Some u)" "select_loop n u target = Inr v"
      by (auto simp: bindE_Inr_iff split: option.splits)
    from select_case_size [OF c(2)] obtain k where "k \<in> set cases" "size u < size k" by auto
    with choice_cases_mem_size [OF c(1)] Suc.IH [OF c(3)] show ?thesis by fastforce
  next
    case False
    with Suc.prems show ?thesis by simp
  qed
qed

lemma select_loop_not_choice: "select_loop n input target = Inr v \<Longrightarrow> \<not> is_choice v"
  by (induction n arbitrary: input) (auto simp: bindE_Inr_iff split: option.splits if_splits)

lemma selectAttribute_size: "selectAttribute (Some a) target = Inr v \<Longrightarrow> size v \<le> size a"
  by (auto simp: selectAttribute_def intro: select_loop_size)

lemma selectAttribute_not_choice: "selectAttribute a target = Inr v \<Longrightarrow> \<not> is_choice v"
  by (auto simp: selectAttribute_def dest: select_loop_not_choice split: option.splits)

lemma selectAttribute_plain: "\<not> is_choice a \<Longrightarrow> selectAttribute (Some a) target = Inr a"
  by (simp add: selectAttribute_def numeral_eq_Suc)

lemma selected_type_size:
  assumes "selectAttribute (Some c) target = Inr (TypeA t)"
  shows "size t < size (ChoiceT c)"
  using selectAttribute_size [OF assms] by simp

section \<open>Specialization to one target\<close>

function specializeType :: "sty \<Rightarrow> TargetInfo \<Rightarrow> sty expected" where
  "specializeType type target =
     (case type of
        WordT \<Rightarrow> Inr (IntegerT (wordBits target))
      | ChoiceT cases \<Rightarrow>
          bindE (selectAttribute (Some cases) (target_id target)) (\<lambda>selected.
            case selected of
              TypeA concrete \<Rightarrow> specializeType concrete target
            | _ \<Rightarrow> Inl ''type choice requires type-valued cases'')
      | ArrayT element count \<Rightarrow>
          bindE (evaluateInteger (Some count) target) (\<lambda>n.
          bindE (specializeType element target) (\<lambda>concrete.
            Inr (ArrayT concrete (IntegerA 64 n))))
      | RecordT identity packed members \<Rightarrow>
          bindE (mapE (\<lambda>f. specializeType f target) members) (\<lambda>concrete.
            Inr (RecordT identity packed concrete))
      | OverlapT identity alternatives domains \<Rightarrow>
          if length alternatives \<noteq> length domains
          then Inl ''overlap alternative target inventory mismatch''
          else
            bindE (mapE (\<lambda>(a, d). specializeType a target)
                     (filter (\<lambda>(a, d). containsTarget (Some d) (target_id target)) (zip alternatives domains)))
              (\<lambda>concrete.
                if concrete = [] then Inl ''no overlap alternatives for qualified target''
                else Inr (OverlapT identity concrete (map (\<lambda>_. targetSet [target_id target]) concrete)))
      | FunctionT inputs results \<Rightarrow>
          bindE (mapE (\<lambda>t. specializeType t target) inputs) (\<lambda>is.
          bindE (mapE (\<lambda>t. specializeType t target) results) (\<lambda>rs.
            Inr (FunctionT is rs)))
      | _ \<Rightarrow> Inr type)"
  by pat_completeness auto
termination
  by (relation "measure (\<lambda>(type, target). size type)")
    (auto simp del: sty.size dest!: set_zip_leftD intro: sty_size_mem selected_type_size)

declare specializeType.simps [simp del]

text \<open>
  \<open>specializeAttribute\<close>. The final dictionary step cuts a conditional array to its selected extent.
\<close>

definition cut_array :: "TargetInfo \<Rightarrow> dict \<Rightarrow> attr expected" where
  "cut_array target result =
     (case (get_as as_array result ''array'', map_of result ''count'') of
        (Some elements, Some count) \<Rightarrow>
          bindE (evaluateInteger (Some count) target) (\<lambda>n.
            if n > length elements then Inl ''initializer count exceeds represented data''
            else Inr (DictA (dict_set ''array'' (ArrayA (take n elements)) result)))
      | _ \<Rightarrow> Inr (DictA result))"

lemma selected_array_size:
  assumes "selectAttribute (Some c) target = Inr (ArrayA xs)" "x \<in> set xs"
  shows "size x < size c"
  using selectAttribute_size [OF assms(1)] size_array_mem [OF assms(2)] by simp

lemma selected_dict_size:
  assumes "selectAttribute (Some c) target = Inr (DictA d)" "p \<in> set d"
  shows "size (snd p) < size c"
  using selectAttribute_size [OF assms(1)] size_dict_mem [of "fst p" "snd p" d] assms(2) by simp

function specializeAttribute :: "attr \<Rightarrow> TargetInfo \<Rightarrow> bool \<Rightarrow> attr expected" where
  "specializeAttribute input target numeric =
     bindE (selectAttribute (Some input) (target_id target)) (\<lambda>selected.
       case selected of
         TypeA type \<Rightarrow> bindE (specializeType type target) (\<lambda>t. Inr (TypeA t))
       | ArrayA entries \<Rightarrow>
           bindE (mapE (\<lambda>e. specializeAttribute e target numeric) entries) (\<lambda>values. Inr (ArrayA values))
       | DictA entries \<Rightarrow>
           bindE (mapE (\<lambda>e. bindE (specializeAttribute (snd e) target (numeric \<or> fst e = ''integer''))
                              (\<lambda>v. Inr (fst e, v))) entries)
             (cut_array target)
       | StringA text \<Rightarrow>
           if numeric \<and> text = ''pointer_bytes'' then Inr (IntegerA 64 (wordBits target div 8))
           else Inr selected
       | _ \<Rightarrow> Inr selected)"
  by pat_completeness auto
termination
  by (relation "measure (\<lambda>(input, target, numeric). size input)")
    (auto intro: selected_array_size selected_dict_size)

declare specializeAttribute.simps [simp del]

section \<open>Validation of target-dependent attributes\<close>

definition checkSet :: "attr option \<Rightarrow> string set \<Rightarrow> unit expected" where
  "checkSet input universe =
     (case Option.bind input as_array of
        None \<Rightarrow> Inl ''empty or malformed public target set''
      | Some values \<Rightarrow>
          if values = [] then Inl ''empty or malformed public target set''
          else bindE (foldE (\<lambda>value seen.
                 case as_string value of
                   None \<Rightarrow> Inl ''unknown or duplicate identity in public target set''
                 | Some i \<Rightarrow> if i \<notin> universe \<or> i \<in> seen
                             then Inl ''unknown or duplicate identity in public target set''
                             else Inr (insert i seen)) values {})
               (\<lambda>_. success))"

text \<open>The identities of a set that passed \<open>checkSet\<close>.\<close>

definition set_members :: "attr option \<Rightarrow> string list" where
  "set_members input =
     (case Option.bind input as_array of None \<Rightarrow> [] | Some values \<Rightarrow> List.map_filter as_string values)"

function literalTail :: "attr \<Rightarrow> bool" where
  "literalTail value =
     (case value of
        IntegerA w n \<Rightarrow> True
      | FloatA type n \<Rightarrow> type = F32T \<or> type = F64T
      | StringA text \<Rightarrow> text = ''zero'' \<or> text = ''null''
      | ArrayA elements \<Rightarrow> length elements \<le> 1024 * 1024 \<and> list_all literalTail elements
      | _ \<Rightarrow> False)"
  by pat_completeness auto
termination
  by (relation "measure size") (auto simp del: attr.size intro: size_array_mem)

declare literalTail.simps [simp del]

text \<open>The inventory of a conditional array: every qualified extent is represented.\<close>

definition array_extents :: "attr option \<Rightarrow> string list \<Rightarrow> nat \<times> nat \<Rightarrow> (nat \<times> nat) expected" where
  "array_extents count ids start =
     foldE (\<lambda>i (maximum, minimum).
       case targets_find i of
         None \<Rightarrow> Inl ''unknown target''
       | Some info \<Rightarrow> bindE (evaluateInteger count info) (\<lambda>n. Inr (max maximum n, min minimum n)))
     ids start"

definition check_extents :: "dict \<Rightarrow> string set \<Rightarrow> unit expected" where
  "check_extents dictionary universe =
     (case (get_as as_array dictionary ''array'', map_of dictionary ''count'') of
        (Some elements, Some count) \<Rightarrow>
          if length dictionary \<noteq> 2 \<or> length elements > 1024 * 1024
          then Inl ''invalid public conditional array inventory''
          else
            bindE (array_extents (Some count) (sorted_list_of_set universe) (0, length elements))
              (\<lambda>(maximum, minimum).
                if maximum \<noteq> length elements
                then Inl ''conditional array contains data outside every qualified extent''
                else if \<not> list_all literalTail (drop minimum elements)
                then Inl ''conditional array tails require pure literal initializers''
                else success)
      | _ \<Rightarrow> Inl ''invalid public conditional array inventory'')"

text \<open>The disjointness bookkeeping of one choice case: the state is \<open>(seen, active)\<close>.\<close>

definition claim_targets :: "string list \<Rightarrow> string set \<Rightarrow> (string set \<times> string set) expected" where
  "claim_targets ids seen =
     foldE (\<lambda>i (seen, active).
       if i \<in> seen then Inl ''overlapping public target choice cases''
       else Inr (insert i seen, insert i active)) ids (seen, {})"

definition case_value :: "attr \<Rightarrow> attr option" where
  "case_value value =
     (case as_dict value of
        None \<Rightarrow> None
      | Some entry \<Rightarrow> if length entry = 2 then map_of entry ''value'' else None)"

lemma case_value_size: "case_value c = Some v \<Longrightarrow> size v < size c"
  by (auto simp: case_value_def dest: size_dict_get split: option.splits if_splits)

lemma choice_value_size:
  assumes "map_of d k = Some (ArrayA cases)" "c \<in> set cases" "case_value c = Some v"
  shows "size v < size (DictA d)"
  using size_dict_get [OF assms(1)] size_array_mem [OF assms(2)] case_value_size [OF assms(3)] by simp

lemma dict_entry_size: "p \<in> set d \<Longrightarrow> size (snd p) < size (DictA d)"
  using size_dict_mem [of "fst p" "snd p" d] by simp

function checkAttribute :: "attr \<Rightarrow> string set \<Rightarrow> nat \<Rightarrow> unit expected" where
  "checkAttribute input universe depth =
     (if depth > 64 then Inl ''public target expression nesting exceeds its bound''
      else case input of
        DictA dictionary \<Rightarrow>
          (case map_of dictionary ''target_cases'' of
             Some raw \<Rightarrow>
               (case raw of
                  ArrayA cases \<Rightarrow>
                    if length dictionary \<noteq> 1 \<or> cases = [] \<or> length cases > card universe
                    then Inl ''invalid public target choice''
                    else
                      bindE (foldE (\<lambda>value seen.
                        case case_value value of
                          None \<Rightarrow> Inl ''invalid public target choice case''
                        | Some v \<Rightarrow>
                            let domain = Option.bind (as_dict value) (\<lambda>e. map_of e ''targets'') in
                            bindE (checkSet domain universe) (\<lambda>_.
                            bindE (claim_targets (set_members domain) seen) (\<lambda>(seen', active).
                            bindE (checkAttribute v active (depth + 1)) (\<lambda>_. Inr seen'))))
                        cases {})
                      (\<lambda>_. success)
                | _ \<Rightarrow> Inl ''invalid public target choice'')
           | None \<Rightarrow>
               bindE (if map_of dictionary ''array'' \<noteq> None \<or> map_of dictionary ''count'' \<noteq> None
                      then check_extents dictionary universe else success) (\<lambda>_.
                 forE (\<lambda>entry. checkAttribute (snd entry) universe (depth + 1)) dictionary))
      | ArrayA entries \<Rightarrow> forE (\<lambda>e. checkAttribute e universe (depth + 1)) entries
      | _ \<Rightarrow> success)"
  by pat_completeness auto
termination
  by (relation "measure (\<lambda>(input, universe, depth). size input)")
    (auto simp del: attr.size intro: size_array_mem choice_value_size dict_entry_size)

declare checkAttribute.simps [simp del]

definition declaredTargets :: "op \<Rightarrow> string list expected" where
  "declaredTargets m =
     (case op_get as_array m ''sela.targets'' of
        None \<Rightarrow> Inl ''Sela module needs a bounded explicit target qualification set''
      | Some values \<Rightarrow>
          if values = [] \<or> length values > 256
          then Inl ''Sela module needs a bounded explicit target qualification set''
          else bindE (foldE (\<lambda>value result.
                 case as_string value of
                   None \<Rightarrow> Inl ''unknown or duplicate qualified Sela target''
                 | Some i \<Rightarrow> if targets_find i = None \<or> i \<in> set result
                             then Inl ''unknown or duplicate qualified Sela target''
                             else Inr (result @ [i])) values [])
               Inr)"

section \<open>Validation of a module's target domains\<close>

definition opaque_identity :: "char \<Rightarrow> string \<Rightarrow> bool" where
  "opaque_identity prefix i \<longleftrightarrow> 2 \<le> length i \<and> length i \<le> 64 \<and> hd i = prefix \<and>
     list_all (\<lambda>c. CHR ''0'' \<le> c \<and> c \<le> CHR ''9'') (tl i)"

definition identity_message :: "string \<Rightarrow> string \<Rightarrow> string" where
  "identity_message i message =
     (if opaque_identity CHR ''r'' i then message
      else ''public storage identities must be opaque r-prefixed integers'')"

definition error_or :: "unit expected \<Rightarrow> string \<Rightarrow> string" where
  "error_or result message = (case result of Inl e \<Rightarrow> e | Inr _ \<Rightarrow> message)"

lemma alternative_size:
  assumes "map_of d k = Some (ArrayA cases)" "c \<in> set cases" "Option.bind (as_dict c) (\<lambda>e. map_of e l) = Some v"
  shows "size v < size (DictA d)"
proof -
  have "size v < size c" using assms(3) by (auto simp: bind_eq_Some_conv dest: size_dict_get)
  with size_dict_get [OF assms(1)] size_array_mem [OF assms(2)] show ?thesis by simp
qed

text \<open>
  \<open>checkType\<close> and its local function \<open>cases\<close>: they thread the captured \<open>message\<close>, empty while no
  error has been found.
\<close>

function checkType :: "string set \<Rightarrow> sty \<Rightarrow> nat \<Rightarrow> string \<Rightarrow> string"
  and checkCases :: "string set \<Rightarrow> attr \<Rightarrow> nat \<Rightarrow> nat \<Rightarrow> string \<Rightarrow> string" where
  "checkType universe type depth message =
     (if message \<noteq> [] then message
      else if depth > 64 then ''public type nesting exceeds the qualified bound''
      else case type of
        ChoiceT cs \<Rightarrow>
          (case checkAttribute cs universe 0 of
             Inl e \<Rightarrow> e
           | Inr _ \<Rightarrow> checkCases universe cs 0 depth message)
      | ArrayT element count \<Rightarrow>
          (case checkAttribute count universe 0 of
             Inl e \<Rightarrow> e
           | Inr _ \<Rightarrow> checkType universe element (depth + 1) message)
      | RecordT i packed members \<Rightarrow>
          fold (\<lambda>f m. checkType universe f (depth + 1) m) members
            (if i \<noteq> [] then identity_message i message else message)
      | OverlapT i alternatives domains \<Rightarrow>
          (if alternatives = [] \<or> length alternatives > 64 \<or> length alternatives \<noteq> length domains
           then ''invalid public overlap alternative inventory''
           else case forE (\<lambda>d. checkSet (Some d) universe) domains of
             Inl e \<Rightarrow> e
           | Inr _ \<Rightarrow> fold (\<lambda>f m. checkType universe f (depth + 1) m) alternatives (identity_message i message))
      | FunctionT inputs results \<Rightarrow>
          (if length results > 1 then ''public function type has multiple results''
           else fold (\<lambda>f m. checkType universe f (depth + 1) m) (inputs @ results) message)
      | IntegerT width \<Rightarrow>
          (if width < 1 \<or> width > 128 then ''unsupported public integer type in a declared alternative'' else message)
      | VectorT scalable shape element \<Rightarrow>
          checkType universe element (depth + 1)
            (if scalable \<or> length shape \<noteq> 1 \<or> prod_list shape < 1 \<or> prod_list shape > 1024
             then ''unsupported vector extent in a declared alternative'' else message)
      | FloatT _ \<Rightarrow> ''unsupported public type in a declared alternative''
      | OtherT _ \<Rightarrow> ''unsupported public type in a declared alternative''
      | _ \<Rightarrow> message)"
| "checkCases universe raw level depth message =
     (if level > 64 then ''public type choice nesting exceeds its bound''
      else case raw of
        TypeA type \<Rightarrow> checkType universe type (depth + 1) message
      | DictA d \<Rightarrow>
          (case map_of d ''target_cases'' of
             Some (ArrayA alternatives) \<Rightarrow>
               fold (\<lambda>a m. case Option.bind (as_dict a) (\<lambda>e. map_of e ''value'') of
                             Some v \<Rightarrow> checkCases universe v (level + 1) depth m
                           | None \<Rightarrow> ''public type alternatives must contain types, not opaque payloads'')
                 alternatives message
           | _ \<Rightarrow> ''public type alternatives must contain types, not opaque payloads'')
      | _ \<Rightarrow> ''public type alternatives must contain types, not opaque payloads'')"
  by pat_completeness auto

termination
proof (relation "measure (\<lambda>x. case x of Inl (u, t, d, m) \<Rightarrow> size t | Inr (u, a, l, d, m) \<Rightarrow> size a)", goal_cases)
qed (auto simp del: sty.size attr.size intro: sty_size_mem alternative_size)

declare checkType.simps [simp del] checkCases.simps [simp del]

definition check_flag :: "string set \<Rightarrow> attr \<Rightarrow> unit expected" where
  "check_flag universe flag =
     (case as_dict flag of
        None \<Rightarrow> Inl ''invalid public module flag fields''
      | Some d \<Rightarrow>
          if length d \<noteq> 4 \<or> map_of d ''name'' = None \<or> map_of d ''behavior'' = None \<or> map_of d ''value'' = None
          then Inl ''invalid public module flag fields''
          else
            bindE (checkSet (map_of d ''targets'') universe) (\<lambda>_.
              checkAttribute flag (set (set_members (map_of d ''targets''))) 0))"

text \<open>
  The active target set of one visited operation. Its definition is the operation, or the
  \<open>sela.func\<close> around it; a definition with a domain must sit directly in the module.
\<close>

definition definition_of :: "op \<times> path \<Rightarrow> op \<times> path" where
  "definition_of v =
     (case v of (x, path) \<Rightarrow>
        (case path of
           (p, _, _) # rest \<Rightarrow> if op_name p = ''sela.func'' then (p, rest) else (x, path)
         | [] \<Rightarrow> (x, path)))"

definition definition_domain :: "string set \<Rightarrow> op \<times> path \<Rightarrow> string set expected" where
  "definition_domain universe v =
     (case definition_of v of (d, dpath) \<Rightarrow>
        (case op_attr d ''targets'' of
           None \<Rightarrow> Inr universe
         | Some raw \<Rightarrow>
             if length dpath \<noteq> 1 \<or> (op_name d \<noteq> ''sela.func'' \<and> op_name d \<noteq> ''sela.global'')
             then Inl ''target availability requires a top-level definition''
             else bindE (checkSet (Some raw) universe) (\<lambda>_. Inr (set (set_members (Some raw))))))"

definition block_domain :: "path \<Rightarrow> string set \<Rightarrow> string set expected" where
  "block_domain path active =
     (case path of
        [] \<Rightarrow> Inr active
      | (p, _, index) # _ \<Rightarrow>
          if op_name p \<noteq> ''sela.func'' then Inr active
          else (case op_get as_array p ''block_domains'' of
             None \<Rightarrow> Inr active
           | Some domains \<Rightarrow>
               if index \<ge> length domains then Inl ''local operation lacks a declared block domain''
               else bindE (checkSet (Some (domains ! index)) active) (\<lambda>_.
                 Inr (set (set_members (Some (domains ! index)))))))"

definition check_inventory :: "op \<Rightarrow> string set \<Rightarrow> string \<Rightarrow> unit expected" where
  "check_inventory x active name =
     (case op_attr x name of
        None \<Rightarrow> success
      | Some raw \<Rightarrow>
          (case as_array raw of
             None \<Rightarrow> Inl ''invalid conditional target domain inventory''
           | Some values \<Rightarrow> forE (\<lambda>v. checkSet (Some v) active) values))"

text \<open>Every type an operation mentions: its results, its block arguments, its type attributes.\<close>

definition op_types :: "op \<Rightarrow> sty list" where
  "op_types x =
     map snd (op_results x) @
     concat (map (\<lambda>blocks. concat (map (\<lambda>b. map (\<lambda>(_, t, _). t) (block_args b)) blocks)) (op_regions x)) @
     concat (map (\<lambda>a. walk_types (snd a)) (op_attrs x))"

definition check_visit :: "string set \<Rightarrow> op \<times> path \<Rightarrow> string" where
  "check_visit universe v =
     (case bindE (definition_domain universe v) (\<lambda>active.
           bindE (block_domain (snd v) active) (\<lambda>active.
           bindE (forE (\<lambda>a. checkAttribute (snd a) active 0) (op_attrs (fst v))) (\<lambda>_.
             forE (check_inventory (fst v) active) [''block_domains'', ''case_domains'']))) of
        Inl e \<Rightarrow> e
      | Inr _ \<Rightarrow> fold (\<lambda>t m. checkType universe t 0 m) (op_types (fst v)) [])"

definition verifyTargetDomains :: "op \<Rightarrow> unit expected" where
  "verifyTargetDomains m =
     bindE (declaredTargets m) (\<lambda>domain.
     bindE (case op_attr m ''sela.module_flags'' of
              None \<Rightarrow> success
            | Some raw \<Rightarrow>
                (case as_array raw of
                   None \<Rightarrow> Inl ''invalid public module flag inventory''
                 | Some flags \<Rightarrow> forE (check_flag (set domain)) flags)) (\<lambda>_.
       let message = fold (\<lambda>v msg. if msg \<noteq> [] then msg else check_visit (set domain) v) (walk_module m) []
       in if message = [] then success else Inl message))"

end
