(* ===== verification/Domains_Facts.thy ===== *)
theory Domains_Facts
  imports Domains
begin

text \<open>
  Facts about target choices and specialization: a choice selects back every observation it was
  built from, validation excludes malformed and overlapping choices, and specialization yields
  types without target-dependent parts and is idempotent.
\<close>

section \<open>Building and selecting a choice\<close>

fun group_pairs :: "(attr \<times> string list) list \<Rightarrow> (attr \<times> string) set" where
  "group_pairs [] = {}"
| "group_pairs ((v, ts) # groups) = {v} \<times> set ts \<union> group_pairs groups"

lemma group_pairs_mem: "(w, u) \<in> group_pairs groups \<longleftrightarrow> (\<exists>ts. (w, ts) \<in> set groups \<and> u \<in> set ts)"
  by (induction groups rule: group_pairs.induct) auto

definition groups_of :: "(string \<times> attr) list \<Rightarrow> (attr \<times> string list) list \<Rightarrow> bool" where
  "groups_of obs groups \<longleftrightarrow> distinct (map fst groups) \<and>
     group_pairs groups = {(v, t). (t, v) \<in> set obs} \<and>
     (\<forall>(v, ts) \<in> set groups. ts \<noteq> [] \<and> set ts \<subseteq> fst ` set obs)"

lemma group_observation_keys:
  "fst ` set (group_observation (t, v) groups) = insert v (fst ` set groups)"
  by (induction "(t, v)" groups rule: group_observation.induct) (simp_all add: insert_commute)

lemma group_observation_distinct:
  "distinct (map fst groups) \<Longrightarrow> distinct (map fst (group_observation (t, v) groups))"
proof (induction groups)
  case Nil
  then show ?case by simp
next
  case (Cons g groups)
  obtain w ts where g: "g = (w, ts)" by fastforce
  have "w \<noteq> v \<Longrightarrow> w \<notin> fst ` set (group_observation (t, v) groups)"
    using Cons.prems by (auto simp: g group_observation_keys)
  with Cons show ?case by (auto simp: g)
qed

lemma group_observation_pairs:
  "group_pairs (group_observation (t, v) groups) = insert (v, t) (group_pairs groups)"
  by (induction "(t, v)" groups rule: group_observation.induct) auto

lemma groups_of_mem:
  "groups_of obs groups \<Longrightarrow> (t, v) \<in> set obs \<longleftrightarrow> (\<exists>ts. (v, ts) \<in> set groups \<and> t \<in> set ts)"
  unfolding groups_of_def group_pairs_mem [symmetric] by auto

lemma group_observation_sub:
  assumes "\<forall>(v, ts) \<in> set groups. ts \<noteq> [] \<and> set ts \<subseteq> S"
  shows "\<forall>(w, ts) \<in> set (group_observation (t, v) groups). ts \<noteq> [] \<and> set ts \<subseteq> insert t S"
  using assms
proof (induction "(t, v)" groups rule: group_observation.induct)
  case (2 w ts groups)
  then show ?case by (cases "w = v") (simp_all add: subset_insertI2, blast)
qed simp

lemma group_observation_inv:
  assumes "groups_of obs groups"
  shows "groups_of (obs @ [(t, v)]) (group_observation (t, v) groups)"
proof -
  have "\<forall>(w, ts) \<in> set (group_observation (t, v) groups). ts \<noteq> [] \<and> set ts \<subseteq> insert t (fst ` set obs)"
    using assms by (intro group_observation_sub) (simp add: groups_of_def)
  with assms show ?thesis
    by (auto simp: groups_of_def group_observation_distinct group_observation_pairs)
qed

lemma choice_groups_inv: "groups_of obs (choice_groups obs)"
proof (induction obs rule: rev_induct)
  case Nil
  then show ?case by (simp add: groups_of_def choice_groups_def)
next
  case (snoc p obs)
  obtain t v where "p = (t, v)" by fastforce
  with group_observation_inv [OF snoc] show ?case by (simp add: choice_groups_def)
qed

lemma containsTarget_set [simp]: "containsTarget (Some (targetSet ids)) t \<longleftrightarrow> t \<in> set ids"
  by (auto simp: containsTarget_def targetSet_def list_ex_iff)

lemma select_case_of_group:
  "select_case t (choice_case_attr (v, ts)) s =
     (if t \<notin> set ts then Inr s else if s \<noteq> None then Inl ''overlapping target choice'' else Inr (Some v))"
  by (simp add: select_case_def choice_case_attr_def)

lemma select_groups_none:
  "\<forall>(v, ts) \<in> set groups. t \<notin> set ts \<Longrightarrow>
   foldE (select_case t) (map choice_case_attr groups) s = Inr s"
  by (induction groups) (auto simp: select_case_of_group)

lemma select_groups_some:
  assumes "(v, ts) \<in> set groups" "t \<in> set ts"
    and "\<forall>(w, us) \<in> set groups. t \<in> set us \<longrightarrow> w = v" and "distinct (map fst groups)"
  shows "foldE (select_case t) (map choice_case_attr groups) None = Inr (Some v)"
  using assms
proof (induction groups)
  case Nil
  then show ?case by simp
next
  case (Cons g groups)
  obtain w us where g: "g = (w, us)" by fastforce
  show ?case
  proof (cases "t \<in> set us")
    case True
    then have w: "w = v" using Cons.prems g by auto
    have "\<forall>(x, xs) \<in> set groups. t \<notin> set xs"
      using Cons.prems(3,4) w g by force
    then show ?thesis using True w by (simp add: g select_case_of_group select_groups_none)
  next
    case False
    with Cons show ?thesis by (auto simp: g select_case_of_group)
  qed
qed

definition choice_of_groups :: "(attr \<times> string list) list \<Rightarrow> attr" where
  "choice_of_groups groups = DictA [(''target_cases'', ArrayA (map choice_case_attr groups))]"

lemma select_choice_of_groups:
  "selectAttribute (Some (choice_of_groups groups)) t =
     bindE (foldE (select_case t) (map choice_case_attr groups) None) (\<lambda>selected.
       case selected of
         None \<Rightarrow> Inl (undefined_for t)
       | Some v \<Rightarrow> select_loop 63 v t)"
proof -
  have e: "(64 :: nat) = Suc 63" by simp
  show ?thesis
    unfolding selectAttribute_def option.case e select_loop.simps(2)
    by (simp add: choice_of_groups_def choice_cases_def get_as_def)
qed

lemma select_loop_plain: "\<not> is_choice v \<Longrightarrow> n > 0 \<Longrightarrow> select_loop n v t = Inr v"
  by (cases n) auto

lemma targetChoice_cases:
  assumes "obs \<noteq> []"
  obtains (one) v where "targetChoice obs = Some v" "\<forall>(t, w) \<in> set obs. w = v"
  | (many) "targetChoice obs = Some (choice_of_groups (choice_groups obs))"
proof (cases "length (choice_groups obs) = 1")
  case True
  then obtain v ts where g: "choice_groups obs = [(v, ts)]" by (auto simp: length_Suc_conv)
  have "\<forall>(t, w) \<in> set obs. w = v"
    using groups_of_mem [OF choice_groups_inv [of obs]] by (auto simp: g)
  with assms g show ?thesis by (intro one [of v]) (auto simp: targetChoice_def)
next
  case False
  with assms show ?thesis by (intro many) (simp add: targetChoice_def choice_of_groups_def)
qed

lemma targetChoice_select:
  assumes "distinct (map fst obs)" "(t, v) \<in> set obs" "\<not> is_choice v"
  shows "selectAttribute (targetChoice obs) t = Inr v"
proof -
  have "obs \<noteq> []" using assms(2) by auto
  then show ?thesis
  proof (cases obs rule: targetChoice_cases)
    case (one w)
    with assms(2,3) show ?thesis by (auto simp: selectAttribute_plain)
  next
    case many
    have inv: "groups_of obs (choice_groups obs)" by (rule choice_groups_inv)
    then obtain ts where "(v, ts) \<in> set (choice_groups obs)" "t \<in> set ts"
      using assms(2) groups_of_mem [OF inv] by blast
    moreover have "\<forall>(w, us) \<in> set (choice_groups obs). t \<in> set us \<longrightarrow> w = v"
    proof clarify
      fix w us assume "(w, us) \<in> set (choice_groups obs)" "t \<in> set us"
      then have "(t, w) \<in> set obs" using groups_of_mem [OF inv] by blast
      with assms(1,2) show "w = v" by (metis eq_key_imp_eq_value)
    qed
    ultimately have "foldE (select_case t) (map choice_case_attr (choice_groups obs)) None = Inr (Some v)"
      using inv by (intro select_groups_some) (auto simp: groups_of_def)
    with assms(3) many show ?thesis by (simp add: select_choice_of_groups select_loop_plain)
  qed
qed

lemma targetChoice_undefined:
  assumes "t \<notin> fst ` set obs" "(t1, v1) \<in> set obs" "(t2, v2) \<in> set obs" "v1 \<noteq> v2"
  shows "selectAttribute (targetChoice obs) t = Inl (undefined_for t)"
proof -
  have "obs \<noteq> []" using assms(2) by auto
  then show ?thesis
  proof (cases obs rule: targetChoice_cases)
    case (one w)
    with assms(2,3) have "v1 = w" "v2 = w" by auto
    with assms(4) show ?thesis by simp
  next
    case many
    have "\<forall>(v, ts) \<in> set (choice_groups obs). t \<notin> set ts"
    proof clarify
      fix v ts assume "(v, ts) \<in> set (choice_groups obs)" "t \<in> set ts"
      then have "(t, v) \<in> set obs" using groups_of_mem [OF choice_groups_inv] by blast
      with assms(1) show False by (metis fst_conv image_eqI)
    qed
    with many show ?thesis by (simp add: select_choice_of_groups select_groups_none)
  qed
qed

section \<open>Specialized types\<close>

text \<open>A type that no longer depends on the target: what \<open>ArrayType::getNumElements\<close> presupposes.\<close>

fun concrete_type :: "string \<Rightarrow> sty \<Rightarrow> bool" where
  "concrete_type i WordT = False"
| "concrete_type i (ChoiceT c) = False"
| "concrete_type i (ArrayT e c) = (concrete_type i e \<and> (case c of IntegerA w n \<Rightarrow> w = 64 | _ \<Rightarrow> False))"
| "concrete_type i (RecordT s p fs) = list_all (concrete_type i) fs"
| "concrete_type i (OverlapT s as ds) =
     (as \<noteq> [] \<and> list_all (concrete_type i) as \<and> ds = replicate (length as) (targetSet [i]))"
| "concrete_type i (FunctionT as rs) = (list_all (concrete_type i) as \<and> list_all (concrete_type i) rs)"
| "concrete_type i _ = True"

lemma evaluateInteger_literal [simp]:
  "w \<le> 64 \<Longrightarrow> evaluateInteger (Some (IntegerA w n)) target = Inr n"
  by (simp add: evaluateInteger_def selectAttribute_plain)

lemma mapE_all:
  assumes "mapE f xs = Inr ys" "\<And>x y. x \<in> set xs \<Longrightarrow> f x = Inr y \<Longrightarrow> P y"
  shows "list_all P ys"
proof -
  have "list_all2 (\<lambda>x y. f x = Inr y) xs ys" using assms(1) by (simp add: mapE_Inr_iff)
  then show ?thesis using assms(2) by (induction xs ys rule: list_all2_induct) auto
qed

lemma mapE_fixed: "(\<And>x. x \<in> set xs \<Longrightarrow> f x = Inr x) \<Longrightarrow> mapE f xs = Inr xs"
  by (induction xs) auto

lemma specializeType_concrete:
  "specializeType type target = Inr r \<Longrightarrow> concrete_type (target_id target) r"
proof (induction type target arbitrary: r rule: specializeType.induct)
  case (1 type target)
  note prems = "1.prems" [unfolded specializeType.simps [of type]]
  show ?case
  proof (cases type)
    case (ChoiceT cs)
    with prems obtain x where x: "selectAttribute (Some cs) (target_id target) = Inr x"
      "(case x of TypeA t \<Rightarrow> specializeType t target | _ \<Rightarrow> Inl ''type choice requires type-valued cases'') = Inr r"
      by (auto elim: bindE_InrE)
    then obtain t where t: "selectAttribute (Some cs) (target_id target) = Inr (TypeA t)"
      "specializeType t target = Inr r"
      by (cases x) auto
    with ChoiceT "1.IH" show ?thesis by blast
  next
    case (ArrayT e c)
    with prems 1 show ?thesis by (auto simp: bindE_Inr_iff)
  next
    case (RecordT s p fs)
    with prems obtain gs where "mapE (\<lambda>f. specializeType f target) fs = Inr gs" "r = RecordT s p gs"
      by (auto simp: bindE_Inr_iff)
    with RecordT 1 show ?thesis by (auto intro: mapE_all)
  next
    case (OverlapT s as ds)
    with prems obtain gs where g: "mapE (\<lambda>(a, d). specializeType a target)
        (filter (\<lambda>(a, d). containsTarget (Some d) (target_id target)) (zip as ds)) = Inr gs"
      "gs \<noteq> []" "r = OverlapT s gs (map (\<lambda>_. targetSet [target_id target]) gs)" "length as = length ds"
      by (auto simp: bindE_Inr_iff split: if_splits)
    have "list_all (concrete_type (target_id target)) gs"
      using g(1)
    proof (rule mapE_all)
      fix x y
      assume "x \<in> set (filter (\<lambda>(a, d). containsTarget (Some d) (target_id target)) (zip as ds))"
        "(case x of (a, d) \<Rightarrow> specializeType a target) = Inr y"
      with OverlapT 1 g(4) show "concrete_type (target_id target) y" by (cases x) auto
    qed
    with g show ?thesis by (simp add: map_replicate_const)
  next
    case (FunctionT as rs)
    with prems obtain js ss where "mapE (\<lambda>f. specializeType f target) as = Inr js"
      "mapE (\<lambda>f. specializeType f target) rs = Inr ss" "r = FunctionT js ss"
      by (auto simp: bindE_Inr_iff)
    with FunctionT 1 show ?thesis by (auto intro: mapE_all)
  qed (use prems in auto)
qed

lemma zip_replicate_filter:
  "P c \<Longrightarrow> filter (\<lambda>(a, d). P d) (zip xs (replicate (length xs) c)) = zip xs (replicate (length xs) c)"
  by (induction xs) auto

lemma concrete_type_stable:
  "concrete_type (target_id target) t \<Longrightarrow> specializeType t target = Inr t"
proof (induction "target_id target" t rule: concrete_type.induct)
  case (3 e c)
  then show ?case by (cases c) (simp_all add: specializeType.simps [of "ArrayT _ _"])
next
  case (4 s p fs)
  then have "mapE (\<lambda>f. specializeType f target) fs = Inr fs"
    by (intro mapE_fixed) (simp add: list_all_iff)
  then show ?case by (simp add: specializeType.simps [of "RecordT _ _ _"])
next
  case (5 s as ds)
  let ?d = "targetSet [target_id target]"
  have "mapE (\<lambda>(a, d). specializeType a target) (zip as (replicate (length as) ?d)) = Inr as"
    using 5 by (auto simp: mapE_Inr_iff list_all2_conv_all_nth list_all_length)
  moreover have "filter (\<lambda>(a, d). containsTarget (Some d) (target_id target)) (zip as (replicate (length as) ?d)) =
      zip as (replicate (length as) ?d)"
    by (rule zip_replicate_filter) simp
  ultimately show ?case using 5(2)
    by (simp add: specializeType.simps [of "OverlapT _ _ _"] map_replicate_const)
next
  case (6 as rs)
  then have "mapE (\<lambda>f. specializeType f target) as = Inr as" "mapE (\<lambda>f. specializeType f target) rs = Inr rs"
    by (auto intro!: mapE_fixed simp: list_all_iff)
  then show ?case by (simp add: specializeType.simps [of "FunctionT _ _"])
qed (simp_all add: specializeType.simps)

lemma specializeType_idempotent:
  "specializeType type target = Inr r \<Longrightarrow> specializeType r target = Inr r"
  by (intro concrete_type_stable specializeType_concrete)

section \<open>What validation guarantees of selection\<close>

lemma claim_targets_Inr:
  "claim_targets ids seen = Inr (seen', active) \<Longrightarrow>
   seen' = seen \<union> set ids \<and> active = set ids \<and> seen \<inter> set ids = {}"
proof -
  have "foldE (\<lambda>i (seen, active). if i \<in> seen then Inl ''overlapping public target choice cases''
       else Inr (insert i seen, insert i active)) ids (s, a) = Inr (s', a') \<Longrightarrow>
     s' = s \<union> set ids \<and> a' = a \<union> set ids \<and> s \<inter> set ids = {}" for s a s' a'
  proof (induction ids arbitrary: s a)
    case (Cons i ids)
    from Cons.prems have "i \<notin> s" by (auto split: if_splits)
    with Cons show ?case by fastforce
  qed simp
  then show "claim_targets ids seen = Inr (seen', active) \<Longrightarrow> ?thesis"
    unfolding claim_targets_def by fastforce
qed

lemma containsTarget_members: "containsTarget d t \<longleftrightarrow> t \<in> set (set_members d)"
  by (auto simp: containsTarget_def set_members_def list_ex_iff List.map_filter_def image_iff split: option.splits)

text \<open>Once the cases are disjoint, the selection loop finds at most one and never complains.\<close>

definition case_domain :: "attr \<Rightarrow> attr option" where
  "case_domain c = Option.bind (as_dict c) (\<lambda>e. map_of e ''targets'')"

fun disjoint_cases :: "string set \<Rightarrow> attr list \<Rightarrow> bool" where
  "disjoint_cases seen [] = True"
| "disjoint_cases seen (c # cs) =
     (case_value c \<noteq> None \<and> seen \<inter> set (set_members (case_domain c)) = {} \<and>
      disjoint_cases (seen \<union> set (set_members (case_domain c))) cs)"

lemma select_case_value:
  "case_value c = Some v \<Longrightarrow>
   select_case t c s = (if \<not> containsTarget (case_domain c) t then Inr s
                        else if s \<noteq> None then Inl ''overlapping target choice'' else Inr (Some v))"
  by (auto simp: select_case_def case_value_def case_domain_def split: option.splits if_splits)

lemma select_disjoint_none:
  assumes "disjoint_cases seen cs" "t \<in> seen"
  shows "foldE (select_case t) cs s = Inr s"
  using assms
proof (induction cs arbitrary: seen)
  case (Cons c cs)
  from Cons.prems obtain v where v: "case_value c = Some v" "t \<notin> set (set_members (case_domain c))" by auto
  then have "select_case t c s = Inr s" by (simp add: select_case_value containsTarget_members)
  with Cons show ?case by auto
qed simp

lemma select_disjoint:
  assumes "disjoint_cases seen cs"
  shows "\<exists>r. foldE (select_case t) cs None = Inr r \<and>
    (\<forall>v. r = Some v \<longrightarrow> (\<exists>c \<in> set cs. case_value c = Some v \<and> containsTarget (case_domain c) t))"
  using assms
proof (induction cs arbitrary: seen)
  case (Cons c cs)
  from Cons.prems obtain v where v: "case_value c = Some v" by auto
  show ?case
  proof (cases "containsTarget (case_domain c) t")
    case True
    with Cons.prems have "foldE (select_case t) cs (Some v) = Inr (Some v)"
      by (intro select_disjoint_none [of "seen \<union> set (set_members (case_domain c))"])
        (auto simp: containsTarget_members)
    with v True show ?thesis by (auto simp: select_case_value)
  next
    case False
    have "disjoint_cases (seen \<union> set (set_members (case_domain c))) cs" using Cons.prems by simp
    from Cons.IH [OF this] v False show ?thesis by (auto simp: select_case_value)
  qed
qed simp

definition check_case :: "string set \<Rightarrow> nat \<Rightarrow> attr \<Rightarrow> string set \<Rightarrow> string set expected" where
  "check_case universe depth c seen =
     (case case_value c of
        None \<Rightarrow> Inl ''invalid public target choice case''
      | Some v \<Rightarrow>
          bindE (checkSet (case_domain c) universe) (\<lambda>_.
          bindE (claim_targets (set_members (case_domain c)) seen) (\<lambda>(seen', active).
          bindE (checkAttribute v active (depth + 1)) (\<lambda>_. Inr seen'))))"

lemma check_cases_disjoint:
  assumes "foldE (check_case universe depth) cs seen = Inr r"
  shows "disjoint_cases seen cs"
    "\<forall>c \<in> set cs. \<forall>v. case_value c = Some v \<longrightarrow>
       checkAttribute v (set (set_members (case_domain c))) (depth + 1) = Inr ()"
  using assms
proof (induction cs arbitrary: seen)
  case (Cons c cs)
  {
    case 1
    then show ?case using Cons.IH(1)
      by (auto simp: check_case_def bindE_Inr_iff dest!: claim_targets_Inr split: option.splits)
  next
    case 2
    then show ?case using Cons.IH(2)
      by (auto simp: check_case_def bindE_Inr_iff dest!: claim_targets_Inr split: option.splits)
  }
qed simp_all

lemma checkAttribute_choice:
  assumes "checkAttribute a universe depth = Inr ()" "is_choice a"
  obtains cs where "choice_cases a = Some cs" "disjoint_cases {} cs" "depth \<le> 64"
    "\<forall>c \<in> set cs. \<forall>v. case_value c = Some v \<longrightarrow>
       checkAttribute v (set (set_members (case_domain c))) (depth + 1) = Inr ()"
proof -
  from assms(2) obtain d raw where a: "a = DictA d" "map_of d ''target_cases'' = Some raw"
    by (cases a) auto
  have fold: "(\<lambda>value seen. case case_value value of
        None \<Rightarrow> Inl ''invalid public target choice case''
      | Some v \<Rightarrow> let domain = Option.bind (as_dict value) (\<lambda>e. map_of e ''targets'') in
          bindE (checkSet domain universe) (\<lambda>_.
          bindE (claim_targets (set_members domain) seen) (\<lambda>(seen', active).
          bindE (checkAttribute v active (depth + 1)) (\<lambda>_. Inr seen')))) = check_case universe depth"
    unfolding check_case_def case_domain_def Let_def by (rule refl)
  from assms(1) a obtain cs r where c: "raw = ArrayA cs" "length d = 1" "depth \<le> 64"
    "foldE (check_case universe depth) cs {} = Inr r"
    unfolding checkAttribute.simps [of a] fold
    by (cases raw) (auto simp: bindE_Inr_iff split: if_splits)
  show thesis
  proof (rule that)
    show "choice_cases a = Some cs" using a c by (simp add: choice_cases_def get_as_def)
  qed (use c(3) check_cases_disjoint [OF c(4)] in auto)
qed

lemma checked_select:
  assumes "checkAttribute a universe depth = Inr ()" "n + depth > 64"
  shows "(\<exists>v. select_loop n a t = Inr v) \<or> select_loop n a t = Inl (undefined_for t)"
  using assms
proof (induction n arbitrary: a universe depth)
  case 0
  then show ?case by (simp add: checkAttribute.simps [of a])
next
  case (Suc n)
  show ?case
  proof (cases "is_choice a")
    case True
    with Suc.prems(1) obtain cs where c: "choice_cases a = Some cs" "disjoint_cases {} cs"
      "\<forall>c \<in> set cs. \<forall>v. case_value c = Some v \<longrightarrow>
         checkAttribute v (set (set_members (case_domain c))) (depth + 1) = Inr ()"
      by (rule checkAttribute_choice)
    from select_disjoint [OF c(2), of t] obtain r where r: "foldE (select_case t) cs None = Inr r"
      "\<forall>v. r = Some v \<longrightarrow> (\<exists>c \<in> set cs. case_value c = Some v)" by blast
    show ?thesis
    proof (cases r)
      case None
      with True c(1) r(1) show ?thesis by simp
    next
      case (Some v)
      with r(2) c(3) obtain u where "checkAttribute v u (depth + 1) = Inr ()" by blast
      with Suc.IH [of v u "depth + 1"] Suc.prems(2)
      have "(\<exists>w. select_loop n v t = Inr w) \<or> select_loop n v t = Inl (undefined_for t)" by simp
      with True c(1) r(1) Some show ?thesis by simp
    qed
  qed simp
qed

subsection \<open>The nesting bounds of validation and selection\<close>

text \<open>\<open>k\<close> nested choices of one case around a leaf.\<close>

primrec nested_choice :: "nat \<Rightarrow> string \<Rightarrow> attr" where
  "nested_choice 0 t = UnitA"
| "nested_choice (Suc k) t = choice_of_groups [(nested_choice k t, [t])]"

lemma nested_choice_select:
  "select_loop n (nested_choice k t) t =
     (if k < n then Inr UnitA else Inl ''excessively nested target choice'')"
proof (induction n arbitrary: k)
  case 0
  then show ?case by simp
next
  case (Suc n)
  then show ?case
    by (cases k) (simp_all add: choice_of_groups_def choice_cases_def get_as_def select_case_of_group)
qed

lemma checkSet_singleton: "checkSet (Some (targetSet [t])) universe = Inr () \<longleftrightarrow> t \<in> universe"
  by (simp add: checkSet_def targetSet_def)

lemma nested_choice_check:
  "checkAttribute (nested_choice k t) {t} depth = Inr () \<longleftrightarrow> k + depth \<le> 64"
proof (induction k arbitrary: depth)
  case 0
  then show ?case by (simp add: checkAttribute.simps [of UnitA] not_less)
next
  case (Suc k)
  have members: "set_members (Some (targetSet [t])) = [t]"
    by (simp add: set_members_def targetSet_def List.map_filter_def)
  have cv: "case_value (choice_case_attr (v, [t])) = Some v" for v
    by (simp add: case_value_def choice_case_attr_def)
  have domain: "Option.bind (as_dict (choice_case_attr (v, [t]))) (\<lambda>e. map_of e ''targets'') = Some (targetSet [t])" for v
    by (simp add: choice_case_attr_def)
  have "checkSet (Some (targetSet [t])) {t} = Inr ()" by (simp add: checkSet_singleton)
  then show ?case
    unfolding nested_choice.simps choice_of_groups_def checkAttribute.simps [of "DictA _"]
    by (auto simp: cv domain members Suc.IH claim_targets_def bindE_Inr_iff)
qed

end
