(* ===== verification/Specialization.thy ===== *)
theory Specialization
  imports Domains_Facts
begin

text \<open>
  Resolution of a qualified module to one target: the conditional control-flow graph
  (\<open>src/ir/ConditionalSpecialization.cpp\<close>) and then every attribute and type
  (\<open>specializeDomains\<close> of \<open>src/ir/Domains.cpp\<close>). MLIR's structural verifier is the parameter
  \<open>verifies\<close>.
\<close>

section \<open>The conditional control-flow graph\<close>

type_synonym block_domains = "(nat \<times> attr) list"

text \<open>\<open>cast<ArrayAttr>\<close> of an inventory entry; \<open>verifyTargetDomains\<close> has checked that it is a set.\<close>

definition region_domains :: "attr list option \<Rightarrow> attr \<Rightarrow> block list \<Rightarrow> block_domains" where
  "region_domains domains functionDomain region =
     (case domains of
        Some ds \<Rightarrow> zip (map block_id region) ds
      | None \<Rightarrow> map (\<lambda>b. (block_id b, functionDomain)) region)"

definition block_active :: "block_domains \<Rightarrow> string \<Rightarrow> nat \<Rightarrow> bool" where
  "block_active bd target b \<longleftrightarrow> (map_of bd b \<noteq> None \<and> containsTarget (map_of bd b) target)"

text \<open>One edge of a conditional switch; the state is the offset and the selected parts.\<close>

record switch_acc =
  sw_offset :: nat
  sw_cases :: "attr list"
  sw_counts :: "int list"
  sw_succs :: "nat list"
  sw_operands :: "nat list"

definition switch_edge ::
  "string list \<Rightarrow> string \<Rightarrow> block_domains \<Rightarrow> nat \<Rightarrow> op \<Rightarrow> attr list \<Rightarrow> attr list option \<Rightarrow>
   nat \<times> int \<Rightarrow> switch_acc \<Rightarrow> switch_acc expected" where
  "switch_edge targets selected bd b x cases caseDomains e s =
     (case e of (edge, count) \<Rightarrow>
        if count < 0 \<or> nat count > length (op_operands x) - sw_offset s
        then Inl ''invalid conditional switch argument segment''
        else
          let domain = (case caseDomains of Some ds \<Rightarrow> if edge \<noteq> 0 then ds ! (edge - 1) else targetSet targets
                        | None \<Rightarrow> targetSet targets);
              successor = op_succs x ! edge
          in
            if map_of bd successor = None then Inl ''conditional switch leaves its function''
            else if list_ex (\<lambda>i. containsTarget (map_of bd b) i \<and> containsTarget (Some domain) i \<and>
                                  \<not> containsTarget (map_of bd successor) i) targets
            then Inl ''active conditional switch edge reaches an absent block''
            else if containsTarget (Some domain) selected then
              Inr (s\<lparr>sw_offset := sw_offset s + nat count,
                     sw_cases := sw_cases s @ (if edge \<noteq> 0 then [cases ! (edge - 1)] else []),
                     sw_counts := sw_counts s @ [count],
                     sw_succs := sw_succs s @ [successor],
                     sw_operands := sw_operands s @ take (nat count) (drop (sw_offset s) (op_operands x))\<rparr>)
            else Inr (s\<lparr>sw_offset := sw_offset s + nat count\<rparr>))"

definition specialize_switch :: "string list \<Rightarrow> string \<Rightarrow> block_domains \<Rightarrow> nat \<Rightarrow> op \<Rightarrow> op expected" where
  "specialize_switch targets selected bd b x =
     (case (op_get as_array x ''cases'', op_get as_i32s x ''argument_counts'') of
        (Some cases, Some counts) \<Rightarrow>
          let rawCases = op_attr x ''case_domains'';
              caseDomains = Option.bind rawCases as_array
          in
            if (rawCases \<noteq> None \<and> caseDomains = None) \<or>
               (case caseDomains of Some ds \<Rightarrow> length ds \<noteq> length cases | None \<Rightarrow> False) \<or>
               length counts \<noteq> length cases + 1 \<or> length (op_succs x) \<noteq> length counts \<or>
               length (op_operands x) < 1 \<or> op_results x \<noteq> [] \<or> op_regions x \<noteq> []
            then Inl ''invalid conditional switch inventory''
            else
              bindE (foldE (switch_edge targets selected bd b x cases caseDomains) (List.enumerate 0 counts)
                       \<lparr>sw_offset = 1, sw_cases = [], sw_counts = [], sw_succs = [],
                        sw_operands = [hd (op_operands x)]\<rparr>) (\<lambda>s.
              if sw_offset s \<noteq> length (op_operands x) then Inl ''conditional switch has undeclared arguments''
              else Inr (Op (op_name x)
                          (dict_set ''argument_counts'' (DenseI32A (sw_counts s))
                            (dict_set ''cases'' (ArrayA (sw_cases s)) (dict_erase ''case_domains'' (op_attrs x))))
                          (sw_operands s) [] (sw_succs s) [] (op_unknown_loc x)))
      | _ \<Rightarrow> Inl ''invalid conditional switch inventory'')"

definition specialize_block_switches ::
  "string list \<Rightarrow> string \<Rightarrow> block_domains \<Rightarrow> block \<Rightarrow> block expected" where
  "specialize_block_switches targets selected bd b =
     bindE (mapE (\<lambda>x. if op_name x = ''sela.switch'' then specialize_switch targets selected bd (block_id b) x
                      else Inr x) (block_ops b))
       (\<lambda>ops. Inr (Block (block_id b) (block_args b) ops))"

text \<open>The block a value is defined in (\<open>Value::getParentBlock\<close>).\<close>

definition defines_value :: "nat \<Rightarrow> block \<Rightarrow> bool" where
  "defines_value v b \<longleftrightarrow>
     v \<in> fst ` set (block_args b) \<or> list_ex (\<lambda>x. v \<in> fst ` set (op_results x)) (block_ops b)"

definition value_block :: "block list \<Rightarrow> nat \<Rightarrow> nat option" where
  "value_block region v = map_option block_id (List.find (defines_value v) region)"

definition check_survivor :: "block list \<Rightarrow> block_domains \<Rightarrow> string \<Rightarrow> op \<Rightarrow> unit expected" where
  "check_survivor region bd selected x =
     (if \<not> list_all (block_active bd selected) (op_succs x)
      then Inl ''active branch reaches an absent conditional block''
      else if \<not> list_all (\<lambda>v. case value_block region v of None \<Rightarrow> False | Some b \<Rightarrow> block_active bd selected b)
                (op_operands x)
      then Inl ''active operation uses an absent conditional value''
      else success)"

definition specialize_region ::
  "string list \<Rightarrow> string \<Rightarrow> attr \<Rightarrow> attr list option \<Rightarrow> block list \<Rightarrow> block list expected" where
  "specialize_region targets selected functionDomain domains region =
     (let bd = region_domains domains functionDomain region in
      bindE (case region of
               [] \<Rightarrow> success
             | entry # _ \<Rightarrow>
                 if list_all (\<lambda>i. containsTarget (map_of bd (block_id entry)) i) (set_members (Some functionDomain))
                 then success else Inl ''conditional CFG must retain a shared entry block'') (\<lambda>_.
      bindE (mapE (specialize_block_switches targets selected bd) region) (\<lambda>region'.
      bindE (forE (\<lambda>b. if block_active bd selected (block_id b)
                       then forE (check_survivor region' bd selected) (block_ops b) else success) region') (\<lambda>_.
        Inr (filter (\<lambda>b. block_active bd selected (block_id b)) region')))))"

definition specialize_function :: "string list \<Rightarrow> string \<Rightarrow> op \<Rightarrow> op expected" where
  "specialize_function targets selected f =
     (case op_regions f of
        [region] \<Rightarrow>
          let functionDomain = (case op_get as_array f ''targets'' of Some ts \<Rightarrow> ArrayA ts | None \<Rightarrow> targetSet targets);
              rawDomains = op_attr f ''block_domains'';
              domains = Option.bind rawDomains as_array
          in
            if rawDomains \<noteq> None \<and>
               (case domains of None \<Rightarrow> True | Some ds \<Rightarrow> length ds \<noteq> length region \<or> region = [])
            then Inl ''conditional CFG block inventory mismatch''
            else bindE (specialize_region targets selected functionDomain domains region) (\<lambda>region'.
              Inr (set_regions [region'] (set_attrs (dict_erase ''block_domains'' (op_attrs f)) f)))
      | _ \<Rightarrow> Inl ''conditional CFG requires one function region'')"

definition specializeConditionalCFG :: "(op \<Rightarrow> bool) \<Rightarrow> op \<Rightarrow> string \<Rightarrow> op expected" where
  "specializeConditionalCFG verifies source selected =
     bindE (declaredTargets source) (\<lambda>targets.
     if selected \<notin> set targets then Inl ''conditional target is outside module qualification''
     else bindE (verifyTargetDomains source) (\<lambda>_.
     let present = filter (\<lambda>x. op_attr x ''targets'' = None \<or> containsTarget (op_attr x ''targets'') selected)
                     (body_ops source)
     in
       bindE (mapE (\<lambda>x. if op_name x = ''sela.func'' then specialize_function targets selected x else Inr x) present)
         (\<lambda>ops.
           if verifies (set_body ops source) then Inr (set_body ops source)
           else Inl ''specialized conditional CFG failed structural verification'')))"

section \<open>Attributes and types\<close>

definition numeric_field :: "string \<Rightarrow> bool" where
  "numeric_field name \<longleftrightarrow> name \<in> {''alignment'', ''value'', ''initializer'', ''flags''}"

text \<open>The module flags that exist for the target, with their domain narrowed to it.\<close>

definition keep_flag :: "TargetInfo \<Rightarrow> attr \<Rightarrow> attr list \<Rightarrow> attr list expected" where
  "keep_flag target flag kept =
     (case as_dict flag of
        None \<Rightarrow> Inl ''invalid public module flag''
      | Some d \<Rightarrow>
          if containsTarget (map_of d ''targets'') (target_id target)
          then Inr (kept @ [DictA (dict_set ''targets'' (targetSet [target_id target]) d)])
          else Inr kept)"

definition specialize_entry :: "TargetInfo \<Rightarrow> bool \<Rightarrow> string \<times> attr \<Rightarrow> dict \<Rightarrow> dict expected" where
  "specialize_entry target toplevel entry attributes =
     (if fst entry = ''targets'' \<and> toplevel then Inr attributes
      else
        bindE (if fst entry = ''sela.module_flags'' then
                 (case as_array (snd entry) of
                    None \<Rightarrow> Inl ''invalid public module flag inventory''
                  | Some flags \<Rightarrow> bindE (foldE (keep_flag target) flags []) (\<lambda>kept. Inr (ArrayA kept)))
               else Inr (snd entry)) (\<lambda>raw.
        bindE (specializeAttribute raw target (numeric_field (fst entry))) (\<lambda>concrete.
          Inr (attributes @ [(fst entry, concrete)]))))"

text \<open>
  \<open>rewriteValue\<close> on a list of values: each that specializes is rewritten, the last failure is the
  message.
\<close>

definition rewrite_type :: "TargetInfo \<Rightarrow> sty \<Rightarrow> sty" where
  "rewrite_type target t = (case specializeType t target of Inr c \<Rightarrow> c | Inl _ \<Rightarrow> t)"

definition type_errors :: "TargetInfo \<Rightarrow> sty list \<Rightarrow> string list" where
  "type_errors target ts = List.map_filter (\<lambda>t. case specializeType t target of Inl e \<Rightarrow> Some e | Inr _ \<Rightarrow> None) ts"

definition rewrite_block_args :: "TargetInfo \<Rightarrow> block \<Rightarrow> block" where
  "rewrite_block_args target b =
     Block (block_id b) (map (\<lambda>(v, t, l). (v, rewrite_type target t, l)) (block_args b)) (block_ops b)"

definition value_types :: "op \<Rightarrow> sty list" where
  "value_types x =
     map snd (op_results x) @
     concat (map (\<lambda>blocks. concat (map (\<lambda>b. map (\<lambda>(_, t, _). t) (block_args b)) blocks)) (op_regions x))"

text \<open>The callback of the walk on one operation, whose nested operations are already done.\<close>

definition specialize_op_here :: "TargetInfo \<Rightarrow> bool \<Rightarrow> op \<Rightarrow> op expected" where
  "specialize_op_here target toplevel x =
     bindE (foldE (specialize_entry target toplevel) (op_attrs x) []) (\<lambda>attributes.
       let errors = type_errors target (value_types x) in
       if errors \<noteq> [] then Inl (last errors)
       else Inr (Op (op_name x) attributes (op_operands x)
                   (map (\<lambda>(v, t). (v, rewrite_type target t)) (op_results x)) (op_succs x)
                   (map (map (rewrite_block_args target)) (op_regions x)) (op_unknown_loc x)))"

function specialize_op :: "TargetInfo \<Rightarrow> nat \<Rightarrow> op \<Rightarrow> op expected" where
  "specialize_op target depth x =
     bindE (mapE (mapE (\<lambda>b. bindE (mapE (specialize_op target (Suc depth)) (block_ops b))
                              (\<lambda>ops. Inr (Block (block_id b) (block_args b) ops)))) (op_regions x)) (\<lambda>regions.
       specialize_op_here target (depth = 1) (set_regions regions x))"
  by pat_completeness auto
termination
  by (relation "measure (\<lambda>(target, depth, x). size x)") (auto intro: size_op_mem)

declare specialize_op.simps [simp del]

definition specializeDomains :: "(op \<Rightarrow> bool) \<Rightarrow> op \<Rightarrow> TargetInfo \<Rightarrow> op expected" where
  "specializeDomains verifies m target =
     bindE (declaredTargets m) (\<lambda>domain.
     if target_id target \<notin> set domain then Inl (''target lies outside artifact qualification: '' @ target_id target)
     else
       bindE (specializeConditionalCFG verifies m (target_id target)) (\<lambda>selected.
       bindE (specialize_op target 0 selected) (\<lambda>concrete.
       let result = set_attrs (dict_set ''sela.targets'' (targetSet [target_id target]) (op_attrs concrete)) concrete in
       if verifies result then Inr result else Inl ''target-specialized public IR is structurally invalid'')))"

end
