(* ===== verification/Specialization_Facts.thy ===== *)
theory Specialization_Facts
  imports Specialization
begin

text \<open>
  Facts about specialization: the surviving graph of a function is closed (no dangling edge and no
  dangling value), its blocks are those of the target, and a resolved module mentions no
  target-dependent type.
\<close>

section \<open>The surviving graph\<close>

text \<open>Every successor of the region is one of its blocks, every operand is defined in it.\<close>

definition closed_region :: "block list \<Rightarrow> bool" where
  "closed_region region \<longleftrightarrow>
     (\<forall>b \<in> set region. \<forall>x \<in> set (block_ops b).
        set (op_succs x) \<subseteq> block_id ` set region \<and>
        (\<forall>v \<in> set (op_operands x). \<exists>d \<in> set region. defines_value v d))"

lemma specialize_block_switches_id:
  "specialize_block_switches targets selected bd b = Inr b' \<Longrightarrow> block_id b' = block_id b \<and> block_args b' = block_args b"
  by (auto simp: specialize_block_switches_def bindE_Inr_iff)

lemma specialize_blocks_ids:
  assumes "mapE (specialize_block_switches targets selected bd) region = Inr region'"
  shows "map block_id region' = map block_id region"
proof -
  have "list_all2 (\<lambda>b b'. specialize_block_switches targets selected bd b = Inr b') region region'"
    using assms by (simp add: mapE_Inr_iff)
  then show ?thesis
    by (induction region region' rule: list_all2_induct) (auto dest: specialize_block_switches_id)
qed

lemma find_filter:
  "List.find P xs = Some x \<Longrightarrow> Q x \<Longrightarrow> List.find P (filter Q xs) = Some x"
  by (induction xs) (auto split: if_splits)

lemma find_mem: "List.find P xs = Some x \<Longrightarrow> x \<in> set xs \<and> P x"
  by (induction xs) (auto split: if_splits)

lemma region_domains_keys: "fst ` set (region_domains domains fd region) \<subseteq> block_id ` set region"
proof -
  have "fst ` set (zip xs ys) \<subseteq> set xs" for xs :: "nat list" and ys :: "attr list"
    by (auto dest: set_zip_leftD)
  then show ?thesis by (auto simp: region_domains_def image_image split: option.splits) fastforce
qed

lemma block_active_mem:
  assumes "block_active (region_domains domains fd region) selected b"
  shows "b \<in> block_id ` set region"
proof -
  have "b \<in> fst ` set (region_domains domains fd region)"
    using assms by (auto simp: block_active_def image_iff dest: map_of_SomeD intro: bexI [rotated])
  with region_domains_keys show ?thesis by blast
qed

lemma specialize_region_Inr:
  assumes "specialize_region targets selected fd domains region = Inr result"
  obtains region' where
    "mapE (specialize_block_switches targets selected (region_domains domains fd region)) region = Inr region'"
    "\<forall>b \<in> set region'. block_active (region_domains domains fd region) selected (block_id b) \<longrightarrow>
       (\<forall>x \<in> set (block_ops b). check_survivor region' (region_domains domains fd region) selected x = Inr ())"
    "result = filter (\<lambda>b. block_active (region_domains domains fd region) selected (block_id b)) region'"
  using assms unfolding specialize_region_def Let_def
  by (auto simp: forE_success_iff elim!: bindE_InrE split: if_splits)

lemma specialize_region_closed:
  assumes "specialize_region targets selected fd domains region = Inr result"
  shows "closed_region result"
proof -
  let ?bd = "region_domains domains fd region"
  from assms obtain region' where r:
    "mapE (specialize_block_switches targets selected ?bd) region = Inr region'"
    "\<forall>b \<in> set region'. block_active ?bd selected (block_id b) \<longrightarrow>
       (\<forall>x \<in> set (block_ops b). check_survivor region' ?bd selected x = Inr ())"
    "result = filter (\<lambda>b. block_active ?bd selected (block_id b)) region'"
    by (rule specialize_region_Inr)
  have ids: "block_id ` set region' = block_id ` set region"
    using specialize_blocks_ids [OF r(1)] by (metis list.set_map)
  have active: "s \<in> block_id ` set result" if "block_active ?bd selected s" for s
  proof -
    from block_active_mem [OF that] ids obtain d where "d \<in> set region'" "block_id d = s" by (metis imageE)
    with that r(3) show ?thesis by auto
  qed
  show ?thesis unfolding closed_region_def
  proof (intro ballI conjI)
    fix b x assume b: "b \<in> set result" and x: "x \<in> set (block_ops b)"
    with r have c: "check_survivor region' ?bd selected x = Inr ()" by auto
    then have "list_all (block_active ?bd selected) (op_succs x)"
      by (auto simp: check_survivor_def split: if_splits)
    with active show "set (op_succs x) \<subseteq> block_id ` set result" by (auto simp: list_all_iff)
    fix v assume "v \<in> set (op_operands x)"
    with c obtain i where "value_block region' v = Some i" "block_active ?bd selected i"
      by (auto simp: check_survivor_def list_all_iff split: if_splits option.splits)
    then obtain d where "d \<in> set region'" "defines_value v d" "block_active ?bd selected (block_id d)"
      by (auto simp: value_block_def dest: find_mem)
    with r(3) show "\<exists>d \<in> set result. defines_value v d" by auto
  qed
qed

lemma specialize_region_blocks:
  assumes "specialize_region targets selected fd domains region = Inr result"
  shows "map block_id result =
    filter (block_active (region_domains domains fd region) selected) (map block_id region)"
proof -
  from assms obtain region' where
    "mapE (specialize_block_switches targets selected (region_domains domains fd region)) region = Inr region'"
    "result = filter (\<lambda>b. block_active (region_domains domains fd region) selected (block_id b)) region'"
    by (rule specialize_region_Inr)
  then show ?thesis
    by (simp flip: specialize_blocks_ids add: filter_map comp_def)
qed

lemma specialize_function_closed:
  assumes "specialize_function targets selected f = Inr f'"
  shows "op_name f' = op_name f \<and> op_attr f' ''block_domains'' = None \<and>
    (\<exists>region. op_regions f' = [region] \<and> closed_region region)"
proof -
  from assms obtain region domains fd region' where
    "specialize_region targets selected fd domains region = Inr region'"
    "f' = set_regions [region'] (set_attrs (dict_erase ''block_domains'' (op_attrs f)) f)"
    unfolding specialize_function_def Let_def
    by (auto elim!: bindE_InrE split: list.splits if_splits)
  then show ?thesis using specialize_region_closed by (simp add: op_attr_def dict_erase_get)
qed

lemma body_ops_set_body: "set (body_ops (set_body ops m)) \<subseteq> set ops"
  by (auto simp: body_ops_def set_body_def split: list.splits block.splits)

lemma specializeConditionalCFG_closed:
  assumes "specializeConditionalCFG verifies source selected = Inr m" "f \<in> set (body_ops m)" "op_name f = ''sela.func''"
  shows "op_attr f ''block_domains'' = None \<and> (\<exists>region. op_regions f = [region] \<and> closed_region region)"
proof -
  from assms(1) obtain targets present ops where o:
    "mapE (\<lambda>x. if op_name x = ''sela.func'' then specialize_function targets selected x else Inr x) present = Inr ops"
    "m = set_body ops source"
    unfolding specializeConditionalCFG_def Let_def by (auto elim!: bindE_InrE split: if_splits)
  have "list_all (\<lambda>x. op_name x = ''sela.func'' \<longrightarrow>
      op_attr x ''block_domains'' = None \<and> (\<exists>region. op_regions x = [region] \<and> closed_region region)) ops"
    using o(1) by (rule mapE_all) (auto dest: specialize_function_closed split: if_splits)
  moreover have "f \<in> set ops" using assms(2) o(2) body_ops_set_body by blast
  ultimately show ?thesis using assms(3) by (auto simp: list_all_iff)
qed

section \<open>Switch edges\<close>

fun segments :: "int list \<Rightarrow> 'a list \<Rightarrow> 'a list list" where
  "segments [] xs = []"
| "segments (c # cs) xs = take (nat c) xs # segments cs (drop (nat c) xs)"

definition edge_active :: "string list \<Rightarrow> string \<Rightarrow> attr list option \<Rightarrow> nat \<Rightarrow> bool" where
  "edge_active targets selected caseDomains i =
     containsTarget (Some (case caseDomains of Some ds \<Rightarrow> if i \<noteq> 0 then ds ! (i - 1) else targetSet targets
                           | None \<Rightarrow> targetSet targets)) selected"

lemma switch_edge_Inr:
  assumes "switch_edge targets selected bd b x cases cd (i, c) s = Inr s'"
  shows "c \<ge> 0" "sw_offset s' = sw_offset s + nat c"
    "\<not> edge_active targets selected cd i \<Longrightarrow>
       sw_cases s' = sw_cases s \<and> sw_counts s' = sw_counts s \<and> sw_succs s' = sw_succs s \<and>
       sw_operands s' = sw_operands s"
    "edge_active targets selected cd i \<Longrightarrow>
       sw_cases s' = sw_cases s @ (if i \<noteq> 0 then [cases ! (i - 1)] else []) \<and>
       sw_counts s' = sw_counts s @ [c] \<and> sw_succs s' = sw_succs s @ [op_succs x ! i] \<and>
       sw_operands s' = sw_operands s @ take (nat c) (drop (sw_offset s) (op_operands x))"
  using assms by (auto simp: switch_edge_def edge_active_def Let_def split: if_splits)

lemma switch_edges_Inr:
  assumes "foldE (switch_edge targets selected bd b x cases cd) (List.enumerate k cs) s = Inr s'"
  shows "sw_cases s' = sw_cases s @ map (\<lambda>i. cases ! (i - 1))
      (filter (\<lambda>i. i \<noteq> 0) (filter (edge_active targets selected cd) [k..<k + length cs]))" (is ?cases)
    and "sw_succs s' = sw_succs s @ map ((!) (op_succs x)) (filter (edge_active targets selected cd) [k..<k + length cs])" (is ?succs)
    and "sw_counts s' = sw_counts s @ map snd (filter (\<lambda>p. edge_active targets selected cd (fst p)) (List.enumerate k cs))" (is ?counts)
    and "sw_operands s' = sw_operands s @ concat (map snd
      (filter (\<lambda>p. edge_active targets selected cd (fst p))
        (List.enumerate k (segments cs (drop (sw_offset s) (op_operands x))))))" (is ?operands)
proof -
  have "?cases \<and> ?succs \<and> ?counts \<and> ?operands"
    using assms
  proof (induction cs arbitrary: k s)
    case Nil
    then show ?case by simp
  next
    case (Cons c cs)
    from Cons.prems obtain u where u: "switch_edge targets selected bd b x cases cd (k, c) s = Inr u"
      "foldE (switch_edge targets selected bd b x cases cd) (List.enumerate (Suc k) cs) u = Inr s'"
      by (auto elim: bindE_InrE)
    note IH = Cons.IH [OF u(2)]
    note step = switch_edge_Inr [OF u(1)]
    have range: "[k..<k + length (c # cs)] = k # [Suc k..<Suc k + length cs]"
      by (simp add: upt_rec)
    show ?case
    proof (cases "edge_active targets selected cd k")
      case True
      with IH step(4) [OF True] step(2) show ?thesis
        unfolding range by (simp add: add.commute)
    next
      case False
      with IH step(3) [OF False] step(2) show ?thesis unfolding range by (simp add: add.commute)
    qed
  qed
  then show ?cases ?succs ?counts ?operands by blast+
qed

section \<open>Resolved modules\<close>

text \<open>An attribute without choices, whose types are concrete.\<close>

function resolved_attr :: "string \<Rightarrow> attr \<Rightarrow> bool" where
  "resolved_attr i (TypeA t) = concrete_type i t"
| "resolved_attr i (ArrayA xs) = list_all (resolved_attr i) xs"
| "resolved_attr i (DictA d) = (map_of d ''target_cases'' = None \<and> list_all (\<lambda>p. resolved_attr i (snd p)) d)"
| "resolved_attr i (IntegerA w n) = True"
| "resolved_attr i (FloatA t n) = True"
| "resolved_attr i (StringA s) = True"
| "resolved_attr i UnitA = True"
| "resolved_attr i (DenseI32A xs) = True"
| "resolved_attr i (OtherA s) = True"
  by pat_completeness auto
termination
  by (relation "measure (\<lambda>(i, a). size a)")
    (auto simp del: attr.size intro: size_array_mem dict_entry_size)

lemma smap_put_mem: "p \<in> set (smap_put k v d) \<Longrightarrow> p = (k, v) \<or> p \<in> set d"
  by (induction d) (auto split: if_splits)

lemma resolved_dict_get: "resolved_attr i (DictA d) \<Longrightarrow> map_of d k = Some v \<Longrightarrow> resolved_attr i v"
  by (auto simp: list_all_iff dest!: map_of_SomeD)

lemma cut_array_resolved:
  assumes "cut_array target d = Inr r" "resolved_attr i (DictA d)"
  shows "resolved_attr i r"
proof -
  consider "r = DictA d" | n es where "r = DictA (dict_set ''array'' (ArrayA (take n es)) d)"
      "map_of d ''array'' = Some (ArrayA es)"
    using assms(1) by (auto simp: cut_array_def get_as_Some bindE_Inr_iff split: option.splits if_splits)
  then show ?thesis
  proof cases
    case 1
    with assms(2) show ?thesis by simp
  next
    case (2 n es)
    have es: "list_all (resolved_attr i) (take n es)"
      using resolved_dict_get [OF assms(2) 2(2)] by (auto simp: list_all_iff dest: in_set_takeD)
    have "\<forall>p \<in> set (dict_set ''array'' (ArrayA (take n es)) d). resolved_attr i (snd p)"
      using es assms(2) by (auto simp: dict_set_def list_all_iff dest: smap_put_mem)
    moreover have "''target_cases'' \<notin> fst ` set (dict_set ''array'' (ArrayA (take n es)) d)"
      using assms(2) by (simp add: dict_set_def smap_put_keys map_of_eq_None_iff)
    ultimately show ?thesis using 2(1) by (simp add: list_all_iff map_of_eq_None_iff)
  qed
qed

lemma specializeAttribute_resolved:
  "specializeAttribute a target numeric = Inr r \<Longrightarrow> resolved_attr (target_id target) r"
proof (induction a target numeric arbitrary: r rule: specializeAttribute.induct)
  case (1 input target numeric)
  from "1.prems" obtain x where sel: "selectAttribute (Some input) (target_id target) = Inr x"
    and step: "(case x of
         TypeA type \<Rightarrow> bindE (specializeType type target) (\<lambda>t. Inr (TypeA t))
       | ArrayA entries \<Rightarrow>
           bindE (mapE (\<lambda>e. specializeAttribute e target numeric) entries) (\<lambda>values. Inr (ArrayA values))
       | DictA entries \<Rightarrow>
           bindE (mapE (\<lambda>e. bindE (specializeAttribute (snd e) target (numeric \<or> fst e = ''integer''))
                              (\<lambda>v. Inr (fst e, v))) entries)
             (cut_array target)
       | StringA text \<Rightarrow>
           if numeric \<and> text = ''pointer_bytes'' then Inr (IntegerA 64 (wordBits target div 8))
           else Inr x
       | _ \<Rightarrow> Inr x) = Inr r"
    unfolding specializeAttribute.simps [of input] by (rule bindE_InrE)
  show ?case
  proof (cases x)
    case (TypeA t)
    with step show ?thesis by (auto simp: bindE_Inr_iff intro: specializeType_concrete)
  next
    case (ArrayA es)
    with step obtain vs where "mapE (\<lambda>e. specializeAttribute e target numeric) es = Inr vs" "r = ArrayA vs"
      by (auto simp: bindE_Inr_iff)
    with "1.IH"(1) [OF sel ArrayA] show ?thesis by (auto intro: mapE_all)
  next
    case (DictA d)
    with step obtain e where e: "mapE (\<lambda>e. bindE (specializeAttribute (snd e) target (numeric \<or> fst e = ''integer''))
        (\<lambda>v. Inr (fst e, v))) d = Inr e" "cut_array target e = Inr r"
      by (auto simp: bindE_Inr_iff)
    have "list_all (\<lambda>p. resolved_attr (target_id target) (snd p)) e"
      using e(1) by (rule mapE_all) (auto simp: bindE_Inr_iff intro: "1.IH"(2) [OF sel DictA])
    moreover have "fst ` set e = fst ` set d"
    proof -
      have "list_all2 (\<lambda>p q. fst q = fst p) d e"
        using e(1) unfolding mapE_Inr_iff by (rule list_all2_mono) (auto simp: bindE_Inr_iff)
      then have "map fst e = map fst d" by (induction d e rule: list_all2_induct) auto
      then show ?thesis by (metis list.set_map)
    qed
    moreover have "map_of d ''target_cases'' = None"
      using selectAttribute_not_choice [OF sel] DictA by simp
    ultimately have "resolved_attr (target_id target) (DictA e)"
      by (simp add: map_of_eq_None_iff)
    with e(2) show ?thesis by (rule cut_array_resolved)
  qed (use step in \<open>auto split: if_splits\<close>)
qed

text \<open>An operation all of whose values and attributes are resolved, with everything nested in it.\<close>

function resolved_op :: "string \<Rightarrow> op \<Rightarrow> bool" where
  "resolved_op i x \<longleftrightarrow>
     list_all (concrete_type i) (value_types x) \<and> list_all (\<lambda>p. resolved_attr i (snd p)) (op_attrs x) \<and>
     list_all (list_all (\<lambda>b. list_all (resolved_op i) (block_ops b))) (op_regions x)"
  by pat_completeness auto
termination
  by (relation "measure (\<lambda>(i, x). size x)") (auto intro: size_op_mem)

declare resolved_op.simps [simp del]

lemma specialize_entries_resolved:
  assumes "foldE (specialize_entry target toplevel) es d = Inr d'"
    "list_all (\<lambda>p. resolved_attr (target_id target) (snd p)) d"
  shows "list_all (\<lambda>p. resolved_attr (target_id target) (snd p)) d'"
  using assms
proof (rule foldE_invariant)
  fix e s t
  assume "list_all (\<lambda>p. resolved_attr (target_id target) (snd p)) s" "specialize_entry target toplevel e s = Inr t"
  then show "list_all (\<lambda>p. resolved_attr (target_id target) (snd p)) t"
    by (auto simp: specialize_entry_def bindE_Inr_iff intro: specializeAttribute_resolved split: if_splits)
qed

lemma rewrite_types_concrete:
  assumes "type_errors target ts = []"
  shows "list_all (concrete_type (target_id target)) (map (rewrite_type target) ts)"
proof -
  have "\<exists>c. specializeType t target = Inr c" if "t \<in> set ts" for t
  proof (cases "specializeType t target")
    case (Inl e)
    with that have "e \<in> set (type_errors target ts)"
      by (force simp: type_errors_def List.map_filter_def)
    with assms show ?thesis by simp
  qed blast
  then show ?thesis
    by (fastforce simp: list_all_iff rewrite_type_def intro: specializeType_concrete)
qed

lemma value_types_rewritten:
  "value_types (Op n d os (map (\<lambda>(v, t). (v, rewrite_type target t)) rs) ss
       (map (map (rewrite_block_args target)) bs) l) =
   map (rewrite_type target) (value_types (Op n e os rs ss bs l))"
proof -
  have args: "map (\<lambda>p. fst (snd p)) (block_args (rewrite_block_args target b)) =
      map (\<lambda>p. rewrite_type target (fst (snd p))) (block_args b)" for b
    by (simp add: rewrite_block_args_def case_prod_unfold comp_def)
  show ?thesis
    by (simp add: value_types_def args map_concat comp_def case_prod_unfold)
qed

lemma specialize_op_here_resolved:
  assumes "specialize_op_here target toplevel x = Inr y"
    "list_all (list_all (\<lambda>b. list_all (resolved_op (target_id target)) (block_ops b))) (op_regions x)"
  shows "resolved_op (target_id target) y"
proof -
  from assms(1) obtain d where d: "foldE (specialize_entry target toplevel) (op_attrs x) [] = Inr d"
    "type_errors target (value_types x) = []"
    "y = Op (op_name x) d (op_operands x) (map (\<lambda>(v, t). (v, rewrite_type target t)) (op_results x)) (op_succs x)
           (map (map (rewrite_block_args target)) (op_regions x)) (op_unknown_loc x)"
    unfolding specialize_op_here_def Let_def by (auto elim!: bindE_InrE split: if_splits)
  have "value_types y = map (rewrite_type target) (value_types x)"
    unfolding d(3) value_types_rewritten [of _ _ _ _ _ _ _ _ "op_attrs x"] by simp
  moreover have "list_all (\<lambda>p. resolved_attr (target_id target) (snd p)) d"
    using specialize_entries_resolved [OF d(1)] by simp
  moreover have "block_ops (rewrite_block_args target b) = block_ops b" for b
    by (simp add: rewrite_block_args_def)
  moreover have "op_attrs y = d" "op_regions y = map (map (rewrite_block_args target)) (op_regions x)"
    by (simp_all add: d(3))
  ultimately show ?thesis
    using assms(2) rewrite_types_concrete [OF d(2)]
    by (simp add: resolved_op.simps [of _ y] list_all_iff)
qed

lemma specialize_op_resolved:
  "specialize_op target depth x = Inr y \<Longrightarrow> resolved_op (target_id target) y"
proof (induction target depth x arbitrary: y rule: specialize_op.induct)
  case (1 target depth x)
  from "1.prems" obtain regions where r:
    "mapE (mapE (\<lambda>b. bindE (mapE (specialize_op target (Suc depth)) (block_ops b))
        (\<lambda>ops. Inr (Block (block_id b) (block_args b) ops)))) (op_regions x) = Inr regions"
    "specialize_op_here target (depth = 1) (set_regions regions x) = Inr y"
    unfolding specialize_op.simps [of _ _ x] by (auto elim: bindE_InrE)
  have "list_all (list_all (\<lambda>b. list_all (resolved_op (target_id target)) (block_ops b))) regions"
    using r(1)
  proof (rule mapE_all)
    fix blocks blocks'
    assume blocks: "blocks \<in> set (op_regions x)" "mapE (\<lambda>b. bindE (mapE (specialize_op target (Suc depth)) (block_ops b))
        (\<lambda>ops. Inr (Block (block_id b) (block_args b) ops))) blocks = Inr blocks'"
    from blocks(2) show "list_all (\<lambda>b. list_all (resolved_op (target_id target)) (block_ops b)) blocks'"
    proof (rule mapE_all)
      fix b b'
      assume b: "b \<in> set blocks" "bindE (mapE (specialize_op target (Suc depth)) (block_ops b))
        (\<lambda>ops. Inr (Block (block_id b) (block_args b) ops)) = Inr b'"
      then obtain ops where "mapE (specialize_op target (Suc depth)) (block_ops b) = Inr ops" "b' = Block (block_id b) (block_args b) ops"
        by (auto simp: bindE_Inr_iff)
      with blocks(1) b(1) "1.IH" show "list_all (resolved_op (target_id target)) (block_ops b')"
        by (auto intro: mapE_all)
    qed
  qed
  then have "list_all (list_all (\<lambda>b. list_all (resolved_op (target_id target)) (block_ops b)))
      (op_regions (set_regions regions x))" by (simp only: op_simps)
  with r(2) show ?case by (rule specialize_op_here_resolved)
qed

lemma dict_set_mem: "p \<in> set (dict_set k v d) \<Longrightarrow> p = (k, v) \<or> p \<in> set d"
  unfolding dict_set_def by (rule smap_put_mem)

lemma resolved_targetSet [simp]: "resolved_attr i (targetSet ts)"
  by (simp add: targetSet_def list_all_iff)

lemma specializeDomains_resolved:
  assumes "specializeDomains verifies m target = Inr m'"
  shows "resolved_op (target_id target) m'"
proof -
  from assms obtain selected concrete where c: "specialize_op target 0 selected = Inr concrete"
    "m' = set_attrs (dict_set ''sela.targets'' (targetSet [target_id target]) (op_attrs concrete)) concrete"
    unfolding specializeDomains_def Let_def by (auto elim!: bindE_InrE split: if_splits)
  have "resolved_op (target_id target) concrete" using c(1) by (rule specialize_op_resolved)
  then show ?thesis
    by (auto simp: c(2) resolved_op.simps [of _ concrete] resolved_op.simps [of _ "set_attrs _ concrete"]
        value_types_def list_all_iff dest: dict_set_mem)
qed

text \<open>The attribute list of an operation in key order, as MLIR keeps it.\<close>

lemma dict_set_get: "smap_wf d \<Longrightarrow> map_of (dict_set k v d) l = (if l = k then Some v else map_of d l)"
  by (simp add: dict_set_def smap_at_put)

lemma enumerate_as_map: "List.enumerate 0 xs = map (\<lambda>i. (i, xs ! i)) [0..<length xs]"
  by (rule nth_equalityI) (simp_all add: nth_enumerate_eq)

lemma enumerate_filter_nth:
  "map snd (filter (\<lambda>p. P (fst p)) (List.enumerate 0 xs)) = map ((!) xs) (filter P [0..<length xs])"
  by (simp add: enumerate_as_map filter_map comp_def)

lemma segments_length [simp]: "length (segments cs xs) = length cs"
  by (induction cs arbitrary: xs) auto

lemma dict_erase_wf: "smap_wf d \<Longrightarrow> smap_wf (dict_erase k d)"
  unfolding smap_wf_def dict_erase_def by (induction d) auto

lemma specialize_switch_edges:
  assumes "specialize_switch targets selected bd b x = Inr y"
    and "op_get as_array x ''cases'' = Some cases" "op_get as_i32s x ''argument_counts'' = Some counts"
    and "smap_wf (op_attrs x)"
  shows "\<exists>kept. kept = filter (edge_active targets selected (Option.bind (op_attr x ''case_domains'') as_array)) [0..<length counts] \<and>
    op_succs y = map ((!) (op_succs x)) kept \<and>
    op_get as_array y ''cases'' = Some (map (\<lambda>i. cases ! (i - 1)) (filter (\<lambda>i. i \<noteq> 0) kept)) \<and>
    op_get as_i32s y ''argument_counts'' = Some (map ((!) counts) kept) \<and>
    op_operands y = hd (op_operands x) # concat (map ((!) (segments counts (drop 1 (op_operands x)))) kept)"
proof -
  let ?cd = "Option.bind (op_attr x ''case_domains'') as_array"
  let ?start = "\<lparr>sw_offset = 1, sw_cases = [], sw_counts = [], sw_succs = [], sw_operands = [hd (op_operands x)]\<rparr>"
  from assms(1-3) obtain s where s:
    "foldE (switch_edge targets selected bd b x cases ?cd) (List.enumerate 0 counts) ?start = Inr s"
    "y = Op (op_name x) (dict_set ''argument_counts'' (DenseI32A (sw_counts s))
            (dict_set ''cases'' (ArrayA (sw_cases s)) (dict_erase ''case_domains'' (op_attrs x))))
          (sw_operands s) [] (sw_succs s) [] (op_unknown_loc x)"
    unfolding specialize_switch_def Let_def by (auto elim!: bindE_InrE split: if_splits)
  note edges = switch_edges_Inr [OF s(1)]
  have wf: "smap_wf (dict_erase ''case_domains'' (op_attrs x))"
    using assms(4) by (rule dict_erase_wf)
  then have wf2: "smap_wf (dict_set ''cases'' v (dict_erase ''case_domains'' (op_attrs x)))" for v
    by (simp add: dict_set_def smap_put_wf)
  have "op_succs y = map ((!) (op_succs x)) (filter (edge_active targets selected ?cd) [0..<length counts])"
    using edges(2) by (simp add: s(2))
  moreover have "op_get as_array y ''cases'' = Some (map (\<lambda>i. cases ! (i - 1)) (filter (\<lambda>i. i \<noteq> 0)
      (filter (edge_active targets selected ?cd) [0..<length counts])))"
    using edges(1) by (simp add: s(2) op_get_def get_as_def dict_set_get [OF wf2] dict_set_get [OF wf])
  moreover have "op_get as_i32s y ''argument_counts'' = Some (map ((!) counts) (filter (edge_active targets selected ?cd) [0..<length counts]))"
    using edges(3) by (simp add: s(2) op_get_def get_as_def dict_set_get [OF wf2] enumerate_filter_nth)
  moreover have "op_operands y = hd (op_operands x) # concat (map ((!) (segments counts (drop 1 (op_operands x))))
      (filter (edge_active targets selected ?cd) [0..<length counts]))"
    using edges(4) by (simp add: s(2) enumerate_filter_nth)
  ultimately show ?thesis by blast
qed
end
