(* ===== verification/Instructions.thy ===== *)
theory Instructions
  imports Artifact Domains
begin

text \<open>
  The registry of Sela intrinsics (\<open>src/ir/Intrinsics.cpp\<close>) and the contracts of loop options and
  extended instructions (\<open>src/ir/InstructionContracts.cpp\<close>). LLVM's inline-assembly constraint parser
  is a parameter.
\<close>

section \<open>Intrinsics\<close>

datatype IntrinsicOverload = OverloadNone | OverloadResult | OverloadFirstOperand
datatype IntrinsicEffects = Pure | Assumption | Prefetch

text \<open>An LLVM intrinsic identity is its enumerator's name.\<close>

record IntrinsicSpec =
  in_name :: string
  in_llvmID :: string
  in_overload :: IntrinsicOverload
  in_operands :: nat
  in_effects :: IntrinsicEffects
  in_backend :: string

definition spec ::
  "string \<Rightarrow> string \<Rightarrow> IntrinsicOverload \<Rightarrow> nat \<Rightarrow> IntrinsicEffects \<Rightarrow> string \<Rightarrow> IntrinsicSpec" where
  "spec n i v k e b = \<lparr>in_name = n, in_llvmID = i, in_overload = v, in_operands = k, in_effects = e, in_backend = b\<rparr>"

definition intrinsicRegistry :: "IntrinsicSpec list" where
  "intrinsicRegistry = [
    spec ''assume'' ''assume'' OverloadNone 1 Assumption [],
    spec ''expect'' ''expect'' OverloadResult 2 Pure [],
    spec ''prefetch'' ''prefetch'' OverloadFirstOperand 4 Prefetch [],
    spec ''funnel_shift_left'' ''fshl'' OverloadResult 3 Pure [],
    spec ''funnel_shift_right'' ''fshr'' OverloadResult 3 Pure [],
    spec ''unsigned_min'' ''umin'' OverloadResult 2 Pure [],
    spec ''unsigned_max'' ''umax'' OverloadResult 2 Pure [],
    spec ''signed_min'' ''smin'' OverloadResult 2 Pure [],
    spec ''signed_max'' ''smax'' OverloadResult 2 Pure [],
    spec ''count_leading_zeros'' ''ctlz'' OverloadResult 2 Pure [],
    spec ''count_trailing_zeros'' ''cttz'' OverloadResult 2 Pure [],
    spec ''population_count'' ''ctpop'' OverloadResult 1 Pure [],
    spec ''reverse_bits'' ''bitreverse'' OverloadResult 1 Pure [],
    spec ''vector_reduce_add'' ''vector_reduce_add'' OverloadFirstOperand 1 Pure [],
    spec ''vector_reduce_multiply'' ''vector_reduce_mul'' OverloadFirstOperand 1 Pure [],
    spec ''vector_reduce_and'' ''vector_reduce_and'' OverloadFirstOperand 1 Pure [],
    spec ''vector_reduce_or'' ''vector_reduce_or'' OverloadFirstOperand 1 Pure [],
    spec ''vector_reduce_xor'' ''vector_reduce_xor'' OverloadFirstOperand 1 Pure [],
    spec ''unsigned_add_overflow'' ''uadd_with_overflow'' OverloadFirstOperand 2 Pure [],
    spec ''unsigned_subtract_overflow'' ''usub_with_overflow'' OverloadFirstOperand 2 Pure [],
    spec ''unsigned_multiply_overflow'' ''umul_with_overflow'' OverloadFirstOperand 2 Pure [],
    spec ''signed_add_overflow'' ''sadd_with_overflow'' OverloadFirstOperand 2 Pure [],
    spec ''signed_subtract_overflow'' ''ssub_with_overflow'' OverloadFirstOperand 2 Pure [],
    spec ''signed_multiply_overflow'' ''smul_with_overflow'' OverloadFirstOperand 2 Pure [],
    spec ''x86_ternary_logic_i32x16'' ''x86_avx512_pternlog_d_512'' OverloadNone 4 Pure ''X86'',
    spec ''x86_sse2_shift_right_i64x2'' ''x86_sse2_psrli_q'' OverloadNone 2 Pure ''X86'',
    spec ''x86_sse2_shift_left_i64x2'' ''x86_sse2_pslli_q'' OverloadNone 2 Pure ''X86'',
    spec ''x86_avx2_shift_right_i64x4'' ''x86_avx2_psrli_q'' OverloadNone 2 Pure ''X86'',
    spec ''x86_avx2_shift_left_i64x4'' ''x86_avx2_pslli_q'' OverloadNone 2 Pure ''X86'',
    spec ''x86_avx512_shift_right_i64x8'' ''x86_avx512_psrli_q_512'' OverloadNone 2 Pure ''X86'',
    spec ''x86_avx512_shift_left_i64x8'' ''x86_avx512_pslli_q_512'' OverloadNone 2 Pure ''X86'',
    spec ''aarch64_unsigned_widening_multiply'' ''aarch64_neon_umull'' OverloadResult 2 Pure ''AArch64'']"

definition findIntrinsic :: "string \<Rightarrow> IntrinsicSpec option" where
  "findIntrinsic name = List.find (\<lambda>e. in_name e = name) intrinsicRegistry"

definition findIntrinsicId :: "string \<Rightarrow> IntrinsicSpec option" where
  "findIntrinsicId i = List.find (\<lambda>e. in_llvmID e = i) intrinsicRegistry"

section \<open>Loop options\<close>

definition validateLoopOption :: "attr \<Rightarrow> unit expected" where
  "validateLoopOption option =
     (case option of
        StringA name \<Rightarrow>
          if name = ''llvm.loop.mustprogress'' \<or> name = ''llvm.loop.unroll.disable'' \<or> name = ''llvm.loop.unroll.enable''
          then success else Inl ''unknown loop semantic option''
      | DictA entry \<Rightarrow>
          (case (get_as as_string entry ''name'', get_as as_integer entry ''value'') of
             (Some name, Some number) \<Rightarrow>
               if length entry = 2 \<and> fst number = 32 \<and> get_int number > 0 \<and> get_int number \<le> 65536 \<and>
                  (name = ''llvm.loop.vectorize.width'' \<or> name = ''llvm.loop.interleave.count'' \<or>
                   name = ''llvm.loop.unroll.count'')
               then success else Inl ''unknown loop semantic option''
           | _ \<Rightarrow> Inl ''unknown loop semantic option'')
      | _ \<Rightarrow> Inl ''unknown loop semantic option'')"

section \<open>Extended instructions\<close>

text \<open>
  What a contract sees of the rest of the module: the type and the defining operation of a value,
  the argument types of a block, and the target identities of the enclosing module.
\<close>

record ir_context =
  cx_type :: "nat \<Rightarrow> sty option"
  cx_def :: "nat \<Rightarrow> op option"
  cx_block :: "nat \<Rightarrow> (nat \<times> sty \<times> bool) list"
  cx_targets :: "string list expected"

record asm_constraint =
  ac_hasArg :: bool
  ac_output :: bool
  ac_label :: bool
  ac_indirect :: bool

fun element_type :: "sty \<Rightarrow> sty" where
  "element_type (VectorT s shape e) = e"
| "element_type t = t"

fun is_integer :: "sty \<Rightarrow> bool" where
  "is_integer (IntegerT w) = True"
| "is_integer _ = False"

definition integer_type :: "sty option \<Rightarrow> bool" where
  "integer_type t = (case t of None \<Rightarrow> False | Some t \<Rightarrow> is_integer (element_type t))"

fun as_vector :: "sty \<Rightarrow> (bool \<times> nat list \<times> sty) option" where
  "as_vector (VectorT s shape e) = Some (s, shape, e)"
| "as_vector _ = None"

definition immediate :: "ir_context \<Rightarrow> nat \<Rightarrow> (nat \<times> nat) option" where
  "immediate cx v =
     (case cx_def cx v of
        None \<Rightarrow> None
      | Some d \<Rightarrow> if op_name d = ''sela.constant'' then op_get as_integer d ''value'' else None)"

text \<open>\<open>APInt::sextOrTrunc\<close> on the zero-extended value.\<close>

definition sext_or_trunc :: "nat \<Rightarrow> nat \<times> nat \<Rightarrow> nat" where
  "sext_or_trunc width p =
     (case p of (w, n) \<Rightarrow>
        if width \<le> w then n mod 2 ^ width
        else if w > 0 \<and> n \<ge> 2 ^ (w - 1) then n + (2 ^ width - 2 ^ w) else n)"

definition immediateIn :: "ir_context \<Rightarrow> nat \<Rightarrow> nat \<Rightarrow> bool" where
  "immediateIn cx v maximum =
     (case (immediate cx v, cx_type cx v) of
        (Some number, Some (IntegerT w)) \<Rightarrow>
          sext_or_trunc w number < 2 ^ 64 \<and> sext_or_trunc w number \<le> maximum
      | _ \<Rightarrow> False)"

definition num_elements :: "attr \<Rightarrow> nat" where
  "num_elements count = (case count of IntegerA w n \<Rightarrow> n | _ \<Rightarrow> 0)"

fun indexed_from :: "sty \<Rightarrow> int list \<Rightarrow> sty option" where
  "indexed_from t [] = Some t"
| "indexed_from t (i # is) =
     (if i < 0 then None
      else case t of
        RecordT s p members \<Rightarrow> if nat i \<ge> length members then None else indexed_from (members ! nat i) is
      | ArrayT e count \<Rightarrow> if nat i \<ge> num_elements count then None else indexed_from e is
      | _ \<Rightarrow> None)"

definition indexedType :: "sty option \<Rightarrow> int list option \<Rightarrow> sty option" where
  "indexedType t indices =
     (case (t, indices) of
        (Some t, Some is) \<Rightarrow> if is = [] then None else indexed_from t is
      | _ \<Rightarrow> None)"

definition operand_type :: "ir_context \<Rightarrow> op \<Rightarrow> nat \<Rightarrow> sty option" where
  "operand_type cx x i = (if i < length (op_operands x) then cx_type cx (op_operands x ! i) else None)"

definition result_type :: "op \<Rightarrow> sty option" where
  "result_type x = (case op_results x of [] \<Rightarrow> None | (v, t) # _ \<Rightarrow> Some t)"

definition aggregate_contract :: "ir_context \<Rightarrow> op \<Rightarrow> unit expected" where
  "aggregate_contract cx x =
     (let insert = (op_name x = ''sela.insert_value'') in
      if length (op_operands x) \<noteq> (if insert then 2 else 1) \<or> length (op_results x) \<noteq> 1
      then Inl ''invalid aggregate SSA arity''
      else
        let selected = indexedType (operand_type cx x 0) (op_get as_i32s x ''indices'') in
        if selected = None \<or> selected \<noteq> (if insert then operand_type cx x 1 else result_type x) \<or>
           (insert \<and> result_type x \<noteq> operand_type cx x 0)
        then Inl ''invalid aggregate SSA index or type''
        else success)"

definition element_contract :: "ir_context \<Rightarrow> op \<Rightarrow> unit expected" where
  "element_contract cx x =
     (let insert = (op_name x = ''sela.insert_element'') in
      if length (op_operands x) \<noteq> (if insert then 3 else 2) \<or> length (op_results x) \<noteq> 1
      then Inl ''invalid vector element arity''
      else case Option.bind (operand_type cx x 0) as_vector of
        None \<Rightarrow> Inl ''invalid vector element types''
      | Some (s, shape, e) \<Rightarrow>
          if \<not> (case operand_type cx x (if insert then 2 else 1) of Some t \<Rightarrow> is_integer t | None \<Rightarrow> False) \<or>
             Some e \<noteq> (if insert then operand_type cx x 1 else result_type x) \<or>
             (insert \<and> operand_type cx x 0 \<noteq> result_type x)
          then Inl ''invalid vector element types'' else success)"

definition shuffle_contract :: "ir_context \<Rightarrow> op \<Rightarrow> unit expected" where
  "shuffle_contract cx x =
     (if length (op_operands x) \<noteq> 2 \<or> length (op_results x) \<noteq> 1 then Inl ''invalid vector shuffle arity''
      else case (Option.bind (operand_type cx x 0) as_vector, Option.bind (result_type x) as_vector,
                 op_get as_i32s x ''mask'') of
        (Some (s1, shape1, e1), Some (s2, shape2, e2), Some lanes) \<Rightarrow>
          if operand_type cx x 0 \<noteq> operand_type cx x 1 \<or> e1 \<noteq> e2 \<or> length lanes \<noteq> prod_list shape2
          then Inl ''invalid vector shuffle types or mask length''
          else if list_ex (\<lambda>lane. lane < -1 \<or> lane \<ge> int (prod_list shape1) * 2) lanes
          then Inl ''invalid vector shuffle lane''
          else success
      | _ \<Rightarrow> Inl ''invalid vector shuffle types or mask length'')"

text \<open>One edge of an assembly branch; the state is the operand offset.\<close>

definition asm_edge :: "ir_context \<Rightarrow> op \<Rightarrow> nat \<times> int \<Rightarrow> nat \<Rightarrow> nat expected" where
  "asm_edge cx x e offset =
     (case e of (index, count) \<Rightarrow>
        let arguments = cx_block cx (op_succs x ! index) in
        if count < 0 \<or> nat count > length (op_operands x) - offset \<or> nat count \<noteq> length arguments
        then Inl ''invalid assembly branch edge arguments''
        else if list_ex (\<lambda>i. operand_type cx x (offset + i) \<noteq> Some (fst (snd (arguments ! i)))) [0..<nat count]
        then Inl ''assembly branch edge type mismatch''
        else Inr (offset + nat count))"

text \<open>The number of operands that are assembly arguments, after checking the edges of a branch.\<close>

definition asm_argument_count :: "ir_context \<Rightarrow> op \<Rightarrow> nat expected" where
  "asm_argument_count cx x =
     (if op_name x = ''sela.inline_asm_br'' then
        (case (op_get as_integer x ''argument_count'', op_get as_i32s x ''argument_counts'') of
           (Some arguments, Some counts) \<Rightarrow>
             if fst arguments > 64 \<or> get_int arguments < 0 \<or> nat (get_int arguments) > length (op_operands x) \<or>
                length counts \<noteq> length (op_succs x) \<or> length (op_succs x) < 2
             then Inl ''invalid assembly branch argument inventory''
             else
               bindE (foldE (asm_edge cx x) (List.enumerate 0 counts) (nat (get_int arguments))) (\<lambda>offset.
                 if offset \<noteq> length (op_operands x) then Inl ''undeclared assembly branch edge operands''
                 else Inr (nat (get_int arguments)))
         | _ \<Rightarrow> Inl ''invalid assembly branch argument inventory'')
      else if op_succs x \<noteq> [] then Inl ''ordinary inline assembly cannot have successors''
      else Inr (length (op_operands x)))"

definition asm_contract :: "(string \<Rightarrow> asm_constraint list) \<Rightarrow> ir_context \<Rightarrow> op \<Rightarrow> unit expected" where
  "asm_contract parse_constraints cx x =
     bindE (asm_argument_count cx x) (\<lambda>argumentCount.
     case (op_get as_string x ''template'', op_get as_string x ''constraints'', op_get as_string x ''backend'',
           op_get as_string x ''dialect'', op_get as_integer x ''tail'') of
       (Some text, Some constraints, Some backend, Some dialect, Some tail) \<Rightarrow>
         if length (op_results x) > 1 \<or> (dialect \<noteq> ''att'' \<and> dialect \<noteq> ''intel'') \<or>
            fst tail > 64 \<or> get_int tail < 0 \<or> get_int tail > 3 \<or>
            length text > 1024 * 1024 \<or> length constraints > 65536 \<or>
            CHR 0x00 \<in> set text \<or> CHR 0x00 \<in> set constraints
         then Inl ''invalid inline assembly record''
         else
           bindE (forE (\<lambda>name. if op_get as_bool x name = None then Inl ''invalid inline assembly effect flag''
                              else success) [''side_effects'', ''align_stack'', ''can_throw'']) (\<lambda>_.
           bindE (cx_targets cx) (\<lambda>targets.
           bindE (forE (\<lambda>t. if map_option llvmBackend (targets_find t) \<noteq> Some backend
                           then Inl ''inline assembly is outside its target backend domain'' else success) targets) (\<lambda>_.
           let parsed = parse_constraints constraints;
               arguments = length (filter ac_hasArg parsed);
               outputs = length (filter (\<lambda>c. ac_output c \<and> \<not> ac_indirect c) parsed);
               labels = length (filter ac_label parsed);
               results = (case result_type x of
                            Some (RecordT s p members) \<Rightarrow> length members
                          | _ \<Rightarrow> length (op_results x));
               branch = (op_name x = ''sela.inline_asm_br'')
           in
             if parsed = [] \<and> constraints \<noteq> [] then Inl ''invalid inline assembly constraints''
             else if arguments \<noteq> argumentCount \<or> outputs \<noteq> results \<or>
                     labels \<noteq> (if branch then length (op_succs x) - 1 else 0) \<or> (branch \<and> get_int tail \<noteq> 0)
             then Inl ''inline assembly constraint arity mismatch''
             else success)))
     | _ \<Rightarrow> Inl ''invalid inline assembly record'')"

definition ends_with :: "string \<Rightarrow> string \<Rightarrow> bool" where
  "ends_with post s \<longleftrightarrow> length post \<le> length s \<and> drop (length s - length post) s = post"

definition same_arguments :: "ir_context \<Rightarrow> op \<Rightarrow> nat \<Rightarrow> bool" where
  "same_arguments cx x count \<longleftrightarrow> list_all (\<lambda>i. operand_type cx x i = operand_type cx x 0) [1..<count]"

definition check_or :: "string \<Rightarrow> bool \<Rightarrow> unit expected" where
  "check_or message ok = (if ok then success else Inl message)"

definition overflow_signature :: "sty option \<Rightarrow> sty option \<Rightarrow> bool" where
  "overflow_signature first result \<longleftrightarrow>
     (case (first, result) of
        (Some f, Some (RecordT s packed members)) \<Rightarrow>
          \<not> packed \<and> length members = 2 \<and> members ! 0 = f \<and>
          members ! 1 = (case as_vector f of Some (_, shape, _) \<Rightarrow> VectorT False shape (IntegerT 1) | None \<Rightarrow> IntegerT 1)
      | _ \<Rightarrow> False)"

definition shift_signature :: "string \<Rightarrow> ir_context \<Rightarrow> op \<Rightarrow> bool" where
  "shift_signature key cx x \<longleftrightarrow>
     (case Option.bind (operand_type cx x 0) as_vector of
        Some (_, shape, IntegerT w) \<Rightarrow>
          prod_list shape = (if starts_with ''x86_sse2_'' key then 2 else if starts_with ''x86_avx2_'' key then 4 else 8) \<and>
          w = 64 \<and> result_type x = operand_type cx x 0 \<and> operand_type cx x 1 = Some (IntegerT 32)
      | _ \<Rightarrow> False)"

definition widening_signature :: "ir_context \<Rightarrow> op \<Rightarrow> bool" where
  "widening_signature cx x \<longleftrightarrow>
     (case (Option.bind (operand_type cx x 0) as_vector, Option.bind (result_type x) as_vector) of
        (Some (_, shape1, IntegerT w1), Some (_, shape2, IntegerT w2)) \<Rightarrow>
          same_arguments cx x 2 \<and> prod_list shape1 = prod_list shape2 \<and> w1 * 2 = w2 \<and> prod_list shape2 * w2 = 128
      | _ \<Rightarrow> False)"

definition intrinsic_contract :: "ir_context \<Rightarrow> op \<Rightarrow> unit expected" where
  "intrinsic_contract cx x =
     (case Option.bind (op_get as_string x ''name'') findIntrinsic of
        None \<Rightarrow> Inl ''unknown or malformed registered Sela intrinsic''
      | Some found \<Rightarrow>
          if length (op_operands x) \<noteq> in_operands found \<or> length (op_results x) > 1
          then Inl ''unknown or malformed registered Sela intrinsic''
          else
            let first = operand_type cx x 0; result = result_type x; key = in_name found;
                arg = (\<lambda>i. op_operands x ! i)
            in
              if key = ''assume'' then
                check_or ''assume requires an i1 and no result'' (first = Some (IntegerT 1) \<and> result = None)
              else if key = ''prefetch'' then
                check_or ''invalid prefetch signature or immediate''
                  (first = Some PointerT \<and> result = None \<and>
                   operand_type cx x 1 = Some (IntegerT 32) \<and> operand_type cx x 2 = Some (IntegerT 32) \<and>
                   operand_type cx x 3 = Some (IntegerT 32) \<and>
                   immediateIn cx (arg 1) 1 \<and> immediateIn cx (arg 2) 3 \<and> immediateIn cx (arg 3) 1)
              else if starts_with ''vector_reduce_'' key then
                check_or ''invalid vector reduction signature''
                  (integer_type first \<and>
                   (case Option.bind first as_vector of Some (_, _, e) \<Rightarrow> result = Some e | None \<Rightarrow> False))
              else if ends_with ''_overflow'' key then
                check_or ''invalid arithmetic overflow signature''
                  (integer_type first \<and> same_arguments cx x 2 \<and> overflow_signature first result)
              else if starts_with ''x86_'' key \<and> (contains_sub ''_shift_right_'' key \<or> contains_sub ''_shift_left_'' key) then
                check_or ''invalid SSE2 shift signature'' (shift_signature key cx x)
              else if key = ''aarch64_unsigned_widening_multiply'' then
                check_or ''invalid AArch64 widening multiply signature'' (widening_signature cx x)
              else if key = ''x86_ternary_logic_i32x16'' then
                check_or ''invalid x86 ternary logic signature or immediate''
                  ((case Option.bind first as_vector of
                      Some (_, shape, e) \<Rightarrow> prod_list shape = 16 \<and> e = IntegerT 32 | None \<Rightarrow> False) \<and>
                   same_arguments cx x 3 \<and> result = first \<and> operand_type cx x 3 = Some (IntegerT 32) \<and>
                   immediateIn cx (arg 3) 255)
              else if key = ''count_leading_zeros'' \<or> key = ''count_trailing_zeros'' then
                check_or ''invalid zero-count signature or immediate''
                  (integer_type first \<and> first = result \<and> operand_type cx x 1 = Some (IntegerT 1) \<and>
                   immediateIn cx (arg 1) 1)
              else if \<not> integer_type first \<or> first \<noteq> result \<or> \<not> same_arguments cx x (in_operands found)
              then Inl ''invalid integer intrinsic signature''
              else check_or ''expect requires a constant expected value''
                     (key = ''expect'' \<longrightarrow> immediate cx (arg 1) \<noteq> None))"

definition validateExtendedInstruction ::
  "(string \<Rightarrow> asm_constraint list) \<Rightarrow> ir_context \<Rightarrow> op \<Rightarrow> unit expected" where
  "validateExtendedInstruction parse_constraints cx x =
     (if op_name x = ''sela.extract_value'' \<or> op_name x = ''sela.insert_value'' then aggregate_contract cx x
      else if op_name x = ''sela.extract_element'' \<or> op_name x = ''sela.insert_element'' then element_contract cx x
      else if op_name x = ''sela.shuffle'' then shuffle_contract cx x
      else if op_name x = ''sela.inline_asm'' \<or> op_name x = ''sela.inline_asm_br'' then asm_contract parse_constraints cx x
      else if op_name x = ''sela.intrinsic'' then intrinsic_contract cx x
      else success)"

end
