(* ===== verification/Schema.thy ===== *)
theory Schema
  imports Instructions Specialization
begin

text \<open>
  Structural admission of a module (\<open>src/ir/Compiler.cpp\<close>): initializers, attribute lists, public
  types, the closed schema, and the entry points built on them. What the code asks LLVM about
  attribute kinds, opcodes and predicates is a parameter.
\<close>

section \<open>Literals and initializers\<close>

definition publicInteger :: "attr option \<Rightarrow> nat expected" where
  "publicInteger a =
     (case Option.bind a as_integer of
        Some (w, n) \<Rightarrow> if w \<le> 64 then Inr n else Inl ''invalid specialized public integer expression''
      | None \<Rightarrow> Inl ''invalid specialized public integer expression'')"

definition configurationAttribute :: "string \<Rightarrow> bool" where
  "configurationAttribute name \<longleftrightarrow>
     name = ''target-cpu'' \<or> name = ''target-features'' \<or> name = ''tune-cpu'' \<or> name = ''min-legal-vector-width''"

text \<open>\<open>pureLiteral\<close> is the same function as \<open>literalTail\<close> of the domain validation.\<close>

function pureLiteral :: "attr \<Rightarrow> bool" where
  "pureLiteral a =
     (case a of
        IntegerA w n \<Rightarrow> True
      | FloatA type n \<Rightarrow> type = F32T \<or> type = F64T
      | StringA text \<Rightarrow> text = ''zero'' \<or> text = ''null''
      | ArrayA elements \<Rightarrow> length elements \<le> 1024 * 1024 \<and> list_all pureLiteral elements
      | _ \<Rightarrow> False)"
  by pat_completeness auto
termination
  by (relation "measure size") (auto simp del: attr.size intro: size_array_mem)

declare pureLiteral.simps [simp del]

definition check_index :: "attr \<Rightarrow> unit expected" where
  "check_index index =
     (case as_dict index of
        None \<Rightarrow> Inl ''invalid public address index record''
      | Some entry \<Rightarrow>
          if length entry \<noteq> 2 \<or> get_as as_type entry ''type'' = None
          then Inl ''invalid public address index record''
          else bindE (publicInteger (map_of entry ''value'')) (\<lambda>_. success))"

definition gep_record :: "dict \<Rightarrow> bool" where
  "gep_record d \<longleftrightarrow> length d = 5 \<and> get_as as_string d ''op'' = Some ''gep'' \<and> get_as as_array d ''indices'' \<noteq> None \<and>
     get_as as_type d ''element'' \<noteq> None \<and> get_as as_bool d ''inbounds'' \<noteq> None"

function validateInitializer :: "attr option \<Rightarrow> nat \<Rightarrow> unit expected" where
  "validateInitializer input depth =
     (case input of
        None \<Rightarrow> Inl ''invalid or excessively nested public initializer''
      | Some a \<Rightarrow>
          if depth > 64 then Inl ''invalid or excessively nested public initializer''
          else case a of
            IntegerA w n \<Rightarrow> success
          | FloatA type n \<Rightarrow>
              if type = F32T \<or> type = F64T then success else Inl ''unknown public initializer expression''
          | StringA text \<Rightarrow>
              if text \<in> {''zero'', ''undef'', ''poison'', ''null'', ''pointer_bytes''} then success
              else Inl ''unknown public initializer expression''
          | ArrayA elements \<Rightarrow>
              if length elements > 1024 * 1024 then Inl ''oversized public initializer inventory''
              else forE (\<lambda>e. validateInitializer (Some e) (depth + 1)) elements
          | DictA d \<Rightarrow>
              if length d = 1 \<and> get_as as_string d ''symbol'' \<noteq> None then success
              else if length d = 2 \<and> get_as as_array d ''array'' \<noteq> None \<and> map_of d ''count'' \<noteq> None
              then validateInitializer (map_of d ''array'') (depth + 1)
              else if gep_record d then
                bindE (validateInitializer (map_of d ''base'') (depth + 1)) (\<lambda>_.
                  forE check_index (case get_as as_array d ''indices'' of Some is \<Rightarrow> is | None \<Rightarrow> []))
              else Inl ''unknown public initializer expression''
          | _ \<Rightarrow> Inl ''unknown public initializer expression'')"
  by pat_completeness auto

termination
proof (relation "measure (\<lambda>(a, depth). case a of None \<Rightarrow> 0 | Some x \<Rightarrow> Suc (size x))")
  fix input depth a xs e
  assume "input = Some a" "a = ArrayA xs" "e \<in> set xs"
  then show "((Some e, depth + 1), input, depth) \<in> measure (\<lambda>(a, depth). case a of None \<Rightarrow> 0 | Some x \<Rightarrow> Suc (size x))"
    using size_array_mem [of e xs] by simp
next
  fix input depth a d
  assume "input = Some a" "a = DictA d"
  then show "((map_of d ''array'', depth + 1), input, depth) \<in> measure (\<lambda>(a, depth). case a of None \<Rightarrow> 0 | Some x \<Rightarrow> Suc (size x))"
    using size_dict_get [of d "''array''"] by (auto simp del: attr.size split: option.splits)
next
  fix input depth a d
  assume "input = Some a" "a = DictA d"
  then show "((map_of d ''base'', depth + 1), input, depth) \<in> measure (\<lambda>(a, depth). case a of None \<Rightarrow> 0 | Some x \<Rightarrow> Suc (size x))"
    using size_dict_get [of d "''base''"] by (auto simp del: attr.size split: option.splits)
qed simp

declare validateInitializer.simps [simp del]

text \<open>\<open>APInt::isIntN\<close> and \<open>APInt::isSignedIntN\<close> on a \<open>w\<close>-bit value.\<close>

definition fits_width :: "nat \<times> nat \<Rightarrow> nat \<Rightarrow> bool" where
  "fits_width p width \<longleftrightarrow>
     (snd p < 2 ^ width) \<or> (- (2 ^ (width - 1)) \<le> get_int p \<and> get_int p < 2 ^ (width - 1))"

definition array_shape :: "sty \<Rightarrow> (sty \<times> nat) option" where
  "array_shape t = (case t of ArrayT e c \<Rightarrow> Some (e, num_elements c) | _ \<Rightarrow> None)"

lemma dict_array_mem_size:
  "map_of d k = Some (ArrayA xs) \<Longrightarrow> x \<in> set xs \<Longrightarrow> size x < size (DictA d)"
  using size_dict_get [of d k "ArrayA xs"] size_array_mem [of x xs] by simp

function validateInitializerShape :: "sty \<Rightarrow> attr \<Rightarrow> nat \<Rightarrow> unit expected" where
  "validateInitializerShape type a depth =
     (if depth > 64 then Inl ''public initializer shape nesting exceeds the qualified bound''
      else if (case (type, a) of (IntegerT width, IntegerA w n) \<Rightarrow> \<not> fits_width (w, n) width | _ \<Rightarrow> False)
      then Inl ''integer initializer does not fit its public result type''
      else case a of
        DictA d \<Rightarrow>
          (case get_as as_array d ''array'' of
             None \<Rightarrow> success
           | Some explicit \<Rightarrow>
               (case publicInteger (map_of d ''count'') of
                  Inl _ \<Rightarrow> Inl ''invalid public array initializer count''
                | Inr n \<Rightarrow>
                    (case array_shape type of
                       None \<Rightarrow> Inl ''array initializer and storage extents disagree in a qualified target''
                     | Some (element, extent) \<Rightarrow>
                         if extent \<noteq> n then Inl ''array initializer and storage extents disagree in a qualified target''
                         else forE (\<lambda>e. validateInitializerShape element e (depth + 1)) explicit)))
      | ArrayA elements \<Rightarrow>
          (case type of
             ArrayT element count \<Rightarrow>
               if length elements \<noteq> num_elements count
               then Inl ''literal array initializer requires matching extents in both qualified targets''
               else forE (\<lambda>e. validateInitializerShape element e (depth + 1)) elements
           | RecordT i packed members \<Rightarrow>
               if length elements \<noteq> length members then Inl ''public record initializer field count mismatch''
               else forE (\<lambda>(t, e). validateInitializerShape t e (depth + 1)) (zip members elements)
           | VectorT scalable shape element \<Rightarrow>
               if length elements \<noteq> prod_list shape then Inl ''vector initializer lane count mismatch''
               else forE (\<lambda>e. validateInitializerShape element e (depth + 1)) elements
           | OverlapT i alternatives domains \<Rightarrow>
               if length elements = 1 then success
               else Inl ''aggregate initializer does not match a public storage type''
           | _ \<Rightarrow> Inl ''aggregate initializer does not match a public storage type'')
      | _ \<Rightarrow> success)"
  by pat_completeness auto

termination
  by (relation "measure (\<lambda>(type, a, depth). size a)")
    (auto simp del: attr.size simp: get_as_Some intro: size_array_mem dict_array_mem_size dest: set_zip_rightD)

declare validateInitializerShape.simps [simp del]

section \<open>Attribute lists\<close>

text \<open>
  LLVM's attribute kinds, as far as the code names them; \<open>getAttrKindFromName\<close> and the kind
  predicates are LLVM's, like the opcode and predicate tables.
\<close>

datatype attr_kind =
    KindNone | UWTable | Memory | AllocSize | Alignment | StackAlignment | Dereferenceable
  | DereferenceableOrNull | OtherKind string

record llvm_api =
  getAttrKindFromName :: "string \<Rightarrow> attr_kind"
  isTypeAttrKind :: "attr_kind \<Rightarrow> bool"
  isIntAttrKind :: "attr_kind \<Rightarrow> bool"
  isEnumAttrKind :: "attr_kind \<Rightarrow> bool"
  binaryOpcodes :: "string list"
  isPossiblyExactOpcode :: "string \<Rightarrow> bool"
  isComparePredicate :: "nat \<Rightarrow> bool"
  parseConstraints :: "string \<Rightarrow> asm_constraint list"

definition power_of_two :: "nat \<Rightarrow> bool" where
  "power_of_two n \<longleftrightarrow> list_ex (\<lambda>k. n = 2 ^ k) [0..<64]"

definition integer_attribute_ok :: "attr_kind \<Rightarrow> nat \<Rightarrow> bool" where
  "integer_attribute_ok kind number \<longleftrightarrow>
     (kind = UWTable \<and> number \<ge> 1 \<and> number \<le> 2) \<or>
     (kind = Memory \<and> number \<le> 63) \<or> kind = AllocSize \<or>
     ((kind = Alignment \<or> kind = StackAlignment) \<and> number \<noteq> 0 \<and> number \<le> 2 ^ 29 \<and> power_of_two number) \<or>
     kind = Dereferenceable \<or> kind = DereferenceableOrNull"

definition check_abi_attribute :: "llvm_api \<Rightarrow> attr \<Rightarrow> unit expected" where
  "check_abi_attribute api a =
     (case Option.bind (as_dict a) (\<lambda>d. map_option (\<lambda>name. (d, name)) (get_as as_string d ''name'')) of
        None \<Rightarrow> Inl ''invalid or ambiguous public ABI attribute''
      | Some (d, name) \<Rightarrow>
          if length (filter (\<lambda>k. map_of d k \<noteq> None) [''integer'', ''string'', ''type'']) > 1
          then Inl ''invalid or ambiguous public ABI attribute''
          else if list_ex (\<lambda>f. fst f \<notin> {''name'', ''integer'', ''string'', ''type''}) d
          then Inl ''unknown public ABI attribute record field''
          else (case map_of d ''string'' of
            Some raw \<Rightarrow>
              check_or ''unsupported public string code-generation attribute''
                (as_string raw \<noteq> None \<and> \<not> configurationAttribute name \<and>
                 (name = ''no-trapping-math'' \<or> name = ''stack-protector-buffer-size'' \<or> name = ''frame-pointer''))
          | None \<Rightarrow>
              let kind = getAttrKindFromName api name in
              (case map_of d ''type'' of
                 Some typed \<Rightarrow>
                   check_or ''invalid public typed ABI attribute'' (as_type typed \<noteq> None \<and> isTypeAttrKind api kind)
               | None \<Rightarrow>
                   if kind = KindNone \<or> isTypeAttrKind api kind then Inl ''unsupported public ABI attribute kind''
                   else (case map_of d ''integer'' of
                     Some raw \<Rightarrow>
                       if \<not> isIntAttrKind api kind then Inl ''public ABI integer attribute has the wrong kind''
                       else bindE (publicInteger (Some raw)) (\<lambda>number.
                         check_or ''unsupported public integer ABI attribute value'' (integer_attribute_ok kind number))
                   | None \<Rightarrow> check_or ''public ABI enum attribute has the wrong kind'' (isEnumAttrKind api kind)))))"

definition validateAttributeList :: "llvm_api \<Rightarrow> attr \<Rightarrow> unit expected" where
  "validateAttributeList api a =
     (case as_array a of
        None \<Rightarrow> Inl ''invalid public ABI attribute list''
      | Some groups \<Rightarrow>
          forE (\<lambda>g. case as_array g of
                      None \<Rightarrow> Inl ''invalid public ABI attribute group''
                    | Some attributes \<Rightarrow> forE (check_abi_attribute api) attributes) groups)"

section \<open>Public types\<close>

text \<open>
  The state of \<open>validatePublicTypes\<close>: the storage identities seen so far and the types already
  checked. It persists when a visit fails.
\<close>

record types_state =
  ts_identities :: "(string \<times> sty) list"
  ts_checked :: "sty set"

text \<open>\<open>for (auto field : fields) if (auto error = visit(field, depth + 1)) return error;\<close>\<close>

fun visit_all ::
  "('a \<Rightarrow> 's \<Rightarrow> 's \<times> unit expected) \<Rightarrow> 'a list \<Rightarrow> 's \<Rightarrow> 's \<times> unit expected" where
  "visit_all f [] s = (s, success)"
| "visit_all f (x # xs) s =
     (case f x s of
        (t, Inl e) \<Rightarrow> (t, Inl e)
      | (t, Inr _) \<Rightarrow> visit_all f xs t)"

lemma visit_all_cong [fundef_cong]:
  assumes "xs = ys" "s = t" and "\<And>x s. x \<in> set ys \<Longrightarrow> f x s = g x s"
  shows "visit_all f xs s = visit_all g ys t"
  using assms
proof (induction ys arbitrary: xs s t)
  case (Cons y ys)
  have "visit_all f ys = visit_all g ys" using Cons.prems(3) by (intro ext Cons.IH) auto
  with Cons.prems show ?case by simp
qed simp

definition overlap_alternative_ok :: "sty \<Rightarrow> bool" where
  "overlap_alternative_ok t \<longleftrightarrow> t \<in> {IntegerT 8, IntegerT 16, IntegerT 32, IntegerT 64, F32T, F64T, WordT, PointerT}"

definition check_overlap :: "string \<Rightarrow> sty list \<Rightarrow> attr list \<Rightarrow> unit expected" where
  "check_overlap i alternatives domains =
     (if i = [] \<or> alternatives = [] \<or> length alternatives > 64 \<or> length alternatives \<noteq> length domains
      then Inl ''invalid public overlap alternative inventory''
      else forE (\<lambda>(field, domain).
             case as_array domain of
               None \<Rightarrow> Inl ''invalid public overlap target set''
             | Some ids \<Rightarrow>
                 if ids = [] then Inl ''invalid public overlap target set''
                 else if \<not> overlap_alternative_ok field then Inl ''unsupported public overlapping-storage alternative''
                 else success) (zip alternatives domains))"

fun is_float :: "sty \<Rightarrow> bool" where
  "is_float F32T = True"
| "is_float F64T = True"
| "is_float (FloatT s) = True"
| "is_float _ = False"

text \<open>Register a storage identity: the first type to use it owns it.\<close>

definition claim_identity :: "string \<Rightarrow> sty \<Rightarrow> types_state \<Rightarrow> types_state \<times> unit expected" where
  "claim_identity i type st =
     (if i = [] then (st, success)
      else if \<not> opaque_identity CHR ''r'' i
      then (st, Inl ''public storage identities must be opaque r-prefixed integers'')
      else case map_of (ts_identities st) i of
        Some owner \<Rightarrow> (st, if owner \<noteq> type then Inl ''conflicting definitions of a public storage identity'' else success)
      | None \<Rightarrow> (st\<lparr>ts_identities := (i, type) # ts_identities st\<rparr>, success))"

function visit_type :: "nat \<Rightarrow> sty \<Rightarrow> types_state \<Rightarrow> types_state \<times> unit expected" where
  "visit_type depth type st =
     (if depth > 64 then (st, Inl ''public type nesting exceeds the qualified bound'')
      else if type \<in> ts_checked st then (st, success)
      else
        let st' = st\<lparr>ts_checked := insert type (ts_checked st)\<rparr> in
        case type of
          PointerT \<Rightarrow> (st', success)
        | WordT \<Rightarrow> (st', success)
        | VaListT \<Rightarrow> (st', success)
        | VaListArgumentT \<Rightarrow> (st', success)
        | F32T \<Rightarrow> (st', success)
        | F64T \<Rightarrow> (st', success)
        | IntegerT width \<Rightarrow>
            (st', if 1 \<le> width \<and> width \<le> 128 then success else Inl ''artifact contains an unsupported public type'')
        | VectorT scalable shape element \<Rightarrow>
            if scalable \<or> length shape \<noteq> 1 \<or> prod_list shape < 1 \<or> prod_list shape > 1024
            then (st', Inl ''invalid fixed-vector extent'')
            else if \<not> (is_integer element \<or> is_float element)
            then (st', Inl ''invalid fixed-vector element type'')
            else visit_type (depth + 1) element st'
        | FunctionT inputs results \<Rightarrow>
            if length results > 1 then (st', Inl ''public function type has multiple results'')
            else visit_all (visit_type (depth + 1)) (inputs @ results) st'
        | ArrayT element count \<Rightarrow>
            if num_elements count > 2 ^ 30 then (st', Inl ''oversized qualified target array extent'')
            else visit_type (depth + 1) element st'
        | RecordT i packed members \<Rightarrow>
            (case claim_identity i type st' of
               (s, Inl e) \<Rightarrow> (s, Inl e)
             | (s, Inr _) \<Rightarrow> visit_all (visit_type (depth + 1)) members s)
        | OverlapT i alternatives domains \<Rightarrow>
            (case check_overlap i alternatives domains of
               Inl e \<Rightarrow> (st', Inl e)
             | Inr _ \<Rightarrow>
                 (case claim_identity i type st' of
                    (s, Inl e) \<Rightarrow> (s, Inl e)
                  | (s, Inr _) \<Rightarrow> visit_all (visit_type (depth + 1)) alternatives s))
        | ChoiceT cs \<Rightarrow> (st', Inl ''artifact contains an unsupported public type'')
        | FloatT s \<Rightarrow> (st', Inl ''artifact contains an unsupported public type'')
        | OtherT s \<Rightarrow> (st', Inl ''artifact contains an unsupported public type''))"
  by pat_completeness auto
termination
  by (relation "measure (\<lambda>(depth, type, st). size type)") (auto simp del: sty.size intro: sty_size_mem)

declare visit_type.simps [simp del]

text \<open>The \<open>check\<close> of the walk: the last error is the message.\<close>

definition check_public_type :: "sty \<Rightarrow> types_state \<times> string \<Rightarrow> types_state \<times> string" where
  "check_public_type t acc =
     (case visit_type 0 t (fst acc) of
        (s, Inl e) \<Rightarrow> (s, e)
      | (s, Inr _) \<Rightarrow> (s, snd acc))"

definition module_types :: "op \<Rightarrow> sty list" where
  "module_types m = concat (map (\<lambda>v. op_types (fst v)) (walk_module m))"

definition validatePublicTypes :: "op \<Rightarrow> unit expected" where
  "validatePublicTypes m =
     (let message = snd (fold check_public_type (module_types m) (\<lparr>ts_identities = [], ts_checked = {}\<rparr>, []))
      in if message = [] then success else Inl message)"

section \<open>The closed schema\<close>

text \<open>
  Inside the walk, an operation's checks thread the captured \<open>error\<close>: \<open>Inl\<close> is an early return with
  the message left in it, \<open>Inr\<close> goes on (possibly with a message that a later check overwrites).
\<close>

type_synonym message_step = "string \<Rightarrow> string + string"

definition stop_if :: "bool \<Rightarrow> string \<Rightarrow> message_step" where
  "stop_if c e = (\<lambda>m. if c then Inl e else Inr m)"

definition note_if :: "bool \<Rightarrow> string \<Rightarrow> message_step" where
  "note_if c e = (\<lambda>m. Inr (if c then e else m))"

definition stop_on :: "unit expected \<Rightarrow> message_step" where
  "stop_on r = (\<lambda>m. case r of Inl e \<Rightarrow> Inl e | Inr _ \<Rightarrow> Inr m)"

definition note_on :: "unit expected \<Rightarrow> message_step" where
  "note_on r = (\<lambda>m. case r of Inl e \<Rightarrow> Inr e | Inr _ \<Rightarrow> Inr m)"

definition run_steps :: "message_step list \<Rightarrow> message_step" where
  "run_steps steps = (\<lambda>m. foldE (\<lambda>s m. s m) steps m)"

definition allowed_fields :: "(string \<times> string list) list" where
  "allowed_fields = [
    (''builtin.module'', [''sela.schema'', ''sela.module_flags'', ''sela.targets'']),
    (''sela.func'', [''id'', ''type'', ''declaration'', ''variadic'', ''internal'', ''weak'', ''available_externally'',
       ''dso_local'', ''visibility'', ''intrinsic'', ''attributes'', ''block_domains'', ''native_abi'', ''codegen'']),
    (''sela.global'', [''id'', ''bytes'', ''alignment'', ''unnamed'', ''element'', ''initializer'', ''constant'',
       ''declaration'', ''linkage'', ''dso_local'', ''visibility'']),
    (''sela.constant'', [''value'']), (''sela.address'', [''global'']),
    (''sela.alloca'', [''element'', ''alignment'']), (''sela.load'', [''alignment'', ''volatile'']),
    (''sela.store'', [''alignment'', ''volatile'']),
    (''sela.call'', [''callee'', ''attributes'', ''tail'', ''native_abi'']),
    (''sela.call_indirect'', [''type'', ''variadic'', ''attributes'', ''tail'', ''native_abi'']),
    (''sela.binary'', [''opcode'', ''flags'']), (''sela.cast'', [''opcode'']),
    (''sela.compare'', [''predicate'']), (''sela.return'', []),
    (''sela.gep'', [''element'', ''inbounds'']),
    (''sela.select'', []), (''sela.fneg'', []), (''sela.bswap'', []),
    (''sela.extract_value'', [''indices'']), (''sela.insert_value'', [''indices'']),
    (''sela.extract_element'', []), (''sela.insert_element'', []), (''sela.shuffle'', [''mask'']),
    (''sela.intrinsic'', [''name'', ''attributes'', ''tail'']),
    (''sela.inline_asm'', [''template'', ''constraints'', ''backend'', ''side_effects'', ''align_stack'',
       ''can_throw'', ''dialect'', ''attributes'', ''tail'']),
    (''sela.inline_asm_br'', [''template'', ''constraints'', ''backend'', ''side_effects'', ''align_stack'',
       ''can_throw'', ''dialect'', ''attributes'', ''tail'', ''argument_count'', ''argument_counts'']),
    (''sela.va_arg'', []), (''sela.va_forward'', []),
    (''sela.br'', [''loop'', ''loop_id'']), (''sela.cond_br'', [''true_count'', ''loop'', ''loop_id'']),
    (''sela.switch'', [''cases'', ''argument_counts'', ''case_domains'']),
    (''sela.unreachable'', [])]"

text \<open>The required fields, each set in the order \<open>std::set\<close> iterates it.\<close>

definition required_fields :: "(string \<times> string list) list" where
  "required_fields = [
    (''sela.func'', [''attributes'', ''declaration'', ''dso_local'', ''id'', ''internal'', ''type'', ''variadic'']),
    (''sela.constant'', [''value'']), (''sela.address'', [''global'']),
    (''sela.alloca'', [''alignment'', ''element'']), (''sela.load'', [''alignment'']),
    (''sela.store'', [''alignment'']), (''sela.call'', [''attributes'', ''callee'', ''tail'']),
    (''sela.call_indirect'', [''attributes'', ''tail'', ''type'', ''variadic'']),
    (''sela.binary'', [''flags'', ''opcode'']), (''sela.cast'', [''opcode'']),
    (''sela.compare'', [''predicate'']), (''sela.gep'', [''element'', ''inbounds'']),
    (''sela.extract_value'', [''indices'']), (''sela.insert_value'', [''indices'']), (''sela.shuffle'', [''mask'']),
    (''sela.intrinsic'', [''attributes'', ''name'', ''tail'']),
    (''sela.inline_asm'', [''align_stack'', ''attributes'', ''backend'', ''can_throw'', ''constraints'', ''dialect'',
       ''side_effects'', ''tail'', ''template'']),
    (''sela.inline_asm_br'', [''align_stack'', ''argument_count'', ''argument_counts'', ''attributes'', ''backend'',
       ''can_throw'', ''constraints'', ''dialect'', ''side_effects'', ''tail'', ''template'']),
    (''sela.cond_br'', [''true_count'']), (''sela.switch'', [''argument_counts'', ''cases''])]"

definition boolean_fields :: "string list" where
  "boolean_fields = [''declaration'', ''variadic'', ''internal'', ''weak'', ''available_externally'',
     ''dso_local'', ''constant'', ''inbounds'', ''volatile'']"

definition string_fields :: "string list" where
  "string_fields = [''id'', ''global'', ''callee'', ''visibility'', ''linkage'', ''intrinsic'', ''opcode'', ''bytes'']"

definition appending_step :: "op \<Rightarrow> message_step" where
  "appending_step x =
     stop_if (op_get as_string x ''linkage'' = Some ''appending'' \<and>
              (op_name x \<noteq> ''sela.global'' \<or> op_get as_bool x ''declaration'' \<noteq> Some False \<or>
               op_get as_string x ''id'' \<notin> {Some ''llvm.global_ctors'', Some ''llvm.global_dtors''}))
       ''appending storage is reserved for native initialization/finalization records''"

definition intrinsic_step :: "string list expected \<Rightarrow> op \<Rightarrow> message_step" where
  "intrinsic_step domain x =
     (if op_name x \<noteq> ''sela.intrinsic'' then Inr
      else case Option.bind (op_get as_string x ''name'') findIntrinsic of
        None \<Rightarrow> stop_if True ''unknown or malformed registered Sela intrinsic''
      | Some found \<Rightarrow>
          if length (op_operands x) \<noteq> in_operands found \<or> length (op_results x) > 1
          then stop_if True ''unknown or malformed registered Sela intrinsic''
          else if in_backend found = [] then Inr
          else stop_on (bindE domain (\<lambda>ids.
                 forE (\<lambda>i. if map_option llvmBackend (targets_find i) \<noteq> Some (in_backend found)
                           then Inl ''intrinsic is outside its target backend domain'' else success) ids)))"

definition required_step :: "op \<Rightarrow> message_step" where
  "required_step x =
     stop_on (forE (\<lambda>f. if op_attr x f = None then Inl (''missing required public operation attribute: '' @ f) else success)
                (case map_of required_fields (op_name x) of None \<Rightarrow> [] | Some fs \<Rightarrow> fs))"

text \<open>The code-generation settings of a function.\<close>

definition setting_char :: "char \<Rightarrow> bool" where
  "setting_char c \<longleftrightarrow> alnum c \<or> c \<in> set ''_-+,.''"

definition check_setting :: "string \<times> attr \<Rightarrow> unit expected" where
  "check_setting setting =
     (if fst setting = ''min_vector_bits'' then
        bindE (publicInteger (Some (snd setting))) (\<lambda>width.
          if width > 65536 then Inl ''oversized minimum vector width'' else success)
      else check_or ''invalid target code-generation setting''
             (fst setting \<in> {''cpu'', ''features'', ''tune''} \<and>
              (case as_string (snd setting) of
                 None \<Rightarrow> False
               | Some text \<Rightarrow> text \<noteq> [] \<and> length text \<le> 8192 \<and> list_all setting_char text)))"

definition codegen_step :: "attr \<Rightarrow> message_step" where
  "codegen_step a =
     (case as_dict a of
        None \<Rightarrow> stop_if True ''invalid target code-generation settings''
      | Some settings \<Rightarrow>
          if settings = [] then stop_if True ''invalid target code-generation settings''
          else stop_on (forE check_setting settings))"

text \<open>The attributes \<open>Attribute::walk\<close> visits, nested first.\<close>

function walk_attrs :: "attr \<Rightarrow> attr list" where
  "walk_attrs a =
     (case a of
        ArrayA xs \<Rightarrow> concat (map walk_attrs xs)
      | DictA d \<Rightarrow> concat (map (\<lambda>p. walk_attrs (snd p)) d)
      | _ \<Rightarrow> []) @ [a]"
  by pat_completeness auto
termination
  by (relation "measure size") (auto simp del: attr.size intro: size_array_mem dict_entry_size)

declare walk_attrs.simps [simp del]

definition symbol_step :: "string set \<Rightarrow> attr \<Rightarrow> message_step" where
  "symbol_step symbols nested =
     note_if (case Option.bind (as_dict nested) (\<lambda>d. get_as as_string d ''symbol'') of
                None \<Rightarrow> False | Some s \<Rightarrow> s \<notin> symbols)
       ''initializer reference has no declaration in its target domain''"

definition extent_step :: "dict \<Rightarrow> message_step" where
  "extent_step d =
     (if map_of d ''array'' = None \<and> map_of d ''count'' = None then Inr
      else case publicInteger (map_of d ''count'') of
        Inl e \<Rightarrow> note_if True e
      | Inr n \<Rightarrow>
          (case get_as as_array d ''array'' of
             None \<Rightarrow> note_if True ''invalid public native-index-domain array initializer''
           | Some elements \<Rightarrow>
               if length d \<noteq> 2 \<or> length elements > 1024 * 1024 \<or> n \<noteq> length elements
               then note_if True ''invalid public native-index-domain array initializer''
               else note_if (\<not> list_all pureLiteral (drop n elements))
                      ''one-domain array tails require pure literal initializers''))"

definition nested_step :: "string \<Rightarrow> attr \<Rightarrow> message_step" where
  "nested_step field nested =
     (case nested of
        IntegerA w n \<Rightarrow>
          note_if (w > 128 \<or> (w > 64 \<and> field \<noteq> ''value'' \<and> field \<noteq> ''initializer''))
            ''oversized integer attribute in common IR''
      | DictA d \<Rightarrow> extent_step d
      | _ \<Rightarrow> Inr)"

definition alignment_step :: "op \<Rightarrow> attr \<Rightarrow> message_step" where
  "alignment_step x a =
     (case publicInteger (Some a) of
        Inl e \<Rightarrow> note_if True e
      | Inr n \<Rightarrow>
          if n = 0 \<and> op_name x = ''sela.global'' \<and> op_attr x ''bytes'' = None then Inr
          else note_if (n = 0 \<or> n > 2 ^ 29 \<or> \<not> power_of_two n) ''invalid memory alignment in a qualified target'')"

definition initializer_step :: "op \<Rightarrow> string \<Rightarrow> attr \<Rightarrow> message_step" where
  "initializer_step x field a =
     (if field = ''initializer'' \<and> a = UnitA \<and> op_get as_bool x ''declaration'' = Some True then Inr
      else
        let expected_type =
              (if field = ''value'' then (if length (op_results x) = 1 then result_type x else None)
               else op_get as_type x ''element'')
        in
          stop_on (bindE (validateInitializer (Some a) 0) (\<lambda>_.
            case expected_type of None \<Rightarrow> success | Some t \<Rightarrow> validateInitializerShape t a 0)))"

text \<open>One attribute of an operation.\<close>

definition attribute_step ::
  "llvm_api \<Rightarrow> string set \<Rightarrow> op \<Rightarrow> string list \<Rightarrow> string \<times> attr \<Rightarrow> message_step" where
  "attribute_step api symbols x fields_ok entry =
     (case entry of (field, a) \<Rightarrow>
        run_steps
         ([stop_if (field \<notin> set fields_ok) (''unknown common IR attribute: '' @ field)] @
          (if field = ''codegen'' then [codegen_step a] else []) @
          (if field = ''callee'' \<or> field = ''global'' then
             [stop_if (case as_string a of None \<Rightarrow> True | Some s \<Rightarrow> s \<notin> symbols)
                ''active reference has no declaration in its target domain'']
           else []) @
          (if field = ''initializer'' then map (symbol_step symbols) (walk_attrs a) else []) @
          [stop_if ((field \<in> set boolean_fields \<and> as_bool a = None) \<or>
                    (field \<in> set string_fields \<and> as_string a = None) \<or>
                    (field \<in> {''type'', ''element'', ''native_abi''} \<and> as_type a = None))
             (''invalid public operation attribute type: '' @ field)] @
          (if field = ''attributes'' then [stop_on (validateAttributeList api a)] else []) @
          (if field = ''alignment'' then [alignment_step x a] else []) @
          (if field = ''value'' \<or> field = ''initializer'' then [initializer_step x field a] else []) @
          map (nested_step field) (walk_attrs a)))"

definition validArithmeticFlags :: "llvm_api \<Rightarrow> string \<Rightarrow> nat \<Rightarrow> bool" where
  "validArithmeticFlags api opcode flags \<longleftrightarrow>
     (flags mod 4 = 0 \<or> opcode \<in> {''add'', ''sub'', ''mul'', ''shl''}) \<and>
     (even (flags div 4) \<or> isPossiblyExactOpcode api opcode)"

definition binary_step :: "llvm_api \<Rightarrow> op \<Rightarrow> message_step" where
  "binary_step api x =
     (if op_name x \<noteq> ''sela.binary'' then Inr
      else case publicInteger (op_attr x ''flags'') of
        Inl e \<Rightarrow> note_if True e
      | Inr flags \<Rightarrow>
          note_if (case op_get as_string x ''opcode'' of
                     None \<Rightarrow> True
                   | Some opcode \<Rightarrow> opcode \<notin> set (binaryOpcodes api) \<or> flags > 7 \<or> \<not> validArithmeticFlags api opcode flags)
            ''invalid arithmetic flags in a qualified target'')"

definition cast_step :: "op \<Rightarrow> message_step" where
  "cast_step x =
     note_if (op_name x = ''sela.cast'' \<and>
              (case op_get as_string x ''opcode'' of
                 None \<Rightarrow> True
               | Some c \<Rightarrow> c \<notin> {''trunc'', ''zext'', ''sext'', ''fptoui'', ''fptosi'', ''uitofp'', ''sitofp'',
                   ''fptrunc'', ''fpext'', ''ptrtoint'', ''inttoptr'', ''bitcast'', ''native_trunc'', ''native_zext'',
                   ''native_sext''}))
       ''unknown public cast opcode''"

definition compare_step :: "llvm_api \<Rightarrow> op \<Rightarrow> message_step" where
  "compare_step api x =
     (if op_name x \<noteq> ''sela.compare'' then Inr
      else case publicInteger (op_attr x ''predicate'') of
        Inl e \<Rightarrow> note_if True e
      | Inr p \<Rightarrow> note_if (\<not> isComparePredicate api p) ''unknown public comparison predicate'')"

definition loop_step :: "op \<Rightarrow> message_step" where
  "loop_step x =
     (if op_attr x ''loop'' = None \<and> op_attr x ''loop_id'' = None then Inr
      else
        run_steps
         ([stop_if (op_attr x ''loop'' = None) ''native loop identity requires loop options'',
           note_if ((case op_get as_array x ''loop'' of None \<Rightarrow> True | Some os \<Rightarrow> os = []) \<or>
                    \<not> opaque_identity CHR ''l'' (case op_get as_string x ''loop_id'' of None \<Rightarrow> [] | Some i \<Rightarrow> i))
             ''loop options require an opaque loop identity''] @
          map (\<lambda>option. note_on (validateLoopOption option))
            (case op_get as_array x ''loop'' of None \<Rightarrow> [] | Some os \<Rightarrow> os)))"

definition argument_locations_step :: "op \<Rightarrow> message_step" where
  "argument_locations_step x =
     note_if (list_ex (list_ex (\<lambda>b. list_ex (\<lambda>(_, _, known). \<not> known) (block_args b))) (op_regions x))
       ''private parameter debug location in common IR''"

text \<open>What the walk looks up: value types, defining operations, blocks of the enclosing region.\<close>

definition value_env :: "op \<Rightarrow> (nat \<times> sty) list" where
  "value_env m = concat (map (\<lambda>(x, path).
     op_results x @
     concat (map (\<lambda>blocks. concat (map (\<lambda>b. map (\<lambda>(v, t, _). (v, t)) (block_args b)) blocks)) (op_regions x)))
     (walk_module m))"

definition defining_op :: "op \<Rightarrow> nat \<Rightarrow> op option" where
  "defining_op m v = map_option fst (List.find (\<lambda>(x, path). v \<in> fst ` set (op_results x)) (walk_module m))"

definition sibling_block_args :: "path \<Rightarrow> nat \<Rightarrow> (nat \<times> sty \<times> bool) list" where
  "sibling_block_args path i =
     (case path of
        [] \<Rightarrow> []
      | (p, r, _) # _ \<Rightarrow>
          (case List.find (\<lambda>b. block_id b = i) (op_regions p ! r) of None \<Rightarrow> [] | Some b \<Rightarrow> block_args b))"

definition enclosing_targets :: "path \<Rightarrow> string list expected" where
  "enclosing_targets path =
     (case List.find (\<lambda>(p, _, _). op_name p = ''builtin.module'') path of
        None \<Rightarrow> Inl ''Sela module needs a bounded explicit target qualification set''
      | Some (p, _, _) \<Rightarrow> declaredTargets p)"

definition context_of :: "op \<Rightarrow> path \<Rightarrow> ir_context" where
  "context_of m path =
     \<lparr>cx_type = map_of (value_env m), cx_def = defining_op m, cx_block = sibling_block_args path,
      cx_targets = enclosing_targets path\<rparr>"

definition schema_op_steps :: "llvm_api \<Rightarrow> op \<Rightarrow> string set \<Rightarrow> op \<times> path \<Rightarrow> message_step list" where
  "schema_op_steps api m symbols v =
     (case v of (x, path) \<Rightarrow>
        [appending_step x,
         intrinsic_step (declaredTargets m) x,
         stop_on (validateExtendedInstruction (parseConstraints api) (context_of m path) x),
         stop_if (map_of allowed_fields (op_name x) = None) ''unknown required common IR operation'',
         required_step x,
         stop_if (\<not> op_unknown_loc x) ''private source/debug locations are forbidden in publication IR'',
         stop_if (op_name x = ''builtin.module'' \<and> path \<noteq> []) ''nested modules are forbidden in common IR''] @
        map (attribute_step api symbols x (case map_of allowed_fields (op_name x) of None \<Rightarrow> [] | Some fs \<Rightarrow> fs))
          (op_attrs x) @
        [binary_step api x, cast_step x, compare_step api x, loop_step x, argument_locations_step x])"

definition schema_op :: "llvm_api \<Rightarrow> op \<Rightarrow> string set \<Rightarrow> op \<times> path \<Rightarrow> string \<Rightarrow> string" where
  "schema_op api m symbols v message =
     (case run_steps (schema_op_steps api m symbols v) message of Inl e \<Rightarrow> e | Inr e \<Rightarrow> e)"

definition flag_value_ok :: "string \<Rightarrow> int \<Rightarrow> bool" where
  "flag_value_ok name n \<longleftrightarrow>
     ((name = ''wchar_size'' \<or> name = ''min_enum_size'') \<and> n = 4) \<or>
     (name = ''frame-pointer'' \<and> 0 \<le> n \<and> n \<le> 2) \<or>
     ((name = ''PIC Level'' \<or> name = ''PIE Level'' \<or> name = ''uwtable'') \<and> 1 \<le> n \<and> n \<le> 2) \<or>
     (name = ''NumRegisterParameters'' \<and> n = 0)"

definition check_module_flag :: "attr \<Rightarrow> string set \<Rightarrow> string set expected" where
  "check_module_flag entry names =
     (case as_dict entry of
        None \<Rightarrow> Inl ''invalid or duplicate public module flag record''
      | Some d \<Rightarrow>
          (case (get_as as_string d ''name'', get_as as_integer d ''behavior'', get_as as_integer d ''value'',
                 get_as as_array d ''targets'') of
             (Some name, Some behavior, Some number, Some domain) \<Rightarrow>
               if length d \<noteq> 4 \<or> domain = [] \<or> fst behavior > 64 \<or> fst number > 64 \<or>
                  get_int behavior < 1 \<or> get_int behavior > 8 \<or> name \<in> names
               then Inl ''invalid or duplicate public module flag record''
               else if \<not> flag_value_ok name (get_int number)
               then Inl ''unsupported public module compilation flag''
               else Inr (insert name names)
           | _ \<Rightarrow> Inl ''invalid or duplicate public module flag record''))"

definition collect_symbol :: "op \<Rightarrow> string set \<Rightarrow> string set expected" where
  "collect_symbol x symbols =
     (case op_get as_string x ''id'' of
        None \<Rightarrow> Inl ''missing or overlapping active definition identity''
      | Some i \<Rightarrow> if i \<in> symbols then Inl ''missing or overlapping active definition identity''
                  else Inr (insert i symbols))"

definition validateSchema :: "llvm_api \<Rightarrow> op \<Rightarrow> unit expected" where
  "validateSchema api m =
     (case op_get as_integer m ''sela.schema'' of
        None \<Rightarrow> Inl ''unsupported common IR schema''
      | Some schema \<Rightarrow>
          if fst schema > 64 \<or> get_int schema \<noteq> 1 then Inl ''unsupported common IR schema''
          else
            bindE (case op_attr m ''sela.module_flags'' of
                     None \<Rightarrow> success
                   | Some raw \<Rightarrow>
                       (case as_array raw of
                          None \<Rightarrow> Inl ''invalid public module flag list''
                        | Some flags \<Rightarrow> bindE (foldE check_module_flag flags {}) (\<lambda>_. success))) (\<lambda>_.
            bindE (foldE collect_symbol (body_ops m) {}) (\<lambda>symbols.
            let message = fold (schema_op api m symbols) (walk_module m) []
            in if message \<noteq> [] then Inl message else validatePublicTypes m)))"

section \<open>Entry points\<close>

record ArtifactSummary =
  sum_functions :: nat
  sum_globals :: nat
  sum_operations :: nat
  sum_symbolicTypes :: nat
  sum_symbolicConstants :: nat

definition summarize_op :: "op \<times> path \<Rightarrow> ArtifactSummary \<Rightarrow> ArtifactSummary" where
  "summarize_op v s =
     (let x = fst v;
          s1 = (if op_name x = ''sela.func'' then s\<lparr>sum_functions := sum_functions s + 1\<rparr>
                else if op_name x = ''sela.global'' then s\<lparr>sum_globals := sum_globals s + 1\<rparr>
                else if starts_with ''sela.'' (op_name x) then s\<lparr>sum_operations := sum_operations s + 1\<rparr>
                else s)
      in s1\<lparr>sum_symbolicTypes := sum_symbolicTypes s1 + length (filter (\<lambda>r. snd r = WordT) (op_results x)) +
              length (filter (\<lambda>a. snd a = TypeA WordT) (op_attrs x)),
            sum_symbolicConstants := sum_symbolicConstants s1 +
              length (filter (\<lambda>a. snd a = StringA ''pointer_bytes'') (op_attrs x))\<rparr>)"

definition summarize :: "op \<Rightarrow> ArtifactSummary" where
  "summarize m = fold summarize_op (walk_module m)
     \<lparr>sum_functions = 0, sum_globals = 0, sum_operations = 0, sum_symbolicTypes = 0, sum_symbolicConstants = 0\<rparr>"

text \<open>
  \<open>verifies\<close> is MLIR's verifier, \<open>linked\<close> the native targets linked into the library (a list the
  build generates), \<open>backend\<close> the native lowering of a module, whose result is LLVM IR.
\<close>

definition verifyModuleStructure :: "llvm_api \<Rightarrow> (op \<Rightarrow> bool) \<Rightarrow> op \<Rightarrow> unit expected" where
  "verifyModuleStructure api verifies m =
     (if \<not> verifies m then Inl ''Sela structural verification failed''
      else
        bindE (verifyTargetDomains m) (\<lambda>_.
        bindE (declaredTargets m) (\<lambda>domain.
          forE (\<lambda>i. case targets_find i of
                      None \<Rightarrow> Inl ''unknown target''
                    | Some info \<Rightarrow> bindE (specializeDomains verifies m info) (validateSchema api)) domain)))"

definition findNativeTarget :: "string list \<Rightarrow> string \<Rightarrow> string option" where
  "findNativeTarget linked i = List.find (\<lambda>t. t = i) linked"

definition lowerModule ::
  "llvm_api \<Rightarrow> (op \<Rightarrow> bool) \<Rightarrow> string list \<Rightarrow> (op \<Rightarrow> string \<Rightarrow> 'llvm expected) \<Rightarrow> op \<Rightarrow> string \<Rightarrow> 'llvm expected" where
  "lowerModule api verifies linked backend m target =
     (if findNativeTarget linked target = None then Inl ''requested native target is unavailable in this Sela library''
      else bindE (verifyModuleStructure api verifies m) (\<lambda>_. backend m target))"

definition collect_target :: "string list \<Rightarrow> string \<Rightarrow> string set \<Rightarrow> string set expected" where
  "collect_target linked t seen =
     (if targets_find t = None \<or> t \<in> seen then Inl ''unsupported or duplicate Sela semantic target''
      else if findNativeTarget linked t = None
      then Inl (''requested native target is unavailable in this Sela library: '' @ t)
      else Inr (insert t seen))"

definition verifyModule ::
  "llvm_api \<Rightarrow> (op \<Rightarrow> bool) \<Rightarrow> string list \<Rightarrow> (op \<Rightarrow> string \<Rightarrow> 'llvm expected) \<Rightarrow> op \<Rightarrow> string list \<Rightarrow> unit expected" where
  "verifyModule api verifies linked backend m targets =
     bindE (verifyModuleStructure api verifies m) (\<lambda>_.
     if targets = [] then Inl ''Sela validation requires a semantic target domain''
     else
       bindE (foldE (collect_target linked) targets {}) (\<lambda>_.
         forE (\<lambda>t. bindE (lowerModule api verifies linked backend m t) (\<lambda>_. success)) targets))"

end
