(* ===== verification/Schema_Facts.thy ===== *)
theory Schema_Facts
  imports Schema Specialization_Facts
begin

text \<open>
  Facts about admission: the registry of intrinsics is a bijection, the two literal predicates
  agree, accepted public types have one owner per storage identity, and the schema is closed.
\<close>

section \<open>The intrinsic registry\<close>

lemma registry_names_distinct: "distinct (map in_name intrinsicRegistry)"
  unfolding intrinsicRegistry_def spec_def by simp

lemma registry_ids_distinct: "distinct (map in_llvmID intrinsicRegistry)"
  unfolding intrinsicRegistry_def spec_def by simp

lemma findIntrinsic_iff: "findIntrinsic n = Some e \<longleftrightarrow> e \<in> set intrinsicRegistry \<and> in_name e = n"
  unfolding findIntrinsic_def by (rule find_key_iff [OF registry_names_distinct])

lemma findIntrinsicId_iff: "findIntrinsicId i = Some e \<longleftrightarrow> e \<in> set intrinsicRegistry \<and> in_llvmID e = i"
  unfolding findIntrinsicId_def by (rule find_key_iff [OF registry_ids_distinct])

section \<open>Literals\<close>

lemma pureLiteral_literalTail: "pureLiteral a = literalTail a"
proof (induction a rule: pureLiteral.induct)
  case (1 a)
  then show ?case
    unfolding pureLiteral.simps [of a] literalTail.simps [of a]
    by (cases a) (auto simp: list_all_iff)
qed

fun literal_depth :: "attr \<Rightarrow> nat" where
  "literal_depth (ArrayA xs) = fold max (map literal_depth xs) 0 + 1"
| "literal_depth _ = 0"

lemma fold_max_le: "n \<in> set ns \<or> n \<le> m \<Longrightarrow> n \<le> fold max ns (m :: nat)"
  by (induction ns arbitrary: m) (auto simp: max_def le_max_iff_disj)

lemma literal_depth_mem: "x \<in> set xs \<Longrightarrow> literal_depth x < literal_depth (ArrayA xs)"
  using fold_max_le [of "literal_depth x" "map literal_depth xs" 0] by simp

lemma pureLiteral_leaf:
  assumes "pureLiteral a" "\<And>xs. a \<noteq> ArrayA xs" "depth \<le> 64"
  shows "validateInitializer (Some a) depth = Inr ()"
  using assms unfolding validateInitializer.simps [of "Some a"] pureLiteral.simps [of a]
  by (cases a) auto

lemma pureLiteral_initializer:
  "pureLiteral a \<Longrightarrow> literal_depth a + depth \<le> 64 \<Longrightarrow> validateInitializer (Some a) depth = Inr ()"
proof (induction a arbitrary: depth rule: pureLiteral.induct)
  case (1 a)
  show ?case
  proof (cases a)
    case (ArrayA xs)
    with 1(2) have xs: "length xs \<le> 1024 * 1024" "list_all pureLiteral xs"
      by (simp_all add: pureLiteral.simps [of "ArrayA xs"])
    have "forE (\<lambda>e. validateInitializer (Some e) (depth + 1)) xs = Inr ()"
      unfolding forE_success_iff
    proof
      fix x assume x: "x \<in> set xs"
      then have "literal_depth x + (depth + 1) \<le> 64"
        using literal_depth_mem [OF x] 1(3) ArrayA by simp
      with 1(1) x xs(2) ArrayA show "validateInitializer (Some x) (depth + 1) = Inr ()"
        by (simp add: list_all_iff)
    qed
    with xs 1(3) ArrayA show ?thesis by (simp add: validateInitializer.simps [of "Some (ArrayA xs)"])
  qed (use 1(2,3) in \<open>auto intro: pureLiteral_leaf\<close>)
qed

section \<open>Public types\<close>

function public_type :: "(string \<Rightarrow> sty option) \<Rightarrow> sty \<Rightarrow> bool" where
  "public_type ids t =
     (case t of
        IntegerT w \<Rightarrow> 1 \<le> w \<and> w \<le> 128
      | VectorT scalable shape e \<Rightarrow>
          \<not> scalable \<and> length shape = 1 \<and> 1 \<le> prod_list shape \<and> prod_list shape \<le> 1024 \<and>
          (is_integer e \<or> is_float e) \<and> public_type ids e
      | FunctionT as rs \<Rightarrow> length rs \<le> 1 \<and> list_all (public_type ids) (as @ rs)
      | ArrayT e c \<Rightarrow> num_elements c \<le> 2 ^ 30 \<and> public_type ids e
      | RecordT i p ms \<Rightarrow>
          (i \<noteq> [] \<longrightarrow> opaque_identity CHR ''r'' i \<and> ids i = Some t) \<and> list_all (public_type ids) ms
      | OverlapT i as ds \<Rightarrow>
          check_overlap i as ds = Inr () \<and> opaque_identity CHR ''r'' i \<and> ids i = Some t \<and>
          list_all (public_type ids) as
      | ChoiceT c \<Rightarrow> False
      | FloatT s \<Rightarrow> False
      | OtherT s \<Rightarrow> False
      | _ \<Rightarrow> True)"
  by pat_completeness auto
termination
  by (relation "measure (\<lambda>(ids, t). size t)") (auto simp del: sty.size intro: sty_size_mem)

declare public_type.simps [simp del]

lemma public_type_mono: "public_type ids t \<Longrightarrow> ids \<subseteq>\<^sub>m ids' \<Longrightarrow> public_type ids' t"
proof (induction ids t rule: public_type.induct)
  case (1 ids t)
  have ids: "ids i = Some u \<Longrightarrow> ids' i = Some u" for i u
    using 1(2) \<open>ids \<subseteq>\<^sub>m ids'\<close> by (auto simp: map_le_def dom_def)
  show ?case
    using 1 unfolding public_type.simps [of _ t]
    by (cases t) (auto simp: list_all_iff intro: ids)
qed

text \<open>Every checked type is public, but for the pending ones the traversal is still inside of.\<close>

definition types_inv :: "types_state \<Rightarrow> sty set \<Rightarrow> bool" where
  "types_inv st pending \<longleftrightarrow>
     (\<forall>u \<in> ts_checked st. u \<in> pending \<or> public_type (map_of (ts_identities st)) u)"

definition grows :: "types_state \<Rightarrow> types_state \<Rightarrow> bool" where
  "grows st st' \<longleftrightarrow> map_of (ts_identities st) \<subseteq>\<^sub>m map_of (ts_identities st')"

lemma grows_refl [simp]: "grows st st"
  by (simp add: grows_def)

lemma grows_trans: "grows a b \<Longrightarrow> grows b c \<Longrightarrow> grows a c"
  unfolding grows_def by (rule map_le_trans)

lemma public_grows: "public_type (map_of (ts_identities a)) t \<Longrightarrow> grows a b \<Longrightarrow> public_type (map_of (ts_identities b)) t"
  unfolding grows_def by (rule public_type_mono)

lemma visit_all_inv:
  assumes "visit_all f ts st = (st', Inr ())" "types_inv st pending"
    and "\<And>t s s'. t \<in> set ts \<Longrightarrow> f t s = (s', Inr ()) \<Longrightarrow> types_inv s pending \<Longrightarrow>
      types_inv s' pending \<and> public_type (map_of (ts_identities s')) t \<and> grows s s'"
  shows "types_inv st' pending \<and> list_all (public_type (map_of (ts_identities st'))) ts \<and> grows st st'"
  using assms
proof (induction ts arbitrary: st)
  case (Cons t ts)
  from Cons.prems(1) obtain s u where s: "f t st = (s, Inr ())" "visit_all f ts s = (st', Inr ())"
    by (auto split: prod.splits sum.splits)
  have t: "types_inv s pending \<and> public_type (map_of (ts_identities s)) t \<and> grows st s"
    using Cons.prems(3) [of t st s] s(1) Cons.prems(2) by simp
  then have "types_inv st' pending \<and> list_all (public_type (map_of (ts_identities st'))) ts \<and> grows s st'"
    using Cons.IH [OF s(2)] Cons.prems(3) by auto
  with t show ?case by (auto intro: public_grows grows_trans)
qed simp

lemma claim_identity_inv:
  assumes "claim_identity i t st = (s, Inr ())" "types_inv st pending"
  shows "types_inv s pending \<and> grows st s \<and> ts_checked s = ts_checked st \<and>
    (i \<noteq> [] \<longrightarrow> opaque_identity CHR ''r'' i \<and> map_of (ts_identities s) i = Some t)"
proof -
  have g: "grows st s" "ts_checked s = ts_checked st"
    "i \<noteq> [] \<longrightarrow> opaque_identity CHR ''r'' i \<and> map_of (ts_identities s) i = Some t"
    using assms(1)
    by (auto simp: claim_identity_def grows_def map_le_def split: if_splits option.splits)
  with assms(2) show ?thesis by (auto simp: types_inv_def intro: public_grows)
qed

lemma types_inv_insert:
  "types_inv st pending \<Longrightarrow> types_inv (st\<lparr>ts_checked := insert t (ts_checked st)\<rparr>) (insert t pending)"
  by (auto simp: types_inv_def)

lemma types_inv_close:
  "types_inv st (insert t pending) \<Longrightarrow> public_type (map_of (ts_identities st)) t \<Longrightarrow> types_inv st pending"
  by (auto simp: types_inv_def)

lemma visit_type_inv:
  assumes "visit_type depth t st = (st', Inr ())" "types_inv st pending" "\<forall>u \<in> pending. size t < size u"
  shows "types_inv st' pending \<and> public_type (map_of (ts_identities st')) t \<and> grows st st'"
  using assms
proof (induction depth t st arbitrary: st' pending rule: visit_type.induct)
  case (1 depth t st)
  let ?st = "st\<lparr>ts_checked := insert t (ts_checked st)\<rparr>"
  note unfolded = "1.prems"(1) [unfolded visit_type.simps [of depth t]]
  have bound: "\<not> depth > 64" using unfolded by (auto split: if_splits)
  show ?case
  proof (cases "t \<in> ts_checked st")
    case True
    then have "t \<notin> pending" using "1.prems"(3) by auto
    with True unfolded bound "1.prems"(2) show ?thesis by (auto simp: types_inv_def)
  next
    case False
    have inv: "types_inv ?st (insert t pending)" using "1.prems"(2) by (rule types_inv_insert)
    have pend: "\<forall>u \<in> insert t pending. size c < size u" if "size c < size t" for c
      using that "1.prems"(3) by auto
    have step: "(case t of
          PointerT \<Rightarrow> (?st, success)
        | WordT \<Rightarrow> (?st, success)
        | VaListT \<Rightarrow> (?st, success)
        | VaListArgumentT \<Rightarrow> (?st, success)
        | F32T \<Rightarrow> (?st, success)
        | F64T \<Rightarrow> (?st, success)
        | IntegerT width \<Rightarrow>
            (?st, if 1 \<le> width \<and> width \<le> 128 then success else Inl ''artifact contains an unsupported public type'')
        | VectorT scalable shape element \<Rightarrow>
            if scalable \<or> length shape \<noteq> 1 \<or> prod_list shape < 1 \<or> prod_list shape > 1024
            then (?st, Inl ''invalid fixed-vector extent'')
            else if \<not> (is_integer element \<or> is_float element)
            then (?st, Inl ''invalid fixed-vector element type'')
            else visit_type (depth + 1) element ?st
        | FunctionT inputs results \<Rightarrow>
            if length results > 1 then (?st, Inl ''public function type has multiple results'')
            else visit_all (visit_type (depth + 1)) (inputs @ results) ?st
        | ArrayT element count \<Rightarrow>
            if num_elements count > 2 ^ 30 then (?st, Inl ''oversized qualified target array extent'')
            else visit_type (depth + 1) element ?st
        | RecordT i packed members \<Rightarrow>
            (case claim_identity i t ?st of
               (s, Inl e) \<Rightarrow> (s, Inl e)
             | (s, Inr _) \<Rightarrow> visit_all (visit_type (depth + 1)) members s)
        | OverlapT i alternatives domains \<Rightarrow>
            (case check_overlap i alternatives domains of
               Inl e \<Rightarrow> (?st, Inl e)
             | Inr _ \<Rightarrow>
                 (case claim_identity i t ?st of
                    (s, Inl e) \<Rightarrow> (s, Inl e)
                  | (s, Inr _) \<Rightarrow> visit_all (visit_type (depth + 1)) alternatives s))
        | ChoiceT cs \<Rightarrow> (?st, Inl ''artifact contains an unsupported public type'')
        | FloatT s \<Rightarrow> (?st, Inl ''artifact contains an unsupported public type'')
        | OtherT s \<Rightarrow> (?st, Inl ''artifact contains an unsupported public type'')) = (st', Inr ())"
      using unfolded bound False by (simp add: Let_def del: One_nat_def)
    have main: "types_inv st' (insert t pending) \<and> public_type (map_of (ts_identities st')) t \<and> grows st st'"
    proof (cases t)
      case (IntegerT w)
      with step inv show ?thesis by (auto simp: public_type.simps [of _ "IntegerT _"] grows_def split: if_splits)
    next
      case (ArrayT e c)
      then have "visit_type (depth + 1) e ?st = (st', Inr ())" "num_elements c \<le> 2 ^ 30"
        using step by (auto split: if_splits)
      with "1.IH" bound False ArrayT inv pend [of e]
      show ?thesis by (auto simp: public_type.simps [of _ "ArrayT _ _"] grows_def)
    next
      case (VectorT scalable shape e)
      then have "visit_type (depth + 1) e ?st = (st', Inr ())"
        "\<not> scalable \<and> length shape = 1 \<and> 1 \<le> prod_list shape \<and> prod_list shape \<le> 1024 \<and> (is_integer e \<or> is_float e)"
        using step by (auto split: if_splits)
      with "1.IH" bound False VectorT inv pend [of e]
      show ?thesis by (auto simp: public_type.simps [of _ "VectorT _ _ _"] grows_def)
    next
      case (FunctionT as rs)
      then have v: "visit_all (visit_type (depth + 1)) (as @ rs) ?st = (st', Inr ())" "length rs \<le> 1"
        using step by (auto split: if_splits)
      have "types_inv st' (insert t pending) \<and> list_all (public_type (map_of (ts_identities st'))) (as @ rs) \<and> grows ?st st'"
        using v(1) inv
      proof (rule visit_all_inv)
        fix c s s' assume c: "c \<in> set (as @ rs)" "visit_type (depth + 1) c s = (s', Inr ())" "types_inv s (insert t pending)"
        then have "size c < size t" using FunctionT sty_size_mem(3,4) by auto
        with c "1.IH" bound False FunctionT v(2) pend [of c]
        show "types_inv s' (insert t pending) \<and> public_type (map_of (ts_identities s')) c \<and> grows s s'" by auto
      qed
      with FunctionT v(2) show ?thesis by (auto simp: public_type.simps [of _ "FunctionT _ _"] grows_def)
    next
      case (RecordT i p ms)
      from step RecordT obtain s where s: "claim_identity i t ?st = (s, Inr ())"
        "visit_all (visit_type (depth + 1)) ms s = (st', Inr ())"
        by (auto split: prod.splits sum.splits)
      note claimed = claim_identity_inv [OF s(1) inv]
      then have "types_inv s (insert t pending)" by blast
      with s(2) have "types_inv st' (insert t pending) \<and> list_all (public_type (map_of (ts_identities st'))) ms \<and> grows s st'"
      proof (rule visit_all_inv)
        fix c u u' assume c: "c \<in> set ms" "visit_type (depth + 1) c u = (u', Inr ())" "types_inv u (insert t pending)"
        then have "size c < size t" using RecordT sty_size_mem(1) by auto
        with c "1.IH" bound False RecordT s(1) pend [of c]
        show "types_inv u' (insert t pending) \<and> public_type (map_of (ts_identities u')) c \<and> grows u u'" by auto
      qed
      with claimed RecordT show ?thesis
        by (auto simp: public_type.simps [of _ "RecordT _ _ _"] grows_def map_le_def dom_def)
    next
      case (OverlapT i as ds)
      from step OverlapT obtain s where s: "check_overlap i as ds = Inr ()" "claim_identity i t ?st = (s, Inr ())"
        "visit_all (visit_type (depth + 1)) as s = (st', Inr ())"
        by (auto split: prod.splits sum.splits)
      have i: "i \<noteq> []" using s(1) by (auto simp: check_overlap_def)
      note claimed = claim_identity_inv [OF s(2) inv]
      then have "types_inv s (insert t pending)" by blast
      with s(3) have "types_inv st' (insert t pending) \<and> list_all (public_type (map_of (ts_identities st'))) as \<and> grows s st'"
      proof (rule visit_all_inv)
        fix c u u' assume c: "c \<in> set as" "visit_type (depth + 1) c u = (u', Inr ())" "types_inv u (insert t pending)"
        then have "size c < size t" using OverlapT sty_size_mem(2) by auto
        with c "1.IH" bound False OverlapT s(1,2) pend [of c]
        show "types_inv u' (insert t pending) \<and> public_type (map_of (ts_identities u')) c \<and> grows u u'" by auto
      qed
      with claimed OverlapT s(1) i show ?thesis
        by (auto simp: public_type.simps [of _ "OverlapT _ _ _"] grows_def map_le_def dom_def)
    qed (use step inv in \<open>auto simp: public_type.simps grows_def\<close>)
    then show ?thesis by (blast intro: types_inv_close)
  qed
qed

subsection \<open>No error has an empty message\<close>

text \<open>
  The walks record an error by its message and take the empty message for success, so the
  soundness of the result rests on this.
\<close>

definition loud :: "string + 'a \<Rightarrow> bool" where
  "loud r \<longleftrightarrow> r \<noteq> Inl []"

named_theorems loud_intros

lemma loud_Inr [loud_intros]: "loud (Inr x)"
  by (simp add: loud_def)

lemma loud_Inl [loud_intros]: "loud (Inl (c # cs))" "loud (Inl ((c # cs) @ t))"
  by (simp_all add: loud_def)

lemma loud_bindE [loud_intros]: "loud m \<Longrightarrow> (\<And>x. loud (f x)) \<Longrightarrow> loud (bindE m f)"
  by (cases m) (auto simp: loud_def)

lemma loud_if [loud_intros]: "(c \<Longrightarrow> loud a) \<Longrightarrow> (\<not> c \<Longrightarrow> loud b) \<Longrightarrow> loud (if c then a else b)"
  by simp

lemma loud_option [loud_intros]: "loud a \<Longrightarrow> (\<And>x. z = Some x \<Longrightarrow> loud (f x)) \<Longrightarrow> loud (case z of None \<Rightarrow> a | Some x \<Rightarrow> f x)"
  by (cases z) auto

lemma loud_prod [loud_intros]: "(\<And>x y. z = (x, y) \<Longrightarrow> loud (f x y)) \<Longrightarrow> loud (case z of (x, y) \<Rightarrow> f x y)"
  by (cases z) auto

lemma loud_forE [loud_intros]: "(\<And>x. x \<in> set xs \<Longrightarrow> loud (f x)) \<Longrightarrow> loud (forE f xs)"
  by (induction xs) (auto intro!: loud_intros)

lemma loud_sum [loud_intros]:
  "(\<And>e. z = Inl e \<Longrightarrow> loud (f e)) \<Longrightarrow> (\<And>x. z = Inr x \<Longrightarrow> loud (g x)) \<Longrightarrow> loud (case z of Inl e \<Rightarrow> f e | Inr x \<Rightarrow> g x)"
  by (cases z) auto

lemma loud_attr:
  assumes "\<And>w n. a = IntegerA w n \<Longrightarrow> loud (f1 w n)" "\<And>t n. a = FloatA t n \<Longrightarrow> loud (f2 t n)"
    "\<And>s. a = StringA s \<Longrightarrow> loud (f3 s)" "\<And>xs. a = ArrayA xs \<Longrightarrow> loud (f4 xs)"
    "\<And>d. a = DictA d \<Longrightarrow> loud (f5 d)" "\<And>t. a = TypeA t \<Longrightarrow> loud (f6 t)" "a = UnitA \<Longrightarrow> loud f7"
    "\<And>xs. a = DenseI32A xs \<Longrightarrow> loud (f8 xs)" "\<And>s. a = OtherA s \<Longrightarrow> loud (f9 s)"
  shows "loud (case_attr f1 f2 f3 f4 f5 f6 f7 f8 f9 a)"
  using assms by (cases a) auto

lemma loud_sty:
  assumes "loud f1" "loud f2" "loud f3" "loud f4" "\<And>e c. t = ArrayT e c \<Longrightarrow> loud (f5 e c)"
    "\<And>i p ms. t = RecordT i p ms \<Longrightarrow> loud (f6 i p ms)" "\<And>i as ds. t = OverlapT i as ds \<Longrightarrow> loud (f7 i as ds)"
    "\<And>c. t = ChoiceT c \<Longrightarrow> loud (f8 c)" "\<And>as rs. t = FunctionT as rs \<Longrightarrow> loud (f9 as rs)"
    "\<And>w. t = IntegerT w \<Longrightarrow> loud (f10 w)" "\<And>b s e. t = VectorT b s e \<Longrightarrow> loud (f11 b s e)" "loud f12" "loud f13"
    "\<And>s. t = FloatT s \<Longrightarrow> loud (f14 s)" "\<And>s. t = OtherT s \<Longrightarrow> loud (f15 s)"
  shows "loud (case_sty f1 f2 f3 f4 f5 f6 f7 f8 f9 f10 f11 f12 f13 f14 f15 t)"
  using assms by (cases t) auto

lemma loud_foldE [loud_intros]: "(\<And>x s. loud (f x s)) \<Longrightarrow> loud (foldE f xs s)"
  by (induction xs arbitrary: s) (auto intro!: loud_intros)

lemma loud_check_or [loud_intros]: "loud (check_or (c # cs) b)"
  by (simp add: check_or_def loud_def)

lemma loud_publicInteger [loud_intros]: "loud (publicInteger a)"
  unfolding publicInteger_def by (intro loud_intros)

lemma loud_declaredTargets [loud_intros]: "loud (declaredTargets m)"
  unfolding declaredTargets_def by (intro loud_intros)

lemma loud_enclosing [loud_intros]: "loud (enclosing_targets path)"
  unfolding enclosing_targets_def by (intro loud_intros)

lemma loud_check_index [loud_intros]: "loud (check_index i)"
  unfolding check_index_def by (intro loud_intros)

lemma loud_check_abi_attribute [loud_intros]: "loud (check_abi_attribute api a)"
  unfolding check_abi_attribute_def Let_def by (intro loud_intros)

lemma loud_validateAttributeList [loud_intros]: "loud (validateAttributeList api a)"
  unfolding validateAttributeList_def by (intro loud_intros)

lemma loud_check_setting [loud_intros]: "loud (check_setting s)"
  unfolding check_setting_def by (intro loud_intros)

lemma loud_validateLoopOption [loud_intros]: "loud (validateLoopOption option)"
  unfolding validateLoopOption_def by (cases option) (auto intro!: loud_intros)

lemma loud_validateInitializer [loud_intros]: "loud (validateInitializer a depth)"
proof (induction a depth rule: validateInitializer.induct)
  case (1 input depth)
  show ?case
    by (subst validateInitializer.simps, cases input)
      (auto intro!: loud_intros loud_attr intro: 1)
qed

lemma loud_validateInitializerShape [loud_intros]: "loud (validateInitializerShape t a depth)"
proof (induction "size a" arbitrary: t a depth rule: less_induct)
  case less
  have IH: "loud (validateInitializerShape t' b d)" if "size b < size a" for t' b d
    using less that by blast
  show ?case
    apply (subst validateInitializerShape.simps)
    apply (intro loud_intros loud_attr loud_sty)
    apply (auto simp del: attr.size simp: get_as_Some intro!: IH intro: size_array_mem dict_array_mem_size dest: set_zip_rightD)
    done
qed

lemma loud_asm_edge [loud_intros]: "loud (asm_edge cx x e offset)"
  unfolding asm_edge_def Let_def by (intro loud_intros)

lemma loud_asm_argument_count [loud_intros]: "loud (asm_argument_count cx x)"
  unfolding asm_argument_count_def by (intro loud_intros)

lemma loud_asm_contract [loud_intros]:
  "loud (cx_targets cx) \<Longrightarrow> loud (asm_contract parse cx x)"
  unfolding asm_contract_def Let_def by (intro loud_intros)

lemma loud_intrinsic_contract [loud_intros]: "loud (intrinsic_contract cx x)"
  unfolding intrinsic_contract_def Let_def by (intro loud_intros)

lemma loud_shuffle_contract [loud_intros]: "loud (shuffle_contract cx x)"
  unfolding shuffle_contract_def Let_def by (intro loud_intros)

lemma loud_element_contract [loud_intros]: "loud (element_contract cx x)"
  unfolding element_contract_def Let_def by (intro loud_intros)

lemma loud_aggregate_contract [loud_intros]: "loud (aggregate_contract cx x)"
  unfolding aggregate_contract_def Let_def by (intro loud_intros)

lemma loud_validateExtendedInstruction [loud_intros]:
  "loud (cx_targets cx) \<Longrightarrow> loud (validateExtendedInstruction parse cx x)"
  unfolding validateExtendedInstruction_def by (intro loud_intros)

subsection \<open>Steps of the schema walk\<close>

definition quiet :: "message_step \<Rightarrow> bool" where
  "quiet s \<longleftrightarrow> (\<forall>m. s m \<noteq> Inl [] \<and> (\<forall>r. s m = Inr r \<longrightarrow> r = m \<or> r \<noteq> []))"

named_theorems quiet_intros

lemma quiet_Inr [quiet_intros]: "quiet Inr"
  by (simp add: quiet_def)

lemma quiet_stop_if [quiet_intros]: "quiet (stop_if b (c # cs))" "quiet (stop_if b ((c # cs) @ t))"
  by (auto simp: quiet_def stop_if_def)

lemma quiet_note_if [quiet_intros]: "quiet (note_if b (c # cs))"
  by (auto simp: quiet_def note_if_def)

lemma quiet_note_error [quiet_intros]: "publicInteger a = Inl e \<Longrightarrow> quiet (note_if b e)"
  using loud_publicInteger [of a] by (auto simp: quiet_def note_if_def loud_def)

lemma quiet_stop_on [quiet_intros]: "loud r \<Longrightarrow> quiet (stop_on r)"
  by (auto simp: quiet_def stop_on_def loud_def split: sum.splits)

lemma quiet_note_on [quiet_intros]: "loud r \<Longrightarrow> quiet (note_on r)"
  by (auto simp: quiet_def note_on_def loud_def split: sum.splits)

lemma quiet_if [quiet_intros]: "(c \<Longrightarrow> quiet a) \<Longrightarrow> (\<not> c \<Longrightarrow> quiet b) \<Longrightarrow> quiet (if c then a else b)"
  by simp

lemma quiet_option [quiet_intros]:
  "(z = None \<Longrightarrow> quiet a) \<Longrightarrow> (\<And>x. z = Some x \<Longrightarrow> quiet (f x)) \<Longrightarrow> quiet (case z of None \<Rightarrow> a | Some x \<Rightarrow> f x)"
  by (cases z) auto

lemma quiet_sum [quiet_intros]:
  "(\<And>e. z = Inl e \<Longrightarrow> quiet (f e)) \<Longrightarrow> (\<And>x. z = Inr x \<Longrightarrow> quiet (g x)) \<Longrightarrow> quiet (case z of Inl e \<Rightarrow> f e | Inr x \<Rightarrow> g x)"
  by (cases z) auto

lemma run_steps_simps [simp]:
  "run_steps [] m = Inr m"
  "run_steps (s # steps) m = bindE (s m) (run_steps steps)"
  by (simp_all add: run_steps_def)

lemma run_steps_final:
  assumes "\<forall>s \<in> set steps. quiet s" "run_steps steps m = r" "r = Inl [] \<or> r = Inr []"
  shows "r = Inr [] \<and> m = [] \<and> (\<forall>s \<in> set steps. s [] = Inr [])"
  using assms
proof (induction steps arbitrary: m)
  case Nil
  then show ?case by auto
next
  case (Cons s steps)
  have s: "quiet s" using Cons.prems(1) by simp
  show ?case
  proof (cases "s m")
    case (Inl e)
    with s Cons.prems show ?thesis by (auto simp: quiet_def)
  next
    case (Inr n)
    with Cons.prems have "run_steps steps n = r" by simp
    with Cons.prems(1,3) have "r = Inr [] \<and> n = [] \<and> (\<forall>t \<in> set steps. t [] = Inr [])"
      by (intro Cons.IH) auto
    with Inr s show ?thesis by (auto simp: quiet_def)
  qed
qed

lemma quiet_run_steps [quiet_intros]:
  assumes "\<And>s. s \<in> set steps \<Longrightarrow> quiet s"
  shows "quiet (run_steps steps)"
  unfolding quiet_def
proof (intro allI conjI impI notI)
  fix m assume "run_steps steps m = Inl []"
  with run_steps_final [of steps m] assms show False by fastforce
next
  fix m r assume r: "run_steps steps m = Inr r"
  show "r = m \<or> r \<noteq> []"
  proof (cases r)
    case Nil
    with run_steps_final [of steps m] assms r show ?thesis by fastforce
  qed simp
qed

lemma quiet_nested_step [quiet_intros]: "quiet (nested_step field a)"
  unfolding nested_step_def extent_step_def
  by (cases a) (auto intro!: quiet_intros)

lemma quiet_attribute_step [quiet_intros]: "quiet (attribute_step api symbols x fs e)"
  unfolding attribute_step_def case_prod_unfold
  by (intro quiet_run_steps)
    (auto intro!: quiet_intros loud_intros
      simp: codegen_step_def symbol_step_def alignment_step_def initializer_step_def Let_def)

lemma loud_context [simp]: "loud (cx_targets (context_of m path))"
  by (simp add: context_of_def loud_intros)

lemma quiet_schema_op_steps:
  assumes "s \<in> set (schema_op_steps api m symbols v)"
  shows "quiet s"
proof -
  obtain x path where v: "v = (x, path)" by fastforce
  have steps: "quiet (appending_step x)" "quiet (intrinsic_step (declaredTargets m) x)" "quiet (required_step x)"
    "quiet (binary_step api x)" "quiet (cast_step x)" "quiet (compare_step api x)" "quiet (loop_step x)"
    "quiet (argument_locations_step x)"
    unfolding appending_step_def intrinsic_step_def required_step_def binary_step_def cast_step_def
      compare_step_def loop_step_def argument_locations_step_def
    by (auto intro!: quiet_intros loud_intros)
  then show ?thesis
    using assms by (auto simp: v schema_op_steps_def intro!: quiet_intros loud_intros)
qed

lemma schema_op_silent:
  assumes "schema_op api m symbols v msg = []"
  shows "msg = [] \<and> (\<forall>s \<in> set (schema_op_steps api m symbols v). s [] = Inr [])"
proof -
  have "\<forall>s \<in> set (schema_op_steps api m symbols v). quiet s" using quiet_schema_op_steps by blast
  moreover have "run_steps (schema_op_steps api m symbols v) msg = Inl [] \<or>
      run_steps (schema_op_steps api m symbols v) msg = Inr []"
    using assms by (auto simp: schema_op_def split: sum.splits)
  ultimately show ?thesis using run_steps_final by blast
qed

lemma schema_walk_silent:
  "fold (schema_op api m symbols) vs msg = [] \<Longrightarrow>
   msg = [] \<and> (\<forall>v \<in> set vs. \<forall>s \<in> set (schema_op_steps api m symbols v). s [] = Inr [])"
proof (induction vs arbitrary: msg)
  case (Cons v vs)
  then have "schema_op api m symbols v msg = []" "\<forall>w \<in> set vs. \<forall>s \<in> set (schema_op_steps api m symbols w). s [] = Inr []"
    by auto
  with schema_op_silent [of api m symbols v msg] show ?case by auto
qed simp

subsection \<open>The soundness of \<open>validatePublicTypes\<close>\<close>

lemma loud_claim_identity: "loud (snd (claim_identity i t st))"
  unfolding claim_identity_def
  by (cases "map_of (ts_identities st) i") (simp_all add: loud_intros)

lemma loud_check_overlap [loud_intros]: "loud (check_overlap i as ds)"
  unfolding check_overlap_def by (intro loud_intros)

lemma loud_visit_all:
  "(\<And>x s. x \<in> set xs \<Longrightarrow> loud (snd (f x s))) \<Longrightarrow> loud (snd (visit_all f xs s))"
proof (induction xs arbitrary: s)
  case (Cons x xs)
  obtain t r where f: "f x s = (t, r)" by fastforce
  from Cons.prems [of x s] have "loud r" by (simp add: f)
  moreover have "loud (snd (visit_all f xs t))" using Cons.prems by (intro Cons.IH) auto
  ultimately show ?case by (cases r) (simp_all add: f loud_def)
qed (simp add: loud_def)

lemma loud_visit_type: "loud (snd (visit_type depth t st))"
proof (induction "size t" arbitrary: depth t st rule: less_induct)
  case less
  have IH: "loud (snd (visit_type d c s))" if "size c < size t" for d c s
    using less that by blast
  have members: "loud (snd (visit_all (visit_type d) cs s))" if "\<And>c. c \<in> set cs \<Longrightarrow> size c < size t" for d cs s
    using that by (intro loud_visit_all IH)
  have claims: "loud (snd (case claim_identity i t u of (s, Inl e) \<Rightarrow> (s, Inl e) | (s, Inr x) \<Rightarrow> visit_all (visit_type d) cs s))"
    if "\<And>c. c \<in> set cs \<Longrightarrow> size c < size t" for i d cs u
    using members [OF that] loud_claim_identity [of i t u] by (auto simp: loud_def split: prod.splits sum.splits)
  show ?case
  proof (cases t)
    case (RecordT i p ms)
    have "loud (snd (case claim_identity i t u of (s, Inl e) \<Rightarrow> (s, Inl e) | (s, Inr x) \<Rightarrow> visit_all (visit_type (Suc depth)) ms s))" for u
      by (rule claims) (use RecordT sty_size_mem(1) in auto)
    with RecordT show ?thesis
      by (subst visit_type.simps) (auto simp: loud_intros Let_def)
  next
    case (OverlapT i as ds)
    have "loud (snd (case claim_identity i t u of (s, Inl e) \<Rightarrow> (s, Inl e) | (s, Inr x) \<Rightarrow> visit_all (visit_type (Suc depth)) as s))" for u
      by (rule claims) (use OverlapT sty_size_mem(2) in auto)
    with OverlapT loud_check_overlap [of i as ds] show ?thesis
      by (subst visit_type.simps) (auto simp: loud_intros Let_def loud_def split: sum.split)
  next
    case (FunctionT as rs)
    have "loud (snd (visit_all (visit_type (Suc depth)) (as @ rs) u))" for u
      by (rule members) (use FunctionT sty_size_mem(3,4) in auto)
    with FunctionT show ?thesis
      by (subst visit_type.simps) (auto simp: loud_intros Let_def)
  next
    case (ArrayT e c)
    with IH show ?thesis by (subst visit_type.simps) (auto simp: loud_intros Let_def)
  next
    case (VectorT b s e)
    with IH show ?thesis by (subst visit_type.simps) (auto simp: loud_intros Let_def)
  qed (simp_all add: visit_type.simps loud_intros Let_def)
qed

lemma check_public_types_sound:
  assumes "fold check_public_type ts (st, msg) = (st', [])" "types_inv st {}"
  shows "msg = [] \<and> types_inv st' {} \<and> grows st st' \<and> list_all (public_type (map_of (ts_identities st'))) ts"
  using assms
proof (induction ts arbitrary: st msg)
  case (Cons t ts)
  obtain s r where v: "visit_type 0 t st = (s, r)" by fastforce
  show ?case
  proof (cases r)
    case (Inl e)
    with v loud_visit_type [of 0 t st] have "e \<noteq> []" by (simp add: loud_def)
    moreover have "fold check_public_type ts (s, e) = (st', []) \<Longrightarrow> e = []"
      for e s
    proof (induction ts arbitrary: s e)
      case (Cons u us)
      obtain s2 r2 where v2: "visit_type 0 u s = (s2, r2)" by fastforce
      with loud_visit_type [of 0 u s] Cons show ?case
        by (cases r2) (auto simp: check_public_type_def loud_def)
    qed simp
    moreover have "check_public_type t (st, msg) = (s, e)" using Inl v by (simp add: check_public_type_def)
    ultimately have False using Cons.prems(1) by (metis fold_simps(2))
    then show ?thesis ..
  next
    case (Inr u)
    then have inv: "types_inv s {} \<and> public_type (map_of (ts_identities s)) t \<and> grows st s"
      using visit_type_inv [of 0 t st s "{}"] v Cons.prems(2) by simp
    moreover have "check_public_type t (st, msg) = (s, msg)" using Inr v by (simp add: check_public_type_def)
    then have "fold check_public_type ts (s, msg) = (st', [])" using Cons.prems(1) by simp
    ultimately have "msg = [] \<and> types_inv st' {} \<and> grows s st' \<and> list_all (public_type (map_of (ts_identities st'))) ts"
      using Cons.IH by blast
    with inv show ?thesis by (auto intro: public_grows grows_trans)
  qed
qed simp

lemma validatePublicTypes_sound:
  assumes "validatePublicTypes m = Inr ()"
  shows "\<exists>ids. \<forall>t \<in> set (module_types m). public_type ids t"
proof -
  obtain st' msg where f: "fold check_public_type (module_types m) (\<lparr>ts_identities = [], ts_checked = {}\<rparr>, []) = (st', msg)"
    by fastforce
  with assms have "msg = []" by (simp add: validatePublicTypes_def Let_def split: if_splits)
  moreover have "types_inv \<lparr>ts_identities = [], ts_checked = {}\<rparr> {}" by (simp add: types_inv_def)
  ultimately have "list_all (public_type (map_of (ts_identities st'))) (module_types m)"
    using check_public_types_sound [of "module_types m" _ "[]" st'] f by blast
  then show ?thesis by (auto simp: list_all_iff)
qed

section \<open>The closed schema\<close>

text \<open>
  What the published form of an operation may hold: a known operation, only its own fields, all the
  required ones, no source location, and references to defined symbols only.
\<close>

definition admitted_op :: "string set \<Rightarrow> op \<Rightarrow> bool" where
  "admitted_op symbols x \<longleftrightarrow>
     (case map_of allowed_fields (op_name x) of
        None \<Rightarrow> False
      | Some fs \<Rightarrow> fst ` set (op_attrs x) \<subseteq> set fs) \<and>
     (case map_of required_fields (op_name x) of
        None \<Rightarrow> True
      | Some fs \<Rightarrow> \<forall>f \<in> set fs. op_attr x f \<noteq> None) \<and>
     op_unknown_loc x \<and>
     (\<forall>(k, a) \<in> set (op_attrs x). k = ''callee'' \<or> k = ''global'' \<longrightarrow> (\<exists>s \<in> symbols. a = StringA s))"

lemma stop_if_silent: "stop_if b e [] = Inr [] \<longleftrightarrow> \<not> b"
  by (simp add: stop_if_def)

lemma stop_on_silent: "stop_on r [] = Inr [] \<longleftrightarrow> (\<exists>x. r = Inr x)"
  by (cases r) (auto simp: stop_on_def)

lemma attribute_step_silent:
  assumes "attribute_step api symbols x fs (k, a) [] = Inr []"
  shows "k \<in> set fs \<and> (k = ''callee'' \<or> k = ''global'' \<longrightarrow> (\<exists>s \<in> symbols. a = StringA s))"
proof -
  from assms have "k \<in> set fs"
    unfolding attribute_step_def by (auto simp: stop_if_def split: if_splits)
  moreover have "\<exists>s \<in> symbols. a = StringA s" if k: "k = ''callee'' \<or> k = ''global''"
  proof -
    from k have nc: "k \<noteq> ''codegen''" by auto
    from assms k nc have "stop_if (case as_string a of None \<Rightarrow> True | Some s \<Rightarrow> s \<notin> symbols)
          ''active reference has no declaration in its target domain'' [] = Inr []"
      unfolding attribute_step_def
      by (auto simp: bindE_Inr_iff stop_if_def split: if_splits)
    then show ?thesis by (auto simp: stop_if_silent split: option.splits)
  qed
  ultimately show ?thesis by blast
qed

lemma collect_symbols:
  "foldE collect_symbol ops s = Inr symbols \<Longrightarrow>
   symbols = s \<union> {i. \<exists>d \<in> set ops. op_get as_string d ''id'' = Some i}"
proof (induction ops arbitrary: s)
  case (Cons x ops)
  from Cons.prems obtain u where u: "collect_symbol x s = Inr u" "foldE collect_symbol ops u = Inr symbols"
    by (rule foldE_Cons_InrE)
  from u(1) obtain i where i: "op_get as_string x ''id'' = Some i" "u = insert i s"
    by (auto simp: collect_symbol_def split: option.splits if_splits)
  from Cons.IH [OF u(2)] i show ?case by auto
qed simp

definition module_symbols :: "op \<Rightarrow> string set" where
  "module_symbols m = {i. \<exists>d \<in> set (body_ops m). op_get as_string d ''id'' = Some i}"

lemma validateSchema_Inr:
  assumes "validateSchema api m = Inr ()"
  shows "fold (schema_op api m (module_symbols m)) (walk_module m) [] = []" "validatePublicTypes m = Inr ()"
proof -
  from assms obtain symbols where "foldE collect_symbol (body_ops m) {} = Inr symbols"
    "fold (schema_op api m symbols) (walk_module m) [] = []" "validatePublicTypes m = Inr ()"
    unfolding validateSchema_def Let_def
    by (auto elim!: bindE_InrE split: option.splits if_splits)
  then show "fold (schema_op api m (module_symbols m)) (walk_module m) [] = []" "validatePublicTypes m = Inr ()"
    by (auto simp: module_symbols_def dest: collect_symbols)
qed

lemma schema_steps_admitted:
  assumes "\<forall>s \<in> set (schema_op_steps api m symbols (x, path)). s [] = Inr []"
  shows "admitted_op symbols x"
proof -
  have "stop_if (map_of allowed_fields (op_name x) = None) ''unknown required common IR operation'' [] = Inr []"
    "required_step x [] = Inr []"
    "stop_if (\<not> op_unknown_loc x) ''private source/debug locations are forbidden in publication IR'' [] = Inr []"
    using assms by (simp_all add: schema_op_steps_def)
  then have loc: "op_unknown_loc x" "map_of allowed_fields (op_name x) \<noteq> None"
    and req: "case map_of required_fields (op_name x) of None \<Rightarrow> True | Some fs \<Rightarrow> \<forall>f \<in> set fs. op_attr x f \<noteq> None"
    by (auto simp: stop_if_silent required_step_def stop_on_silent forE_success_iff split: option.splits)
  from loc(2) obtain fs where fs: "map_of allowed_fields (op_name x) = Some fs" by blast
  have "k \<in> set fs \<and> (k = ''callee'' \<or> k = ''global'' \<longrightarrow> (\<exists>s \<in> symbols. a = StringA s))"
    if "(k, a) \<in> set (op_attrs x)" for k a
  proof -
    have "attribute_step api symbols x fs (k, a) \<in> set (schema_op_steps api m symbols (x, path))"
      using that fs by (simp add: schema_op_steps_def)
    with assms have "attribute_step api symbols x fs (k, a) [] = Inr []" by (rule bspec)
    then show ?thesis by (rule attribute_step_silent)
  qed
  with loc(1) fs req show ?thesis by (auto simp: admitted_op_def)
qed

lemma validateSchema_admitted:
  assumes "validateSchema api m = Inr ()" "(x, path) \<in> set (walk_module m)"
  shows "admitted_op (module_symbols m) x"
proof -
  have "\<forall>s \<in> set (schema_op_steps api m (module_symbols m) (x, path)). s [] = Inr []"
    using schema_walk_silent [OF validateSchema_Inr(1) [OF assms(1)]] assms(2) by blast
  then show ?thesis by (rule schema_steps_admitted)
qed

lemma validateSchema_types:
  "validateSchema api m = Inr () \<Longrightarrow> \<exists>ids. \<forall>t \<in> set (module_types m). public_type ids t"
  by (intro validatePublicTypes_sound validateSchema_Inr(2))

lemma declaredTargets_known:
  assumes "declaredTargets m = Inr ids"
  shows "distinct ids" "set ids \<subseteq> set all_target_ids" "ids \<noteq> []"
proof -
  obtain vs where vs: "vs \<noteq> []" "foldE (\<lambda>v result. case as_string v of
         None \<Rightarrow> Inl ''unknown or duplicate qualified Sela target''
       | Some i \<Rightarrow> if targets_find i = None \<or> i \<in> set result
                   then Inl ''unknown or duplicate qualified Sela target''
                   else Inr (result @ [i])) vs [] = Inr ids"
    using assms unfolding declaredTargets_def
    by (auto elim!: bindE_InrE split: option.splits if_splits)
  have "distinct ids \<and> set ids \<subseteq> set all_target_ids"
    using vs(2)
    by (rule foldE_invariant)
      (auto simp: targets_find_known_iff [symmetric] split: option.splits if_splits)
  then show "distinct ids" "set ids \<subseteq> set all_target_ids" by auto
  obtain v us where "vs = v # us" using vs(1) by (cases vs) auto
  with vs(2) obtain i where "foldE (\<lambda>v result. case as_string v of
         None \<Rightarrow> Inl ''unknown or duplicate qualified Sela target''
       | Some i \<Rightarrow> if targets_find i = None \<or> i \<in> set result
                   then Inl ''unknown or duplicate qualified Sela target''
                   else Inr (result @ [i])) us [i] = Inr ids"
    by (auto split: option.splits if_splits)
  then show "ids \<noteq> []"
    by (rule foldE_invariant) (auto split: option.splits if_splits)
qed

text \<open>A structurally admitted module is good for every target it declares.\<close>

lemma verifyModuleStructure_specializes:
  assumes "verifyModuleStructure api verifies m = Inr ()" "declaredTargets m = Inr ids" "i \<in> set ids"
  shows "\<exists>info r. targets_find i = Some info \<and> specializeDomains verifies m info = Inr r \<and> validateSchema api r = Inr ()"
proof -
  from assms have "(case targets_find i of None \<Rightarrow> Inl ''unknown target''
      | Some info \<Rightarrow> bindE (specializeDomains verifies m info) (validateSchema api)) = Inr ()"
    unfolding verifyModuleStructure_def
    by (auto simp: forE_success_iff bindE_Inr_iff split: if_splits)
  then show ?thesis by (auto simp: bindE_Inr_iff split: option.splits)
qed

section \<open>Summaries\<close>

lemma summarize_counts:
  "sum_functions (summarize m) + sum_globals (summarize m) + sum_operations (summarize m) =
   length (filter (\<lambda>v. starts_with ''sela.'' (op_name (fst v))) (walk_module m))"
proof -
  have sela: "starts_with ''sela.'' ''sela.func''" "starts_with ''sela.'' ''sela.global''"
    by (simp_all add: starts_with_def)
  have "sum_functions (fold summarize_op vs s) + sum_globals (fold summarize_op vs s) + sum_operations (fold summarize_op vs s) =
      sum_functions s + sum_globals s + sum_operations s + length (filter (\<lambda>v. starts_with ''sela.'' (op_name (fst v))) vs)"
    for vs s
  proof (induction vs arbitrary: s)
    case (Cons v vs)
    then show ?case using sela by (auto simp: summarize_op_def Let_def)
  qed simp
  then show ?thesis by (simp add: summarize_def)
qed

end
