(* ===== verification/Native_Types.thy ===== *)
theory Native_Types
  imports Sela_Prelude
begin

text \<open>
  The part of LLVM's type language the native ABI code inspects, and LLVM's data layout as a
  parameter. A type is its constructor and the constructor's own data (widths, counts, fields); what
  a target makes of it (sizes, alignments, positions) comes from \<open>data_layout\<close>, which stands for
  \<open>llvm::DataLayout\<close>. The facts about it that the ABI code relies on are the named hypothesis
  \<open>layout_ok\<close>. All types of one model belong to one LLVM context.
\<close>

datatype lty =
    VoidTy
  | FloatTy
  | DoubleTy
  | FPTy string nat
  | IntTy nat
  | PtrTy nat
  | VecTy nat lty
  | ArrTy nat lty
  | StructTy string bool "lty list"
  | OpaqueTy string

lemma enumerate_member: "(i, x) \<in> set (List.enumerate n xs) \<Longrightarrow> x \<in> set xs"
  by (auto simp: in_set_enumerate_eq)

lemma lty_field_size [intro]: "x \<in> set fs \<Longrightarrow> size x < size (StructTy s p fs)"
  by (induction fs) auto

lemma lty_element_size [intro]: "size e < size (ArrTy n e)"
  by simp

record function_type =
  ft_result :: lty
  ft_params :: "lty list"
  ft_vararg :: bool

fun isIntegerTy :: "lty \<Rightarrow> bool" where
  "isIntegerTy (IntTy _) = True"
| "isIntegerTy _ = False"

fun isPointerTy :: "lty \<Rightarrow> bool" where
  "isPointerTy (PtrTy _) = True"
| "isPointerTy _ = False"

fun isStructTy :: "lty \<Rightarrow> bool" where
  "isStructTy (StructTy _ _ _) = True"
| "isStructTy _ = False"

fun isFloatingPointTy :: "lty \<Rightarrow> bool" where
  "isFloatingPointTy FloatTy = True"
| "isFloatingPointTy DoubleTy = True"
| "isFloatingPointTy (FPTy _ _) = True"
| "isFloatingPointTy _ = False"

fun getIntegerBitWidth :: "lty \<Rightarrow> nat" where
  "getIntegerBitWidth (IntTy w) = w"
| "getIntegerBitWidth _ = 0"

text \<open>The bits a type has of its own, zero for the types whose size is the target's.\<close>

fun getPrimitiveSizeInBits :: "lty \<Rightarrow> nat" where
  "getPrimitiveSizeInBits FloatTy = 32"
| "getPrimitiveSizeInBits DoubleTy = 64"
| "getPrimitiveSizeInBits (FPTy _ bits) = bits"
| "getPrimitiveSizeInBits (IntTy w) = w"
| "getPrimitiveSizeInBits (VecTy n e) = n * getPrimitiveSizeInBits e"
| "getPrimitiveSizeInBits _ = 0"

record data_layout =
  isSized :: "lty \<Rightarrow> bool"
  getTypeAllocSize :: "lty \<Rightarrow> nat"
  getTypeStoreSize :: "lty \<Rightarrow> nat"
  getABITypeAlign :: "lty \<Rightarrow> nat"
  getElementOffset :: "lty \<Rightarrow> nat \<Rightarrow> nat"
  getElementContainingOffset :: "lty \<Rightarrow> nat \<Rightarrow> nat"

text \<open>
  What the ABI code relies on, as LLVM's language reference documents it: the store size of the
  scalar types, scalars of up to eight bytes aligned within them, an allocation never smaller than a store, arrays without gaps beyond their stride,
  and record elements that lie within the record and do not overlap.
\<close>

definition layout_ok :: "data_layout \<Rightarrow> bool" where
  "layout_ok L \<longleftrightarrow>
     (\<forall>w. getTypeStoreSize L (IntTy w) = (w + 7) div 8) \<and>
     getTypeStoreSize L FloatTy = 4 \<and> getTypeAllocSize L FloatTy = 4 \<and>
     getTypeStoreSize L DoubleTy = 8 \<and> getTypeAllocSize L DoubleTy = 8 \<and>
     getTypeStoreSize L (VecTy 2 FloatTy) = 8 \<and>
     0 < getTypeStoreSize L (PtrTy 0) \<and> getTypeStoreSize L (PtrTy 0) \<le> 8 \<and>
     (\<forall>w > 0. isSized L (IntTy w)) \<and> isSized L FloatTy \<and> isSized L DoubleTy \<and>
     isSized L (PtrTy 0) \<and> isSized L (VecTy 2 FloatTy) \<and>
     getTypeAllocSize L (VecTy 2 FloatTy) = 8 \<and>
     (\<forall>w \<le> 64. getABITypeAlign L (IntTy w) dvd 8) \<and> getABITypeAlign L FloatTy dvd 8 \<and>
     getABITypeAlign L DoubleTy dvd 8 \<and> getABITypeAlign L (PtrTy 0) dvd 8 \<and>
     getABITypeAlign L (VecTy 2 FloatTy) dvd 8 \<and>
     (\<forall>t. getTypeStoreSize L t \<le> getTypeAllocSize L t) \<and>
     (\<forall>t. 0 < getABITypeAlign L t) \<and>
     (\<forall>n e. getTypeStoreSize L (ArrTy n e) = n * getTypeAllocSize L e \<and>
            getTypeAllocSize L (ArrTy n e) = n * getTypeAllocSize L e) \<and>
     (\<forall>s p fs i. i < length fs \<longrightarrow>
        getElementOffset L (StructTy s p fs) i + getTypeAllocSize L (fs ! i)
          \<le> getTypeStoreSize L (StructTy s p fs)) \<and>
     (\<forall>s p fs i j. i < j \<and> j < length fs \<longrightarrow>
        getElementOffset L (StructTy s p fs) i + getTypeAllocSize L (fs ! i)
          \<le> getElementOffset L (StructTy s p fs) j)"

lemma layout_okD:
  assumes "layout_ok L"
  shows "getTypeStoreSize L (IntTy w) = (w + 7) div 8"
    and "getTypeStoreSize L FloatTy = 4" and "getTypeAllocSize L FloatTy = 4"
    and "getTypeStoreSize L DoubleTy = 8" and "getTypeAllocSize L DoubleTy = 8"
    and "getTypeStoreSize L (VecTy 2 FloatTy) = 8"
    and "getTypeStoreSize L t \<le> getTypeAllocSize L t"
    and "0 < getABITypeAlign L t"
    and "getTypeStoreSize L (ArrTy n e) = n * getTypeAllocSize L e"
    and "getTypeAllocSize L (ArrTy n e) = n * getTypeAllocSize L e"
    and "i < length fs \<Longrightarrow> getElementOffset L (StructTy s p fs) i + getTypeAllocSize L (fs ! i)
           \<le> getTypeStoreSize L (StructTy s p fs)"
    and "i < j \<Longrightarrow> j < length fs \<Longrightarrow> getElementOffset L (StructTy s p fs) i + getTypeAllocSize L (fs ! i)
           \<le> getElementOffset L (StructTy s p fs) j"
  using assms unfolding layout_ok_def by simp_all

lemma layout_sizedD:
  assumes "layout_ok L"
  shows "0 < getTypeStoreSize L (PtrTy 0)" and "getTypeStoreSize L (PtrTy 0) \<le> 8"
    and "0 < w \<Longrightarrow> isSized L (IntTy w)" and "isSized L FloatTy" and "isSized L DoubleTy"
    and "isSized L (PtrTy 0)" and "isSized L (VecTy 2 FloatTy)"
    and "getTypeAllocSize L (VecTy 2 FloatTy) = 8"
    and "w \<le> 64 \<Longrightarrow> getABITypeAlign L (IntTy w) dvd 8" and "getABITypeAlign L FloatTy dvd 8"
    and "getABITypeAlign L DoubleTy dvd 8" and "getABITypeAlign L (PtrTy 0) dvd 8"
    and "getABITypeAlign L (VecTy 2 FloatTy) dvd 8"
  using assms unfolding layout_ok_def by simp_all

text \<open>\<open>llvm::alignTo\<close> and \<open>llvm::divideCeil\<close>; \<open>llvm::commonAlignment\<close> of a power of two.\<close>

definition divideCeil :: "nat \<Rightarrow> nat \<Rightarrow> nat" where
  "divideCeil n d = (n + d - 1) div d"

definition alignTo :: "nat \<Rightarrow> nat \<Rightarrow> nat" where
  "alignTo n a = divideCeil n a * a"

definition commonAlignment :: "nat \<Rightarrow> nat \<Rightarrow> nat" where
  "commonAlignment a offset = gcd a offset"

text \<open>Subtraction of 64-bit unsigned numbers.\<close>

definition usub64 :: "nat \<Rightarrow> nat \<Rightarrow> nat" where
  "usub64 a b = (if b \<le> a then a - b else 2 ^ 64 + a - b)"

lemma usub64_le [simp]: "b \<le> a \<Longrightarrow> usub64 a b = a - b"
  by (simp add: usub64_def)

lemma divideCeil_le:
  assumes "0 < d" shows "n \<le> divideCeil n d * d"
proof -
  have "(n + d - 1) div d * d + (n + d - 1) mod d = n + d - 1" by simp
  moreover have "(n + d - 1) mod d < d" using assms by simp
  ultimately show ?thesis unfolding divideCeil_def by linarith
qed

lemma divideCeil_below:
  assumes "i < divideCeil n d" "0 < d" shows "i * d < n"
proof -
  have "(i + 1) * d \<le> (n + d - 1) div d * d" using assms by (intro mult_le_mono1) (simp add: divideCeil_def)
  also have "\<dots> \<le> n + d - 1" by (metis div_times_less_eq_dividend)
  finally show ?thesis using assms(2) by simp
qed

lemma alignTo_dvd: "a dvd n \<Longrightarrow> 0 < a \<Longrightarrow> alignTo n a = n"
proof -
  assume "a dvd n" "0 < a"
  then obtain k where "n = a * k" by (auto elim: dvdE)
  then have "(n + a - 1) div a = k"
    using \<open>0 < a\<close> by (cases "a = 1") (auto simp: div_mult2_eq algebra_simps div_nat_eqI)
  with \<open>n = a * k\<close> show ?thesis by (simp add: alignTo_def divideCeil_def)
qed

section \<open>Classified values\<close>

datatype NativeABIKind = Direct | Coerce | Expand | Indirect

record NativeABIPiece =
  np_type :: lty
  np_offset :: nat

record NativeABIValue =
  nv_kind :: NativeABIKind
  nv_storageType :: lty
  nv_storageSize :: nat
  nv_storageAlignment :: nat
  nv_abiAlignment :: nat
  nv_stackAlignment :: "nat option"
  nv_pieces :: "NativeABIPiece list"
  nv_nativeBegin :: nat
  nv_nativeCount :: nat
  nv_byVal :: bool
  nv_sRet :: bool

record NativeABISignature =
  ns_nativeType :: function_type
  ns_result :: NativeABIValue
  ns_parameters :: "NativeABIValue list"
  ns_sretIndex :: "nat option"
  ns_remainingGP :: nat
  ns_remainingSSE :: nat

definition piece :: "lty \<Rightarrow> nat \<Rightarrow> NativeABIPiece" where
  "piece t offset = \<lparr>np_type = t, np_offset = offset\<rparr>"

lemma piece_simps [simp]: "np_type (piece t n) = t" "np_offset (piece t n) = n"
  by (simp_all add: piece_def)

text \<open>A value with every member at its initial value but the type and extent of its storage.\<close>

definition native_value :: "lty \<Rightarrow> nat \<Rightarrow> nat \<Rightarrow> NativeABIValue" where
  "native_value t bytes alignment =
     \<lparr>nv_kind = Direct, nv_storageType = t, nv_storageSize = bytes, nv_storageAlignment = alignment,
      nv_abiAlignment = alignment, nv_stackAlignment = None, nv_pieces = [], nv_nativeBegin = 0,
      nv_nativeCount = 0, nv_byVal = False, nv_sRet = False\<rparr>"

definition opaque_pointer :: lty where "opaque_pointer = PtrTy 0"

text \<open>The registers the pieces of a value take: the general bank for integers and pointers, else SSE.\<close>

definition general_piece :: "NativeABIPiece \<Rightarrow> bool" where
  "general_piece p = (isIntegerTy (np_type p) \<or> isPointerTy (np_type p))"

definition piece_gp :: "NativeABIPiece list \<Rightarrow> nat" where
  "piece_gp ps = length (filter general_piece ps)"

definition piece_sse :: "NativeABIPiece list \<Rightarrow> nat" where
  "piece_sse ps = length (filter (\<lambda>p. \<not> general_piece p) ps)"

lemma piece_count_simps [simp]:
  "piece_gp [] = 0" "piece_sse [] = 0"
  "piece_gp (p # ps) = (if general_piece p then Suc (piece_gp ps) else piece_gp ps)"
  "piece_sse (p # ps) = (if general_piece p then piece_sse ps else Suc (piece_sse ps))"
  "piece_gp (ps @ qs) = piece_gp ps + piece_gp qs" "piece_sse (ps @ qs) = piece_sse ps + piece_sse qs"
  by (simp_all add: piece_gp_def piece_sse_def)

datatype NativeABIRecordKind = Ordered | Union

record NativeABIFieldLayout =
  fl_type :: lty
  fl_bitOffset :: nat
  fl_bitWidth :: "nat option"
  fl_padding :: bool

record NativeABIRecordLayout =
  rl_storageType :: lty
  rl_kind :: NativeABIRecordKind
  rl_sizeBytes :: nat
  rl_alignment :: nat
  rl_fields :: "NativeABIFieldLayout list"

end
