(* ===== verification/Abi_Pieces.thy ===== *)
theory Abi_Pieces
  imports Native_Types
begin

text \<open>
  Access to the native pieces of an aggregate (AggregateABI.cpp): the checks of \<open>validateAccess\<close> and
  the code that \<open>loadPiece\<close> and \<open>storePiece\<close> emit. Emitted code is data: a value is the tree of
  instructions that computes it, a store names its value, type, offset and alignment. Addresses are
  offsets from the storage pointer.
\<close>

section \<open>Admission\<close>

definition scalar :: "lty \<Rightarrow> bool \<Rightarrow> bool" where
  "scalar type field =
     (case type of
        PtrTy space \<Rightarrow> space = 0
      | FloatTy \<Rightarrow> True
      | DoubleTy \<Rightarrow> True
      | IntTy w \<Rightarrow> (\<not> field \<and> w = 1) \<or> w = 8 \<or> w = 16 \<or> w = 32 \<or> w = 64
      | _ \<Rightarrow> False)"

definition nativePieceScalar :: "lty \<Rightarrow> bool" where
  "nativePieceScalar type =
     (scalar type False \<or> (case type of IntTy w \<Rightarrow> w \<le> 128 \<and> w mod 8 = 0 | _ \<Rightarrow> False))"

fun validPieceType :: "data_layout \<Rightarrow> lty \<Rightarrow> nat \<Rightarrow> bool" where
  "validPieceType L type depth =
     (if depth > 32 \<or> \<not> isSized L type then False
      else if nativePieceScalar type then True
      else case type of
        VecTy n e \<Rightarrow> n = 2 \<and> e = FloatTy
      | ArrTy n e \<Rightarrow> n > 0 \<and> n \<le> 64 \<and> validPieceType L e (depth + 1)
      | StructTy s p members \<Rightarrow>
          members \<noteq> [] \<and> length members \<le> 64 \<and> list_all (\<lambda>f. validPieceType L f (depth + 1)) members
      | _ \<Rightarrow> False)"

declare validPieceType.simps [simp del]

function validPieceExtent :: "data_layout \<Rightarrow> lty \<Rightarrow> nat \<Rightarrow> nat \<Rightarrow> bool" where
  "validPieceExtent L type offset extent =
     (if offset \<ge> extent then False
      else if getTypeStoreSize L type \<le> extent - offset then True
      else if isIntegerTy type then True
      else case type of
        ArrTy n e \<Rightarrow>
          list_all (\<lambda>i. validPieceExtent L e (offset + i * getTypeAllocSize L e) extent) [0..<n]
      | StructTy s p members \<Rightarrow>
          list_all (\<lambda>(i, f). validPieceExtent L f (offset + getElementOffset L type i) extent)
            (List.enumerate 0 members)
      | _ \<Rightarrow> False)"
  by pat_completeness auto

termination
  by (relation "measure (\<lambda>(L, t, offset, extent). size t)") (auto dest!: enumerate_member simp del: lty.size)

declare validPieceExtent.simps [simp del]

text \<open>
  The insertion point of the builder and the storage operand, as far as \<open>validateAccess\<close> looks at
  them; \<open>MaximumAlignment\<close> is LLVM's bound on the alignment of a memory access.
\<close>

record access_site =
  as_inModule :: bool
  as_ordinaryPointer :: bool
  as_sameContext :: bool
  as_layout :: data_layout
  as_defaultLayout :: bool

definition MaximumAlignment :: nat where "MaximumAlignment = 2 ^ 32"

definition check_piece :: "data_layout \<Rightarrow> nat \<Rightarrow> NativeABIPiece \<Rightarrow> nat \<Rightarrow> nat expected" where
  "check_piece L extent p end' =
     (if \<not> validPieceType L (np_type p) 0 then Inl ''native aggregate ABI: invalid native piece type''
      else if np_offset p < end' \<or> \<not> validPieceExtent L (np_type p) (np_offset p) extent
      then Inl ''native aggregate ABI: overlapping or out-of-bounds native pieces''
      else Inr (np_offset p + min (getTypeStoreSize L (np_type p)) (usub64 extent (np_offset p))))"

definition validateAccess :: "access_site \<Rightarrow> NativeABIValue \<Rightarrow> nat \<Rightarrow> unit expected" where
  "validateAccess site v alignment =
     (let L = as_layout site in
      if \<not> as_inModule site \<or> \<not> as_ordinaryPointer site
      then Inl ''native aggregate ABI: piece access requires an insertion module and ordinary storage pointer''
      else if \<not> as_sameContext site
      then Inl ''native aggregate ABI: piece storage belongs to another LLVM context''
      else if \<not> isSized L (nv_storageType v) \<or> nv_kind v = Indirect \<or> nv_pieces v = [] \<or>
              alignment > MaximumAlignment
      then Inl ''native aggregate ABI: invalid direct piece descriptor or storage alignment''
      else if as_defaultLayout site \<or> getTypeAllocSize L (nv_storageType v) \<noteq> nv_storageSize v
      then Inl ''native aggregate ABI: piece storage disagrees with the insertion module data layout''
      else bindE (foldE (check_piece L (nv_storageSize v)) (nv_pieces v) 0) (\<lambda>_. success))"

section \<open>Emitted code\<close>

datatype abi_value =
    ArgV nat
  | UndefV lty
  | LoadV lty nat nat
  | ZExtV abi_value lty
  | TruncV abi_value lty
  | InsertV abi_value abi_value nat
  | ExtractV abi_value nat

datatype abi_store = StoreV abi_value lty nat nat

function loadPiece :: "data_layout \<Rightarrow> nat \<Rightarrow> nat \<Rightarrow> lty \<Rightarrow> nat \<Rightarrow> abi_value" where
  "loadPiece L extent alignment type offset =
     (let at = commonAlignment alignment offset in
      if getTypeStoreSize L type \<le> usub64 extent offset then LoadV type offset at
      else if isIntegerTy type
      then ZExtV (LoadV (IntTy (usub64 extent offset * 8)) offset at) type
      else case type of
        ArrTy n e \<Rightarrow>
          fold (\<lambda>i result. InsertV result (loadPiece L extent alignment e (offset + i * getTypeAllocSize L e)) i)
            [0..<n] (UndefV type)
      | StructTy s p members \<Rightarrow>
          fold (\<lambda>(i, f) result. InsertV result (loadPiece L extent alignment f (offset + getElementOffset L type i)) i)
            (List.enumerate 0 members) (UndefV type)
      | _ \<Rightarrow> UndefV type)"
  by pat_completeness auto

termination
  by (relation "measure (\<lambda>(L, extent, alignment, t, offset). size t)")
    (auto dest!: enumerate_member simp del: lty.size)

declare loadPiece.simps [simp del]

function storePiece :: "data_layout \<Rightarrow> nat \<Rightarrow> nat \<Rightarrow> lty \<Rightarrow> abi_value \<Rightarrow> nat \<Rightarrow> abi_store list" where
  "storePiece L extent alignment type v offset =
     (let at = commonAlignment alignment offset in
      if getTypeStoreSize L type \<le> usub64 extent offset then [StoreV v type offset at]
      else if isIntegerTy type
      then let memoryType = IntTy (usub64 extent offset * 8)
           in [StoreV (TruncV v memoryType) memoryType offset at]
      else case type of
        ArrTy n e \<Rightarrow>
          concat (map (\<lambda>i. storePiece L extent alignment e (ExtractV v i) (offset + i * getTypeAllocSize L e)) [0..<n])
      | StructTy s p members \<Rightarrow>
          concat (map (\<lambda>(i, f). storePiece L extent alignment f (ExtractV v i) (offset + getElementOffset L type i))
            (List.enumerate 0 members))
      | _ \<Rightarrow> [])"
  by pat_completeness auto

termination
  by (relation "measure (\<lambda>(L, extent, alignment, t, v, offset). size t)")
    (auto dest!: enumerate_member simp del: lty.size)

declare storePiece.simps [simp del]

definition loadNativeABIPieces :: "access_site \<Rightarrow> NativeABIValue \<Rightarrow> nat \<Rightarrow> abi_value list expected" where
  "loadNativeABIPieces site v baseAlignment =
     bindE (validateAccess site v baseAlignment) (\<lambda>_.
     Inr (map (\<lambda>p. loadPiece (as_layout site) (nv_storageSize v) baseAlignment (np_type p) (np_offset p))
       (nv_pieces v)))"

text \<open>The operands are given by their types, \<open>None\<close> for a missing one.\<close>

definition storeNativeABIPieces ::
  "access_site \<Rightarrow> NativeABIValue \<Rightarrow> nat \<Rightarrow> lty option list \<Rightarrow> abi_store list expected" where
  "storeNativeABIPieces site v baseAlignment operands =
     bindE (validateAccess site v baseAlignment) (\<lambda>_.
     if length operands \<noteq> length (nv_pieces v) then Inl ''native aggregate ABI: wrong native piece count''
     else if \<not> list_all2 (\<lambda>o' p. o' = Some (np_type p)) operands (nv_pieces v)
     then Inl ''native aggregate ABI: wrong native piece value type''
     else Inr (concat (map (\<lambda>(i, p). storePiece (as_layout site) (nv_storageSize v) baseAlignment (np_type p)
                                        (ArgV i) (np_offset p))
                 (List.enumerate 0 (nv_pieces v)))))"

section \<open>The memory an access touches\<close>

text \<open>The accesses of emitted code, as offset and number of bytes, in the order they are emitted.\<close>

fun loads_of :: "data_layout \<Rightarrow> abi_value \<Rightarrow> (nat \<times> nat) list" where
  "loads_of L (LoadV t offset at) = [(offset, getTypeStoreSize L t)]"
| "loads_of L (ZExtV v t) = loads_of L v"
| "loads_of L (TruncV v t) = loads_of L v"
| "loads_of L (InsertV a v i) = loads_of L a @ loads_of L v"
| "loads_of L (ExtractV v i) = loads_of L v"
| "loads_of L _ = []"

fun store_of :: "data_layout \<Rightarrow> abi_store \<Rightarrow> nat \<times> nat" where
  "store_of L (StoreV v t offset at) = (offset, getTypeStoreSize L t)"

text \<open>Accesses in ascending order, without overlap, between two offsets.\<close>

fun ordered_within :: "nat \<Rightarrow> (nat \<times> nat) list \<Rightarrow> nat \<Rightarrow> bool" where
  "ordered_within lo [] hi \<longleftrightarrow> lo \<le> hi"
| "ordered_within lo ((p, n) # xs) hi \<longleftrightarrow> lo \<le> p \<and> ordered_within (p + n) xs hi"

lemma ordered_within_le: "ordered_within lo xs hi \<Longrightarrow> lo \<le> hi"
  by (induction lo xs hi rule: ordered_within.induct) auto

lemma ordered_within_append:
  "ordered_within lo xs mid \<Longrightarrow> ordered_within mid ys hi \<Longrightarrow> ordered_within lo (xs @ ys) hi"
proof (induction lo xs mid rule: ordered_within.induct)
  case (1 lo mid)
  then show ?case by (cases ys) auto
qed auto

lemma ordered_within_mono: "ordered_within lo xs hi \<Longrightarrow> lo' \<le> lo \<Longrightarrow> hi \<le> hi' \<Longrightarrow> ordered_within lo' xs hi'"
  by (induction lo xs hi arbitrary: lo' rule: ordered_within.induct) auto

text \<open>Segments that each keep to their own part, in order.\<close>

lemma ordered_within_segments:
  assumes "\<And>i. i < n \<Longrightarrow> ordered_within (b i) (f i) (e i)"
    and "\<And>i. Suc i < n \<Longrightarrow> e i \<le> b (Suc i)"
    and "0 < n \<Longrightarrow> lo \<le> b 0" and "\<And>i. i < n \<Longrightarrow> e i \<le> hi" and "lo \<le> hi"
  shows "ordered_within lo (concat (map f [0..<n])) hi"
proof -
  have "m \<le> n \<Longrightarrow> ordered_within lo (concat (map f [0..<m])) (if m = 0 then lo else e (m - 1))" for m
  proof (induction m)
    case 0
    then show ?case by simp
  next
    case (Suc m)
    have seg: "ordered_within (b m) (f m) (e m)" using assms(1) Suc.prems by simp
    have "(if m = 0 then lo else e (m - 1)) \<le> b m"
      using assms(2) [of "m - 1"] assms(3) Suc.prems by (cases m) auto
    with seg have "ordered_within (if m = 0 then lo else e (m - 1)) (f m) (e m)"
      by (auto intro: ordered_within_mono)
    with Suc show ?case by (auto intro: ordered_within_append)
  qed
  from this [of n] have "ordered_within lo (concat (map f [0..<n])) (if n = 0 then lo else e (n - 1))" by simp
  then show ?thesis
    using assms(4) [of "n - 1"] assms(5) by (auto intro: ordered_within_mono split: if_splits)
qed

section \<open>Loads, stores and bounds\<close>

lemma loads_of_fold:
  "loads_of L (fold (\<lambda>x r. InsertV r (g x) (h x)) xs v) = loads_of L v @ concat (map (\<lambda>x. loads_of L (g x)) xs)"
  by (induction xs arbitrary: v) auto

text \<open>A load and a store of the same piece touch the same bytes, in the same order.\<close>

lemma load_store_accesses:
  "loads_of L (loadPiece L extent al t offset) = map (store_of L) (storePiece L extent al t v offset)"
proof (induction L extent al t v offset rule: storePiece.induct)
  case (1 L extent al t v offset)
  show ?case
  proof (cases "getTypeStoreSize L t \<le> usub64 extent offset \<or> isIntegerTy t")
    case True
    then show ?thesis by (auto simp: loadPiece.simps [of _ _ _ t] Let_def storePiece.simps [of _ _ _ t])
  next
    case False
    then show ?thesis
    proof (cases t)
      case (ArrTy n e)
      have "loads_of L (loadPiece L extent al e (offset + i * getTypeAllocSize L e)) =
          map (store_of L) (storePiece L extent al e (ExtractV v i) (offset + i * getTypeAllocSize L e))"
        if "i \<in> set [0..<n]" for i
        using "1.IH"(1) [OF refl _ _ ArrTy that] False by simp
      then have "map (\<lambda>i. loads_of L (loadPiece L extent al e (offset + i * getTypeAllocSize L e))) [0..<n] =
          map (\<lambda>i. map (store_of L) (storePiece L extent al e (ExtractV v i) (offset + i * getTypeAllocSize L e))) [0..<n]"
        by (intro map_cong refl)
      with False ArrTy show ?thesis
        by (simp add: loadPiece.simps [of _ _ _ "ArrTy n e"] Let_def storePiece.simps [of _ _ _ "ArrTy n e"] loads_of_fold map_concat comp_def
            del: map_eq_conv)
    next
      case (StructTy s p fs)
      have "loads_of L (loadPiece L extent al f (offset + getElementOffset L t i)) =
          map (store_of L) (storePiece L extent al f (ExtractV v i) (offset + getElementOffset L t i))"
        if "(i, f) \<in> set (List.enumerate 0 fs)" for i f
        using "1.IH"(2) [OF refl _ _ StructTy that] False StructTy by simp
      then have "map (\<lambda>x. loads_of L (case x of (i, f) \<Rightarrow> loadPiece L extent al f (offset + getElementOffset L t i)))
            (List.enumerate 0 fs) =
          map (\<lambda>x. map (store_of L) (case x of (i, f) \<Rightarrow> storePiece L extent al f (ExtractV v i) (offset + getElementOffset L t i)))
            (List.enumerate 0 fs)"
        by (intro map_cong) auto
      with False StructTy show ?thesis
        by (simp add: loadPiece.simps [of _ _ _ "StructTy s p fs"] Let_def storePiece.simps [of _ _ _ "StructTy s p fs"] loads_of_fold map_concat comp_def
            case_prod_unfold del: map_eq_conv)
    qed (auto simp: loadPiece.simps storePiece.simps Let_def)
  qed
qed

lemma piece_end_le:
  fixes a :: nat
  assumes "offset + a < extent" "a + s \<le> n"
  shows "offset + a + min s (extent - (offset + a)) \<le> offset + min n (extent - offset)"
  using assms by linarith

text \<open>An admitted piece is accessed inside the extent, and within its own store size.\<close>

lemma load_in_extent:
  assumes "layout_ok L" "validPieceExtent L t offset extent"
  shows "ordered_within offset (loads_of L (loadPiece L extent al t offset))
    (offset + min (getTypeStoreSize L t) (extent - offset))"
  using assms
proof (induction L extent al t offset rule: loadPiece.induct)
  case (1 L extent al t offset)
  note lay = layout_okD [OF "1.prems"(1)]
  from "1.prems"(2) have o: "offset < extent" by (simp add: validPieceExtent.simps [of _ t] split: if_splits)
  show ?case
  proof (cases "getTypeStoreSize L t \<le> extent - offset \<or> isIntegerTy t")
    case True
    then show ?thesis
      using o by (auto simp: loadPiece.simps [of _ _ _ t] Let_def lay(1))
  next
    case False
    note bounds = "1.prems"(2) False o
    show ?thesis
    proof (cases t)
      case (ArrTy n e)
      have ok: "validPieceExtent L e (offset + i * getTypeAllocSize L e) extent" if "i < n" for i
        using bounds that ArrTy by (simp add: validPieceExtent.simps [of _ "ArrTy n e"] list_all_iff split: if_splits)
      let ?b = "\<lambda>i. offset + i * getTypeAllocSize L e"
      let ?e = "\<lambda>i. ?b i + min (getTypeStoreSize L e) (extent - ?b i)"
      have seg: "ordered_within (?b i) (loads_of L (loadPiece L extent al e (?b i))) (?e i)" if "i < n" for i
        using "1.IH"(1) [OF refl _ _ ArrTy _ "1.prems"(1) ok [OF that]] False that o by simp
      have "?e i \<le> ?b (Suc i)" for i using lay(7) [of e] by simp
      moreover have "?e i \<le> offset + min (getTypeStoreSize L t) (extent - offset)" if "i < n" for i
      proof -
        have "?b i < extent" using ok [OF that] by (simp add: validPieceExtent.simps [of _ e] split: if_splits)
        moreover have "Suc i * getTypeAllocSize L e \<le> n * getTypeAllocSize L e"
          using that by (intro mult_le_mono1) simp
        ultimately show ?thesis using lay(7) [of e] lay(9) [of n e] ArrTy by (intro piece_end_le) simp_all
      qed
      ultimately have "ordered_within offset (concat (map (\<lambda>i. loads_of L (loadPiece L extent al e (?b i))) [0..<n]))
          (offset + min (getTypeStoreSize L t) (extent - offset))"
        by (intro ordered_within_segments [where b = ?b and e = ?e] seg) simp_all
      with False o ArrTy show ?thesis by (simp add: loadPiece.simps [of _ _ _ "ArrTy n e"] Let_def loads_of_fold)
    next
      case (StructTy s p fs)
      have ok: "validPieceExtent L (fs ! i) (offset + getElementOffset L t i) extent" if "i < length fs" for i
        using bounds that StructTy
        by (force simp: validPieceExtent.simps [of _ "StructTy s p fs"] list_all_iff in_set_enumerate_eq split: if_splits)
      let ?b = "\<lambda>i. offset + getElementOffset L t i"
      let ?e = "\<lambda>i. ?b i + min (getTypeStoreSize L (fs ! i)) (extent - ?b i)"
      have seg: "ordered_within (?b i) (loads_of L (loadPiece L extent al (fs ! i) (?b i))) (?e i)"
        if "i < length fs" for i
        using "1.IH"(2) [OF refl _ _ StructTy _ refl "1.prems"(1) ok [OF that]] False that o StructTy
        by (simp add: in_set_enumerate_eq)
      have "?e i \<le> ?b (Suc i)" if "Suc i < length fs" for i
        using lay(12) [of i "Suc i" fs s p] lay(7) [of "fs ! i"] that StructTy by simp
      moreover have "?e i \<le> offset + min (getTypeStoreSize L t) (extent - offset)" if "i < length fs" for i
      proof -
        have "?b i < extent" using ok [OF that] by (simp add: validPieceExtent.simps [of _ "fs ! i"] split: if_splits)
        with lay(11) [of i fs s p] lay(7) [of "fs ! i"] that StructTy show ?thesis by (intro piece_end_le) simp_all
      qed
      ultimately have "ordered_within offset
          (concat (map (\<lambda>i. loads_of L (loadPiece L extent al (fs ! i) (?b i))) [0..<length fs]))
          (offset + min (getTypeStoreSize L t) (extent - offset))"
        by (intro ordered_within_segments [where b = ?b and e = ?e] seg) simp_all
      moreover have "map (\<lambda>(i, f). loads_of L (loadPiece L extent al f (?b i))) (List.enumerate 0 fs) =
          map (\<lambda>i. loads_of L (loadPiece L extent al (fs ! i) (?b i))) [0..<length fs]"
        by (intro nth_equalityI) (simp_all add: nth_enumerate_eq)
      ultimately show ?thesis using False o StructTy
        by (simp add: loadPiece.simps [of _ _ _ "StructTy s p fs"] Let_def loads_of_fold case_prod_unfold)
    qed (use bounds in \<open>auto simp: validPieceExtent.simps\<close>)
  qed
qed

text \<open>The pieces of an admitted descriptor are accessed in order and inside the storage.\<close>

lemma pieces_in_storage:
  assumes "layout_ok L" "foldE (check_piece L extent) ps lo = Inr hi" "lo \<le> extent"
  shows "ordered_within lo (concat (map (\<lambda>p. loads_of L (loadPiece L extent al (np_type p) (np_offset p))) ps)) extent"
  using assms(2,3)
proof (induction ps arbitrary: lo)
  case Nil
  then show ?case by simp
next
  case (Cons p ps)
  from Cons.prems(1) obtain mid where mid: "check_piece L extent p lo = Inr mid"
    "foldE (check_piece L extent) ps mid = Inr hi" by (rule foldE_Cons_InrE)
  from mid(1) have p: "lo \<le> np_offset p" "validPieceExtent L (np_type p) (np_offset p) extent"
    by (auto simp: check_piece_def split: if_splits)
  from p(2) have "np_offset p < extent" by (simp add: validPieceExtent.simps [of _ "np_type p"] split: if_splits)
  with mid(1) have m: "mid = np_offset p + min (getTypeStoreSize L (np_type p)) (extent - np_offset p)" "mid \<le> extent"
    by (auto simp: check_piece_def split: if_splits)
  have "ordered_within lo (loads_of L (loadPiece L extent al (np_type p) (np_offset p))) mid"
    using load_in_extent [OF assms(1) p(2)] p(1) m(1) by (auto intro: ordered_within_mono)
  with Cons.IH [OF mid(2) m(2)] show ?case by (simp add: ordered_within_append)
qed

lemma validateAccess_Inr:
  assumes "validateAccess site v al = Inr ()"
  shows "nv_kind v \<noteq> Indirect" "nv_pieces v \<noteq> []"
    "getTypeAllocSize (as_layout site) (nv_storageType v) = nv_storageSize v"
    "\<exists>hi. foldE (check_piece (as_layout site) (nv_storageSize v)) (nv_pieces v) 0 = Inr hi"
  using assms by (auto simp: validateAccess_def Let_def bindE_Inr_iff split: if_splits)

lemma load_accesses_in_storage:
  assumes "layout_ok (as_layout site)" "loadNativeABIPieces site v al = Inr vs"
  shows "ordered_within 0 (concat (map (loads_of (as_layout site)) vs))
    (getTypeAllocSize (as_layout site) (nv_storageType v))"
proof -
  from assms(2) have acc: "validateAccess site v al = Inr ()"
    and vs: "vs = map (\<lambda>p. loadPiece (as_layout site) (nv_storageSize v) al (np_type p) (np_offset p)) (nv_pieces v)"
    by (auto simp: loadNativeABIPieces_def bindE_Inr_iff)
  from validateAccess_Inr(3,4) [OF acc] pieces_in_storage [OF assms(1), of "nv_storageSize v" "nv_pieces v" 0 _ al]
  show ?thesis by (auto simp: vs comp_def)
qed

lemma store_accesses_as_load:
  assumes "storeNativeABIPieces site v al operands = Inr stores"
  shows "\<exists>vs. loadNativeABIPieces site v al = Inr vs \<and>
    map (store_of (as_layout site)) stores = concat (map (loads_of (as_layout site)) vs)"
proof -
  let ?L = "as_layout site" and ?n = "nv_storageSize v"
  from assms have acc: "validateAccess site v al = Inr ()"
    and st: "stores = concat (map (\<lambda>(i, p). storePiece ?L ?n al (np_type p) (ArgV i) (np_offset p))
      (List.enumerate 0 (nv_pieces v)))"
    by (auto simp: storeNativeABIPieces_def bindE_Inr_iff split: if_splits)
  have "map (store_of ?L) stores =
      concat (map (\<lambda>(i, p). loads_of ?L (loadPiece ?L ?n al (np_type p) (np_offset p))) (List.enumerate 0 (nv_pieces v)))"
    by (simp add: st map_concat comp_def case_prod_unfold load_store_accesses [symmetric])
  also have "\<dots> = concat (map (loads_of ?L) (map (\<lambda>p. loadPiece ?L ?n al (np_type p) (np_offset p)) (nv_pieces v)))"
    by (intro arg_cong [where f = concat] nth_equalityI) (simp_all add: nth_enumerate_eq)
  finally show ?thesis by (auto simp: loadNativeABIPieces_def acc)
qed

section \<open>Descriptors that are always admitted\<close>

text \<open>
  Pieces of an admitted type, in order, each with its bytes inside the extent: what the classifiers
  promise, and enough for the access.
\<close>

fun fitting :: "data_layout \<Rightarrow> nat \<Rightarrow> nat \<Rightarrow> NativeABIPiece list \<Rightarrow> bool" where
  "fitting L extent lo [] \<longleftrightarrow> True"
| "fitting L extent lo (p # ps) \<longleftrightarrow>
     validPieceType L (np_type p) 0 \<and> lo \<le> np_offset p \<and> np_offset p < extent \<and>
     np_offset p + getTypeStoreSize L (np_type p) \<le> extent \<and>
     fitting L extent (np_offset p + getTypeStoreSize L (np_type p)) ps"

lemma fitting_checked: "fitting L extent lo ps \<Longrightarrow> \<exists>hi. foldE (check_piece L extent) ps lo = Inr hi"
proof (induction ps arbitrary: lo)
  case Nil
  then show ?case by simp
next
  case (Cons p ps)
  let ?stop = "np_offset p + getTypeStoreSize L (np_type p)"
  have "check_piece L extent p lo = Inr ?stop"
    using Cons.prems by (auto simp: check_piece_def validPieceExtent.simps [of _ "np_type p"] min_def)
  with Cons.IH [of ?stop] Cons.prems show ?case by simp
qed

lemma fitting_append:
  "fitting L extent lo ps \<Longrightarrow> \<forall>p \<in> set ps. np_offset p + getTypeStoreSize L (np_type p) \<le> mid \<Longrightarrow> lo \<le> mid \<Longrightarrow>
   fitting L extent mid qs \<Longrightarrow> fitting L extent lo (ps @ qs)"
proof (induction ps arbitrary: lo)
  case Nil
  then show ?case by (cases qs) auto
qed auto

text \<open>A value the access routines take: sized storage of the recorded extent and admitted pieces.\<close>

definition accessible :: "data_layout \<Rightarrow> NativeABIValue \<Rightarrow> bool" where
  "accessible L v \<longleftrightarrow>
     isSized L (nv_storageType v) \<and> nv_kind v \<noteq> Indirect \<and> nv_pieces v \<noteq> [] \<and>
     getTypeAllocSize L (nv_storageType v) = nv_storageSize v \<and>
     (\<exists>hi. foldE (check_piece L (nv_storageSize v)) (nv_pieces v) 0 = Inr hi)"

lemma accessible_begin [simp]: "accessible L (v\<lparr>nv_nativeBegin := n\<rparr>) = accessible L v"
  by (simp add: accessible_def)

lemma accessible_admitted:
  assumes "accessible (as_layout site) v" "as_inModule site" "as_ordinaryPointer site" "as_sameContext site"
    "\<not> as_defaultLayout site" "al \<le> MaximumAlignment"
  shows "validateAccess site v al = Inr ()"
  using assms by (auto simp: validateAccess_def accessible_def Let_def)

text \<open>An insertion point in a module, with an ordinary pointer of the same context as storage.\<close>

definition sound_site :: "access_site \<Rightarrow> bool" where
  "sound_site site \<longleftrightarrow> as_inModule site \<and> as_ordinaryPointer site \<and> as_sameContext site \<and> \<not> as_defaultLayout site"

lemma accessible_loads:
  assumes "accessible (as_layout site) v" "sound_site site" "al \<le> MaximumAlignment" "layout_ok (as_layout site)"
  shows "\<exists>vs. loadNativeABIPieces site v al = Inr vs \<and> length vs = length (nv_pieces v) \<and>
    ordered_within 0 (concat (map (loads_of (as_layout site)) vs)) (nv_storageSize v)"
proof -
  have "validateAccess site v al = Inr ()"
    using assms by (intro accessible_admitted) (simp_all add: sound_site_def)
  then obtain vs where vs: "loadNativeABIPieces site v al = Inr vs" "length vs = length (nv_pieces v)"
    by (simp add: loadNativeABIPieces_def)
  from load_accesses_in_storage [OF assms(4) vs(1)] assms(1) vs show ?thesis by (simp add: accessible_def)
qed

text \<open>The scalars are admitted pieces.\<close>

lemma scalar_cases:
  assumes "scalar t field"
  obtains "t = PtrTy 0" | "t = FloatTy" | "t = DoubleTy" | w where "t = IntTy w" "0 < w" "w \<le> 64"
  using assms by (auto simp: scalar_def split: lty.splits if_splits)

lemma scalar_facts:
  assumes "layout_ok L" "scalar t field"
  shows "isSized L t" "validPieceType L t 0" "0 < getTypeStoreSize L t" "getTypeStoreSize L t \<le> 8"
    "getABITypeAlign L t dvd 8" "t \<noteq> VoidTy"
proof -
  show s: "isSized L t" using assms(2)
    by (rule scalar_cases) (simp_all add: layout_sizedD [OF assms(1)])
  have "scalar t False" using assms(2) by (auto simp: scalar_def split: lty.splits)
  with s show "validPieceType L t 0" by (simp add: validPieceType.simps [of _ t] nativePieceScalar_def)
  show "0 < getTypeStoreSize L t" "getTypeStoreSize L t \<le> 8" "getABITypeAlign L t dvd 8" using assms(2)
    by (rule scalar_cases; simp add: layout_okD(1-6) [OF assms(1)] layout_sizedD [OF assms(1)])+
  show "t \<noteq> VoidTy" using assms(2) by (auto simp: scalar_def)
qed

lemma scalar_weaken: "scalar t True \<Longrightarrow> scalar t False"
  by (auto simp: scalar_def split: lty.splits)

lemma byte_integer_piece:
  assumes "layout_ok L" "0 < n" "n \<le> 16"
  shows "validPieceType L (IntTy (8 * n)) 0" "getTypeStoreSize L (IntTy (8 * n)) = n"
  using assms layout_okD(1) [OF assms(1), of "8 * n"] layout_sizedD(3) [OF assms(1), of "8 * n"]
  by (auto simp: validPieceType.simps [of _ "IntTy (8 * n)"] nativePieceScalar_def)

end
