(* ===== verification/Abi_Signature.thy ===== *)
theory Abi_Signature
  imports Native_Types
begin

text \<open>
  The parameter loop that every native ABI classifier ends in: classify one logical parameter, note
  where its native parameters begin, and append them. The classifiers differ in the registers and
  caches they thread and in the native parameters a classified value takes; the locale states what
  they share, and each of them interprets it.
\<close>

definition add_parameter ::
  "(lty \<Rightarrow> 's \<Rightarrow> (NativeABIValue \<times> lty list \<times> 's) expected) \<Rightarrow> lty \<Rightarrow>
   lty list \<times> NativeABIValue list \<times> 's \<Rightarrow> (lty list \<times> NativeABIValue list \<times> 's) expected" where
  "add_parameter step t st =
     (case st of (types, params, s) \<Rightarrow>
        bindE (step t s) (\<lambda>(v, tys, s').
          Inr (types @ tys, params @ [v\<lparr>nv_nativeBegin := length types\<rparr>], s')))"

text \<open>Values whose native parameters follow one another from \<open>lo\<close> to \<open>hi\<close>.\<close>

fun contiguous :: "nat \<Rightarrow> NativeABIValue list \<Rightarrow> nat \<Rightarrow> bool" where
  "contiguous lo [] hi \<longleftrightarrow> lo = hi"
| "contiguous lo (v # vs) hi \<longleftrightarrow> nv_nativeBegin v = lo \<and> contiguous (lo + nv_nativeCount v) vs hi"

lemma contiguous_append:
  "contiguous lo (vs @ ws) hi \<longleftrightarrow> (\<exists>mid. contiguous lo vs mid \<and> contiguous mid ws hi)"
  by (induction vs arbitrary: lo) auto

locale parameter_step =
  fixes step :: "lty \<Rightarrow> 's \<Rightarrow> (NativeABIValue \<times> lty list \<times> 's) expected"
    and physical :: "NativeABIValue \<Rightarrow> lty list"
    and regular :: "'s \<Rightarrow> bool"
    and promise :: "lty \<Rightarrow> NativeABIValue \<Rightarrow> bool"
  assumes step_physical: "regular s \<Longrightarrow> step t s = Inr (v, tys, s') \<Longrightarrow> tys = physical v"
    and step_count: "regular s \<Longrightarrow> step t s = Inr (v, tys, s') \<Longrightarrow> nv_nativeCount v = length tys"
    and step_promise: "regular s \<Longrightarrow> step t s = Inr (v, tys, s') \<Longrightarrow> promise t v"
    and step_regular: "regular s \<Longrightarrow> step t s = Inr (v, tys, s') \<Longrightarrow> regular s'"
    and physical_begin: "physical (v\<lparr>nv_nativeBegin := n\<rparr>) = physical v"
    and promise_begin: "promise t v \<Longrightarrow> promise t (v\<lparr>nv_nativeBegin := n\<rparr>)"
begin

lemma parameters_laid_out:
  assumes "foldE (add_parameter step) ts (types, params, s) = Inr (types', params', s')" "regular s"
  shows "\<exists>new. params' = params @ new \<and> list_all2 promise ts new \<and>
    types' = types @ concat (map physical new) \<and> contiguous (length types) new (length types') \<and> regular s'"
  using assms
proof (induction ts arbitrary: types params s)
  case Nil
  then show ?case by simp
next
  case (Cons t ts)
  from Cons.prems(1) obtain st where st: "add_parameter step t (types, params, s) = Inr st"
    "foldE (add_parameter step) ts st = Inr (types', params', s')" by (rule foldE_Cons_InrE)
  from st(1) obtain v tys u where v: "step t s = Inr (v, tys, u)"
    "st = (types @ tys, params @ [v\<lparr>nv_nativeBegin := length types\<rparr>], u)"
    by (auto simp: add_parameter_def bindE_Inr_iff)
  let ?v = "v\<lparr>nv_nativeBegin := length types\<rparr>"
  note facts = step_physical [OF Cons.prems(2) v(1)] step_count [OF Cons.prems(2) v(1)]
    step_promise [OF Cons.prems(2) v(1)] step_regular [OF Cons.prems(2) v(1)]
  from Cons.IH [OF st(2) [unfolded v(2)] facts(4)] obtain new where new: "params' = (params @ [?v]) @ new"
    "list_all2 promise ts new" "types' = (types @ tys) @ concat (map physical new)"
    "contiguous (length (types @ tys)) new (length types')" "regular s'" by auto
  have "params' = params @ ?v # new" "types' = types @ concat (map physical (?v # new))"
    using new(1,3) facts(1) by (simp_all add: physical_begin)
  moreover have "contiguous (length types) (?v # new) (length types')" using new(4) facts(2) by simp
  moreover have "list_all2 promise (t # ts) (?v # new)" using new(2) facts(3) by (simp add: promise_begin)
  ultimately show ?case using new(5) by blast
qed

end

end
