(* ===== verification/Abi_X86.thy ===== *)
theory Abi_X86
  imports Abi_Pieces Abi_Signature
begin

text \<open>
  The System V classification of ordered records for i686 and x86-64 (NativeAggregateABI.cpp). The
  build macros of the file are the fields of \<open>native_config\<close>; the classifier's memo set \<open>validated\<close> is
  threaded, since it decides which nested records are looked at again.
\<close>

record native_config =
  nc_layout :: data_layout
  nc_word64 :: bool
  nc_x64 :: bool

definition aggregate_failure :: "string \<Rightarrow> 'a expected" where
  "aggregate_failure message = Inl (''native aggregate ABI: '' @ message)"

lemma aggregate_failure_neq [simp]: "aggregate_failure m \<noteq> Inr x"
  by (simp add: aggregate_failure_def)

definition size_limit :: nat where "size_limit = 2 ^ 30"

section \<open>Validation\<close>

function validate :: "data_layout \<Rightarrow> lty set \<Rightarrow> lty \<Rightarrow> nat \<Rightarrow> lty set \<Rightarrow> lty set expected" where
  "validate L records type depth validated =
     (if depth > 32 \<or> \<not> isSized L type
      then aggregate_failure ''unsized or excessively nested logical storage''
      else if type \<in> validated then Inr validated
      else if scalar type True then Inr validated
      else case type of
        StructTy s packed members \<Rightarrow>
          if type \<notin> records
          then aggregate_failure ''record lacks ordered non-overlapping ABI qualification (union storage is not a logical record)''
          else if packed \<or> members = [] then aggregate_failure ''packed or empty records are not qualified''
          else
            bindE (foldE (\<lambda>field (bytes, seen).
                bindE (validate L records field (depth + 1) seen) (\<lambda>seen'.
                let at = alignTo bytes (getABITypeAlign L field); fieldSize = getTypeAllocSize L field in
                if at > size_limit \<or> fieldSize > size_limit - at
                then aggregate_failure ''logical storage exceeds qualification size limit''
                else Inr (at + fieldSize, seen'))) members (0, validated)) (\<lambda>(bytes, seen).
            if getTypeAllocSize L type > size_limit
            then aggregate_failure ''logical storage exceeds qualification size limit''
            else Inr (insert type seen))
      | ArrTy n e \<Rightarrow>
          if n = 0 then aggregate_failure ''empty or flexible array storage is not qualified''
          else
            bindE (validate L records e (depth + 1) validated) (\<lambda>seen.
            if getTypeAllocSize L e = 0 \<or> n > size_limit div getTypeAllocSize L e
            then aggregate_failure ''logical storage exceeds qualification size limit''
            else Inr (insert type seen))
      | _ \<Rightarrow> aggregate_failure ''unsupported logical record field (vectors, bitfields and nonstandard scalars need a separate contract)'')"
  by pat_completeness auto

termination
  by (relation "measure (\<lambda>(L, records, t, depth, seen). size t)") (auto simp del: lty.size)

declare validate.simps [simp del]

record Leaf =
  lf_type :: lty
  lf_offset :: nat
  lf_size :: nat

function leaves :: "data_layout \<Rightarrow> lty \<Rightarrow> nat \<Rightarrow> Leaf list" where
  "leaves L type offset =
     (case type of
        StructTy s p members \<Rightarrow>
          concat (map (\<lambda>(i, f). leaves L f (offset + getElementOffset L type i)) (List.enumerate 0 members))
      | ArrTy n e \<Rightarrow> concat (map (\<lambda>i. leaves L e (offset + i * getTypeAllocSize L e)) [0..<n])
      | _ \<Rightarrow> [\<lparr>lf_type = type, lf_offset = offset, lf_size = getTypeStoreSize L type\<rparr>])"
  by pat_completeness auto

termination
  by (relation "measure (\<lambda>(L, t, offset). size t)") (auto dest!: enumerate_member simp del: lty.size)

declare leaves.simps [simp del]

section \<open>Classification of one value\<close>

definition value_of :: "data_layout \<Rightarrow> lty \<Rightarrow> NativeABIValue" where
  "value_of L type =
     (if type = VoidTy then native_value type 0 1
      else native_value type (getTypeAllocSize L type) (getABITypeAlign L type))"

definition indirect_value :: "native_config \<Rightarrow> lty \<Rightarrow> bool \<Rightarrow> NativeABIValue" where
  "indirect_value c type returns =
     (let v = value_of (nc_layout c) type in
      v\<lparr>nv_kind := Indirect, nv_sRet := returns, nv_byVal := \<not> returns,
        nv_abiAlignment := (if returns then nv_abiAlignment v
                            else if nc_x64 c then max 8 (nv_storageAlignment v) else 4),
        nv_nativeCount := 1\<rparr>)"

text \<open>i686: a record of word-sized scalars without padding is expanded, any other goes indirectly.\<close>

definition expand_field ::
  "data_layout \<Rightarrow> lty \<Rightarrow> nat \<times> lty \<Rightarrow> (nat \<times> NativeABIPiece list) option \<Rightarrow> (nat \<times> NativeABIPiece list) option" where
  "expand_field L type item st =
     (case item of (i, field) \<Rightarrow>
        case st of None \<Rightarrow> None
        | Some (bytes, pieces) \<Rightarrow>
            let fieldSize = getTypeAllocSize L field in
            if \<not> scalar field True \<or> (fieldSize \<noteq> 4 \<and> fieldSize \<noteq> 8) \<or> getElementOffset L type i \<noteq> bytes then None
            else Some (bytes + fieldSize, pieces @ [piece field bytes]))"

definition classify32 :: "native_config \<Rightarrow> lty \<Rightarrow> lty list \<Rightarrow> bool \<Rightarrow> NativeABIValue" where
  "classify32 c type members returns =
     (let L = nc_layout c; v = value_of L type in
      if returns \<or> nv_storageSize v > 16 then indirect_value c type returns
      else case fold (expand_field L type) (List.enumerate 0 members) (Some (0, [])) of
        None \<Rightarrow> indirect_value c type False
      | Some (bytes, pieces) \<Rightarrow>
          if bytes \<noteq> nv_storageSize v then indirect_value c type False
          else v\<lparr>nv_kind := Expand, nv_pieces := pieces, nv_nativeCount := length pieces\<rparr>)"

text \<open>x86-64: the fields of one eightbyte, and the register it takes.\<close>

definition chunk_field :: "nat \<Rightarrow> Leaf \<Rightarrow> bool \<times> Leaf list \<Rightarrow> (bool \<times> Leaf list) expected" where
  "chunk_field offset field st =
     (case st of (integer, chunk) \<Rightarrow>
        if lf_offset field \<ge> offset + 8 \<or> lf_offset field + lf_size field \<le> offset then Inr (integer, chunk)
        else if lf_offset field < offset \<or> lf_offset field + lf_size field > offset + 8
        then aggregate_failure ''unaligned or straddling scalar field is not qualified''
        else Inr (integer \<or> isIntegerTy (lf_type field) \<or> isPointerTy (lf_type field), chunk @ [field]))"

definition eightbyte_piece :: "nat \<Rightarrow> nat \<Rightarrow> bool \<Rightarrow> Leaf list \<Rightarrow> lty expected" where
  "eightbyte_piece storageSize offset integer chunk =
     (let first = hd chunk in
      if integer then
        (if length chunk = 1 \<and> lf_offset first = offset \<and> (isIntegerTy (lf_type first) \<or> isPointerTy (lf_type first))
         then Inr (lf_type first)
         else Inr (IntTy (8 * min 8 (storageSize - offset))))
      else if lf_offset first \<noteq> offset
      then aggregate_failure ''leading padding in SSE eightbyte is not qualified''
      else if length chunk = 1 then Inr (lf_type first)
      else if length chunk = 2 \<and> lf_type first = FloatTy \<and> lf_type (chunk ! 1) = FloatTy \<and>
              lf_offset (chunk ! 1) = offset + 4
      then Inr (VecTy 2 (lf_type first))
      else aggregate_failure ''unsupported SSE eightbyte record shape'')"

record eightbytes =
  eb_gp :: nat
  eb_sse :: nat
  eb_pieces :: "NativeABIPiece list"

definition eightbyte :: "nat \<Rightarrow> Leaf list \<Rightarrow> nat \<Rightarrow> eightbytes \<Rightarrow> eightbytes expected" where
  "eightbyte storageSize members offset s =
     bindE (foldE (chunk_field offset) members (False, [])) (\<lambda>(integer, chunk).
     if chunk = [] then aggregate_failure ''empty eightbyte record span is not qualified''
     else bindE (eightbyte_piece storageSize offset integer chunk) (\<lambda>t.
       Inr (s\<lparr>eb_gp := eb_gp s + (if integer then 1 else 0), eb_sse := eb_sse s + (if integer then 0 else 1),
              eb_pieces := eb_pieces s @ [piece t offset]\<rparr>)))"

definition eightbyte_offsets :: "nat \<Rightarrow> nat list" where
  "eightbyte_offsets storageSize = map (\<lambda>i. 8 * i) [0..<divideCeil storageSize 8]"

text \<open>A first register narrower than its eightbyte must be widened for the second to follow it.\<close>

definition widen_low :: "data_layout \<Rightarrow> NativeABIPiece list \<Rightarrow> NativeABIPiece list" where
  "widen_low L pieces =
     (case pieces of
        [low, high] \<Rightarrow>
          (if alignTo (getTypeAllocSize L (np_type low)) (getABITypeAlign L (np_type high)) \<noteq> 8
           then [low\<lparr>np_type := (if np_type low = FloatTy then DoubleTy else IntTy 64)\<rparr>, high]
           else pieces)
      | _ \<Rightarrow> pieces)"

definition register_value :: "NativeABIValue \<Rightarrow> NativeABIPiece list \<Rightarrow> NativeABIValue" where
  "register_value v pieces =
     v\<lparr>nv_kind := (if length pieces = 1 then Coerce else Expand), nv_pieces := pieces,
       nv_nativeCount := length pieces\<rparr>"

definition classify64 :: "native_config \<Rightarrow> lty \<Rightarrow> bool \<Rightarrow> nat \<Rightarrow> nat \<Rightarrow> NativeABIValue expected" where
  "classify64 c type returns freeGP freeSSE =
     (let L = nc_layout c; v = value_of L type in
      if nv_storageSize v > 16 then Inr (indirect_value c type returns)
      else
        bindE (foldE (eightbyte (nv_storageSize v) (leaves L type 0)) (eightbyte_offsets (nv_storageSize v))
          \<lparr>eb_gp = 0, eb_sse = 0, eb_pieces = []\<rparr>) (\<lambda>s.
        if \<not> returns \<and> (eb_gp s > freeGP \<or> eb_sse s > freeSSE)
        then (if freeGP = 0 \<and> nv_storageSize v \<le> 8 \<and> nv_storageAlignment v \<le> 8
              then Inr (register_value v (widen_low L [piece (IntTy (nv_storageSize v * 8)) 0]))
              else Inr (indirect_value c type False))
        else Inr (register_value v (widen_low L (eb_pieces s)))))"

definition classify ::
  "native_config \<Rightarrow> lty set \<Rightarrow> lty \<Rightarrow> bool \<Rightarrow> nat \<Rightarrow> nat \<Rightarrow> lty set \<Rightarrow> (NativeABIValue \<times> lty set) expected" where
  "classify c records type returns freeGP freeSSE validated =
     (let L = nc_layout c in
      if type = VoidTy then
        (if \<not> returns then aggregate_failure ''void parameter'' else Inr (value_of L type, validated))
      else if scalar type False
      then Inr ((value_of L type)\<lparr>nv_pieces := [piece type 0], nv_nativeCount := 1\<rparr>, validated)
      else case type of
        StructTy s p members \<Rightarrow>
          bindE (validate L records type 0 validated) (\<lambda>seen.
          if \<not> nc_word64 c then Inr (classify32 c type members returns, seen)
          else bindE (classify64 c type returns freeGP freeSSE) (\<lambda>v. Inr (v, seen)))
      | _ \<Rightarrow> aggregate_failure ''by-value logical boundary must be a scalar or qualified record'')"

section \<open>Signatures\<close>

text \<open>The registers left and the memo set, as the parameter loop threads them.\<close>

definition sysv_physical :: "NativeABIValue \<Rightarrow> lty list" where
  "sysv_physical v = (if nv_byVal v then [opaque_pointer] else map np_type (nv_pieces v))"

definition sysv_parameter ::
  "bool \<Rightarrow> (lty \<Rightarrow> nat \<Rightarrow> nat \<Rightarrow> 'c \<Rightarrow> (NativeABIValue \<times> 'c) expected) \<Rightarrow> lty \<Rightarrow> nat \<times> nat \<times> 'c \<Rightarrow>
   (NativeABIValue \<times> lty list \<times> nat \<times> nat \<times> 'c) expected" where
  "sysv_parameter x64 classifier t s =
     (case s of (freeGP, freeSSE, cache) \<Rightarrow>
        bindE (classifier t freeGP freeSSE cache) (\<lambda>(v, cache').
        if nv_byVal v then Inr (v, [opaque_pointer], freeGP, freeSSE, cache')
        else
          let gp = piece_gp (nv_pieces v); sse = piece_sse (nv_pieces v) in
          if x64 \<and> freeGP \<ge> gp \<and> freeSSE \<ge> sse
          then Inr (v, map np_type (nv_pieces v), freeGP - gp, freeSSE - sse, cache')
          else Inr (v, map np_type (nv_pieces v), freeGP, freeSSE, cache')))"

definition result_type :: "NativeABIValue \<Rightarrow> lty" where
  "result_type v =
     (if nv_sRet v then VoidTy
      else case nv_pieces v of
        [] \<Rightarrow> VoidTy
      | [p] \<Rightarrow> np_type p
      | ps \<Rightarrow> StructTy [] False (map np_type ps))"

text \<open>The end of both System V classifiers: the hidden result pointer, the parameters, the registers left.\<close>

definition sysv_signature ::
  "bool \<Rightarrow> (lty \<Rightarrow> nat \<Rightarrow> nat \<Rightarrow> 'c \<Rightarrow> (NativeABIValue \<times> 'c) expected) \<Rightarrow> function_type \<Rightarrow>
   NativeABIValue \<Rightarrow> 'c \<Rightarrow> NativeABISignature expected" where
  "sysv_signature x64 classifier logical res cache =
     (let freeGP = (if x64 then 6 else 0); freeSSE = (if x64 then 8 else 0);
          hidden = (if nv_sRet res then [opaque_pointer] else []);
          freeGP' = (if nv_sRet res \<and> x64 then freeGP - 1 else freeGP) in
      bindE (foldE (add_parameter (sysv_parameter x64 classifier)) (ft_params logical)
          (hidden, [], freeGP', freeSSE, cache)) (\<lambda>(types, params, gp, sse, _).
      Inr \<lparr>ns_nativeType = \<lparr>ft_result = result_type res, ft_params = types, ft_vararg = ft_vararg logical\<rparr>,
           ns_result = res, ns_parameters = params, ns_sretIndex = (if nv_sRet res then Some 0 else None),
           ns_remainingGP = gp, ns_remainingSSE = sse\<rparr>))"

text \<open>
  What the loop asks of a classifier: a pointer for a value passed by copy and one native parameter
  per piece otherwise, with its memo kept in order. Both System V classifiers interpret it.
\<close>

locale sysv_classifier =
  fixes x64 :: bool
    and classifier :: "lty \<Rightarrow> nat \<Rightarrow> nat \<Rightarrow> 'c \<Rightarrow> (NativeABIValue \<times> 'c) expected"
    and cache_ok :: "'c \<Rightarrow> bool"
    and promise :: "lty \<Rightarrow> NativeABIValue \<Rightarrow> bool"
  assumes classifier_count: "classifier t gp sse cache = Inr (v, cache') \<Longrightarrow>
      nv_nativeCount v = (if nv_byVal v then 1 else length (nv_pieces v))"
    and classifier_cache: "cache_ok cache \<Longrightarrow> classifier t gp sse cache = Inr (v, cache') \<Longrightarrow> cache_ok cache'"
    and classifier_promise: "cache_ok cache \<Longrightarrow> classifier t gp sse cache = Inr (v, cache') \<Longrightarrow> promise t v"
    and classifier_begin: "promise t v \<Longrightarrow> promise t (v\<lparr>nv_nativeBegin := n\<rparr>)"

sublocale sysv_classifier \<subseteq> parameter_step "sysv_parameter x64 classifier" sysv_physical
  "\<lambda>(gp, sse, cache). gp \<le> 6 \<and> sse \<le> 8 \<and> cache_ok cache" promise
proof
  fix s t v tys s'
  assume reg: "case s of (gp, sse, cache) \<Rightarrow> gp \<le> 6 \<and> sse \<le> 8 \<and> cache_ok cache"
    and step: "sysv_parameter x64 classifier t s = Inr (v, tys, s')"
  obtain gp sse cache where s: "s = (gp, sse, cache)" by (cases s)
  from step s obtain cache' where c: "classifier t gp sse cache = Inr (v, cache')"
    and s': "s' = (gp, sse, cache') \<or> s' = (gp - piece_gp (nv_pieces v), sse - piece_sse (nv_pieces v), cache')"
    and t: "tys = (if nv_byVal v then [opaque_pointer] else map np_type (nv_pieces v))"
    by (auto simp: sysv_parameter_def bindE_Inr_iff Let_def split: if_splits)
  show "tys = sysv_physical v" by (simp add: t sysv_physical_def)
  show "nv_nativeCount v = length tys" using classifier_count [OF c] by (simp add: t)
  show "promise t v" using classifier_promise [OF _ c] reg s by simp
  show "case s' of (gp, sse, cache) \<Rightarrow> gp \<le> 6 \<and> sse \<le> 8 \<and> cache_ok cache"
    using classifier_cache [OF _ c] reg s s' by auto
qed (simp_all add: sysv_physical_def classifier_begin)

context sysv_classifier
begin

lemma signature_laid_out:
  assumes "sysv_signature x64 classifier f res cache = Inr sg" "cache_ok cache"
  shows "ns_result sg = res \<and> list_all2 promise (ft_params f) (ns_parameters sg) \<and>
    ft_params (ns_nativeType sg) =
      (if nv_sRet res then [opaque_pointer] else []) @ concat (map sysv_physical (ns_parameters sg)) \<and>
    contiguous (if nv_sRet res then 1 else 0) (ns_parameters sg) (length (ft_params (ns_nativeType sg))) \<and>
    ns_remainingGP sg \<le> 6 \<and> ns_remainingSSE sg \<le> 8"
proof -
  from assms(1) obtain types params gp sse cache' where
    run: "foldE (add_parameter (sysv_parameter x64 classifier)) (ft_params f)
      (if nv_sRet res then [opaque_pointer] else [], [],
       if nv_sRet res \<and> x64 then (if x64 then 6 else 0) - 1 else (if x64 then 6 else 0),
       if x64 then 8 else 0, cache) = Inr (types, params, gp, sse, cache')"
    and sg: "sg = \<lparr>ns_nativeType = \<lparr>ft_result = result_type res, ft_params = types, ft_vararg = ft_vararg f\<rparr>,
           ns_result = res, ns_parameters = params, ns_sretIndex = (if nv_sRet res then Some 0 else None),
           ns_remainingGP = gp, ns_remainingSSE = sse\<rparr>"
    unfolding sysv_signature_def Let_def by (elim bindE_InrE) auto
  let ?hidden = "if nv_sRet res then [opaque_pointer] else []"
  have reg: "case (if nv_sRet res \<and> x64 then (if x64 then 6 else 0) - 1 else (if x64 then 6 else 0 :: nat),
      if x64 then 8 else 0 :: nat, cache) of (gp, sse, cache) \<Rightarrow> gp \<le> 6 \<and> sse \<le> 8 \<and> cache_ok cache"
    by (simp add: assms(2))
  from parameters_laid_out [OF run reg] have
    "list_all2 promise (ft_params f) params" "types = ?hidden @ concat (map sysv_physical params)"
    "contiguous (length ?hidden) params (length types)" "gp \<le> 6" "sse \<le> 8"
    by (auto split: if_splits)
  then show ?thesis by (simp add: sg split: if_splits)
qed

end

definition classifyNativeABI ::
  "native_config \<Rightarrow> function_type option \<Rightarrow> lty set \<Rightarrow> NativeABISignature expected" where
  "classifyNativeABI c logical orderedRecords =
     (case logical of
        None \<Rightarrow> aggregate_failure ''missing logical function type''
      | Some f \<Rightarrow>
          let freeGP = (if nc_x64 c then 6 else 0); freeSSE = (if nc_x64 c then 8 else 0) in
          bindE (classify c orderedRecords (ft_result f) True freeGP freeSSE {}) (\<lambda>(res, seen).
          sysv_signature (nc_x64 c) (\<lambda>t. classify c orderedRecords t False) f res seen))"

end
