(* ===== verification/Abi_Layout.thy ===== *)
theory Abi_Layout
  imports Abi_X86
begin

text \<open>
  The System V classification of explicit semantic layouts (NativeAggregateLayoutABI.cpp): unions,
  bitfields and packed records described by \<open>NativeABIRecordLayout\<close>. The memo tables are threaded;
  the set of records being visited is an argument, since every successful visit removes what it added.
\<close>

definition layout_failure :: "string \<Rightarrow> 'a expected" where
  "layout_failure message = Inl (''native semantic-layout ABI: '' @ message)"

lemma layout_failure_neq [simp]: "layout_failure m \<noteq> Inr x"
  by (simp add: layout_failure_def)

definition layout_scalar :: "lty \<Rightarrow> bool" where
  "layout_scalar type =
     (case type of
        IntTy w \<Rightarrow> w = 8 \<or> w = 16 \<or> w = 32 \<or> w = 64
      | FloatTy \<Rightarrow> True
      | DoubleTy \<Rightarrow> True
      | PtrTy space \<Rightarrow> space = 0
      | _ \<Rightarrow> False)"

lemma layout_scalar_eq: "layout_scalar t = scalar t True"
  by (cases t) (auto simp: layout_scalar_def scalar_def)

record TypeInfo =
  ti_size :: nat
  ti_alignment :: nat

record Span =
  sp_type :: lty
  sp_begin :: nat
  sp_end :: nat
  sp_bitfield :: bool

section \<open>Storage carriers\<close>

function storage :: "data_layout \<Rightarrow> lty \<Rightarrow> nat \<Rightarrow> lty set \<Rightarrow> lty set expected" where
  "storage L type depth checked =
     (if depth > 32 \<or> \<not> isSized L type then layout_failure ''unsized or deep native storage carrier''
      else if type \<in> checked then Inr checked
      else if layout_scalar type \<or> (isIntegerTy type \<and> getIntegerBitWidth type \<le> 128) then Inr (insert type checked)
      else
        bindE
          (case type of
             ArrTy n e \<Rightarrow>
               bindE (storage L e (depth + 1) checked) (\<lambda>seen.
               if getTypeAllocSize L e = 0 \<or> n > size_limit div getTypeAllocSize L e
               then layout_failure ''oversized native storage array'' else Inr seen)
           | StructTy s packed members \<Rightarrow>
               bindE (foldE (\<lambda>field (bytes, seen).
                   bindE (storage L field (depth + 1) seen) (\<lambda>seen'.
                   let at = alignTo bytes (if packed then 1 else getABITypeAlign L field);
                       fieldSize = getTypeAllocSize L field in
                   if at > size_limit \<or> fieldSize > size_limit - at
                   then layout_failure ''oversized native storage record''
                   else Inr (at + fieldSize, seen'))) members (0, checked)) (\<lambda>(bytes, seen). Inr seen)
           | _ \<Rightarrow> layout_failure ''unsupported native storage carrier'')
          (\<lambda>seen. if getTypeAllocSize L type > size_limit then layout_failure ''oversized native storage carrier''
                  else Inr (insert type seen)))"
  by pat_completeness auto

termination
  by (relation "measure (\<lambda>(L, t, depth, seen). size t)") (auto simp del: lty.size)

declare storage.simps [simp del]

section \<open>Semantic sizes\<close>

text \<open>\<open>dyn_cast<llvm::ArrayType>\<close>.\<close>

definition array_parts :: "lty \<Rightarrow> (nat \<times> lty) option" where
  "array_parts t = (case t of ArrTy n e \<Rightarrow> Some (n, e) | _ \<Rightarrow> None)"

lemma array_parts_Some: "array_parts t = Some (n, e) \<longleftrightarrow> t = ArrTy n e"
  by (cases t) (auto simp: array_parts_def)

type_synonym record_table = "lty \<Rightarrow> NativeABIRecordLayout option"

record info_state =
  is_info :: "(lty \<times> TypeInfo) list"
  is_checked :: "lty set"

definition remember :: "lty \<Rightarrow> TypeInfo \<Rightarrow> info_state \<Rightarrow> info_state" where
  "remember t i st = st\<lparr>is_info := (t, i) # is_info st\<rparr>"

text \<open>The place of one field, after its width in bits is known.\<close>

definition place_field ::
  "NativeABIRecordLayout \<Rightarrow> NativeABIFieldLayout \<Rightarrow> nat \<Rightarrow> nat \<times> bool \<Rightarrow> (nat \<times> bool) expected" where
  "place_field r field bits s =
     (case s of (end', found) \<Rightarrow>
        if fl_bitOffset field > rl_sizeBytes r * 8 \<or> bits > rl_sizeBytes r * 8 - fl_bitOffset field
        then layout_failure ''semantic field exceeds native storage''
        else if rl_kind r = Union \<and> fl_bitOffset field \<noteq> 0
        then layout_failure ''union alternatives must overlap at offset zero''
        else if rl_kind r = Ordered \<and> fl_bitOffset field < end'
        then layout_failure ''ordered semantic fields overlap or are out of order''
        else Inr (if rl_kind r = Ordered then fl_bitOffset field + bits else end',
                  found \<or> (\<not> fl_padding field \<and> bits \<noteq> 0)))"

function info ::
  "data_layout \<Rightarrow> record_table \<Rightarrow> lty set \<Rightarrow> lty \<Rightarrow> nat \<Rightarrow> info_state \<Rightarrow> (TypeInfo \<times> info_state) expected" where
  "info L records active type depth st =
     (if depth > 32 then layout_failure ''missing or deep semantic field type''
      else case map_of (is_info st) type of
        Some i \<Rightarrow> Inr (i, st)
      | None \<Rightarrow>
          if layout_scalar type
          then Inr (\<lparr>ti_size = getTypeAllocSize L type, ti_alignment = getABITypeAlign L type\<rparr>, st)
          else if type \<in> active then layout_failure ''recursive by-value semantic layout''
          else case array_parts type of
            Some (n, e) \<Rightarrow>
              bindE (info L records (insert type active) e (depth + 1) st) (\<lambda>(element, st).
              if n = 0 \<or> ti_size element = 0 \<or> n > size_limit div ti_size element
              then layout_failure ''empty, flexible or oversized semantic array''
              else bindE (storage L type 0 (is_checked st)) (\<lambda>checked.
                let result = \<lparr>ti_size = ti_size element * n, ti_alignment = ti_alignment element\<rparr> in
                if getTypeAllocSize L type \<noteq> ti_size result
                then layout_failure ''semantic array stride disagrees with storage carrier''
                else Inr (result, remember type result (st\<lparr>is_checked := checked\<rparr>))))
          | None \<Rightarrow>
            (case records type of
               None \<Rightarrow> layout_failure ''record lacks an explicit semantic layout''
             | Some r \<Rightarrow>
                 if rl_sizeBytes r = 0 \<or> rl_sizeBytes r > size_limit \<or> rl_alignment r > size_limit \<or>
                    rl_sizeBytes r mod rl_alignment r \<noteq> 0 \<or> rl_fields r = [] \<or> length (rl_fields r) > 1024
                 then layout_failure ''invalid semantic record size/alignment/field count''
                 else bindE (storage L type 0 (is_checked st)) (\<lambda>checked.
                   if getTypeAllocSize L type \<noteq> rl_sizeBytes r
                   then layout_failure ''semantic record size disagrees with storage carrier''
                   else
                     bindE (foldE (\<lambda>field (place, st).
                       bindE
                         (case fl_bitWidth field of
                            Some w \<Rightarrow>
                              if \<not> isIntegerTy (fl_type field) \<or> \<not> layout_scalar (fl_type field) \<or>
                                 w > getIntegerBitWidth (fl_type field) \<or> (w = 0 \<and> \<not> fl_padding field)
                              then layout_failure ''invalid integer bitfield width'' else Inr (w, st)
                          | None \<Rightarrow>
                              if fl_padding field \<or> fl_bitOffset field mod 8 \<noteq> 0
                              then layout_failure ''non-bitfield has invalid padding/bit offset''
                              else bindE (info L records (insert type active) (fl_type field) (depth + 1) st)
                                     (\<lambda>(i, st). Inr (ti_size i * 8, st)))
                         (\<lambda>(bits, st). bindE (place_field r field bits place) (\<lambda>place. Inr (place, st))))
                       (rl_fields r) ((0, False), st\<lparr>is_checked := checked\<rparr>)) (\<lambda>((end', found), st).
                     if \<not> found
                     then layout_failure ''empty/all-padding ABI values need an explicit ignored-value contract''
                     else
                       let result = \<lparr>ti_size = rl_sizeBytes r, ti_alignment = rl_alignment r\<rparr>
                       in Inr (result, remember type result st)))))"
  by pat_completeness auto

termination
  by (relation "measure (\<lambda>(L, records, active, t, depth, st). 33 - depth)") auto

declare info.simps [simp del]

definition add_record ::
  "NativeABIRecordLayout \<Rightarrow> (lty \<times> NativeABIRecordLayout) list \<Rightarrow> (lty \<times> NativeABIRecordLayout) list expected" where
  "add_record r table =
     (if map_of table (rl_storageType r) \<noteq> None
      then layout_failure ''missing or duplicate semantic storage identity''
      else Inr ((rl_storageType r, r) # table))"

definition initialize ::
  "data_layout \<Rightarrow> NativeABIRecordLayout list \<Rightarrow> (record_table \<times> info_state) expected" where
  "initialize L descriptors =
     bindE (foldE add_record descriptors []) (\<lambda>table.
     bindE (foldE (\<lambda>r st. bindE (info L (map_of table) {} (rl_storageType r) 0 st) (\<lambda>(i, st). Inr st)) descriptors
       \<lparr>is_info = [], is_checked = {}\<rparr>) (\<lambda>st.
     Inr (map_of table, st)))"

section \<open>Decomposition\<close>

text \<open>
  \<open>gather\<close> recurses through the record table, so it is given fuel. \<open>Undefined\<close> is running out of it or
  looking up a type the tables do not hold (\<open>DenseMap::at\<close>); both are excluded by the initialization.
\<close>

datatype gathered = Gathered "Span list" bool | TooLarge | Undefined

fun gather_loop :: "('a \<Rightarrow> Span list \<Rightarrow> bool \<Rightarrow> gathered) \<Rightarrow> 'a list \<Rightarrow> Span list \<Rightarrow> bool \<Rightarrow> gathered" where
  "gather_loop f [] spans unaligned = Gathered spans unaligned"
| "gather_loop f (x # xs) spans unaligned =
     (case f x spans unaligned of
        Gathered spans' unaligned' \<Rightarrow> gather_loop f xs spans' unaligned'
      | r \<Rightarrow> r)"

definition field_alignment :: "data_layout \<Rightarrow> (lty \<times> TypeInfo) list \<Rightarrow> lty \<Rightarrow> nat option" where
  "field_alignment L infos t =
     (if layout_scalar t then Some (getABITypeAlign L t) else map_option ti_alignment (map_of infos t))"

fun gather ::
  "data_layout \<Rightarrow> record_table \<Rightarrow> (lty \<times> TypeInfo) list \<Rightarrow> nat \<Rightarrow> lty \<Rightarrow> nat \<Rightarrow> Span list \<Rightarrow> bool \<Rightarrow> gathered" where
  "gather L records infos 0 type base spans unaligned = Undefined"
| "gather L records infos (Suc fuel) type base spans unaligned =
     (if length spans \<ge> 4096 then TooLarge
      else if layout_scalar type
      then Gathered (spans @ [\<lparr>sp_type = type, sp_begin = base, sp_end = base + getTypeStoreSize L type * 8,
                               sp_bitfield = False\<rparr>]) unaligned
      else case array_parts type of
        Some (n, e) \<Rightarrow>
          gather_loop (\<lambda>i. gather L records infos fuel e (base + i * (getTypeAllocSize L e * 8))) [0..<n] spans unaligned
      | None \<Rightarrow>
        (case records type of
           None \<Rightarrow> Undefined
         | Some r \<Rightarrow>
             gather_loop (\<lambda>field spans unaligned.
               if length spans \<ge> 4096 then TooLarge
               else if fl_padding field then Gathered spans unaligned
               else case fl_bitWidth field of
                 Some w \<Rightarrow>
                   Gathered (spans @ [\<lparr>sp_type = fl_type field, sp_begin = base + fl_bitOffset field,
                                       sp_end = base + fl_bitOffset field + w, sp_bitfield = True\<rparr>]) unaligned
               | None \<Rightarrow>
                   (case field_alignment L infos (fl_type field) of
                      None \<Rightarrow> Undefined
                    | Some alignment \<Rightarrow>
                        gather L records infos fuel (fl_type field) (base + fl_bitOffset field) spans
                          (unaligned \<or> (base + fl_bitOffset field) mod (alignment * 8) \<noteq> 0)))
             (rl_fields r) spans unaligned))"

function preferred :: "data_layout \<Rightarrow> lty \<Rightarrow> nat \<Rightarrow> lty option" where
  "preferred L type offset =
     (if offset \<ge> getTypeAllocSize L type then None
      else case type of
        StructTy s p members \<Rightarrow>
          let index = getElementContainingOffset L type offset in
          if index < length members
          then preferred L (members ! index) (offset - getElementOffset L type index) else None
      | ArrTy n e \<Rightarrow>
          if getTypeAllocSize L e \<noteq> 0 then preferred L e (offset mod getTypeAllocSize L e) else None
      | _ \<Rightarrow> if offset = 0 then Some type else None)"
  by pat_completeness auto

termination
  by (relation "measure (\<lambda>(L, t, offset). size t)") (auto simp del: lty.size)

declare preferred.simps [simp del]

section \<open>Classification\<close>

definition memory_value :: "native_config \<Rightarrow> lty \<Rightarrow> TypeInfo \<Rightarrow> bool \<Rightarrow> nat \<Rightarrow> NativeABIValue" where
  "memory_value c type i returns freeGP =
     (let v = native_value type (ti_size i) (ti_alignment i) in
      if nc_x64 c \<and> \<not> returns \<and> freeGP = 0 \<and> ti_size i \<le> 8 \<and> ti_alignment i \<le> 8
      then v\<lparr>nv_kind := Coerce, nv_pieces := [piece (IntTy (ti_size i * 8)) 0], nv_nativeCount := 1\<rparr>
      else v\<lparr>nv_kind := Indirect, nv_byVal := \<not> returns, nv_sRet := returns,
             nv_abiAlignment := (if returns then nv_abiAlignment v
                                 else if nc_x64 c then max 8 (ti_alignment i) else 4),
             nv_nativeCount := 1\<rparr>)"

definition expand_layout_field ::
  "data_layout \<Rightarrow> NativeABIFieldLayout \<Rightarrow> (nat \<times> NativeABIPiece list) option \<Rightarrow> (nat \<times> NativeABIPiece list) option" where
  "expand_layout_field L field st =
     (case st of None \<Rightarrow> None
      | Some (bytes, pieces) \<Rightarrow>
          let fieldSize = getTypeAllocSize L (fl_type field) in
          if fl_bitWidth field \<noteq> None \<or> fl_padding field \<or> \<not> layout_scalar (fl_type field) \<or>
             (fieldSize \<noteq> 4 \<and> fieldSize \<noteq> 8) \<or> fl_bitOffset field \<noteq> bytes * 8 then None
          else Some (bytes + fieldSize, pieces @ [piece (fl_type field) bytes]))"

definition classify_layout32 :: "native_config \<Rightarrow> lty \<Rightarrow> NativeABIRecordLayout \<Rightarrow> TypeInfo \<Rightarrow> bool \<Rightarrow> nat \<Rightarrow> NativeABIValue" where
  "classify_layout32 c type r i returns freeGP =
     (if returns \<or> ti_size i > 16 then memory_value c type i returns freeGP
      else case fold (expand_layout_field (nc_layout c)) (rl_fields r) (Some (0, [])) of
        None \<Rightarrow> memory_value c type i False freeGP
      | Some (bytes, pieces) \<Rightarrow>
          if bytes \<noteq> ti_size i then memory_value c type i False freeGP
          else (native_value type (ti_size i) (ti_alignment i))
                 \<lparr>nv_kind := Expand, nv_pieces := pieces, nv_nativeCount := length pieces\<rparr>)"

definition overlaps_eightbyte :: "nat \<Rightarrow> Span \<Rightarrow> bool" where
  "overlaps_eightbyte offset span = (\<not> (sp_begin span \<ge> (offset + 8) * 8 \<or> sp_end span \<le> offset * 8))"

definition general_span :: "Span \<Rightarrow> bool" where
  "general_span span = (sp_bitfield span \<or> isIntegerTy (sp_type span) \<or> isPointerTy (sp_type span))"

text \<open>The register of an eightbyte: the storage type found there where it carries all of its data.\<close>

definition integer_piece :: "data_layout \<Rightarrow> lty \<Rightarrow> nat \<Rightarrow> Span list \<Rightarrow> nat \<Rightarrow> lty" where
  "integer_piece L type extent spans offset =
     (let whole = IntTy (min 8 (extent - offset) * 8) in
      case preferred L type offset of
        None \<Rightarrow> whole
      | Some t \<Rightarrow>
          if t = IntTy 64 \<or> isPointerTy t then t
          else if t = IntTy 8 \<or> t = IntTy 16 \<or> t = IntTy 32 then
            (if list_ex (\<lambda>s. sp_begin s < (offset + 8) * 8 \<and> sp_end s > offset * 8 + getIntegerBitWidth t) spans
             then whole else t)
          else whole)"

definition sse_piece :: "data_layout \<Rightarrow> lty \<Rightarrow> nat \<Rightarrow> lty" where
  "sse_piece L type offset =
     (if preferred L type offset = Some FloatTy
      then (if preferred L type (offset + 4) = Some FloatTy then VecTy 2 FloatTy else FloatTy)
      else DoubleTy)"

definition layout_eightbyte ::
  "data_layout \<Rightarrow> lty \<Rightarrow> nat \<Rightarrow> Span list \<Rightarrow> nat \<Rightarrow> eightbytes \<Rightarrow> eightbytes expected" where
  "layout_eightbyte L type extent spans offset s =
     (let here = filter (overlaps_eightbyte offset) spans; integer = list_ex general_span here in
      if here = [] then Inr s
      else
        let t = (if integer then integer_piece L type extent spans offset else sse_piece L type offset) in
        if getTypeStoreSize L t > extent - offset
        then layout_failure ''preferred native coercion exceeds record storage''
        else Inr (s\<lparr>eb_gp := eb_gp s + (if integer then 1 else 0), eb_sse := eb_sse s + (if integer then 0 else 1),
                    eb_pieces := eb_pieces s @ [piece t offset]\<rparr>))"

definition classify_layout64 ::
  "native_config \<Rightarrow> record_table \<Rightarrow> (lty \<times> TypeInfo) list \<Rightarrow> lty \<Rightarrow> TypeInfo \<Rightarrow> bool \<Rightarrow> nat \<Rightarrow> nat \<Rightarrow>
   NativeABIValue expected" where
  "classify_layout64 c records infos type i returns freeGP freeSSE =
     (let L = nc_layout c in
      if ti_size i > 16 then Inr (memory_value c type i returns freeGP)
      else case gather L records infos (Suc (length infos)) type 0 [] False of
        Undefined \<Rightarrow> layout_failure ''undefined lookup''
      | TooLarge \<Rightarrow> layout_failure ''semantic layout exceeds bounded ABI decomposition''
      | Gathered spans unaligned \<Rightarrow>
          if unaligned then Inr (memory_value c type i returns freeGP)
          else
            bindE (foldE (layout_eightbyte L type (ti_size i) spans) (eightbyte_offsets (ti_size i))
              \<lparr>eb_gp = 0, eb_sse = 0, eb_pieces = []\<rparr>) (\<lambda>s.
            if eb_pieces s = [] then layout_failure ''record has no admitted native ABI data''
            else if \<not> returns \<and> (eb_gp s > freeGP \<or> eb_sse s > freeSSE)
            then Inr (memory_value c type i False freeGP)
            else Inr (register_value (native_value type (ti_size i) (ti_alignment i)) (widen_low L (eb_pieces s)))))"

definition classify_layout ::
  "native_config \<Rightarrow> record_table \<Rightarrow> (lty \<times> TypeInfo) list \<Rightarrow> lty \<Rightarrow> bool \<Rightarrow> nat \<Rightarrow> nat \<Rightarrow> NativeABIValue expected" where
  "classify_layout c records infos type returns freeGP freeSSE =
     (let L = nc_layout c in
      if type = VoidTy \<and> \<not> returns then layout_failure ''void parameter''
      else if type = VoidTy then Inr (native_value type 0 1)
      else if layout_scalar type \<or> type = IntTy 1
      then Inr ((native_value type (getTypeAllocSize L type) (getABITypeAlign L type))
                  \<lparr>nv_pieces := [piece type 0], nv_nativeCount := 1\<rparr>)
      else if \<not> isStructTy type then layout_failure ''by-value boundary lacks a semantic record descriptor''
      else case records type of
        None \<Rightarrow> layout_failure ''by-value boundary lacks a semantic record descriptor''
      | Some r \<Rightarrow>
          (case map_of infos type of
             None \<Rightarrow> layout_failure ''undefined lookup''
           | Some i \<Rightarrow>
               if \<not> nc_word64 c then Inr (classify_layout32 c type r i returns freeGP)
               else classify_layout64 c records infos type i returns freeGP freeSSE))"

definition layout_parameter ::
  "native_config \<Rightarrow> record_table \<Rightarrow> (lty \<times> TypeInfo) list \<Rightarrow> lty \<Rightarrow> nat \<Rightarrow> nat \<Rightarrow> unit \<Rightarrow> (NativeABIValue \<times> unit) expected" where
  "layout_parameter c records infos t freeGP freeSSE u =
     bindE (classify_layout c records infos t False freeGP freeSSE) (\<lambda>v. Inr (v, u))"

definition classifyNativeLayoutABI ::
  "native_config \<Rightarrow> function_type option \<Rightarrow> NativeABIRecordLayout list \<Rightarrow> NativeABISignature expected" where
  "classifyNativeLayoutABI c logical descriptors =
     (case logical of
        None \<Rightarrow> layout_failure ''missing logical signature''
      | Some f \<Rightarrow>
          let freeGP = (if nc_x64 c then 6 else 0); freeSSE = (if nc_x64 c then 8 else 0) in
          bindE (initialize (nc_layout c) descriptors) (\<lambda>(records, st).
          bindE (classify_layout c records (is_info st) (ft_result f) True freeGP freeSSE) (\<lambda>res.
          sysv_signature (nc_x64 c) (layout_parameter c records (is_info st)) f res ())))"

end
