(* ===== verification/Abi_Arm.thy ===== *)
theory Abi_Arm
  imports Abi_Layout
begin

text \<open>
  The AAPCS classification for 32- and 64-bit Arm (NativeARMABI.cpp). The two node budgets of the
  classifier are threaded; a failure ends the whole classification, so what it leaves in them is not
  modelled. The set of records being visited is an argument, since every successful visit removes what
  it added. \<open>ac_aapcs64\<close> is the compile-time constant that tells the two targets apart.
\<close>

record arm_config =
  ac_layout :: data_layout
  ac_aapcs64 :: bool

definition arm_failure :: "string \<Rightarrow> 'a expected" where
  "arm_failure message = Inl (''native ARM ABI: '' @ message)"

lemma arm_failure_neq [simp]: "arm_failure m \<noteq> Inr x"
  by (simp add: arm_failure_def)

definition arm_scalar :: "arm_config \<Rightarrow> lty \<Rightarrow> bool" where
  "arm_scalar c type =
     (case type of
        PtrTy space \<Rightarrow> space = 0
      | VecTy n e \<Rightarrow>
          (getPrimitiveSizeInBits type = 64 \<or> getPrimitiveSizeInBits type = 128) \<and> (isIntegerTy e \<or> isFloatingPointTy e)
      | FloatTy \<Rightarrow> True
      | DoubleTy \<Rightarrow> True
      | IntTy w \<Rightarrow> w = 1 \<or> w = 8 \<or> w = 16 \<or> w = 32 \<or> w = 64 \<or> (ac_aapcs64 c \<and> w = 128)
      | _ \<Rightarrow> False)"

record Information =
  in_size :: nat
  in_alignment :: nat
  in_homogeneousBase :: "lty option"
  in_members :: nat

record arm_budget =
  bu_nodes :: nat
  bu_storage :: nat

definition full_budget :: arm_budget where
  "full_budget = \<lparr>bu_nodes = 4096, bu_storage = 16384\<rparr>"

definition storage_bound :: nat where "storage_bound = 2 ^ 30"

section \<open>Bounded storage\<close>

text \<open>\<open>true\<close> with the nodes left over is \<open>Inr\<close>, \<open>false\<close> is \<open>Inl ()\<close>.\<close>

function boundedStorage :: "data_layout \<Rightarrow> lty \<Rightarrow> nat \<Rightarrow> nat \<Rightarrow> unit + nat" where
  "boundedStorage L type depth remaining =
     (if remaining = 0 \<or> depth > 32 \<or> \<not> isSized L type then Inl ()
      else case type of
        ArrTy n e \<Rightarrow>
          if n = 0 then Inl ()
          else bindE (boundedStorage L e (depth + 1) (remaining - 1)) (\<lambda>left.
            if getTypeAllocSize L e \<noteq> 0 \<and> n \<le> storage_bound div getTypeAllocSize L e then Inr left else Inl ())
      | StructTy s p members \<Rightarrow>
          bindE (foldE (\<lambda>field (maximum, left).
              bindE (boundedStorage L field (depth + 1) left) (\<lambda>left'.
              if getTypeAllocSize L field + getABITypeAlign L field > storage_bound - maximum then Inl ()
              else Inr (maximum + (getTypeAllocSize L field + getABITypeAlign L field), left')))
            members (0, remaining - 1)) (\<lambda>(maximum, left).
          if getTypeAllocSize L type \<le> storage_bound then Inr left else Inl ())
      | _ \<Rightarrow> if getTypeAllocSize L type \<le> storage_bound then Inr (remaining - 1) else Inl ())"
  by pat_completeness auto

termination
  by (relation "measure (\<lambda>(L, t, depth, remaining). size t)") (auto simp del: lty.size)

declare boundedStorage.simps [simp del]

section \<open>Sizes and homogeneous aggregates\<close>

definition arm_array :: "nat \<Rightarrow> Information \<Rightarrow> Information \<Rightarrow> Information" where
  "arm_array n element result =
     (if in_homogeneousBase element \<noteq> None \<and> n \<le> 4 div in_members element
      then result\<lparr>in_homogeneousBase := in_homogeneousBase element, in_members := in_members element * n\<rparr>
      else result)"

text \<open>The locals of the field loop of \<open>information\<close>.\<close>

record arm_fields =
  af_base :: "lty option"
  af_members :: nat
  af_homogeneous :: bool
  af_hasValue :: bool
  af_previousEnd :: nat

definition arm_field ::
  "NativeABIRecordLayout \<Rightarrow> nat \<Rightarrow> NativeABIFieldLayout \<Rightarrow> Information \<Rightarrow> arm_fields \<Rightarrow> arm_fields expected" where
  "arm_field r extent field child s =
     (let bits = (case fl_bitWidth field of Some w \<Rightarrow> w | None \<Rightarrow> in_size child * 8) in
      if fl_bitOffset field > extent * 8 \<or> bits > extent * 8 - fl_bitOffset field \<or>
         (fl_bitWidth field \<noteq> None \<and> (\<not> isIntegerTy (fl_type field) \<or> bits > getIntegerBitWidth (fl_type field))) \<or>
         (fl_bitWidth field = None \<and> fl_bitOffset field mod 8 \<noteq> 0) \<or>
         (rl_kind r = Union \<and> fl_bitOffset field \<noteq> 0) \<or>
         (rl_kind r = Ordered \<and> \<not> fl_padding field \<and> fl_bitOffset field < af_previousEnd s)
      then arm_failure ''invalid or overlapping semantic field extent''
      else
        let s = (if fl_padding field then s
                 else s\<lparr>af_previousEnd := fl_bitOffset field + bits, af_hasValue := True\<rparr>) in
        if fl_padding field \<or> fl_bitWidth field \<noteq> None \<or> in_homogeneousBase child = None
        then Inr (s\<lparr>af_homogeneous := False\<rparr>)
        else Inr (s\<lparr>af_homogeneous := af_homogeneous s \<and> (af_base s = None \<or> af_base s = in_homogeneousBase child),
                    af_base := in_homogeneousBase child,
                    af_members := (if rl_kind r = Union then max (af_members s) (in_members child)
                                   else af_members s + in_members child)\<rparr>))"

definition arm_record :: "data_layout \<Rightarrow> Information \<Rightarrow> arm_fields \<Rightarrow> Information expected" where
  "arm_record L result s =
     (if \<not> af_hasValue s then arm_failure ''all-padding record requires an explicit ignored-value contract''
      else Inr (case af_base s of
          Some base \<Rightarrow>
            if \<not> af_homogeneous s \<or> af_members s = 0 \<or> af_members s > 4 \<or>
               getTypeAllocSize L base * af_members s \<noteq> in_size result
            then result\<lparr>in_homogeneousBase := None, in_members := 0\<rparr>
            else result\<lparr>in_homogeneousBase := Some base, in_members := af_members s\<rparr>
        | None \<Rightarrow> result\<lparr>in_homogeneousBase := None, in_members := 0\<rparr>))"

function information ::
  "arm_config \<Rightarrow> record_table \<Rightarrow> lty set \<Rightarrow> lty \<Rightarrow> nat \<Rightarrow> arm_budget \<Rightarrow> (Information \<times> arm_budget) expected" where
  "information c records active type depth st =
     (let L = ac_layout c in
      if bu_nodes st = 0 \<or> depth > 32 then arm_failure ''unsized, oversized or excessively nested storage''
      else case boundedStorage L type 0 (bu_storage st) of
        Inl _ \<Rightarrow> arm_failure ''unsized, oversized or excessively nested storage''
      | Inr left \<Rightarrow>
          let st = \<lparr>bu_nodes = bu_nodes st - 1, bu_storage = left\<rparr>;
              result = \<lparr>in_size = getTypeAllocSize L type, in_alignment = getABITypeAlign L type,
                        in_homogeneousBase = None, in_members = 0\<rparr> in
          if in_size result = 0 \<or> in_size result > storage_bound then arm_failure ''empty or oversized ABI storage''
          else if arm_scalar c type
          then Inr (if type = FloatTy \<or> type = DoubleTy
                    then result\<lparr>in_homogeneousBase := Some type, in_members := 1\<rparr> else result, st)
          else case array_parts type of
            Some (n, e) \<Rightarrow>
              bindE (information c records active e (depth + 1) st) (\<lambda>(element, st).
              Inr (arm_array n element result, st))
          | None \<Rightarrow>
            (case (if isStructTy type then records type else None) of
               None \<Rightarrow> arm_failure ''aggregate lacks a qualified semantic record layout''
             | Some r \<Rightarrow>
                 if type \<in> active then arm_failure ''recursive by-value record''
                 else if rl_sizeBytes r \<noteq> in_size result \<or> rl_fields r = [] \<or> length (rl_fields r) > 4096 \<or>
                         rl_sizeBytes r mod rl_alignment r \<noteq> 0
                 then arm_failure ''semantic layout disagrees with storage extent''
                 else
                   bindE (foldE (\<lambda>field (s, st).
                       bindE (information c records (insert type active) (fl_type field) (depth + 1) st) (\<lambda>(child, st).
                       bindE (arm_field r (in_size result) field child s) (\<lambda>s. Inr (s, st))))
                     (rl_fields r)
                     (\<lparr>af_base = None, af_members = 0, af_homogeneous = True, af_hasValue = False,
                       af_previousEnd = 0\<rparr>, st)) (\<lambda>(s, st).
                   bindE (arm_record L (result\<lparr>in_alignment := rl_alignment r\<rparr>) s) (\<lambda>i. Inr (i, st)))))"
  by pat_completeness auto

termination
  by (relation "measure (\<lambda>(c, records, active, t, depth, st). 33 - depth)") auto

declare information.simps [simp del]

section \<open>Classification\<close>

text \<open>The two closures of \<open>classify\<close>.\<close>

definition arm_direct :: "NativeABIValue \<Rightarrow> lty \<Rightarrow> NativeABIValue" where
  "arm_direct v physical = v\<lparr>nv_kind := Coerce, nv_pieces := nv_pieces v @ [piece physical 0]\<rparr>"

definition arm_indirect :: "arm_config \<Rightarrow> NativeABIValue \<Rightarrow> nat \<Rightarrow> bool \<Rightarrow> bool \<Rightarrow> NativeABIValue" where
  "arm_indirect c v alignment returns byVal =
     v\<lparr>nv_kind := Indirect, nv_byVal := byVal, nv_sRet := returns,
       nv_abiAlignment := (if \<not> ac_aapcs64 c \<and> \<not> returns then min (max alignment 4) 8 else nv_abiAlignment v)\<rparr>"

definition arm_homogeneous :: "arm_config \<Rightarrow> lty \<Rightarrow> bool \<Rightarrow> Information \<Rightarrow> lty \<Rightarrow> NativeABIValue \<Rightarrow> NativeABIValue" where
  "arm_homogeneous c type returns i base v =
     (if ac_aapcs64 c then
        (if returns then arm_direct v type
         else arm_direct (v\<lparr>nv_stackAlignment := Some (if in_alignment i \<ge> 16 then 16 else 8)\<rparr>)
                (ArrTy (in_members i) base))
      else
        let baseAlignment = getABITypeAlign (ac_layout c) base in
        arm_direct (if \<not> returns \<and> in_alignment i > baseAlignment \<and> in_alignment i \<ge> 8
                    then v\<lparr>nv_stackAlignment := Some 8\<rparr> else v) type)"

definition arm_composite :: "arm_config \<Rightarrow> bool \<Rightarrow> Information \<Rightarrow> NativeABIValue \<Rightarrow> NativeABIValue" where
  "arm_composite c returns i v =
     (let bytes = in_size i in
      if ac_aapcs64 c then
        (if bytes > 16 then arm_indirect c v (in_alignment i) returns False
         else if returns \<and> bytes \<le> 8 then arm_direct v (IntTy (bytes * 8))
         else
           let unit' = (if in_alignment i \<ge> 16 then 16 else 8); integer = IntTy (unit' * 8);
               count' = divideCeil bytes unit' in
           arm_direct v (if count' = 1 then integer else ArrTy count' integer))
      else if returns then
        (if bytes > 4 then arm_indirect c v (in_alignment i) returns False
         else arm_direct v (IntTy ((if bytes \<le> 1 then 1 else if bytes \<le> 2 then 2 else 4) * 8)))
      else if bytes > 64 then arm_indirect c v (in_alignment i) returns True
      else
        let unit' = (if in_alignment i \<le> 4 then 4 else 8) in
        arm_direct v (ArrTy (divideCeil bytes unit') (IntTy (unit' * 8))))"

definition arm_classify ::
  "arm_config \<Rightarrow> record_table \<Rightarrow> lty \<Rightarrow> bool \<Rightarrow> bool \<Rightarrow> arm_budget \<Rightarrow> (NativeABIValue \<times> arm_budget) expected" where
  "arm_classify c records type returns variadic st =
     (if type = VoidTy then
        (if \<not> returns then arm_failure ''void argument'' else Inr (native_value type 0 1, st))
      else
        bindE (information c records {} type 0 st) (\<lambda>(i, st).
        let v = (native_value type (in_size i) (in_alignment i))\<lparr>nv_nativeCount := 1\<rparr> in
        if arm_scalar c type then Inr (v\<lparr>nv_pieces := nv_pieces v @ [piece type 0]\<rparr>, st)
        else if \<not> isStructTy type then arm_failure ''a by-value aggregate must be an explicitly qualified record''
        else case in_homogeneousBase i of
          Some base \<Rightarrow>
            if ac_aapcs64 c \<or> \<not> variadic then Inr (arm_homogeneous c type returns i base v, st)
            else Inr (arm_composite c returns i v, st)
        | None \<Rightarrow> Inr (arm_composite c returns i v, st)))"

section \<open>Signatures\<close>

definition arm_physical :: "NativeABIValue \<Rightarrow> lty list" where
  "arm_physical v = [if nv_kind v = Indirect then opaque_pointer else np_type (hd (nv_pieces v))]"

definition arm_parameter ::
  "arm_config \<Rightarrow> record_table \<Rightarrow> bool \<Rightarrow> lty \<Rightarrow> arm_budget \<Rightarrow> (NativeABIValue \<times> lty list \<times> arm_budget) expected" where
  "arm_parameter c records variadic t st =
     bindE (arm_classify c records t False variadic st) (\<lambda>(v, st). Inr (v, arm_physical v, st))"

definition arm_signature ::
  "arm_config \<Rightarrow> record_table \<Rightarrow> function_type option \<Rightarrow> arm_budget \<Rightarrow> NativeABISignature expected" where
  "arm_signature c records logical st =
     (case logical of
        None \<Rightarrow> arm_failure ''missing logical signature''
      | Some f \<Rightarrow>
          bindE (arm_classify c records (ft_result f) True (ft_vararg f) st) (\<lambda>(res, st).
          let hidden = (if nv_sRet res then [opaque_pointer] else []);
              returnType = (if nv_sRet res \<or> nv_pieces res = [] then VoidTy else np_type (hd (nv_pieces res))) in
          bindE (foldE (add_parameter (arm_parameter c records (ft_vararg f))) (ft_params f) (hidden, [], st))
            (\<lambda>(types, params, st).
          Inr \<lparr>ns_nativeType = \<lparr>ft_result = returnType, ft_params = types, ft_vararg = ft_vararg f\<rparr>,
               ns_result = res, ns_parameters = params, ns_sretIndex = (if nv_sRet res then Some 0 else None),
               ns_remainingGP = 0, ns_remainingSSE = 0\<rparr>)))"

definition arm_add_record ::
  "NativeABIRecordLayout \<Rightarrow> (lty \<times> NativeABIRecordLayout) list \<Rightarrow> (lty \<times> NativeABIRecordLayout) list expected" where
  "arm_add_record r table =
     (if map_of table (rl_storageType r) \<noteq> None then arm_failure ''missing or duplicate semantic record''
      else Inr ((rl_storageType r, r) # table))"

definition arm_classifyNativeLayoutABI ::
  "arm_config \<Rightarrow> function_type option \<Rightarrow> NativeABIRecordLayout list \<Rightarrow> NativeABISignature expected" where
  "arm_classifyNativeLayoutABI c logical descriptors =
     bindE (foldE arm_add_record descriptors []) (\<lambda>table.
     bindE (foldE (\<lambda>r st. bindE (information c (map_of table) {} (rl_storageType r) 0 st) (\<lambda>(i, st). Inr st))
       descriptors full_budget) (\<lambda>st.
     arm_signature c (map_of table) logical st))"

text \<open>A descriptor for each ordered record, from LLVM's own layout of it.\<close>

definition ordered_description :: "data_layout \<Rightarrow> lty \<Rightarrow> lty list \<Rightarrow> NativeABIRecordLayout" where
  "ordered_description L type members =
     \<lparr>rl_storageType = type, rl_kind = Ordered, rl_sizeBytes = getTypeAllocSize L type,
      rl_alignment = getABITypeAlign L type,
      rl_fields = map (\<lambda>(i, f). \<lparr>fl_type = f, fl_bitOffset = getElementOffset L type i * 8, fl_bitWidth = None,
                                 fl_padding = False\<rparr>) (List.enumerate 0 members)\<rparr>"

definition describe_record ::
  "data_layout \<Rightarrow> lty \<Rightarrow> NativeABIRecordLayout list \<times> nat \<Rightarrow> (NativeABIRecordLayout list \<times> nat) expected" where
  "describe_record L type s =
     (case s of (descriptions, remaining) \<Rightarrow>
        (case boundedStorage L type 0 remaining of
           Inl _ \<Rightarrow> arm_failure ''ordered ABI records must be nonempty, sized and naturally aligned''
         | Inr left \<Rightarrow>
             (case type of
                StructTy name packed members \<Rightarrow>
                  if packed \<or> members = []
                  then arm_failure ''ordered ABI records must be nonempty, sized and naturally aligned''
                  else Inr (descriptions @ [ordered_description L type members], left)
              | _ \<Rightarrow> arm_failure ''ordered ABI records must be nonempty, sized and naturally aligned'')))"

definition arm_classifyNativeABI ::
  "arm_config \<Rightarrow> function_type option \<Rightarrow> lty list \<Rightarrow> NativeABISignature expected" where
  "arm_classifyNativeABI c logical orderedRecords =
     bindE (foldE (describe_record (ac_layout c)) orderedRecords ([], bu_storage full_budget)) (\<lambda>(descriptions, left).
     arm_classifyNativeLayoutABI c logical descriptions)"

end
