(* ===== verification/Abi_Arm_Facts.thy ===== *)
theory Abi_Arm_Facts
  imports Abi_Arm
begin

text \<open>
  Facts about the AAPCS classifier: a homogeneous aggregate fills its storage with one to four floating
  members, every classified value has one native parameter, and a coerced aggregate is accessed within its
  storage although the last register may be wider than what is left of it.
\<close>

text \<open>What the 64-bit and 32-bit layouts add to \<open>layout_ok\<close>: the register integers have their own size as stride.\<close>

definition arm_layout_ok :: "data_layout \<Rightarrow> bool" where
  "arm_layout_ok L \<longleftrightarrow>
     layout_ok L \<and> getTypeAllocSize L (IntTy 32) = 4 \<and> getTypeAllocSize L (IntTy 64) = 8 \<and>
     getTypeAllocSize L (IntTy 128) = 16 \<and> (\<forall>n e. isSized L e \<longrightarrow> isSized L (ArrTy n e))"

section \<open>Bounded storage\<close>

text \<open>
  The predicate the budgeted walk computes: a depth of at most 32, sized storage without empty arrays, and
  extents below the bound, the fields of a record with their worst padding included.
\<close>

fun type_nodes :: "lty \<Rightarrow> nat" where
  "type_nodes (ArrTy n e) = Suc (type_nodes e)"
| "type_nodes (StructTy s p fs) = Suc (sum_list (map type_nodes fs))"
| "type_nodes t = 1"

fun storage_admitted :: "data_layout \<Rightarrow> lty \<Rightarrow> nat \<Rightarrow> bool" where
  "storage_admitted L t depth \<longleftrightarrow>
     depth \<le> 32 \<and> isSized L t \<and>
     (case t of
        ArrTy n e \<Rightarrow>
          0 < n \<and> storage_admitted L e (depth + 1) \<and> 0 < getTypeAllocSize L e \<and> n * getTypeAllocSize L e \<le> storage_bound
      | StructTy s p fs \<Rightarrow>
          list_all (\<lambda>f. storage_admitted L f (depth + 1)) fs \<and>
          sum_list (map (\<lambda>f. getTypeAllocSize L f + getABITypeAlign L f) fs) \<le> storage_bound \<and>
          getTypeAllocSize L t \<le> storage_bound
      | _ \<Rightarrow> getTypeAllocSize L t \<le> storage_bound)"

declare storage_admitted.simps [simp del]

lemma type_nodes_pos [simp]: "0 < type_nodes t"
  by (cases t) auto

lemma bounded_members:
  assumes "m \<le> storage_bound"
    and "\<And>f r. f \<in> set fs \<Longrightarrow> boundedStorage L f d r =
      (if storage_admitted L f d \<and> type_nodes f \<le> r then Inr (r - type_nodes f) else Inl ())"
  shows "foldE (\<lambda>field (maximum, left).
      bindE (boundedStorage L field d left) (\<lambda>left'.
      if getTypeAllocSize L field + getABITypeAlign L field > storage_bound - maximum then Inl ()
      else Inr (maximum + (getTypeAllocSize L field + getABITypeAlign L field), left'))) fs (m, r) =
    (let bytes = m + sum_list (map (\<lambda>f. getTypeAllocSize L f + getABITypeAlign L f) fs);
         nodes = sum_list (map type_nodes fs) in
     if list_all (\<lambda>f. storage_admitted L f d) fs \<and> bytes \<le> storage_bound \<and> nodes \<le> r
     then Inr (bytes, r - nodes) else Inl ())"
  using assms
proof (induction fs arbitrary: m r)
  case Nil
  then show ?case by simp
next
  case (Cons f fs)
  show ?case
  proof (cases "storage_admitted L f d \<and> type_nodes f \<le> r \<and>
      m + (getTypeAllocSize L f + getABITypeAlign L f) \<le> storage_bound")
    case True
    with Cons.prems(2) [of f r] Cons.IH [of "m + (getTypeAllocSize L f + getABITypeAlign L f)" "r - type_nodes f"] Cons.prems
    show ?thesis by (auto simp: Let_def)
  next
    case False
    with Cons.prems(2) [of f r] Cons.prems(1) show ?thesis by (auto simp: Let_def)
  qed
qed

lemma boundedStorage_spec:
  "boundedStorage L t depth remaining =
     (if storage_admitted L t depth \<and> type_nodes t \<le> remaining then Inr (remaining - type_nodes t) else Inl ())"
proof (induction t arbitrary: depth remaining)
  case (ArrTy n e)
  have "n \<le> storage_bound div a \<longleftrightarrow> n * a \<le> storage_bound" if "0 < a" for a
    using that by (simp add: less_eq_div_iff_mult_less_eq)
  then show ?case
    by (auto simp: boundedStorage.simps [of _ "ArrTy n e"] storage_admitted.simps [of _ "ArrTy n e"] ArrTy.IH)
next
  case (StructTy s p fs)
  show ?case
  proof (cases "remaining = 0 \<or> depth > 32 \<or> \<not> isSized L (StructTy s p fs)")
    case True
    then show ?thesis
      by (auto simp: boundedStorage.simps [of _ "StructTy s p fs"] storage_admitted.simps [of _ "StructTy s p fs"])
  next
    case False
    then show ?thesis
      using bounded_members [of 0 fs L "depth + 1" "remaining - 1"] StructTy.IH
      by (auto simp: boundedStorage.simps [of _ "StructTy s p fs"] storage_admitted.simps [of _ "StructTy s p fs"] Let_def)
  qed
qed (auto simp: boundedStorage.simps storage_admitted.simps)

section \<open>Sizes and homogeneous aggregates\<close>

definition information_ok :: "data_layout \<Rightarrow> lty \<Rightarrow> Information \<Rightarrow> bool" where
  "information_ok L t i \<longleftrightarrow>
     isSized L t \<and> in_size i = getTypeAllocSize L t \<and> 0 < in_size i \<and> in_size i \<le> storage_bound \<and>
     (case in_homogeneousBase i of
        None \<Rightarrow> True
      | Some b \<Rightarrow> (b = FloatTy \<or> b = DoubleTy) \<and> 0 < in_members i \<and> in_members i \<le> 4 \<and>
          in_members i * getTypeAllocSize L b = in_size i)"

lemma boundedStorage_sized: "boundedStorage L t d n = Inr m \<Longrightarrow> isSized L t"
  by (simp add: boundedStorage.simps [of _ t] split: if_splits)

lemma boundedStorage_array: "boundedStorage L (ArrTy n e) d r = Inr m \<Longrightarrow> 0 < n"
  by (simp add: boundedStorage.simps [of _ "ArrTy n e"] split: if_splits)

text \<open>The base collected by the field loop is the base of one of the fields.\<close>

definition field_base_ok :: "arm_fields \<Rightarrow> bool" where
  "field_base_ok s \<longleftrightarrow> (case af_base s of None \<Rightarrow> True | Some b \<Rightarrow> b = FloatTy \<or> b = DoubleTy)"

lemma arm_field_base:
  assumes "arm_field r n field child s = Inr s'" "information_ok L t child" "field_base_ok s"
  shows "field_base_ok s'"
proof -
  from assms(1) have "af_base s' = af_base s \<or> af_base s' = in_homogeneousBase child"
    by (auto simp: arm_field_def Let_def split: if_splits)
  with assms(2,3) show ?thesis by (auto simp: field_base_ok_def information_ok_def split: option.splits)
qed

lemma arm_record_ok:
  assumes "arm_record L result s = Inr i" "field_base_ok s" "information_ok L t result"
  shows "information_ok L t i"
proof (cases "af_base s")
  case None
  with assms(1,3) show ?thesis by (auto simp: arm_record_def information_ok_def split: if_splits)
next
  case (Some b)
  with assms show ?thesis
    by (cases "\<not> af_homogeneous s \<or> af_members s = 0 \<or> af_members s > 4 \<or> getTypeAllocSize L b * af_members s \<noteq> in_size result")
      (auto simp: arm_record_def field_base_ok_def information_ok_def mult.commute split: if_splits)
qed

lemma arm_array_ok:
  assumes lay: "layout_ok L" and e: "information_ok L e element" and n: "0 < n"
    and r: "information_ok L (ArrTy n e) result" "in_homogeneousBase result = None"
  shows "information_ok L (ArrTy n e) (arm_array n element result)"
proof (cases "in_homogeneousBase element \<noteq> None \<and> n \<le> 4 div in_members element")
  case True
  then obtain b where b: "in_homogeneousBase element = Some b" by auto
  with e have m: "0 < in_members element" "b = FloatTy \<or> b = DoubleTy"
    "in_members element * getTypeAllocSize L b = getTypeAllocSize L e" "0 < getTypeAllocSize L e"
    by (auto simp: information_ok_def)
  have "in_members element * n \<le> in_members element * (4 div in_members element)" using True by simp
  also have "\<dots> \<le> 4" by (rule times_div_less_eq_dividend)
  finally have le: "in_members element * n \<le> 4" .
  have "in_members element * n * getTypeAllocSize L b = n * getTypeAllocSize L e" by (simp add: m(3) [symmetric])
  with le m n r True b show ?thesis
    by (simp add: arm_array_def information_ok_def layout_okD(10) [OF lay])
next
  case False
  with r show ?thesis by (auto simp: arm_array_def)
qed

lemma information_Inr:
  "information c records active t depth st = Inr (i, st') \<Longrightarrow> layout_ok (ac_layout c) \<Longrightarrow>
   information_ok (ac_layout c) t i"
proof (induction c records active t depth st arbitrary: i st' rule: information.induct)
  case (1 c records active t depth st)
  let ?L = "ac_layout c"
  let ?r = "\<lparr>in_size = getTypeAllocSize ?L t, in_alignment = getABITypeAlign ?L t, in_homogeneousBase = None, in_members = 0\<rparr>"
  note run = "1.prems"(1) [unfolded information.simps [of c records active t] Let_def]
  from run obtain left where d: "\<not> (bu_nodes st = 0 \<or> depth > 32)" "boundedStorage ?L t 0 (bu_storage st) = Inr left"
    and size: "\<not> (in_size ?r = 0 \<or> in_size ?r > storage_bound)"
    by (auto split: if_splits sum.splits)
  have base: "information_ok ?L t ?r"
    using size boundedStorage_sized [OF d(2)] by (simp add: information_ok_def)
  show ?case
  proof (cases "arm_scalar c t")
    case True
    with run d size base show ?thesis
      by (auto simp: information_ok_def layout_okD(3,5) [OF "1.prems"(2)] split: if_splits)
  next
    case ns: False
    show ?thesis
    proof (cases "array_parts t")
      case (Some ne)
      then obtain n e where a: "array_parts t = Some (n, e)" "t = ArrTy n e" by (cases ne) (auto simp: array_parts_Some)
      from run d size ns a(1) obtain element st'' where
        e: "information c records active e (depth + 1) \<lparr>bu_nodes = bu_nodes st - 1, bu_storage = left\<rparr> = Inr (element, st'')"
        and i: "i = arm_array n element ?r"
        by (auto simp: bindE_Inr_iff)
      from "1.IH"(2) [OF refl d refl refl size ns a(1) refl e "1.prems"(2)]
      have "information_ok ?L e element" .
      then show ?thesis
        using arm_array_ok [OF "1.prems"(2)] base boundedStorage_array d(2) by (simp add: a(2) i)
    next
      case None
      let ?start = "\<lparr>af_base = None, af_members = 0, af_homogeneous = True, af_hasValue = False, af_previousEnd = 0\<rparr>"
      let ?step = "\<lambda>r field (s, st).
        bindE (information c records (insert t active) (fl_type field) (depth + 1) st) (\<lambda>(child, st).
        bindE (arm_field r (in_size ?r) field child s) (\<lambda>s. Inr (s, st)))"
      from run d size ns None obtain r s u where r: "(if isStructTy t then records t else None) = Some r"
        and a: "t \<notin> active"
        and v: "\<not> (rl_sizeBytes r \<noteq> in_size ?r \<or> rl_fields r = [] \<or> length (rl_fields r) > 4096 \<or>
                  rl_sizeBytes r mod rl_alignment r \<noteq> 0)"
        and loop: "foldE (?step r) (rl_fields r) (?start, \<lparr>bu_nodes = bu_nodes st - 1, bu_storage = left\<rparr>) = Inr (s, u)"
        and i: "arm_record ?L (?r\<lparr>in_alignment := rl_alignment r\<rparr>) s = Inr i"
        by (auto simp: bindE_Inr_iff split: option.splits if_splits)
      have "field_base_ok (fst (s, u))"
      proof (rule foldE_invariant [OF loop, where P = "\<lambda>x. field_base_ok (fst x)"])
        fix field x y assume field: "field \<in> set (rl_fields r)" and x: "field_base_ok (fst x)"
          and y: "?step r field x = Inr y"
        obtain s1 st1 where x1: "x = (s1, st1)" by (cases x)
        from y x1 obtain child st2 s2 where
          child: "information c records (insert t active) (fl_type field) (depth + 1) st1 = Inr (child, st2)"
          and s2: "arm_field r (in_size ?r) field child s1 = Inr s2" "y = (s2, st2)"
          by (auto simp: bindE_Inr_iff)
        from "1.IH"(1) [OF refl d refl refl size ns None r a v field refl child "1.prems"(2)]
        show "field_base_ok (fst y)" using arm_field_base [OF s2(1)] x x1 s2(2) by simp
      qed (simp add: field_base_ok_def)
      moreover have "information_ok ?L t (?r\<lparr>in_alignment := rl_alignment r\<rparr>)"
        using base by (simp add: information_ok_def)
      ultimately show ?thesis using arm_record_ok [OF i] by simp
    qed
  qed
qed

section \<open>Coerced values\<close>

text \<open>
  A native parameter or result of the value: nothing but a pointer when indirect, else one piece at the
  start of the storage, which the access routines admit whenever they admit its type.
\<close>

definition arm_classified :: "arm_config \<Rightarrow> lty \<Rightarrow> bool \<Rightarrow> NativeABIValue \<Rightarrow> bool" where
  "arm_classified c t returns v \<longleftrightarrow>
     nv_storageType v = t \<and>
     (if t = VoidTy then returns \<and> nv_kind v = Direct \<and> nv_pieces v = [] \<and> \<not> nv_byVal v \<and> \<not> nv_sRet v
      else
        nv_nativeCount v = 1 \<and> nv_storageSize v = getTypeAllocSize (ac_layout c) t \<and> 0 < nv_storageSize v \<and>
        nv_storageSize v \<le> storage_bound \<and>
        (if nv_kind v = Indirect
         then nv_pieces v = [] \<and> nv_sRet v = returns \<and> (nv_byVal v \<longrightarrow> \<not> returns) \<and> isStructTy t
         else \<not> nv_byVal v \<and> \<not> nv_sRet v \<and>
           (\<exists>p. nv_pieces v = [piece p 0] \<and>
             (validPieceType (ac_layout c) p 0 \<longrightarrow> accessible (ac_layout c) v) \<and>
             (p \<noteq> t \<longrightarrow> validPieceType (ac_layout c) p 0) \<and>
             (ac_aapcs64 c \<and> \<not> returns \<and> isStructTy t \<longrightarrow> p \<noteq> t))))"

lemma arm_classified_begin:
  "arm_classified c t returns v \<Longrightarrow> arm_classified c t returns (v\<lparr>nv_nativeBegin := n\<rparr>)"
  by (auto simp: arm_classified_def)

lemma single_piece_accessible:
  assumes "nv_pieces v = [piece p 0]" "nv_kind v \<noteq> Indirect" "isSized L (nv_storageType v)"
    "getTypeAllocSize L (nv_storageType v) = nv_storageSize v"
    and "validPieceType L p 0" "validPieceExtent L p 0 (nv_storageSize v)"
  shows "accessible L v"
  using assms by (simp add: accessible_def check_piece_def)

lemma storage_extent: "getTypeStoreSize L p \<le> n \<Longrightarrow> 0 < n \<Longrightarrow> validPieceExtent L p 0 n"
  by (simp add: validPieceExtent.simps [of _ p])

text \<open>The integer registers of a composite value, the last one possibly wider than the rest of the storage.\<close>

lemma integer_valid: "arm_layout_ok L \<Longrightarrow> 0 < k \<Longrightarrow> k \<le> 16 \<Longrightarrow> d \<le> 32 \<Longrightarrow> validPieceType L (IntTy (k * 8)) d"
  by (simp add: arm_layout_ok_def layout_sizedD(3) validPieceType.simps [of _ "IntTy (k * 8)"] nativePieceScalar_def)

lemma integer_extent: "o' < n \<Longrightarrow> validPieceExtent L (IntTy w) o' n"
  by (simp add: validPieceExtent.simps [of _ "IntTy w"])

lemma integers_admitted:
  assumes lay: "arm_layout_ok L" and k: "k = 4 \<or> k = 8 \<or> k = 16" and n: "0 < n" "n \<le> 64"
  shows "validPieceType L (ArrTy (divideCeil n k) (IntTy (k * 8))) 0 \<and>
    validPieceExtent L (ArrTy (divideCeil n k) (IntTy (k * 8))) 0 n"
proof
  let ?c = "divideCeil n k"
  have a: "getTypeAllocSize L (IntTy (k * 8)) = k" using k lay by (auto simp: arm_layout_ok_def)
  have "isSized L (IntTy (k * 8))" "0 < ?c" "?c \<le> 64"
    using k n lay by (auto simp: arm_layout_ok_def layout_sizedD(3) divideCeil_def)
  then show "validPieceType L (ArrTy ?c (IntTy (k * 8))) 0"
    using integer_valid [OF lay, of k 1] k lay
    by (auto simp: validPieceType.simps [of _ "ArrTy n e" for n e] arm_layout_ok_def)
  have "i * k < n" if "i < ?c" for i using that k by (intro divideCeil_below) auto
  then show "validPieceExtent L (ArrTy ?c (IntTy (k * 8))) 0 n"
    using n by (simp add: validPieceExtent.simps [of _ "ArrTy n e" for n e] list_all_iff a integer_extent)
qed

lemma floats_admitted:
  assumes lay: "arm_layout_ok L" and b: "b = FloatTy \<or> b = DoubleTy" and m: "0 < m" "m \<le> 4"
    and n: "m * getTypeAllocSize L b = n" "0 < n"
  shows "validPieceType L (ArrTy m b) 0 \<and> validPieceExtent L (ArrTy m b) 0 n"
proof
  have s: "isSized L b" "validPieceType L b 1" using b lay
    by (auto simp: arm_layout_ok_def layout_sizedD(4,5) validPieceType.simps [of _ "FloatTy"]
      validPieceType.simps [of _ "DoubleTy"] nativePieceScalar_def scalar_def)
  with m lay show "validPieceType L (ArrTy m b) 0"
    by (simp add: validPieceType.simps [of _ "ArrTy n e" for n e] arm_layout_ok_def)
  show "validPieceExtent L (ArrTy m b) 0 n"
    using n lay by (intro storage_extent) (simp_all add: arm_layout_ok_def layout_okD(9))
qed

lemma arm_direct_classified:
  assumes v: "nv_pieces v = []" "nv_nativeCount v = 1" "\<not> nv_byVal v" "\<not> nv_sRet v" "nv_storageType v = t"
    "nv_storageSize v = getTypeAllocSize (ac_layout c) t"
    and t: "t \<noteq> VoidTy" "isSized (ac_layout c) t" "0 < nv_storageSize v" "nv_storageSize v \<le> storage_bound"
    and p: "validPieceExtent (ac_layout c) p 0 (nv_storageSize v)" "p \<noteq> t \<Longrightarrow> validPieceType (ac_layout c) p 0"
      "ac_aapcs64 c \<and> \<not> returns \<and> isStructTy t \<longrightarrow> p \<noteq> t"
  shows "arm_classified c t returns (arm_direct v p)"
  using assms single_piece_accessible [of "arm_direct v p" p "ac_layout c"]
  by (auto simp: arm_classified_def arm_direct_def)

text \<open>The value every branch of \<open>arm_classify\<close> starts from.\<close>

definition fresh_value :: "arm_config \<Rightarrow> lty \<Rightarrow> Information \<Rightarrow> NativeABIValue \<Rightarrow> bool" where
  "fresh_value c t i v \<longleftrightarrow>
     information_ok (ac_layout c) t i \<and> t \<noteq> VoidTy \<and> nv_pieces v = [] \<and> nv_nativeCount v = 1 \<and>
     \<not> nv_byVal v \<and> \<not> nv_sRet v \<and> nv_storageType v = t \<and> nv_storageSize v = in_size i"

lemma fresh_direct:
  assumes "fresh_value c t i v" "validPieceExtent (ac_layout c) p 0 (in_size i)"
    "p \<noteq> t \<Longrightarrow> validPieceType (ac_layout c) p 0" "ac_aapcs64 c \<and> \<not> returns \<and> isStructTy t \<longrightarrow> p \<noteq> t"
  shows "arm_classified c t returns (arm_direct v p)"
  using assms by (intro arm_direct_classified) (auto simp: fresh_value_def information_ok_def)

lemma fresh_itself:
  assumes "fresh_value c t i v" "layout_ok (ac_layout c)" "\<not> (ac_aapcs64 c \<and> \<not> returns)"
  shows "arm_classified c t returns (arm_direct v t)"
  using assms layout_okD(7) [OF assms(2), of t]
  by (intro fresh_direct storage_extent) (auto simp: fresh_value_def information_ok_def)

lemma fresh_indirect:
  assumes "fresh_value c t i v" "isStructTy t" "byVal \<longrightarrow> \<not> returns"
  shows "arm_classified c t returns (arm_indirect c v a returns byVal)"
  using assms by (simp add: fresh_value_def arm_classified_def arm_indirect_def information_ok_def)

lemma arm_homogeneous_classified:
  assumes v: "fresh_value c t i v" and lay: "arm_layout_ok (ac_layout c)" and b: "in_homogeneousBase i = Some b"
  shows "arm_classified c t returns (arm_homogeneous c t returns i b v)"
proof (cases "ac_aapcs64 c \<and> \<not> returns")
  case True
  have "validPieceType (ac_layout c) (ArrTy (in_members i) b) 0 \<and>
      validPieceExtent (ac_layout c) (ArrTy (in_members i) b) 0 (in_size i)"
    using v b by (intro floats_admitted [OF lay]) (auto simp: fresh_value_def information_ok_def)
  moreover have "fresh_value c t i (v\<lparr>nv_stackAlignment := s\<rparr>)" for s using v by (simp add: fresh_value_def)
  ultimately show ?thesis using True by (auto simp: arm_homogeneous_def intro!: fresh_direct)
next
  case False
  have "fresh_value c t i (v\<lparr>nv_stackAlignment := s\<rparr>)" for s using v by (simp add: fresh_value_def)
  with False v lay show ?thesis by (auto simp: arm_homogeneous_def Let_def arm_layout_ok_def intro!: fresh_itself)
qed

lemma arm_composite_classified:
  assumes v: "fresh_value c t i v" and lay: "arm_layout_ok (ac_layout c)" and t: "isStructTy t"
  shows "arm_classified c t returns (arm_composite c returns i v)"
proof -
  let ?L = "ac_layout c" and ?n = "in_size i"
  have n: "0 < ?n" using v by (simp add: fresh_value_def information_ok_def)
  have int: "arm_classified c t returns (arm_direct v (IntTy (k * 8)))" if "0 < k" "k \<le> 16" for k
    using integer_valid [OF lay that] integer_extent n by (intro fresh_direct [OF v]) auto
  have arr: "arm_classified c t returns (arm_direct v (ArrTy (divideCeil ?n k) (IntTy (k * 8))))"
    if "k = 4 \<or> k = 8 \<or> k = 16" "?n \<le> 64" for k
    using integers_admitted [OF lay that(1) n that(2)] by (intro fresh_direct [OF v]) auto
  note ind = fresh_indirect [OF v t]
  show ?thesis
  proof (cases "ac_aapcs64 c")
    case True
    with int [of ?n] int [of 8] int [of 16] arr [of 8] arr [of 16] ind n show ?thesis
      by (auto simp: arm_composite_def Let_def)
  next
    case False
    with int [of 1] int [of 2] int [of 4] arr [of 4] arr [of 8] ind n show ?thesis
      by (auto simp: arm_composite_def Let_def)
  qed
qed

lemma arm_classify_classified:
  assumes lay: "arm_layout_ok (ac_layout c)"
    and run: "arm_classify c records t returns variadic st = Inr (v, st')"
  shows "arm_classified c t returns v"
proof (cases "t = VoidTy")
  case True
  with run show ?thesis by (auto simp: arm_classify_def arm_classified_def native_value_def split: if_splits)
next
  case False
  have lay': "layout_ok (ac_layout c)" using lay by (simp add: arm_layout_ok_def)
  from run False obtain i st1 where i: "information c records {} t 0 st = Inr (i, st1)"
    by (auto simp: arm_classify_def bindE_Inr_iff)
  let ?v = "(native_value t (in_size i) (in_alignment i))\<lparr>nv_nativeCount := 1\<rparr>"
  have ok: "information_ok (ac_layout c) t i" by (rule information_Inr [OF i lay'])
  have fresh: "fresh_value c t i ?v" using False ok by (simp add: fresh_value_def native_value_def)
  show ?thesis
  proof (cases "arm_scalar c t")
    case True
    with run False i have v: "v = ?v\<lparr>nv_pieces := [piece t 0]\<rparr>" by (auto simp: arm_classify_def native_value_def)
    have "validPieceExtent (ac_layout c) t 0 (in_size i)"
      using ok layout_okD(7) [OF lay', of t] by (intro storage_extent) (simp_all add: information_ok_def)
    then have "validPieceType (ac_layout c) t 0 \<longrightarrow> accessible (ac_layout c) v"
      using ok single_piece_accessible [of v t "ac_layout c"] by (simp add: v information_ok_def native_value_def)
    moreover have "\<not> isStructTy t" using True by (cases t) (simp_all add: arm_scalar_def)
    ultimately show ?thesis using False ok by (auto simp: arm_classified_def v information_ok_def native_value_def)
  next
    case ns: False
    with run False i have st: "isStructTy t" and
      "v = arm_composite c returns i ?v \<or> (\<exists>b. in_homogeneousBase i = Some b \<and> v = arm_homogeneous c t returns i b ?v)"
      by (auto simp: arm_classify_def Let_def split: option.splits if_splits)
    with arm_composite_classified [OF fresh lay st] arm_homogeneous_classified [OF fresh lay] show ?thesis by auto
  qed
qed

section \<open>The parameter loop\<close>

interpretation arm: parameter_step "arm_parameter c records variadic" arm_physical
  "\<lambda>_. arm_layout_ok (ac_layout c)" "\<lambda>t. arm_classified c t False" for c records variadic
proof
  fix s t v tys s'
  assume lay: "arm_layout_ok (ac_layout c)" and step: "arm_parameter c records variadic t s = Inr (v, tys, s')"
  then have v: "arm_classify c records t False variadic s = Inr (v, s')" and tys: "tys = arm_physical v"
    by (auto simp: arm_parameter_def bindE_Inr_iff)
  from arm_classify_classified [OF lay v] show c: "arm_classified c t False v" .
  show "tys = arm_physical v" by (rule tys)
  have "t \<noteq> VoidTy" using v by (auto simp: arm_classify_def)
  with c show "nv_nativeCount v = length tys" by (simp add: arm_classified_def tys arm_physical_def)
  show "arm_layout_ok (ac_layout c)" by (rule lay)
qed (simp_all add: arm_physical_def arm_classified_begin)

lemma arm_signature_laid_out:
  assumes "arm_signature c records (Some f) st = Inr sg" "arm_layout_ok (ac_layout c)"
  shows "arm_classified c (ft_result f) True (ns_result sg) \<and>
    list_all2 (\<lambda>t. arm_classified c t False) (ft_params f) (ns_parameters sg) \<and>
    ft_params (ns_nativeType sg) = (if nv_sRet (ns_result sg) then [opaque_pointer] else []) @
      concat (map arm_physical (ns_parameters sg)) \<and>
    contiguous (if nv_sRet (ns_result sg) then 1 else 0) (ns_parameters sg) (length (ft_params (ns_nativeType sg)))"
proof -
  from assms(1) obtain res st1 types params st2 where
    res: "arm_classify c records (ft_result f) True (ft_vararg f) st = Inr (res, st1)"
    and run: "foldE (add_parameter (arm_parameter c records (ft_vararg f))) (ft_params f)
      (if nv_sRet res then [opaque_pointer] else [], [], st1) = Inr (types, params, st2)"
    and sg: "ns_result sg = res" "ns_parameters sg = params" "ft_params (ns_nativeType sg) = types"
    by (auto simp: arm_signature_def Let_def bindE_Inr_iff)
  from arm.parameters_laid_out [OF run assms(2)] have
    "list_all2 (\<lambda>t. arm_classified c t False) (ft_params f) params"
    "types = (if nv_sRet res then [opaque_pointer] else []) @ concat (map arm_physical params)"
    "contiguous (length (if nv_sRet res then [opaque_pointer] else [])) params (length types)" by auto
  with arm_classify_classified [OF assms(2) res] show ?thesis by (auto simp: sg split: if_splits)
qed

lemma arm_classifyNativeLayoutABI_laid_out:
  assumes "arm_classifyNativeLayoutABI c (Some f) descriptors = Inr sg" "arm_layout_ok (ac_layout c)"
  shows "arm_classified c (ft_result f) True (ns_result sg) \<and>
    list_all2 (\<lambda>t. arm_classified c t False) (ft_params f) (ns_parameters sg) \<and>
    ft_params (ns_nativeType sg) = (if nv_sRet (ns_result sg) then [opaque_pointer] else []) @
      concat (map arm_physical (ns_parameters sg)) \<and>
    contiguous (if nv_sRet (ns_result sg) then 1 else 0) (ns_parameters sg) (length (ft_params (ns_nativeType sg)))"
proof -
  from assms(1) obtain table st where "arm_signature c (map_of table) (Some f) st = Inr sg"
    by (auto simp: arm_classifyNativeLayoutABI_def bindE_Inr_iff)
  then show ?thesis using assms(2) by (rule arm_signature_laid_out)
qed

lemma arm_physical_length: "length (concat (map arm_physical vs)) = length vs"
  by (induction vs) (auto simp: arm_physical_def)

text \<open>What the 64-bit convention passes directly can be moved between registers and storage.\<close>

lemma aapcs64_parameter_accessible:
  assumes "arm_classified c t False v" "ac_aapcs64 c" "isStructTy t" "nv_kind v \<noteq> Indirect"
  shows "accessible (ac_layout c) v"
proof -
  have "t \<noteq> VoidTy" using assms(3) by auto
  with assms show ?thesis by (auto simp: arm_classified_def)
qed

end
