(* ===== verification/Abi_X86_Facts.thy ===== *)
theory Abi_X86_Facts
  imports Abi_X86
begin

text \<open>
  What the System V classification of ordered records guarantees: the leaves of a validated record
  are scalars inside it, the registers it is split into are admitted pieces of its storage, and an
  aggregate goes to registers entirely or not at all.
\<close>

section \<open>Leaves\<close>

lemma leaves_simps:
  "leaves L (StructTy s p fs) o' =
     concat (map (\<lambda>i. leaves L (fs ! i) (o' + getElementOffset L (StructTy s p fs) i)) [0..<length fs])"
  "leaves L (ArrTy n e) o' = concat (map (\<lambda>i. leaves L e (o' + i * getTypeAllocSize L e)) [0..<n])"
proof -
  have "map (\<lambda>(i, f). leaves L f (o' + getElementOffset L (StructTy s p fs) i)) (List.enumerate 0 fs) =
      map (\<lambda>i. leaves L (fs ! i) (o' + getElementOffset L (StructTy s p fs) i)) [0..<length fs]"
    by (intro nth_equalityI) (simp_all add: nth_enumerate_eq)
  then show "leaves L (StructTy s p fs) o' =
     concat (map (\<lambda>i. leaves L (fs ! i) (o' + getElementOffset L (StructTy s p fs) i)) [0..<length fs])"
    by (simp add: leaves.simps [of _ "StructTy s p fs"])
qed (simp add: leaves.simps [of _ "ArrTy n e"])

definition scalar_leaves :: "data_layout \<Rightarrow> lty \<Rightarrow> bool" where
  "scalar_leaves L t \<longleftrightarrow> (\<forall>o'. leaves L t o' \<noteq> [] \<and> (\<forall>l \<in> set (leaves L t o'). scalar (lf_type l) True))"

lemma scalar_leaf: "scalar t field \<Longrightarrow> leaves L t o' = [\<lparr>lf_type = t, lf_offset = o', lf_size = getTypeStoreSize L t\<rparr>]"
  by (auto simp: scalar_def leaves.simps [of _ t] split: lty.splits)

lemma validate_aggregate:
  assumes "validate L records t depth seen = Inr seen'" "t \<notin> seen" "\<not> scalar t True"
  obtains n e where "t = ArrTy n e" | s p fs where "t = StructTy s p fs"
  using assms unfolding validate.simps [of _ _ t] by (cases t) (simp_all split: if_splits)

lemma validate_scalar_leaves:
  assumes "validate L records t depth seen = Inr seen'" "\<forall>x \<in> seen. scalar_leaves L x"
  shows "scalar_leaves L t \<and> (\<forall>x \<in> seen'. scalar_leaves L x)"
  using assms
proof (induction L records t depth seen arbitrary: seen' rule: validate.induct)
  case (1 L records t depth seen)
  show ?case
  proof (cases "t \<in> seen \<or> scalar t True")
    case True
    then show ?thesis
      using "1.prems" by (auto simp: validate.simps [of _ _ t] scalar_leaf scalar_leaves_def split: if_splits)
  next
    case False
    note run = "1.prems"(1) False
    from run have g: "\<not> (depth > 32 \<or> \<not> isSized L t)" by (auto simp: validate.simps [of _ _ t] split: if_splits)
    from False have f: "t \<notin> seen" "\<not> scalar t True" by simp_all
    show ?thesis
    proof (rule validate_aggregate [OF "1.prems"(1) f])
      fix n e assume ArrTy: "t = ArrTy n e"
      from run ArrTy g obtain s1 where s1: "validate L records e (depth + 1) seen = Inr s1" "seen' = insert t s1" "n \<noteq> 0"
        by (auto simp: validate.simps [of _ _ "ArrTy n e"] bindE_Inr_iff split: if_splits)
      from "1.IH"(1) [OF g _ _ ArrTy s1(3) s1(1) "1.prems"(2)] False
      have "scalar_leaves L e" "\<forall>x \<in> s1. scalar_leaves L x" by auto
      moreover from this(1) have "scalar_leaves L t" using s1(3) by (auto simp: ArrTy scalar_leaves_def leaves_simps)
      ultimately show ?thesis by (simp add: s1(2))
    next
      fix s packed fs assume StructTy: "t = StructTy s packed fs"
      let ?body = "\<lambda>field (bytes, seen).
          bindE (validate L records field (depth + 1) seen) (\<lambda>seen'.
          let at = alignTo bytes (getABITypeAlign L field); fieldSize = getTypeAllocSize L field in
          if at > size_limit \<or> fieldSize > size_limit - at
          then aggregate_failure ''logical storage exceeds qualification size limit''
          else Inr (at + fieldSize, seen'))"
      from run StructTy g obtain b s1 where s1: "foldE ?body fs (0, seen) = Inr (b, s1)" "seen' = insert t s1"
        and c: "t \<in> records" "\<not> (packed \<or> fs = [])"
        by (auto simp: validate.simps [of _ _ "StructTy s packed fs"] bindE_Inr_iff split: if_splits)
      have step: "scalar_leaves L f \<and> (\<forall>x \<in> v. scalar_leaves L x)"
        if "f \<in> set fs" "?body f (n, u) = Inr (n', v)" "\<forall>x \<in> u. scalar_leaves L x" for f n u n' v
      proof -
        from that(2) obtain v' where v': "validate L records f (depth + 1) u = Inr v'" "v' = v"
          by (auto simp: bindE_Inr_iff Let_def split: if_splits)
        from "1.IH"(2) [OF g _ _ StructTy _ c(2) that(1) refl v'(1)] False c(1) that(3) v'(2)
        show ?thesis by auto
      qed
      have "\<And>bytes u. foldE ?body gs (bytes, u) = Inr (b, s1) \<Longrightarrow> set gs \<subseteq> set fs \<Longrightarrow> \<forall>x \<in> u. scalar_leaves L x \<Longrightarrow>
          (\<forall>f \<in> set gs. scalar_leaves L f) \<and> (\<forall>x \<in> s1. scalar_leaves L x)" for gs
      proof (induction gs)
        case Nil
        then show ?case by auto
      next
        case (Cons f gs)
        from Cons.prems(1) obtain st where st: "?body f (bytes, u) = Inr st" "foldE ?body gs st = Inr (b, s1)"
          by (rule foldE_Cons_InrE)
        obtain bytes' v where v: "st = (bytes', v)" by (cases st)
        have f: "f \<in> set fs" and gs: "set gs \<subseteq> set fs" using Cons.prems(2) by simp_all
        from step [OF f st(1) [unfolded v] Cons.prems(3)]
        have sc: "scalar_leaves L f" "\<forall>x \<in> v. scalar_leaves L x" by simp_all
        from Cons.IH [OF st(2) [unfolded v] gs sc(2)] sc(1) show ?case by simp
      qed
      from this [OF s1(1) subset_refl "1.prems"(2)]
      have "\<forall>f \<in> set fs. scalar_leaves L f" "\<forall>x \<in> s1. scalar_leaves L x" by simp_all
      moreover from this(1) have "scalar_leaves L t" using c(2)
        by (simp add: StructTy scalar_leaves_def leaves_simps) (force simp: Ball_def intro: exI [of _ 0])
      ultimately show ?thesis by (simp add: s1(2))
    qed
  qed
qed

lemma leaves_inside:
  assumes "layout_ok L" "l \<in> set (leaves L t o')"
  shows "o' \<le> lf_offset l \<and> lf_offset l + lf_size l \<le> o' + getTypeStoreSize L t \<and>
    lf_size l = getTypeStoreSize L (lf_type l)"
  using assms
proof (induction L t o' rule: leaves.induct)
  case (1 L t o')
  note lay = layout_okD [OF "1.prems"(1)]
  show ?case
  proof (cases t)
    case (ArrTy n e)
    from "1.prems"(2) obtain i where i: "i < n" "l \<in> set (leaves L e (o' + i * getTypeAllocSize L e))"
      by (auto simp: ArrTy leaves_simps)
    have "Suc i * getTypeAllocSize L e \<le> n * getTypeAllocSize L e" using i(1) by (intro mult_le_mono1) simp
    then have "getTypeAllocSize L e + i * getTypeAllocSize L e \<le> n * getTypeAllocSize L e" by simp
    then have "i * getTypeAllocSize L e + getTypeStoreSize L e \<le> getTypeStoreSize L t"
      unfolding ArrTy lay(9) using lay(7) [of e] by linarith
    with "1.IH"(1) [OF ArrTy _ "1.prems"(1) i(2)] i(1) show ?thesis by auto
  next
    case (StructTy s p fs)
    from "1.prems"(2) obtain i where i: "i < length fs" "l \<in> set (leaves L (fs ! i) (o' + getElementOffset L t i))"
      by (auto simp: StructTy leaves_simps)
    have "(i, fs ! i) \<in> set (List.enumerate 0 fs)" using i(1) by (simp add: in_set_enumerate_eq)
    from "1.IH"(2) [OF StructTy this refl "1.prems"(1) i(2)] lay(11) [OF i(1), of s p] lay(7) [of "fs ! i"]
    show ?thesis by (simp add: StructTy)
  qed (use "1.prems"(2) in \<open>simp_all add: leaves.simps\<close>)
qed

lemma scalar_leaves_extent:
  assumes "layout_ok L" "scalar_leaves L t"
  shows "0 < getTypeAllocSize L t"
proof -
  from assms(2) obtain l where l: "l \<in> set (leaves L t 0)" "scalar (lf_type l) True"
    unfolding scalar_leaves_def by (metis list.set_sel(1))
  with leaves_inside [OF assms(1) l(1)] scalar_facts(3) [OF assms(1) l(2)] layout_okD(7) [OF assms(1), of t]
  show ?thesis by simp
qed

section \<open>Eightbytes\<close>

definition general_leaf :: "Leaf \<Rightarrow> bool" where
  "general_leaf l = (isIntegerTy (lf_type l) \<or> isPointerTy (lf_type l))"

lemma chunk_fields_Inr:
  assumes "foldE (chunk_field o') ms (i0, c0) = Inr (i, c)"
  shows "\<exists>new. c = c0 @ new \<and> set new \<subseteq> set ms \<and> i = (i0 \<or> list_ex general_leaf new) \<and>
    (\<forall>l \<in> set new. o' \<le> lf_offset l \<and> lf_offset l + lf_size l \<le> o' + 8)"
  using assms
proof (induction ms arbitrary: i0 c0)
  case Nil
  then show ?case by simp
next
  case (Cons m ms)
  from Cons.prems obtain st where st: "chunk_field o' m (i0, c0) = Inr st"
    "foldE (chunk_field o') ms st = Inr (i, c)" by (rule foldE_Cons_InrE)
  show ?case
  proof (cases "st = (i0, c0)")
    case True
    from Cons.IH [OF st(2) [unfolded True]] obtain new where "c = c0 @ new" "set new \<subseteq> set ms"
      "i = (i0 \<or> list_ex general_leaf new)"
      "\<forall>l \<in> set new. o' \<le> lf_offset l \<and> lf_offset l + lf_size l \<le> o' + 8" by blast
    then show ?thesis by (intro exI [of _ new]) auto
  next
    case False
    with st(1) have m: "st = (i0 \<or> general_leaf m, c0 @ [m])" "o' \<le> lf_offset m" "lf_offset m + lf_size m \<le> o' + 8"
      by (auto simp: chunk_field_def general_leaf_def split: if_splits)
    from Cons.IH [OF st(2) [unfolded m(1)]] obtain new where "c = (c0 @ [m]) @ new" "set new \<subseteq> set ms"
      "i = ((i0 \<or> general_leaf m) \<or> list_ex general_leaf new)"
      "\<forall>l \<in> set new. o' \<le> lf_offset l \<and> lf_offset l + lf_size l \<le> o' + 8" by blast
    with m(2,3) show ?thesis by (intro exI [of _ "m # new"]) auto
  qed
qed

text \<open>What the loop promises of the piece for the eightbyte at an offset.\<close>

definition eightbyte_ok :: "data_layout \<Rightarrow> nat \<Rightarrow> nat \<Rightarrow> NativeABIPiece \<Rightarrow> bool" where
  "eightbyte_ok L n offset p \<longleftrightarrow>
     np_offset p = offset \<and> validPieceType L (np_type p) 0 \<and> getTypeStoreSize L (np_type p) \<le> 8 \<and>
     offset + getTypeStoreSize L (np_type p) \<le> n \<and> getABITypeAlign L (np_type p) dvd 8 \<and>
     (\<not> general_piece p \<longrightarrow> np_type p = FloatTy \<or> getTypeAllocSize L (np_type p) = 8)"

lemma vector_piece: "layout_ok L \<Longrightarrow> validPieceType L (VecTy 2 FloatTy) 0"
  by (simp add: validPieceType.simps [of _ "VecTy 2 FloatTy"] layout_sizedD)

lemma scalar_sse:
  "layout_ok L \<Longrightarrow> scalar t True \<Longrightarrow> \<not> isIntegerTy t \<Longrightarrow> \<not> isPointerTy t \<Longrightarrow> t = FloatTy \<or> getTypeAllocSize L t = 8"
  by (erule scalar_cases) (simp_all add: layout_okD)

lemma eightbyte_piece_ok:
  assumes lay: "layout_ok L" and chunk: "chunk \<noteq> []"
    and l: "\<And>l. l \<in> set chunk \<Longrightarrow> scalar (lf_type l) True \<and> o' \<le> lf_offset l \<and> lf_offset l + lf_size l \<le> o' + 8 \<and>
      lf_offset l + lf_size l \<le> n \<and> lf_size l = getTypeStoreSize L (lf_type l)"
    and "o' < n" and t: "eightbyte_piece n o' (list_ex general_leaf chunk) chunk = Inr t"
  shows "eightbyte_ok L n o' (piece t o') \<and> (general_piece (piece t o') \<longleftrightarrow> list_ex general_leaf chunk)"
proof -
  have hd: "hd chunk \<in> set chunk" using chunk by simp
  note h = l [OF hd] and sf = scalar_facts [OF lay conjunct1 [OF l [OF hd]]]
  show ?thesis
  proof (cases "list_ex general_leaf chunk")
    case True
    show ?thesis
    proof (cases "t = lf_type (hd chunk) \<and> general_leaf (hd chunk)")
      case True
      with h sf \<open>list_ex general_leaf chunk\<close> show ?thesis
        by (auto simp: eightbyte_ok_def general_piece_def general_leaf_def)
    next
      case False
      with True t have i: "t = IntTy (8 * min 8 (n - o'))"
        by (auto simp: eightbyte_piece_def Let_def general_leaf_def split: if_splits)
      have m: "0 < min 8 (n - o')" "min 8 (n - o') \<le> 16" "8 * min 8 (n - o') \<le> 64" using \<open>o' < n\<close> by auto
      from byte_integer_piece [OF lay m(1,2)] layout_sizedD(9) [OF lay m(3)] True \<open>o' < n\<close> show ?thesis
        by (simp add: eightbyte_ok_def general_piece_def i)
    qed
  next
    case False
    then have sse: "\<not> general_leaf l" if "l \<in> set chunk" for l using that by (auto simp: list_ex_iff)
    show ?thesis
    proof (cases "t = lf_type (hd chunk)")
      case True
      with h sf sse [OF hd] False scalar_sse [OF lay, of t] show ?thesis
        by (auto simp: eightbyte_ok_def general_piece_def general_leaf_def)
    next
      case neq: False
      with False t have v: "t = VecTy 2 FloatTy" "length chunk = 2" "lf_type (chunk ! 1) = FloatTy"
        "lf_offset (chunk ! 1) = o' + 4"
        by (auto simp: eightbyte_piece_def Let_def aggregate_failure_def split: if_splits)
      have "chunk ! 1 \<in> set chunk" using v(2) by simp
      from l [OF this] v(3,4) have "o' + 8 \<le> n" by (simp add: layout_okD(2) [OF lay])
      with v(1) False vector_piece [OF lay] show ?thesis
        by (simp add: eightbyte_ok_def general_piece_def layout_okD(6) [OF lay] layout_sizedD [OF lay])
    qed
  qed
qed

lemma eightbyte_step:
  assumes "layout_ok L" "scalar_leaves L t" "o' < n" "getTypeStoreSize L t \<le> n"
    and "eightbyte n (leaves L t 0) o' s = Inr s'"
  shows "\<exists>p. eb_pieces s' = eb_pieces s @ [p] \<and> eightbyte_ok L n o' p \<and>
    eb_gp s' = eb_gp s + piece_gp [p] \<and> eb_sse s' = eb_sse s + piece_sse [p]"
proof -
  from assms(5) obtain integer chunk ty where c: "foldE (chunk_field o') (leaves L t 0) (False, []) = Inr (integer, chunk)"
    "chunk \<noteq> []" "eightbyte_piece n o' integer chunk = Inr ty"
    "s' = s\<lparr>eb_gp := eb_gp s + (if integer then 1 else 0), eb_sse := eb_sse s + (if integer then 0 else 1),
            eb_pieces := eb_pieces s @ [piece ty o']\<rparr>"
    by (auto simp: eightbyte_def bindE_Inr_iff split: if_splits)
  from chunk_fields_Inr [OF c(1)] have ch: "set chunk \<subseteq> set (leaves L t 0)" "integer = list_ex general_leaf chunk"
    "\<forall>l \<in> set chunk. o' \<le> lf_offset l \<and> lf_offset l + lf_size l \<le> o' + 8" by auto
  have l: "scalar (lf_type l) True \<and> o' \<le> lf_offset l \<and> lf_offset l + lf_size l \<le> o' + 8 \<and>
      lf_offset l + lf_size l \<le> n \<and> lf_size l = getTypeStoreSize L (lf_type l)" if "l \<in> set chunk" for l
  proof -
    have m: "l \<in> set (leaves L t 0)" using ch(1) that by blast
    from leaves_inside [OF assms(1) m] assms(4) have "lf_offset l + lf_size l \<le> n"
      "lf_size l = getTypeStoreSize L (lf_type l)" by simp_all
    moreover have "scalar (lf_type l) True" using assms(2) m by (auto simp: scalar_leaves_def)
    ultimately show ?thesis using ch(3) that by blast
  qed
  from eightbyte_piece_ok [OF assms(1) c(2) l assms(3) c(3) [unfolded ch(2)]]
  have "eightbyte_ok L n o' (piece ty o')" "general_piece (piece ty o') = integer" by (auto simp: ch(2))
  then show ?thesis by (auto simp: c(4))
qed

lemma eightbyte_offsets_cases:
  assumes "0 < n" "n \<le> 16"
  shows "(n \<le> 8 \<and> eightbyte_offsets n = [0]) \<or> (8 < n \<and> eightbyte_offsets n = [0, 8])"
proof (cases "n \<le> 8")
  case True
  then have "(n + 8 - 1) div 8 = 1" using assms by (intro div_nat_eqI) auto
  with True show ?thesis by (simp add: eightbyte_offsets_def divideCeil_def)
next
  case False
  then have "(n + 8 - 1) div 8 = 2" using assms by (intro div_nat_eqI) auto
  with False show ?thesis by (simp add: eightbyte_offsets_def divideCeil_def upt_rec)
qed

text \<open>The pieces of a record of up to sixteen bytes.\<close>

lemma eightbytes_Inr:
  assumes "layout_ok L" "scalar_leaves L t" "0 < n" "n \<le> 16" "getTypeStoreSize L t \<le> n"
    and "foldE (eightbyte n (leaves L t 0)) (eightbyte_offsets n) \<lparr>eb_gp = 0, eb_sse = 0, eb_pieces = []\<rparr> = Inr s"
  shows "eb_gp s = piece_gp (eb_pieces s) \<and> eb_sse s = piece_sse (eb_pieces s) \<and>
    ((n \<le> 8 \<and> (\<exists>p. eb_pieces s = [p] \<and> eightbyte_ok L n 0 p)) \<or>
     (8 < n \<and> (\<exists>p q. eb_pieces s = [p, q] \<and> eightbyte_ok L n 0 p \<and> eightbyte_ok L n 8 q)))"
  using eightbyte_offsets_cases [OF assms(3,4)]
proof (elim disjE conjE)
  assume "n \<le> 8" "eightbyte_offsets n = [0]"
  with assms(6) have "eightbyte n (leaves L t 0) 0 \<lparr>eb_gp = 0, eb_sse = 0, eb_pieces = []\<rparr> = Inr s"
    by (auto simp: bindE_Inr_iff)
  from eightbyte_step [OF assms(1,2,3,5) this] \<open>n \<le> 8\<close> show ?thesis by auto
next
  assume n: "8 < n" "eightbyte_offsets n = [0, 8]"
  with assms(6) obtain u where u: "eightbyte n (leaves L t 0) 0 \<lparr>eb_gp = 0, eb_sse = 0, eb_pieces = []\<rparr> = Inr u"
    "eightbyte n (leaves L t 0) 8 u = Inr s"
    by (auto simp: bindE_Inr_iff)
  from eightbyte_step [OF assms(1,2,3,5) u(1)] obtain p where "eb_pieces u = [p]" "eightbyte_ok L n 0 p"
    "eb_gp u = piece_gp [p]" "eb_sse u = piece_sse [p]" by auto
  moreover from eightbyte_step [OF assms(1,2) n(1) assms(5) u(2)] obtain q where "eb_pieces s = eb_pieces u @ [q]"
    "eightbyte_ok L n 8 q" "eb_gp s = eb_gp u + piece_gp [q]" "eb_sse s = eb_sse u + piece_sse [q]" by auto
  ultimately show ?thesis using n(1) by auto
qed

text \<open>Widening the first register keeps its bank and its place.\<close>

lemma widen_low_ok:
  assumes lay: "layout_ok L" and "8 < n" "eightbyte_ok L n 0 p" "eightbyte_ok L n 8 q"
  shows "fitting L n 0 (widen_low L [p, q]) \<and> length (widen_low L [p, q]) = 2 \<and>
    piece_gp (widen_low L [p, q]) = piece_gp [p, q] \<and> piece_sse (widen_low L [p, q]) = piece_sse [p, q]"
proof (cases "alignTo (getTypeAllocSize L (np_type p)) (getABITypeAlign L (np_type q)) = 8")
  case True
  with assms show ?thesis by (simp add: widen_low_def eightbyte_ok_def)
next
  case False
  let ?t = "if np_type p = FloatTy then DoubleTy else IntTy 64"
  have "getTypeAllocSize L (np_type p) \<noteq> 8"
    using False assms(4) alignTo_dvd [of "getABITypeAlign L (np_type q)" 8] layout_okD(8) [OF lay, of "np_type q"]
    by (auto simp: eightbyte_ok_def)
  with assms(3) have g: "general_piece p \<or> np_type p = FloatTy" by (auto simp: eightbyte_ok_def)
  have "validPieceType L ?t 0" "getTypeStoreSize L ?t = 8"
    using scalar_facts(2) [OF lay, of DoubleTy False] byte_integer_piece [OF lay, of 8] layout_okD(4) [OF lay]
    by (simp_all add: scalar_def)
  moreover have "general_piece (p\<lparr>np_type := ?t\<rparr>) = general_piece p"
    using g by (auto simp: general_piece_def)
  moreover have "widen_low L [p, q] = [p\<lparr>np_type := ?t\<rparr>, q]" using False by (simp add: widen_low_def)
  ultimately show ?thesis using assms(2-4) by (simp add: eightbyte_ok_def)
qed

section \<open>Classified values\<close>

lemma value_of_simps [simp]:
  "nv_pieces (value_of L t) = []" "nv_byVal (value_of L t) = False" "nv_sRet (value_of L t) = False"
  "nv_nativeCount (value_of L t) = 0" "nv_storageType (value_of L t) = t" "nv_kind (value_of L t) = Direct"
  by (simp_all add: value_of_def native_value_def)

lemma value_of_storage: "t \<noteq> VoidTy \<Longrightarrow> nv_storageSize (value_of L t) = getTypeAllocSize L t"
  by (simp add: value_of_def native_value_def)

lemma indirect_value_simps [simp]:
  "nv_kind (indirect_value c t r) = Indirect" "nv_byVal (indirect_value c t r) = (\<not> r)"
  "nv_sRet (indirect_value c t r) = r" "nv_nativeCount (indirect_value c t r) = 1"
  "nv_pieces (indirect_value c t r) = []" "nv_storageType (indirect_value c t r) = t"
  by (simp_all add: indirect_value_def Let_def)

lemma register_value_simps [simp]:
  "nv_kind (register_value v ps) \<noteq> Indirect" "nv_pieces (register_value v ps) = ps"
  "nv_byVal (register_value v ps) = nv_byVal v" "nv_sRet (register_value v ps) = nv_sRet v"
  "nv_nativeCount (register_value v ps) = length ps" "nv_storageType (register_value v ps) = nv_storageType v"
  "nv_storageSize (register_value v ps) = nv_storageSize v"
  by (simp_all add: register_value_def)

text \<open>
  A classified value goes indirectly, by hidden pointer or by a pointer to a copy, or it is a list of
  pieces the access routines take. With the registers counted: an aggregate parameter on x86-64 fits
  the free registers whole, or is the one integer slot of an exhausted general bank, or is indirect.
\<close>

definition classified :: "data_layout \<Rightarrow> lty \<Rightarrow> bool \<Rightarrow> NativeABIValue \<Rightarrow> bool" where
  "classified L t returns v \<longleftrightarrow>
     nv_storageType v = t \<and>
     (t = VoidTy \<and> returns \<and> v = value_of L t \<or>
      nv_kind v = Indirect \<and> nv_pieces v = [] \<and> nv_nativeCount v = 1 \<and> nv_byVal v = (\<not> returns) \<and> nv_sRet v = returns \<or>
      accessible L v \<and> \<not> nv_byVal v \<and> \<not> nv_sRet v \<and> nv_nativeCount v = length (nv_pieces v) \<and>
        length (nv_pieces v) \<le> (if isStructTy t then 4 else 1))"

definition fits_registers :: "NativeABIValue \<Rightarrow> nat \<Rightarrow> nat \<Rightarrow> bool" where
  "fits_registers v freeGP freeSSE \<longleftrightarrow>
     nv_kind v = Indirect \<or>
     (piece_gp (nv_pieces v) \<le> freeGP \<and> piece_sse (nv_pieces v) \<le> freeSSE) \<or>
     (freeGP = 0 \<and> nv_storageSize v \<le> 8 \<and> nv_pieces v = [piece (IntTy (nv_storageSize v * 8)) 0])"

lemma accessibleI:
  assumes "isSized L (nv_storageType v)" "nv_kind v \<noteq> Indirect" "nv_pieces v \<noteq> []"
    "getTypeAllocSize L (nv_storageType v) = nv_storageSize v" "fitting L (nv_storageSize v) 0 (nv_pieces v)"
  shows "accessible L v"
  using assms fitting_checked by (auto simp: accessible_def)

lemma classify64_Inr:
  assumes lay: "layout_ok L" "L = nc_layout c" and t: "scalar_leaves L t" "isSized L t" "isStructTy t"
    and run: "classify64 c t returns freeGP freeSSE = Inr v"
  shows "classified L t returns v \<and> (\<not> returns \<longrightarrow> fits_registers v freeGP freeSSE)"
proof -
  let ?n = "getTypeAllocSize L t"
  have nv: "t \<noteq> VoidTy" using t(3) by auto
  note sz = value_of_storage [OF nv, of L]
  have n0: "0 < ?n" using scalar_leaves_extent [OF lay(1) t(1)] .
  have reg: "classified L t returns (register_value (value_of L t) ps)"
    if "fitting L ?n 0 ps" "ps \<noteq> []" "length ps \<le> 4" for ps
    using that t(2,3) sz unfolding classified_def by (auto intro!: accessibleI)
  show ?thesis
  proof (cases "?n > 16")
    case True
    with run lay(2) sz have "v = indirect_value c t returns" by (simp add: classify64_def Let_def)
    then show ?thesis by (simp add: classified_def fits_registers_def)
  next
    case False
    have "classify64 c t returns freeGP freeSSE =
        bindE (foldE (eightbyte ?n (leaves L t 0)) (eightbyte_offsets ?n) \<lparr>eb_gp = 0, eb_sse = 0, eb_pieces = []\<rparr>) (\<lambda>s.
        if \<not> returns \<and> (eb_gp s > freeGP \<or> eb_sse s > freeSSE)
        then (if freeGP = 0 \<and> ?n \<le> 8 \<and> nv_storageAlignment (value_of L t) \<le> 8
              then Inr (register_value (value_of L t) (widen_low L [piece (IntTy (?n * 8)) 0]))
              else Inr (indirect_value c t False))
        else Inr (register_value (value_of L t) (widen_low L (eb_pieces s))))"
      by (simp only: classify64_def Let_def lay(2) [symmetric] sz False if_False)
    from run [unfolded this] obtain s where s: "foldE (eightbyte ?n (leaves L t 0)) (eightbyte_offsets ?n)
          \<lparr>eb_gp = 0, eb_sse = 0, eb_pieces = []\<rparr> = Inr s"
      and v: "(if \<not> returns \<and> (eb_gp s > freeGP \<or> eb_sse s > freeSSE)
        then (if freeGP = 0 \<and> ?n \<le> 8 \<and> nv_storageAlignment (value_of L t) \<le> 8
              then Inr (register_value (value_of L t) (widen_low L [piece (IntTy (?n * 8)) 0]))
              else Inr (indirect_value c t False))
        else Inr (register_value (value_of L t) (widen_low L (eb_pieces s)))) = (Inr v :: NativeABIValue expected)"
      by (rule bindE_InrE)
    from eightbytes_Inr [OF lay(1) t(1) n0 _ layout_okD(7) [OF lay(1)] s] False
    have counts: "eb_gp s = piece_gp (eb_pieces s)" "eb_sse s = piece_sse (eb_pieces s)"
      and ps: "(\<exists>p. eb_pieces s = [p] \<and> eightbyte_ok L ?n 0 p) \<or>
        (8 < ?n \<and> (\<exists>p q. eb_pieces s = [p, q] \<and> eightbyte_ok L ?n 0 p \<and> eightbyte_ok L ?n 8 q))" by auto
    let ?w = "widen_low L (eb_pieces s)"
    have w: "fitting L ?n 0 ?w \<and> ?w \<noteq> [] \<and> length ?w \<le> 4 \<and> piece_gp ?w = piece_gp (eb_pieces s) \<and>
        piece_sse ?w = piece_sse (eb_pieces s)"
      using ps
    proof (elim disjE exE conjE)
      fix p assume "eb_pieces s = [p]" "eightbyte_ok L ?n 0 p"
      with n0 show ?thesis by (simp add: widen_low_def eightbyte_ok_def)
    next
      fix p q assume "8 < ?n" "eb_pieces s = [p, q]" "eightbyte_ok L ?n 0 p" "eightbyte_ok L ?n 8 q"
      with widen_low_ok [OF lay(1), of ?n p q] show ?thesis by auto
    qed
    consider (stack) "\<not> returns" "freeGP = 0" "?n \<le> 8" "v = register_value (value_of L t) [piece (IntTy (?n * 8)) 0]"
      | (memory) "\<not> returns" "v = indirect_value c t False"
      | (registers) "v = register_value (value_of L t) ?w" "returns \<or> (eb_gp s \<le> freeGP \<and> eb_sse s \<le> freeSSE)"
      using v by (auto simp: widen_low_def not_less split: if_splits)
    then show ?thesis
    proof cases
      case stack
      have "fitting L ?n 0 [piece (IntTy (?n * 8)) 0]"
        using byte_integer_piece [OF lay(1) n0] stack(3) n0 by (simp add: mult.commute)
      from reg [OF this] stack show ?thesis by (simp add: fits_registers_def sz)
    next
      case memory
      then show ?thesis by (simp add: classified_def fits_registers_def)
    next
      case registers
      with reg [of ?w] w counts show ?thesis by (auto simp: fits_registers_def)
    qed
  qed
qed

lemma expand_fields_None: "fold (expand_field L t) xs None = None"
  by (induction xs) (auto simp: expand_field_def)

lemma expand_fields_Some:
  assumes "layout_ok L" "fold (expand_field L t) xs (Some (b0, ps0)) = Some (b, ps)" "b \<le> n"
  shows "b0 + 4 * length xs \<le> b \<and> (\<exists>new. ps = ps0 @ new \<and> length new = length xs \<and> fitting L n b0 new)"
  using assms(2)
proof (induction xs arbitrary: b0 ps0)
  case Nil
  then show ?case by auto
next
  case (Cons x xs)
  let ?f = "snd x" and ?a = "getTypeAllocSize L (snd x)"
  from Cons.prems obtain st where "expand_field L t x (Some (b0, ps0)) = Some st"
    "fold (expand_field L t) xs (Some st) = Some (b, ps)"
    by (cases "expand_field L t x (Some (b0, ps0))") (auto simp: expand_fields_None)
  moreover from this(1) have f: "scalar ?f True" "?a = 4 \<or> ?a = 8" "st = (b0 + ?a, ps0 @ [piece ?f b0])"
    by (cases x; auto simp: expand_field_def Let_def split: if_splits)+
  ultimately have "fold (expand_field L t) xs (Some (b0 + ?a, ps0 @ [piece ?f b0])) = Some (b, ps)" by simp
  from Cons.IH [OF this] obtain new where new: "b0 + ?a + 4 * length xs \<le> b" "ps = (ps0 @ [piece ?f b0]) @ new"
    "length new = length xs" "fitting L n (b0 + ?a) new" by auto
  have st: "getTypeStoreSize L ?f \<le> ?a" by (rule layout_okD(7) [OF assms(1)])
  have "fitting L n (b0 + getTypeStoreSize L ?f) new" using new(4) st by (cases new) auto
  with scalar_facts [OF assms(1) f(1)] st new(1) assms(3) f(2)
  have "fitting L n b0 (piece ?f b0 # new)" by auto
  with new f(2) show ?case by (intro conjI exI [of _ "piece ?f b0 # new"]) auto
qed

lemma classify32_classified:
  assumes lay: "layout_ok L" "L = nc_layout c" and t: "t = StructTy s p fs" "isSized L t" "fs \<noteq> []"
  shows "classified L t returns (classify32 c t fs returns)"
proof -
  have sz: "nv_storageSize (value_of L t) = getTypeAllocSize L t" using t(1) by (simp add: value_of_storage)
  let ?r = "fold (expand_field L t) (List.enumerate 0 fs) (Some (0, []))"
  have eq: "classify32 c t fs returns =
      (if returns \<or> getTypeAllocSize L t > 16 then indirect_value c t returns
       else case ?r of None \<Rightarrow> indirect_value c t False
       | Some (bytes, ps) \<Rightarrow>
           if bytes \<noteq> getTypeAllocSize L t then indirect_value c t False
           else (value_of L t)\<lparr>nv_kind := Expand, nv_pieces := ps, nv_nativeCount := length ps\<rparr>)"
    by (simp only: classify32_def Let_def lay(2) [symmetric] sz)
  consider "classify32 c t fs returns = indirect_value c t returns"
    | ps where "\<not> returns" "?r = Some (getTypeAllocSize L t, ps)" "getTypeAllocSize L t \<le> 16"
        "classify32 c t fs returns = (value_of L t)\<lparr>nv_kind := Expand, nv_pieces := ps, nv_nativeCount := length ps\<rparr>"
  proof (cases "returns \<or> getTypeAllocSize L t > 16 \<or> ?r = None \<or> fst (the ?r) \<noteq> getTypeAllocSize L t")
    case True
    then have "classify32 c t fs returns = indirect_value c t returns"
      unfolding eq by (auto split: option.split)
    with that(1) show thesis .
  next
    case False
    then obtain ps where ps: "?r = Some (getTypeAllocSize L t, ps)" by (cases ?r) auto
    have "classify32 c t fs returns =
        (value_of L t)\<lparr>nv_kind := Expand, nv_pieces := ps, nv_nativeCount := length ps\<rparr>"
      unfolding eq using False ps by simp
    with False ps show thesis by (intro that(2) [of ps]) auto
  qed
  then show ?thesis
  proof cases
    case 1
    then show ?thesis by (simp add: classified_def)
  next
    case (2 ps)
    from expand_fields_Some [OF lay(1) 2(2) order_refl]
    have f: "fitting L (getTypeAllocSize L t) 0 ps" "length ps = length fs" "4 * length fs \<le> getTypeAllocSize L t"
      by auto
    have "length ps \<le> 4" "ps \<noteq> []" using f(2,3) 2(3) t(3) by auto
    with f(1) t(1,2) sz 2(1,4) show ?thesis
      by (auto simp: classified_def intro!: accessibleI)
  qed
qed

lemma classify_classified:
  assumes lay: "layout_ok (nc_layout c)" and seen: "\<forall>x \<in> seen. scalar_leaves (nc_layout c) x"
    and run: "classify c records t returns freeGP freeSSE seen = Inr (v, seen')"
  shows "classified (nc_layout c) t returns v \<and> (\<forall>x \<in> seen'. scalar_leaves (nc_layout c) x) \<and>
    (\<not> returns \<and> nc_word64 c \<and> isStructTy t \<longrightarrow> fits_registers v freeGP freeSSE)"
proof -
  let ?L = "nc_layout c"
  consider (void) "t = VoidTy" | (scalar) "scalar t False" "t \<noteq> VoidTy" | (aggregate) s p fs where "t = StructTy s p fs"
    using run by (cases t) (auto simp: classify_def Let_def scalar_def split: if_splits)
  then show ?thesis
  proof cases
    case void
    with run seen show ?thesis by (auto simp: classify_def classified_def Let_def split: if_splits)
  next
    case scalar
    have f: "fitting ?L (getTypeAllocSize ?L t) 0 [piece t 0]"
      using scalar_facts [OF lay scalar(1)] layout_okD(7) [OF lay, of t] by simp
    from run scalar have v: "v = (value_of ?L t)\<lparr>nv_pieces := [piece t 0], nv_nativeCount := 1\<rparr>" "seen' = seen"
      by (simp_all add: classify_def Let_def)
    have "accessible ?L v"
      using scalar_facts(1) [OF lay scalar(1)] value_of_storage [OF scalar(2), of ?L] f
      by (intro accessibleI) (simp_all add: v)
    moreover have "\<not> isStructTy t" using scalar(1) by (auto simp: scalar_def split: lty.splits)
    ultimately show ?thesis using seen by (auto simp: classified_def v)
  next
    case (aggregate s p fs)
    from run obtain w where val: "validate ?L records t 0 seen = Inr seen'"
      and w: "(if \<not> nc_word64 c then Inr (classify32 c t fs returns) else classify64 c t returns freeGP freeSSE) =
        (Inr v :: NativeABIValue expected)"
      by (auto simp: aggregate classify_def Let_def scalar_def bindE_Inr_iff split: if_splits)
    from validate_scalar_leaves [OF val seen] have good: "scalar_leaves ?L t" "\<forall>x \<in> seen'. scalar_leaves ?L x"
      by simp_all
    have sized: "isSized ?L t" using val by (auto simp: validate.simps [of _ _ t] split: if_splits)
    have ne: "fs \<noteq> []" using good(1) by (auto simp: aggregate scalar_leaves_def leaves_simps)
    show ?thesis
    proof (cases "nc_word64 c")
      case True
      with classify64_Inr [OF lay refl good(1) sized, of returns freeGP freeSSE v] w good(2) aggregate
      show ?thesis by auto
    next
      case False
      with classify32_classified [OF lay refl aggregate sized ne, of returns] w good(2) show ?thesis by auto
    qed
  qed
qed

lemma classify_count:
  assumes "classify c records t False freeGP freeSSE seen = Inr (v, seen')"
  shows "nv_nativeCount v = (if nv_byVal v then 1 else length (nv_pieces v))"
proof -
  consider "v = (value_of (nc_layout c) t)\<lparr>nv_pieces := [piece t 0], nv_nativeCount := 1\<rparr>"
    | fs where "v = classify32 c t fs False" | "classify64 c t False freeGP freeSSE = Inr v"
    using assms by (auto simp: classify_def Let_def bindE_Inr_iff split: if_splits lty.splits)
  then show ?thesis
  proof cases
    case (2 fs)
    then show ?thesis
      by (auto simp: classify32_def Let_def split: option.splits prod.splits if_splits)
  next
    case 3
    then show ?thesis
      by (auto simp: classify64_def Let_def bindE_Inr_iff split: if_splits)
  qed simp
qed

section \<open>The parameter loop\<close>

interpretation x86: sysv_classifier "nc_x64 c" "\<lambda>t. classify c records t False"
  "\<lambda>seen. layout_ok (nc_layout c) \<and> (\<forall>x \<in> seen. scalar_leaves (nc_layout c) x)"
  "\<lambda>t v. classified (nc_layout c) t False v" for c records
proof
  show "nv_nativeCount v = (if nv_byVal v then 1 else length (nv_pieces v))"
    if "classify c records t False gp sse cache = Inr (v, cache')" for t gp sse cache v cache'
    using that by (rule classify_count)
  show "classified (nc_layout c) t False (v\<lparr>nv_nativeBegin := n\<rparr>)" if "classified (nc_layout c) t False v" for t v n
    using that by (auto simp: classified_def value_of_def native_value_def)
qed (use classify_classified in \<open>blast+\<close>)

lemma classifyNativeABI_laid_out:
  assumes "classifyNativeABI c (Some f) records = Inr sg" "layout_ok (nc_layout c)"
  shows "classified (nc_layout c) (ft_result f) True (ns_result sg) \<and>
    list_all2 (\<lambda>t. classified (nc_layout c) t False) (ft_params f) (ns_parameters sg) \<and>
    ft_params (ns_nativeType sg) = (if nv_sRet (ns_result sg) then [opaque_pointer] else []) @
      concat (map sysv_physical (ns_parameters sg)) \<and>
    contiguous (if nv_sRet (ns_result sg) then 1 else 0) (ns_parameters sg) (length (ft_params (ns_nativeType sg))) \<and>
    ns_remainingGP sg \<le> 6 \<and> ns_remainingSSE sg \<le> 8"
proof -
  from assms(1) obtain res seen gp sse where res: "classify c records (ft_result f) True gp sse {} = Inr (res, seen)"
    and sg: "sysv_signature (nc_x64 c) (\<lambda>t. classify c records t False) f res seen = Inr sg"
    by (auto simp: classifyNativeABI_def Let_def bindE_Inr_iff)
  from classify_classified [OF assms(2) _ res] assms(2)
  have "classified (nc_layout c) (ft_result f) True res"
    "layout_ok (nc_layout c) \<and> (\<forall>x \<in> seen. scalar_leaves (nc_layout c) x)" by simp_all
  moreover note facts = x86.signature_laid_out [OF sg this(2)]
  ultimately show ?thesis unfolding conjunct1 [OF facts] using facts by blast
qed

text \<open>A function of scalars keeps its type.\<close>

lemma classify_scalar:
  "scalar t False \<Longrightarrow> classify c records t returns gp sse seen =
    Inr ((value_of (nc_layout c) t)\<lparr>nv_pieces := [piece t 0], nv_nativeCount := 1\<rparr>, seen)"
  by (auto simp: classify_def Let_def scalar_def)

lemma value_of_plain [simp]: "nv_byVal (value_of L t) = False" "nv_sRet (value_of L t) = False" "nv_pieces (value_of L t) = []"
  by (simp_all add: value_of_def native_value_def)

lemma scalar_parameters:
  assumes "\<forall>t \<in> set ts. scalar t False"
  shows "\<exists>params' gp' sse'. foldE (add_parameter (sysv_parameter x (\<lambda>t. classify c records t False))) ts
    (types, params, gp, sse, seen) = Inr (types @ ts, params', gp', sse', seen)"
  using assms
proof (induction ts arbitrary: types params gp sse)
  case (Cons t ts)
  then have t: "scalar t False" by simp
  obtain v gp1 sse1 where "sysv_parameter x (\<lambda>t. classify c records t False) t (gp, sse, seen) =
      Inr (v, [t], gp1, sse1, seen)"
    by (cases "x \<and> piece_gp [piece t 0] \<le> gp \<and> piece_sse [piece t 0] \<le> sse")
      (auto simp: sysv_parameter_def classify_scalar [OF t] Let_def simp del: piece_count_simps)
  then obtain v gp1 sse1 where "add_parameter (sysv_parameter x (\<lambda>t. classify c records t False)) t
      (types, params, gp, sse, seen) = Inr (types @ [t], params @ [v], gp1, sse1, seen)"
    by (simp add: add_parameter_def)
  with Cons.IH [of "types @ [t]" "params @ [v]" gp1 sse1] Cons.prems show ?case by simp
qed simp

lemma scalar_function_type:
  assumes "\<forall>t \<in> set (ft_params f). scalar t False" "ft_result f = VoidTy \<or> scalar (ft_result f) False"
  shows "\<exists>sg. classifyNativeABI c (Some f) records = Inr sg \<and> ns_nativeType sg = f"
proof -
  obtain res where res: "classify c records (ft_result f) True (if nc_x64 c then 6 else 0) (if nc_x64 c then 8 else 0) {} = Inr (res, {})"
    "\<not> nv_sRet res" "result_type res = ft_result f"
  proof (cases "ft_result f = VoidTy")
    case True
    then show thesis by (intro that [of "value_of (nc_layout c) VoidTy"]) (simp_all add: classify_def Let_def result_type_def)
  next
    case False
    with assms(2) have "scalar (ft_result f) False" by simp
    from that [OF classify_scalar [OF this]] show thesis by (simp add: result_type_def)
  qed
  from scalar_parameters [OF assms(1)] obtain params gp sse where
    "foldE (add_parameter (sysv_parameter (nc_x64 c) (\<lambda>t. classify c records t False))) (ft_params f)
      ([], [], if nc_x64 c then 6 else 0, if nc_x64 c then 8 else 0, {}) = Inr ([] @ ft_params f, params, gp, sse, {})"
    by blast
  with res show ?thesis by (simp add: classifyNativeABI_def sysv_signature_def Let_def)
qed

end
