(* ===== verification/Abi_Layout_Facts.thy ===== *)
theory Abi_Layout_Facts
  imports Abi_Layout Abi_X86_Facts
begin

text \<open>
  What the classification of semantic layouts guarantees: the decomposition ends on every initialized
  table, carriers of checked storage yield admitted pieces, and the signature has the layout of the
  other System V classifier.
\<close>

section \<open>Checked carriers\<close>

fun carrier :: "lty \<Rightarrow> bool" where
  "carrier (ArrTy n e) = carrier e"
| "carrier (StructTy s p fs) = list_all carrier fs"
| "carrier (IntTy w) = (w \<le> 128)"
| "carrier t = layout_scalar t"

lemma carrier_leaf: "layout_scalar t \<or> isIntegerTy t \<and> getIntegerBitWidth t \<le> 128 \<Longrightarrow> carrier t"
  by (cases t) (auto simp: layout_scalar_def)

lemma storage_carrier:
  assumes "storage L t depth seen = Inr seen'" "\<forall>x \<in> seen. carrier x"
  shows "carrier t \<and> isSized L t \<and> (\<forall>x \<in> seen'. carrier x)"
  using assms
proof (induction L t depth seen arbitrary: seen' rule: storage.induct)
  case (1 L t depth seen)
  have g: "\<not> (depth > 32 \<or> \<not> isSized L t)"
    using "1.prems"(1) by (auto simp: storage.simps [of _ t] split: if_splits)
  show ?case
  proof (cases "t \<in> seen \<or> layout_scalar t \<or> isIntegerTy t \<and> getIntegerBitWidth t \<le> 128")
    case True
    then show ?thesis
      using "1.prems" g by (auto simp: storage.simps [of _ t] carrier_leaf split: if_splits)
  next
    case False
    then have f: "t \<notin> seen" "\<not> (layout_scalar t \<or> isIntegerTy t \<and> getIntegerBitWidth t \<le> 128)" by simp_all
    have "(\<exists>n e. t = ArrTy n e) \<or> (\<exists>s p fs. t = StructTy s p fs)"
      using "1.prems"(1) g f unfolding storage.simps [of _ t] by (cases t) (simp_all add: bindE_Inr_iff split: if_splits)
    then show ?thesis
    proof (elim disjE exE)
      fix n e assume ArrTy: "t = ArrTy n e"
      from "1.prems"(1) ArrTy g f obtain s1 where s1: "storage L e (depth + 1) seen = Inr s1" "seen' = insert t s1"
        by (auto simp: storage.simps [of _ "ArrTy n e"] bindE_Inr_iff split: if_splits)
      from "1.IH"(1) [OF g f ArrTy s1(1) "1.prems"(2)] show ?thesis using g by (simp add: s1(2) ArrTy)
    next
      fix s packed fs assume StructTy: "t = StructTy s packed fs"
      let ?body = "\<lambda>field (bytes, seen).
          bindE (storage L field (depth + 1) seen) (\<lambda>seen'.
          let at = alignTo bytes (if packed then 1 else getABITypeAlign L field);
              fieldSize = getTypeAllocSize L field in
          if at > size_limit \<or> fieldSize > size_limit - at then layout_failure ''oversized native storage record''
          else Inr (at + fieldSize, seen'))"
      from "1.prems"(1) StructTy g f obtain b s1 where s1: "foldE ?body fs (0, seen) = Inr (b, s1)" "seen' = insert t s1"
        by (auto simp: storage.simps [of _ "StructTy s packed fs"] bindE_Inr_iff split: if_splits)
      have step: "carrier x \<and> (\<forall>y \<in> v. carrier y)"
        if "x \<in> set fs" "?body x (n, u) = Inr (n', v)" "\<forall>y \<in> u. carrier y" for x n u n' v
      proof -
        from that(2) obtain v' where v': "storage L x (depth + 1) u = Inr v'" "v' = v"
          by (auto simp: bindE_Inr_iff Let_def split: if_splits)
        from "1.IH"(2) [OF g f StructTy that(1) refl v'(1) that(3)] v'(2) show ?thesis by simp
      qed
      have "\<And>bytes u. foldE ?body gs (bytes, u) = Inr (b, s1) \<Longrightarrow> set gs \<subseteq> set fs \<Longrightarrow> \<forall>y \<in> u. carrier y \<Longrightarrow>
          (\<forall>x \<in> set gs. carrier x) \<and> (\<forall>y \<in> s1. carrier y)" for gs
      proof (induction gs)
        case Nil
        then show ?case by auto
      next
        case (Cons x gs)
        from Cons.prems(1) obtain st where st: "?body x (bytes, u) = Inr st" "foldE ?body gs st = Inr (b, s1)"
          by (rule foldE_Cons_InrE)
        obtain bytes' v where v: "st = (bytes', v)" by (cases st)
        have x: "x \<in> set fs" and gs: "set gs \<subseteq> set fs" using Cons.prems(2) by simp_all
        from step [OF x st(1) [unfolded v] Cons.prems(3)]
        have sc: "carrier x" "\<forall>y \<in> v. carrier y" by simp_all
        from Cons.IH [OF st(2) [unfolded v] gs sc(2)] sc(1) show ?case by simp
      qed
      from this [OF s1(1) subset_refl "1.prems"(2)] g show ?thesis by (simp add: s1(2) StructTy list_all_iff)
    qed
  qed
qed

section \<open>Tables\<close>

text \<open>
  A table is ordered: every type in it is a carrier of the recorded size, and the types its
  decomposition visits are scalars or stand later in the list, that is, were completed before it.
\<close>

definition visited :: "record_table \<Rightarrow> lty \<Rightarrow> lty set" where
  "visited records t =
     (case array_parts t of Some (n, e) \<Rightarrow> {e}
      | None \<Rightarrow> (case records t of None \<Rightarrow> {}
             | Some r \<Rightarrow> fl_type ` {f \<in> set (rl_fields r). fl_bitWidth f = None \<and> \<not> fl_padding f}))"

definition entry_ok :: "data_layout \<Rightarrow> record_table \<Rightarrow> lty \<Rightarrow> TypeInfo \<Rightarrow> bool" where
  "entry_ok L records t i \<longleftrightarrow>
     carrier t \<and> isSized L t \<and> ti_size i = getTypeAllocSize L t \<and> 0 < ti_size i \<and>
     (array_parts t \<noteq> None \<or> records t \<noteq> None)"

fun ordered_table :: "data_layout \<Rightarrow> record_table \<Rightarrow> (lty \<times> TypeInfo) list \<Rightarrow> bool" where
  "ordered_table L records [] \<longleftrightarrow> True"
| "ordered_table L records ((t, i) # rest) \<longleftrightarrow>
     entry_ok L records t i \<and>
     (\<forall>u \<in> visited records t. layout_scalar u \<or> u \<in> fst ` set rest) \<and> ordered_table L records rest"

lemma ordered_table_entry: "ordered_table L records infos \<Longrightarrow> (t, i) \<in> set infos \<Longrightarrow> entry_ok L records t i"
  by (induction infos) auto

definition info_ok :: "data_layout \<Rightarrow> record_table \<Rightarrow> info_state \<Rightarrow> bool" where
  "info_ok L records st \<longleftrightarrow> ordered_table L records (is_info st) \<and> (\<forall>x \<in> is_checked st. carrier x)"

text \<open>What a visit leaves: the same table with entries in front, the visited type among them.\<close>

definition grown :: "info_state \<Rightarrow> info_state \<Rightarrow> bool" where
  "grown st st' \<longleftrightarrow> fst ` set (is_info st) \<subseteq> fst ` set (is_info st')"

lemma grown_trans: "grown a b \<Longrightarrow> grown b c \<Longrightarrow> grown a c"
  by (auto simp: grown_def)

lemma info_ok_checked: "info_ok L records st \<Longrightarrow> \<forall>x \<in> s. carrier x \<Longrightarrow> info_ok L records (st\<lparr>is_checked := s\<rparr>)"
  by (simp add: info_ok_def)

lemma grown_checked [simp]: "grown st (st'\<lparr>is_checked := s\<rparr>) = grown st st'" "grown (st\<lparr>is_checked := s\<rparr>) st' = grown st st'"
  by (simp_all add: grown_def)

lemma info_Inr:
  assumes "layout_ok L" "info L records active t depth st = Inr (i, st')" "info_ok L records st"
  shows "info_ok L records st' \<and> grown st st' \<and> (layout_scalar t \<or> t \<in> fst ` set (is_info st')) \<and>
    (0 < ti_size i)"
  using assms
proof (induction L records active t depth st arbitrary: i st' rule: info.induct)
  case (1 L records active t depth st)
  note run = "1.prems"(2)
  have g: "\<not> depth > 32" using run by (auto simp: info.simps [of _ _ _ t] split: if_splits)
  show ?case
  proof (cases "map_of (is_info st) t")
    case (Some j)
    with run g have "i = j" "st' = st" by (simp_all add: info.simps [of _ _ _ t])
    moreover have "(t, j) \<in> set (is_info st)" using Some by (rule map_of_SomeD)
    ultimately show ?thesis
      using "1.prems"(3) ordered_table_entry [of L records "is_info st" t j]
      by (force simp: info_ok_def grown_def entry_ok_def)
  next
    case None
    show ?thesis
    proof (cases "layout_scalar t")
      case True
      with run g None have "i = \<lparr>ti_size = getTypeAllocSize L t, ti_alignment = getABITypeAlign L t\<rparr>" "st' = st"
        by (simp_all add: info.simps [of _ _ _ t])
      moreover have "0 < getTypeAllocSize L t"
        using scalar_facts(3) [OF "1.prems"(1), of t True] layout_okD(7) [OF "1.prems"(1), of t] True
        by (simp add: layout_scalar_eq)
      ultimately show ?thesis using True "1.prems"(3) by (simp add: grown_def)
    next
      case nscalar: False
      with run g None have na: "t \<notin> active" by (auto simp: info.simps [of _ _ _ t] split: if_splits)
      show ?thesis
      proof (cases "array_parts t")
        case (Some ne)
        then obtain n e where t: "array_parts t = Some (n, e)" by (cases ne) auto
        from run g None nscalar na t obtain element s1 checked where
          e: "info L records (insert t active) e (depth + 1) st = Inr (element, s1)"
          and c: "storage L t 0 (is_checked s1) = Inr checked" "\<not> (n = 0 \<or> ti_size element = 0)"
            "getTypeAllocSize L t = ti_size element * n"
          and res: "i = \<lparr>ti_size = ti_size element * n, ti_alignment = ti_alignment element\<rparr>"
            "st' = remember t i (s1\<lparr>is_checked := checked\<rparr>)"
          by (auto simp: info.simps [of _ _ _ t] bindE_Inr_iff Let_def split: if_splits)
        from "1.IH"(2) [OF g None nscalar na t refl "1.prems"(1) e "1.prems"(3)]
        have ih: "info_ok L records s1" "grown st s1" "layout_scalar e \<or> e \<in> fst ` set (is_info s1)" by simp_all
        from storage_carrier [OF c(1)] ih(1) have ca: "carrier t" "isSized L t" "\<forall>x \<in> checked. carrier x"
          by (simp_all add: info_ok_def)
        have "entry_ok L records t i" using ca c(2,3) by (simp add: entry_ok_def res(1) t)
        with ih ca(3) c(2) show ?thesis
          by (auto simp: res(2) remember_def info_ok_def grown_def visited_def t res(1))
      next
        case arr: None
        let ?body = "\<lambda>r field (place, st).
          bindE
            (case fl_bitWidth field of
               Some w \<Rightarrow>
                 if \<not> isIntegerTy (fl_type field) \<or> \<not> layout_scalar (fl_type field) \<or>
                    w > getIntegerBitWidth (fl_type field) \<or> (w = 0 \<and> \<not> fl_padding field)
                 then layout_failure ''invalid integer bitfield width'' else Inr (w, st)
             | None \<Rightarrow>
                 if fl_padding field \<or> fl_bitOffset field mod 8 \<noteq> 0
                 then layout_failure ''non-bitfield has invalid padding/bit offset''
                 else bindE (info L records (insert t active) (fl_type field) (depth + 1) st)
                        (\<lambda>(i, st). Inr (ti_size i * 8, st)))
            (\<lambda>(bits, st). bindE (place_field r field bits place) (\<lambda>place. Inr (place, st)))"
        from run g None nscalar na arr obtain r checked end' s1 where
          r: "records t = Some r" "rl_sizeBytes r \<noteq> 0" "getTypeAllocSize L t = rl_sizeBytes r"
          and c: "storage L t 0 (is_checked st) = Inr checked"
          and loop: "foldE (?body r) (rl_fields r) ((0, False), st\<lparr>is_checked := checked\<rparr>) = Inr ((end', True), s1)"
          and res: "i = \<lparr>ti_size = rl_sizeBytes r, ti_alignment = rl_alignment r\<rparr>" "st' = remember t i s1"
          and len: "\<not> (rl_sizeBytes r = 0 \<or> rl_sizeBytes r > size_limit \<or> rl_alignment r > size_limit \<or>
                    rl_sizeBytes r mod rl_alignment r \<noteq> 0 \<or> rl_fields r = [] \<or> length (rl_fields r) > 1024)"
          by (auto simp: info.simps [of _ _ _ t] bindE_Inr_iff Let_def split: if_splits option.splits)
        from storage_carrier [OF c] "1.prems"(3) have ca: "carrier t" "isSized L t" "\<forall>x \<in> checked. carrier x"
          by (simp_all add: info_ok_def)
        have sz: "\<not> getTypeAllocSize L t \<noteq> rl_sizeBytes r" using r(3) by simp
        have step: "info_ok L records v \<and> grown u v \<and>
            (fl_bitWidth x = None \<and> \<not> fl_padding x \<longrightarrow> layout_scalar (fl_type x) \<or> fl_type x \<in> fst ` set (is_info v))"
          if "x \<in> set (rl_fields r)" "?body r x (p, u) = Inr (q, v)" "info_ok L records u" for x p u q v
        proof (cases "fl_bitWidth x")
          case (Some w)
          with that(2,3) show ?thesis by (auto simp: bindE_Inr_iff grown_def split: if_splits)
        next
          case none: None
          with that(2) obtain j where j: "info L records (insert t active) (fl_type x) (depth + 1) u = Inr (j, v)"
            "\<not> (fl_padding x \<or> fl_bitOffset x mod 8 \<noteq> 0)"
            by (auto simp: bindE_Inr_iff split: if_splits)
          from "1.IH"(1) [OF g None nscalar na arr r(1) len c sz that(1) refl none j(2) "1.prems"(1) j(1) that(3)]
          show ?thesis by simp
        qed
        have "\<And>p u. foldE (?body r) gs (p, u) = Inr ((end', True), s1) \<Longrightarrow> set gs \<subseteq> set (rl_fields r) \<Longrightarrow>
            info_ok L records u \<Longrightarrow> info_ok L records s1 \<and> grown u s1 \<and>
            (\<forall>x \<in> set gs. fl_bitWidth x = None \<and> \<not> fl_padding x \<longrightarrow>
               layout_scalar (fl_type x) \<or> fl_type x \<in> fst ` set (is_info s1))" for gs
        proof (induction gs)
          case Nil
          then show ?case by (auto simp: grown_def)
        next
          case (Cons x gs)
          from Cons.prems(1) obtain pv where pv: "?body r x (p, u) = Inr pv" "foldE (?body r) gs pv = Inr ((end', True), s1)"
            by (rule foldE_Cons_InrE)
          obtain q v where v: "pv = (q, v)" by (cases pv)
          have x: "x \<in> set (rl_fields r)" and gs: "set gs \<subseteq> set (rl_fields r)" using Cons.prems(2) by simp_all
          note one = step [OF x pv(1) [unfolded v] Cons.prems(3)]
          note ih = Cons.IH [OF pv(2) [unfolded v] gs conjunct1 [OF one]]
          have "grown u s1" using one ih grown_trans by blast
          moreover have "fl_bitWidth x = None \<and> \<not> fl_padding x \<longrightarrow>
              layout_scalar (fl_type x) \<or> fl_type x \<in> fst ` set (is_info s1)"
            using one ih unfolding grown_def by blast
          ultimately show ?case using ih by simp
        qed
        from this [OF loop subset_refl] "1.prems"(3) ca(3)
        have fin: "info_ok L records s1" "grown st s1"
          "\<forall>x \<in> set (rl_fields r). fl_bitWidth x = None \<and> \<not> fl_padding x \<longrightarrow>
             layout_scalar (fl_type x) \<or> fl_type x \<in> fst ` set (is_info s1)"
          by (simp_all add: info_ok_checked)
        have "entry_ok L records t i" using ca r by (simp add: entry_ok_def res(1))
        with fin r show ?thesis
          by (auto simp: res remember_def info_ok_def grown_def visited_def arr)
      qed
    qed
  qed
qed

lemma initialize_infos:
  assumes "layout_ok L" "foldE (\<lambda>r st. bindE (info L records {} (rl_storageType r) 0 st) (\<lambda>(i, st). Inr st)) ds st = Inr st'"
    "info_ok L records st"
  shows "info_ok L records st' \<and> grown st st' \<and>
    (\<forall>r \<in> set ds. layout_scalar (rl_storageType r) \<or> rl_storageType r \<in> fst ` set (is_info st'))"
  using assms(2,3)
proof (induction ds arbitrary: st)
  case Nil
  then show ?case by (auto simp: grown_def)
next
  case (Cons r ds)
  from Cons.prems(1) obtain u where u: "bindE (info L records {} (rl_storageType r) 0 st) (\<lambda>(i, st). Inr st) = Inr u"
    "foldE (\<lambda>r st. bindE (info L records {} (rl_storageType r) 0 st) (\<lambda>(i, st). Inr st)) ds u = Inr st'"
    by (rule foldE_Cons_InrE)
  from u(1) obtain i where "info L records {} (rl_storageType r) 0 st = Inr (i, u)"
    by (auto simp: bindE_Inr_iff)
  note one = info_Inr [OF assms(1) this Cons.prems(2)]
  note ih = Cons.IH [OF u(2) conjunct1 [OF one]]
  have "grown st st'" using one ih grown_trans by blast
  moreover have "layout_scalar (rl_storageType r) \<or> rl_storageType r \<in> fst ` set (is_info st')"
    using one ih unfolding grown_def by blast
  ultimately show ?case using ih by simp
qed

lemma add_records_Inr:
  assumes "foldE add_record ds t0 = Inr t1"
  shows "set t1 \<subseteq> set t0 \<union> (\<lambda>r. (rl_storageType r, r)) ` set ds"
  using assms
proof (induction ds arbitrary: t0)
  case Nil
  then show ?case by simp
next
  case (Cons r ds)
  from Cons.prems obtain u where u: "add_record r t0 = Inr u" "foldE add_record ds u = Inr t1" by (rule foldE_Cons_InrE)
  from u(1) have "u = (rl_storageType r, r) # t0" by (auto simp: add_record_def split: if_splits)
  with Cons.IH [OF u(2)] show ?case by auto
qed

text \<open>After the initialization every described record is in the ordered table.\<close>

lemma initialize_Inr:
  assumes "layout_ok L" "initialize L ds = Inr (records, st)"
  shows "ordered_table L records (is_info st) \<and>
    (\<forall>t r. records t = Some r \<longrightarrow> layout_scalar t \<or> t \<in> fst ` set (is_info st))"
proof -
  from assms(2) obtain table where t: "foldE add_record ds [] = Inr table" "records = map_of table"
    and i: "foldE (\<lambda>r st. bindE (info L records {} (rl_storageType r) 0 st) (\<lambda>(i, st). Inr st)) ds
       \<lparr>is_info = [], is_checked = {}\<rparr> = Inr st"
    by (auto simp: initialize_def bindE_Inr_iff)
  from initialize_infos [OF assms(1) i] have f: "info_ok L records st"
    "\<forall>r \<in> set ds. layout_scalar (rl_storageType r) \<or> rl_storageType r \<in> fst ` set (is_info st)"
    by (simp_all add: info_ok_def)
  have "layout_scalar x \<or> x \<in> fst ` set (is_info st)" if "records x = Some r" for x r
  proof -
    from that have "(x, r) \<in> set table" unfolding t(2) by (rule map_of_SomeD)
    with add_records_Inr [OF t(1)] have "r \<in> set ds" "x = rl_storageType r" by auto
    with f(2) show ?thesis by simp
  qed
  with f(1) show ?thesis by (simp add: info_ok_def)
qed

section \<open>The decomposition ends\<close>

lemma gather_loop_defined:
  "(\<And>x s u. x \<in> set xs \<Longrightarrow> f x s u \<noteq> Undefined) \<Longrightarrow> gather_loop f xs s u \<noteq> Undefined"
proof (induction xs arbitrary: s u)
  case (Cons x xs)
  have "f x s u \<noteq> Undefined" by (rule Cons.prems) simp
  with Cons show ?case by (cases "f x s u") auto
qed simp

lemma gather_defined:
  assumes "ordered_table L records infos" "layout_scalar t \<or> t \<in> fst ` set infos" "length infos < fuel"
    "fst ` set infos \<subseteq> fst ` set known"
  shows "gather L records known fuel t base spans unaligned \<noteq> Undefined"
  using assms
proof (induction infos arbitrary: fuel t base spans unaligned)
  case Nil
  then show ?case by (cases fuel) auto
next
  case (Cons entry rest)
  obtain t0 i0 where entry: "entry = (t0, i0)" by (cases entry)
  obtain f where f: "fuel = Suc f" using Cons.prems(3) by (cases fuel) auto
  show ?case
  proof (cases "layout_scalar t \<or> t \<in> fst ` set rest")
    case True
    with Cons.prems entry show ?thesis by (intro Cons.IH) auto
  next
    case False
    then have t: "t = t0" and ns: "\<not> layout_scalar t" using Cons.prems(2) entry by auto
    from Cons.prems(1) entry t have e: "entry_ok L records t i0" "ordered_table L records rest"
      and v: "\<And>u. u \<in> visited records t \<Longrightarrow> layout_scalar u \<or> u \<in> fst ` set rest" by auto
    have sub: "fst ` set rest \<subseteq> fst ` set known" using Cons.prems(4) by auto
    have rec: "gather L records known f u b s un \<noteq> Undefined" if "u \<in> visited records t" for u b s un
      using Cons.IH [OF e(2) v [OF that] _ sub, of f b s un] Cons.prems(3) f by simp
    show ?thesis
    proof (cases "array_parts t")
      case (Some ne)
      then obtain n el where a: "array_parts t = Some (n, el)" by (cases ne) auto
      have "el \<in> visited records t" by (simp add: visited_def a)
      with rec show ?thesis by (auto simp: f ns a intro!: gather_loop_defined)
    next
      case None
      with e(1) obtain r where r: "records t = Some r" by (auto simp: entry_ok_def)
      have fld: "field_alignment L known (fl_type x) \<noteq> None \<and> (\<forall>b s un. gather L records known f (fl_type x) b s un \<noteq> Undefined)"
        if "x \<in> set (rl_fields r)" "\<not> fl_padding x" "fl_bitWidth x = None" for x
      proof -
        have vis: "fl_type x \<in> visited records t" using that r by (auto simp: visited_def None)
        then have "layout_scalar (fl_type x) \<or> fl_type x \<in> fst ` set known" using v sub by blast
        then have "field_alignment L known (fl_type x) \<noteq> None"
          by (auto simp: field_alignment_def dest: weak_map_of_SomeI)
        with rec [OF vis] show ?thesis by blast
      qed
      have "gather_loop g (rl_fields r) spans unaligned \<noteq> Undefined"
        if "g = (\<lambda>field spans unaligned.
               if length spans \<ge> 4096 then TooLarge
               else if fl_padding field then Gathered spans unaligned
               else case fl_bitWidth field of
                 Some w \<Rightarrow>
                   Gathered (spans @ [\<lparr>sp_type = fl_type field, sp_begin = base + fl_bitOffset field,
                                       sp_end = base + fl_bitOffset field + w, sp_bitfield = True\<rparr>]) unaligned
               | None \<Rightarrow>
                   (case field_alignment L known (fl_type field) of
                      None \<Rightarrow> Undefined
                    | Some alignment \<Rightarrow>
                        gather L records known f (fl_type field) (base + fl_bitOffset field) spans
                          (unaligned \<or> (base + fl_bitOffset field) mod (alignment * 8) \<noteq> 0)))" for g
        unfolding that
      proof (intro gather_loop_defined)
        fix x ss uu assume x: "x \<in> set (rl_fields r)"
        show "(if length ss \<ge> 4096 then TooLarge
               else if fl_padding x then Gathered ss uu
               else case fl_bitWidth x of
                 Some w \<Rightarrow>
                   Gathered (ss @ [\<lparr>sp_type = fl_type x, sp_begin = base + fl_bitOffset x,
                                       sp_end = base + fl_bitOffset x + w, sp_bitfield = True\<rparr>]) uu
               | None \<Rightarrow>
                   (case field_alignment L known (fl_type x) of
                      None \<Rightarrow> Undefined
                    | Some alignment \<Rightarrow>
                        gather L records known f (fl_type x) (base + fl_bitOffset x) ss
                          (uu \<or> (base + fl_bitOffset x) mod (alignment * 8) \<noteq> 0))) \<noteq> Undefined"
          using fld [OF x] by (auto split: option.splits)
      qed
      then show ?thesis by (simp add: f ns None r)
    qed
  qed
qed

section \<open>Classified values\<close>

lemma preferred_carrier:
  assumes "carrier t" "preferred L t o' = Some p"
  shows "scalar p True \<or> (isIntegerTy p \<and> getIntegerBitWidth p \<le> 128)"
  using assms
proof (induction L t o' rule: preferred.induct)
  case (1 L t o')
  have o: "\<not> o' \<ge> getTypeAllocSize L t" using "1.prems"(2) by (auto simp: preferred.simps [of _ t])
  show ?case
  proof (cases t)
    case (ArrTy n e)
    with "1.prems" o "1.IH" show ?thesis by (auto simp: preferred.simps [of _ "ArrTy n e"] split: if_splits)
  next
    case (StructTy s p fs)
    with "1.prems" o "1.IH" show ?thesis
      by (auto simp: preferred.simps [of _ "StructTy s p fs"] Let_def list_all_length split: if_splits)
  qed (use "1.prems" in \<open>auto simp: preferred.simps layout_scalar_eq scalar_def split: if_splits\<close>)
qed

lemma layout_eightbyte_step:
  assumes lay: "layout_ok L" and t: "carrier t" and "o' < n"
    and run: "layout_eightbyte L t n spans o' s = Inr s'"
  shows "s' = s \<or> (\<exists>p. eb_pieces s' = eb_pieces s @ [p] \<and> eightbyte_ok L n o' p \<and>
    eb_gp s' = eb_gp s + piece_gp [p] \<and> eb_sse s' = eb_sse s + piece_sse [p])"
proof (cases "filter (overlaps_eightbyte o') spans = []")
  case True
  with run show ?thesis by (simp add: layout_eightbyte_def Let_def)
next
  case False
  let ?i = "list_ex general_span (filter (overlaps_eightbyte o') spans)"
  let ?t = "if ?i then integer_piece L t n spans o' else sse_piece L t o'"
  from run False have s': "s' = s\<lparr>eb_gp := eb_gp s + (if ?i then 1 else 0), eb_sse := eb_sse s + (if ?i then 0 else 1),
      eb_pieces := eb_pieces s @ [piece ?t o']\<rparr>" and st: "getTypeStoreSize L ?t \<le> n - o'"
    by (auto simp: layout_eightbyte_def Let_def split: if_splits)
  have "eightbyte_ok L n o' (piece ?t o') \<and> general_piece (piece ?t o') = ?i"
  proof (cases ?i)
    case True
    have m: "0 < min 8 (n - o')" "min 8 (n - o') \<le> 16" "8 * min 8 (n - o') \<le> 64" using \<open>o' < n\<close> by auto
    have whole: "eightbyte_ok L n o' (piece (IntTy (min 8 (n - o') * 8)) o')"
      using byte_integer_piece [OF lay m(1,2)] layout_sizedD(9) [OF lay m(3)] \<open>o' < n\<close>
      by (simp add: eightbyte_ok_def general_piece_def mult.commute)
    have sc: "eightbyte_ok L n o' (piece p o')" if "scalar p True" "isIntegerTy p \<or> isPointerTy p" "?t = p" for p
      using scalar_facts [OF lay that(1)] that(2,3) st \<open>o' < n\<close> by (auto simp: eightbyte_ok_def general_piece_def)
    have ptr: "scalar p True" if "preferred L t o' = Some p" "isPointerTy p" for p
      using preferred_carrier [OF t that(1)] that(2) by (cases p) auto
    have "?t = IntTy (min 8 (n - o') * 8) \<or>
        (scalar ?t True \<and> (isIntegerTy ?t \<or> isPointerTy ?t))"
      using True ptr
      by (auto simp: integer_piece_def Let_def scalar_def split: option.splits if_splits)
    then show ?thesis using True whole sc [of ?t] by (auto simp: general_piece_def)
  next
    case False
    have "?t = FloatTy \<or> ?t = DoubleTy \<or> ?t = VecTy 2 FloatTy" using False by (simp add: sse_piece_def)
    then show ?thesis
      using False st \<open>o' < n\<close> scalar_facts [OF lay, of FloatTy True] scalar_facts [OF lay, of DoubleTy True]
        vector_piece [OF lay] layout_okD(1-6) [OF lay] layout_sizedD [OF lay]
      by (auto simp: eightbyte_ok_def general_piece_def scalar_def)
  qed
  with s' show ?thesis by (intro disjI2 exI [of _ "piece ?t o'"]) auto
qed

lemma layout_eightbytes_Inr:
  assumes lay: "layout_ok L" and t: "carrier t" and n: "0 < n" "n \<le> 16"
    and run: "foldE (layout_eightbyte L t n spans) (eightbyte_offsets n) \<lparr>eb_gp = 0, eb_sse = 0, eb_pieces = []\<rparr> = Inr s"
    and ne: "eb_pieces s \<noteq> []"
  shows "eb_gp s = piece_gp (eb_pieces s) \<and> eb_sse s = piece_sse (eb_pieces s) \<and>
    ((\<exists>p o'. eb_pieces s = [p] \<and> o' < n \<and> eightbyte_ok L n o' p) \<or>
     (8 < n \<and> (\<exists>p q. eb_pieces s = [p, q] \<and> eightbyte_ok L n 0 p \<and> eightbyte_ok L n 8 q)))"
  using eightbyte_offsets_cases [OF n]
proof (elim disjE conjE)
  assume "eightbyte_offsets n = [0]"
  with run have "layout_eightbyte L t n spans 0 \<lparr>eb_gp = 0, eb_sse = 0, eb_pieces = []\<rparr> = Inr s"
    by (auto simp: bindE_Inr_iff)
  from layout_eightbyte_step [OF lay t n(1) this] ne n(1) show ?thesis by auto
next
  assume o8: "8 < n" "eightbyte_offsets n = [0, 8]"
  with run obtain u where u: "layout_eightbyte L t n spans 0 \<lparr>eb_gp = 0, eb_sse = 0, eb_pieces = []\<rparr> = Inr u"
    "layout_eightbyte L t n spans 8 u = Inr s" by (auto simp: bindE_Inr_iff)
  from layout_eightbyte_step [OF lay t n(1) u(1)] layout_eightbyte_step [OF lay t o8(1) u(2)] ne o8(1) n(1)
  show ?thesis by auto
qed

lemma native_value_simps [simp]:
  "nv_pieces (native_value t n a) = []" "nv_byVal (native_value t n a) = False" "nv_sRet (native_value t n a) = False"
  "nv_storageType (native_value t n a) = t" "nv_storageSize (native_value t n a) = n"
  "nv_kind (native_value t n a) = Direct"
  by (simp_all add: native_value_def)

lemma memory_value_classified:
  assumes "layout_ok (nc_layout c)" "entry_ok (nc_layout c) records t i"
  shows "classified (nc_layout c) t returns (memory_value c t i returns gp) \<and>
    (\<not> returns \<longrightarrow> fits_registers (memory_value c t i returns gp) gp sse)"
proof (cases "nc_x64 c \<and> \<not> returns \<and> gp = 0 \<and> ti_size i \<le> 8 \<and> ti_alignment i \<le> 8")
  case True
  have "fitting (nc_layout c) (ti_size i) 0 [piece (IntTy (ti_size i * 8)) 0]"
    using assms(2) True byte_integer_piece [OF assms(1), of "ti_size i"] by (simp add: entry_ok_def mult.commute)
  then show ?thesis
    using True assms(2)
    by (auto simp: memory_value_def Let_def classified_def fits_registers_def entry_ok_def intro!: accessibleI)
next
  case False
  then show ?thesis by (auto simp: memory_value_def Let_def classified_def fits_registers_def)
qed

lemma expand_layout_None: "fold (expand_layout_field L) xs None = None"
  by (induction xs) (auto simp: expand_layout_field_def)

lemma expand_layout_Some:
  assumes "layout_ok L" "fold (expand_layout_field L) xs (Some (b0, ps0)) = Some (b, ps)" "b \<le> n"
  shows "b0 + 4 * length xs \<le> b \<and> (\<exists>new. ps = ps0 @ new \<and> length new = length xs \<and> fitting L n b0 new)"
  using assms(2)
proof (induction xs arbitrary: b0 ps0)
  case Nil
  then show ?case by auto
next
  case (Cons x xs)
  let ?f = "fl_type x" and ?a = "getTypeAllocSize L (fl_type x)"
  from Cons.prems obtain st where "expand_layout_field L x (Some (b0, ps0)) = Some st"
    "fold (expand_layout_field L) xs (Some st) = Some (b, ps)"
    by (cases "expand_layout_field L x (Some (b0, ps0))") (auto simp: expand_layout_None)
  moreover from this(1) have f: "scalar ?f True" "?a = 4 \<or> ?a = 8" "st = (b0 + ?a, ps0 @ [piece ?f b0])"
    by (auto simp: expand_layout_field_def Let_def layout_scalar_eq split: if_splits)
  ultimately have "fold (expand_layout_field L) xs (Some (b0 + ?a, ps0 @ [piece ?f b0])) = Some (b, ps)" by simp
  from Cons.IH [OF this] obtain new where new: "b0 + ?a + 4 * length xs \<le> b" "ps = (ps0 @ [piece ?f b0]) @ new"
    "length new = length xs" "fitting L n (b0 + ?a) new" by auto
  have st: "getTypeStoreSize L ?f \<le> ?a" by (rule layout_okD(7) [OF assms(1)])
  have "fitting L n (b0 + getTypeStoreSize L ?f) new" using new(4) st by (cases new) auto
  with scalar_facts [OF assms(1) f(1)] st new(1) assms(3) f(2)
  have "fitting L n b0 (piece ?f b0 # new)" by auto
  with new f(2) show ?case by (intro conjI exI [of _ "piece ?f b0 # new"]) auto
qed

lemma classify_layout32_classified:
  assumes lay: "layout_ok (nc_layout c)" and e: "entry_ok (nc_layout c) records t i" "isStructTy t"
  shows "classified (nc_layout c) t returns (classify_layout32 c t r i returns gp)"
proof -
  let ?L = "nc_layout c"
  let ?r = "fold (expand_layout_field ?L) (rl_fields r) (Some (0, []))"
  note mem = conjunct1 [OF memory_value_classified [OF lay e(1)]]
  show ?thesis
  proof (cases "returns \<or> ti_size i > 16 \<or> ?r = None \<or> fst (the ?r) \<noteq> ti_size i")
    case True
    then have "classify_layout32 c t r i returns gp = memory_value c t i returns gp"
      by (auto simp: classify_layout32_def split: option.split)
    with mem show ?thesis by simp
  next
    case False
    then obtain ps where ps: "?r = Some (ti_size i, ps)" by (cases ?r) auto
    from expand_layout_Some [OF lay ps order_refl]
    have f: "fitting ?L (ti_size i) 0 ps" "length ps = length (rl_fields r)" "4 * length ps \<le> ti_size i" by auto
    have "length ps \<le> 4" using f(3) False by simp
    moreover have "ps \<noteq> []"
      using ps e(1) f(2) by (auto simp: entry_ok_def)
    moreover have "classify_layout32 c t r i returns gp = (native_value t (ti_size i) (ti_alignment i))
                 \<lparr>nv_kind := Expand, nv_pieces := ps, nv_nativeCount := length ps\<rparr>"
      using False ps by (simp add: classify_layout32_def)
    ultimately show ?thesis using f(1) e False
      by (auto simp: classified_def entry_ok_def intro!: accessibleI)
  qed
qed

lemma classify_layout64_Inr:
  assumes lay: "layout_ok (nc_layout c)" and e: "entry_ok (nc_layout c) records t i" "isStructTy t"
    and run: "classify_layout64 c records infos t i returns gp sse = Inr v"
  shows "classified (nc_layout c) t returns v \<and> (\<not> returns \<longrightarrow> fits_registers v gp sse)"
proof -
  let ?L = "nc_layout c" and ?n = "ti_size i"
  note mem = memory_value_classified [OF lay e(1)]
  show ?thesis
  proof (cases "v = memory_value c t i returns gp \<or> (\<not> returns \<and> v = memory_value c t i False gp)")
    case True
    with mem [of returns gp sse] mem [of False gp sse] show ?thesis by auto
  next
    case False
    with run obtain spans where small: "?n \<le> 16"
      and loop: "bindE (foldE (layout_eightbyte ?L t ?n spans) (eightbyte_offsets ?n)
              \<lparr>eb_gp = 0, eb_sse = 0, eb_pieces = []\<rparr>) (\<lambda>s.
            if eb_pieces s = [] then layout_failure ''record has no admitted native ABI data''
            else if \<not> returns \<and> (eb_gp s > gp \<or> eb_sse s > sse)
            then Inr (memory_value c t i False gp)
            else Inr (register_value (native_value t ?n (ti_alignment i)) (widen_low ?L (eb_pieces s)))) = Inr v"
      by (auto simp: classify_layout64_def Let_def split: if_splits gathered.splits)
    from loop obtain s where s: "foldE (layout_eightbyte ?L t ?n spans) (eightbyte_offsets ?n)
              \<lparr>eb_gp = 0, eb_sse = 0, eb_pieces = []\<rparr> = Inr s" "eb_pieces s \<noteq> []"
      "returns \<or> (eb_gp s \<le> gp \<and> eb_sse s \<le> sse)"
      "v = register_value (native_value t ?n (ti_alignment i)) (widen_low ?L (eb_pieces s))"
      using False by (auto simp: bindE_Inr_iff not_less split: if_splits)
    have car: "carrier t" "0 < ?n" using e(1) by (simp_all add: entry_ok_def)
    from layout_eightbytes_Inr [OF lay car(1,2) small s(1,2)]
    have counts: "eb_gp s = piece_gp (eb_pieces s)" "eb_sse s = piece_sse (eb_pieces s)"
      and ps: "(\<exists>p o'. eb_pieces s = [p] \<and> o' < ?n \<and> eightbyte_ok ?L ?n o' p) \<or>
        (8 < ?n \<and> (\<exists>p q. eb_pieces s = [p, q] \<and> eightbyte_ok ?L ?n 0 p \<and> eightbyte_ok ?L ?n 8 q))" by auto
    let ?w = "widen_low ?L (eb_pieces s)"
    have w: "fitting ?L ?n 0 ?w \<and> ?w \<noteq> [] \<and> length ?w \<le> 4 \<and> piece_gp ?w = piece_gp (eb_pieces s) \<and>
        piece_sse ?w = piece_sse (eb_pieces s)"
      using ps
    proof (elim disjE exE conjE)
      fix p o' assume "eb_pieces s = [p]" "eightbyte_ok ?L ?n o' p" "o' < ?n"
      then show ?thesis by (simp add: widen_low_def eightbyte_ok_def)
    next
      fix p q assume "8 < ?n" "eb_pieces s = [p, q]" "eightbyte_ok ?L ?n 0 p" "eightbyte_ok ?L ?n 8 q"
      with widen_low_ok [OF lay, of ?n p q] show ?thesis by auto
    qed
    have "accessible ?L v"
      using e w by (auto simp: s(4) entry_ok_def intro!: accessibleI)
    with w e s(3) counts show ?thesis by (auto simp: s(4) classified_def fits_registers_def)
  qed
qed

lemma classify_layout_classified:
  assumes lay: "layout_ok (nc_layout c)" and tab: "ordered_table (nc_layout c) records infos"
    and run: "classify_layout c records infos t returns gp sse = Inr v"
  shows "classified (nc_layout c) t returns v \<and>
    (\<not> returns \<and> nc_word64 c \<and> isStructTy t \<longrightarrow> fits_registers v gp sse)"
proof (cases "t = VoidTy \<or> layout_scalar t \<or> t = IntTy 1")
  case True
  then consider "t = VoidTy" | "scalar t False"
    using layout_scalar_eq [of t] scalar_weaken [of t] by (fastforce simp: scalar_def)
  then show ?thesis
  proof cases
    case 1
    with run show ?thesis
      by (auto simp: classify_layout_def Let_def classified_def value_of_def split: if_splits)
  next
    case 2
    then have nv: "t \<noteq> VoidTy" "\<not> isStructTy t" by (auto simp: scalar_def split: lty.splits)
    have f: "fitting (nc_layout c) (getTypeAllocSize (nc_layout c) t) 0 [piece t 0]"
      using scalar_facts [OF lay 2] layout_okD(7) [OF lay, of t] by simp
    from run nv True have v: "v = (native_value t (getTypeAllocSize (nc_layout c) t) (getABITypeAlign (nc_layout c) t))
        \<lparr>nv_pieces := [piece t 0], nv_nativeCount := 1\<rparr>"
      by (auto simp: classify_layout_def Let_def split: if_splits)
    have "accessible (nc_layout c) v" using f scalar_facts(1) [OF lay 2] by (intro accessibleI) (simp_all add: v)
    with nv show ?thesis by (simp add: classified_def v)
  qed
next
  case False
  with run obtain r i where r: "isStructTy t" "records t = Some r" "map_of infos t = Some i"
    and c: "(if \<not> nc_word64 c then Inr (classify_layout32 c t r i returns gp)
      else classify_layout64 c records infos t i returns gp sse) = (Inr v :: NativeABIValue expected)"
    by (auto simp: classify_layout_def Let_def split: if_splits option.splits)
  have e: "entry_ok (nc_layout c) records t i" by (rule ordered_table_entry [OF tab map_of_SomeD [OF r(3)]])
  show ?thesis
  proof (cases "nc_word64 c")
    case True
    with classify_layout64_Inr [OF lay e r(1), of infos returns gp sse v] c show ?thesis by simp
  next
    case False
    with classify_layout32_classified [OF lay e r(1), of returns r gp] c show ?thesis by simp
  qed
qed

definition counted :: "NativeABIValue \<Rightarrow> bool" where
  "counted v = (nv_nativeCount v = (if nv_byVal v then 1 else length (nv_pieces v)))"

lemma memory_value_counted: "counted (memory_value c t i False gp)"
  by (simp add: counted_def memory_value_def Let_def)

lemma classify_layout32_counted: "counted (classify_layout32 c t r i False gp)"
  unfolding classify_layout32_def
  by (auto simp: memory_value_counted split: option.split prod.split) (simp add: counted_def)

lemma register_value_counted: "counted (register_value (native_value t n a) ps)"
  by (simp add: counted_def)

lemma classify_layout64_counted:
  assumes "classify_layout64 c records infos t i False gp sse = Inr v"
  shows "counted v"
proof (rule ccontr)
  assume no: "\<not> counted v"
  then have "v \<noteq> memory_value c t i False gp" "\<And>n a ps. v \<noteq> register_value (native_value t n a) ps"
    using memory_value_counted register_value_counted by metis+
  with assms show False
    by (auto simp: classify_layout64_def Let_def bindE_Inr_iff simp del: gather.simps split: if_splits gathered.splits)
qed

lemma classify_layout_count:
  assumes run: "classify_layout c records infos t False gp sse = Inr v"
  shows "nv_nativeCount v = (if nv_byVal v then 1 else length (nv_pieces v))"
proof (cases "layout_scalar t \<or> t = IntTy 1")
  case True
  with run show ?thesis by (auto simp: classify_layout_def Let_def split: if_splits)
next
  case False
  with run obtain r i where "(if \<not> nc_word64 c then Inr (classify_layout32 c t r i False gp)
      else classify_layout64 c records infos t i False gp sse) = (Inr v :: NativeABIValue expected)"
    by (auto simp: classify_layout_def Let_def split: if_splits option.splits)
  then have "counted v"
    using classify_layout32_counted [of c t r i gp] classify_layout64_counted [of c records infos t i gp sse v]
    by (auto split: if_splits)
  then show ?thesis by (simp add: counted_def)
qed

section \<open>The parameter loop\<close>

interpretation x86_layout: sysv_classifier "nc_x64 c" "layout_parameter c records infos"
  "\<lambda>_. layout_ok (nc_layout c) \<and> ordered_table (nc_layout c) records infos"
  "\<lambda>t v. classified (nc_layout c) t False v" for c records infos
proof
  show "nv_nativeCount v = (if nv_byVal v then 1 else length (nv_pieces v))"
    if "layout_parameter c records infos t gp sse u = Inr (v, u')" for t gp sse u v u'
    using that classify_layout_count by (auto simp: layout_parameter_def bindE_Inr_iff)
  show "classified (nc_layout c) t False v"
    if "layout_ok (nc_layout c) \<and> ordered_table (nc_layout c) records infos"
      "layout_parameter c records infos t gp sse u = Inr (v, u')" for t gp sse u v u'
    using that classify_layout_classified [of c records infos t False gp sse v]
    by (auto simp: layout_parameter_def bindE_Inr_iff)
  show "classified (nc_layout c) t False (v\<lparr>nv_nativeBegin := n\<rparr>)" if "classified (nc_layout c) t False v" for t v n
    using that by (rule x86.classifier_begin)
qed

lemma classifyNativeLayoutABI_laid_out:
  assumes "classifyNativeLayoutABI c (Some f) descriptors = Inr sg" "layout_ok (nc_layout c)"
  shows "classified (nc_layout c) (ft_result f) True (ns_result sg) \<and>
    list_all2 (\<lambda>t. classified (nc_layout c) t False) (ft_params f) (ns_parameters sg) \<and>
    ft_params (ns_nativeType sg) = (if nv_sRet (ns_result sg) then [opaque_pointer] else []) @
      concat (map sysv_physical (ns_parameters sg)) \<and>
    contiguous (if nv_sRet (ns_result sg) then 1 else 0) (ns_parameters sg) (length (ft_params (ns_nativeType sg))) \<and>
    ns_remainingGP sg \<le> 6 \<and> ns_remainingSSE sg \<le> 8"
proof -
  from assms(1) obtain records st res gp sse where i: "initialize (nc_layout c) descriptors = Inr (records, st)"
    and res: "classify_layout c records (is_info st) (ft_result f) True gp sse = Inr res"
    and sg: "sysv_signature (nc_x64 c) (layout_parameter c records (is_info st)) f res () = Inr sg"
    by (auto simp: classifyNativeLayoutABI_def Let_def bindE_Inr_iff)
  from initialize_Inr [OF assms(2) i] have tab: "ordered_table (nc_layout c) records (is_info st)" by simp
  from classify_layout_classified [OF assms(2) tab res]
  have "classified (nc_layout c) (ft_result f) True res" by simp
  moreover have "layout_ok (nc_layout c) \<and> ordered_table (nc_layout c) records (is_info st)" using assms(2) tab by simp
  note facts = x86_layout.signature_laid_out [OF sg this]
  ultimately show ?thesis unfolding conjunct1 [OF facts] using facts by blast
qed

end
