(* ===== verification/Natural_Layout.thy ===== *)
theory Natural_Layout
  imports Abi_Arm_Facts Abi_Layout_Facts
begin

text \<open>
  A data layout that computes: the natural alignment of the 64-bit targets (integers and floats aligned to
  their size up to sixteen bytes, fields placed at the next multiple of their alignment). It satisfies what the
  ABI code relies on, and the concrete instances of the properties are evaluated on it.
\<close>

fun place :: "(nat \<times> nat) list \<Rightarrow> nat \<Rightarrow> nat list" where
  "place [] o' = []"
| "place ((a, s) # xs) o' = alignTo o' a # place xs (alignTo o' a + s)"

fun place_end :: "(nat \<times> nat) list \<Rightarrow> nat \<Rightarrow> nat" where
  "place_end [] o' = o'"
| "place_end ((a, s) # xs) o' = place_end xs (alignTo o' a + s)"

lemma place_length [simp]: "length (place xs o') = length xs"
  by (induction xs arbitrary: o') auto

lemma alignTo_le: "0 < a \<Longrightarrow> n \<le> alignTo n a"
  by (simp add: alignTo_def divideCeil_le)

lemma place_end_le: "\<forall>(a, s) \<in> set xs. 0 < a \<Longrightarrow> o' \<le> place_end xs o'"
proof (induction xs arbitrary: o')
  case (Cons x xs)
  obtain a s where x: "x = (a, s)" by (cases x)
  then have "o' \<le> alignTo o' a + s" using Cons.prems alignTo_le [of a o'] by auto
  also have "\<dots> \<le> place_end xs (alignTo o' a + s)" using Cons by auto
  finally show ?case by (simp add: x)
qed simp

lemma place_within:
  assumes "\<forall>(a, s) \<in> set xs. 0 < a" "i < length xs"
  shows "o' \<le> place xs o' ! i \<and> place xs o' ! i + snd (xs ! i) \<le> place_end xs o'"
  using assms
proof (induction xs arbitrary: o' i)
  case (Cons x xs)
  obtain a s where x: "x = (a, s)" by (cases x)
  have le: "o' \<le> alignTo o' a" using Cons.prems(1) x by (auto intro: alignTo_le)
  show ?case
  proof (cases i)
    case 0
    with Cons.prems(1) x le place_end_le [of xs "alignTo o' a + s"] show ?thesis by simp
  next
    case (Suc k)
    with Cons.IH [of k "alignTo o' a + s"] Cons.prems x le show ?thesis by auto
  qed
qed simp

lemma place_ordered:
  assumes "\<forall>(a, s) \<in> set xs. 0 < a" "i < j" "j < length xs"
  shows "place xs o' ! i + snd (xs ! i) \<le> place xs o' ! j"
  using assms
proof (induction xs arbitrary: o' i j)
  case (Cons x xs)
  obtain a s where x: "x = (a, s)" by (cases x)
  obtain k where j: "j = Suc k" using Cons.prems(2) by (cases j) auto
  show ?case
  proof (cases i)
    case 0
    with Cons.prems x j place_within [of xs k "alignTo o' a + s"] show ?thesis by auto
  next
    case (Suc m)
    with Cons.IH [of m k "alignTo o' a + s"] Cons.prems x j show ?thesis by auto
  qed
qed simp

fun nat_align :: "lty \<Rightarrow> nat" where
  "nat_align (IntTy w) = (if w \<le> 8 then 1 else if w \<le> 16 then 2 else if w \<le> 32 then 4 else if w \<le> 64 then 8 else 16)"
| "nat_align FloatTy = 4"
| "nat_align DoubleTy = 8"
| "nat_align (FPTy _ _) = 16"
| "nat_align (PtrTy _) = 8"
| "nat_align (VecTy n e) = (if n * getPrimitiveSizeInBits e \<le> 64 then 8 else 16)"
| "nat_align (ArrTy n e) = nat_align e"
| "nat_align (StructTy s p fs) = (if p then 1 else foldr max (map nat_align fs) 1)"
| "nat_align VoidTy = 1"
| "nat_align (OpaqueTy _) = 1"

fun nat_alloc :: "lty \<Rightarrow> nat" where
  "nat_alloc (ArrTy n e) = n * nat_alloc e"
| "nat_alloc (StructTy s p fs) =
     alignTo (place_end (zip (map (\<lambda>f. if p then 1 else nat_align f) fs) (map nat_alloc fs)) 0) (nat_align (StructTy s p fs))"
| "nat_alloc (PtrTy a) = 8"
| "nat_alloc t = alignTo ((getPrimitiveSizeInBits t + 7) div 8) (nat_align t)"

fun nat_store :: "lty \<Rightarrow> nat" where
  "nat_store (ArrTy n e) = nat_alloc (ArrTy n e)"
| "nat_store (StructTy s p fs) = nat_alloc (StructTy s p fs)"
| "nat_store (PtrTy a) = 8"
| "nat_store t = (getPrimitiveSizeInBits t + 7) div 8"

fun nat_sized :: "lty \<Rightarrow> bool" where
  "nat_sized VoidTy = False"
| "nat_sized (OpaqueTy _) = False"
| "nat_sized (IntTy w) = (0 < w)"
| "nat_sized (ArrTy n e) = nat_sized e"
| "nat_sized (VecTy n e) = nat_sized e"
| "nat_sized (StructTy s p fs) = list_all (\<lambda>b. b) (map nat_sized fs)"
| "nat_sized _ = True"

fun nat_offsets :: "lty \<Rightarrow> nat list" where
  "nat_offsets (StructTy s p fs) = place (zip (map (\<lambda>f. if p then 1 else nat_align f) fs) (map nat_alloc fs)) 0"
| "nat_offsets _ = []"

definition natural_layout :: data_layout where
  "natural_layout =
     \<lparr>isSized = nat_sized, getTypeAllocSize = nat_alloc, getTypeStoreSize = nat_store, getABITypeAlign = nat_align,
      getElementOffset = (\<lambda>t i. if i < length (nat_offsets t) then nat_offsets t ! i else 0),
      getElementContainingOffset = (\<lambda>t o'. length (filter (\<lambda>n. n \<le> o') (nat_offsets t)) - 1)\<rparr>"

lemma nat_align_pos: "0 < nat_align t"
proof (induction t)
  case (StructTy s p fs)
  have "1 \<le> foldr max xs (1 :: nat)" for xs by (induction xs) auto
  from this [of "map nat_align fs"] show ?case by simp
qed auto

lemma nat_store_le: "nat_store t \<le> nat_alloc t"
  using nat_align_pos [of t] by (cases t) (auto intro!: alignTo_le simp del: nat_align.simps)

lemma nat_offsets_within:
  assumes "i < length fs"
  shows "nat_offsets (StructTy s p fs) ! i + nat_alloc (fs ! i) \<le> nat_alloc (StructTy s p fs)"
proof -
  let ?xs = "zip (map (\<lambda>f. if p then 1 else nat_align f) fs) (map nat_alloc fs)"
  have pos: "\<forall>(a, s) \<in> set ?xs. 0 < a" by (auto dest!: set_zip_leftD simp: nat_align_pos split: if_splits)
  from place_within [OF pos, of i 0] assms have "nat_offsets (StructTy s p fs) ! i + nat_alloc (fs ! i) \<le> place_end ?xs 0"
    by simp
  also have "\<dots> \<le> nat_alloc (StructTy s p fs)"
    unfolding nat_alloc.simps by (rule alignTo_le [OF nat_align_pos])
  finally show ?thesis .
qed

lemma nat_offsets_ordered:
  assumes "i < j" "j < length fs"
  shows "nat_offsets (StructTy s p fs) ! i + nat_alloc (fs ! i) \<le> nat_offsets (StructTy s p fs) ! j"
proof -
  let ?xs = "zip (map (\<lambda>f. if p then 1 else nat_align f) fs) (map nat_alloc fs)"
  have pos: "\<forall>(a, s) \<in> set ?xs. 0 < a" by (auto dest!: set_zip_leftD simp: nat_align_pos split: if_splits)
  from place_ordered [OF pos assms(1), of 0] assms show ?thesis by simp
qed

lemma natural_scalars:
  "nat_alloc FloatTy = 4" "nat_alloc DoubleTy = 8" "nat_alloc (VecTy 2 FloatTy) = 8"
  "nat_alloc (IntTy 32) = 4" "nat_alloc (IntTy 64) = 8" "nat_alloc (IntTy 128) = 16"
  by code_simp+

lemma natural_layout_ok: "arm_layout_ok natural_layout"
  unfolding arm_layout_ok_def layout_ok_def natural_layout_def
  using natural_scalars nat_align_pos nat_store_le nat_offsets_within nat_offsets_ordered
  by (simp add: order_less_trans)

section \<open>Evaluation\<close>

lemma natural_layout_simps [simp]:
  "isSized natural_layout = nat_sized" "getTypeAllocSize natural_layout = nat_alloc"
  "getTypeStoreSize natural_layout = nat_store" "getABITypeAlign natural_layout = nat_align"
  "getElementOffset natural_layout t i = (if i < length (nat_offsets t) then nat_offsets t ! i else 0)"
  by (simp_all add: natural_layout_def)

text \<open>A record of a double and a 64-bit integer: one register of each bank.\<close>

definition example_pair :: lty where
  "example_pair = StructTy ''pair'' False [DoubleTy, IntTy 64]"

lemmas align_eval = alignTo_def divideCeil_def commonAlignment_def

lemma example_pair_layout:
  "nat_sized example_pair" "nat_align example_pair = 8" "nat_alloc example_pair = 16" "nat_store example_pair = 16"
  "nat_offsets example_pair = [0, 8]" "isStructTy example_pair" "example_pair \<noteq> VoidTy"
  "array_parts example_pair = None" "\<not> arm_scalar c example_pair"
  by (simp_all add: example_pair_def align_eval array_parts_def arm_scalar_def)

definition example_x64 :: native_config where
  "example_x64 = \<lparr>nc_layout = natural_layout, nc_word64 = True, nc_x64 = True\<rparr>"

definition pair_function :: function_type where
  "pair_function = \<lparr>ft_result = IntTy 32, ft_params = [example_pair, PtrTy 0], ft_vararg = False\<rparr>"

lemma example_x64_simps [simp]:
  "nc_layout example_x64 = natural_layout" "nc_word64 example_x64" "nc_x64 example_x64"
  by (simp_all add: example_x64_def)

lemma example_value: "value_of natural_layout example_pair = native_value example_pair 16 8"
  by (simp add: value_of_def example_pair_layout)

lemma example_validate: "validate natural_layout {example_pair} example_pair 0 {} = Inr {example_pair}"
  by (simp add: validate.simps [of _ _ "StructTy s p fs" for s p fs] validate.simps [of _ _ DoubleTy]
    validate.simps [of _ _ "IntTy w" for w] scalar_def size_limit_def example_pair_def align_eval)

lemma example_leaves: "leaves natural_layout example_pair 0 =
    [\<lparr>lf_type = DoubleTy, lf_offset = 0, lf_size = 8\<rparr>, \<lparr>lf_type = IntTy 64, lf_offset = 8, lf_size = 8\<rparr>]"
  by (simp add: example_pair_def leaves.simps [of _ "StructTy s p fs" for s p fs] leaves.simps [of _ DoubleTy]
    leaves.simps [of _ "IntTy w" for w] align_eval)

text \<open>The registers of the example: an SSE register for the double, a general one for the integer.\<close>

definition example_registers :: NativeABIValue where
  "example_registers = (native_value example_pair 16 8)
     \<lparr>nv_kind := Expand, nv_pieces := [piece DoubleTy 0, piece (IntTy 64) 8], nv_nativeCount := 2\<rparr>"

lemma example_classify64:
  "1 \<le> gp \<Longrightarrow> 1 \<le> sse \<Longrightarrow> classify64 example_x64 example_pair False gp sse = Inr example_registers"
  by (simp add: classify64_def Let_def example_value example_leaves example_registers_def register_value_def
    eightbyte_offsets_def eightbyte_def divideCeil_def chunk_field_def eightbyte_piece_def widen_low_def
    alignTo_def native_value_def upt_rec)

lemma example_classify:
  "1 \<le> gp \<Longrightarrow> 1 \<le> sse \<Longrightarrow> classify example_x64 {example_pair} example_pair False gp sse {} =
    Inr (example_registers, {example_pair})"
  using example_classify64 [of gp sse] example_validate
  by (simp add: classify_def Let_def example_pair_def scalar_def)

lemma example_classifyNativeABI:
  "\<exists>sg. classifyNativeABI example_x64 (Some pair_function) {example_pair} = Inr sg \<and>
     ft_params (ns_nativeType sg) = [DoubleTy, IntTy 64, PtrTy 0] \<and> \<not> nv_sRet (ns_result sg) \<and>
     nv_pieces (hd (ns_parameters sg)) = [piece DoubleTy 0, piece (IntTy 64) 8]"
proof -
  have i: "scalar (IntTy 32) False" "scalar (PtrTy 0) False" by (simp_all add: scalar_def)
  show ?thesis
    using example_classify [of 6 8]
    by (simp add: classifyNativeABI_def sysv_signature_def pair_function_def classify_scalar [OF i(1)]
      classify_scalar [OF i(2)] add_parameter_def sysv_parameter_def Let_def example_registers_def general_piece_def)
qed

text \<open>A union of a double and a 64-bit integer, described by its alternatives.\<close>

definition example_union :: lty where
  "example_union = StructTy ''union'' False [IntTy 64]"

definition union_layout :: NativeABIRecordLayout where
  "union_layout = \<lparr>rl_storageType = example_union, rl_kind = Union, rl_sizeBytes = 8, rl_alignment = 8,
     rl_fields = [\<lparr>fl_type = DoubleTy, fl_bitOffset = 0, fl_bitWidth = None, fl_padding = False\<rparr>,
                  \<lparr>fl_type = IntTy 64, fl_bitOffset = 0, fl_bitWidth = None, fl_padding = False\<rparr>]\<rparr>"

lemma example_union_layout:
  "nat_sized example_union" "nat_alloc example_union = 8" "\<not> layout_scalar example_union" "isStructTy example_union"
  "array_parts example_union = None" "example_union \<noteq> IntTy w" "example_union \<noteq> VoidTy"
  by (simp_all add: example_union_def align_eval layout_scalar_def array_parts_def)

lemma layout_scalars: "layout_scalar DoubleTy" "layout_scalar (IntTy 64)" "\<not> layout_scalar (StructTy s p fs)"
  by (simp_all add: layout_scalar_def)

lemma example_storage: "storage natural_layout example_union 0 {} = Inr {example_union, IntTy 64}"
  by (simp add: storage.simps [of _ "StructTy s p fs" for s p fs] storage.simps [of _ "IntTy w" for w]
    layout_scalars example_union_def align_eval size_limit_def)

definition union_info :: info_state where
  "union_info = \<lparr>is_info = [(example_union, \<lparr>ti_size = 8, ti_alignment = 8\<rparr>)], is_checked = {example_union, IntTy 64}\<rparr>"

lemma example_info: "info natural_layout [example_union \<mapsto> union_layout] {} example_union 0 \<lparr>is_info = [], is_checked = {}\<rparr> =
    Inr (\<lparr>ti_size = 8, ti_alignment = 8\<rparr>, union_info)"
  using example_storage
  by (simp add: info.simps [of _ _ _ example_union] info.simps [of _ _ _ DoubleTy] info.simps [of _ _ _ "IntTy w" for w]
    example_union_layout union_layout_def layout_scalars place_field_def remember_def size_limit_def align_eval union_info_def Let_def)

lemma example_initialize: "initialize natural_layout [union_layout] = Inr ([example_union \<mapsto> union_layout], union_info)"
proof -
  have "map_of [(example_union, union_layout)] = [example_union \<mapsto> union_layout]" by simp
  with example_info show ?thesis
    by (simp add: initialize_def add_record_def) (simp add: union_layout_def)
qed

definition union_function :: function_type where
  "union_function = \<lparr>ft_result = VoidTy, ft_params = [example_union], ft_vararg = False\<rparr>"

lemma example_union_parameter:
  "classify_layout example_x64 [example_union \<mapsto> union_layout] (is_info union_info) example_union False 6 8 =
     Inr ((native_value example_union 8 8)\<lparr>nv_kind := Coerce, nv_pieces := [piece (IntTy 64) 0], nv_nativeCount := 1\<rparr>)"
proof -
  have pref: "preferred natural_layout example_union 0 = Some (IntTy 64)"
    by (simp add: example_union_def preferred.simps [of _ "StructTy s p fs" for s p fs] preferred.simps [of _ "IntTy w" for w]
      align_eval natural_layout_def)
  show ?thesis
    using pref
    by (simp add: classify_layout_def classify_layout64_def Let_def union_info_def example_union_layout union_layout_def
      layout_scalars field_alignment_def layout_eightbyte_def overlaps_eightbyte_def general_span_def integer_piece_def
      eightbyte_offsets_def align_eval native_value_def register_value_def widen_low_def)
qed

lemma example_classifyNativeLayoutABI:
  "\<exists>sg. classifyNativeLayoutABI example_x64 (Some union_function) [union_layout] = Inr sg \<and>
     ft_params (ns_nativeType sg) = [IntTy 64]"
  using example_union_parameter example_initialize
  by (simp add: classifyNativeLayoutABI_def union_function_def Let_def sysv_signature_def classify_layout_def [of _ _ _ VoidTy]
    layout_parameter_def add_parameter_def sysv_parameter_def native_value_def)

section \<open>AAPCS\<close>

definition example_aapcs64 :: arm_config where
  "example_aapcs64 = \<lparr>ac_layout = natural_layout, ac_aapcs64 = True\<rparr>"

lemma example_aapcs64_simps [simp]: "ac_layout example_aapcs64 = natural_layout" "ac_aapcs64 example_aapcs64"
  by (simp_all add: example_aapcs64_def)

lemma arm_scalars: "arm_scalar c DoubleTy" "arm_scalar c (IntTy 64)"
  by (simp_all add: arm_scalar_def)

definition pair_layout :: NativeABIRecordLayout where
  "pair_layout = \<lparr>rl_storageType = example_pair, rl_kind = Ordered, rl_sizeBytes = 16, rl_alignment = 8,
     rl_fields = [\<lparr>fl_type = DoubleTy, fl_bitOffset = 0, fl_bitWidth = None, fl_padding = False\<rparr>,
                  \<lparr>fl_type = IntTy 64, fl_bitOffset = 64, fl_bitWidth = None, fl_padding = False\<rparr>]\<rparr>"

lemma example_bounded:
  "boundedStorage natural_layout example_pair 0 n = (if 3 \<le> n then Inr (n - 3) else Inl ())"
  "boundedStorage natural_layout DoubleTy 0 n = (if 1 \<le> n then Inr (n - 1) else Inl ())"
  "boundedStorage natural_layout (IntTy 64) 0 n = (if 1 \<le> n then Inr (n - 1) else Inl ())"
  by (simp_all add: boundedStorage_spec storage_admitted.simps [of _ "StructTy s p fs" for s p fs]
    storage_admitted.simps [of _ DoubleTy] storage_admitted.simps [of _ "IntTy w" for w] storage_bound_def
    example_pair_def align_eval numeral_3_eq_3)

lemma example_information:
  "information example_aapcs64 [example_pair \<mapsto> pair_layout] {} example_pair 0 \<lparr>bu_nodes = n + 3, bu_storage = m + 5\<rparr> =
     Inr (\<lparr>in_size = 16, in_alignment = 8, in_homogeneousBase = None, in_members = 0\<rparr>,
          \<lparr>bu_nodes = n, bu_storage = m\<rparr>)"
  by (simp add: information.simps [of _ _ _ example_pair] information.simps [of _ _ _ DoubleTy]
    information.simps [of _ _ _ "IntTy w" for w] example_bounded example_pair_layout pair_layout_def arm_scalars
    arm_field_def arm_record_def Let_def storage_bound_def align_eval)

definition arm_function :: function_type where
  "arm_function = \<lparr>ft_result = VoidTy, ft_params = [example_pair], ft_vararg = False\<rparr>"

lemma example_arm_value:
  "arm_classify example_aapcs64 [example_pair \<mapsto> pair_layout] example_pair False variadic \<lparr>bu_nodes = 4093, bu_storage = 16379\<rparr> =
     Inr ((native_value example_pair 16 8)\<lparr>nv_kind := Coerce, nv_pieces := [piece (ArrTy 2 (IntTy 64)) 0], nv_nativeCount := 1\<rparr>,
       \<lparr>bu_nodes = 4090, bu_storage = 16374\<rparr>)"
  using example_information [of 4090 16374]
  by (simp add: arm_classify_def example_pair_layout arm_composite_def arm_direct_def divideCeil_def native_value_def)

lemma example_arm_signature:
  "\<exists>sg. arm_classifyNativeLayoutABI example_aapcs64 (Some arm_function) [pair_layout] = Inr sg \<and>
     ft_params (ns_nativeType sg) = [ArrTy 2 (IntTy 64)] \<and>
     (\<exists>v. ns_parameters sg = [v] \<and> nv_kind v = Coerce \<and> length (nv_pieces v) = 1)"
proof -
  have r: "rl_storageType pair_layout = example_pair" by (simp add: pair_layout_def)
  show ?thesis
    using example_information [of 4093 16379] example_arm_value
    by (simp add: arm_classifyNativeLayoutABI_def arm_add_record_def r full_budget_def arm_signature_def arm_function_def
      arm_classify_def [of _ _ VoidTy] arm_parameter_def add_parameter_def arm_physical_def native_value_def)
qed

end
