(* ===== verification/Native_Dispatch.thy ===== *)
theory Native_Dispatch
  imports Abi_Arm_Facts Abi_Layout_Facts Targets
begin

text \<open>
  The choice of the ABI implementation by target identifier (AggregateABI.cpp, NativeTargets.h). The build
  compiles one backend per registered target, from the sources of its ABI and with the target's word size
  and ABI name as compile-time constants (NativeTargetConfig.h); the layouts are LLVM's.
\<close>

record native_backend =
  nb_id :: string
  nb_layout :: data_layout
  nb_classify :: "function_type option \<Rightarrow> lty list \<Rightarrow> NativeABISignature expected"
  nb_classifyLayout :: "function_type option \<Rightarrow> NativeABIRecordLayout list \<Rightarrow> NativeABISignature expected"

definition sysv_config :: "data_layout \<Rightarrow> TargetInfo \<Rightarrow> native_config" where
  "sysv_config L i = \<lparr>nc_layout = L, nc_word64 = (wordBits i = 64), nc_x64 = (target_abi i = ''sysv-amd64'')\<rparr>"

definition aapcs_config :: "data_layout \<Rightarrow> TargetInfo \<Rightarrow> arm_config" where
  "aapcs_config L i = \<lparr>ac_layout = L, ac_aapcs64 = (target_abi i = ''aapcs64'')\<rparr>"

definition native_backend_of :: "(string \<Rightarrow> data_layout) \<Rightarrow> TargetInfo \<Rightarrow> native_backend" where
  "native_backend_of layout_of i =
     (let L = layout_of (target_layout i) in
      if target_abi i = ''sysv-amd64'' \<or> target_abi i = ''sysv-i386''
      then \<lparr>nb_id = target_id i, nb_layout = L,
            nb_classify = (\<lambda>f rs. classifyNativeABI (sysv_config L i) f (set rs)),
            nb_classifyLayout = classifyNativeLayoutABI (sysv_config L i)\<rparr>
      else \<lparr>nb_id = target_id i, nb_layout = L,
            nb_classify = arm_classifyNativeABI (aapcs_config L i),
            nb_classifyLayout = arm_classifyNativeLayoutABI (aapcs_config L i)\<rparr>)"

definition find_backend :: "native_backend list \<Rightarrow> string \<Rightarrow> native_backend option" where
  "find_backend linked i = List.find (\<lambda>b. nb_id b = i) linked"

definition unavailable :: "'a expected" where
  "unavailable = aggregate_failure ''requested native target is unavailable in this Sela library''"

definition nativeABIDataLayout :: "native_backend list \<Rightarrow> string \<Rightarrow> data_layout expected" where
  "nativeABIDataLayout linked i =
     (case find_backend linked i of None \<Rightarrow> unavailable | Some b \<Rightarrow> Inr (nb_layout b))"

definition targetClassifyABI ::
  "native_backend list \<Rightarrow> function_type option \<Rightarrow> string \<Rightarrow> lty list \<Rightarrow> NativeABISignature expected" where
  "targetClassifyABI linked f i records =
     (case find_backend linked i of None \<Rightarrow> unavailable | Some b \<Rightarrow> nb_classify b f records)"

definition targetClassifyLayoutABI ::
  "native_backend list \<Rightarrow> function_type option \<Rightarrow> string \<Rightarrow> NativeABIRecordLayout list \<Rightarrow> NativeABISignature expected" where
  "targetClassifyLayoutABI linked f i records =
     (case find_backend linked i of None \<Rightarrow> unavailable | Some b \<Rightarrow> nb_classifyLayout b f records)"

text \<open>
  Every backend, of either family, gives each logical parameter a run of native parameters of its own:
  the positions in the signature are contiguous and cover the native function type.
\<close>

lemma backend_layout_laid_out:
  assumes "nb_classifyLayout (native_backend_of layout_of i) (Some f) descriptors = Inr sg"
    and "arm_layout_ok (layout_of (target_layout i))"
  shows "contiguous (if nv_sRet (ns_result sg) then 1 else 0) (ns_parameters sg) (length (ft_params (ns_nativeType sg))) \<and>
    length (ns_parameters sg) = length (ft_params f)"
proof (cases "target_abi i = ''sysv-amd64'' \<or> target_abi i = ''sysv-i386''")
  case True
  with assms(1) have "classifyNativeLayoutABI (sysv_config (layout_of (target_layout i)) i) (Some f) descriptors = Inr sg"
    by (simp add: native_backend_of_def Let_def)
  from classifyNativeLayoutABI_laid_out [OF this] assms(2) show ?thesis
    by (auto simp: sysv_config_def arm_layout_ok_def simp del: length_concat length_append dest: list_all2_lengthD)
next
  case False
  with assms(1) have "arm_classifyNativeLayoutABI (aapcs_config (layout_of (target_layout i)) i) (Some f) descriptors = Inr sg"
    by (simp add: native_backend_of_def Let_def)
  from arm_classifyNativeLayoutABI_laid_out [OF this] assms(2) show ?thesis
    by (auto simp: aapcs_config_def dest: list_all2_lengthD)
qed

end
