(* ===== verification/Conditional_CFG.thy ===== *)
theory Conditional_CFG
  imports Sela_Prelude
begin

text \<open>
  The correspondence of two native control-flow graphs (ConditionalCFG.cpp): shared blocks are paired along
  equally oriented edges, switch arms of one side are qualified as closed chains, and the paired blocks and
  cases are merged in an order that extends both originals. An LLVM function is the list of its blocks, each
  with the parts the code looks at; blocks are named by numbers, a switch by its block.
\<close>

datatype terminator =
    BranchT "nat list"
  | SwitchT nat nat "(nat \<times> nat) list"
  | ReturnT
  | UnreachableT
  | OtherT nat "nat list"

text \<open>\<open>bb_users\<close> lists the users of every instruction of the block: the block of a using instruction, or none.\<close>

record basic_block =
  bb_id :: nat
  bb_terminator :: "terminator option"
  bb_phis :: bool
  bb_addressTaken :: bool
  bb_users :: "nat option list"

type_synonym native_function = "basic_block list"

definition find_bb :: "native_function \<Rightarrow> nat \<Rightarrow> basic_block option" where
  "find_bb f b = List.find (\<lambda>x. bb_id x = b) f"

definition bb_ids :: "native_function \<Rightarrow> nat list" where
  "bb_ids f = map bb_id f"

fun bb_successors :: "basic_block \<Rightarrow> nat list" where
  "bb_successors b =
     (case bb_terminator b of
        Some (BranchT ts) \<Rightarrow> ts
      | Some (SwitchT w d cases) \<Rightarrow> d # map snd cases
      | Some (OtherT k ts) \<Rightarrow> ts
      | _ \<Rightarrow> [])"

text \<open>\<open>llvm::predecessors\<close>: one entry per edge.\<close>

definition bb_predecessors :: "native_function \<Rightarrow> nat \<Rightarrow> nat list" where
  "bb_predecessors f b = concat (map (\<lambda>x. map (\<lambda>_. bb_id x) (filter (\<lambda>s. s = b) (bb_successors x))) f)"

definition cfg_failure :: "string \<Rightarrow> 'a expected" where
  "cfg_failure message = Inl (''conditional CFG: '' @ message)"

lemma cfg_failure_neq [simp]: "cfg_failure m \<noteq> Inr x"
  by (simp add: cfg_failure_def)

section \<open>Merging two orders\<close>

fun mergeOrder :: "nat list \<Rightarrow> nat list \<Rightarrow> nat list \<Rightarrow> nat list expected" where
  "mergeOrder domains [] [] = Inr []"
| "mergeOrder domains (a # left) [] =
     (if domains ! a = 1 then bindE (mergeOrder domains left []) (\<lambda>m. Inr (a # m))
      else cfg_failure ''shared block or case order differs between native inputs'')"
| "mergeOrder domains [] (b # right) =
     (if domains ! b = 2 then bindE (mergeOrder domains [] right) (\<lambda>m. Inr (b # m))
      else cfg_failure ''shared block or case order differs between native inputs'')"
| "mergeOrder domains (a # left) (b # right) =
     (if domains ! a = 1 then bindE (mergeOrder domains left (b # right)) (\<lambda>m. Inr (a # m))
      else if domains ! b = 2 then bindE (mergeOrder domains (a # left) right) (\<lambda>m. Inr (b # m))
      else if a = b then bindE (mergeOrder domains left right) (\<lambda>m. Inr (a # m))
      else cfg_failure ''shared block or case order differs between native inputs'')"

section \<open>State\<close>

record ConditionalCFGBlockPair =
  bp_left :: "nat option"
  bp_right :: "nat option"
  bp_domain :: nat

text \<open>A case label is its zero-extended value, a target the block it leads to.\<close>

record PendingCase =
  pc_left :: "nat option"
  pc_right :: "nat option"
  pc_leftTarget :: "nat option"
  pc_rightTarget :: "nat option"
  pc_leftIndex :: "nat option"
  pc_rightIndex :: "nat option"
  pc_domain :: nat

record PendingSwitch =
  ps_left :: nat
  ps_right :: nat
  ps_leftDefault :: nat
  ps_cases :: "PendingCase list"

record PrivateArm =
  pa_source :: nat
  pa_first :: nat
  pa_domain :: nat

record pairing =
  pr_pairs :: "ConditionalCFGBlockPair list"
  pr_left :: "(nat \<times> nat) list"
  pr_right :: "(nat \<times> nat) list"
  pr_switches :: "PendingSwitch list"
  pr_arms :: "PrivateArm list"

definition pair_blocks :: "native_function \<Rightarrow> native_function \<Rightarrow> nat \<Rightarrow> nat \<Rightarrow> pairing \<Rightarrow> pairing expected" where
  "pair_blocks left right a b s =
     (if find_bb left a = None \<or> find_bb right b = None then cfg_failure ''edge leaves its input function''
      else if map_of (pr_left s) a \<noteq> None \<or> map_of (pr_right s) b \<noteq> None
      then (if map_of (pr_left s) a = None \<or> map_of (pr_right s) b = None \<or>
               map_of (pr_left s) a \<noteq> map_of (pr_right s) b
            then cfg_failure ''shared edge correspondence is inconsistent'' else Inr s)
      else
        let index = length (pr_pairs s) in
        Inr (s\<lparr>pr_left := (a, index) # pr_left s, pr_right := (b, index) # pr_right s,
               pr_pairs := pr_pairs s @ [\<lparr>bp_left = Some a, bp_right = Some b, bp_domain = 3\<rparr>]\<rparr>))"

section \<open>Switches\<close>

text \<open>The cases of the left switch: the pending cases and the index of each label.\<close>

definition left_case ::
  "nat \<times> nat \<Rightarrow> PendingCase list \<times> (nat \<times> nat) list \<Rightarrow> (PendingCase list \<times> (nat \<times> nat) list) expected" where
  "left_case entry st =
     (case (entry, st) of ((label, target), (cases, labels)) \<Rightarrow>
        if map_of labels label \<noteq> None then cfg_failure ''duplicate native switch label''
        else Inr (cases @ [\<lparr>pc_left = Some label, pc_right = None, pc_leftTarget = Some target, pc_rightTarget = None,
                            pc_leftIndex = Some (length cases), pc_rightIndex = None, pc_domain = 1\<rparr>],
                  (label, length cases) # labels))"

text \<open>A case of the right switch joins the pending case with its label, or is one of its own.\<close>

definition right_case ::
  "native_function \<Rightarrow> native_function \<Rightarrow> (nat \<times> nat) list \<Rightarrow> nat \<times> nat \<Rightarrow>
   PendingCase list \<times> nat list \<times> pairing \<Rightarrow> (PendingCase list \<times> nat list \<times> pairing) expected" where
  "right_case left right labels entry st =
     (case (entry, st) of ((label, target), (cases, order, s)) \<Rightarrow>
        (case map_of labels label of
           None \<Rightarrow>
             Inr (cases @ [\<lparr>pc_left = None, pc_right = Some label, pc_leftTarget = None, pc_rightTarget = Some target,
                            pc_leftIndex = None, pc_rightIndex = Some (length order), pc_domain = 2\<rparr>],
                  order @ [length cases], s)
         | Some index \<Rightarrow>
             if pc_right (cases ! index) \<noteq> None then cfg_failure ''duplicate native switch label''
             else
               bindE (pair_blocks left right (the (pc_leftTarget (cases ! index))) target s) (\<lambda>s.
               Inr (cases[index := (cases ! index)\<lparr>pc_right := Some label, pc_rightTarget := Some target,
                                                  pc_rightIndex := Some (length order), pc_domain := 3\<rparr>],
                    order @ [index], s))))"

definition private_arms :: "nat \<Rightarrow> nat \<Rightarrow> PendingCase list \<Rightarrow> PrivateArm list" where
  "private_arms a b cases =
     concat (map (\<lambda>c.
       if pc_domain c = 1 then [\<lparr>pa_source = a, pa_first = the (pc_leftTarget c), pa_domain = 1\<rparr>]
       else if pc_domain c = 2 then [\<lparr>pa_source = b, pa_first = the (pc_rightTarget c), pa_domain = 2\<rparr>]
       else []) cases)"

definition matchSwitch ::
  "native_function \<Rightarrow> native_function \<Rightarrow> nat \<Rightarrow> nat \<times> nat \<times> (nat \<times> nat) list \<Rightarrow> nat \<Rightarrow>
   nat \<times> nat \<times> (nat \<times> nat) list \<Rightarrow> pairing \<Rightarrow> pairing expected" where
  "matchSwitch left right a instruction b other s =
     (case (instruction, other) of ((w, d, cases), (w', d', cases')) \<Rightarrow>
        if w \<noteq> w' then cfg_failure ''switch label widths differ''
        else if w > 64 \<or> length cases > 65536 \<or> length cases' > 65536
        then cfg_failure ''switch inventory exceeds the qualified bound''
        else
          bindE (pair_blocks left right d d' s) (\<lambda>s.
          bindE (foldE left_case cases ([], [])) (\<lambda>(pending, labels).
          bindE (foldE (right_case left right labels) cases' (pending, [], s)) (\<lambda>(pending, rightOrder, s).
          bindE (mergeOrder (map pc_domain pending) [0..<length cases] rightOrder) (\<lambda>order.
          let merged = map (\<lambda>i. pending ! i) order in
          Inr (s\<lparr>pr_arms := pr_arms s @ private_arms a b merged,
                 pr_switches := pr_switches s @
                   [\<lparr>ps_left = a, ps_right = b, ps_leftDefault = d, ps_cases = merged\<rparr>]\<rparr>))))))"

section \<open>Shared blocks\<close>

definition same_kind :: "terminator \<Rightarrow> terminator \<Rightarrow> bool" where
  "same_kind a b =
     (case (a, b) of
        (BranchT _, BranchT _) \<Rightarrow> True
      | (SwitchT _ _ _, SwitchT _ _ _) \<Rightarrow> True
      | (ReturnT, ReturnT) \<Rightarrow> True
      | (UnreachableT, UnreachableT) \<Rightarrow> True
      | (OtherT k _, OtherT l _) \<Rightarrow> k = l
      | _ \<Rightarrow> False)"

definition block_terminator :: "native_function \<Rightarrow> nat option \<Rightarrow> terminator option" where
  "block_terminator f b = Option.bind (Option.bind b (find_bb f)) bb_terminator"

definition matchBlock :: "native_function \<Rightarrow> native_function \<Rightarrow> ConditionalCFGBlockPair \<Rightarrow> pairing \<Rightarrow> pairing expected" where
  "matchBlock left right p s =
     (case (block_terminator left (bp_left p), block_terminator right (bp_right p)) of
        (Some a, Some b) \<Rightarrow>
          if \<not> same_kind a b then cfg_failure ''shared terminator kinds differ''
          else
            (case (a, b) of
               (BranchT ts, BranchT us) \<Rightarrow>
                 if (length ts = 1) \<noteq> (length us = 1) then cfg_failure ''shared branch orientations differ''
                 else foldE (\<lambda>(t, u). pair_blocks left right t u) (zip ts us) s
             | (SwitchT w d cases, SwitchT w' d' cases') \<Rightarrow>
                 matchSwitch left right (the (bp_left p)) (w, d, cases) (the (bp_right p)) (w', d', cases') s
             | (OtherT k ts, _) \<Rightarrow> cfg_failure ''native terminator is outside the qualified graph contract''
             | _ \<Rightarrow> Inr s)
      | _ \<Rightarrow> cfg_failure ''shared terminator kinds differ'')"

text \<open>The work list of pairs grows while it is walked; \<open>None\<close> is running out of fuel.\<close>

fun matchPairs :: "native_function \<Rightarrow> native_function \<Rightarrow> nat \<Rightarrow> nat \<Rightarrow> pairing \<Rightarrow> pairing expected option" where
  "matchPairs left right 0 index s = None"
| "matchPairs left right (Suc fuel) index s =
     (if index \<ge> length (pr_pairs s) then Some (Inr s)
      else case matchBlock left right (pr_pairs s ! index) s of
        Inl e \<Rightarrow> Some (Inl e)
      | Inr s' \<Rightarrow> matchPairs left right fuel (Suc index) s')"

definition matchShared :: "native_function \<Rightarrow> native_function \<Rightarrow> pairing \<Rightarrow> pairing expected option" where
  "matchShared left right s =
     (case pair_blocks left right (bb_id (hd left)) (bb_id (hd right)) s of
        Inl e \<Rightarrow> Some (Inl e)
      | Inr s \<Rightarrow> matchPairs left right (length left + 2) 0 s)"

section \<open>One-sided arms\<close>

text \<open>The unconditional chain from a block to the first paired one, which is returned with it.\<close>

function arm_chain ::
  "native_function \<Rightarrow> (nat \<times> nat) list \<Rightarrow> nat \<Rightarrow> nat \<Rightarrow> nat list \<Rightarrow> (nat list \<times> nat) expected" where
  "arm_chain f mapping block predecessor chain =
     (case map_of mapping block of
        Some i \<Rightarrow> Inr (chain, block)
      | None \<Rightarrow>
          if find_bb f block = None \<or> block \<in> set chain
          then cfg_failure ''one-sided arm cycles or leaves its function''
          else if length chain \<ge> 4096 then cfg_failure ''one-sided arm exceeds the qualified bound''
          else if length (bb_predecessors f block) \<noteq> 1 \<or> hd (bb_predecessors f block) \<noteq> predecessor
          then cfg_failure ''one-sided arm has an additional or unexpected incoming edge''
          else
            (case block_terminator f (Some block) of
               Some (BranchT [next']) \<Rightarrow> arm_chain f mapping next' block (chain @ [block])
             | _ \<Rightarrow> cfg_failure ''one-sided arm must be an unconditional chain rejoining shared code''))"
  by pat_completeness auto

termination
  by (relation "measure (\<lambda>(f, mapping, block, predecessor, chain). 4096 - length chain)") auto

declare arm_chain.simps [simp del]

definition arm_mapping :: "PrivateArm \<Rightarrow> pairing \<Rightarrow> (nat \<times> nat) list" where
  "arm_mapping arm s = (if pa_domain arm = 1 then pr_left s else pr_right s)"

definition arm_member :: "native_function \<Rightarrow> PrivateArm \<Rightarrow> nat list \<Rightarrow> nat \<Rightarrow> pairing \<Rightarrow> pairing expected" where
  "arm_member f arm chain member s =
     (case find_bb f member of
        None \<Rightarrow> Inr s
      | Some b \<Rightarrow>
          if \<not> list_all (\<lambda>u. case u of None \<Rightarrow> False | Some x \<Rightarrow> x \<in> set chain) (bb_users b)
          then cfg_failure ''one-sided arm SSA escapes its closed chain''
          else
            let index = length (pr_pairs s);
                s = (if pa_domain arm = 1 then s\<lparr>pr_left := (member, index) # pr_left s\<rparr>
                     else s\<lparr>pr_right := (member, index) # pr_right s\<rparr>) in
            Inr (s\<lparr>pr_pairs := pr_pairs s @
              [\<lparr>bp_left = (if pa_domain arm = 1 then Some member else None),
                bp_right = (if pa_domain arm = 2 then Some member else None), bp_domain = pa_domain arm\<rparr>]\<rparr>))"

definition qualifyArm :: "native_function \<Rightarrow> native_function \<Rightarrow> PrivateArm \<Rightarrow> pairing \<Rightarrow> pairing expected" where
  "qualifyArm left right arm s =
     (let f = (if pa_domain arm = 1 then left else right) in
      bindE (arm_chain f (arm_mapping arm s) (pa_first arm) (pa_source arm) []) (\<lambda>(chain, join).
      if chain = [] \<or> bp_domain (pr_pairs s ! the (map_of (arm_mapping arm s) join)) \<noteq> 3
      then cfg_failure ''one-sided case does not own a distinct arm rejoining shared code''
      else foldE (arm_member f arm chain) chain s))"

section \<open>The merged graph\<close>

record ConditionalCFGCasePair =
  cp_left :: "nat option"
  cp_right :: "nat option"
  cp_leftIndex :: "nat option"
  cp_rightIndex :: "nat option"
  cp_successor :: nat
  cp_domain :: nat

record ConditionalCFGSwitchPair =
  sp_left :: nat
  sp_right :: nat
  sp_defaultSuccessor :: nat
  sp_cases :: "ConditionalCFGCasePair list"

record ConditionalCFG =
  cc_blocks :: "ConditionalCFGBlockPair list"
  cc_switches :: "ConditionalCFGSwitchPair list"
  cc_leftBlocks :: "(nat \<times> nat) list"
  cc_rightBlocks :: "(nat \<times> nat) list"
  cc_leftSwitches :: "(nat \<times> nat) list"
  cc_rightSwitches :: "(nat \<times> nat) list"
  cc_conditional :: bool

text \<open>\<open>DenseMap::lookup\<close>: zero for a key that is not there.\<close>

definition lookup0 :: "(nat \<times> nat) list \<Rightarrow> nat \<Rightarrow> nat" where
  "lookup0 m k = (case map_of m k of None \<Rightarrow> 0 | Some v \<Rightarrow> v)"

definition block_positions :: "(ConditionalCFGBlockPair \<Rightarrow> nat option) \<Rightarrow> ConditionalCFGBlockPair list \<Rightarrow> (nat \<times> nat) list" where
  "block_positions side blocks =
     rev (List.map_filter (\<lambda>(i, p). map_option (\<lambda>b. (b, i)) (side p)) (List.enumerate 0 blocks))"

definition case_pair :: "(nat \<times> nat) list \<Rightarrow> (nat \<times> nat) list \<Rightarrow> PendingCase \<Rightarrow> ConditionalCFGCasePair" where
  "case_pair leftBlocks rightBlocks c =
     \<lparr>cp_left = pc_left c, cp_right = pc_right c, cp_leftIndex = pc_leftIndex c, cp_rightIndex = pc_rightIndex c,
      cp_successor = (case pc_leftTarget c of Some t \<Rightarrow> lookup0 leftBlocks t
                      | None \<Rightarrow> lookup0 rightBlocks (the (pc_rightTarget c))),
      cp_domain = pc_domain c\<rparr>"

definition switch_pair :: "(nat \<times> nat) list \<Rightarrow> (nat \<times> nat) list \<Rightarrow> PendingSwitch \<Rightarrow> ConditionalCFGSwitchPair" where
  "switch_pair leftBlocks rightBlocks w =
     \<lparr>sp_left = ps_left w, sp_right = ps_right w, sp_defaultSuccessor = lookup0 leftBlocks (ps_leftDefault w),
      sp_cases = map (case_pair leftBlocks rightBlocks) (ps_cases w)\<rparr>"

definition merged_graph :: "pairing \<Rightarrow> nat list \<Rightarrow> ConditionalCFG" where
  "merged_graph s order =
     (let blocks = map (\<lambda>i. pr_pairs s ! i) order;
          leftBlocks = block_positions bp_left blocks; rightBlocks = block_positions bp_right blocks;
          pending = map (\<lambda>w. (ps_left w, w)) (rev (pr_switches s));
          switches = List.map_filter (\<lambda>p. map_option (switch_pair leftBlocks rightBlocks)
                       (Option.bind (bp_left p) (map_of pending))) blocks in
      \<lparr>cc_blocks = blocks, cc_switches = switches, cc_leftBlocks = leftBlocks, cc_rightBlocks = rightBlocks,
       cc_leftSwitches = rev (map (\<lambda>(i, w). (sp_left w, i)) (List.enumerate 0 switches)),
       cc_rightSwitches = rev (map (\<lambda>(i, w). (sp_right w, i)) (List.enumerate 0 switches)),
       cc_conditional = (pr_arms s \<noteq> [])\<rparr>)"

definition finish_pairing :: "native_function \<Rightarrow> native_function \<Rightarrow> pairing \<Rightarrow> ConditionalCFG expected" where
  "finish_pairing left right s =
     (if pr_arms s \<noteq> [] \<and> list_ex bb_phis (left @ right) then cfg_failure ''conditional functions cannot contain PHIs yet''
      else
        bindE (foldE (qualifyArm left right) (pr_arms s) s) (\<lambda>s.
        if length (pr_left s) \<noteq> length left \<or> length (pr_right s) \<noteq> length right
        then cfg_failure ''unreachable or otherwise unpaired native region''
        else
          bindE (mergeOrder (map bp_domain (pr_pairs s)) (map (lookup0 (pr_left s)) (bb_ids left))
            (map (lookup0 (pr_right s)) (bb_ids right))) (\<lambda>order.
          Inr (merged_graph s order))))"

definition pairConditionalCFG :: "native_function \<Rightarrow> native_function \<Rightarrow> ConditionalCFG expected option" where
  "pairConditionalCFG left right =
     (if left = [] \<or> right = [] \<or> length left > 65536 \<or> length right > 65536
      then Some (cfg_failure ''requires bounded nonempty function definitions'')
      else if list_ex bb_addressTaken (left @ right) then Some (cfg_failure ''block addresses are not qualified'')
      else
        map_option (\<lambda>r. bindE r (finish_pairing left right))
          (matchShared left right \<lparr>pr_pairs = [], pr_left = [], pr_right = [], pr_switches = [], pr_arms = []\<rparr>))"

end
