(* ===== verification/Conditional_CFG_Facts.thy ===== *)
theory Conditional_CFG_Facts
  imports Conditional_CFG
begin

text \<open>
  Facts about the pairing of control-flow graphs: the merged order projects to both originals, every block of
  either function is paired exactly once, and the work list ends within its fuel.
\<close>

section \<open>Merged orders\<close>

lemma mergeOrder_projections:
  assumes "mergeOrder d left right = Inr m"
    and "\<forall>a \<in> set left. d ! a = 1 \<or> d ! a = 3" "\<forall>b \<in> set right. d ! b = 2 \<or> d ! b = 3"
  shows "filter (\<lambda>i. d ! i \<noteq> 2) m = left \<and> filter (\<lambda>i. d ! i \<noteq> 1) m = right"
  using assms by (induction d left right arbitrary: m rule: mergeOrder.induct) (auto simp: bindE_Inr_iff split: if_splits)

lemma mergeOrder_members:
  "mergeOrder d left right = Inr m \<Longrightarrow> set m = set left \<union> set right"
  by (induction d left right arbitrary: m rule: mergeOrder.induct) (auto simp: bindE_Inr_iff split: if_splits)

section \<open>Tables of paired blocks\<close>

lemma map_filter_append: "List.map_filter f (xs @ ys) = List.map_filter f xs @ List.map_filter f ys"
  by (simp add: List.map_filter_def)

lemma block_positions_Nil [simp]: "block_positions side [] = []"
  by (simp add: block_positions_def List.map_filter_def)

lemma block_positions_snoc:
  "block_positions side (ps @ [p]) =
     (case side p of None \<Rightarrow> [] | Some b \<Rightarrow> [(b, length ps)]) @ block_positions side ps"
  by (auto simp: block_positions_def enumerate_append_eq map_filter_append List.map_filter_simps split: option.splits)

lemma block_positions_keys: "map fst (block_positions side ps) = rev (List.map_filter side ps)"
proof (induction ps rule: rev_induct)
  case Nil
  then show ?case by (simp add: List.map_filter_simps)
next
  case (snoc p ps)
  then show ?case by (auto simp: block_positions_snoc map_filter_append List.map_filter_simps split: option.splits)
qed

lemma block_positions_mem: "(b, i) \<in> set (block_positions side ps) \<longleftrightarrow> i < length ps \<and> side (ps ! i) = Some b"
proof (induction ps rule: rev_induct)
  case (snoc p ps)
  then show ?case by (auto simp: block_positions_snoc nth_append less_Suc_eq split: option.splits)
qed simp

lemma block_positions_lookup:
  assumes "distinct (List.map_filter side ps)"
  shows "map_of (block_positions side ps) b = Some i \<longleftrightarrow> i < length ps \<and> side (ps ! i) = Some b"
proof -
  have "distinct (map fst (block_positions side ps))" using assms by (simp add: block_positions_keys)
  from map_of_mem_iff [OF this, of b i] show ?thesis by (simp add: block_positions_mem)
qed

lemma block_positions_None: "map_of (block_positions side ps) b = None \<longleftrightarrow> b \<notin> set (List.map_filter side ps)"
  by (metis block_positions_keys map_of_eq_None_iff set_map set_rev)

definition coherent_pair :: "ConditionalCFGBlockPair \<Rightarrow> bool" where
  "coherent_pair p \<longleftrightarrow>
     (bp_domain p = 1 \<and> bp_left p \<noteq> None \<and> bp_right p = None) \<or>
     (bp_domain p = 2 \<and> bp_left p = None \<and> bp_right p \<noteq> None) \<or>
     (bp_domain p = 3 \<and> bp_left p \<noteq> None \<and> bp_right p \<noteq> None)"

text \<open>Every pending case is of the left switch, of the right, or of both, and says so by its domain.\<close>

definition coherent_case :: "PendingCase \<Rightarrow> bool" where
  "coherent_case c \<longleftrightarrow>
     (pc_domain c = 1 \<and> pc_left c \<noteq> None \<and> pc_right c = None \<and> pc_leftIndex c \<noteq> None \<and> pc_rightIndex c = None) \<or>
     (pc_domain c = 2 \<and> pc_left c = None \<and> pc_right c \<noteq> None \<and> pc_leftIndex c = None \<and> pc_rightIndex c \<noteq> None) \<or>
     (pc_domain c = 3 \<and> pc_left c \<noteq> None \<and> pc_right c = pc_left c \<and> pc_leftIndex c \<noteq> None \<and> pc_rightIndex c \<noteq> None)"

text \<open>A pending switch keeps the cases of both native switches, each side in its order.\<close>

definition switch_ok :: "native_function \<Rightarrow> native_function \<Rightarrow> PendingSwitch \<Rightarrow> bool" where
  "switch_ok left right w \<longleftrightarrow>
     (\<exists>width d cases width' d' cases'.
        block_terminator left (Some (ps_left w)) = Some (SwitchT width d cases) \<and>
        block_terminator right (Some (ps_right w)) = Some (SwitchT width' d' cases') \<and> ps_leftDefault w = d \<and>
        list_all coherent_case (ps_cases w) \<and>
        List.map_filter pc_left (ps_cases w) = map fst cases \<and>
        List.map_filter pc_leftIndex (ps_cases w) = [0..<length cases] \<and>
        List.map_filter pc_right (ps_cases w) = map fst cases' \<and>
        List.map_filter pc_rightIndex (ps_cases w) = [0..<length cases'])"

definition pairing_ok :: "native_function \<Rightarrow> native_function \<Rightarrow> pairing \<Rightarrow> bool" where
  "pairing_ok left right s \<longleftrightarrow>
     pr_left s = block_positions bp_left (pr_pairs s) \<and> pr_right s = block_positions bp_right (pr_pairs s) \<and>
     distinct (List.map_filter bp_left (pr_pairs s)) \<and> distinct (List.map_filter bp_right (pr_pairs s)) \<and>
     set (List.map_filter bp_left (pr_pairs s)) \<subseteq> set (bb_ids left) \<and>
     set (List.map_filter bp_right (pr_pairs s)) \<subseteq> set (bb_ids right) \<and>
     list_all coherent_pair (pr_pairs s) \<and> list_all (\<lambda>a. pa_domain a = 1 \<or> pa_domain a = 2) (pr_arms s) \<and>
     list_all (switch_ok left right) (pr_switches s)"

lemma find_bb_Some: "find_bb f b = Some x \<Longrightarrow> b \<in> set (bb_ids f)"
  by (auto simp: find_bb_def bb_ids_def find_Some_iff)

text \<open>A further pair for blocks that have none.\<close>

lemma pairing_ok_snoc:
  assumes "pairing_ok left right s" "coherent_pair p"
    and "\<And>a. bp_left p = Some a \<Longrightarrow> a \<in> set (bb_ids left) \<and> map_of (pr_left s) a = None"
    and "\<And>b. bp_right p = Some b \<Longrightarrow> b \<in> set (bb_ids right) \<and> map_of (pr_right s) b = None"
    and "pr_pairs s' = pr_pairs s @ [p]" "pr_arms s' = pr_arms s" "pr_switches s' = pr_switches s"
    and "pr_left s' = (case bp_left p of None \<Rightarrow> [] | Some a \<Rightarrow> [(a, length (pr_pairs s))]) @ pr_left s"
    and "pr_right s' = (case bp_right p of None \<Rightarrow> [] | Some b \<Rightarrow> [(b, length (pr_pairs s))]) @ pr_right s"
  shows "pairing_ok left right s'"
  using assms(1,2,5-9) assms(3,4)
  by (auto simp: pairing_ok_def block_positions_snoc map_filter_append List.map_filter_simps block_positions_None
    split: option.splits)

text \<open>What the loops over shared edges keep: the tables stay in order and only shared pairs are added.\<close>

definition extends :: "native_function \<Rightarrow> native_function \<Rightarrow> pairing \<Rightarrow> pairing \<Rightarrow> bool" where
  "extends left right s s' \<longleftrightarrow>
     pairing_ok left right s' \<and> length (pr_pairs s) \<le> length (pr_pairs s') \<and>
     (list_all (\<lambda>p. bp_domain p = 3) (pr_pairs s) \<longrightarrow> list_all (\<lambda>p. bp_domain p = 3) (pr_pairs s'))"

lemma extends_refl: "pairing_ok left right s \<Longrightarrow> extends left right s s"
  by (simp add: extends_def)

lemma extends_trans: "extends left right s s' \<Longrightarrow> extends left right s' s'' \<Longrightarrow> extends left right s s''"
  by (simp add: extends_def)

lemma pair_blocks_extends:
  assumes "pair_blocks left right a b s = Inr s'" "pairing_ok left right s"
  shows "extends left right s s'"
proof (cases "map_of (pr_left s) a = None \<and> map_of (pr_right s) b = None")
  case True
  with assms(1) have f: "find_bb left a \<noteq> None" "find_bb right b \<noteq> None"
    and s': "s' = s\<lparr>pr_left := (a, length (pr_pairs s)) # pr_left s, pr_right := (b, length (pr_pairs s)) # pr_right s,
               pr_pairs := pr_pairs s @ [\<lparr>bp_left = Some a, bp_right = Some b, bp_domain = 3\<rparr>]\<rparr>"
    by (auto simp: pair_blocks_def Let_def split: if_splits)
  have "pairing_ok left right s'"
    using f True by (intro pairing_ok_snoc [OF assms(2), of "\<lparr>bp_left = Some a, bp_right = Some b, bp_domain = 3\<rparr>"])
      (auto simp: s' coherent_pair_def dest: find_bb_Some)
  then show ?thesis by (simp add: extends_def s')
next
  case False
  with assms have "s' = s" by (auto simp: pair_blocks_def split: if_splits)
  with assms(2) show ?thesis by (simp add: extends_refl)
qed

lemma extends_fold:
  assumes "foldE f xs s = Inr s'" "pairing_ok left right (g s)"
    and "\<And>x s t. x \<in> set xs \<Longrightarrow> pairing_ok left right (g s) \<Longrightarrow> f x s = Inr t \<Longrightarrow> extends left right (g s) (g t)"
  shows "extends left right (g s) (g s')"
  using assms(1)
proof (rule foldE_invariant [where P = "\<lambda>t. extends left right (g s) (g t)"])
  show "extends left right (g s) (g s)" using assms(2) by (rule extends_refl)
next
  fix x t u assume "x \<in> set xs" "extends left right (g s) (g t)" "f x t = Inr u"
  with assms(3) [of x t u] show "extends left right (g s) (g u)" by (auto simp: extends_def)
qed

section \<open>Switches\<close>

text \<open>The pending cases of the left switch, in order, with the index of each label.\<close>

definition left_cases :: "(nat \<times> nat) list \<Rightarrow> PendingCase list" where
  "left_cases cases = map (\<lambda>(i, label, target). \<lparr>pc_left = Some label, pc_right = None, pc_leftTarget = Some target,
     pc_rightTarget = None, pc_leftIndex = Some i, pc_rightIndex = None, pc_domain = 1\<rparr>) (List.enumerate 0 cases)"

lemma left_cases_Inr:
  "foldE left_case cases ([], []) = Inr (pending, labels) \<Longrightarrow>
   pending = left_cases cases \<and> (\<forall>label i. map_of labels label = Some i \<longrightarrow> i < length cases \<and> fst (cases ! i) = label)"
proof (induction cases arbitrary: pending labels rule: rev_induct)
  case Nil
  then show ?case by (simp add: left_cases_def)
next
  case (snoc c cases)
  obtain label target where c: "c = (label, target)" by (cases c)
  from snoc.prems obtain p l where p: "foldE left_case cases ([], []) = Inr (p, l)"
    and step: "left_case c (p, l) = Inr (pending, labels)" by (auto simp: foldE_append bindE_Inr_iff)
  from snoc.IH [OF p] have ih: "p = left_cases cases"
    "\<And>label i. map_of l label = Some i \<Longrightarrow> i < length cases \<and> fst (cases ! i) = label" by auto
  have len: "length p = length cases" by (simp add: ih(1) left_cases_def)
  from step c len have "pending = p @ [\<lparr>pc_left = Some label, pc_right = None, pc_leftTarget = Some target,
      pc_rightTarget = None, pc_leftIndex = Some (length cases), pc_rightIndex = None, pc_domain = 1\<rparr>]"
    "labels = (label, length cases) # l" by (auto simp: left_case_def split: if_splits)
  with ih(2) c show ?case
    by (auto simp: ih(1) left_cases_def enumerate_append_eq nth_append split: if_splits)
      (metis less_Suc_eq)+
qed

text \<open>
  The state of the loop over the right cases: the left cases stand where they were, the order lists the
  pending case of each right case, and each carries the label and position of its right case.
\<close>

definition right_inv :: "(nat \<times> nat) list \<Rightarrow> (nat \<times> nat) list \<Rightarrow> PendingCase list \<Rightarrow> nat list \<Rightarrow> bool" where
  "right_inv cases seen pending order \<longleftrightarrow>
     length cases \<le> length pending \<and> list_all coherent_case pending \<and> length order = length seen \<and>
     (\<forall>i < length cases. pc_leftIndex (pending ! i) = Some i \<and> pc_left (pending ! i) = Some (fst (cases ! i))) \<and>
     (\<forall>i < length pending. length cases \<le> i \<longrightarrow> pc_leftIndex (pending ! i) = None) \<and>
     (\<forall>k < length seen. order ! k < length pending \<and> pc_right (pending ! (order ! k)) = Some (fst (seen ! k)) \<and>
        pc_rightIndex (pending ! (order ! k)) = Some k)"

lemma right_inv_start: "right_inv cases [] (left_cases cases) []"
  by (auto simp: right_inv_def left_cases_def coherent_case_def list_all_length nth_enumerate_eq split: prod.splits)

lemma right_inv_new:
  assumes "right_inv cases seen pending order"
  shows "right_inv cases (seen @ [(label, target)])
    (pending @ [\<lparr>pc_left = None, pc_right = Some label, pc_leftTarget = None, pc_rightTarget = Some target,
       pc_leftIndex = None, pc_rightIndex = Some (length order), pc_domain = 2\<rparr>]) (order @ [length pending])"
  using assms by (auto simp: right_inv_def coherent_case_def nth_append less_Suc_eq)

lemma right_inv_join:
  assumes inv: "right_inv cases seen pending order" and i: "i < length cases" "fst (cases ! i) = label"
    and free: "pc_right (pending ! i) = None"
  shows "right_inv cases (seen @ [(label, target)])
    (pending[i := (pending ! i)\<lparr>pc_right := Some label, pc_rightTarget := Some target,
       pc_rightIndex := Some (length order), pc_domain := 3\<rparr>]) (order @ [i])"
proof -
  let ?p = "pending[i := (pending ! i)\<lparr>pc_right := Some label, pc_rightTarget := Some target,
       pc_rightIndex := Some (length order), pc_domain := 3\<rparr>]"
  have lt: "i < length pending" using inv i(1) by (simp add: right_inv_def)
  have other: "order ! k \<noteq> i" if "k < length seen" for k
    using inv that free by (auto simp: right_inv_def)
  have "list_all coherent_case ?p"
    using inv i lt by (auto simp: right_inv_def coherent_case_def list_all_length nth_list_update)
  moreover have "pc_leftIndex (?p ! j) = Some j \<and> pc_left (?p ! j) = Some (fst (cases ! j))" if "j < length cases" for j
    using inv that lt by (auto simp: right_inv_def nth_list_update)
  moreover have "pc_leftIndex (?p ! j) = None" if "j < length ?p" "length cases \<le> j" for j
    using inv that i by (auto simp: right_inv_def nth_list_update)
  moreover have "(order @ [i]) ! k < length ?p \<and> pc_right (?p ! ((order @ [i]) ! k)) = Some (fst ((seen @ [(label, target)]) ! k)) \<and>
      pc_rightIndex (?p ! ((order @ [i]) ! k)) = Some k" if "k < length (seen @ [(label, target)])" for k
  proof (cases "k < length seen")
    case True
    with inv other [OF True] lt show ?thesis by (simp add: right_inv_def nth_append)
  next
    case False
    with that have "k = length seen" by simp
    with inv lt show ?thesis by (simp add: right_inv_def nth_append)
  qed
  ultimately show ?thesis using inv by (simp add: right_inv_def)
qed

lemma right_cases_Inr:
  assumes labels: "\<And>label i. map_of labels label = Some i \<Longrightarrow> i < length cases \<and> fst (cases ! i) = label"
    and run: "foldE (right_case left right labels) cases' (left_cases cases, [], s) = Inr (pending, order, s')"
    and ok: "pairing_ok left right s"
  shows "right_inv cases cases' pending order \<and> extends left right s s'"
  using run
proof (induction cases' arbitrary: pending order s' rule: rev_induct)
  case Nil
  with ok right_inv_start [of cases] show ?case by (auto simp: extends_refl)
next
  case (snoc c cases')
  obtain label target where c: "c = (label, target)" by (cases c)
  from snoc.prems obtain p o' t where
    prev: "foldE (right_case left right labels) cases' (left_cases cases, [], s) = Inr (p, o', t)"
    and step: "right_case left right labels c (p, o', t) = Inr (pending, order, s')"
    by (auto simp: foldE_append bindE_Inr_iff)
  from snoc.IH [OF prev] have inv: "right_inv cases cases' p o'" and ext: "extends left right s t" by simp_all
  show ?case
  proof (cases "map_of labels label")
    case None
    with step c have "pending = p @ [\<lparr>pc_left = None, pc_right = Some label, pc_leftTarget = None,
        pc_rightTarget = Some target, pc_leftIndex = None, pc_rightIndex = Some (length o'), pc_domain = 2\<rparr>]"
      "order = o' @ [length p]" "s' = t" by (auto simp: right_case_def)
    with right_inv_new [OF inv, of label target] ext c show ?thesis by simp
  next
    case (Some i)
    with step c have free: "pc_right (p ! i) = None"
      and pb: "pair_blocks left right (the (pc_leftTarget (p ! i))) target t = Inr s'"
      and eq: "pending = p[i := (p ! i)\<lparr>pc_right := Some label, pc_rightTarget := Some target,
        pc_rightIndex := Some (length o'), pc_domain := 3\<rparr>]" "order = o' @ [i]"
      by (auto simp: right_case_def bindE_Inr_iff split: if_splits)
    have "extends left right t s'" using pair_blocks_extends [OF pb] ext by (simp add: extends_def)
    with right_inv_join [OF inv, of i label target] labels [OF Some] free ext c show ?thesis
      by (auto simp: eq intro: extends_trans)
  qed
qed

lemma map_filter_filter:
  "(\<And>x. x \<in> set xs \<Longrightarrow> \<not> P x \<Longrightarrow> f x = None) \<Longrightarrow> List.map_filter f xs = List.map_filter f (filter P xs)"
  by (induction xs) (auto simp: List.map_filter_simps split: option.splits)

lemma map_filter_map: "List.map_filter f (map g xs) = List.map_filter (\<lambda>x. f (g x)) xs"
  by (simp add: List.map_filter_def filter_map comp_def)

lemma map_filter_total: "(\<And>x. x \<in> set xs \<Longrightarrow> f x = Some (g x)) \<Longrightarrow> List.map_filter f xs = map g xs"
  by (induction xs) (auto simp: List.map_filter_simps)

text \<open>The merged cases, restricted to either side, are that switch's cases in order.\<close>

lemma right_inv_projections:
  assumes inv: "right_inv cases cases' pending order"
    and m: "mergeOrder (map pc_domain pending) [0..<length cases] order = Inr m"
  shows "List.map_filter pc_left (map (\<lambda>i. pending ! i) m) = map fst cases"
    and "List.map_filter pc_leftIndex (map (\<lambda>i. pending ! i) m) = [0..<length cases]"
    and "List.map_filter pc_right (map (\<lambda>i. pending ! i) m) = map fst cases'"
    and "List.map_filter pc_rightIndex (map (\<lambda>i. pending ! i) m) = [0..<length cases']"
    and "list_all coherent_case (map (\<lambda>i. pending ! i) m)"
proof -
  let ?d = "map pc_domain pending"
  have coh: "coherent_case (pending ! i)" if "i < length pending" for i
    using inv that by (simp add: right_inv_def list_all_length)
  have left: "i < length pending \<and> pc_left (pending ! i) = Some (fst (cases ! i)) \<and> pc_leftIndex (pending ! i) = Some i"
    if "i < length cases" for i using inv that by (auto simp: right_inv_def)
  have right: "order ! k < length pending" "pc_right (pending ! (order ! k)) = Some (fst (cases' ! k))"
    "pc_rightIndex (pending ! (order ! k)) = Some k" if "k < length order" for k
    using inv that by (auto simp: right_inv_def)
  have len: "length order = length cases'" using inv by (simp add: right_inv_def)
  have dl: "?d ! i = 1 \<or> ?d ! i = 3" if "i \<in> set [0..<length cases]" for i
    using left [of i] coh [of i] that by (auto simp: coherent_case_def)
  have dr: "?d ! i = 2 \<or> ?d ! i = 3" if "i \<in> set order" for i
  proof -
    from that obtain k where k: "k < length order" "i = order ! k" by (auto simp: in_set_conv_nth)
    with right [of k] coh [of i] show ?thesis by (auto simp: coherent_case_def)
  qed
  from mergeOrder_projections [OF m] dl dr have proj:
    "filter (\<lambda>i. ?d ! i \<noteq> 2) m = [0..<length cases]" "filter (\<lambda>i. ?d ! i \<noteq> 1) m = order" by blast+
  have bound: "i < length pending" if "i \<in> set m" for i
    using mergeOrder_members [OF m] that left right(1) by (auto simp: in_set_conv_nth)
  have drop: "pc_left (pending ! i) = None" "pc_leftIndex (pending ! i) = None" if "i \<in> set m" "\<not> ?d ! i \<noteq> 2" for i
    using coh [OF bound [OF that(1)]] bound [OF that(1)] that(2) by (auto simp: coherent_case_def)
  have drop': "pc_right (pending ! i) = None" "pc_rightIndex (pending ! i) = None" if "i \<in> set m" "\<not> ?d ! i \<noteq> 1" for i
    using coh [OF bound [OF that(1)]] bound [OF that(1)] that(2) by (auto simp: coherent_case_def)
  have "List.map_filter (\<lambda>i. pc_left (pending ! i)) m = List.map_filter (\<lambda>i. pc_left (pending ! i)) [0..<length cases]"
    using map_filter_filter [of m "\<lambda>i. ?d ! i \<noteq> 2", OF drop(1)] by (simp add: proj)
  also have "\<dots> = map (\<lambda>i. fst (cases ! i)) [0..<length cases]" using left by (intro map_filter_total) simp
  also have "\<dots> = map fst cases" by (rule nth_equalityI) simp_all
  finally show "List.map_filter pc_left (map (\<lambda>i. pending ! i) m) = map fst cases" by (simp add: map_filter_map)
  have "List.map_filter (\<lambda>i. pc_leftIndex (pending ! i)) m = List.map_filter (\<lambda>i. pc_leftIndex (pending ! i)) [0..<length cases]"
    using map_filter_filter [of m "\<lambda>i. ?d ! i \<noteq> 2", OF drop(2)] by (simp add: proj)
  also have "\<dots> = map (\<lambda>i. i) [0..<length cases]" using left by (intro map_filter_total) simp
  finally show "List.map_filter pc_leftIndex (map (\<lambda>i. pending ! i) m) = [0..<length cases]" by (simp add: map_filter_map)
  have "List.map_filter (\<lambda>i. pc_right (pending ! i)) m = List.map_filter (\<lambda>i. pc_right (pending ! i)) order"
    unfolding proj(2) [symmetric] by (rule map_filter_filter) (rule drop'(1))
  also have "\<dots> = List.map_filter (\<lambda>k. pc_right (pending ! (order ! k))) [0..<length order]"
    using map_filter_map [of "\<lambda>i. pc_right (pending ! i)" "\<lambda>k. order ! k" "[0..<length order]"] by (simp add: map_nth)
  also have "\<dots> = map (\<lambda>k. fst (cases' ! k)) [0..<length order]" using right by (intro map_filter_total) simp
  also have "\<dots> = map fst cases'" by (rule nth_equalityI) (simp_all add: len)
  finally show "List.map_filter pc_right (map (\<lambda>i. pending ! i) m) = map fst cases'" by (simp add: map_filter_map)
  have "List.map_filter (\<lambda>i. pc_rightIndex (pending ! i)) m = List.map_filter (\<lambda>i. pc_rightIndex (pending ! i)) order"
    unfolding proj(2) [symmetric] by (rule map_filter_filter) (rule drop'(2))
  also have "\<dots> = List.map_filter (\<lambda>k. pc_rightIndex (pending ! (order ! k))) [0..<length order]"
    using map_filter_map [of "\<lambda>i. pc_rightIndex (pending ! i)" "\<lambda>k. order ! k" "[0..<length order]"] by (simp add: map_nth)
  also have "\<dots> = map (\<lambda>k. k) [0..<length order]" using right by (intro map_filter_total) simp
  finally show "List.map_filter pc_rightIndex (map (\<lambda>i. pending ! i) m) = [0..<length cases']" by (simp add: map_filter_map len)
  show "list_all coherent_case (map (\<lambda>i. pending ! i) m)" using bound coh by (simp add: list_all_iff)
qed

lemma private_arms_domains: "a \<in> set (private_arms l r cases) \<Longrightarrow> pa_domain a = 1 \<or> pa_domain a = 2"
  by (auto simp: private_arms_def split: if_splits)

lemma matchSwitch_extends:
  assumes run: "matchSwitch left right a (w, d, cases) b (w', d', cases') s = Inr s'" and ok: "pairing_ok left right s"
    and t: "block_terminator left (Some a) = Some (SwitchT w d cases)" "block_terminator right (Some b) = Some (SwitchT w' d' cases')"
  shows "extends left right s s'"
proof -
  from run obtain s1 pending labels pending' order s2 m where
    s1: "pair_blocks left right d d' s = Inr s1"
    and l: "foldE left_case cases ([], []) = Inr (pending, labels)"
    and r: "foldE (right_case left right labels) cases' (pending, [], s1) = Inr (pending', order, s2)"
    and m: "mergeOrder (map pc_domain pending') [0..<length cases] order = Inr m"
    and s': "s' = s2\<lparr>pr_arms := pr_arms s2 @ private_arms a b (map (\<lambda>i. pending' ! i) m),
                 pr_switches := pr_switches s2 @
                   [\<lparr>ps_left = a, ps_right = b, ps_leftDefault = d, ps_cases = map (\<lambda>i. pending' ! i) m\<rparr>]\<rparr>"
    unfolding matchSwitch_def Let_def by (auto simp: bindE_Inr_iff split: if_splits)
  have e1: "extends left right s s1" by (rule pair_blocks_extends [OF s1 ok])
  note lc = left_cases_Inr [OF l]
  have "right_inv cases cases' pending' order \<and> extends left right s1 s2"
    using lc r e1 by (intro right_cases_Inr [of labels]) (auto simp: extends_def)
  then have inv: "right_inv cases cases' pending' order" and e2: "extends left right s1 s2" by simp_all
  have "switch_ok left right \<lparr>ps_left = a, ps_right = b, ps_leftDefault = d, ps_cases = map (\<lambda>i. pending' ! i) m\<rparr>"
    using t right_inv_projections [OF inv m] by (simp add: switch_ok_def)
  then have "pairing_ok left right s'"
    using e2 private_arms_domains by (auto simp: extends_def pairing_ok_def s' list_all_iff)
  then show ?thesis using extends_trans [OF e1 e2] by (simp add: extends_def s')
qed

section \<open>The work list\<close>

lemma matchBlock_extends:
  assumes run: "matchBlock left right p s = Inr s'" and ok: "pairing_ok left right s" and p: "coherent_pair p"
  shows "extends left right s s'"
proof -
  from run obtain a b where t: "block_terminator left (bp_left p) = Some a" "block_terminator right (bp_right p) = Some b"
    and k: "same_kind a b" by (auto simp: matchBlock_def split: option.splits if_splits)
  obtain l r where lr: "bp_left p = Some l" "bp_right p = Some r"
    using t by (cases "bp_left p"; cases "bp_right p") (auto simp: block_terminator_def)
  show ?thesis
  proof (cases a)
    case (BranchT ts)
    with k obtain us where b: "b = BranchT us" by (cases b) (auto simp: same_kind_def)
    with run BranchT t k have "foldE (\<lambda>(t, u). pair_blocks left right t u) (zip ts us) s = Inr s'"
      by (simp add: matchBlock_def split: if_splits)
    then show ?thesis
      using extends_fold [of "\<lambda>(t, u). pair_blocks left right t u" "zip ts us" s s' left right "\<lambda>s. s"] ok
      by (auto intro: pair_blocks_extends)
  next
    case (SwitchT w d cases)
    with k obtain w' d' cases' where b: "b = SwitchT w' d' cases'" by (cases b) (auto simp: same_kind_def)
    with run SwitchT t k lr have "matchSwitch left right l (w, d, cases) r (w', d', cases') s = Inr s'"
      by (simp add: matchBlock_def)
    then show ?thesis using ok t SwitchT b lr by (intro matchSwitch_extends) auto
  next
    case ReturnT
    with run t k ok show ?thesis by (cases b) (auto simp: matchBlock_def same_kind_def extends_refl)
  next
    case UnreachableT
    with run t k ok show ?thesis by (cases b) (auto simp: matchBlock_def same_kind_def extends_refl)
  next
    case (OtherT k' ts)
    with run t k show ?thesis by (simp add: matchBlock_def)
  qed
qed

lemma pairs_bound:
  assumes "pairing_ok left right s" "list_all (\<lambda>p. bp_domain p = 3) (pr_pairs s)"
  shows "length (pr_pairs s) \<le> length left"
proof -
  have "bp_left p = Some (the (bp_left p))" if "p \<in> set (pr_pairs s)" for p
    using assms that by (auto simp: pairing_ok_def list_all_iff coherent_pair_def)
  then have "List.map_filter bp_left (pr_pairs s) = map (\<lambda>p. the (bp_left p)) (pr_pairs s)" by (rule map_filter_total)
  then have "length (pr_pairs s) = length (List.map_filter bp_left (pr_pairs s))" by simp
  also have "\<dots> = card (set (List.map_filter bp_left (pr_pairs s)))"
    using assms(1) by (intro distinct_card [symmetric]) (simp add: pairing_ok_def)
  also have "\<dots> \<le> card (set (bb_ids left))" using assms(1) by (intro card_mono) (simp_all add: pairing_ok_def)
  also have "\<dots> \<le> length left" using card_length [of "bb_ids left"] by (simp add: bb_ids_def)
  finally show ?thesis .
qed

lemma matchPairs_result:
  assumes "pairing_ok left right s" "list_all (\<lambda>p. bp_domain p = 3) (pr_pairs s)"
    and "index \<le> length (pr_pairs s)" "length left < index + fuel"
  shows "\<exists>r. matchPairs left right fuel index s = Some r \<and>
    (\<forall>s'. r = Inr s' \<longrightarrow> pairing_ok left right s')"
  using assms
proof (induction fuel arbitrary: index s)
  case 0
  with pairs_bound [OF "0.prems"(1,2)] show ?case by simp
next
  case (Suc fuel)
  show ?case
  proof (cases "index \<ge> length (pr_pairs s) \<or> (\<exists>e. matchBlock left right (pr_pairs s ! index) s = Inl e)")
    case True
    with Suc.prems show ?thesis by auto
  next
    case False
    then obtain s' where s': "matchBlock left right (pr_pairs s ! index) s = Inr s'" and i: "index < length (pr_pairs s)"
      by (cases "matchBlock left right (pr_pairs s ! index) s") auto
    have "coherent_pair (pr_pairs s ! index)" using Suc.prems(1) i by (simp add: pairing_ok_def list_all_length)
    from matchBlock_extends [OF s' Suc.prems(1) this] have "extends left right s s'" .
    with Suc.IH [of s' "Suc index"] Suc.prems i s' show ?thesis by (auto simp: extends_def)
  qed
qed

section \<open>One-sided arms\<close>

lemma unconditional_branch:
  "(case x of Some (BranchT [n]) \<Rightarrow> g n | _ \<Rightarrow> cfg_failure m) = Inr y \<Longrightarrow> \<exists>n. x = Some (BranchT [n]) \<and> g n = Inr y"
  by (auto split: option.splits terminator.splits list.splits)

lemma arm_chain_Inr:
  "arm_chain f mapping block pred chain = Inr (members, join) \<Longrightarrow> distinct chain \<Longrightarrow>
   (\<forall>b \<in> set chain. map_of mapping b = None \<and> find_bb f b \<noteq> None) \<Longrightarrow>
   distinct members \<and> (\<forall>b \<in> set members. map_of mapping b = None \<and> find_bb f b \<noteq> None)"
proof (induction f mapping block pred chain arbitrary: members join rule: arm_chain.induct)
  case (1 f mapping block pred chain)
  show ?case
  proof (cases "map_of mapping block")
    case (Some i)
    with "1.prems" show ?thesis by (auto simp: arm_chain.simps [of _ _ block])
  next
    case None
    with "1.prems"(1) have ok: "find_bb f block \<noteq> None" "block \<notin> set chain" "\<not> length chain \<ge> 4096"
      "\<not> (length (bb_predecessors f block) \<noteq> 1 \<or> hd (bb_predecessors f block) \<noteq> pred)"
      by (auto simp: arm_chain.simps [of _ _ block] split: if_splits)
    have "(case block_terminator f (Some block) of
        Some (BranchT [next']) \<Rightarrow> arm_chain f mapping next' block (chain @ [block])
      | _ \<Rightarrow> cfg_failure ''one-sided arm must be an unconditional chain rejoining shared code'') = Inr (members, join)"
      using "1.prems"(1) None ok unfolding arm_chain.simps [of _ _ block] by (simp only: option.case if_False if_True simp_thms)
    then have "\<exists>n. block_terminator f (Some block) = Some (BranchT [n]) \<and>
        arm_chain f mapping n block (chain @ [block]) = Inr (members, join)" by (rule unconditional_branch)
    then obtain next' where n: "block_terminator f (Some block) = Some (BranchT [next'])"
      and next': "arm_chain f mapping next' block (chain @ [block]) = Inr (members, join)" by blast
    have c: "distinct (chain @ [block])" "\<forall>b \<in> set (chain @ [block]). map_of mapping b = None \<and> find_bb f b \<noteq> None"
      using ok(1,2) "1.prems"(2,3) None by auto
    have "\<not> (find_bb f block = None \<or> block \<in> set chain)" using ok(1,2) by simp
    from "1.IH" [OF None this ok(3,4) n refl refl refl next' c] show ?thesis .
  qed
qed

lemma arm_members_ok:
  assumes "foldE (arm_member f arm chain) members s = Inr s'"
    and "pairing_ok left right s" "pa_domain arm = 1 \<or> pa_domain arm = 2" "f = (if pa_domain arm = 1 then left else right)"
    and "distinct members" "\<forall>b \<in> set members. map_of (arm_mapping arm s) b = None \<and> find_bb f b \<noteq> None"
  shows "pairing_ok left right s'"
  using assms
proof (induction members arbitrary: s)
  case (Cons b members)
  from Cons.prems(1) obtain t where t: "arm_member f arm chain b s = Inr t" "foldE (arm_member f arm chain) members t = Inr s'"
    by (rule foldE_Cons_InrE)
  let ?p = "\<lparr>bp_left = (if pa_domain arm = 1 then Some b else None), bp_right = (if pa_domain arm = 2 then Some b else None),
    bp_domain = pa_domain arm\<rparr>"
  have b: "map_of (arm_mapping arm s) b = None" "find_bb f b \<noteq> None" using Cons.prems(6) by simp_all
  from t(1) b have tt: "t = (if pa_domain arm = 1 then s\<lparr>pr_left := (b, length (pr_pairs s)) # pr_left s\<rparr>
        else s\<lparr>pr_right := (b, length (pr_pairs s)) # pr_right s\<rparr>)\<lparr>pr_pairs := pr_pairs s @ [?p]\<rparr>"
    by (auto simp: arm_member_def Let_def split: if_splits option.splits)
  have "pairing_ok left right t"
    using Cons.prems(3,4) b find_bb_Some [of f b]
    by (intro pairing_ok_snoc [OF Cons.prems(2), of ?p]) (auto simp: tt coherent_pair_def arm_mapping_def split: if_splits)
  moreover have "\<forall>x \<in> set members. map_of (arm_mapping arm t) x = None \<and> find_bb f x \<noteq> None"
    using Cons.prems(5,6) by (auto simp: tt arm_mapping_def)
  ultimately show ?case using Cons.IH [OF t(2)] Cons.prems(3-5) by simp
qed simp

lemma qualifyArm_ok:
  assumes "qualifyArm left right arm s = Inr s'" "pairing_ok left right s" "pa_domain arm = 1 \<or> pa_domain arm = 2"
  shows "pairing_ok left right s'"
proof -
  let ?f = "if pa_domain arm = 1 then left else right"
  from assms(1) obtain chain join where
    c: "arm_chain ?f (arm_mapping arm s) (pa_first arm) (pa_source arm) [] = Inr (chain, join)"
    and r: "foldE (arm_member ?f arm chain) chain s = Inr s'"
    by (auto simp: qualifyArm_def Let_def bindE_Inr_iff split: if_splits)
  from arm_chain_Inr [OF c] have d: "distinct chain"
    "\<forall>b \<in> set chain. map_of (arm_mapping arm s) b = None \<and> find_bb ?f b \<noteq> None" by simp_all
  show ?thesis by (rule arm_members_ok [OF r assms(2,3) refl d])
qed

section \<open>The merged graph\<close>

lemma block_positions_length: "length (block_positions side ps) = length (List.map_filter side ps)"
  using arg_cong [OF block_positions_keys [of side ps], of length] by simp

lemma side_ids:
  assumes dist: "distinct (bb_ids f)" and d: "distinct (List.map_filter side pairs)"
    and sub: "set (List.map_filter side pairs) \<subseteq> set (bb_ids f)" and len: "length (List.map_filter side pairs) = length f"
  shows "set (List.map_filter side pairs) = set (bb_ids f)"
proof -
  have "length (bb_ids f) = length f" by (simp add: bb_ids_def)
  then have "card (set (List.map_filter side pairs)) = card (set (bb_ids f))"
    using distinct_card [OF dist] distinct_card [OF d] len by presburger
  with sub show ?thesis by (intro card_subset_eq) simp_all
qed

text \<open>Either side of the merged blocks is the block list of its function, in order.\<close>

lemma side_projection:
  assumes dist: "distinct (bb_ids f)" and d: "distinct (List.map_filter side pairs)"
    and sub: "set (List.map_filter side pairs) \<subseteq> set (bb_ids f)" and len: "length (List.map_filter side pairs) = length f"
    and proj: "filter keep m = map (lookup0 (block_positions side pairs)) (bb_ids f)"
    and drop: "\<And>i. i \<in> set m \<Longrightarrow> \<not> keep i \<Longrightarrow> side (pairs ! i) = None"
  shows "List.map_filter side (map (\<lambda>i. pairs ! i) m) = bb_ids f"
proof -
  note eq = side_ids [OF dist d sub len]
  have at: "side (pairs ! lookup0 (block_positions side pairs) b) = Some b" if "b \<in> set (bb_ids f)" for b
  proof -
    have "map_of (block_positions side pairs) b \<noteq> None" using that by (simp add: block_positions_None eq)
    then obtain i where "map_of (block_positions side pairs) b = Some i" by auto
    with block_positions_lookup [OF d, of b i] show ?thesis by (simp add: lookup0_def)
  qed
  have "List.map_filter side (map (\<lambda>i. pairs ! i) m) = List.map_filter (\<lambda>i. side (pairs ! i)) (filter keep m)"
    unfolding map_filter_map by (rule map_filter_filter) (rule drop)
  also have "\<dots> = List.map_filter (\<lambda>b. side (pairs ! lookup0 (block_positions side pairs) b)) (bb_ids f)"
    by (simp add: proj map_filter_map)
  also have "\<dots> = map (\<lambda>b. b) (bb_ids f)" using at by (rule map_filter_total)
  finally show ?thesis by simp
qed

text \<open>The graph restricted to either side is that function: its blocks in order and, per switch, its cases.\<close>

definition case_pair_switch_ok :: "native_function \<Rightarrow> native_function \<Rightarrow> ConditionalCFGSwitchPair \<Rightarrow> bool" where
  "case_pair_switch_ok left right w \<longleftrightarrow>
     (\<exists>width d cases width' d' cases'.
        block_terminator left (Some (sp_left w)) = Some (SwitchT width d cases) \<and>
        block_terminator right (Some (sp_right w)) = Some (SwitchT width' d' cases') \<and>
        List.map_filter cp_left (sp_cases w) = map fst cases \<and> List.map_filter cp_leftIndex (sp_cases w) = [0..<length cases] \<and>
        List.map_filter cp_right (sp_cases w) = map fst cases' \<and> List.map_filter cp_rightIndex (sp_cases w) = [0..<length cases'])"

lemma switch_pair_ok: "switch_ok left right w \<Longrightarrow> case_pair_switch_ok left right (switch_pair lb rb w)"
  by (auto simp: switch_ok_def case_pair_switch_ok_def switch_pair_def case_pair_def map_filter_map)

lemma merged_switches:
  assumes "pairing_ok left right t" "cfg = merged_graph t order"
  shows "list_all (case_pair_switch_ok left right) (cc_switches cfg)"
proof -
  let ?pending = "map (\<lambda>w. (ps_left w, w)) (rev (pr_switches t))"
  have "case_pair_switch_ok left right (switch_pair lb rb w)" if "map_of ?pending b = Some w" for b w lb rb
  proof -
    from map_of_SomeD [OF that] have "w \<in> set (pr_switches t)" by auto
    then show ?thesis using assms(1) by (intro switch_pair_ok) (simp add: pairing_ok_def list_all_iff)
  qed
  then show ?thesis
    unfolding assms(2) merged_graph_def Let_def list_all_iff
    by (auto simp: List.map_filter_def bind_eq_Some_conv)
qed

lemma finish_pairing_ok:
  assumes run: "finish_pairing left right s = Inr cfg" and ok: "pairing_ok left right s"
    and dist: "distinct (bb_ids left)" "distinct (bb_ids right)"
  shows "List.map_filter bp_left (cc_blocks cfg) = bb_ids left \<and> List.map_filter bp_right (cc_blocks cfg) = bb_ids right \<and>
    list_all coherent_pair (cc_blocks cfg) \<and> list_all (case_pair_switch_ok left right) (cc_switches cfg)"
proof -
  from run obtain t order where t: "foldE (qualifyArm left right) (pr_arms s) s = Inr t"
    and len: "length (pr_left t) = length left" "length (pr_right t) = length right"
    and m: "mergeOrder (map bp_domain (pr_pairs t)) (map (lookup0 (pr_left t)) (bb_ids left))
        (map (lookup0 (pr_right t)) (bb_ids right)) = Inr order"
    and cfg: "cfg = merged_graph t order"
    by (auto simp: finish_pairing_def bindE_Inr_iff split: if_splits)
  have "\<forall>a \<in> set (pr_arms s). pa_domain a = 1 \<or> pa_domain a = 2" using ok by (simp add: pairing_ok_def list_all_iff)
  then have okt: "pairing_ok left right t"
    using foldE_invariant [OF t, of "pairing_ok left right"] ok qualifyArm_ok by blast
  let ?d = "map bp_domain (pr_pairs t)"
  have coh: "coherent_pair (pr_pairs t ! i)" if "i < length (pr_pairs t)" for i
    using okt that by (simp add: pairing_ok_def list_all_length)
  have l: "pr_left t = block_positions bp_left (pr_pairs t)" "distinct (List.map_filter bp_left (pr_pairs t))"
      "set (List.map_filter bp_left (pr_pairs t)) \<subseteq> set (bb_ids left)" "length (List.map_filter bp_left (pr_pairs t)) = length left"
    and r: "pr_right t = block_positions bp_right (pr_pairs t)" "distinct (List.map_filter bp_right (pr_pairs t))"
      "set (List.map_filter bp_right (pr_pairs t)) \<subseteq> set (bb_ids right)" "length (List.map_filter bp_right (pr_pairs t)) = length right"
    using okt len by (simp_all add: pairing_ok_def block_positions_length)
  have at: "i < length (pr_pairs t) \<and> bp_left (pr_pairs t ! i) = Some b"
    if "b \<in> set (bb_ids left)" "i = lookup0 (pr_left t) b" for b i
  proof -
    have "map_of (pr_left t) b \<noteq> None" using that(1) side_ids [OF dist(1) l(2-4)] by (simp add: l(1) block_positions_None)
    then obtain j where "map_of (pr_left t) b = Some j" by auto
    with block_positions_lookup [OF l(2), of b j] that(2) l(1) show ?thesis by (simp add: lookup0_def)
  qed
  have at': "i < length (pr_pairs t) \<and> bp_right (pr_pairs t ! i) = Some b"
    if "b \<in> set (bb_ids right)" "i = lookup0 (pr_right t) b" for b i
  proof -
    have "map_of (pr_right t) b \<noteq> None" using that(1) side_ids [OF dist(2) r(2-4)] by (simp add: r(1) block_positions_None)
    then obtain j where "map_of (pr_right t) b = Some j" by auto
    with block_positions_lookup [OF r(2), of b j] that(2) r(1) show ?thesis by (simp add: lookup0_def)
  qed
  have bound: "i < length (pr_pairs t)" if "i \<in> set order" for i
    using mergeOrder_members [OF m] that at at' by auto
  have dl: "?d ! i = 1 \<or> ?d ! i = 3" if "i \<in> set (map (lookup0 (pr_left t)) (bb_ids left))" for i
    using that at coh by (force simp: coherent_pair_def)
  have dr: "?d ! i = 2 \<or> ?d ! i = 3" if "i \<in> set (map (lookup0 (pr_right t)) (bb_ids right))" for i
    using that at' coh by (force simp: coherent_pair_def)
  from mergeOrder_projections [OF m] dl dr have
    proj: "filter (\<lambda>i. ?d ! i \<noteq> 2) order = map (lookup0 (pr_left t)) (bb_ids left)"
      "filter (\<lambda>i. ?d ! i \<noteq> 1) order = map (lookup0 (pr_right t)) (bb_ids right)" by blast+
  have "bp_left (pr_pairs t ! i) = None" if "i \<in> set order" "\<not> ?d ! i \<noteq> 2" for i
    using coh [OF bound [OF that(1)]] bound [OF that(1)] that(2) by (auto simp: coherent_pair_def)
  then have "List.map_filter bp_left (map (\<lambda>i. pr_pairs t ! i) order) = bb_ids left"
    by (intro side_projection [OF dist(1) l(2-4) proj(1) [unfolded l(1)]])
  moreover have "bp_right (pr_pairs t ! i) = None" if "i \<in> set order" "\<not> ?d ! i \<noteq> 1" for i
    using coh [OF bound [OF that(1)]] bound [OF that(1)] that(2) by (auto simp: coherent_pair_def)
  then have "List.map_filter bp_right (map (\<lambda>i. pr_pairs t ! i) order) = bb_ids right"
    by (intro side_projection [OF dist(2) r(2-4) proj(2) [unfolded r(1)]])
  moreover have "list_all coherent_pair (map (\<lambda>i. pr_pairs t ! i) order)" using bound coh by (simp add: list_all_iff)
  moreover have "list_all (case_pair_switch_ok left right) (cc_switches cfg)"
    by (rule merged_switches [OF okt cfg])
  ultimately show ?thesis by (simp add: cfg merged_graph_def Let_def)
qed

lemma pairConditionalCFG_result:
  assumes dist: "distinct (bb_ids left)" "distinct (bb_ids right)"
  shows "\<exists>r. pairConditionalCFG left right = Some r \<and> (\<forall>cfg. r = Inr cfg \<longrightarrow>
    List.map_filter bp_left (cc_blocks cfg) = bb_ids left \<and> List.map_filter bp_right (cc_blocks cfg) = bb_ids right \<and>
    list_all coherent_pair (cc_blocks cfg) \<and> list_all (case_pair_switch_ok left right) (cc_switches cfg))"
proof (cases "left = [] \<or> right = [] \<or> length left > 65536 \<or> length right > 65536 \<or> list_ex bb_addressTaken (left @ right)")
  case True
  then show ?thesis by (auto simp: pairConditionalCFG_def)
next
  case False
  let ?s = "\<lparr>pr_pairs = [], pr_left = [], pr_right = [], pr_switches = [], pr_arms = []\<rparr>"
  have ok: "pairing_ok left right ?s" by (simp add: pairing_ok_def List.map_filter_simps)
  have "\<exists>r. matchShared left right ?s = Some r \<and> (\<forall>s'. r = Inr s' \<longrightarrow> pairing_ok left right s')"
  proof (cases "pair_blocks left right (bb_id (hd left)) (bb_id (hd right)) ?s")
    case (Inl e)
    then show ?thesis by (simp add: matchShared_def)
  next
    case (Inr s1)
    from pair_blocks_extends [OF this ok] have "pairing_ok left right s1" "list_all (\<lambda>p. bp_domain p = 3) (pr_pairs s1)"
      by (simp_all add: extends_def)
    then show ?thesis using matchPairs_result [of left right s1 0 "length left + 2"] Inr by (simp add: matchShared_def)
  qed
  then obtain r where r: "matchShared left right ?s = Some r" "\<And>s'. r = Inr s' \<Longrightarrow> pairing_ok left right s'" by blast
  have "pairConditionalCFG left right = Some (bindE r (finish_pairing left right))"
    using False r(1) by (simp add: pairConditionalCFG_def)
  then show ?thesis using finish_pairing_ok [OF _ r(2) dist] by (auto simp: bindE_Inr_iff)
qed

end
