(* ===== verification/Overlap.thy ===== *)
theory Overlap
  imports Native_Types Domains
begin

text \<open>
  Overlapping storage (OverlapLayout.cpp, OverlapEvidence.cpp): the native carrier of a set of alternatives,
  the association of a native record with the union its debug information describes, and the merge of two
  native overlaps to a public one. Debug metadata is a graph: a node by its number, an absent reference is
  \<open>None\<close>; only the parts the code reads are kept. The pointer width is the data layout's.
\<close>

definition invalid_argument :: "string \<Rightarrow> 'a expected" where
  "invalid_argument message = Inl message"

lemma invalid_argument_neq [simp]: "invalid_argument m \<noteq> Inr x"
  by (simp add: invalid_argument_def)

section \<open>Carriers\<close>

definition overlap_scalar :: "lty \<Rightarrow> bool" where
  "overlap_scalar t =
     (t = IntTy 8 \<or> t = IntTy 16 \<or> t = IntTy 32 \<or> t = IntTy 64 \<or> t = FloatTy \<or> t = DoubleTy \<or> t = PtrTy 0)"

record carrier_state =
  ca_carrier :: "lty option"
  ca_maximumSize :: nat
  ca_carrierSize :: nat
  ca_maximumAlignment :: nat

definition carrier_step :: "data_layout \<Rightarrow> lty \<Rightarrow> carrier_state \<Rightarrow> carrier_state expected" where
  "carrier_step L t s =
     (if \<not> overlap_scalar t then invalid_argument ''unqualified overlapping-storage alternative''
      else
        let alignment = getABITypeAlign L t; bytes = getTypeAllocSize L t;
            s = s\<lparr>ca_maximumSize := max (ca_maximumSize s) bytes\<rparr> in
        Inr (if ca_carrier s = None \<or> alignment > ca_maximumAlignment s \<or>
                (alignment = ca_maximumAlignment s \<and> bytes > ca_carrierSize s)
             then s\<lparr>ca_carrier := Some t, ca_carrierSize := bytes, ca_maximumAlignment := alignment\<rparr>
             else s))"

definition selectOverlapCarrier :: "lty list \<Rightarrow> data_layout \<Rightarrow> lty expected" where
  "selectOverlapCarrier alternatives L =
     (if alternatives = [] \<or> length alternatives > 64
      then invalid_argument ''overlapping storage needs 1 to 64 qualified alternatives''
      else
        bindE (foldE (carrier_step L) alternatives
          \<lparr>ca_carrier = None, ca_maximumSize = 0, ca_carrierSize = 0, ca_maximumAlignment = 1\<rparr>) (\<lambda>s.
        if ca_carrierSize s \<noteq> ca_maximumSize s
        then invalid_argument ''overlapping storage needs unqualified tail padding''
        else Inr (the (ca_carrier s))))"

section \<open>Debug evidence\<close>

datatype dw_tag = TypedefTag | ConstTag | VolatileTag | RestrictTag | PointerTag | MemberTag | UnionTag | OtherTag nat

datatype dw_encoding = FloatEnc | SignedEnc | UnsignedEnc | SignedCharEnc | UnsignedCharEnc | BooleanEnc | OtherEnc nat

record di_derived =
  dd_tag :: dw_tag
  dd_base :: "nat option"
  dd_name :: string
  dd_bitField :: bool
  dd_offset :: nat
  dd_size :: nat
  dd_align :: nat

record di_composite =
  dc_tag :: dw_tag
  dc_elements :: "nat list"
  dc_size :: nat
  dc_align :: nat

datatype di_node = BasicN nat dw_encoding | DerivedN di_derived | CompositeN di_composite | OtherN

type_synonym di_graph = "nat \<Rightarrow> di_node option"

definition di_at :: "di_graph \<Rightarrow> nat option \<Rightarrow> di_node option" where
  "di_at g n = Option.bind n g"

function baseType :: "di_graph \<Rightarrow> nat option \<Rightarrow> nat \<Rightarrow> nat option" where
  "baseType g t depth =
     (case di_at g t of
        Some (DerivedN d) \<Rightarrow>
          if depth + 1 > 64 then None
          else if dd_tag d \<noteq> TypedefTag \<and> dd_tag d \<noteq> ConstTag \<and> dd_tag d \<noteq> VolatileTag \<and> dd_tag d \<noteq> RestrictTag
          then t
          else baseType g (dd_base d) (depth + 1)
      | _ \<Rightarrow> t)"
  by pat_completeness auto

termination
  by (relation "measure (\<lambda>(g, t, depth). 64 - depth)") auto

declare baseType.simps [simp del]

definition scalarType :: "di_graph \<Rightarrow> nat \<Rightarrow> nat option \<Rightarrow> lty option" where
  "scalarType g pointerBits input =
     (case di_at g (baseType g input 0) of
        Some (BasicN bits e) \<Rightarrow>
          if e = FloatEnc then (if bits = 32 then Some FloatTy else if bits = 64 then Some DoubleTy else None)
          else if (e = SignedEnc \<or> e = UnsignedEnc \<or> e = SignedCharEnc \<or> e = UnsignedCharEnc \<or> e = BooleanEnc) \<and>
                  (bits = 8 \<or> bits = 16 \<or> bits = 32 \<or> bits = 64)
          then Some (IntTy bits) else None
      | Some (DerivedN d) \<Rightarrow> if dd_tag d = PointerTag \<and> dd_size d = pointerBits then Some (PtrTy 0) else None
      | _ \<Rightarrow> None)"

record OverlapAlternative =
  oa_privateName :: string
  oa_type :: lty

text \<open>\<open>getTypeSizeInBits\<close> of the scalars above.\<close>

definition scalar_bits :: "nat \<Rightarrow> lty \<Rightarrow> nat" where
  "scalar_bits pointerBits t = (if isPointerTy t then pointerBits else getPrimitiveSizeInBits t)"

definition prove_member ::
  "di_graph \<Rightarrow> data_layout \<Rightarrow> nat \<Rightarrow> nat \<Rightarrow> OverlapAlternative list \<Rightarrow> OverlapAlternative list expected" where
  "prove_member g L pointerBits item found =
     (case g item of
        Some (DerivedN m) \<Rightarrow>
          (case scalarType g pointerBits (dd_base m) of
             Some t \<Rightarrow>
               if dd_tag m \<noteq> MemberTag \<or> dd_bitField m \<or> dd_offset m \<noteq> 0 \<or> dd_name m = [] \<or>
                  dd_name m \<in> oa_privateName ` set found \<or> dd_size m \<noteq> scalar_bits pointerBits t \<or>
                  (dd_align m \<noteq> 0 \<and> dd_align m \<noteq> getABITypeAlign L t * 8)
               then invalid_argument ''unqualified or contradictory overlap member evidence''
               else Inr (found @ [\<lparr>oa_privateName = dd_name m, oa_type = t\<rparr>])
           | None \<Rightarrow> invalid_argument ''unqualified or contradictory overlap member evidence'')
      | _ \<Rightarrow> invalid_argument ''unqualified or contradictory overlap member evidence'')"

definition prove_overlap ::
  "di_graph \<Rightarrow> data_layout \<Rightarrow> nat \<Rightarrow> lty \<Rightarrow> di_composite \<Rightarrow> OverlapAlternative list expected" where
  "prove_overlap g L pointerBits storage evidence =
     (case storage of
        StructTy s packed [element] \<Rightarrow>
          if packed \<or> dc_elements evidence = [] \<or> length (dc_elements evidence) > 64
          then invalid_argument ''unqualified overlapping-storage layout''
          else
            bindE (foldE (prove_member g L pointerBits) (dc_elements evidence) []) (\<lambda>alternatives.
            bindE (selectOverlapCarrier (map oa_type alternatives) L) (\<lambda>carrier.
            if carrier \<noteq> element \<or> dc_size evidence \<noteq> getTypeAllocSize L storage * 8 \<or>
               getABITypeAlign L carrier \<noteq> getABITypeAlign L storage \<or>
               (dc_align evidence \<noteq> 0 \<and> dc_align evidence \<noteq> getABITypeAlign L storage * 8)
            then invalid_argument ''native overlap carrier does not match its semantic layout evidence''
            else Inr alternatives))
      | _ \<Rightarrow> invalid_argument ''unqualified overlapping-storage layout'')"

type_synonym native_overlaps = "(lty \<times> OverlapAlternative list) list"

definition associate ::
  "di_graph \<Rightarrow> data_layout \<Rightarrow> nat \<Rightarrow> lty \<times> nat option \<Rightarrow> native_overlaps \<Rightarrow> native_overlaps expected" where
  "associate g L pointerBits evidence found =
     (case evidence of (native, debug) \<Rightarrow>
        (case di_at g (baseType g debug 0) of
           Some (CompositeN c) \<Rightarrow>
             if dc_tag c \<noteq> UnionTag then Inr found
             else if \<not> (isStructTy native \<or> (case native of OpaqueTy _ \<Rightarrow> True | _ \<Rightarrow> False))
             then invalid_argument ''overlap evidence does not describe LLVM record storage''
             else
               bindE (prove_overlap g L pointerBits native c) (\<lambda>proven.
               (case map_of found native of
                  Some previous \<Rightarrow>
                    if previous \<noteq> proven then invalid_argument ''conflicting overlap evidence for native storage''
                    else Inr found
                | None \<Rightarrow> Inr ((native, proven) # found)))
         | _ \<Rightarrow> Inr found))"

text \<open>
  What the discovery sees of a module: the value type of every global with its debug expressions (their number
  of operations and the variable's debug type), and of every instruction whether it is a debug declaration:
  its address (absent, or the type it allocates if it is an allocation), its operations and its debug type.
\<close>

record dbg_global =
  dg_valueType :: lty
  dg_expressions :: "(nat \<times> nat option) list"

datatype dbg_instruction = DbgDeclare "lty option option" nat "nat option" | OtherInstruction

definition associate_global ::
  "di_graph \<Rightarrow> data_layout \<Rightarrow> nat \<Rightarrow> dbg_global \<Rightarrow> native_overlaps \<Rightarrow> native_overlaps expected" where
  "associate_global g L pointerBits x =
     foldE (\<lambda>(operations, debug) found.
       if operations = 0 then associate g L pointerBits (dg_valueType x, debug) found else Inr found) (dg_expressions x)"

definition associate_instruction ::
  "di_graph \<Rightarrow> data_layout \<Rightarrow> nat \<Rightarrow> dbg_instruction \<Rightarrow> native_overlaps \<Rightarrow> native_overlaps expected" where
  "associate_instruction g L pointerBits x found =
     (case x of
        DbgDeclare (Some (Some allocated)) operations debug \<Rightarrow>
          if operations \<noteq> 0 then Inr found else associate g L pointerBits (allocated, debug) found
      | _ \<Rightarrow> Inr found)"

definition discoverNativeOverlaps ::
  "di_graph \<Rightarrow> data_layout \<Rightarrow> nat \<Rightarrow> dbg_global list \<Rightarrow> dbg_instruction list \<Rightarrow> native_overlaps expected" where
  "discoverNativeOverlaps g L pointerBits globals instructions =
     bindE (foldE (associate_global g L pointerBits) globals []) (\<lambda>found.
     foldE (associate_instruction g L pointerBits) instructions found)"

section \<open>Merging two overlaps\<close>

definition appears :: "OverlapAlternative list \<Rightarrow> string \<Rightarrow> bool" where
  "appears entries name = list_ex (\<lambda>e. oa_privateName e = name) entries"

text \<open>
  The alternatives that are left on either side; the result pairs each public alternative with the targets
  that have it.
\<close>

function merge_alternatives ::
  "(lty \<Rightarrow> lty \<Rightarrow> sty option) \<Rightarrow> string \<Rightarrow> string \<Rightarrow> OverlapAlternative list \<Rightarrow> OverlapAlternative list \<Rightarrow>
   (sty \<times> string list) list expected" where
  "merge_alternatives mergeType leftTarget rightTarget left right =
     (if left = [] \<and> right = [] then Inr []
      else
        let a = hd left; b = hd right;
            common = (left \<noteq> [] \<and> right \<noteq> [] \<and> oa_privateName a = oa_privateName b);
            onlyLeft = (left \<noteq> [] \<and> \<not> appears right (oa_privateName a));
            onlyRight = (right \<noteq> [] \<and> \<not> appears left (oa_privateName b)) in
        if \<not> common \<and> \<not> onlyLeft \<and> \<not> onlyRight
        then invalid_argument ''overlap alternatives have conflicting semantic order''
        else
          (case (if common then mergeType (oa_type a) (oa_type b)
                 else if onlyLeft then mergeType (oa_type a) (oa_type a) else mergeType (oa_type b) (oa_type b)) of
             None \<Rightarrow> invalid_argument ''unsupported overlap alternative type correspondence''
           | Some t \<Rightarrow>
               let ids = (if common \<or> onlyLeft then [leftTarget] else []);
                   ids = (if (common \<or> \<not> onlyLeft) \<and> rightTarget \<notin> set ids then ids @ [rightTarget] else ids) in
               bindE (merge_alternatives mergeType leftTarget rightTarget
                        (if common \<or> onlyLeft then tl left else left)
                        (if common \<or> \<not> onlyLeft then tl right else right)) (\<lambda>rest.
               Inr ((t, ids) # rest))))"
  by pat_completeness auto

termination
  by (relation "measure (\<lambda>(mergeType, l, r, left, right). length left + length right)")
    (auto simp: Let_def neq_Nil_conv split: if_splits)

declare merge_alternatives.simps [simp del]

definition mergeNativeOverlap ::
  "(lty \<Rightarrow> lty \<Rightarrow> sty option) \<Rightarrow> OverlapAlternative list \<Rightarrow> OverlapAlternative list \<Rightarrow> string \<Rightarrow> string \<Rightarrow> string \<Rightarrow> sty expected" where
  "mergeNativeOverlap mergeType left right identity leftTarget rightTarget =
     bindE (merge_alternatives mergeType leftTarget rightTarget left right) (\<lambda>merged.
     Inr (OverlapT identity (map fst merged) (map (\<lambda>(t, ids). targetSet ids) merged)))"

end
