(* ===== verification/Overlap_Facts.thy ===== *)
theory Overlap_Facts
  imports Overlap Domains_Facts
begin

text \<open>
  Facts about overlapping storage: the chosen carrier dominates every alternative in size and alignment, and
  specializing a merged overlap to either of its targets gives back the overlap of that target.
\<close>

section \<open>Carriers\<close>

definition carrier_inv :: "data_layout \<Rightarrow> lty list \<Rightarrow> carrier_state \<Rightarrow> bool" where
  "carrier_inv L seen s \<longleftrightarrow>
     (if seen = [] then s = \<lparr>ca_carrier = None, ca_maximumSize = 0, ca_carrierSize = 0, ca_maximumAlignment = 1\<rparr>
      else \<exists>c \<in> set seen. ca_carrier s = Some c \<and> ca_carrierSize s = getTypeAllocSize L c \<and>
        ca_maximumAlignment s = getABITypeAlign L c \<and>
        (\<forall>t \<in> set seen. getABITypeAlign L t < getABITypeAlign L c \<or>
           (getABITypeAlign L t = getABITypeAlign L c \<and> getTypeAllocSize L t \<le> getTypeAllocSize L c)) \<and>
        (\<forall>t \<in> set seen. getTypeAllocSize L t \<le> ca_maximumSize s) \<and>
        (\<exists>t \<in> set seen. getTypeAllocSize L t = ca_maximumSize s))"

lemma carrier_inv_step:
  assumes "carrier_inv L seen s" "carrier_step L t s = Inr s'"
  shows "carrier_inv L (seen @ [t]) s'"
proof (cases "seen = []")
  case True
  with assms show ?thesis by (auto simp: carrier_inv_def carrier_step_def Let_def split: if_splits)
next
  case False
  with assms(1) obtain c where c: "c \<in> set seen" "ca_carrier s = Some c" "ca_carrierSize s = getTypeAllocSize L c"
    "ca_maximumAlignment s = getABITypeAlign L c"
    "\<And>t. t \<in> set seen \<Longrightarrow> getABITypeAlign L t < getABITypeAlign L c \<or>
       (getABITypeAlign L t = getABITypeAlign L c \<and> getTypeAllocSize L t \<le> getTypeAllocSize L c)"
    "\<And>t. t \<in> set seen \<Longrightarrow> getTypeAllocSize L t \<le> ca_maximumSize s"
    "\<exists>t \<in> set seen. getTypeAllocSize L t = ca_maximumSize s"
    unfolding carrier_inv_def by (simp only: if_False) blast
  let ?better = "getABITypeAlign L t > getABITypeAlign L c \<or>
    (getABITypeAlign L t = getABITypeAlign L c \<and> getTypeAllocSize L t > getTypeAllocSize L c)"
  let ?d = "if ?better then t else c"
  have s': "ca_carrier s' = Some ?d" "ca_carrierSize s' = getTypeAllocSize L ?d"
    "ca_maximumAlignment s' = getABITypeAlign L ?d" "ca_maximumSize s' = max (ca_maximumSize s) (getTypeAllocSize L t)"
    using assms(2) c(2-4) by (auto simp: carrier_step_def Let_def split: if_splits)
  have "getABITypeAlign L x < getABITypeAlign L ?d \<or>
      (getABITypeAlign L x = getABITypeAlign L ?d \<and> getTypeAllocSize L x \<le> getTypeAllocSize L ?d)" if "x \<in> set (seen @ [t])" for x
    using that c(5) [of x] by auto
  moreover have "?d \<in> set (seen @ [t])" using c(1) by simp
  moreover have "getTypeAllocSize L x \<le> ca_maximumSize s'" if "x \<in> set (seen @ [t])" for x
    using that c(6) [of x] s'(4) by auto
  moreover have "\<exists>x \<in> set (seen @ [t]). getTypeAllocSize L x = ca_maximumSize s'"
    using c(7) s'(4) by (auto simp: max_def)
  ultimately show ?thesis using s' by (auto simp: carrier_inv_def)
qed

lemma carrier_fold:
  "foldE (carrier_step L) ts \<lparr>ca_carrier = None, ca_maximumSize = 0, ca_carrierSize = 0, ca_maximumAlignment = 1\<rparr> = Inr s \<Longrightarrow>
   carrier_inv L ts s \<and> list_all overlap_scalar ts"
proof (induction ts arbitrary: s rule: rev_induct)
  case Nil
  then show ?case by (simp add: carrier_inv_def)
next
  case (snoc t ts)
  from snoc.prems obtain u where u: "foldE (carrier_step L) ts
      \<lparr>ca_carrier = None, ca_maximumSize = 0, ca_carrierSize = 0, ca_maximumAlignment = 1\<rparr> = Inr u"
    "carrier_step L t u = Inr s" by (auto simp: foldE_append bindE_Inr_iff)
  from snoc.IH [OF u(1)] carrier_inv_step [OF _ u(2)] u(2) show ?case by (auto simp: carrier_step_def split: if_splits)
qed

lemma carrier_fold_defined:
  "list_all overlap_scalar ts \<Longrightarrow> \<exists>s'. foldE (carrier_step L) ts s = Inr s'"
  by (induction ts arbitrary: s) (auto simp: carrier_step_def Let_def)

text \<open>An alternative every other one fits into.\<close>

definition dominates :: "data_layout \<Rightarrow> lty list \<Rightarrow> lty \<Rightarrow> bool" where
  "dominates L ts c \<longleftrightarrow>
     c \<in> set ts \<and> (\<forall>t \<in> set ts. getABITypeAlign L t \<le> getABITypeAlign L c \<and> getTypeAllocSize L t \<le> getTypeAllocSize L c)"

lemma selectOverlapCarrier_Inr:
  assumes "selectOverlapCarrier ts L = Inr c"
  shows "dominates L ts c \<and> list_all overlap_scalar ts \<and> ts \<noteq> [] \<and> length ts \<le> 64"
proof -
  from assms obtain s where s: "foldE (carrier_step L) ts
      \<lparr>ca_carrier = None, ca_maximumSize = 0, ca_carrierSize = 0, ca_maximumAlignment = 1\<rparr> = Inr s"
    and e: "ca_carrierSize s = ca_maximumSize s" "c = the (ca_carrier s)" and n: "ts \<noteq> []" "length ts \<le> 64"
    by (auto simp: selectOverlapCarrier_def bindE_Inr_iff not_less split: if_splits)
  from carrier_fold [OF s] n e show ?thesis by (auto simp: carrier_inv_def dominates_def)
qed

lemma selectOverlapCarrier_defined:
  assumes "dominates L ts d" "list_all overlap_scalar ts" "length ts \<le> 64"
  shows "\<exists>c. selectOverlapCarrier ts L = Inr c"
proof -
  from carrier_fold_defined [OF assms(2)] obtain s where s: "foldE (carrier_step L) ts
      \<lparr>ca_carrier = None, ca_maximumSize = 0, ca_carrierSize = 0, ca_maximumAlignment = 1\<rparr> = Inr s" by blast
  have n: "ts \<noteq> []" using assms(1) by (auto simp: dominates_def)
  from carrier_fold [OF s] n obtain c where c: "c \<in> set ts" "ca_carrierSize s = getTypeAllocSize L c"
    "getABITypeAlign L d < getABITypeAlign L c \<or>
       (getABITypeAlign L d = getABITypeAlign L c \<and> getTypeAllocSize L d \<le> getTypeAllocSize L c)"
    "\<exists>t \<in> set ts. getTypeAllocSize L t = ca_maximumSize s"
    using assms(1) by (auto simp: carrier_inv_def dominates_def)
  have "getABITypeAlign L c \<le> getABITypeAlign L d" using assms(1) c(1) by (simp add: dominates_def)
  with c(3) have "getTypeAllocSize L d \<le> getTypeAllocSize L c" by simp
  moreover have "ca_maximumSize s \<le> getTypeAllocSize L d" using c(4) assms(1) by (auto simp: dominates_def)
  moreover have "getTypeAllocSize L c \<le> ca_maximumSize s"
    using carrier_fold [OF s] n c(1) by (auto simp: carrier_inv_def)
  ultimately have "ca_carrierSize s = ca_maximumSize s" using c(2) by simp
  with s n assms(3) show ?thesis by (simp add: selectOverlapCarrier_def)
qed

section \<open>Merged overlaps\<close>

lemma list_all2_hd: "xs \<noteq> [] \<Longrightarrow> P (hd xs) y \<Longrightarrow> list_all2 P (tl xs) ys \<Longrightarrow> list_all2 P xs (y # ys)"
  by (cases xs) auto

lemma merge_alternatives_projections:
  "merge_alternatives mt lt rt left right = Inr merged \<Longrightarrow> lt \<noteq> rt \<Longrightarrow>
   list_all2 (\<lambda>a (t, ids). \<exists>b. mt (oa_type a) b = Some t) left (filter (\<lambda>(t, ids). lt \<in> set ids) merged) \<and>
   list_all2 (\<lambda>b (t, ids). \<exists>a. mt a (oa_type b) = Some t) right (filter (\<lambda>(t, ids). rt \<in> set ids) merged)"
proof (induction mt lt rt left right arbitrary: merged rule: merge_alternatives.induct)
  case (1 mt lt rt left right)
  show ?case
  proof (cases "left = [] \<and> right = []")
    case True
    with "1.prems" have "merged = []" by (simp add: merge_alternatives.simps [of _ _ _ "[]"])
    with True show ?thesis by simp
  next
    case ne: False
    let ?a = "hd left" and ?b = "hd right"
    let ?common = "left \<noteq> [] \<and> right \<noteq> [] \<and> oa_privateName ?a = oa_privateName ?b"
    let ?onlyLeft = "left \<noteq> [] \<and> \<not> appears right (oa_privateName ?a)"
    let ?onlyRight = "right \<noteq> [] \<and> \<not> appears left (oa_privateName ?b)"
    let ?type = "if ?common then mt (oa_type ?a) (oa_type ?b)
                 else if ?onlyLeft then mt (oa_type ?a) (oa_type ?a) else mt (oa_type ?b) (oa_type ?b)"
    let ?ids = "if ?common \<or> ?onlyLeft then [lt] else []"
    let ?ids' = "if (?common \<or> \<not> ?onlyLeft) \<and> rt \<notin> set ?ids then ?ids @ [rt] else ?ids"
    let ?left = "if ?common \<or> ?onlyLeft then tl left else left"
    let ?right = "if ?common \<or> \<not> ?onlyLeft then tl right else right"
    note run = "1.prems"(1) [unfolded merge_alternatives.simps [of mt lt rt left right] Let_def]
    from run ne have some: "\<not> (\<not> ?common \<and> \<not> ?onlyLeft \<and> \<not> ?onlyRight)" by (auto split: if_splits)
    from run ne some obtain t rest where t: "?type = Some t" and rest: "merge_alternatives mt lt rt ?left ?right = Inr rest"
      and merged: "merged = (t, ?ids') # rest"
      by (auto simp: bindE_Inr_iff split: option.splits)
    from "1.IH" [OF ne refl refl refl refl refl some t refl refl rest "1.prems"(2)] have
      l: "list_all2 (\<lambda>a (t, ids). \<exists>b. mt (oa_type a) b = Some t) ?left (filter (\<lambda>(t, ids). lt \<in> set ids) rest)" and
      r: "list_all2 (\<lambda>b (t, ids). \<exists>a. mt a (oa_type b) = Some t) ?right (filter (\<lambda>(t, ids). rt \<in> set ids) rest)"
      by simp_all
    note lr = "1.prems"(2)
    show ?thesis
    proof (cases ?common)
      case True
      with t l r lr show ?thesis by (auto simp: merged intro!: list_all2_hd)
    next
      case nc: False
      show ?thesis
      proof (cases ?onlyLeft)
        case True
        then have "left \<noteq> []" "mt (oa_type ?a) (oa_type ?a) = Some t" using t nc by (auto split: if_splits)
        then show ?thesis using l r nc True lr by (auto simp: merged intro!: list_all2_hd)
      next
        case False
        then have "right \<noteq> []" "mt (oa_type ?b) (oa_type ?b) = Some t" using t nc some by (auto split: if_splits)
        then show ?thesis using l r nc False lr by (auto simp: merged intro!: list_all2_hd)
      qed
    qed
  qed
qed

lemma containsTarget_targetSet: "containsTarget (Some (targetSet ids)) target \<longleftrightarrow> target \<in> set ids"
  by (auto simp: containsTarget_def targetSet_def list_ex_iff)

text \<open>The alternatives kept for a target, specialized one by one.\<close>

lemma specialize_merged_side:
  assumes "list_all2 (\<lambda>a (t, ids). specializeType t info = Inr (f a)) side (filter (\<lambda>(t, ids). target_id info \<in> set ids) merged)"
    and "side \<noteq> []"
  shows "specializeType (OverlapT identity (map fst merged) (map (\<lambda>(t, ids). targetSet ids) merged)) info =
    Inr (OverlapT identity (map f side) (map (\<lambda>_. targetSet [target_id info]) side))"
proof -
  have "zip (map fst merged) (map (\<lambda>(t, ids). targetSet ids) merged) = map (\<lambda>(t, ids). (t, targetSet ids)) merged"
    by (induction merged) auto
  then have "filter (\<lambda>(a, d). containsTarget (Some d) (target_id info)) (zip (map fst merged) (map (\<lambda>(t, ids). targetSet ids) merged)) =
      map (\<lambda>(t, ids). (t, targetSet ids)) (filter (\<lambda>(t, ids). target_id info \<in> set ids) merged)"
    by (simp add: filter_map comp_def case_prod_unfold containsTarget_targetSet)
  moreover have "mapE (\<lambda>(a, d). specializeType a info)
      (map (\<lambda>(t, ids). (t, targetSet ids)) (filter (\<lambda>(t, ids). target_id info \<in> set ids) merged)) = Inr (map f side)"
    using assms(1) by (auto simp: mapE_Inr_iff list_all2_conv_all_nth case_prod_unfold)
  moreover have "map f side \<noteq> []" using assms(2) by simp
  ultimately show ?thesis
    by (simp add: specializeType.simps [of "OverlapT identity (map fst merged) (map (\<lambda>(t, ids). targetSet ids) merged)"])
qed

text \<open>
  The type merge the caller supplies is resolved by specialization: to the left target's type of its first
  argument and to the right target's type of its second.
\<close>

definition resolves :: "(lty \<Rightarrow> lty \<Rightarrow> sty option) \<Rightarrow> TargetInfo \<Rightarrow> (lty \<Rightarrow> sty) \<Rightarrow> TargetInfo \<Rightarrow> (lty \<Rightarrow> sty) \<Rightarrow> bool" where
  "resolves mt li fl ri fr \<longleftrightarrow>
     (\<forall>a b t. mt a b = Some t \<longrightarrow> specializeType t li = Inr (fl a) \<and> specializeType t ri = Inr (fr b))"

lemma merged_overlap_specializes:
  assumes "mergeNativeOverlap mt left right identity (target_id li) (target_id ri) = Inr merged"
    and "target_id li \<noteq> target_id ri" "left \<noteq> []" "right \<noteq> []" "resolves mt li fl ri fr"
  shows "specializeType merged li =
      Inr (OverlapT identity (map (fl \<circ> oa_type) left) (map (\<lambda>_. targetSet [target_id li]) left)) \<and>
    specializeType merged ri =
      Inr (OverlapT identity (map (fr \<circ> oa_type) right) (map (\<lambda>_. targetSet [target_id ri]) right))"
proof -
  from assms(1) obtain ms where m: "merge_alternatives mt (target_id li) (target_id ri) left right = Inr ms"
    and merged: "merged = OverlapT identity (map fst ms) (map (\<lambda>(t, ids). targetSet ids) ms)"
    by (auto simp: mergeNativeOverlap_def bindE_Inr_iff)
  note proj = merge_alternatives_projections [OF m assms(2)]
  have "list_all2 (\<lambda>a (t, ids). specializeType t li = Inr ((fl \<circ> oa_type) a)) left (filter (\<lambda>(t, ids). target_id li \<in> set ids) ms)"
    by (rule list_all2_mono [OF conjunct1 [OF proj]]) (use assms(5) in \<open>auto simp: resolves_def\<close>)
  moreover have "list_all2 (\<lambda>a (t, ids). specializeType t ri = Inr ((fr \<circ> oa_type) a)) right (filter (\<lambda>(t, ids). target_id ri \<in> set ids) ms)"
    by (rule list_all2_mono [OF conjunct2 [OF proj]]) (use assms(5) in \<open>auto simp: resolves_def\<close>)
  ultimately show ?thesis
    using specialize_merged_side [OF _ assms(3)] specialize_merged_side [OF _ assms(4)] by (simp add: merged)
qed

end
