(* ===== verification/Compilation_Unit.thy ===== *)
theory Compilation_Unit
  imports Specialization Schema
begin

text \<open>
  Lowering a group of fragments as one translation unit (CompilationUnits.cpp): every fragment is specialized
  to the target, its definitions are merged by symbol identity, and the combined module is lowered once.
  Reading a fragment, the native lowering, its verification and the output file are parameters; the symbol
  table maps an identity to the position of its operation.
\<close>

record unit_state =
  un_attrs :: "dict option"
  un_flags :: "attr list"
  un_body :: "op list"
  un_symbols :: "(string \<times> nat) list"

definition is_declaration :: "op \<Rightarrow> bool" where
  "is_declaration x = (op_get as_bool x ''declaration'' = Some True)"

definition symbol_identity :: "op \<Rightarrow> string option" where
  "symbol_identity x = op_get as_string x ''id''"

definition native_attributes :: "string list" where
  "native_attributes = [''type'', ''element'', ''native_abi'', ''variadic'']"

definition add_operation :: "op \<Rightarrow> unit_state \<Rightarrow> unit_state expected" where
  "add_operation x s =
     (case symbol_identity x of
        None \<Rightarrow> Inl ''fragment definition has no explicit symbol identity''
      | Some i \<Rightarrow>
          (case map_of (un_symbols s) i of
             None \<Rightarrow> Inr (s\<lparr>un_body := un_body s @ [x], un_symbols := (i, length (un_body s)) # un_symbols s\<rparr>)
           | Some k \<Rightarrow>
               let previous = un_body s ! k in
               if op_name previous \<noteq> op_name x \<or> (\<not> is_declaration previous \<and> \<not> is_declaration x)
               then Inl ''fragment group has conflicting or duplicate native definitions''
               else if list_ex (\<lambda>a. op_attr previous a \<noteq> op_attr x a) native_attributes
               then Inl ''fragment symbol declarations have incompatible native types''
               else if is_declaration previous \<and> is_declaration x
               then (if op_attrs previous \<noteq> op_attrs x then Inl ''fragment group has inconsistent symbol declarations''
                     else Inr s)
               else if is_declaration previous then Inr (s\<lparr>un_body := (un_body s)[k := x]\<rparr>)
               else Inr s))"

definition add_flag :: "attr \<Rightarrow> attr list \<Rightarrow> attr list" where
  "add_flag flag flags = (if flag \<in> set flags then flags else flags @ [flag])"

definition add_fragment :: "op \<Rightarrow> unit_state \<Rightarrow> unit_state expected" where
  "add_fragment selected s =
     (let s = (case un_attrs s of None \<Rightarrow> s\<lparr>un_attrs := Some (op_attrs selected)\<rparr> | Some d \<Rightarrow> s);
          s = (case op_get as_array selected ''sela.module_flags'' of
                 None \<Rightarrow> s | Some flags \<Rightarrow> s\<lparr>un_flags := fold add_flag flags (un_flags s)\<rparr>) in
      foldE add_operation (body_ops selected) s)"

definition combine_fragments ::
  "(string \<Rightarrow> op expected) \<Rightarrow> (op \<Rightarrow> bool) \<Rightarrow> TargetInfo \<Rightarrow> string list \<Rightarrow> op expected" where
  "combine_fragments read verifies info paths =
     bindE (foldE (\<lambda>path s.
         bindE (read path) (\<lambda>source.
         bindE (specializeDomains verifies source info) (\<lambda>selected. add_fragment selected s)))
       paths \<lparr>un_attrs = None, un_flags = [], un_body = [], un_symbols = []\<rparr>) (\<lambda>s.
     Inr (module_op (dict_set ''sela.module_flags'' (ArrayA (un_flags s)) (the (un_attrs s))) (un_body s)))"

definition lowerCompilationUnit ::
  "llvm_api \<Rightarrow> (op \<Rightarrow> bool) \<Rightarrow> string list \<Rightarrow> (op \<Rightarrow> string \<Rightarrow> 'llvm expected) \<Rightarrow> ('llvm \<Rightarrow> bool) \<Rightarrow>
   ('llvm \<Rightarrow> unit expected) \<Rightarrow> (string \<Rightarrow> op expected) \<Rightarrow> string list \<Rightarrow> string \<Rightarrow> unit expected" where
  "lowerCompilationUnit api verifies linked backend wellformed output read paths profile =
     (case targets_find profile of
        None \<Rightarrow> Inl ''invalid Sela compilation-unit contract''
      | Some info \<Rightarrow>
          if paths = [] \<or> length paths > 512 then Inl ''invalid Sela compilation-unit contract''
          else
            bindE (combine_fragments read verifies info paths) (\<lambda>combined.
            bindE (lowerModule api verifies linked backend combined profile) (\<lambda>result.
            if \<not> wellformed result then Inl ''reconstructed Sela translation unit is invalid''
            else output result)))"

section \<open>One operation per symbol\<close>

text \<open>An operation of a fragment is represented by one of the unit: of its name and native type, and itself if it defines the symbol.\<close>

definition represented :: "op \<Rightarrow> op \<Rightarrow> bool" where
  "represented x y \<longleftrightarrow>
     op_name x = op_name y \<and> (\<forall>a \<in> set native_attributes. op_attr x a = op_attr y a) \<and>
     (\<not> is_declaration x \<longrightarrow> y = x) \<and> (is_declaration y \<longrightarrow> op_attrs x = op_attrs y)"

definition unit_inv :: "op list \<Rightarrow> unit_state \<Rightarrow> bool" where
  "unit_inv seen s \<longleftrightarrow>
     (\<forall>i k. map_of (un_symbols s) i = Some k \<longleftrightarrow> k < length (un_body s) \<and> symbol_identity (un_body s ! k) = Some i) \<and>
     (\<forall>y \<in> set (un_body s). symbol_identity y \<noteq> None) \<and>
     (\<forall>x \<in> set seen. \<exists>i k. symbol_identity x = Some i \<and> map_of (un_symbols s) i = Some k \<and> represented x (un_body s ! k)) \<and>
     set (un_body s) \<subseteq> set seen"

lemma unit_inv_new:
  assumes inv: "unit_inv seen s" and x: "symbol_identity x = Some i" "map_of (un_symbols s) i = None"
  shows "unit_inv (seen @ [x]) (s\<lparr>un_body := un_body s @ [x], un_symbols := (i, length (un_body s)) # un_symbols s\<rparr>)"
proof -
  let ?n = "length (un_body s)"
  have tab: "map_of (un_symbols s) j = Some k \<longleftrightarrow> k < ?n \<and> symbol_identity (un_body s ! k) = Some j" for j k
    using inv by (simp add: unit_inv_def)
  have "symbol_identity (un_body s ! k) \<noteq> Some i" if "k < ?n" for k using tab [of i k] that x(2) by auto
  then have "map_of ((i, ?n) # un_symbols s) j = Some k \<longleftrightarrow>
      k < length (un_body s @ [x]) \<and> symbol_identity ((un_body s @ [x]) ! k) = Some j" for j k
    using tab [of j k] x(1) by (cases "k < ?n") (auto simp: nth_append less_Suc_eq)
  moreover have "\<exists>j k. symbol_identity z = Some j \<and> map_of ((i, ?n) # un_symbols s) j = Some k \<and>
      represented z ((un_body s @ [x]) ! k)" if z: "z \<in> set (seen @ [x])" for z
  proof (cases "z \<in> set seen")
    case True
    then obtain j k where j: "symbol_identity z = Some j" "map_of (un_symbols s) j = Some k" "represented z (un_body s ! k)"
      using inv by (auto simp: unit_inv_def)
    from j(2) x(2) have "j \<noteq> i" by auto
    moreover have "k < ?n" using tab [of j k] j(2) by simp
    ultimately show ?thesis using j by (auto simp: nth_append)
  next
    case False
    with z x(1) show ?thesis by (auto simp: represented_def)
  qed
  ultimately show ?thesis using inv x(1) by (auto simp: unit_inv_def)
qed

lemma unit_inv_same:
  assumes inv: "unit_inv seen s" and x: "symbol_identity x = Some i" "map_of (un_symbols s) i = Some k"
    "represented x (un_body s ! k)"
  shows "unit_inv (seen @ [x]) s"
  using assms by (auto simp: unit_inv_def)

lemma unit_inv_replace:
  assumes inv: "unit_inv seen s" and x: "symbol_identity x = Some i" "map_of (un_symbols s) i = Some k"
    and same: "op_name (un_body s ! k) = op_name x" "\<forall>a \<in> set native_attributes. op_attr (un_body s ! k) a = op_attr x a"
    and d: "is_declaration (un_body s ! k)" "\<not> is_declaration x"
  shows "unit_inv (seen @ [x]) (s\<lparr>un_body := (un_body s)[k := x]\<rparr>)"
proof -
  have tab: "map_of (un_symbols s) j = Some l \<longleftrightarrow> l < length (un_body s) \<and> symbol_identity (un_body s ! l) = Some j" for j l
    using inv by (simp add: unit_inv_def)
  from tab [of i k] x have k: "k < length (un_body s)" "symbol_identity (un_body s ! k) = Some i" by auto
  have "map_of (un_symbols s) j = Some l \<longleftrightarrow>
      l < length ((un_body s)[k := x]) \<and> symbol_identity ((un_body s)[k := x] ! l) = Some j" for j l
    using tab [of j l] k x(1) by (cases "l = k") auto
  moreover have "\<exists>j l. symbol_identity z = Some j \<and> map_of (un_symbols s) j = Some l \<and> represented z ((un_body s)[k := x] ! l)"
    if z: "z \<in> set (seen @ [x])" for z
  proof (cases "z \<in> set seen")
    case True
    then obtain j l where j: "symbol_identity z = Some j" "map_of (un_symbols s) j = Some l" "represented z (un_body s ! l)"
      using inv by (auto simp: unit_inv_def)
    have "represented z ((un_body s)[k := x] ! l)"
      using j(3) same d k(1) by (cases "l = k") (auto simp: represented_def)
    with j show ?thesis by blast
  next
    case False
    with z have "z = x" by simp
    with x k show ?thesis by (auto simp: represented_def)
  qed
  moreover have "set ((un_body s)[k := x]) \<subseteq> set (seen @ [x])"
    using inv set_update_subset_insert [of "un_body s" k x] by (auto simp: unit_inv_def)
  moreover have "\<forall>y \<in> set ((un_body s)[k := x]). symbol_identity y \<noteq> None"
    using inv set_update_subset_insert [of "un_body s" k x] x(1) by (auto simp: unit_inv_def)
  ultimately show ?thesis by (simp add: unit_inv_def)
qed

lemma add_operation_inv:
  assumes run: "add_operation x s = Inr s'" and inv: "unit_inv seen s"
  shows "unit_inv (seen @ [x]) s'"
proof -
  from run obtain i where i: "symbol_identity x = Some i" by (auto simp: add_operation_def split: option.splits)
  show ?thesis
  proof (cases "map_of (un_symbols s) i")
    case None
    with run i unit_inv_new [OF inv i None] show ?thesis by (auto simp: add_operation_def)
  next
    case (Some k)
    let ?p = "un_body s ! k"
    from run i Some have same: "op_name ?p = op_name x" "is_declaration ?p \<or> is_declaration x"
      "\<forall>a \<in> set native_attributes. op_attr ?p a = op_attr x a"
      by (auto simp: add_operation_def Let_def list_ex_iff split: if_splits)
    show ?thesis
    proof (cases "is_declaration ?p \<and> \<not> is_declaration x")
      case True
      with run i Some same have "s' = s\<lparr>un_body := (un_body s)[k := x]\<rparr>"
        by (auto simp: add_operation_def Let_def list_ex_iff split: if_splits)
      with unit_inv_replace [OF inv i Some] same True show ?thesis by simp
    next
      case False
      with run i Some same have "s' = s" "is_declaration ?p \<longrightarrow> op_attrs ?p = op_attrs x"
        by (auto simp: add_operation_def Let_def list_ex_iff split: if_splits)
      moreover from this False same have "represented x ?p" by (auto simp: represented_def)
      ultimately show ?thesis using unit_inv_same [OF inv i Some] by simp
    qed
  qed
qed

lemma add_operations_inv:
  "foldE add_operation xs s = Inr s' \<Longrightarrow> unit_inv seen s \<Longrightarrow> unit_inv (seen @ xs) s'"
proof (induction xs arbitrary: seen s)
  case (Cons x xs)
  from Cons.prems(1) obtain t where t: "add_operation x s = Inr t" "foldE add_operation xs t = Inr s'"
    by (rule foldE_Cons_InrE)
  from Cons.IH [OF t(2) add_operation_inv [OF t(1) Cons.prems(2)]] show ?case by simp
qed simp

lemma unit_inv_congr: "un_body s = un_body t \<Longrightarrow> un_symbols s = un_symbols t \<Longrightarrow> unit_inv seen s = unit_inv seen t"
  by (simp add: unit_inv_def)

lemma add_fragment_inv:
  assumes "add_fragment selected s = Inr s'" "unit_inv seen s"
  shows "unit_inv (seen @ body_ops selected) s'"
proof -
  from assms(1) obtain t where t: "foldE add_operation (body_ops selected) t = Inr s'"
    "un_body t = un_body s" "un_symbols t = un_symbols s"
    by (auto simp: add_fragment_def Let_def split: option.splits)
  from add_operations_inv [OF t(1)] assms(2) unit_inv_congr [OF t(2,3)] show ?thesis by blast
qed

text \<open>The specialized fragments of a successful combination, and what the unit holds of them.\<close>

lemma combine_fragments_Inr:
  assumes "combine_fragments read verifies info paths = Inr unit'"
  shows "\<exists>modules. list_all2 (\<lambda>path m. \<exists>source. read path = Inr source \<and> specializeDomains verifies source info = Inr m) paths modules \<and>
    (\<exists>s. body_ops unit' = un_body s \<and> unit_inv (concat (map body_ops modules)) s)"
proof -
  let ?step = "\<lambda>path s. bindE (read path) (\<lambda>source.
      bindE (specializeDomains verifies source info) (\<lambda>selected. add_fragment selected s))"
  let ?start = "\<lparr>un_attrs = None, un_flags = [], un_body = [], un_symbols = []\<rparr>"
  have inv: "foldE ?step ps ?start = Inr s \<Longrightarrow>
      \<exists>modules. list_all2 (\<lambda>path m. \<exists>source. read path = Inr source \<and> specializeDomains verifies source info = Inr m) ps modules \<and>
        unit_inv (concat (map body_ops modules)) s" for ps s
  proof (induction ps arbitrary: s rule: rev_induct)
    case Nil
    then show ?case by (auto simp: unit_inv_def)
  next
    case (snoc p ps)
    from snoc.prems obtain t source m where t: "foldE ?step ps ?start = Inr t" "read p = Inr source"
      "specializeDomains verifies source info = Inr m" "add_fragment m t = Inr s"
      by (auto simp: foldE_append bindE_Inr_iff)
    from snoc.IH [OF t(1)] obtain modules where
      "list_all2 (\<lambda>path m. \<exists>source. read path = Inr source \<and> specializeDomains verifies source info = Inr m) ps modules"
      "unit_inv (concat (map body_ops modules)) t" by blast
    with add_fragment_inv [OF t(4)] t(2,3) show ?case
      by (intro exI [of _ "modules @ [m]"]) (auto intro: list_all2_appendI)
  qed
  from assms obtain s where "foldE ?step paths ?start = Inr s" "body_ops unit' = un_body s"
    by (auto simp: combine_fragments_def bindE_Inr_iff)
  with inv show ?thesis by blast
qed

text \<open>The invariant, without the table: the symbols are distinct and every operation has its representative.\<close>

lemma unit_inv_symbols:
  assumes "unit_inv seen s"
  shows "distinct (map symbol_identity (un_body s)) \<and> set (un_body s) \<subseteq> set seen \<and>
    (\<forall>x \<in> set seen. \<exists>y \<in> set (un_body s). symbol_identity y = symbol_identity x \<and> symbol_identity x \<noteq> None \<and> represented x y)"
proof -
  have tab: "map_of (un_symbols s) j = Some l \<longleftrightarrow> l < length (un_body s) \<and> symbol_identity (un_body s ! l) = Some j" for j l
    using assms by (simp add: unit_inv_def)
  have "distinct (map symbol_identity (un_body s))"
    unfolding distinct_conv_nth
  proof (intro allI impI)
    fix k l assume kl: "k < length (map symbol_identity (un_body s))" "l < length (map symbol_identity (un_body s))" "k \<noteq> l"
    then have "un_body s ! k \<in> set (un_body s)" by simp
    then obtain i where i: "symbol_identity (un_body s ! k) = Some i"
      using assms unfolding unit_inv_def by blast
    show "map symbol_identity (un_body s) ! k \<noteq> map symbol_identity (un_body s) ! l"
    proof
      assume "map symbol_identity (un_body s) ! k = map symbol_identity (un_body s) ! l"
      then have "symbol_identity (un_body s ! l) = Some i" using kl i by simp
      then have "map_of (un_symbols s) i = Some k" "map_of (un_symbols s) i = Some l" using tab i kl by auto
      with kl(3) show False by simp
    qed
  qed
  moreover have "\<exists>y \<in> set (un_body s). symbol_identity y = symbol_identity x \<and> symbol_identity x \<noteq> None \<and> represented x y"
    if "x \<in> set seen" for x
  proof -
    from assms that obtain i k where "symbol_identity x = Some i" "map_of (un_symbols s) i = Some k" "represented x (un_body s ! k)"
      by (auto simp: unit_inv_def)
    with tab [of i k] show ?thesis by (intro bexI [of _ "un_body s ! k"]) auto
  qed
  ultimately show ?thesis using assms by (auto simp: unit_inv_def)
qed

end
