(* ===== verification/Publication_Link.thy ===== *)
theory Publication_Link
  imports Artifact_Facts
begin

text \<open>
  The publication linker (LinkMain.cpp): its arguments, the gathering of relocatable packages into one module
  inventory and compilation plan, and the artifact it creates. The file system, the archive library, the
  tokenizer of response files and the admission of a module are the parameter \<open>link_host\<close>; a dereference the
  code does not guard is the error \<open>undefined_access\<close>.
\<close>

section \<open>The host\<close>

datatype file_comparison = SameFile | DifferentFile | NoSuchFile | CompareError string

record link_host =
  lh_codec :: codec
  lh_environment :: "string option"
  lh_read :: "string \<Rightarrow> nat \<Rightarrow> string expected"
  lh_tokenize :: "string \<Rightarrow> string list"
  lh_canonical :: "string \<Rightarrow> string"
  lh_equivalent :: "string \<Rightarrow> string \<Rightarrow> file_comparison"
  lh_archive :: "string \<Rightarrow> archive_entry list \<times> string option"
  lh_stage :: "string \<Rightarrow> unit expected"
  lh_inspect :: "string \<Rightarrow> string list \<Rightarrow> unit expected"
  lh_scratch :: "unit expected"
  lh_emit :: "string \<Rightarrow> package_files \<Rightarrow> unit expected"

definition undefined_access :: "string" where
  "undefined_access = ''undefined access''"

definition deref :: "'a option \<Rightarrow> 'a expected" where
  "deref x = (case x of None \<Rightarrow> Inl undefined_access | Some y \<Rightarrow> Inr y)"

lemma deref_Inr [simp]: "deref x = Inr y \<longleftrightarrow> x = Some y"
  by (cases x) (auto simp: deref_def)

definition rejectInputAlias :: "link_host \<Rightarrow> string \<Rightarrow> string \<Rightarrow> unit expected" where
  "rejectInputAlias h input output =
     (let source = lh_canonical h input; destination = lh_canonical h output in
      if source = destination then Inl ''publication output must not overwrite an input''
      else
        (case lh_equivalent h source destination of
           SameFile \<Rightarrow> Inl ''publication output must not overwrite an input''
         | CompareError message \<Rightarrow> Inl (''cannot compare publication input/output file identities: '' @ message)
         | _ \<Rightarrow> Inr ()))"

section \<open>Response files\<close>

function expand :: "link_host \<Rightarrow> string list \<Rightarrow> string list \<Rightarrow> nat \<Rightarrow> string list expected" where
  "expand h input output depth =
     (if depth > 8 then Inl ''publication linker response-file nesting limit exceeded''
      else
        (case input of
           [] \<Rightarrow> Inr output
         | arg # rest \<Rightarrow>
             if length output > 65536 then Inl ''too many linker arguments''
             else if length arg > 1 \<and> hd arg = CHR ''@'' then
               bindE (lh_read h (tl arg) (1024 * 1024)) (\<lambda>bytes.
               bindE (expand h (lh_tokenize h bytes) output (depth + 1)) (\<lambda>output.
               expand h rest output depth))
             else expand h rest (output @ [arg]) depth))"
  by pat_completeness auto

termination
  by (relation "(\<lambda>(h, input, output, depth). 9 - depth) <*mlex*> measure (\<lambda>(h, input, output, depth). length input)")
    (auto simp: mlex_prod_def)

declare expand.simps [simp del]

section \<open>Arguments\<close>

record link_request =
  lr_output :: string
  lr_kind :: string
  lr_inputs :: "string list"
  lr_libraries :: "string list"
  lr_linkOptions :: "string list"
  lr_archiveNames :: "string list"
  lr_unitOrders :: "(string, nat list) smap"
  lr_inputDomains :: "(nat, string list) smap"
  lr_targetLinks :: LinkPlan
  lr_versionScript :: string
  lr_interpreter :: string
  lr_emulation :: string
  lr_bothHashStyles :: bool

definition initial_request :: link_request where
  "initial_request =
     \<lparr>lr_output = ''a.out'', lr_kind = ''executable'', lr_inputs = [], lr_libraries = [], lr_linkOptions = [],
      lr_archiveNames = [], lr_unitOrders = [], lr_inputDomains = [], lr_targetLinks = [], lr_versionScript = [],
      lr_interpreter = [], lr_emulation = ''elf_x86_64'', lr_bothHashStyles = False\<rparr>"

definition valued_options :: "string list" where
  "valued_options = [''-o'', ''-m'', ''-z'', ''-dynamic-linker'', ''--dynamic-linker'', ''-L'', ''-soname'', ''--soname'',
     ''--version-script'']"

definition read_version_script :: "link_host \<Rightarrow> string \<Rightarrow> link_request \<Rightarrow> link_request expected" where
  "read_version_script h path r =
     (if lr_versionScript r \<noteq> [] then Inl ''multiple version scripts are not qualified''
      else bindE (lh_read h path 65536) (\<lambda>contents. Inr (r\<lparr>lr_versionScript := contents\<rparr>)))"

definition valued_arg :: "link_host \<Rightarrow> string \<Rightarrow> string \<Rightarrow> link_request \<Rightarrow> link_request expected" where
  "valued_arg h arg v r =
     (if arg = ''-o'' then Inr (r\<lparr>lr_output := v\<rparr>)
      else if arg = ''-m'' then
        (if \<not> list_ex (\<lambda>t. lldEmulation t = v) all_targets then Inl ''unsupported linker emulation''
         else Inr (r\<lparr>lr_emulation := v\<rparr>))
      else if arg = ''-dynamic-linker'' \<or> arg = ''--dynamic-linker'' then Inr (r\<lparr>lr_interpreter := v\<rparr>)
      else if arg = ''-z'' \<and> v \<noteq> ''relro'' \<and> v \<noteq> ''now'' then Inl (''unqualified native link setting: -z '' @ v)
      else if arg = ''-soname'' \<or> arg = ''--soname'' then Inr (r\<lparr>lr_linkOptions := lr_linkOptions r @ [''-soname='' @ v]\<rparr>)
      else if arg = ''--version-script'' then read_version_script h v r
      else Inr r)"

definition consume_front :: "string \<Rightarrow> string \<Rightarrow> string option" where
  "consume_front prefix text = (if starts_with prefix text then Some (drop (length prefix) text) else None)"

text \<open>\<open>StringRef::split(c)\<close>: at the first separator; without one the second part is empty.\<close>

fun split_first :: "char \<Rightarrow> string \<Rightarrow> string \<times> string" where
  "split_first c [] = ([], [])"
| "split_first c (x # xs) = (if x = c then ([], xs) else (x # fst (split_first c xs), snd (split_first c xs)))"

text \<open>\<open>getAsInteger(10, unsigned)\<close> succeeds on decimal digits within 32 bits.\<close>

definition as_unsigned :: "string \<Rightarrow> nat option" where
  "as_unsigned text =
     (if text \<noteq> [] \<and> list_all (in_range CHR ''0'' CHR ''9'') text \<and> of_digits text < 2 ^ 32
      then Some (of_digits text) else None)"

subsection \<open>Target link settings\<close>

fun target_options :: "json list \<Rightarrow> string list \<Rightarrow> string list expected" where
  "target_options [] options = Inr options"
| "target_options (v # vs) options =
     (case getAsString v of
        None \<Rightarrow> Inl ''invalid target link option''
      | Some option \<Rightarrow>
          if option = ''-soname'' then
            (case vs of
               [] \<Rightarrow> Inl ''missing target soname''
             | w # ws \<Rightarrow>
                 (case getAsString w of
                    None \<Rightarrow> Inl ''missing target soname''
                  | Some name \<Rightarrow> target_options ws (options @ [''-soname='' @ name])))
          else target_options vs (options @ [option]))"

definition target_link :: "string \<times> json \<Rightarrow> LinkPlan \<Rightarrow> LinkPlan expected" where
  "target_link entry plan =
     (case entry of (target, value) \<Rightarrow>
        (case getAsObject value of
           None \<Rightarrow> Inl ''invalid native target link record''
         | Some record \<Rightarrow>
             if targets_find target = None \<or> length record \<noteq> 3 then Inl ''invalid native target link record''
             else
               (case (getArray record ''libraries'', getArray record ''link_options'', getString record ''version_script'') of
                  (Some libraries, Some options, Some script) \<Rightarrow>
                    let link = (case smap_at plan target of None \<Rightarrow> empty_link | Some l \<Rightarrow> l) in
                    bindE (mapE (\<lambda>l. case getAsString l of None \<Rightarrow> Inl ''invalid target library declaration''
                                                       | Some name \<Rightarrow> Inr name) libraries) (\<lambda>names.
                    bindE (target_options options (al_options link)) (\<lambda>opts.
                    Inr (smap_put target \<lparr>al_libraries = al_libraries link @ names, al_options = opts,
                                          al_versionScript = script\<rparr> plan)))
                | _ \<Rightarrow> Inl ''invalid native target link record'')))"

definition target_links_arg :: "link_host \<Rightarrow> string \<Rightarrow> link_request \<Rightarrow> link_request expected" where
  "target_links_arg h path r =
     (if lr_targetLinks r \<noteq> [] then Inl ''duplicate native target link settings''
      else
        bindE (lh_read h path (1024 * 1024)) (\<lambda>contents.
        bindE (json_parse (lh_codec h) contents) (\<lambda>parsed.
        (case getAsObject parsed of
           None \<Rightarrow> Inl ''invalid native target link settings''
         | Some records \<Rightarrow>
             if records = [] then Inl ''invalid native target link settings''
             else bindE (foldE target_link records []) (\<lambda>links. Inr (r\<lparr>lr_targetLinks := links\<rparr>))))))"

subsection \<open>Scopes and orders\<close>

definition input_domain_arg :: "string \<Rightarrow> link_request \<Rightarrow> link_request expected" where
  "input_domain_arg text r =
     (case split_first CHR '':'' text of (indexText, ids) \<Rightarrow>
        (case as_unsigned indexText of
           None \<Rightarrow> Inl ''invalid or duplicate target-scoped input index''
         | Some index \<Rightarrow>
             if smap_at (lr_inputDomains r) index \<noteq> None then Inl ''invalid or duplicate target-scoped input index''
             else bindE (parseTargetSelection ids) (\<lambda>domain.
               Inr (r\<lparr>lr_inputDomains := smap_put index domain (lr_inputDomains r)\<rparr>))))"

definition unit_order_arg :: "string \<Rightarrow> link_request \<Rightarrow> link_request expected" where
  "unit_order_arg text r =
     (case split_first CHR '':'' text of (target, order) \<Rightarrow>
        if targets_find target = None \<or> smap_at (lr_unitOrders r) target \<noteq> None
        then Inl ''unsupported or duplicate target native-unit permutation''
        else if order = [] \<or> length order > 4096 then Inl ''invalid target native-unit permutation''
        else if length (split_on CHR '','' order) > 512 then Inl ''oversized target native-unit permutation''
        else
          bindE (mapE (\<lambda>index. case as_unsigned index of None \<Rightarrow> Inl ''invalid target native-unit permutation index''
                                              | Some n \<Rightarrow> Inr n) (split_on CHR '','' order)) (\<lambda>permutation.
          Inr (r\<lparr>lr_unitOrders := smap_put target permutation (lr_unitOrders r)\<rparr>)))"

definition library_arg :: "string \<Rightarrow> link_request \<Rightarrow> link_request expected" where
  "library_arg name r =
     (if \<not> validLibrary name then Inl ''invalid declared native dependency''
      else Inr (r\<lparr>lr_libraries := lr_libraries r @ [name]\<rparr>))"

definition member_name_arg :: "string \<Rightarrow> link_request \<Rightarrow> link_request expected" where
  "member_name_arg name r =
     (if \<not> validArchiveMember name then Inl ''invalid static archive member name''
      else Inr (r\<lparr>lr_archiveNames := lr_archiveNames r @ [name]\<rparr>))"

subsection \<open>One argument\<close>

text \<open>The arguments without a separate value, after the scoped settings.\<close>

definition ordinary_arg :: "link_host \<Rightarrow> string \<Rightarrow> link_request \<Rightarrow> link_request expected" where
  "ordinary_arg h arg r =
     (if arg = ''--sela-static'' then Inr (r\<lparr>lr_kind := ''static''\<rparr>)
      else if starts_with ''--sela-member-name='' arg then member_name_arg (drop 19 arg) r
      else if arg = ''-shared'' then Inr (r\<lparr>lr_kind := ''shared''\<rparr>)
      else if arg = ''-r'' then Inr (r\<lparr>lr_kind := ''object''\<rparr>)
      else if arg = ''--export-dynamic'' \<or> arg = ''-export-dynamic'' \<or> arg = ''-E''
      then Inr (r\<lparr>lr_linkOptions := lr_linkOptions r @ [''--export-dynamic'']\<rparr>)
      else if arg = ''--hash-style=both'' \<or> arg = ''--hash-style=gnu''
      then Inr (r\<lparr>lr_bothHashStyles := (arg = ''--hash-style=both'')\<rparr>)
      else if arg = ''--undefined-version'' then Inr (r\<lparr>lr_linkOptions := lr_linkOptions r @ [arg]\<rparr>)
      else if arg = ''--as-needed''
      then Inl ''direct Sela linking cannot yet resolve --as-needed; use the paired native SDK build integration''
      else if arg = ''-pie'' \<or> arg = ''--eh-frame-hdr'' \<or> arg = ''--build-id'' \<or> arg = ''--no-as-needed'' then Inr r
      else if starts_with ''--dynamic-linker='' arg then Inr (r\<lparr>lr_interpreter := drop 17 arg\<rparr>)
      else if starts_with ''-L'' arg \<or> starts_with ''--sysroot='' arg then Inr r
      else if arg = ''-lc'' then Inr r
      else if starts_with ''-l'' arg then library_arg (drop 2 arg) r
      else if starts_with ''--version-script='' arg then read_version_script h (drop 17 arg) r
      else if starts_with ''-soname='' arg then Inr (r\<lparr>lr_linkOptions := lr_linkOptions r @ [arg]\<rparr>)
      else if arg \<noteq> [] \<and> \<not> starts_with ''-'' arg then Inr (r\<lparr>lr_inputs := lr_inputs r @ [arg]\<rparr>)
      else Inl (''unqualified publication link option: '' @ arg))"

definition plain_arg :: "link_host \<Rightarrow> string \<Rightarrow> link_request \<Rightarrow> link_request expected" where
  "plain_arg h arg r =
     (case consume_front ''--sela-target-links='' arg of
        Some path \<Rightarrow> target_links_arg h path r
      | None \<Rightarrow>
          (case consume_front ''--sela-input-domain='' arg of
             Some text \<Rightarrow> input_domain_arg text r
           | None \<Rightarrow>
               (case consume_front ''--sela-unit-order='' arg of
                  Some text \<Rightarrow> unit_order_arg text r
                | None \<Rightarrow> ordinary_arg h arg r)))"

fun link_args :: "link_host \<Rightarrow> string list \<Rightarrow> link_request \<Rightarrow> link_request expected" where
  "link_args h [] r = Inr r"
| "link_args h (arg # rest) r =
     (if arg \<in> set valued_options then
        (case rest of
           [] \<Rightarrow> Inl (''missing linker argument after '' @ arg)
         | v # rest' \<Rightarrow> bindE (valued_arg h arg v r) (\<lambda>r. link_args h rest' r))
      else bindE (plain_arg h arg r) (\<lambda>r. link_args h rest r))"

section \<open>Settings checked before any work\<close>

definition ordinaryLoader :: "string \<Rightarrow> string expected" where
  "ordinaryLoader emulation =
     bindE (deref (List.find (\<lambda>t. lldEmulation t = emulation) all_targets)) (\<lambda>t.
     Inr ((if target_id t = ''x86_64'' then ''/lib64/'' else ''/lib/'') @ loader t))"

definition check_target_settings :: "link_request \<Rightarrow> string list \<Rightarrow> string list \<Rightarrow> unit expected" where
  "check_target_settings r linkOptions targets =
     (if lr_targetLinks r = [] then Inr ()
      else if length (lr_targetLinks r) \<noteq> length targets \<or> lr_libraries r \<noteq> [] \<or> linkOptions \<noteq> [] \<or> lr_versionScript r \<noteq> []
      then Inl ''native target link settings require the exact selected targets and no common override''
      else forE (\<lambda>t. if smap_at (lr_targetLinks r) t = None then Inl ''missing native target link settings'' else Inr ()) targets)"

definition check_input_domain :: "link_request \<Rightarrow> string list \<Rightarrow> nat \<times> string list \<Rightarrow> unit expected" where
  "check_input_domain r targets scope =
     (case scope of (index, domain) \<Rightarrow>
        if index \<ge> length (lr_inputs r) then Inl ''target-scoped input index is outside link inventory''
        else forE (\<lambda>t. if t \<notin> set targets then Inl ''input scope is outside requested publication targets'' else Inr ()) domain)"

text \<open>The checks between the arguments and the first input; the result is the link options and the targets.\<close>

definition check_request :: "link_host \<Rightarrow> link_request \<Rightarrow> (string list \<times> string list) expected" where
  "check_request h r =
     bindE (ordinaryLoader (lr_emulation r)) (\<lambda>ordinary.
     if lr_interpreter r \<noteq> [] \<and> lr_interpreter r \<noteq> ordinary
     then Inl (''unqualified native dynamic interpreter '' @ lr_interpreter r)
     else
       let linkOptions = lr_linkOptions r @ (if lr_bothHashStyles r then [''--hash-style=both''] else []) in
       if lr_inputs r = [] \<and> lr_kind r \<noteq> ''static'' then Inl ''publication link has no Sela object inputs''
       else
         bindE (forE (\<lambda>input. rejectInputAlias h input (lr_output r)) (lr_inputs r)) (\<lambda>_.
         bindE (publicationTargets [] (lh_environment h)) (\<lambda>targets.
         bindE (check_target_settings r linkOptions targets) (\<lambda>_.
         bindE (forE (check_input_domain r targets) (lr_inputDomains r)) (\<lambda>_.
         if lr_archiveNames r \<noteq> [] \<and> (lr_kind r \<noteq> ''static'' \<or> length (lr_archiveNames r) \<noteq> length (lr_inputs r))
         then Inl ''archive member-name count does not match input members''
         else bindE (lh_scratch h) (\<lambda>_. Inr (linkOptions, targets)))))))"

section \<open>Gathering the inputs\<close>

record link_state =
  ls_modules :: "ArtifactModule list"
  ls_bytes :: nat
  ls_plan :: CompilationPlan
  ls_dependencies :: "(string, string list) smap"

definition module_limit :: nat where "module_limit = 510"

definition required_targets :: "link_request \<Rightarrow> string list \<Rightarrow> nat \<Rightarrow> string list" where
  "required_targets r targets inputIndex =
     (case smap_at (lr_inputDomains r) inputIndex of None \<Rightarrow> targets | Some domain \<Rightarrow> domain)"

definition add_dependencies :: "LinkPlan \<Rightarrow> string \<Rightarrow> link_state \<Rightarrow> link_state expected" where
  "add_dependencies dependencies target s =
     bindE (deref (smap_at dependencies target)) (\<lambda>source.
     Inr (s\<lparr>ls_dependencies := smap_put target
       ((case smap_at (ls_dependencies s) target of None \<Rightarrow> [] | Some l \<Rightarrow> l) @ al_libraries source) (ls_dependencies s)\<rparr>))"

text \<open>One module of an input; the indices give the position of every module in the joint inventory.\<close>

definition add_module ::
  "link_host \<Rightarrow> package_files \<Rightarrow> string list \<Rightarrow> json \<Rightarrow> nat option list \<times> link_state \<Rightarrow> (nat option list \<times> link_state) expected" where
  "add_module h files required entry st =
     (case st of (indices, s) \<Rightarrow>
        bindE (deref (getAsObject entry)) (\<lambda>record.
        bindE (deref (Option.bind (getArray record ''targets'') string_items)) (\<lambda>domain.
        let selected = filter (\<lambda>t. t \<in> set required) domain in
        bindE (deref (Option.bind (getString record ''path'') (smap_at files))) (\<lambda>bytes.
        if length (ls_modules s) \<ge> module_limit \<or> length bytes > 64 * 1024 * 1024 - ls_bytes s
        then Inl ''linked Sela artifact exceeds module or byte limits''
        else
          let s = s\<lparr>ls_bytes := ls_bytes s + length bytes\<rparr> in
          bindE (lh_stage h bytes) (\<lambda>_.
          bindE (lh_inspect h bytes domain) (\<lambda>_.
          if selected = [] then Inr (indices @ [None], s)
          else Inr (indices @ [Some (length (ls_modules s))],
                    s\<lparr>ls_modules := ls_modules s @ [\<lparr>am_bytecode = bytes, am_optimization = ''O2'', am_archiveMember = [],
                                                       am_targets = selected\<rparr>]\<rparr>)))))))"

definition remap_member :: "nat option list \<Rightarrow> nat \<Rightarrow> nat expected" where
  "remap_member indices index =
     (if index \<ge> length indices then Inl undefined_access
      else
        (case indices ! index of
           None \<Rightarrow> Inl ''active compilation unit references an inactive input fragment''
         | Some i \<Rightarrow> Inr i))"

definition plan_units_of :: "CompilationPlan \<Rightarrow> string \<Rightarrow> ArtifactUnit list" where
  "plan_units_of plan target = (case smap_at plan target of None \<Rightarrow> [] | Some us \<Rightarrow> us)"

definition add_unit ::
  "link_request \<Rightarrow> nat \<Rightarrow> nat option list \<Rightarrow> string \<Rightarrow> ArtifactUnit \<Rightarrow> link_state \<Rightarrow> link_state expected" where
  "add_unit r inputIndex indices target unit s =
     (let member = (if lr_kind r \<noteq> ''static'' then au_archiveMember unit
                    else if lr_archiveNames r = [] then ''m'' @ to_string (length (plan_units_of (ls_plan s) target)) @ ''.o''
                    else lr_archiveNames r ! inputIndex) in
      bindE (mapE (remap_member indices) (au_modules unit)) (\<lambda>members.
      Inr (s\<lparr>ls_plan := push_unit target (unit\<lparr>au_modules := members, au_archiveMember := member\<rparr>) (ls_plan s)\<rparr>)))"

definition add_target_units ::
  "link_request \<Rightarrow> nat \<Rightarrow> nat option list \<Rightarrow> CompilationPlan \<Rightarrow> string \<Rightarrow> link_state \<Rightarrow> link_state expected" where
  "add_target_units r inputIndex indices inputPlan target s =
     bindE (deref (smap_at inputPlan target)) (\<lambda>units.
     if lr_kind r = ''static'' \<and> length units \<noteq> 1
     then Inl ''static output requires one native compilation unit per archive input member''
     else foldE (add_unit r inputIndex indices target) units s)"

definition gather_object ::
  "link_host \<Rightarrow> link_request \<Rightarrow> string list \<Rightarrow> nat \<Rightarrow> string \<Rightarrow> package_files \<Rightarrow> json_object \<Rightarrow> link_state \<Rightarrow> link_state expected" where
  "gather_object h r required inputIndex input files object s =
     (if getString object ''kind'' \<noteq> Some ''object''
      then Inl (''publication link requires relocatable Sela inputs: '' @ input)
      else
        bindE (deref (Option.bind (getArray object ''targets'') string_items)) (\<lambda>admitted.
        bindE (forE (\<lambda>t. if t \<notin> set admitted
             then Inl (''requested target '' @ t @ '' is missing from input '' @ input @
                       ''; publication never silently narrows its target selection'') else Inr ()) required) (\<lambda>_.
        bindE (readCompilationPlan object) (\<lambda>inputPlan.
        bindE (deref (readLinkPlan object files)) (\<lambda>dependencies.
        bindE (foldE (add_dependencies dependencies) required s) (\<lambda>s.
        bindE (deref (getArray object ''modules'')) (\<lambda>modules.
        bindE (foldE (add_module h files required) modules ([], s)) (\<lambda>(indices, s).
        foldE (add_target_units r inputIndex indices inputPlan) required s))))))))"

definition gather_input ::
  "link_host \<Rightarrow> link_request \<Rightarrow> string list \<Rightarrow> nat \<times> string \<Rightarrow> link_state \<Rightarrow> link_state expected" where
  "gather_input h r targets x s =
     (case x of (inputIndex, input) \<Rightarrow>
        (case readPackage (fst (lh_archive h input)) (snd (lh_archive h input)) of
           Inl message \<Rightarrow> Inl (''expected a Sela object at '' @ input @ '': '' @ message)
         | Inr files \<Rightarrow>
             bindE (validatePackage (lh_codec h) files) (\<lambda>manifest.
             bindE (deref (getAsObject manifest)) (\<lambda>object.
             gather_object h r (required_targets r targets inputIndex) inputIndex input files object s))))"

section \<open>The linked artifact\<close>

definition permute_unit :: "string \<Rightarrow> ArtifactUnit list \<Rightarrow> nat \<Rightarrow> bool list \<times> ArtifactUnit list \<Rightarrow> (bool list \<times> ArtifactUnit list) expected" where
  "permute_unit target units index st =
     (case st of (seen, ordered) \<Rightarrow>
        if index \<ge> length seen \<or> seen ! index
        then Inl (target @ '' native-unit permutation must reference each unit exactly once'')
        else Inr (seen[index := True], ordered @ [units ! index]))"

definition order_units :: "string \<times> nat list \<Rightarrow> CompilationPlan \<Rightarrow> CompilationPlan expected" where
  "order_units x plan =
     (case x of (target, indices) \<Rightarrow>
        (case smap_at plan target of
           None \<Rightarrow> Inl (target @ '' native-unit permutation does not match the admitted unit inventory'')
         | Some units \<Rightarrow>
             if length indices \<noteq> length units
             then Inl (target @ '' native-unit permutation does not match the admitted unit inventory'')
             else
               bindE (foldE (permute_unit target units) indices (replicate (length units) False, [])) (\<lambda>(seen, ordered).
               Inr (smap_put target ordered plan))))"

definition final_link :: "link_request \<Rightarrow> string list \<Rightarrow> link_state \<Rightarrow> string \<Rightarrow> ArtifactLink expected" where
  "final_link r linkOptions s target =
     bindE (if lr_targetLinks r = []
            then Inr \<lparr>al_libraries = lr_libraries r, al_options = linkOptions, al_versionScript = lr_versionScript r\<rparr>
            else deref (smap_at (lr_targetLinks r) target)) (\<lambda>link.
     Inr (link\<lparr>al_libraries := al_libraries link @
       (case smap_at (ls_dependencies s) target of None \<Rightarrow> [] | Some l \<Rightarrow> l)\<rparr>))"

record linked =
  lk_request :: link_request
  lk_targets :: "string list"
  lk_modules :: "ArtifactModule list"
  lk_plan :: CompilationPlan
  lk_links :: LinkPlan
  lk_package :: package_files

definition link_inputs :: "link_host \<Rightarrow> link_request \<Rightarrow> linked expected" where
  "link_inputs h r =
     bindE (check_request h r) (\<lambda>(linkOptions, targets).
     bindE (foldE (gather_input h r targets) (List.enumerate 0 (lr_inputs r))
       \<lparr>ls_modules = [], ls_bytes = 0, ls_plan = [], ls_dependencies = []\<rparr>) (\<lambda>s.
     let plan = fold (\<lambda>t. smap_emplace t []) targets (filter (\<lambda>(t, us). t \<in> set targets) (ls_plan s)) in
     bindE (foldE order_units (lr_unitOrders r) plan) (\<lambda>plan.
     bindE (mapE (\<lambda>t. bindE (final_link r linkOptions s t) (\<lambda>l. Inr (t, l))) targets) (\<lambda>links.
     let finalLinks = fold (\<lambda>(t, l). smap_put t l) links [] in
     bindE (createArtifact (lh_codec h) (lr_kind r) (ls_modules s) [] [] targets [] plan finalLinks) (\<lambda>package.
     Inr \<lparr>lk_request = r, lk_targets = targets, lk_modules = ls_modules s, lk_plan = plan, lk_links = finalLinks,
          lk_package = package\<rparr>)))))"

definition link :: "link_host \<Rightarrow> string list \<Rightarrow> unit expected" where
  "link h original =
     bindE (expand h original [] 0) (\<lambda>args.
     bindE (link_args h args initial_request) (\<lambda>r.
     bindE (link_inputs h r) (\<lambda>l.
     bindE (forE (\<lambda>input. rejectInputAlias h input (lr_output r)) (lr_inputs r)) (\<lambda>_.
     bindE (write_gate (lh_codec h) (lk_package l)) (\<lambda>_.
     lh_emit h (lr_output r) (lk_package l))))))"

end
