(* ===== verification/Publication_Link_Facts.thy ===== *)
theory Publication_Link_Facts
  imports Publication_Link "HOL-Library.Multiset"
begin

text \<open>
  The linker publishes an exact cover: joining packages keeps, for every target, each active module in exactly
  one native unit, whatever the scopes, the kind of output and the order requested.
\<close>

section \<open>Requests\<close>

definition domain_ok :: "string list \<Rightarrow> bool" where
  "domain_ok d \<longleftrightarrow> distinct d \<and> set d \<subseteq> set all_target_ids"

definition request_ok :: "link_request \<Rightarrow> bool" where
  "request_ok r \<longleftrightarrow>
     lr_kind r \<in> set artifact_kinds \<and> list_all validArchiveMember (lr_archiveNames r) \<and>
     smap_wf (lr_inputDomains r) \<and> (\<forall>i d. smap_at (lr_inputDomains r) i = Some d \<longrightarrow> domain_ok d)"

lemma parseTargetSelection_ok: "parseTargetSelection text = Inr d \<Longrightarrow> domain_ok d"
  by (auto simp: parseTargetSelection_def parse_selection_def bindE_Inr_iff domain_ok_def distinct_all_target_ids)

lemma publicationTargets_ok: "publicationTargets [] env = Inr d \<Longrightarrow> domain_ok d"
proof -
  have "domain_ok all_target_ids" by (simp add: domain_ok_def distinct_all_target_ids)
  moreover assume "publicationTargets [] env = Inr d"
  ultimately show ?thesis using parseTargetSelection_ok by (cases env) (auto simp: publicationTargets_def)
qed

lemma request_ok_updates [simp]:
  "request_ok (r\<lparr>lr_output := a\<rparr>) = request_ok r" "request_ok (r\<lparr>lr_inputs := b\<rparr>) = request_ok r"
  "request_ok (r\<lparr>lr_libraries := b\<rparr>) = request_ok r" "request_ok (r\<lparr>lr_linkOptions := b\<rparr>) = request_ok r"
  "request_ok (r\<lparr>lr_unitOrders := c\<rparr>) = request_ok r" "request_ok (r\<lparr>lr_targetLinks := e\<rparr>) = request_ok r"
  "request_ok (r\<lparr>lr_versionScript := a\<rparr>) = request_ok r" "request_ok (r\<lparr>lr_interpreter := a\<rparr>) = request_ok r"
  "request_ok (r\<lparr>lr_emulation := a\<rparr>) = request_ok r" "request_ok (r\<lparr>lr_bothHashStyles := f\<rparr>) = request_ok r"
  by (simp_all add: request_ok_def)

lemma request_ok_kind: "request_ok r \<Longrightarrow> k \<in> set artifact_kinds \<Longrightarrow> request_ok (r\<lparr>lr_kind := k\<rparr>)"
  by (simp add: request_ok_def)

lemma member_name_arg_ok: "member_name_arg name r = Inr r' \<Longrightarrow> request_ok r \<Longrightarrow> request_ok r'"
  by (auto simp: member_name_arg_def request_ok_def)

lemma library_arg_ok: "library_arg name r = Inr r' \<Longrightarrow> request_ok r \<Longrightarrow> request_ok r'"
  by (auto simp: library_arg_def)

lemma read_version_script_ok: "read_version_script h path r = Inr r' \<Longrightarrow> request_ok r \<Longrightarrow> request_ok r'"
  by (auto simp: read_version_script_def bindE_Inr_iff)

lemma if_eqE: "(if c then x else y) = z \<Longrightarrow> (x = z \<Longrightarrow> P) \<Longrightarrow> (y = z \<Longrightarrow> P) \<Longrightarrow> P"
  by (simp split: if_splits)

lemma valued_arg_ok: "valued_arg h arg v r = Inr r' \<Longrightarrow> request_ok r \<Longrightarrow> request_ok r'"
proof -
  assume run: "valued_arg h arg v r = Inr r'" and ok: "request_ok r"
  show "request_ok r'"
    using run unfolding valued_arg_def by (elim if_eqE) (use ok read_version_script_ok [OF _ ok] in auto)
qed

lemma input_domain_arg_ok: "input_domain_arg text r = Inr r' \<Longrightarrow> request_ok r \<Longrightarrow> request_ok r'"
proof -
  assume "input_domain_arg text r = Inr r'" and ok: "request_ok r"
  then obtain i ids d where d: "parseTargetSelection ids = Inr d"
    and r': "r' = r\<lparr>lr_inputDomains := smap_put i d (lr_inputDomains r)\<rparr>"
    by (auto simp: input_domain_arg_def bindE_Inr_iff split: option.splits if_splits prod.splits)
  from ok have "smap_wf (lr_inputDomains r)" by (simp add: request_ok_def)
  with ok parseTargetSelection_ok [OF d] show "request_ok r'"
    by (simp add: request_ok_def r' smap_at_put smap_put_wf)
qed

lemma ordinary_arg_ok: "ordinary_arg h arg r = Inr r' \<Longrightarrow> request_ok r \<Longrightarrow> request_ok r'"
proof -
  assume run: "ordinary_arg h arg r = Inr r'" and ok: "request_ok r"
  have kinds: "request_ok (r\<lparr>lr_kind := ''static''\<rparr>)" "request_ok (r\<lparr>lr_kind := ''shared''\<rparr>)" "request_ok (r\<lparr>lr_kind := ''object''\<rparr>)"
    by (rule request_ok_kind [OF ok]; simp add: artifact_kinds_def)+
  show "request_ok r'"
    using run unfolding ordinary_arg_def
    by (elim if_eqE)
      (use ok kinds member_name_arg_ok [OF _ ok] library_arg_ok [OF _ ok] read_version_script_ok [OF _ ok] in auto)
qed

lemma plain_arg_ok:
  assumes "plain_arg h arg r = Inr r'" "request_ok r"
  shows "request_ok r'"
proof -
  have settings: "target_links_arg h p r = Inr r' \<Longrightarrow> request_ok r'" for p
    using assms(2) by (auto simp: target_links_arg_def bindE_Inr_iff split: option.splits if_splits)
  have orders: "unit_order_arg x r = Inr r' \<Longrightarrow> request_ok r'" for x
    using assms(2) by (auto simp: unit_order_arg_def bindE_Inr_iff split: prod.splits option.splits if_splits)
  from assms show ?thesis
    by (auto simp: plain_arg_def settings orders dest: input_domain_arg_ok ordinary_arg_ok split: option.splits)
qed

lemma link_args_ok: "link_args h args r = Inr r' \<Longrightarrow> request_ok r \<Longrightarrow> request_ok r'"
proof (induction h args r rule: link_args.induct)
  case (1 h r)
  then show ?case by simp
next
  case (2 h arg rest r)
  show ?case
  proof (cases "arg \<in> set valued_options")
    case True
    with "2.prems"(1) obtain v rest' s where s: "rest = v # rest'" "valued_arg h arg v r = Inr s" "link_args h rest' s = Inr r'"
      by (auto simp: bindE_Inr_iff split: list.splits)
    show ?thesis by (rule "2.IH"(1) [OF True s(1) s(2) s(3) valued_arg_ok [OF s(2) "2.prems"(2)]])
  next
    case False
    with "2.prems"(1) obtain s where s: "plain_arg h arg r = Inr s" "link_args h rest s = Inr r'"
      by (auto simp: bindE_Inr_iff)
    show ?thesis by (rule "2.IH"(2) [OF False s(1) s(2) plain_arg_ok [OF s(1) "2.prems"(2)]])
  qed
qed

lemma initial_request_ok: "request_ok initial_request"
  by (simp add: request_ok_def initial_request_def artifact_kinds_def)

lemma check_request_facts:
  assumes "check_request h r = Inr (linkOptions, targets)" "request_ok r"
  shows "domain_ok targets"
    "lr_archiveNames r \<noteq> [] \<Longrightarrow> lr_kind r = ''static'' \<and> length (lr_archiveNames r) = length (lr_inputs r)"
    "domain_ok (required_targets r targets i)" "set (required_targets r targets i) \<subseteq> set targets"
proof -
  from assms(1) have t: "publicationTargets [] (lh_environment h) = Inr targets"
    and d: "forE (check_input_domain r targets) (lr_inputDomains r) = Inr ()"
    and names: "\<not> (lr_archiveNames r \<noteq> [] \<and> (lr_kind r \<noteq> ''static'' \<or> length (lr_archiveNames r) \<noteq> length (lr_inputs r)))"
    by (auto simp: check_request_def bindE_Inr_iff Let_def split: if_splits)
  show dt: "domain_ok targets" by (rule publicationTargets_ok [OF t])
  show "lr_archiveNames r \<noteq> [] \<Longrightarrow> lr_kind r = ''static'' \<and> length (lr_archiveNames r) = length (lr_inputs r)"
    using names by blast
  show "domain_ok (required_targets r targets i)"
    using assms(2) dt by (auto simp: required_targets_def request_ok_def split: option.splits)
  show "set (required_targets r targets i) \<subseteq> set targets"
    using d by (force simp: required_targets_def forE_success_iff check_input_domain_def
        dest: map_of_SomeD split: option.splits if_splits)
qed

section \<open>Positions of the kept modules\<close>

fun positions :: "nat \<Rightarrow> 'a list list \<Rightarrow> nat option list" where
  "positions n [] = []"
| "positions n (d # ds) = (if d = [] then None # positions n ds else Some n # positions (Suc n) ds)"

lemma positions_length [simp]: "length (positions n ds) = length ds"
  by (induction n ds rule: positions.induct) auto

lemma positions_some:
  "j < length ds \<Longrightarrow> ds ! j \<noteq> [] \<Longrightarrow> \<exists>i < length (filter (\<lambda>d. d \<noteq> []) ds).
     positions n ds ! j = Some (n + i) \<and> filter (\<lambda>d. d \<noteq> []) ds ! i = ds ! j"
proof (induction n ds arbitrary: j rule: positions.induct)
  case (2 n d ds)
  show ?case
  proof (cases j)
    case 0
    with 2 show ?thesis by auto
  next
    case (Suc k)
    with 2 show ?thesis by (cases "d = []") fastforce+
  qed
qed simp

lemma positions_onto:
  "i < length (filter (\<lambda>d. d \<noteq> []) ds) \<Longrightarrow> \<exists>j < length ds.
     positions n ds ! j = Some (n + i) \<and> ds ! j = filter (\<lambda>d. d \<noteq> []) ds ! i"
proof (induction n ds arbitrary: i rule: positions.induct)
  case (2 n d ds)
  show ?case
  proof (cases "d = []")
    case True
    with 2 show ?thesis by fastforce
  next
    case False
    with 2 show ?thesis by (cases i) fastforce+
  qed
qed simp

lemma positions_bound: "Some i \<in> set (positions n ds) \<Longrightarrow> n \<le> i"
  by (induction n ds rule: positions.induct) (auto split: if_splits)

lemma positions_inj:
  "positions n ds ! j = Some i \<Longrightarrow> positions n ds ! k = Some i \<Longrightarrow> j < length ds \<Longrightarrow> k < length ds \<Longrightarrow> j = k"
proof (induction n ds arbitrary: j k rule: positions.induct)
  case (2 n d ds)
  have later: "positions (Suc n) ds ! l \<noteq> Some n" if "l < length ds" for l
    using positions_bound [of n "Suc n" ds] nth_mem [of l "positions (Suc n) ds"] that by force
  show ?case
  proof (cases "d = []")
    case True
    with 2 show ?thesis by (cases j; cases k) auto
  next
    case False
    with 2 later show ?thesis by (cases j; cases k) auto
  qed
qed simp

section \<open>Modules of one input\<close>

definition selected_domain :: "string list \<Rightarrow> json \<Rightarrow> string list \<Rightarrow> bool" where
  "selected_domain required entry d \<longleftrightarrow>
     (\<exists>record xs. getAsObject entry = Some record \<and> getArray record ''targets'' = Some (map JString xs) \<and>
        d = filter (\<lambda>t. t \<in> set required) xs)"

lemma add_module_step:
  assumes "add_module h files required entry (indices, s) = Inr st"
  shows "\<exists>d new. selected_domain required entry d \<and> fst st = indices @ positions (length (ls_modules s)) [d] \<and>
    ls_modules (snd st) = ls_modules s @ new \<and> map am_targets new = filter (\<lambda>d. d \<noteq> []) [d] \<and>
    ls_plan (snd st) = ls_plan s \<and> length (ls_modules (snd st)) \<le> module_limit"
proof -
  from assms obtain fields domain bytes where
    r: "getAsObject entry = Some fields" "Option.bind (getArray fields ''targets'') string_items = Some domain" and
    limit: "length (ls_modules s) < module_limit" and
    st: "st = (if filter (\<lambda>t. t \<in> set required) domain = [] then (indices @ [None], s\<lparr>ls_bytes := ls_bytes s + length bytes\<rparr>)
      else (indices @ [Some (length (ls_modules s))], s\<lparr>ls_bytes := ls_bytes s + length bytes, ls_modules := ls_modules s @
        [\<lparr>am_bytecode = bytes, am_optimization = ''O2'', am_archiveMember = [],
          am_targets = filter (\<lambda>t. t \<in> set required) domain\<rparr>]\<rparr>))"
    by (auto simp: add_module_def bindE_Inr_iff Let_def split: if_splits)
  from r(2) have "getArray fields ''targets'' = Some (map JString domain)"
    by (auto simp: bind_eq_Some_conv string_items_Some_iff)
  with r(1) have "selected_domain required entry (filter (\<lambda>t. t \<in> set required) domain)"
    unfolding selected_domain_def by blast
  with limit show ?thesis
    by (intro exI [of _ "filter (\<lambda>t. t \<in> set required) domain"]) (auto simp: st module_limit_def)
qed

lemma positions_append: "positions n (ds @ es) = positions n ds @ positions (n + length (filter (\<lambda>d. d \<noteq> []) ds)) es"
  by (induction n ds rule: positions.induct) auto

lemma add_modules_facts:
  assumes "foldE (add_module h files required) entries (indices, s) = Inr st" "length (ls_modules s) \<le> module_limit"
  shows "\<exists>ds new. list_all2 (selected_domain required) entries ds \<and>
    fst st = indices @ positions (length (ls_modules s)) ds \<and>
    ls_modules (snd st) = ls_modules s @ new \<and> map am_targets new = filter (\<lambda>d. d \<noteq> []) ds \<and>
    ls_plan (snd st) = ls_plan s \<and> length (ls_modules (snd st)) \<le> module_limit"
  using assms
proof (induction entries arbitrary: indices s)
  case Nil
  then show ?case by auto
next
  case (Cons entry entries)
  then obtain u where u: "add_module h files required entry (indices, s) = Inr u"
    "foldE (add_module h files required) entries u = Inr st" by (auto simp: bindE_Inr_iff)
  from add_module_step [OF u(1)] obtain d new where
    d: "selected_domain required entry d" "fst u = indices @ positions (length (ls_modules s)) [d]"
      "ls_modules (snd u) = ls_modules s @ new" "map am_targets new = filter (\<lambda>d. d \<noteq> []) [d]"
      "ls_plan (snd u) = ls_plan s" "length (ls_modules (snd u)) \<le> module_limit" by blast
  from u(2) have "foldE (add_module h files required) entries (fst u, snd u) = Inr st" by simp
  from Cons.IH [OF this d(6)] obtain ds new' where
    ds: "list_all2 (selected_domain required) entries ds"
      "fst st = fst u @ positions (length (ls_modules (snd u))) ds"
      "ls_modules (snd st) = ls_modules (snd u) @ new'" "map am_targets new' = filter (\<lambda>d. d \<noteq> []) ds"
      "ls_plan (snd st) = ls_plan (snd u)" "length (ls_modules (snd st)) \<le> module_limit" by blast
  have "length new = length (filter (\<lambda>d. d \<noteq> []) [d])" using d(4) by (metis length_map)
  then have "length (ls_modules (snd u)) = length (ls_modules s) + length (filter (\<lambda>d. d \<noteq> []) [d])"
    by (simp add: d(3))
  then have "fst st = indices @ positions (length (ls_modules s)) ([d] @ ds)"
    by (simp only: positions_append ds(2) d(2) append_assoc)
  moreover have "map am_targets (new @ new') = filter (\<lambda>d. d \<noteq> []) (d # ds)" using d(4) ds(4) by auto
  ultimately show ?case using d ds by (intro exI [of _ "d # ds"] exI [of _ "new @ new'"]) auto
qed

section \<open>Units of one input\<close>

lemma to_string_bound: "n < 10 ^ k \<Longrightarrow> 0 < k \<Longrightarrow> length (to_string n) \<le> k"
proof (induction n arbitrary: k rule: to_string.induct)
  case (1 n)
  show ?case
  proof (cases "n < 10")
    case True
    with 1 show ?thesis by (simp add: to_string.simps [of n])
  next
    case False
    with "1.prems" obtain j where j: "k = Suc j" "0 < j" by (cases k; cases "k - 1") auto
    with "1.prems"(1) have "n div 10 < 10 ^ j" by (simp add: less_mult_imp_div_less mult.commute)
    with "1.IH" [OF False this j(2)] False j show ?thesis by (simp add: to_string.simps [of n])
  qed
qed

lemma to_string_digits: "list_all alnum (to_string n)"
proof (induction n rule: to_string.induct)
  case (1 n)
  have "alnum (digit_char d)" if "d < 10" for d
    using that by (auto simp: alnum_def in_range_def digit_char_def of_char_of)
  with 1 show ?case by (cases "n < 10") (simp_all add: to_string.simps [of n])
qed

lemma generated_member_ok: "n < 1000 \<Longrightarrow> validArchiveMember (''m'' @ to_string n @ ''.o'')"
  using to_string_bound [of n 3] to_string_digits [of n]
  by (auto simp: validArchiveMember_def list_all_iff file_char_def alnum_def in_range_def)

lemma push_unit_units:
  "smap_wf plan \<Longrightarrow> smap_wf (push_unit t u plan) \<and>
   plan_units_of (push_unit t u plan) x = (if x = t then plan_units_of plan t @ [u] else plan_units_of plan x) \<and>
   dom (smap_at (push_unit t u plan)) = insert t (dom (smap_at plan))"
  by (auto simp: push_unit_def plan_units_of_def smap_at_put smap_put_wf split: option.splits)

text \<open>A unit of the joint plan is one of the input with its members moved and a member name fit for the output.\<close>

definition moved_unit :: "string \<Rightarrow> nat option list \<Rightarrow> ArtifactUnit \<Rightarrow> ArtifactUnit \<Rightarrow> bool" where
  "moved_unit kind indices u v \<longleftrightarrow>
     unit_ok kind v \<and> list_all2 (\<lambda>j i. j < length indices \<and> indices ! j = Some i) (au_modules u) (au_modules v)"

lemma remap_member_iff: "remap_member indices j = Inr i \<longleftrightarrow> j < length indices \<and> indices ! j = Some i"
  by (auto simp: remap_member_def split: option.splits)

definition names_ok :: "link_request \<Rightarrow> nat \<Rightarrow> bool" where
  "names_ok r inputIndex \<longleftrightarrow>
     lr_archiveNames r \<noteq> [] \<longrightarrow> inputIndex < length (lr_archiveNames r) \<and> list_all validArchiveMember (lr_archiveNames r)"

lemma add_unit_step:
  assumes "add_unit r inputIndex indices t u s = Inr s'" "smap_wf (ls_plan s)" "unit_ok ''object'' u"
    and "names_ok r inputIndex" "lr_kind r = ''static'' \<Longrightarrow> length (plan_units_of (ls_plan s) t) < 1000"
  shows "\<exists>v. moved_unit (lr_kind r) indices u v \<and> s' = s\<lparr>ls_plan := push_unit t v (ls_plan s)\<rparr>"
proof -
  define member where "member = (if lr_kind r \<noteq> ''static'' then au_archiveMember u
      else if lr_archiveNames r = [] then ''m'' @ to_string (length (plan_units_of (ls_plan s) t)) @ ''.o''
      else lr_archiveNames r ! inputIndex)"
  from assms(1) obtain members where m: "mapE (remap_member indices) (au_modules u) = Inr members"
    and s': "s' = s\<lparr>ls_plan := push_unit t (u\<lparr>au_modules := members, au_archiveMember := member\<rparr>) (ls_plan s)\<rparr>"
    by (auto simp: add_unit_def bindE_Inr_iff Let_def simp flip: member_def)
  from m have all: "list_all2 (\<lambda>j i. j < length indices \<and> indices ! j = Some i) (au_modules u) members"
    by (simp add: mapE_Inr_iff remap_member_iff)
  have "if lr_kind r = ''static'' then validArchiveMember member else member = []"
  proof (cases "lr_kind r = ''static''")
    case True
    show ?thesis
    proof (cases "lr_archiveNames r = []")
      case names: True
      then show ?thesis using True assms(5) generated_member_ok by (simp add: member_def)
    next
      case False
      with assms(4) have "lr_archiveNames r ! inputIndex \<in> set (lr_archiveNames r)" "list_all validArchiveMember (lr_archiveNames r)"
        by (simp_all add: names_ok_def)
      with True False show ?thesis by (simp add: list_all_iff member_def)
    qed
  next
    case False
    with assms(3) show ?thesis by (simp add: unit_ok_def member_def)
  qed
  moreover have "members \<noteq> []" using all assms(3) by (auto simp: unit_ok_def)
  ultimately have "moved_unit (lr_kind r) indices u (u\<lparr>au_modules := members, au_archiveMember := member\<rparr>)"
    using assms(3) all by (simp add: moved_unit_def unit_ok_def)
  with s' show ?thesis by blast
qed

lemma add_units_facts:
  assumes "foldE (add_unit r inputIndex indices t) us s = Inr s'" "smap_wf (ls_plan s)" "list_all (unit_ok ''object'') us"
    and "names_ok r inputIndex" "lr_kind r = ''static'' \<Longrightarrow> length (plan_units_of (ls_plan s) t) + length us \<le> 1000"
  shows "\<exists>vs. list_all2 (moved_unit (lr_kind r) indices) us vs \<and> smap_wf (ls_plan s') \<and>
    plan_units_of (ls_plan s') t = plan_units_of (ls_plan s) t @ vs \<and>
    (\<forall>x. x \<noteq> t \<longrightarrow> plan_units_of (ls_plan s') x = plan_units_of (ls_plan s) x) \<and>
    dom (smap_at (ls_plan s')) \<subseteq> insert t (dom (smap_at (ls_plan s))) \<and> ls_modules s' = ls_modules s"
  using assms
proof (induction us arbitrary: s)
  case Nil
  then show ?case by auto
next
  case (Cons u us)
  from Cons.prems(1) obtain s1 where s1: "add_unit r inputIndex indices t u s = Inr s1"
    "foldE (add_unit r inputIndex indices t) us s1 = Inr s'" by (auto simp: bindE_Inr_iff)
  have "lr_kind r = ''static'' \<Longrightarrow> length (plan_units_of (ls_plan s) t) < 1000" using Cons.prems(5) by simp
  with add_unit_step [OF s1(1) Cons.prems(2) _ Cons.prems(4)] Cons.prems(3) obtain v where
    v: "moved_unit (lr_kind r) indices u v" "s1 = s\<lparr>ls_plan := push_unit t v (ls_plan s)\<rparr>" by auto
  note push = push_unit_units [OF Cons.prems(2), of t v]
  have wf: "smap_wf (ls_plan s1)" using push by (simp add: v(2))
  have bound: "lr_kind r = ''static'' \<Longrightarrow> length (plan_units_of (ls_plan s1) t) + length us \<le> 1000"
    using Cons.prems(5) push by (simp add: v(2))
  have "list_all (unit_ok ''object'') us" using Cons.prems(3) by simp
  from Cons.IH [OF s1(2) wf this Cons.prems(4) bound] obtain vs where
    vs: "list_all2 (moved_unit (lr_kind r) indices) us vs" "smap_wf (ls_plan s')"
      "plan_units_of (ls_plan s') t = plan_units_of (ls_plan s1) t @ vs"
      "\<forall>x. x \<noteq> t \<longrightarrow> plan_units_of (ls_plan s') x = plan_units_of (ls_plan s1) x"
      "dom (smap_at (ls_plan s')) \<subseteq> insert t (dom (smap_at (ls_plan s1)))" "ls_modules s' = ls_modules s1" by blast
  from push vs v show ?case by (intro exI [of _ "v # vs"]) auto
qed

section \<open>Joining covers\<close>

abbreviation module_domains :: "ArtifactModule list \<Rightarrow> string set list" where
  "module_domains modules \<equiv> map (\<lambda>m. set (am_targets m)) modules"

lemma plan_members_append: "plan_members (us @ vs) = plan_members us @ plan_members vs"
  by (simp add: plan_members_def)

lemma moved_members:
  assumes "list_all2 (moved_unit kind indices) us vs"
  shows "list_all (unit_ok kind) vs"
    "list_all2 (\<lambda>j i. j < length indices \<and> indices ! j = Some i) (plan_members us) (plan_members vs)"
  using assms by (induction rule: list_all2_induct) (auto simp: moved_unit_def plan_members_def list_all2_appendI)

lemma cover_inactive:
  assumes "exact_cover (module_domains old) t us" "\<forall>m \<in> set new. t \<notin> set (am_targets m)"
  shows "exact_cover (module_domains (old @ new)) t us"
proof -
  have "active_fragments (module_domains (old @ new)) t = active_fragments (module_domains old) t"
  proof (intro equalityI subsetI)
    fix i assume "i \<in> active_fragments (module_domains (old @ new)) t"
    then show "i \<in> active_fragments (module_domains old) t"
      using assms(2) by (cases "i < length old") (auto simp: active_fragments_def nth_append)
  qed (auto simp: active_fragments_def nth_append)
  with assms(1) show ?thesis by (simp add: exact_cover_def)
qed

lemma cover_join:
  assumes old: "exact_cover (module_domains old) t us"
    and input: "exact_cover domains t vs" "length ds = length domains"
    and sel: "\<And>j. j < length ds \<Longrightarrow> t \<in> set (ds ! j) \<longleftrightarrow> t \<in> domains ! j"
    and new: "map am_targets new = filter (\<lambda>d. d \<noteq> []) ds"
    and moved: "list_all2 (\<lambda>j i. j < length ds \<and> positions (length old) ds ! j = Some i) (plan_members vs) (plan_members ws)"
  shows "exact_cover (module_domains (old @ new)) t (us @ ws)"
proof -
  let ?p = "positions (length old) ds"
  let ?D = "module_domains (old @ new)"
  have len: "length new = length (filter (\<lambda>d. d \<noteq> []) ds)" using new by (metis length_map)
  have tnew: "am_targets (new ! i) = filter (\<lambda>d. d \<noteq> []) ds ! i" if "i < length new" for i
    using new that by (metis nth_map)
  have members: "set (plan_members ws) = {i. \<exists>j \<in> set (plan_members vs). ?p ! j = Some i}"
  proof (intro equalityI subsetI)
    fix i assume "i \<in> set (plan_members ws)"
    then obtain a where a: "a < length (plan_members ws)" "plan_members ws ! a = i" by (auto simp: in_set_conv_nth)
    from list_all2_nthD2 [OF moved a(1)] list_all2_lengthD [OF moved] a
    show "i \<in> {i. \<exists>j \<in> set (plan_members vs). ?p ! j = Some i}" by (auto intro!: bexI [of _ "plan_members vs ! a"])
  next
    fix i assume "i \<in> {i. \<exists>j \<in> set (plan_members vs). ?p ! j = Some i}"
    then obtain a where a: "a < length (plan_members vs)" "?p ! (plan_members vs ! a) = Some i" by (auto simp: in_set_conv_nth)
    from list_all2_nthD [OF moved a(1)] list_all2_lengthD [OF moved] a show "i \<in> set (plan_members ws)" by auto
  qed
  have vs: "distinct (plan_members vs)" "set (plan_members vs) = {j. j < length ds \<and> t \<in> set (ds ! j)}"
    using input sel by (auto simp: exact_cover_def active_fragments_def)
  have ws: "set (plan_members ws) = {i. \<exists>k < length new. i = length old + k \<and> t \<in> set (am_targets (new ! k))}"
  proof (intro equalityI subsetI)
    fix i assume "i \<in> set (plan_members ws)"
    then obtain j where j: "j < length ds" "t \<in> set (ds ! j)" "?p ! j = Some i" using members vs(2) by auto
    then have "ds ! j \<noteq> []" by auto
    from positions_some [OF j(1) this, of "length old"] j len tnew
    show "i \<in> {i. \<exists>k < length new. i = length old + k \<and> t \<in> set (am_targets (new ! k))}" by auto
  next
    fix i assume "i \<in> {i. \<exists>k < length new. i = length old + k \<and> t \<in> set (am_targets (new ! k))}"
    then obtain k where k: "k < length new" "i = length old + k" "t \<in> set (am_targets (new ! k))" by auto
    from positions_onto [of k ds "length old"] k len tnew show "i \<in> set (plan_members ws)" using members vs(2) by auto
  qed
  have "distinct (plan_members ws)"
    unfolding distinct_conv_nth
  proof (intro allI impI)
    fix a b assume ab: "a < length (plan_members ws)" "b < length (plan_members ws)" "a \<noteq> b"
    have m: "length (plan_members vs) = length (plan_members ws)" using moved by (rule list_all2_lengthD)
    have "plan_members vs ! a \<noteq> plan_members vs ! b" using vs(1) ab m by (simp add: nth_eq_iff_index_eq)
    moreover have "plan_members vs ! c < length ds \<and> ?p ! (plan_members vs ! c) = Some (plan_members ws ! c)"
      if "c < length (plan_members ws)" for c
      using list_all2_nthD2 [OF moved that] by simp
    ultimately show "plan_members ws ! a \<noteq> plan_members ws ! b" using ab positions_inj by metis
  qed
  moreover have "set (plan_members us) \<inter> set (plan_members ws) = {}"
    using old ws by (auto simp: exact_cover_def active_fragments_def)
  moreover have "set (plan_members us) \<union> set (plan_members ws) = active_fragments ?D t"
  proof -
    have "active_fragments ?D t = active_fragments (module_domains old) t \<union>
        {i. \<exists>k < length new. i = length old + k \<and> t \<in> set (am_targets (new ! k))}" (is "?l = ?r")
    proof (intro equalityI subsetI)
      fix i assume "i \<in> ?l"
      then show "i \<in> ?r"
        by (cases "i < length old") (auto simp: active_fragments_def nth_append intro: exI [of _ "i - length old"])
    qed (auto simp: active_fragments_def nth_append)
    with old ws show ?thesis by (simp add: exact_cover_def)
  qed
  ultimately show ?thesis using old by (simp add: exact_cover_def plan_members_append)
qed

section \<open>One input\<close>

definition link_inv :: "string \<Rightarrow> string list \<Rightarrow> link_state \<Rightarrow> bool" where
  "link_inv kind targets s \<longleftrightarrow>
     smap_wf (ls_plan s) \<and> dom (smap_at (ls_plan s)) \<subseteq> set targets \<and> length (ls_modules s) \<le> module_limit \<and>
     (\<forall>m \<in> set (ls_modules s). am_targets m \<noteq> [] \<and> distinct (am_targets m) \<and> set (am_targets m) \<subseteq> set targets) \<and>
     (\<forall>t \<in> set targets. list_all (unit_ok kind) (plan_units_of (ls_plan s) t) \<and>
        exact_cover (module_domains (ls_modules s)) t (plan_units_of (ls_plan s) t))"

lemma add_dependencies_fold:
  "foldE (add_dependencies deps) ts s = Inr s' \<Longrightarrow> ls_modules s' = ls_modules s \<and> ls_plan s' = ls_plan s"
proof (induction ts arbitrary: s)
  case (Cons t ts)
  then obtain u where u: "add_dependencies deps t s = Inr u" "foldE (add_dependencies deps) ts u = Inr s'"
    by (auto simp: bindE_Inr_iff)
  from u(1) have "ls_modules u = ls_modules s \<and> ls_plan u = ls_plan s" by (auto simp: add_dependencies_def bindE_Inr_iff)
  with Cons.IH [OF u(2)] show ?case by simp
qed simp

definition target_units ::
  "string \<Rightarrow> nat option list \<Rightarrow> CompilationPlan \<Rightarrow> link_state \<Rightarrow> link_state \<Rightarrow> string \<Rightarrow> bool" where
  "target_units kind indices inputPlan s s' t \<longleftrightarrow>
     (\<exists>us ws. smap_at inputPlan t = Some us \<and> list_all2 (moved_unit kind indices) us ws \<and>
        plan_units_of (ls_plan s') t = plan_units_of (ls_plan s) t @ ws)"

lemma add_target_units_step:
  assumes "add_target_units r ix indices inputPlan t s = Inr s'" "smap_wf (ls_plan s)" "names_ok r ix"
    and "\<And>us. smap_at inputPlan t = Some us \<Longrightarrow> list_all (unit_ok ''object'') us"
    and "length (plan_units_of (ls_plan s) t) \<le> module_limit"
  shows "target_units (lr_kind r) indices inputPlan s s' t \<and> smap_wf (ls_plan s') \<and>
    (\<forall>x. x \<noteq> t \<longrightarrow> plan_units_of (ls_plan s') x = plan_units_of (ls_plan s) x) \<and>
    dom (smap_at (ls_plan s')) \<subseteq> insert t (dom (smap_at (ls_plan s))) \<and> ls_modules s' = ls_modules s"
proof -
  from assms(1) obtain us where us: "smap_at inputPlan t = Some us" "lr_kind r = ''static'' \<Longrightarrow> length us = 1"
    "foldE (add_unit r ix indices t) us s = Inr s'"
    by (auto simp: add_target_units_def bindE_Inr_iff split: if_splits)
  have "lr_kind r = ''static'' \<Longrightarrow> length (plan_units_of (ls_plan s) t) + length us \<le> 1000"
    using us(2) assms(5) by (simp add: module_limit_def)
  from add_units_facts [OF us(3) assms(2) assms(4) [OF us(1)] assms(3) this] us(1) show ?thesis
    unfolding target_units_def by blast
qed

lemma add_target_units_fold:
  assumes "foldE (add_target_units r ix indices inputPlan) ts s = Inr s'" "distinct ts" "smap_wf (ls_plan s)" "names_ok r ix"
    and "\<forall>t \<in> set ts. \<forall>us. smap_at inputPlan t = Some us \<longrightarrow> list_all (unit_ok ''object'') us"
    and "\<forall>t \<in> set ts. length (plan_units_of (ls_plan s) t) \<le> module_limit"
  shows "(\<forall>t \<in> set ts. target_units (lr_kind r) indices inputPlan s s' t) \<and> smap_wf (ls_plan s') \<and>
    (\<forall>x. x \<notin> set ts \<longrightarrow> plan_units_of (ls_plan s') x = plan_units_of (ls_plan s) x) \<and>
    dom (smap_at (ls_plan s')) \<subseteq> set ts \<union> dom (smap_at (ls_plan s)) \<and> ls_modules s' = ls_modules s"
  using assms
proof (induction ts arbitrary: s)
  case Nil
  then show ?case by simp
next
  case (Cons t ts)
  from Cons.prems(1) obtain u where u: "add_target_units r ix indices inputPlan t s = Inr u"
    "foldE (add_target_units r ix indices inputPlan) ts u = Inr s'" by (auto simp: bindE_Inr_iff)
  have now: "list_all (unit_ok ''object'') us" if "smap_at inputPlan t = Some us" for us using Cons.prems(5) that by simp
  have "length (plan_units_of (ls_plan s) t) \<le> module_limit" using Cons.prems(6) by simp
  note first = add_target_units_step [OF u(1) Cons.prems(3,4) now this]
  have new: "t \<notin> set ts" "distinct ts" using Cons.prems(2) by auto
  have ok: "\<forall>t \<in> set ts. \<forall>us. smap_at inputPlan t = Some us \<longrightarrow> list_all (unit_ok ''object'') us"
    using Cons.prems(5) by simp
  have bound: "\<forall>t \<in> set ts. length (plan_units_of (ls_plan u) t) \<le> module_limit"
  proof
    fix x assume x: "x \<in> set ts"
    then have "x \<noteq> t" using new by auto
    then show "length (plan_units_of (ls_plan u) x) \<le> module_limit" using first Cons.prems(6) x by simp
  qed
  note rest = Cons.IH [OF u(2) new(2) conjunct1 [OF conjunct2 [OF first]] Cons.prems(4) ok bound]
  have "target_units (lr_kind r) indices inputPlan s s' x" if x: "x \<in> set (t # ts)" for x
  proof (cases "x = t")
    case True
    with rest new first show ?thesis by (simp add: target_units_def)
  next
    case False
    with x rest first show ?thesis by (auto simp: target_units_def)
  qed
  moreover have "dom (smap_at (ls_plan s')) \<subseteq> set (t # ts) \<union> dom (smap_at (ls_plan s))"
  proof -
    have "dom (smap_at (ls_plan s')) \<subseteq> set ts \<union> dom (smap_at (ls_plan u))" using rest by blast
    also have "\<dots> \<subseteq> set ts \<union> insert t (dom (smap_at (ls_plan s)))" using first by blast
    finally show ?thesis by auto
  qed
  ultimately show ?case using first rest by simp
qed

lemma module_domain_selected:
  assumes "module_domain e = Inr d" "selected_domain required e ds"
  shows "set ds = d \<inter> set required" "distinct ds"
proof -
  from assms(2) obtain fields xs where e: "getAsObject e = Some fields" "getArray fields ''targets'' = Some (map JString xs)"
    and ds: "ds = filter (\<lambda>t. t \<in> set required) xs" unfolding selected_domain_def by blast
  from assms(1) e have "foldE domain_id (map JString xs) {} = Inr d" by (auto simp: module_domain_def split: if_splits)
  then obtain ys where "map JString xs = map JString ys" "distinct ys" "d = set ys"
    using domain_ids.collect_set by blast
  moreover have "inj JString" by (simp add: inj_def)
  ultimately have "distinct xs" "d = set xs" by (auto dest: map_injective)
  then show "set ds = d \<inter> set required" "distinct ds" by (auto simp: ds)
qed

lemma gather_object_inv:
  assumes run: "gather_object h r required ix input files object s = Inr s'" and inv: "link_inv (lr_kind r) targets s"
    and req: "domain_ok required" "set required \<subseteq> set targets" and names: "names_ok r ix"
    and obj: "getArray object ''targets'' = Some (map JString ids)" "distinct ids"
  shows "link_inv (lr_kind r) targets s'"
proof -
  from run obtain inputPlan deps s1 modules indices s2 where
    g: "getString object ''kind'' = Some ''object''" "forE (\<lambda>t. if t \<notin> set ids
             then Inl (''requested target '' @ t @ '' is missing from input '' @ input @
                       ''; publication never silently narrows its target selection'') else Inr ()) required = Inr ()"
      "readCompilationPlan object = Inr inputPlan" "foldE (add_dependencies deps) required s = Inr s1"
      "getArray object ''modules'' = Some modules" "foldE (add_module h files required) modules ([], s1) = Inr (indices, s2)"
      "foldE (add_target_units r ix indices inputPlan) required s2 = Inr s'"
    using obj(1) by (auto simp: gather_object_def bindE_Inr_iff split: if_splits)
  from g(2) have sub: "set required \<subseteq> set ids" by (auto simp: forE_success_iff split: if_splits)
  obtain modules' domains where "getArray object ''modules'' = Some modules'" "mapE module_domain modules' = Inr domains"
    and cover: "\<forall>n \<in> set ids. \<exists>us. smap_at inputPlan n = Some us \<and> exact_cover domains n us \<and> list_all (unit_ok ''object'') us"
    by (rule readCompilationPlan_cover [OF g(3) obj g(1)])
  then have d: "mapE module_domain modules = Inr domains" using g(5) by simp
  note deps = add_dependencies_fold [OF g(4)]
  have lim: "length (ls_modules s1) \<le> module_limit" using deps inv by (simp add: link_inv_def)
  from add_modules_facts [OF g(6) lim] deps obtain ds new where
    ds: "list_all2 (selected_domain required) modules ds" "indices = positions (length (ls_modules s)) ds"
      "ls_modules s2 = ls_modules s @ new" "map am_targets new = filter (\<lambda>d. d \<noteq> []) ds"
      "ls_plan s2 = ls_plan s" "length (ls_modules s2) \<le> module_limit" by auto
  have len: "length ds = length domains" using ds(1) d(1) by (auto simp: mapE_Inr_iff dest!: list_all2_lengthD)
  have each: "set (ds ! j) = domains ! j \<inter> set required" "distinct (ds ! j)" if "j < length ds" for j
    using module_domain_selected [of "modules ! j" "domains ! j" required "ds ! j"] ds(1) d(1) that
    by (auto simp: mapE_Inr_iff list_all2_conv_all_nth)
  have new: "am_targets m \<noteq> [] \<and> distinct (am_targets m) \<and> set (am_targets m) \<subseteq> set required" if "m \<in> set new" for m
  proof -
    have "am_targets m \<in> set (filter (\<lambda>d. d \<noteq> []) ds)" unfolding ds(4) [symmetric] using that by simp
    then obtain j where "j < length ds" "ds ! j = am_targets m" "am_targets m \<noteq> []" by (auto simp: in_set_conv_nth)
    with each [of j] show ?thesis by auto
  qed
  have old: "list_all (unit_ok (lr_kind r)) (plan_units_of (ls_plan s) t)" "exact_cover (module_domains (ls_modules s)) t (plan_units_of (ls_plan s) t)"
    if "t \<in> set targets" for t using inv that by (auto simp: link_inv_def)
  have "\<forall>t \<in> set required. length (plan_units_of (ls_plan s2) t) \<le> module_limit"
  proof
    fix t assume "t \<in> set required"
    then have "t \<in> set targets" using req(2) by blast
    from exact_cover_length [OF old(2) [OF this] old(1) [OF this]] inv
    show "length (plan_units_of (ls_plan s2) t) \<le> module_limit" by (simp add: ds(5) link_inv_def)
  qed
  moreover have "smap_wf (ls_plan s2)" using inv by (simp add: ds(5) link_inv_def)
  moreover have "\<forall>t \<in> set required. \<forall>us. smap_at inputPlan t = Some us \<longrightarrow> list_all (unit_ok ''object'') us"
    using cover sub by force
  ultimately have units: "\<forall>t \<in> set required. target_units (lr_kind r) indices inputPlan s2 s' t" "smap_wf (ls_plan s')"
    "\<forall>x. x \<notin> set required \<longrightarrow> plan_units_of (ls_plan s') x = plan_units_of (ls_plan s2) x"
    "dom (smap_at (ls_plan s')) \<subseteq> set required \<union> dom (smap_at (ls_plan s2))" "ls_modules s' = ls_modules s2"
    using add_target_units_fold [OF g(7) _ _ names] req(1) by (auto simp: domain_ok_def)
  have "list_all (unit_ok (lr_kind r)) (plan_units_of (ls_plan s') t) \<and>
      exact_cover (module_domains (ls_modules s')) t (plan_units_of (ls_plan s') t)" if t: "t \<in> set targets" for t
  proof (cases "t \<in> set required")
    case True
    with units(1) obtain us ws where w: "smap_at inputPlan t = Some us" "list_all2 (moved_unit (lr_kind r) indices) us ws"
      "plan_units_of (ls_plan s') t = plan_units_of (ls_plan s) t @ ws" by (auto simp: target_units_def ds(5))
    have c: "exact_cover domains t us" using cover sub True w(1) by force
    have sel: "t \<in> set (ds ! j) \<longleftrightarrow> t \<in> domains ! j" if "j < length ds" for j using each [OF that] True by auto
    have m: "list_all2 (\<lambda>j i. j < length ds \<and> positions (length (ls_modules s)) ds ! j = Some i) (plan_members us) (plan_members ws)"
      using moved_members(2) [OF w(2)] by (simp add: ds(2))
    from cover_join [OF old(2) [OF t] c len sel ds(4) m] moved_members(1) [OF w(2)] old(1) [OF t] show ?thesis
      by (simp add: w(3) units(5) ds(3))
  next
    case False
    then have "\<forall>m \<in> set new. t \<notin> set (am_targets m)" using new by blast
    from cover_inactive [OF old(2) [OF t] this] old(1) [OF t] units(3) False show ?thesis
      by (simp add: units(5) ds(3,5))
  qed
  moreover have "dom (smap_at (ls_plan s')) \<subseteq> set targets" using units(4) inv req(2) by (auto simp: link_inv_def ds(5))
  moreover have "\<forall>m \<in> set (ls_modules s'). am_targets m \<noteq> [] \<and> distinct (am_targets m) \<and> set (am_targets m) \<subseteq> set targets"
    using inv new req(2) unfolding units(5) ds(3) link_inv_def by fastforce
  ultimately show ?thesis using units(2,5) ds(6) by (simp add: link_inv_def)
qed

section \<open>The linked plan\<close>

lemma readPackage_wf: "readPackage entries status = Inr files \<Longrightarrow> smap_wf files"
  using readPackage_inv by (auto simp: package_inv_def)

lemma gather_input_inv:
  assumes run: "gather_input h r targets (ix, input) s = Inr s'" and inv: "link_inv (lr_kind r) targets s"
    and req: "domain_ok (required_targets r targets ix)" "set (required_targets r targets ix) \<subseteq> set targets"
    and names: "names_ok r ix"
  shows "link_inv (lr_kind r) targets s'"
proof -
  from run obtain files manifest object where
    p: "readPackage (fst (lh_archive h input)) (snd (lh_archive h input)) = Inr files"
      "validatePackage (lh_codec h) files = Inr manifest" "getAsObject manifest = Some object"
      "gather_object h r (required_targets r targets ix) ix input files object s = Inr s'"
    by (auto simp: gather_input_def bindE_Inr_iff split: sum.splits)
  from p(2,3) have v: "validate_object (lh_codec h) files object = Inr ()" "smap_at files ''manifest.json'' \<noteq> None"
    by (auto simp: validatePackage_def bindE_Inr_iff split: option.splits if_splits)
  from validate_object_facts [OF v(1) readPackage_wf [OF p(1)] v(2)] obtain ids where
    "getArray object ''targets'' = Some (map JString ids)" "distinct ids" by metis
  from gather_object_inv [OF p(4) inv req names this] show ?thesis .
qed

lemma gather_inputs_inv:
  assumes "foldE (gather_input h r targets) (List.enumerate k inputs) s = Inr s'" "link_inv (lr_kind r) targets s"
    and "\<And>i. domain_ok (required_targets r targets i)" "\<And>i. set (required_targets r targets i) \<subseteq> set targets"
    and "\<And>i. i < k + length inputs \<Longrightarrow> names_ok r i"
  shows "link_inv (lr_kind r) targets s'"
  using assms(1,2,5)
proof (induction inputs arbitrary: k s)
  case Nil
  then show ?case by simp
next
  case (Cons input inputs)
  then obtain u where u: "gather_input h r targets (k, input) s = Inr u"
    "foldE (gather_input h r targets) (List.enumerate (Suc k) inputs) u = Inr s'" by (auto simp: bindE_Inr_iff)
  have "names_ok r k" using Cons.prems(3) by simp
  from gather_input_inv [OF u(1) Cons.prems(2) assms(3,4) this] have "link_inv (lr_kind r) targets u" .
  moreover have "names_ok r i" if "i < Suc k + length inputs" for i using Cons.prems(3) that by simp
  ultimately show ?case using Cons.IH [OF u(2)] by blast
qed

text \<open>A requested order is a permutation of the units.\<close>

lemma permute_units:
  assumes "foldE (permute_unit t units) is (seen, ordered) = Inr (seen', ordered')" "length seen = length units"
  shows "length seen' = length units \<and> (\<forall>i < length units. seen' ! i \<longleftrightarrow> seen ! i \<or> i \<in> set is) \<and>
    distinct is \<and> (\<forall>i \<in> set is. i < length units \<and> \<not> seen ! i) \<and> ordered' = ordered @ map (\<lambda>i. units ! i) is"
  using assms
proof (induction "is" arbitrary: seen ordered)
  case Nil
  then show ?case by simp
next
  case (Cons i "is")
  from Cons.prems(1) obtain st where step: "permute_unit t units i (seen, ordered) = Inr st"
    and next_: "foldE (permute_unit t units) is st = Inr (seen', ordered')" by (auto simp: bindE_Inr_iff)
  from step Cons.prems(2) have i: "i < length units" "\<not> seen ! i" and st: "st = (seen[i := True], ordered @ [units ! i])"
    by (auto simp: permute_unit_def split: if_splits)
  note rest = next_ [unfolded st]
  have "length (seen[i := True]) = length units" using Cons.prems(2) by simp
  from Cons.IH [OF rest this] i Cons.prems(2) show ?case by (auto simp: nth_list_update split: if_splits)
qed

lemma permuted_mset:
  assumes "distinct is" "\<forall>i \<in> set is. i < length units" "length is = length units"
  shows "mset (map (\<lambda>i. units ! i) is) = mset units"
proof -
  have "set is \<subseteq> {..<length units}" using assms(2) by auto
  moreover have "card (set is) = length units" using assms(1,3) distinct_card by fastforce
  ultimately have "set is = {..<length units}" by (simp add: card_subset_eq)
  then have "mset is = mset [0..<length units]"
    using assms(1) set_eq_iff_mset_eq_distinct [of "is" "[0..<length units]"] by (simp add: atLeast0LessThan)
  then have "mset (map (\<lambda>i. units ! i) is) = mset (map (\<lambda>i. units ! i) [0..<length units])" by simp
  then show ?thesis by (simp add: map_nth)
qed

lemma order_units_step:
  assumes "order_units (t, is) plan = Inr plan'" "smap_wf plan"
  shows "smap_wf plan' \<and> dom (smap_at plan') = dom (smap_at plan) \<and>
    (\<forall>x. mset (plan_units_of plan' x) = mset (plan_units_of plan x))"
proof -
  from assms(1) obtain units seen ordered where u: "smap_at plan t = Some units" "length is = length units"
    "foldE (permute_unit t units) is (replicate (length units) False, []) = Inr (seen, ordered)"
    "plan' = smap_put t ordered plan"
    by (auto simp: order_units_def bindE_Inr_iff split: option.splits if_splits)
  from permute_units [OF u(3)] u(2) have p: "mset ordered = mset units"
    using permuted_mset [of "is" units] by auto
  have at: "smap_at plan' = (smap_at plan)(t \<mapsto> ordered)" using u(4) smap_at_put [OF assms(2)] by simp
  with u(1) p show ?thesis by (auto simp: u(4) smap_put_wf [OF assms(2)] plan_units_of_def)
qed

lemma order_units_fold:
  "foldE order_units orders plan = Inr plan' \<Longrightarrow> smap_wf plan \<Longrightarrow> smap_wf plan' \<and> dom (smap_at plan') = dom (smap_at plan) \<and>
    (\<forall>x. mset (plan_units_of plan' x) = mset (plan_units_of plan x))"
proof (induction orders arbitrary: plan)
  case (Cons x orders)
  obtain t "is" where x: "x = (t, is)" by fastforce
  from Cons.prems(1) obtain u where u: "order_units (t, is) plan = Inr u" "foldE order_units orders u = Inr plan'"
    by (auto simp: bindE_Inr_iff x)
  from order_units_step [OF u(1) Cons.prems(2)] Cons.IH [OF u(2)] show ?case by simp
qed simp

lemma cover_mset:
  assumes "mset us = mset vs" "exact_cover domains t us" "list_all (unit_ok kind) us"
  shows "exact_cover domains t vs \<and> list_all (unit_ok kind) vs"
proof -
  have "mset (plan_members us) = mset (plan_members vs)"
    using assms(1) by (simp add: plan_members_def mset_concat)
      (metis mset_map sum_mset_sum_list)
  then have "set (plan_members us) = set (plan_members vs)" "distinct (plan_members us) = distinct (plan_members vs)"
    by (metis set_mset_mset, metis mset_eq_imp_distinct_iff)
  moreover have "set us = set vs" using assms(1) by (metis set_mset_mset)
  ultimately show ?thesis using assms(2,3) by (simp add: exact_cover_def list_all_iff)
qed

lemma link_inputs_publishable:
  assumes "link_inputs h r = Inr l" "request_ok r"
  shows "publishable (lr_kind r) (lk_targets l) (lk_modules l) (lk_plan l)" "domain_ok (lk_targets l)"
    "length (lk_modules l) \<le> module_limit"
    "\<forall>m \<in> set (lk_modules l). am_targets m \<noteq> [] \<and> distinct (am_targets m) \<and> set (am_targets m) \<subseteq> set (lk_targets l)"
    "createArtifact (lh_codec h) (lr_kind r) (lk_modules l) [] [] (lk_targets l) [] (lk_plan l) (lk_links l) = Inr (lk_package l)"
proof -
  from assms(1) obtain linkOptions targets s plan where
    c: "check_request h r = Inr (linkOptions, targets)" and
    run: "foldE (gather_input h r targets) (List.enumerate 0 (lr_inputs r))
       \<lparr>ls_modules = [], ls_bytes = 0, ls_plan = [], ls_dependencies = []\<rparr> = Inr s" and
    order: "foldE order_units (lr_unitOrders r)
      (fold (\<lambda>t. smap_emplace t []) targets (filter (\<lambda>(t, us). t \<in> set targets) (ls_plan s))) = Inr plan" and
    l: "lk_targets l = targets" "lk_modules l = ls_modules s" "lk_plan l = plan" and
    art: "createArtifact (lh_codec h) (lr_kind r) (lk_modules l) [] [] (lk_targets l) [] (lk_plan l) (lk_links l) = Inr (lk_package l)"
    by (auto simp: link_inputs_def bindE_Inr_iff Let_def)
  note cr = check_request_facts [OF c assms(2)]
  have start: "link_inv (lr_kind r) targets \<lparr>ls_modules = [], ls_bytes = 0, ls_plan = [], ls_dependencies = []\<rparr>"
    by (simp add: link_inv_def plan_units_of_def exact_cover_def plan_members_def active_fragments_def)
  have "names_ok r i" if "i < 0 + length (lr_inputs r)" for i
    using cr(2) that assms(2) by (auto simp: names_ok_def request_ok_def)
  from gather_inputs_inv [OF run start cr(3,4) this] have inv: "link_inv (lr_kind r) targets s" .
  then have wf: "smap_wf (ls_plan s)" and sub: "dom (smap_at (ls_plan s)) \<subseteq> set targets" by (simp_all add: link_inv_def)
  have "filter (\<lambda>(t, us). t \<in> set targets) (ls_plan s) = ls_plan s"
    using sub by (intro filter_True) (auto simp: dom_map_of_conv_image_fst)
  with order have order': "foldE order_units (lr_unitOrders r) (fold (\<lambda>t. smap_emplace t []) targets (ls_plan s)) = Inr plan" by simp
  have filled: "smap_wf p \<Longrightarrow> smap_wf (fold (\<lambda>t. smap_emplace t ([] :: ArtifactUnit list)) ts p) \<and>
      dom (smap_at (fold (\<lambda>t. smap_emplace t []) ts p)) = set ts \<union> dom (smap_at p) \<and>
      (\<forall>x. plan_units_of (fold (\<lambda>t. smap_emplace t []) ts p) x = plan_units_of p x)" for ts and p :: CompilationPlan
  proof (induction ts arbitrary: p)
    case Nil
    then show ?case by simp
  next
    case (Cons t ts)
    have "smap_wf (smap_emplace t [] p)" by (rule smap_emplace_wf [OF Cons.prems])
    moreover have "plan_units_of (smap_emplace t [] p) x = plan_units_of p x" for x
      by (simp add: plan_units_of_def smap_at_emplace [OF Cons.prems])
    moreover have "dom (smap_at (smap_emplace t [] p)) = insert t (dom (smap_at p))"
      by (auto simp: smap_at_emplace [OF Cons.prems])
    ultimately show ?case using Cons.IH [of "smap_emplace t [] p"] by simp
  qed
  note f = filled [OF wf, of targets]
  note o = order_units_fold [OF order' conjunct1 [OF f]]
  have dom: "dom (smap_at plan) = set targets" using o f sub by auto
  have units: "exact_cover (module_domains (ls_modules s)) t us \<and> list_all (unit_ok (lr_kind r)) us"
    if "smap_at plan t = Some us" for t us
  proof -
    have t: "t \<in> set targets" using dom that by auto
    have "mset (plan_units_of (ls_plan s) t) = mset us"
      using o f that by (metis option.simps(5) plan_units_of_def)
    then show ?thesis by (rule cover_mset) (use inv t in \<open>auto simp: link_inv_def\<close>)
  qed
  have effective: "map (\<lambda>m. set (effective_targets targets m)) (ls_modules s) = module_domains (ls_modules s)"
    using inv by (auto simp: link_inv_def effective_targets_def)
  show "publishable (lr_kind r) (lk_targets l) (lk_modules l) (lk_plan l)"
    using o dom units unfolding publishable_def l effective by blast
  show "domain_ok (lk_targets l)" by (simp add: l cr(1))
  show "length (lk_modules l) \<le> module_limit"
    "\<forall>m \<in> set (lk_modules l). am_targets m \<noteq> [] \<and> distinct (am_targets m) \<and> set (am_targets m) \<subseteq> set (lk_targets l)"
    using inv by (simp_all add: link_inv_def l)
  show "createArtifact (lh_codec h) (lr_kind r) (lk_modules l) [] [] (lk_targets l) [] (lk_plan l) (lk_links l) = Inr (lk_package l)"
    by (rule art)
qed

end
