(* ===== verification/Partitions.thy ===== *)
theory Partitions
  imports Targets Native_Types Std_Map
begin

text \<open>
  Regrouping of native captures into fragments (Partitions.cpp): every external definition is owned by one unit
  of each target; the definitions with the same owners in all targets form a fragment, and a unit is rebuilt
  from its fragments. A capture is what the code inspects of its LLVM module. Parsing, verification, linking
  and printing of modules are LLVM's, the import of a fragment is the producer's (\<open>mergeProfiles\<close>): all are
  the parameter \<open>native_tools\<close>.
\<close>

section \<open>Captures\<close>

datatype native_linkage =
    ExternalL | AvailableExternallyL | InternalL | PrivateL | LinkOnceL | WeakL | AppendingL | ExternalWeakL | CommonL

record part_value =
  nv_name :: string
  nv_declaration :: bool
  nv_linkage :: native_linkage

record part_function = part_value +
  nf_varArg :: bool
  nf_returnType :: lty
  nf_comdat :: bool
  nf_section :: bool
  nf_args :: "lty list"
  nf_allocas :: "lty list"
  nf_users :: "string list"

record native_module =
  nm_functions :: "part_function list"
  nm_globals :: "part_value list"
  nm_aliases :: "part_value list"
  nm_ifuncs :: "part_value list"
  nm_inlineAsm :: string

definition hasLocalLinkage :: "native_linkage \<Rightarrow> bool" where
  "hasLocalLinkage l = (l = InternalL \<or> l = PrivateL)"

text \<open>\<open>Module::global_values()\<close>: functions, variables, aliases and ifuncs, in this order.\<close>

definition global_values :: "native_module \<Rightarrow> part_value list" where
  "global_values m = map part_value.truncate (nm_functions m) @ nm_globals m @ nm_aliases m @ nm_ifuncs m"

record native_tools =
  nt_parse :: "string \<Rightarrow> native_module option"
  nt_wellformed :: "native_module \<Rightarrow> bool"
  nt_link :: "native_module \<Rightarrow> native_module \<Rightarrow> native_module option"
  nt_evidence :: "native_module \<Rightarrow> string"
  nt_write :: "native_module \<Rightarrow> string \<Rightarrow> unit expected"
  nt_mergeProfiles :: "(string \<times> string) list \<Rightarrow> string \<Rightarrow> unit expected"

section \<open>Loading and ownership\<close>

type_synonym ownership = "(string, nat) smap"

definition load_value :: "nat \<Rightarrow> part_value \<Rightarrow> ownership \<times> nat \<Rightarrow> (ownership \<times> nat) expected" where
  "load_value unit v s =
     (case s of (owners, definitions) \<Rightarrow>
        if nv_declaration v \<or> hasLocalLinkage (nv_linkage v) \<or> nv_linkage v = AvailableExternallyL then Inr s
        else if nv_linkage v \<noteq> ExternalL \<or> nv_name v = [] \<or> map_of owners (nv_name v) \<noteq> None
        then Inl (''ambiguous grouped native definition: '' @ nv_name v)
        else Inr (smap_put (nv_name v) unit owners, definitions + 1))"

definition load_capture ::
  "native_tools \<Rightarrow> string \<Rightarrow> native_module list \<times> ownership \<Rightarrow> (native_module list \<times> ownership) expected" where
  "load_capture T path s =
     (case s of (modules, owners) \<Rightarrow>
        (case nt_parse T path of
           None \<Rightarrow> Inl (''invalid grouped native capture: '' @ path)
         | Some m \<Rightarrow>
             if \<not> nt_wellformed T m then Inl (''invalid grouped native capture: '' @ path)
             else
               bindE (foldE (load_value (length modules)) (global_values m) (owners, 0)) (\<lambda>(owners, definitions).
               if definitions = 0 then Inl (''grouped native unit lacks a unique external definition: '' @ path)
               else Inr (modules @ [m], owners))))"

definition load_captures :: "native_tools \<Rightarrow> string list \<Rightarrow> (native_module list \<times> ownership) expected" where
  "load_captures T paths =
     (if paths = [] \<or> length paths > 256 then Inl ''invalid grouped native capture inventory''
      else foldE (load_capture T) paths ([], []))"

section \<open>Splitting a unit\<close>

fun part_scalar :: "lty \<Rightarrow> bool" where
  "part_scalar VoidTy = True"
| "part_scalar (IntTy _) = True"
| "part_scalar (PtrTy _) = True"
| "part_scalar FloatTy = True"
| "part_scalar DoubleTy = True"
| "part_scalar _ = False"

definition debug_intrinsic :: "part_function \<Rightarrow> bool" where
  "debug_intrinsic f = (take 9 (nv_name f) = ''llvm.dbg.'')"

definition qualify_function :: "part_function \<Rightarrow> unit expected" where
  "qualify_function f =
     (if debug_intrinsic f then Inr ()
      else if nv_declaration f \<or> nv_linkage f \<noteq> ExternalL \<or> nf_varArg f \<or> \<not> part_scalar (nf_returnType f) \<or>
              nf_comdat f \<or> nf_section f
      then Inl (''regrouped native units currently require self-contained external scalar definitions: '' @ nv_name f)
      else if \<not> list_all part_scalar (nf_args f) then Inl ''regrouped aggregate ABI needs explicit ownership''
      else if \<not> list_all part_scalar (nf_allocas f) then Inl ''regrouped aggregate storage needs explicit ownership''
      else Inr ())"

definition qualifySplit :: "native_module \<Rightarrow> unit expected" where
  "qualifySplit m =
     (if nm_globals m \<noteq> [] \<or> nm_aliases m \<noteq> [] \<or> nm_ifuncs m \<noteq> [] \<or> nm_inlineAsm m \<noteq> []
      then Inl ''regrouped native units require explicit global/local identity support''
      else forE qualify_function (nm_functions m))"

text \<open>
  The private slice: every definition outside the fragment drops its references and is erased, unless
  something that stays still uses it.
\<close>

definition slice :: "native_tools \<Rightarrow> native_module \<Rightarrow> string list \<Rightarrow> native_module expected" where
  "slice T m definitions =
     (let is_removed = (\<lambda>f. \<not> nv_declaration f \<and> nv_name f \<notin> set definitions);
          names = map nv_name (filter is_removed (nm_functions m));
          stays = (\<lambda>u. u \<notin> set names) in
      case List.find (\<lambda>f. list_ex stays (nf_users f)) (filter is_removed (nm_functions m)) of
        Some f \<Rightarrow> Inl (''cross-fragment native definition reference needs an explicit shared identity: '' @ nv_name f)
      | None \<Rightarrow>
          let result = m\<lparr>nm_functions := map (\<lambda>f. f\<lparr>nf_users := filter stays (nf_users f)\<rparr>)
                (filter (\<lambda>f. \<not> is_removed f) (nm_functions m))\<rparr> in
          if \<not> nt_wellformed T result then Inl ''invalid private native definition slice'' else Inr result)"

fun link_slices :: "native_tools \<Rightarrow> native_module option \<Rightarrow> native_module list \<Rightarrow> native_module option expected" where
  "link_slices T reconstructed [] = Inr reconstructed"
| "link_slices T None (f # fs) = link_slices T (Some f) fs"
| "link_slices T (Some r) (f # fs) =
     (case nt_link T r f of
        None \<Rightarrow> Inl ''cannot reconstruct original native translation unit from private slices''
      | Some r \<Rightarrow> link_slices T (Some r) fs)"

definition provePartition :: "native_tools \<Rightarrow> native_module \<Rightarrow> native_module list \<Rightarrow> unit expected" where
  "provePartition T original fragments =
     bindE (link_slices T None fragments) (\<lambda>reconstructed.
     (case reconstructed of
        None \<Rightarrow> Inl ''private partition does not exactly reconstruct the original native translation unit''
      | Some r \<Rightarrow>
          if \<not> nt_wellformed T r \<or> nt_evidence T original \<noteq> nt_evidence T r
          then Inl ''private partition does not exactly reconstruct the original native translation unit''
          else Inr ()))"

section \<open>Fragments\<close>

record ProfilePartitionInput =
  pp_target :: string
  pp_captures :: "string list"

record MergedPartitions =
  mp_fragments :: "string list"
  mp_fragmentTargets :: "string list list"
  mp_unitsByTarget :: "(string, nat list list) smap"

record profile =
  pf_modules :: "native_module list"
  pf_owners :: ownership

text \<open>The owners of the same definition in every profile (\<open>owners.at\<close> on inventories found equal).\<close>

definition owner_vector :: "profile list \<Rightarrow> string \<Rightarrow> nat list" where
  "owner_vector profiles name = map (\<lambda>p. the (map_of (pf_owners p) name)) profiles"

definition match_inventory :: "profile list \<Rightarrow> ownership \<Rightarrow> unit expected" where
  "match_inventory profiles owners =
     (case profiles of
        [] \<Rightarrow> Inr ()
      | first # _ \<Rightarrow>
          if length owners \<noteq> length (pf_owners first)
          then Inl ''target-conditioned definition presence needs additional common IR semantics''
          else forE (\<lambda>(name, unit).
                 if map_of owners name = None then Inl (''unmatched grouped native definition: '' @ name) else Inr ())
               (pf_owners first))"

definition load_profile ::
  "native_tools \<Rightarrow> ProfilePartitionInput \<Rightarrow> profile list \<times> string list \<Rightarrow> (profile list \<times> string list) expected" where
  "load_profile T x s =
     (case s of (profiles, targets) \<Rightarrow>
        if targets_find (pp_target x) = None \<or> pp_target x \<in> set targets
        then Inl ''unknown or duplicate grouped target observation''
        else
          bindE (load_captures T (pp_captures x)) (\<lambda>(modules, owners).
          bindE (match_inventory profiles owners) (\<lambda>_.
          Inr (profiles @ [\<lparr>pf_modules = modules, pf_owners = owners\<rparr>], pp_target x # targets))))"

record fragment =
  fg_owners :: "nat list"
  fg_definitions :: "string list"

record fragment_state =
  fs_fragments :: "fragment list"
  fs_indices :: "(nat list \<times> nat) list"

definition owned_here :: "ownership \<Rightarrow> nat \<Rightarrow> part_value \<Rightarrow> bool" where
  "owned_here owners unit v = (map_of owners (nv_name v) = Some unit)"

definition add_definition :: "nat list \<Rightarrow> string \<Rightarrow> fragment_state \<Rightarrow> fragment_state" where
  "add_definition owners name s =
     (let s = (case map_of (fs_indices s) owners of
                 None \<Rightarrow> s\<lparr>fs_indices := (owners, length (fs_fragments s)) # fs_indices s,
                            fs_fragments := fs_fragments s @ [\<lparr>fg_owners = owners, fg_definitions = []\<rparr>]\<rparr>
               | Some _ \<Rightarrow> s);
          k = the (map_of (fs_indices s) owners) in
      s\<lparr>fs_fragments := (fs_fragments s)[k := (fs_fragments s ! k)\<lparr>fg_definitions := List.insert name (fg_definitions (fs_fragments s ! k))\<rparr>]\<rparr>)"

text \<open>The definitions of a profile in physical order: of every unit the values it owns.\<close>

definition unit_definitions :: "profile \<Rightarrow> nat \<Rightarrow> string list" where
  "unit_definitions p unit = map nv_name (filter (owned_here (pf_owners p) unit) (global_values (pf_modules p ! unit)))"

definition discover_fragments :: "profile list \<Rightarrow> fragment_state" where
  "discover_fragments profiles =
     fold (\<lambda>name. add_definition (owner_vector profiles name) name)
       (concat (map (unit_definitions (hd profiles)) [0..<length (pf_modules (hd profiles))]))
       \<lparr>fs_fragments = [], fs_indices = []\<rparr>"

definition note_fragment :: "nat \<Rightarrow> nat list \<Rightarrow> nat list" where
  "note_fragment index units = (if index \<in> set units then units else units @ [index])"

definition unit_fragments :: "profile list \<Rightarrow> fragment_state \<Rightarrow> profile \<Rightarrow> nat \<Rightarrow> nat list" where
  "unit_fragments profiles s p unit =
     fold (\<lambda>name. note_fragment (the (map_of (fs_indices s) (owner_vector profiles name)))) (unit_definitions p unit) []"

definition profile_units :: "profile list \<Rightarrow> fragment_state \<Rightarrow> profile \<Rightarrow> nat list list" where
  "profile_units profiles s p = map (unit_fragments profiles s p) [0..<length (pf_modules p)]"

section \<open>Rebuilding the units\<close>

text \<open>
  The private directory exists; a path is its text. \<open>paths\<close> maps each fragment to the capture of the profile
  that holds it.
\<close>

definition partition_path :: "string \<Rightarrow> string \<Rightarrow> nat \<Rightarrow> string" where
  "partition_path directory target index = directory @ ''/'' @ target @ ''-'' @ to_string index @ ''.bc''"

definition split_fragment ::
  "native_tools \<Rightarrow> string \<Rightarrow> string \<Rightarrow> fragment list \<Rightarrow> native_module \<Rightarrow> nat \<Rightarrow> string list \<times> native_module list \<Rightarrow>
   (string list \<times> native_module list) expected" where
  "split_fragment T directory target fragments m index s =
     (case s of (paths, slices) \<Rightarrow>
        bindE (slice T m (fg_definitions (fragments ! index))) (\<lambda>fragment.
        bindE (nt_write T fragment (partition_path directory target index)) (\<lambda>_.
        Inr (paths[index := partition_path directory target index], slices @ [fragment]))))"

definition split_unit ::
  "native_tools \<Rightarrow> string \<Rightarrow> string \<Rightarrow> fragment list \<Rightarrow> native_module \<times> string \<times> nat list \<Rightarrow> string list \<Rightarrow> string list expected" where
  "split_unit T directory target fragments u paths =
     (case u of (m, original, indices) \<Rightarrow>
        if length indices = 1 then Inr (paths[hd indices := original])
        else
          bindE (qualifySplit m) (\<lambda>_.
          bindE (foldE (split_fragment T directory target fragments m) indices (paths, [])) (\<lambda>(paths, slices).
          bindE (provePartition T m slices) (\<lambda>_.
          Inr paths))))"

definition split_profile ::
  "native_tools \<Rightarrow> string \<Rightarrow> profile list \<Rightarrow> fragment_state \<Rightarrow> ProfilePartitionInput \<times> profile \<Rightarrow> string list expected" where
  "split_profile T directory profiles s x =
     (case x of (observation, p) \<Rightarrow>
        foldE (split_unit T directory (pp_target observation) (fs_fragments s))
          (zip (pf_modules p) (zip (pp_captures observation) (profile_units profiles s p)))
          (replicate (length (fs_fragments s)) []))"

definition fragment_output :: "string \<Rightarrow> string \<Rightarrow> nat \<Rightarrow> string" where
  "fragment_output directory prefix index = directory @ ''/'' @ prefix @ to_string index @ ''.selabc''"

definition mergeProvedPartitions ::
  "native_tools \<Rightarrow> ProfilePartitionInput list \<Rightarrow> string \<Rightarrow> MergedPartitions expected" where
  "mergeProvedPartitions T observations directory =
     (if observations = [] \<or> length observations > 256 then Inl ''invalid grouped target observation inventory''
      else
        bindE (foldE (load_profile T) observations ([], [])) (\<lambda>(profiles, targets).
        let s = discover_fragments profiles; count = length (fs_fragments s) in
        bindE (mapE (split_profile T directory profiles s) (zip observations profiles)) (\<lambda>fragmentPaths.
        bindE (mapE (\<lambda>i. let output = fragment_output directory ''fragment-'' i in
                 bindE (nt_mergeProfiles T (map (\<lambda>(x, paths). (pp_target x, paths ! i)) (zip observations fragmentPaths)) output)
                   (\<lambda>_. Inr output)) [0..<count]) (\<lambda>outputs.
        Inr \<lparr>mp_fragments = outputs,
             mp_fragmentTargets = replicate count (map pp_target observations),
             mp_unitsByTarget =
               fold (\<lambda>(x, p). smap_put (pp_target x) (profile_units profiles s p)) (zip observations profiles) []\<rparr>))))"

section \<open>The original units\<close>

text \<open>
  Where no regrouping is proved the units are kept, and units of different targets with the same inventory
  of definitions are grouped.
\<close>

record capture_group =
  gp_key :: string
  gp_captures :: "(string \<times> string) list"
  gp_targets :: "string list"

definition definition_key :: "native_module \<Rightarrow> string" where
  "definition_key m =
     concat (map (\<lambda>name. to_string (length name) @ '':'' @ name)
       (sort (remdups (map nv_name (filter (\<lambda>v. \<not> nv_declaration v) (global_values m))))))"

fun group_position :: "string \<Rightarrow> string \<Rightarrow> capture_group list \<Rightarrow> nat" where
  "group_position key target [] = 0"
| "group_position key target (g # gs) =
     (if gp_key g \<noteq> key \<or> target \<in> set (gp_targets g) then Suc (group_position key target gs) else 0)"

definition group_capture ::
  "native_tools \<Rightarrow> string \<Rightarrow> string \<Rightarrow> capture_group list \<times> nat list list \<Rightarrow> (capture_group list \<times> nat list list) expected" where
  "group_capture T target path s =
     (case s of (groups, units) \<Rightarrow>
        (case nt_parse T path of
           None \<Rightarrow> Inl (''invalid scoped native capture: '' @ path)
         | Some m \<Rightarrow>
             if \<not> nt_wellformed T m then Inl (''invalid scoped native capture: '' @ path)
             else
               let key = definition_key m; index = group_position key target groups;
                   groups = (if index = length groups
                             then groups @ [\<lparr>gp_key = key, gp_captures = [], gp_targets = []\<rparr>] else groups);
                   g = groups ! index in
               Inr (groups[index := g\<lparr>gp_captures := gp_captures g @ [(target, path)],
                                      gp_targets := List.insert target (gp_targets g)\<rparr>],
                    units @ [[index]])))"

definition group_target ::
  "native_tools \<Rightarrow> ProfilePartitionInput \<Rightarrow> capture_group list \<times> string list \<times> (string, nat list list) smap \<Rightarrow>
   (capture_group list \<times> string list \<times> (string, nat list list) smap) expected" where
  "group_target T x s =
     (case s of (groups, targets, units) \<Rightarrow>
        if targets_find (pp_target x) = None \<or> pp_target x \<in> set targets \<or>
           pp_captures x = [] \<or> length (pp_captures x) > 256
        then Inl ''invalid grouped target capture inventory''
        else
          bindE (foldE (group_capture T (pp_target x)) (pp_captures x) (groups, [])) (\<lambda>(groups, mine).
          Inr (groups, pp_target x # targets, smap_put (pp_target x) mine units)))"

definition mergeScopedUnits ::
  "native_tools \<Rightarrow> ProfilePartitionInput list \<Rightarrow> string \<Rightarrow> MergedPartitions expected" where
  "mergeScopedUnits T observations directory =
     (if observations = [] \<or> length observations > 256 then Inl ''invalid grouped observation inventory''
      else
        bindE (foldE (group_target T) observations ([], [], [])) (\<lambda>(groups, targets, units).
        bindE (mapE (\<lambda>(index, g). let output = fragment_output directory ''scoped-fragment-'' index in
                 bindE (nt_mergeProfiles T (gp_captures g) output) (\<lambda>_. Inr output)) (List.enumerate 0 groups)) (\<lambda>outputs.
        Inr \<lparr>mp_fragments = outputs,
             mp_fragmentTargets = map (\<lambda>g. map fst (gp_captures g)) groups,
             mp_unitsByTarget = units\<rparr>)))"

definition mergeProfilePartitions ::
  "native_tools \<Rightarrow> ProfilePartitionInput list \<Rightarrow> string \<Rightarrow> MergedPartitions expected" where
  "mergeProfilePartitions T observations directory =
     (case mergeProvedPartitions T observations directory of
        Inr shared \<Rightarrow> Inr shared
      | Inl _ \<Rightarrow> mergeScopedUnits T observations directory)"

end
