(* ===== verification/Partitions_Facts.thy ===== *)
theory Partitions_Facts
  imports Partitions
begin

text \<open>
  Both regroupings are partitions: per target, the units list every fragment of the target exactly once. The
  facts follow the phases: ownership, fragments, units, and the groups of kept units.
\<close>

section \<open>Lists\<close>

lemma distinct_concat_upt:
  assumes "\<And>i. i < n \<Longrightarrow> distinct (f i)"
    and "\<And>i j x. i < n \<Longrightarrow> j < n \<Longrightarrow> x \<in> set (f i) \<Longrightarrow> x \<in> set (f j) \<Longrightarrow> i = j"
  shows "distinct (concat (map f [0..<n]))"
  using assms
proof (induction n)
  case 0
  then show ?case by simp
next
  case (Suc n)
  have "distinct (concat (map f [0..<n]))" by (rule Suc.IH) (use Suc.prems in \<open>auto simp: less_Suc_eq\<close>)
  moreover have "x \<notin> set (f n)" if "i < n" "x \<in> set (f i)" for i x
    using Suc.prems(2) [of i n x] that by auto
  moreover have "distinct (f n)" using Suc.prems(1) by simp
  ultimately show ?case by auto
qed

section \<open>Ownership\<close>

definition owners_inv :: "native_module list \<Rightarrow> ownership \<Rightarrow> bool" where
  "owners_inv modules owners \<longleftrightarrow>
     smap_wf owners \<and>
     (\<forall>n j. map_of owners n = Some j \<longrightarrow> j < length modules \<and> n \<in> nv_name ` set (global_values (modules ! j))) \<and>
     (\<forall>j < length modules. \<exists>n. map_of owners n = Some j)"

lemma load_values:
  assumes "foldE (load_value u) vs (owners, 0) = Inr (owners', d)" "smap_wf owners"
  shows "smap_wf owners' \<and>
    (\<forall>n j. map_of owners' n = Some j \<longrightarrow> map_of owners n = Some j \<or> j = u \<and> n \<in> nv_name ` set vs) \<and>
    (\<forall>n j. map_of owners n = Some j \<longrightarrow> map_of owners' n = Some j) \<and>
    (0 < d \<longrightarrow> (\<exists>n. map_of owners' n = Some u))"
proof -
  let ?P = "\<lambda>(o', d). smap_wf o' \<and>
    (\<forall>n j. map_of o' n = Some j \<longrightarrow> map_of owners n = Some j \<or> j = u \<and> n \<in> nv_name ` set vs) \<and>
    (\<forall>n j. map_of owners n = Some j \<longrightarrow> map_of o' n = Some j) \<and>
    ((0::nat) < d \<longrightarrow> (\<exists>n. map_of o' n = Some u))"
  have "?P (owners', d)"
  proof (rule foldE_invariant [OF assms(1)])
    show "?P (owners, 0)" using assms(2) by simp
  next
    fix v s t assume v: "v \<in> set vs" and P: "?P s" and step: "load_value u v s = Inr t"
    obtain o1 d1 where s: "s = (o1, d1)" by fastforce
    from step have "t = s \<or> (map_of o1 (nv_name v) = None \<and> t = (smap_put (nv_name v) u o1, d1 + 1))"
      by (auto simp: load_value_def s split: if_splits)
    then show "?P t"
    proof
      assume "t = s"
      with P show ?thesis by simp
    next
      assume t: "map_of o1 (nv_name v) = None \<and> t = (smap_put (nv_name v) u o1, d1 + 1)"
      have wf: "smap_wf o1" using P by (simp add: s)
      have "map_of (smap_put (nv_name v) u o1) = (map_of o1)(nv_name v \<mapsto> u)" by (rule smap_at_put [OF wf])
      with t P v wf show ?thesis by (auto simp: s smap_put_wf)
    qed
  qed
  then show ?thesis by simp
qed

lemma load_capture_inv:
  assumes "load_capture T path (modules, owners) = Inr s" "owners_inv modules owners"
  shows "owners_inv (fst s) (snd s) \<and> length (fst s) = Suc (length modules)"
proof -
  from assms(1) obtain m owners' d where
    run: "foldE (load_value (length modules)) (global_values m) (owners, 0) = Inr (owners', d)" and d: "d \<noteq> 0" and
    s: "s = (modules @ [m], owners')"
    by (auto simp: load_capture_def bindE_Inr_iff split: option.splits if_splits)
  have wf: "smap_wf owners" using assms(2) by (simp add: owners_inv_def)
  note f = load_values [OF run wf]
  have old: "j < length modules \<and> n \<in> nv_name ` set (global_values (modules ! j))" if "map_of owners n = Some j" for n j
    using assms(2) that by (auto simp: owners_inv_def)
  have "j < length (modules @ [m]) \<and> n \<in> nv_name ` set (global_values ((modules @ [m]) ! j))"
    if "map_of owners' n = Some j" for n j
  proof -
    from that f have "map_of owners n = Some j \<or> j = length modules \<and> n \<in> nv_name ` set (global_values m)" by blast
    then show ?thesis
    proof
      assume "map_of owners n = Some j"
      from old [OF this] show ?thesis by (simp add: nth_append)
    qed simp
  qed
  moreover have "\<exists>n. map_of owners' n = Some j" if "j < length (modules @ [m])" for j
  proof (cases "j = length modules")
    case True
    with f d show ?thesis by auto
  next
    case False
    with that have "j < length modules" by simp
    then obtain n where "map_of owners n = Some j" using assms(2) by (auto simp: owners_inv_def)
    with f show ?thesis by blast
  qed
  ultimately show ?thesis using f by (simp add: owners_inv_def s)
qed

lemma load_captures_inv:
  assumes "load_captures T paths = Inr (modules, owners)"
  shows "owners_inv modules owners" "length modules = length paths" "paths \<noteq> []"
proof -
  have gen: "foldE (load_capture T) ps (ms, os) = Inr (modules, owners) \<Longrightarrow> owners_inv ms os \<Longrightarrow>
      owners_inv modules owners \<and> length modules = length ms + length ps" for ps ms os
  proof (induction ps arbitrary: ms os)
    case Nil
    then show ?case by simp
  next
    case (Cons p ps)
    then obtain s where s: "load_capture T p (ms, os) = Inr s" "foldE (load_capture T) ps s = Inr (modules, owners)"
      by (auto simp: bindE_Inr_iff)
    from load_capture_inv [OF s(1) Cons.prems(2)] Cons.IH [of "fst s" "snd s"] s(2) show ?case by simp
  qed
  from assms have run: "foldE (load_capture T) paths ([], []) = Inr (modules, owners)" and ne: "paths \<noteq> []"
    by (auto simp: load_captures_def split: if_splits)
  have "owners_inv [] []" by (simp add: owners_inv_def)
  from gen [OF run this] ne show "owners_inv modules owners" "length modules = length paths" "paths \<noteq> []" by simp_all
qed

section \<open>Profiles\<close>

definition profile_of :: "ProfilePartitionInput \<Rightarrow> profile \<Rightarrow> bool" where
  "profile_of x p \<longleftrightarrow> owners_inv (pf_modules p) (pf_owners p) \<and> length (pf_modules p) = length (pp_captures x)"

definition same_inventory :: "profile list \<Rightarrow> bool" where
  "same_inventory profiles \<longleftrightarrow>
     (\<forall>p \<in> set profiles. dom (map_of (pf_owners p)) = dom (map_of (pf_owners (hd profiles))))"

lemma match_inventory_dom:
  assumes "match_inventory profiles owners = Inr ()" "profiles \<noteq> []" "smap_wf owners" "smap_wf (pf_owners (hd profiles))"
  shows "dom (map_of owners) = dom (map_of (pf_owners (hd profiles)))"
proof -
  obtain first rest where p: "profiles = first # rest" using assms(2) by (cases profiles) auto
  from assms(1) have len: "length owners = length (pf_owners first)"
    and sub: "\<forall>(n, u) \<in> set (pf_owners first). map_of owners n \<noteq> None"
    by (auto simp: match_inventory_def p forE_success_iff split: if_splits)
  have "dom (map_of (pf_owners first)) \<subseteq> dom (map_of owners)"
    using sub by (auto simp: dom_def dest!: map_of_SomeD)
  moreover have "card (dom (map_of (pf_owners first))) = length owners"
    using smap.count_dom [of "pf_owners first"] assms(4) len by (simp add: p)
  ultimately show ?thesis
    using smap.covers_dom [OF assms(3), of "dom (map_of (pf_owners first))"] by (simp add: p)
qed

lemma load_profiles:
  assumes "foldE (load_profile T) xs (ps, ts) = Inr (profiles, targets)"
    and "list_all2 profile_of done ps" "same_inventory ps" "ts = rev (map pp_target done)" "distinct ts"
  shows "list_all2 profile_of (done @ xs) profiles \<and> same_inventory profiles \<and>
    distinct (map pp_target (done @ xs)) \<and> set targets = pp_target ` set (done @ xs)"
  using assms
proof (induction xs arbitrary: ps ts "done")
  case Nil
  then show ?case by auto
next
  case (Cons x xs)
  from Cons.prems(1) obtain s where s: "load_profile T x (ps, ts) = Inr s" "foldE (load_profile T) xs s = Inr (profiles, targets)"
    by (auto simp: bindE_Inr_iff)
  from s(1) obtain modules owners where l: "load_captures T (pp_captures x) = Inr (modules, owners)"
    and m: "match_inventory ps owners = Inr ()" and new: "pp_target x \<notin> set ts"
    and eq: "s = (ps @ [\<lparr>pf_modules = modules, pf_owners = owners\<rparr>], pp_target x # ts)"
    by (auto simp: load_profile_def bindE_Inr_iff split: if_splits)
  note inv = load_captures_inv [OF l]
  have x: "profile_of x \<lparr>pf_modules = modules, pf_owners = owners\<rparr>" using inv by (simp add: profile_of_def)
  have same: "same_inventory (ps @ [\<lparr>pf_modules = modules, pf_owners = owners\<rparr>])"
  proof (cases "ps = []")
    case True
    then show ?thesis by (simp add: same_inventory_def)
  next
    case False
    then obtain y where "profile_of y (hd ps)" using Cons.prems(2) by (cases ps; cases "done") auto
    then have "smap_wf (pf_owners (hd ps))" by (simp add: profile_of_def owners_inv_def)
    moreover have "smap_wf owners" using inv(1) by (simp add: owners_inv_def)
    ultimately have "dom (map_of owners) = dom (map_of (pf_owners (hd ps)))" using match_inventory_dom [OF m False] by simp
    moreover have "hd (ps @ [\<lparr>pf_modules = modules, pf_owners = owners\<rparr>]) = hd ps" using False by simp
    ultimately show ?thesis
      using Cons.prems(3) unfolding same_inventory_def by (metis profile.select_convs(2) set_append Un_iff singletonD list.set(1,2))
  qed
  have "list_all2 profile_of (done @ [x]) (ps @ [\<lparr>pf_modules = modules, pf_owners = owners\<rparr>])"
    using Cons.prems(2) x by (simp add: list_all2_appendI)
  from Cons.IH [OF s(2) [unfolded eq] this same] Cons.prems(4,5) new show ?case by simp
qed

lemma unit_definitions_iff:
  assumes "owners_inv (pf_modules p) (pf_owners p)" "u < length (pf_modules p)"
  shows "n \<in> set (unit_definitions p u) \<longleftrightarrow> map_of (pf_owners p) n = Some u"
  using assms by (fastforce simp: unit_definitions_def owned_here_def owners_inv_def image_iff)

section \<open>Fragments\<close>

definition fragments_inv :: "(string \<Rightarrow> nat list) \<Rightarrow> string set \<Rightarrow> fragment_state \<Rightarrow> bool" where
  "fragments_inv vec seen s \<longleftrightarrow>
     (\<forall>v k. map_of (fs_indices s) v = Some k \<longleftrightarrow> k < length (fs_fragments s) \<and> fg_owners (fs_fragments s ! k) = v) \<and>
     (\<forall>k < length (fs_fragments s). set (fg_definitions (fs_fragments s ! k)) = {n \<in> seen. vec n = fg_owners (fs_fragments s ! k)} \<and>
        fg_definitions (fs_fragments s ! k) \<noteq> []) \<and>
     (\<forall>n \<in> seen. map_of (fs_indices s) (vec n) \<noteq> None)"

lemma add_definition_inv:
  assumes "fragments_inv vec seen s"
  shows "fragments_inv vec (insert n seen) (add_definition (vec n) n s)"
proof (cases "map_of (fs_indices s) (vec n)")
  case None
  let ?n = "length (fs_fragments s)"
  have tab: "map_of (fs_indices s) v = Some k \<longleftrightarrow> k < ?n \<and> fg_owners (fs_fragments s ! k) = v" for v k
    using assms by (simp add: fragments_inv_def)
  have fresh: "fg_owners (fs_fragments s ! k) \<noteq> vec n" if "k < ?n" for k using tab [of "vec n" k] None that by auto
  have unseen: "vec m \<noteq> vec n" if "m \<in> seen" for m using assms None that by (auto simp: fragments_inv_def)
  have s': "add_definition (vec n) n s =
    \<lparr>fs_fragments = fs_fragments s @ [\<lparr>fg_owners = vec n, fg_definitions = [n]\<rparr>], fs_indices = (vec n, ?n) # fs_indices s\<rparr>"
    using None by (simp add: add_definition_def Let_def)
  have "map_of ((vec n, ?n) # fs_indices s) v = Some k \<longleftrightarrow>
      k < Suc ?n \<and> fg_owners ((fs_fragments s @ [\<lparr>fg_owners = vec n, fg_definitions = [n]\<rparr>]) ! k) = v" for v k
    using tab [of v k] fresh by (cases "k < ?n") (auto simp: nth_append less_Suc_eq)
  moreover have "set (fg_definitions (fs_fragments s ! k)) = {m \<in> insert n seen. vec m = fg_owners (fs_fragments s ! k)}"
    if "k < ?n" for k using assms fresh [OF that] that by (auto simp: fragments_inv_def)
  moreover have "map_of ((vec n, ?n) # fs_indices s) (vec m) \<noteq> None" if "m \<in> insert n seen" for m
    using assms that by (auto simp: fragments_inv_def)
  moreover have "{m \<in> insert n seen. vec m = vec n} = {n}" using unseen by auto
  ultimately show ?thesis using assms unfolding fragments_inv_def s' by (auto simp: nth_append less_Suc_eq)
next
  case (Some k)
  have tab: "map_of (fs_indices s) v = Some k \<longleftrightarrow> k < length (fs_fragments s) \<and> fg_owners (fs_fragments s ! k) = v" for v k
    using assms by (simp add: fragments_inv_def)
  from tab [of "vec n" k] Some have k: "k < length (fs_fragments s)" "fg_owners (fs_fragments s ! k) = vec n" by auto
  let ?f = "(fs_fragments s ! k)\<lparr>fg_definitions := List.insert n (fg_definitions (fs_fragments s ! k))\<rparr>"
  have s': "add_definition (vec n) n s = s\<lparr>fs_fragments := (fs_fragments s)[k := ?f]\<rparr>"
    using Some by (simp add: add_definition_def Let_def)
  have owners: "fg_owners ((fs_fragments s)[k := ?f] ! j) = fg_owners (fs_fragments s ! j)" if "j < length (fs_fragments s)" for j
    using that by (cases "j = k") auto
  have other: "vec n \<noteq> fg_owners (fs_fragments s ! j)" if "j < length (fs_fragments s)" "j \<noteq> k" for j
    using tab [of "vec n" j] Some that by auto
  have "set (fg_definitions ((fs_fragments s)[k := ?f] ! j)) =
      {m \<in> insert n seen. vec m = fg_owners (fs_fragments s ! j)} \<and> fg_definitions ((fs_fragments s)[k := ?f] ! j) \<noteq> []"
    if j: "j < length (fs_fragments s)" for j
    using assms j k other [OF j] by (cases "j = k") (auto simp: fragments_inv_def List.insert_def)
  then show ?thesis using assms owners tab Some by (auto simp: fragments_inv_def s')
qed

lemma add_definitions_inv:
  "fragments_inv vec seen s \<Longrightarrow> fragments_inv vec (seen \<union> set ns) (fold (\<lambda>n. add_definition (vec n) n) ns s)"
proof (induction ns arbitrary: seen s)
  case (Cons n ns)
  from Cons.IH [OF add_definition_inv [OF Cons.prems, of n]] show ?case by simp
qed simp

lemma discover_fragments_inv:
  assumes "profiles \<noteq> []" "owners_inv (pf_modules (hd profiles)) (pf_owners (hd profiles))"
  shows "fragments_inv (owner_vector profiles) (dom (map_of (pf_owners (hd profiles)))) (discover_fragments profiles)"
proof -
  let ?p = "hd profiles"
  have "set (concat (map (unit_definitions ?p) [0..<length (pf_modules ?p)])) = dom (map_of (pf_owners ?p))"
    using assms(2) unit_definitions_iff [OF assms(2)] by (fastforce simp: owners_inv_def)
  moreover have "fragments_inv (owner_vector profiles) {} \<lparr>fs_fragments = [], fs_indices = []\<rparr>"
    by (simp add: fragments_inv_def)
  ultimately show ?thesis
    using add_definitions_inv [of "owner_vector profiles" "{}" "\<lparr>fs_fragments = [], fs_indices = []\<rparr>"]
    unfolding discover_fragments_def by (metis Un_empty_left)
qed

section \<open>Units of a profile\<close>

lemma note_fragments:
  "distinct acc \<Longrightarrow> distinct (fold (\<lambda>n. note_fragment (f n)) ns acc) \<and>
   set (fold (\<lambda>n. note_fragment (f n)) ns acc) = set acc \<union> f ` set ns"
  by (induction ns arbitrary: acc) (auto simp: note_fragment_def)

lemma unit_fragments_facts:
  assumes "owners_inv (pf_modules p) (pf_owners p)" "u < length (pf_modules p)"
    and "fragments_inv (owner_vector profiles) (dom (map_of (pf_owners p))) s"
  shows "distinct (unit_fragments profiles s p u)" "unit_fragments profiles s p u \<noteq> []"
    "k \<in> set (unit_fragments profiles s p u) \<longleftrightarrow>
      (\<exists>n. map_of (pf_owners p) n = Some u \<and> map_of (fs_indices s) (owner_vector profiles n) = Some k)"
proof -
  let ?f = "\<lambda>n. the (map_of (fs_indices s) (owner_vector profiles n))"
  have noted: "distinct (unit_fragments profiles s p u)" "set (unit_fragments profiles s p u) = ?f ` set (unit_definitions p u)"
    using note_fragments [of "[]" ?f] by (simp_all add: unit_fragments_def)
  show "distinct (unit_fragments profiles s p u)" by (rule noted(1))
  note iff = unit_definitions_iff [OF assms(1,2)]
  obtain n where "map_of (pf_owners p) n = Some u" using assms(1,2) by (auto simp: owners_inv_def)
  then have "set (unit_fragments profiles s p u) \<noteq> {}" using noted(2) iff by auto
  then show "unit_fragments profiles s p u \<noteq> []" by auto
  have some: "\<exists>k. map_of (fs_indices s) (owner_vector profiles n) = Some k" if "map_of (pf_owners p) n = Some u" for n
  proof -
    from that have "n \<in> dom (map_of (pf_owners p))" by blast
    with assms(3) have "map_of (fs_indices s) (owner_vector profiles n) \<noteq> None" unfolding fragments_inv_def by blast
    then show ?thesis by simp
  qed
  show "k \<in> set (unit_fragments profiles s p u) \<longleftrightarrow>
      (\<exists>n. map_of (pf_owners p) n = Some u \<and> map_of (fs_indices s) (owner_vector profiles n) = Some k)"
  proof -
    have "k \<in> set (unit_fragments profiles s p u) \<longleftrightarrow> (\<exists>n. map_of (pf_owners p) n = Some u \<and> k = ?f n)"
      by (auto simp: noted(2) iff)
    also have "\<dots> \<longleftrightarrow> (\<exists>n. map_of (pf_owners p) n = Some u \<and> map_of (fs_indices s) (owner_vector profiles n) = Some k)"
      using some by (metis option.sel)
    finally show ?thesis .
  qed
qed

definition unit_cover :: "nat set \<Rightarrow> nat list list \<Rightarrow> bool" where
  "unit_cover active units \<longleftrightarrow> [] \<notin> set units \<and> distinct (concat units) \<and> set (concat units) = active"

lemma profile_units_cover:
  assumes "q < length profiles" "p = profiles ! q" "owners_inv (pf_modules p) (pf_owners p)"
    and "fragments_inv (owner_vector profiles) (dom (map_of (pf_owners p))) s"
  shows "unit_cover {..<length (fs_fragments s)} (profile_units profiles s p)"
proof -
  note facts = unit_fragments_facts [OF assms(3) _ assms(4)]
  have tab: "map_of (fs_indices s) v = Some k \<longleftrightarrow> k < length (fs_fragments s) \<and> fg_owners (fs_fragments s ! k) = v" for v k
    using assms(4) by (simp add: fragments_inv_def)
  have owner: "u = fg_owners (fs_fragments s ! k) ! q"
    if "u < length (pf_modules p)" "k \<in> set (unit_fragments profiles s p u)" for u k
    using facts(3) [OF that(1)] that(2) assms(1,2) by (auto simp: tab owner_vector_def)
  have "distinct (concat (profile_units profiles s p))"
    unfolding profile_units_def
  proof (rule distinct_concat_upt)
    fix i j k assume "i < length (pf_modules p)" "j < length (pf_modules p)"
      "k \<in> set (unit_fragments profiles s p i)" "k \<in> set (unit_fragments profiles s p j)"
    then show "i = j" using owner [of i k] owner [of j k] by simp
  qed (rule facts(1))
  moreover have "set (concat (profile_units profiles s p)) = {..<length (fs_fragments s)}"
  proof (intro equalityI subsetI)
    fix k assume "k \<in> set (concat (profile_units profiles s p))"
    then obtain u where "u < length (pf_modules p)" "k \<in> set (unit_fragments profiles s p u)"
      by (auto simp: profile_units_def)
    then show "k \<in> {..<length (fs_fragments s)}" using facts(3) by (auto simp: tab)
  next
    fix k assume "k \<in> {..<length (fs_fragments s)}"
    then have k: "k < length (fs_fragments s)" by simp
    from k assms(4) have "fg_definitions (fs_fragments s ! k) \<noteq> []" unfolding fragments_inv_def by blast
    then obtain n where "n \<in> set (fg_definitions (fs_fragments s ! k))" by (meson list.set_sel(1))
    then have n: "n \<in> dom (map_of (pf_owners p))" "owner_vector profiles n = fg_owners (fs_fragments s ! k)"
      using assms(4) k by (auto simp: fragments_inv_def)
    then obtain u where u: "map_of (pf_owners p) n = Some u" by blast
    then have "u < length (pf_modules p)" using assms(3) by (simp add: owners_inv_def)
    moreover have "k \<in> set (unit_fragments profiles s p u)" using facts(3) calculation u n(2) k by (auto simp: tab)
    ultimately show "k \<in> set (concat (profile_units profiles s p))" by (auto simp: profile_units_def)
  qed
  moreover have "[] \<notin> set (profile_units profiles s p)"
    using facts(2) unfolding profile_units_def by (metis atLeastLessThan_iff imageE list.set_map set_upt)
  ultimately show ?thesis unfolding unit_cover_def by blast
qed

section \<open>The proved partition\<close>

text \<open>
  The specification: a fragment has its targets, a target its units, and the units of a target cover the
  fragments of the target exactly.
\<close>

definition fragments_of :: "MergedPartitions \<Rightarrow> string \<Rightarrow> nat set" where
  "fragments_of r t = {i. i < length (mp_fragmentTargets r) \<and> t \<in> set (mp_fragmentTargets r ! i)}"

definition partition_ok :: "ProfilePartitionInput list \<Rightarrow> MergedPartitions \<Rightarrow> bool" where
  "partition_ok observations r \<longleftrightarrow>
     length (mp_fragments r) = length (mp_fragmentTargets r) \<and>
     (\<forall>ts \<in> set (mp_fragmentTargets r). ts \<noteq> [] \<and> distinct ts \<and> set ts \<subseteq> pp_target ` set observations) \<and>
     distinct (map pp_target observations) \<and>
     smap_wf (mp_unitsByTarget r) \<and> dom (map_of (mp_unitsByTarget r)) = pp_target ` set observations \<and>
     (\<forall>x \<in> set observations. \<exists>units. map_of (mp_unitsByTarget r) (pp_target x) = Some units \<and>
        units \<noteq> [] \<and> length units = length (pp_captures x) \<and> unit_cover (fragments_of r (pp_target x)) units)"

lemma mergeProvedPartitions_ok:
  assumes "mergeProvedPartitions T observations directory = Inr r"
  shows "partition_ok observations r"
proof -
  from assms obtain profiles targets outputs where
    ne: "observations \<noteq> []" and
    loaded: "foldE (load_profile T) observations ([], []) = Inr (profiles, targets)" and
    outputs: "length outputs = length (fs_fragments (discover_fragments profiles))" and
    r: "r = \<lparr>mp_fragments = outputs,
      mp_fragmentTargets = replicate (length (fs_fragments (discover_fragments profiles))) (map pp_target observations),
      mp_unitsByTarget = fold (\<lambda>(x, p). smap_put (pp_target x) (profile_units profiles (discover_fragments profiles) p))
        (zip observations profiles) []\<rparr>"
    by (auto simp: mergeProvedPartitions_def bindE_Inr_iff Let_def dest: mapE_length split: if_splits)
  let ?s = "discover_fragments profiles"
  let ?unit = "\<lambda>(x, p). (pp_target x, profile_units profiles ?s p)"
  let ?kvs = "map ?unit (zip observations profiles)"
  have "same_inventory []" by (simp add: same_inventory_def)
  from load_profiles [OF loaded, of "[]"] this have
    all: "list_all2 profile_of observations profiles" and same: "same_inventory profiles" and
    distinct: "distinct (map pp_target observations)" by simp_all
  have len: "length profiles = length observations" using all by (simp add: list_all2_lengthD)
  have inv: "profile_of (observations ! q) (profiles ! q)" if "q < length observations" for q
    using all that by (rule list_all2_nthD)
  have pne: "profiles \<noteq> []" using ne len by auto
  have hd: "owners_inv (pf_modules (hd profiles)) (pf_owners (hd profiles))"
    using inv [of 0] ne pne by (simp add: profile_of_def hd_conv_nth)
  note frags = discover_fragments_inv [OF pne hd]
  have cover: "unit_cover {..<length (fs_fragments ?s)} (profile_units profiles ?s (profiles ! q))"
    "length (profile_units profiles ?s (profiles ! q)) = length (pp_captures (observations ! q))"
    "pp_captures (observations ! q) \<noteq> []" if q: "q < length observations" for q
  proof -
    from inv [OF q] have o: "owners_inv (pf_modules (profiles ! q)) (pf_owners (profiles ! q))"
      and m: "length (pf_modules (profiles ! q)) = length (pp_captures (observations ! q))" by (auto simp: profile_of_def)
    have "profiles ! q \<in> set profiles" using q len by simp
    then have d: "dom (map_of (pf_owners (profiles ! q))) = dom (map_of (pf_owners (hd profiles)))"
      using same unfolding same_inventory_def by blast
    show "unit_cover {..<length (fs_fragments ?s)} (profile_units profiles ?s (profiles ! q))"
      by (rule profile_units_cover [OF _ refl o]) (use q len frags d in simp_all)
    show "length (profile_units profiles ?s (profiles ! q)) = length (pp_captures (observations ! q))"
      using m by (simp add: profile_units_def)
    have "load_captures T (pp_captures x) = Inr y \<Longrightarrow> pp_captures x \<noteq> []" for x y by (auto simp: load_captures_def split: if_splits)
    moreover have "\<exists>y. load_captures T (pp_captures x) = Inr y" if "x \<in> set observations" for x
      using loaded that
    proof (induction observations arbitrary: profiles targets rule: rev_induct)
      case Nil
      then show ?case by simp
    next
      case (snoc z zs)
      then obtain u where u: "foldE (load_profile T) zs ([], []) = Inr u" "load_profile T z u = Inr (profiles, targets)"
        by (auto simp: foldE_append bindE_Inr_iff)
      have "\<exists>y. load_captures T (pp_captures z) = Inr y"
        using u(2) by (auto simp: load_profile_def bindE_Inr_iff split: prod.splits if_splits)
      with snoc.IH [of "fst u" "snd u"] u(1) snoc.prems(2) show ?case by auto
    qed
    ultimately show "pp_captures (observations ! q) \<noteq> []" using q by (meson nth_mem)
  qed
  have keys: "map fst ?kvs = map pp_target observations"
  proof -
    have "map fst ?kvs = map pp_target (map fst (zip observations profiles))" by (simp add: case_prod_unfold)
    also have "map fst (zip observations profiles) = observations" using len by simp
    finally show ?thesis .
  qed
  have fold: "mp_unitsByTarget r = fold (\<lambda>(k, v). smap_put k v) ?kvs []"
    by (simp add: r fold_map comp_def case_prod_unfold)
  have wf: "smap_wf (mp_unitsByTarget r)" unfolding fold by (rule smap.puts_invar) simp
  have dom: "dom (map_of (mp_unitsByTarget r)) = pp_target ` set observations"
  proof -
    have "dom (map_of (mp_unitsByTarget r)) = fst ` set ?kvs" unfolding fold by (subst smap.puts_dom) simp_all
    also have "\<dots> = set (map fst ?kvs)" by (rule list.set_map [symmetric])
    finally show ?thesis unfolding keys by simp
  qed
  have units: "map_of (mp_unitsByTarget r) (pp_target (observations ! q)) = Some (profile_units profiles ?s (profiles ! q))"
    if q: "q < length observations" for q
    unfolding fold
  proof (rule smap.puts_at)
    show "distinct (map fst ?kvs)" using distinct keys by simp
    show "(pp_target (observations ! q), profile_units profiles ?s (profiles ! q)) \<in> set ?kvs"
      using q len by (force simp: in_set_zip)
  qed simp
  have frags_of: "fragments_of r (pp_target x) = {..<length (fs_fragments ?s)}" if "x \<in> set observations" for x
    using that by (auto simp: fragments_of_def r)
  have "\<exists>us. map_of (mp_unitsByTarget r) (pp_target x) = Some us \<and> us \<noteq> [] \<and>
      length us = length (pp_captures x) \<and> unit_cover (fragments_of r (pp_target x)) us" if x: "x \<in> set observations" for x
  proof -
    from x obtain q where q: "q < length observations" "observations ! q = x" by (auto simp: in_set_conv_nth)
    note at = units [OF q(1), unfolded q(2)] and c = cover [OF q(1), unfolded q(2)]
    have "profile_units profiles ?s (profiles ! q) \<noteq> []" using c(2,3) by (metis length_0_conv)
    with at c(1,2) show ?thesis unfolding frags_of [OF x] by blast
  qed
  with wf dom distinct ne outputs show ?thesis by (auto simp: partition_ok_def r)
qed

section \<open>The kept units\<close>

definition group_members :: "string \<Rightarrow> capture_group list \<Rightarrow> nat set" where
  "group_members t groups = {i. i < length groups \<and> t \<in> set (gp_targets (groups ! i))}"

definition groups_inv :: "string set \<Rightarrow> capture_group list \<Rightarrow> bool" where
  "groups_inv targets groups \<longleftrightarrow>
     (\<forall>g \<in> set groups. gp_captures g \<noteq> [] \<and> distinct (map fst (gp_captures g)) \<and>
        set (gp_targets g) = fst ` set (gp_captures g) \<and> set (gp_targets g) \<subseteq> targets)"

lemma groups_inv_mono: "groups_inv A groups \<Longrightarrow> A \<subseteq> B \<Longrightarrow> groups_inv B groups"
  unfolding groups_inv_def by blast

lemma group_position_facts:
  "group_position key t groups \<le> length groups \<and>
   (group_position key t groups < length groups \<longrightarrow>
      t \<notin> set (gp_targets (groups ! group_position key t groups)))"
  by (induction key t groups rule: group_position.induct) auto

lemma group_capture_step:
  assumes "group_capture T t path (groups, units) = Inr s" "groups_inv targets groups"
  shows "\<exists>k groups'. s = (groups', units @ [[k]]) \<and> groups_inv (insert t targets) groups' \<and>
    k \<notin> group_members t groups \<and> group_members t groups' = insert k (group_members t groups) \<and>
    (\<forall>u. u \<noteq> t \<longrightarrow> group_members u groups' = group_members u groups)"
proof -
  from assms(1) obtain m where m: "nt_parse T path = Some m" by (auto simp: group_capture_def split: option.splits)
  define k where "k = group_position (definition_key m) t groups"
  have pos: "k \<le> length groups" "k < length groups \<Longrightarrow> t \<notin> set (gp_targets (groups ! k))"
    using group_position_facts by (auto simp: k_def)
  define more where "more = (if k = length groups then groups @ [\<lparr>gp_key = definition_key m, gp_captures = [], gp_targets = []\<rparr>] else groups)"
  define g where "g = (more ! k)\<lparr>gp_captures := gp_captures (more ! k) @ [(t, path)],
    gp_targets := List.insert t (gp_targets (more ! k))\<rparr>"
  have s: "s = (more[k := g], units @ [[k]])"
    using assms(1) m by (auto simp: group_capture_def Let_def k_def more_def g_def split: if_splits)
  have k: "k < length more" using pos(1) by (auto simp: more_def)
  have old: "group_members u more = group_members u groups" for u
    by (auto simp: group_members_def more_def nth_append less_Suc_eq)
  have new: "set (gp_targets (more ! k)) = fst ` set (gp_captures (more ! k)) \<and> t \<notin> set (gp_targets (more ! k)) \<and>
      distinct (map fst (gp_captures (more ! k))) \<and> set (gp_targets (more ! k)) \<subseteq> targets"
  proof (cases "k = length groups")
    case True
    then show ?thesis by (simp add: more_def)
  next
    case False
    then have "groups ! k \<in> set groups" using pos(1) by simp
    with assms(2) have "distinct (map fst (gp_captures (groups ! k))) \<and>
        set (gp_targets (groups ! k)) = fst ` set (gp_captures (groups ! k)) \<and> set (gp_targets (groups ! k)) \<subseteq> targets"
      unfolding groups_inv_def by blast
    moreover have "more ! k = groups ! k" using False by (simp add: more_def)
    moreover have "t \<notin> set (gp_targets (groups ! k))" using False pos by simp
    ultimately show ?thesis by metis
  qed
  have "groups_inv (insert t targets) (more[k := g])"
    unfolding groups_inv_def
  proof
    fix h assume "h \<in> set (more[k := g])"
    then obtain i where "i < length more" "h = more[k := g] ! i" by (auto simp: in_set_conv_nth)
    then consider "h = g" | "i \<noteq> k" "h = more ! i" "i < length more" by (cases "i = k") auto
    then show "gp_captures h \<noteq> [] \<and> distinct (map fst (gp_captures h)) \<and>
        set (gp_targets h) = fst ` set (gp_captures h) \<and> set (gp_targets h) \<subseteq> insert t targets"
    proof cases
      case 1
      with new show ?thesis by (auto simp: g_def)
    next
      case 2
      then have "h \<in> set groups" using pos(1) by (auto simp: more_def nth_append split: if_splits)
      with assms(2) show ?thesis unfolding groups_inv_def by blast
    qed
  qed
  moreover have "k \<notin> group_members t groups" using new old [of t] k by (auto simp: group_members_def)
  moreover have "group_members u (more[k := g]) = (if u = t then insert k (group_members t more) else group_members u more)" for u
    using k by (auto simp: group_members_def g_def nth_list_update split: if_splits)
  ultimately show ?thesis using s old by auto
qed

lemma unit_cover_snoc:
  "unit_cover A units \<Longrightarrow> k \<notin> A \<Longrightarrow> unit_cover (insert k A) (units @ [[k]])"
  by (auto simp: unit_cover_def)

lemma group_captures_inv:
  assumes "foldE (group_capture T t) paths (groups, units) = Inr s" "groups_inv targets groups"
    and "unit_cover (group_members t groups) units"
  shows "groups_inv (insert t targets) (fst s) \<and> unit_cover (group_members t (fst s)) (snd s) \<and>
    length (snd s) = length units + length paths \<and>
    (\<forall>u. u \<noteq> t \<longrightarrow> group_members u (fst s) = group_members u groups)"
  using assms
proof (induction paths arbitrary: groups units targets)
  case Nil
  then show ?case using groups_inv_mono [OF Nil.prems(2) subset_insertI] by auto
next
  case (Cons path paths)
  from Cons.prems(1) obtain s1 where s1: "group_capture T t path (groups, units) = Inr s1" "foldE (group_capture T t) paths s1 = Inr s"
    by (auto simp: bindE_Inr_iff)
  from group_capture_step [OF s1(1) Cons.prems(2)] obtain k groups' where
    k: "s1 = (groups', units @ [[k]])" "groups_inv (insert t targets) groups'" "k \<notin> group_members t groups"
      "group_members t groups' = insert k (group_members t groups)" "\<forall>u. u \<noteq> t \<longrightarrow> group_members u groups' = group_members u groups"
    by auto
  have "unit_cover (group_members t groups') (units @ [[k]])"
    using unit_cover_snoc [OF Cons.prems(3) k(3)] k(4) by simp
  from Cons.IH [OF s1(2) [unfolded k(1)] k(2) this] k(5) show ?case by simp
qed

definition scoped_inv :: "ProfilePartitionInput list \<Rightarrow> capture_group list \<times> string list \<times> (string, nat list list) smap \<Rightarrow> bool" where
  "scoped_inv done s \<longleftrightarrow>
     (case s of (groups, targets, units) \<Rightarrow>
        set targets = pp_target ` set done \<and> distinct (map pp_target done) \<and>
        groups_inv (set targets) groups \<and> smap_wf units \<and> dom (map_of units) = set targets \<and>
        (\<forall>x \<in> set done. \<exists>us. map_of units (pp_target x) = Some us \<and> us \<noteq> [] \<and>
           length us = length (pp_captures x) \<and> unit_cover (group_members (pp_target x) groups) us))"

lemma group_target_inv:
  assumes "group_target T x (groups, targets, units) = Inr s" "scoped_inv done (groups, targets, units)"
  shows "scoped_inv (done @ [x]) s"
proof -
  let ?t = "pp_target x"
  from assms(1) obtain groups' mine where new: "?t \<notin> set targets" and ne: "pp_captures x \<noteq> []"
    and run: "foldE (group_capture T ?t) (pp_captures x) (groups, []) = Inr (groups', mine)"
    and s: "s = (groups', ?t # targets, smap_put ?t mine units)"
    by (auto simp: group_target_def bindE_Inr_iff split: if_splits)
  from assms(2) have inv: "set targets = pp_target ` set done" "distinct (map pp_target done)" "groups_inv (set targets) groups"
    "smap_wf units" "dom (map_of units) = set targets" unfolding scoped_inv_def prod.case by blast+
  have each: "\<exists>us. map_of units (pp_target y) = Some us \<and> us \<noteq> [] \<and> length us = length (pp_captures y) \<and>
      unit_cover (group_members (pp_target y) groups) us" if "y \<in> set done" for y
    using assms(2) that by (auto simp: scoped_inv_def)
  have "group_members ?t groups = {}"
  proof -
    have "?t \<notin> set (gp_targets (groups ! i))" if "i < length groups" for i
      using inv(3) new nth_mem [OF that] unfolding groups_inv_def by blast
    then show ?thesis by (simp add: group_members_def)
  qed
  then have "unit_cover (group_members ?t groups) []" by (simp add: unit_cover_def)
  note g = group_captures_inv [OF run inv(3) this]
  have at: "map_of (smap_put ?t mine units) = (map_of units)(?t \<mapsto> mine)" by (rule smap_at_put [OF inv(4)])
  have "\<exists>us. map_of (smap_put ?t mine units) (pp_target y) = Some us \<and> us \<noteq> [] \<and> length us = length (pp_captures y) \<and>
      unit_cover (group_members (pp_target y) groups') us" if y: "y \<in> set (done @ [x])" for y
  proof (cases "pp_target y = ?t")
    case True
    then have "y \<notin> set done" using new inv(1) by (metis image_eqI)
    with y have "y = x" by simp
    with at g ne show ?thesis by auto
  next
    case False
    with y have "y \<in> set done" by auto
    from each [OF this] at False g show ?thesis by auto
  qed
  moreover have "set (?t # targets) = pp_target ` set (done @ [x])" "distinct (map pp_target (done @ [x]))"
    using inv(1,2) new by auto
  moreover have "groups_inv (set (?t # targets)) groups'" using g by simp
  moreover have "smap_wf (smap_put ?t mine units)" by (rule smap_put_wf [OF inv(4)])
  moreover have "dom (map_of (smap_put ?t mine units)) = set (?t # targets)" using at inv(5) by simp
  ultimately show ?thesis unfolding scoped_inv_def s prod.case by blast
qed

lemma mergeScopedUnits_ok:
  assumes "mergeScopedUnits T observations directory = Inr r"
  shows "partition_ok observations r"
proof -
  from assms obtain groups targets units outputs where
    run: "foldE (group_target T) observations ([], [], []) = Inr (groups, targets, units)" and
    outputs: "length outputs = length groups" and
    r: "r = \<lparr>mp_fragments = outputs, mp_fragmentTargets = map (\<lambda>g. map fst (gp_captures g)) groups, mp_unitsByTarget = units\<rparr>"
    by (auto simp: mergeScopedUnits_def bindE_Inr_iff dest: mapE_length split: if_splits)
  have gen: "foldE (group_target T) xs s = Inr t \<Longrightarrow> scoped_inv done s \<Longrightarrow> scoped_inv (done @ xs) t" for xs s t "done"
  proof (induction xs arbitrary: s "done")
    case Nil
    then show ?case by simp
  next
    case (Cons x xs)
    then obtain u where u: "group_target T x s = Inr u" "foldE (group_target T) xs u = Inr t"
      by (auto simp: bindE_Inr_iff)
    have "scoped_inv (done @ [x]) u" using group_target_inv u(1) Cons.prems(2) by (cases s) blast
    from Cons.IH [OF u(2) this] show ?case by simp
  qed
  have "scoped_inv [] ([], [], [])" by (simp add: scoped_inv_def groups_inv_def)
  from gen [OF run this] have inv: "scoped_inv observations (groups, targets, units)" by simp
  then have g: "groups_inv (set targets) groups" unfolding scoped_inv_def prod.case by blast
  have "fragments_of r t = group_members t groups" for t
  proof -
    have "t \<in> set (map fst (gp_captures (groups ! i))) \<longleftrightarrow> t \<in> set (gp_targets (groups ! i))" if "i < length groups" for i
      using g that nth_mem [OF that] by (auto simp: groups_inv_def)
    then show ?thesis by (auto simp: fragments_of_def group_members_def r)
  qed
  moreover have "\<forall>ts \<in> set (mp_fragmentTargets r). ts \<noteq> [] \<and> distinct ts \<and> set ts \<subseteq> set targets"
    using g by (fastforce simp: groups_inv_def r)
  ultimately show ?thesis using inv outputs by (auto simp: partition_ok_def scoped_inv_def r)
qed

lemma mergeProfilePartitions_ok:
  "mergeProfilePartitions T observations directory = Inr r \<Longrightarrow> partition_ok observations r"
  using mergeProvedPartitions_ok mergeScopedUnits_ok
  by (auto simp: mergeProfilePartitions_def split: sum.splits)

end
