(* ===== verification/Clang_Plugin.thy ===== *)
theory Clang_Plugin
  imports Publication_Link_Facts Partitions_Facts
begin

text \<open>
  The producer action of the Clang plugin (ClangPlugin.cpp): its arguments, and the artifact it emits from
  labelled captures or from the source. Clang's invocation, the file system, the capture of one target and the
  import of LLVM modules are the parameter \<open>plugin_host\<close>.
\<close>

section \<open>Arguments\<close>

record plugin_request =
  pq_mode :: string
  pq_optimization :: string
  pq_sdk :: string
  pq_captures :: "(string, string list) smap"
  pq_keepWork :: bool

definition plugin_start :: plugin_request where
  "plugin_start = \<lparr>pq_mode = ''source'', pq_optimization = [], pq_sdk = [], pq_captures = [], pq_keepWork = False\<rparr>"

definition capture_arg :: "string \<Rightarrow> plugin_request \<Rightarrow> plugin_request expected" where
  "capture_arg text q =
     (case split_first CHR ''='' text of (target, path) \<Rightarrow>
        if targets_find target = None \<or> path = [] then Inl (''invalid labelled Sela capture: '' @ text)
        else Inr (q\<lparr>pq_captures := smap_put target
          ((case smap_at (pq_captures q) target of None \<Rightarrow> [] | Some ps \<Rightarrow> ps) @ [path]) (pq_captures q)\<rparr>))"

definition plugin_arg :: "string \<Rightarrow> plugin_request \<Rightarrow> plugin_request expected" where
  "plugin_arg arg q =
     (case consume_front ''mode='' arg of
        Some v \<Rightarrow> Inr (q\<lparr>pq_mode := v\<rparr>)
      | None \<Rightarrow>
          (case consume_front ''capture='' arg of
             Some v \<Rightarrow> capture_arg v q
           | None \<Rightarrow>
               (case consume_front ''optimization='' arg of
                  Some v \<Rightarrow> Inr (q\<lparr>pq_optimization := v\<rparr>)
                | None \<Rightarrow>
                    (case consume_front ''sdk='' arg of
                       Some v \<Rightarrow> Inr (q\<lparr>pq_sdk := v\<rparr>)
                     | None \<Rightarrow>
                         if arg = ''keep-work'' then Inr (q\<lparr>pq_keepWork := True\<rparr>)
                         else Inl (''unknown Sela plugin argument: '' @ arg)))))"

definition parse_plugin :: "string list \<Rightarrow> plugin_request expected" where
  "parse_plugin arguments =
     bindE (foldE plugin_arg arguments plugin_start) (\<lambda>q.
     if (pq_mode q \<noteq> ''source'' \<and> pq_mode q \<noteq> ''profiles'') \<or> (pq_mode q = ''source'' \<and> pq_captures q \<noteq> [])
     then Inl (''unsupported Sela producer mode: '' @ pq_mode q)
     else Inr q)"

section \<open>Emission\<close>

record clang_input =
  ci_output :: string
  ci_file :: string
  ci_llvm_ir :: bool
  ci_c :: bool
  ci_preprocessed :: bool
  ci_optimizeSize :: nat
  ci_optimizationLevel :: nat
  ci_dependencies :: string

record plugin_host =
  ph_codec :: codec
  ph_tools :: native_tools
  ph_environment :: "string option"
  ph_canonical :: "string \<Rightarrow> string"
  ph_equivalent :: "string \<Rightarrow> string \<Rightarrow> file_comparison"
  ph_scratch :: "string expected"
  ph_read :: "string \<Rightarrow> string expected"
  ph_write :: "string \<Rightarrow> string \<Rightarrow> unit expected"
  ph_validateSdk :: "string list \<Rightarrow> unit expected"
  ph_captureSource :: "string \<Rightarrow> string \<Rightarrow> string \<Rightarrow> unit expected"
  ph_emit :: "string \<Rightarrow> package_files \<Rightarrow> unit expected"

definition clang_optimization :: "clang_input \<Rightarrow> string" where
  "clang_optimization ci =
     (if ci_optimizeSize ci = 2 then ''Oz'' else if ci_optimizeSize ci = 1 then ''Os''
      else ''O'' @ to_string (ci_optimizationLevel ci))"

definition sameFile :: "plugin_host \<Rightarrow> string \<Rightarrow> string \<Rightarrow> bool" where
  "sameFile h left right = (ph_canonical h left = ph_canonical h right \<or> ph_equivalent h left right = SameFile)"

text \<open>The captures in registry order, for the partition and for a merge of one capture per target.\<close>

definition profile_inputs :: "plugin_request \<Rightarrow> ProfilePartitionInput list" where
  "profile_inputs q =
     concat (map (\<lambda>t. case smap_at (pq_captures q) (target_id t) of
                     None \<Rightarrow> [] | Some ps \<Rightarrow> [\<lparr>pp_target = target_id t, pp_captures = ps\<rparr>]) all_targets)"

definition group_modules :: "string \<Rightarrow> string list \<Rightarrow> MergedPartitions \<Rightarrow> ArtifactModule list" where
  "group_modules opt bytes parts =
     map (\<lambda>(b, ts). \<lparr>am_bytecode = b, am_optimization = opt, am_archiveMember = [], am_targets = ts\<rparr>)
       (zip bytes (mp_fragmentTargets parts))"

definition group_plan :: "string \<Rightarrow> MergedPartitions \<Rightarrow> CompilationPlan" where
  "group_plan opt parts =
     fold (\<lambda>(target, units) plan.
        fold (\<lambda>u. push_unit target \<lparr>au_modules = u, au_optimization = opt, au_archiveMember = []\<rparr>) units plan)
       (mp_unitsByTarget parts) []"

definition emit_grouped ::
  "plugin_host \<Rightarrow> clang_input \<Rightarrow> string \<Rightarrow> string \<Rightarrow> ProfilePartitionInput list \<Rightarrow> unit expected" where
  "emit_grouped h ci opt scratch inputs =
     bindE (mergeProfilePartitions (ph_tools h) inputs scratch) (\<lambda>parts.
     bindE (mapE (ph_read h) (mp_fragments parts)) (\<lambda>bytes.
     bindE (createArtifact (ph_codec h) ''object'' (group_modules opt bytes parts) [] [] (map pp_target inputs) []
              (group_plan opt parts) []) (\<lambda>artifact.
     bindE (write_gate (ph_codec h) artifact) (\<lambda>_. ph_emit h (ci_output ci) artifact))))"

definition emit_common ::
  "plugin_host \<Rightarrow> clang_input \<Rightarrow> string \<Rightarrow> string \<Rightarrow> (string \<times> string) list \<Rightarrow> string \<Rightarrow> unit expected" where
  "emit_common h ci opt scratch observations dependencyText =
     bindE (nt_mergeProfiles (ph_tools h) observations (scratch @ ''/unit.selabc'')) (\<lambda>_.
     bindE (ph_read h (scratch @ ''/unit.selabc'')) (\<lambda>bytes.
     bindE (createArtifact (ph_codec h) ''object''
              [\<lparr>am_bytecode = bytes, am_optimization = opt, am_archiveMember = [], am_targets = []\<rparr>] [] []
              (map fst observations) [] [] []) (\<lambda>artifact.
     bindE (if dependencyText = [] \<or> ci_dependencies ci = ''-'' then Inr ()
            else ph_write h (ci_dependencies ci) dependencyText) (\<lambda>_.
     bindE (write_gate (ph_codec h) artifact) (\<lambda>_. ph_emit h (ci_output ci) artifact)))))"

definition emit_profiles :: "plugin_host \<Rightarrow> clang_input \<Rightarrow> plugin_request \<Rightarrow> string \<Rightarrow> unit expected" where
  "emit_profiles h ci q scratch =
     (if \<not> ci_llvm_ir ci \<or> pq_captures q = []
      then Inl ''profile capture mode requires -x ir and capture=<target>=<LLVM capture>''
      else
        let opt = (if pq_optimization q \<noteq> [] then pq_optimization q else clang_optimization ci);
            inputs = profile_inputs q in
        if \<not> list_ex (\<lambda>x. list_ex (sameFile h (ci_file ci)) (pp_captures x)) inputs
        then Inl ''frontend input is not among the labelled native captures''
        else if list_ex (\<lambda>x. length (pp_captures x) \<noteq> 1) inputs then emit_grouped h ci opt scratch inputs
        else emit_common h ci opt scratch (map (\<lambda>x. (pp_target x, hd (pp_captures x))) inputs) [])"

definition capture_target ::
  "plugin_host \<Rightarrow> clang_input \<Rightarrow> string \<Rightarrow> string \<Rightarrow> (string \<times> string) list \<times> string \<Rightarrow> ((string \<times> string) list \<times> string) expected" where
  "capture_target h ci scratch target s =
     (case s of (observations, dependencyText) \<Rightarrow>
        let capture = scratch @ ''/'' @ target @ ''.bc'';
            deps = (if ci_dependencies ci \<noteq> [] then scratch @ ''/'' @ target @ ''.d'' else []) in
        bindE (ph_captureSource h target capture deps) (\<lambda>_.
        bindE (if ci_dependencies ci \<noteq> [] then ph_read h deps else Inr []) (\<lambda>text.
        Inr (observations @ [(target, capture)], dependencyText @ text))))"

definition emit_source :: "plugin_host \<Rightarrow> clang_input \<Rightarrow> plugin_request \<Rightarrow> string \<Rightarrow> unit expected" where
  "emit_source h ci q scratch =
     (if \<not> ci_c ci \<or> ci_preprocessed ci
      then Inl ''the current source producer accepts ordinary C input, not preprocessed/other-language input''
      else
        bindE (publicationTargets [] (ph_environment h)) (\<lambda>selected.
        bindE (ph_validateSdk h selected) (\<lambda>_.
        bindE (foldE (capture_target h ci scratch) (filter (\<lambda>t. t \<in> set selected) all_target_ids) ([], []))
          (\<lambda>(observations, dependencyText).
        emit_common h ci (clang_optimization ci) scratch observations dependencyText))))"

definition emit :: "plugin_host \<Rightarrow> clang_input \<Rightarrow> plugin_request \<Rightarrow> unit expected" where
  "emit h ci q =
     (if ci_output ci = [] \<or> ci_output ci = ''-'' then Inl ''publication requires a file output (-o)''
      else if sameFile h (ci_output ci) (ci_file ci) then Inl ''the Sela output must not overwrite a compiler input''
      else if list_ex (\<lambda>(target, inputs). list_ex (sameFile h (ci_output ci)) inputs) (pq_captures q)
      then Inl ''grouped output aliases a native capture''
      else
        bindE (ph_scratch h) (\<lambda>scratch.
        if pq_mode q = ''profiles'' then emit_profiles h ci q scratch else emit_source h ci q scratch))"

section \<open>The plan of a grouped publication\<close>

lemma push_units:
  "smap_wf plan \<Longrightarrow> smap_wf (fold (\<lambda>u. push_unit t (f u)) us plan) \<and>
   (\<forall>x. plan_units_of (fold (\<lambda>u. push_unit t (f u)) us plan) x =
      (if x = t then plan_units_of plan t @ map f us else plan_units_of plan x)) \<and>
   dom (smap_at (fold (\<lambda>u. push_unit t (f u)) us plan)) = (if us = [] then {} else {t}) \<union> dom (smap_at plan)"
proof (induction us arbitrary: plan)
  case (Cons u us)
  note push = push_unit_units [OF Cons.prems, of t "f u"]
  from Cons.IH [OF conjunct1 [OF push]] push show ?case by auto
qed simp

lemma group_plan_fold:
  assumes "distinct (map fst kvs)" "smap_wf plan" "\<forall>(t, us) \<in> set kvs. us \<noteq> [] \<and> smap_at plan t = None"
  shows "let p = fold (\<lambda>(t, us) plan. fold (\<lambda>u. push_unit t (f u)) us plan) kvs plan in
    smap_wf p \<and> dom (smap_at p) = fst ` set kvs \<union> dom (smap_at plan) \<and>
    (\<forall>t us. (t, us) \<in> set kvs \<longrightarrow> plan_units_of p t = map f us) \<and>
    (\<forall>t. t \<notin> fst ` set kvs \<longrightarrow> plan_units_of p t = plan_units_of plan t)"
  using assms
proof (induction kvs arbitrary: plan)
  case Nil
  then show ?case by (simp add: Let_def)
next
  case (Cons kv kvs)
  obtain t us where kv: "kv = (t, us)" by fastforce
  let ?p = "fold (\<lambda>u. push_unit t (f u)) us plan"
  have us: "us \<noteq> []" "smap_at plan t = None" using Cons.prems(3) by (auto simp: kv)
  have new: "t \<notin> fst ` set kvs" "distinct (map fst kvs)" using Cons.prems(1) by (auto simp: kv)
  note push = push_units [OF Cons.prems(2), of t f us]
  have "\<forall>(x, us) \<in> set kvs. us \<noteq> [] \<and> smap_at ?p x = None"
  proof safe
    fix x vs assume x: "(x, vs) \<in> set kvs"
    then have "x \<noteq> t" using new(1) by force
    moreover have "smap_at plan x = None" using Cons.prems(3) x by auto
    ultimately have "x \<notin> dom (smap_at ?p)" using push by auto
    then show "smap_at ?p x = None" by blast
  next
    fix x assume "(x, []) \<in> set kvs"
    then show False using Cons.prems(3) by auto
  qed
  from Cons.IH [OF new(2) conjunct1 [OF push] this] push us new(1)
  show ?case by (auto simp: kv Let_def plan_units_of_def split: if_splits)
qed

lemma group_plan_publishable:
  assumes "partition_ok inputs parts" "length bytes = length (mp_fragments parts)" "opt \<in> set optimization_levels"
  shows "publishable ''object'' (map pp_target inputs) (group_modules opt bytes parts) (group_plan opt parts)"
proof -
  let ?f = "\<lambda>u. \<lparr>au_modules = u, au_optimization = opt, au_archiveMember = []\<rparr>"
  let ?plan = "group_plan opt parts" and ?modules = "group_modules opt bytes parts"
  note ok = assms(1) [unfolded partition_ok_def]
  have wf: "smap_wf (mp_unitsByTarget parts)" and dom: "dom (smap_at (mp_unitsByTarget parts)) = pp_target ` set inputs"
    using ok by blast+
  have keys: "distinct (map fst (mp_unitsByTarget parts))" by (rule smap_wf_distinct [OF wf])
  have units: "us \<noteq> [] \<and> unit_cover (fragments_of parts t) us" if "(t, us) \<in> set (mp_unitsByTarget parts)" for t us
  proof -
    have at: "smap_at (mp_unitsByTarget parts) t = Some us" using that keys by simp
    then obtain x where "x \<in> set inputs" "pp_target x = t" using dom by (metis domI imageE)
    with ok at show ?thesis by force
  qed
  have "\<forall>(t, us) \<in> set (mp_unitsByTarget parts). us \<noteq> [] \<and> smap_at ([] :: CompilationPlan) t = None"
    using units by auto
  note plan = group_plan_fold [OF keys smap_wf_Nil this, of ?f, unfolded Let_def, folded group_plan_def]
  have pdom: "dom (smap_at ?plan) = set (map pp_target inputs)" using plan dom by (auto simp: dom_map_of_conv_image_fst)
  have lens: "length bytes = length (mp_fragmentTargets parts)" using assms(2) ok by simp
  have targets: "am_targets (?modules ! i) = mp_fragmentTargets parts ! i" if "i < length ?modules" for i
    using that lens by (simp add: group_modules_def)
  have mlen: "length ?modules = length (mp_fragmentTargets parts)" using lens by (simp add: group_modules_def)
  have active: "active_fragments (map (\<lambda>m. set (effective_targets (map pp_target inputs) m)) ?modules) t = fragments_of parts t" for t
  proof -
    have "effective_targets (map pp_target inputs) (?modules ! i) = mp_fragmentTargets parts ! i" if "i < length ?modules" for i
      using ok targets [OF that] that mlen by (auto simp: effective_targets_def)
    then show ?thesis by (auto simp: active_fragments_def fragments_of_def mlen)
  qed
  have "list_all (unit_ok ''object'') us \<and>
      exact_cover (map (\<lambda>m. set (effective_targets (map pp_target inputs) m)) ?modules) t us"
    if us: "smap_at ?plan t = Some us" for t us
  proof -
    from us pdom dom obtain vs where vs: "smap_at (mp_unitsByTarget parts) t = Some vs"
      by (metis domD domI list.set_map)
    then have mem: "(t, vs) \<in> set (mp_unitsByTarget parts)" by (rule map_of_SomeD)
    with plan have "plan_units_of (group_plan opt parts) t = map ?f vs" by blast
    with us have eq: "us = map ?f vs" by (simp add: plan_units_of_def)
    from units [OF mem] have "[] \<notin> set vs" "distinct (concat vs)" "set (concat vs) = fragments_of parts t"
      by (auto simp: unit_cover_def)
    moreover have "plan_members us = concat vs" by (simp add: eq plan_members_def comp_def)
    ultimately show ?thesis using assms(3) by (auto simp: eq exact_cover_def active unit_ok_def list_all_iff)
  qed
  with plan pdom show ?thesis unfolding publishable_def by blast
qed

end
