(* ===== verification/Partition_Example.thy ===== *)
theory Partition_Example
  imports Clang_Plugin
begin

text \<open>
  Two targets that split the same two functions differently: one translation unit on x86-64, two on ARMv7. The
  x86-64 unit is cut into two fragments, one per owner vector.
\<close>

definition part_example :: "string \<Rightarrow> part_function" where
  "part_example name =
     \<lparr>nv_name = name, nv_declaration = False, nv_linkage = ExternalL, nf_varArg = False, nf_returnType = IntTy 32,
      nf_comdat = False, nf_section = False, nf_args = [IntTy 32], nf_allocas = [], nf_users = []\<rparr>"

definition part_module :: "string list \<Rightarrow> native_module" where
  "part_module names =
     \<lparr>nm_functions = map part_example names, nm_globals = [], nm_aliases = [], nm_ifuncs = [], nm_inlineAsm = []\<rparr>"

definition part_tools :: native_tools where
  "part_tools =
     \<lparr>nt_parse = \<lambda>p.
        (if p = ''a'' then Some (part_module [''f'', ''g'']) else if p = ''b'' then Some (part_module [''f''])
         else if p = ''c'' then Some (part_module [''g'']) else None),
      nt_wellformed = \<lambda>_. True,
      nt_link = \<lambda>m n. Some (m\<lparr>nm_functions := nm_functions m @ nm_functions n\<rparr>),
      nt_evidence = \<lambda>m. concat (map nv_name (nm_functions m)),
      nt_write = \<lambda>_ _. Inr (), nt_mergeProfiles = \<lambda>_ _. Inr ()\<rparr>"

definition part_inputs :: "ProfilePartitionInput list" where
  "part_inputs =
     [\<lparr>pp_target = ''x86_64'', pp_captures = [''a'']\<rparr>, \<lparr>pp_target = ''armv7'', pp_captures = [''b'', ''c'']\<rparr>]"

definition part_result :: MergedPartitions where
  "part_result =
     \<lparr>mp_fragments = [''/w/fragment-0.selabc'', ''/w/fragment-1.selabc''],
      mp_fragmentTargets = [[''x86_64'', ''armv7''], [''x86_64'', ''armv7'']],
      mp_unitsByTarget = [(''armv7'', [[0], [1]]), (''x86_64'', [[0, 1]])]\<rparr>"

lemma example_partitioned: "mergeProfilePartitions part_tools part_inputs ''/w'' = Inr part_result"
  by code_simp

end
