(* ===== verification/Link_Example.thy ===== *)
theory Link_Example
  imports Publication_Link_Facts
begin

text \<open>
  A concrete publication link, evaluated: two copies of a relocatable package for \<open>x86_64\<close> and \<open>armv7\<close>, the
  second scoped to \<open>armv7\<close>, whose units on \<open>armv7\<close> are requested in reverse order.
\<close>

definition object_manifest :: json_object where
  "object_manifest =
     [(''format_version'', JInt ArtifactFormatVersion), (''contract'', JString Contract), (''kind'', JString ''object''),
      (''targets'', JArray [JString ''x86_64'', JString ''armv7'']), (''runtime'', JString Runtime),
      (''libraries'', JArray [JString ''m'']), (''link_options'', JArray []),
      (''modules'', JArray [JObject [(''path'', JString ''modules/0.selabc''), (''sha256'', JString ''d''),
          (''targets'', JArray [JString ''x86_64'', JString ''armv7''])]]),
      (''compilation_units'', JObject
         [(''armv7'', JArray [JObject [(''modules'', JArray [JInt 0]), (''optimization'', JString ''O2'')]]),
          (''x86_64'', JArray [JObject [(''modules'', JArray [JInt 0]), (''optimization'', JString ''Os'')]])])]"

definition linked_modules :: "ArtifactModule list" where
  "linked_modules =
     [\<lparr>am_bytecode = ''b'', am_optimization = ''O2'', am_archiveMember = [], am_targets = [''x86_64'', ''armv7'']\<rparr>,
      \<lparr>am_bytecode = ''b'', am_optimization = ''O2'', am_archiveMember = [], am_targets = [''armv7'']\<rparr>]"

definition linked_plan :: CompilationPlan where
  "linked_plan =
     [(''armv7'', [\<lparr>au_modules = [1], au_optimization = ''O2'', au_archiveMember = []\<rparr>,
                   \<lparr>au_modules = [0], au_optimization = ''O2'', au_archiveMember = []\<rparr>]),
      (''x86_64'', [\<lparr>au_modules = [0], au_optimization = ''Os'', au_archiveMember = []\<rparr>])]"

definition linked_manifest :: json_object where
  "linked_manifest =
     base_manifest \<lparr>json_parse = \<lambda>_. Inl [], json_text = \<lambda>_. [], digest = \<lambda>_. ''d''\<rparr> ''executable'' linked_modules [] []
       [''x86_64'', ''armv7''] linked_plan @
     [(''target_links'', JObject
         [(''armv7'', JObject [(''libraries'', JArray [JString ''m'', JString ''m'']), (''link_options'', JArray [])]),
          (''x86_64'', JObject [(''libraries'', JArray [JString ''m'']), (''link_options'', JArray [])])])]"

definition link_codec :: codec where
  "link_codec =
     \<lparr>json_parse = \<lambda>t. if t = ''m'' then Inr (JObject object_manifest) else Inr (JObject linked_manifest),
      json_text = \<lambda>v. if v = JObject object_manifest then ''m'' else ''n'', digest = \<lambda>_. ''d''\<rparr>"

definition file_entry :: "string \<Rightarrow> string \<Rightarrow> archive_entry" where
  "file_entry name data =
     \<lparr>ae_pathname = Some name, ae_regular = True, ae_symlink = False, ae_hardlink = False, ae_size = int (length data),
      ae_reads = [Some data]\<rparr>"

definition example_host :: link_host where
  "example_host =
     \<lparr>lh_codec = link_codec, lh_environment = Some ''armv7,x86_64'', lh_read = \<lambda>_ _. Inl ''no file'', lh_tokenize = \<lambda>_. [],
      lh_canonical = \<lambda>p. p, lh_equivalent = \<lambda>_ _. DifferentFile,
      lh_archive = \<lambda>_. ([file_entry ''manifest.json'' ''m'', file_entry ''modules/0.selabc'' ''b''], None),
      lh_stage = \<lambda>_. Inr (), lh_inspect = \<lambda>_ _. Inr (), lh_scratch = Inr (), lh_emit = \<lambda>_ _. Inr ()\<rparr>"

definition example_arguments :: "string list" where
  "example_arguments =
     [''-pie'', ''-o'', ''out.sela'', ''a.o'', ''b.o'', ''--sela-input-domain=1:armv7'', ''--sela-unit-order=armv7:1,0'']"

definition example_request :: link_request where
  "example_request =
     initial_request\<lparr>lr_output := ''out.sela'', lr_inputs := [''a.o'', ''b.o''], lr_inputDomains := [(1, [''armv7''])],
       lr_unitOrders := [(''armv7'', [1, 0])]\<rparr>"

lemma example_link_args: "link_args example_host example_arguments initial_request = Inr example_request"
proof -
  have pie: "plain_arg h ''-pie'' r = Inr r" for h r
    by (simp add: plain_arg_def consume_front_def starts_with_def ordinary_arg_def)
  have input: "plain_arg h ''a.o'' r = Inr (r\<lparr>lr_inputs := lr_inputs r @ [''a.o'']\<rparr>)"
    "plain_arg h ''b.o'' r = Inr (r\<lparr>lr_inputs := lr_inputs r @ [''b.o'']\<rparr>)" for h r
    by (simp_all add: plain_arg_def consume_front_def starts_with_def ordinary_arg_def)
  have scope: "plain_arg h ''--sela-input-domain=1:armv7'' r = input_domain_arg ''1:armv7'' r" for h r
    by (simp add: plain_arg_def consume_front_def starts_with_def)
  have order: "plain_arg h ''--sela-unit-order=armv7:1,0'' r = unit_order_arg ''armv7:1,0'' r" for h r
    by (simp add: plain_arg_def consume_front_def starts_with_def)
  have out: "valued_arg h ''-o'' v r = Inr (r\<lparr>lr_output := v\<rparr>)" for h v r
    by (simp add: valued_arg_def)
  show ?thesis
    by (simp add: example_arguments_def valued_options_def pie input scope order out input_domain_arg_def unit_order_arg_def
        as_unsigned_def of_digits_def in_range_def parseTargetSelection_def parse_selection_def select_field_def
        all_target_ids_eq initial_request_def example_request_def)
qed

lemma example_files_read:
  "readPackage (fst (lh_archive example_host p)) (snd (lh_archive example_host p)) =
     Inr [(''manifest.json'', ''m''), (''modules/0.selabc'', ''b'')]"
  by (simp add: readPackage_def example_host_def file_entry_def read_header_def entry_name_ok_def is_absolute_def
      starts_with_def lexically_normal_def MaxBytes_def MaxFiles_def smap_emplace_def less_char_def)

abbreviation object_files :: package_files where
  "object_files \<equiv> [(''manifest.json'', ''m''), (''modules/0.selabc'', ''b'')]"

lemma first_module_path: "module_path 0 = ''modules/0.selabc''" "module_path (Suc 0) = ''modules/1.selabc''"
  by code_simp+

lemmas validation_defs = validate_object_def json_get_defs ArtifactFormatVersion_def Contract_def Runtime_def known_field_def
  manifest_fields_def artifact_kinds_def seen_target_def validateLinkRecord_def check_library_def validLibrary_def
  validName_def alnum_def in_range_def check_target_links_def check_module_def module_target_def first_module_path
  int64_min_def int64_max_def

lemmas plan_defs = readCompilationPlan_def json_get_defs module_domain_def domain_id_def plan_target_def plan_unit_def
  plan_member_def unit_field_def optimization_levels_def unit_archive_member_def int64_min_def int64_max_def

definition object_plan :: CompilationPlan where
  "object_plan =
     [(''armv7'', [\<lparr>au_modules = [0], au_optimization = ''O2'', au_archiveMember = []\<rparr>]),
      (''x86_64'', [\<lparr>au_modules = [0], au_optimization = ''Os'', au_archiveMember = []\<rparr>])]"

lemma object_plan_read: "readCompilationPlan object_manifest = Inr object_plan"
  by (simp add: object_manifest_def object_plan_def plan_defs numeral_2_eq_2)

lemma object_validated: "validatePackage link_codec object_files = Inr (JObject object_manifest)"
proof -
  have "validate_object link_codec object_files object_manifest = Inr ()"
    unfolding validate_object_def
    using object_plan_read [unfolded object_manifest_def]
    by (simp add: object_manifest_def link_codec_def validation_defs)
  then show ?thesis by (simp add: validatePackage_def) (simp add: link_codec_def)
qed

lemma object_links:
  "readLinkPlan object_manifest object_files =
     Some [(''armv7'', \<lparr>al_libraries = [''m''], al_options = [], al_versionScript = []\<rparr>),
           (''x86_64'', \<lparr>al_libraries = [''m''], al_options = [], al_versionScript = []\<rparr>)]"
  by (simp add: readLinkPlan_def object_manifest_def json_get_defs link_of_record_def empty_link_def less_char_def)

lemma object_fields:
  "getString object_manifest ''kind'' = Some ''object''"
  "getArray object_manifest ''targets'' = Some (map JString [''x86_64'', ''armv7''])"
  "getArray object_manifest ''modules'' = Some [JObject [(''path'', JString ''modules/0.selabc''), (''sha256'', JString ''d''),
          (''targets'', JArray [JString ''x86_64'', JString ''armv7''])]]"
  by (simp_all add: object_manifest_def json_get_defs)

lemma example_gather:
  "foldE (gather_input example_host example_request [''x86_64'', ''armv7'']) (List.enumerate 0 (lr_inputs example_request))
     \<lparr>ls_modules = [], ls_bytes = 0, ls_plan = [], ls_dependencies = []\<rparr> =
   Inr \<lparr>ls_modules = linked_modules, ls_bytes = 2,
        ls_plan = [(''armv7'', [\<lparr>au_modules = [0], au_optimization = ''O2'', au_archiveMember = []\<rparr>,
            \<lparr>au_modules = [1], au_optimization = ''O2'', au_archiveMember = []\<rparr>]),
          (''x86_64'', [\<lparr>au_modules = [0], au_optimization = ''Os'', au_archiveMember = []\<rparr>])],
        ls_dependencies = [(''armv7'', [''m'', ''m'']), (''x86_64'', [''m''])]\<rparr>"
proof -
  have host: "lh_codec example_host = link_codec" "\<And>b. lh_stage example_host b = Inr ()" "\<And>b d. lh_inspect example_host b d = Inr ()"
    by (simp_all add: example_host_def)
  have kind: "lr_kind example_request = ''executable''" "lr_inputs example_request = [''a.o'', ''b.o'']"
    "required_targets example_request [''x86_64'', ''armv7''] 0 = [''x86_64'', ''armv7'']"
    "required_targets example_request [''x86_64'', ''armv7''] (Suc 0) = [''armv7'']"
    by (simp_all add: example_request_def initial_request_def required_targets_def)
  have input: "gather_input example_host example_request [''x86_64'', ''armv7''] (i, f) s =
      gather_object example_host example_request (required_targets example_request [''x86_64'', ''armv7''] i) i f
        object_files object_manifest s" for i f s
    by (simp add: gather_input_def example_files_read host object_validated deref_def)
  show ?thesis
    by (simp add: input kind gather_object_def object_manifest_def object_plan_read [unfolded object_manifest_def] object_links [unfolded object_manifest_def] object_plan_def deref_def
        add_dependencies_def add_module_def json_get_defs host module_limit_def add_target_units_def add_unit_def
        remap_member_def push_unit_def linked_modules_def less_char_def Let_def numeral_2_eq_2)
qed

definition example_links :: LinkPlan where
  "example_links =
     [(''armv7'', \<lparr>al_libraries = [''m'', ''m''], al_options = [], al_versionScript = []\<rparr>),
      (''x86_64'', \<lparr>al_libraries = [''m''], al_options = [], al_versionScript = []\<rparr>)]"

definition example_package_files :: package_files where
  "example_package_files = [(''manifest.json'', ''n''), (''modules/0.selabc'', ''b''), (''modules/1.selabc'', ''b'')]"

lemma linked_plan_read: "readCompilationPlan linked_manifest = Inr linked_plan"
  by (simp add: linked_manifest_def base_manifest_def module_record_def linked_modules_def linked_plan_def plan_json_def
      obj_put_def unit_json_def int64_of_size_def plan_defs)

lemma linked_validated: "validate_object link_codec example_package_files linked_manifest = Inr ()"
  unfolding validate_object_def
  using linked_plan_read [unfolded linked_manifest_def base_manifest_def]
  by (simp add: linked_manifest_def base_manifest_def link_codec_def example_package_files_def module_record_def
      linked_modules_def validation_defs check_target_link_def target_script_path_def)

lemma example_created:
  "createArtifact link_codec ''executable'' linked_modules [] [] [''x86_64'', ''armv7''] [] linked_plan example_links =
     Inr example_package_files"
proof -
  have manifest: "foldE (link_record link_codec) example_links ([], module_files linked_modules) =
      Inr ([(''armv7'', JObject [(''libraries'', JArray [JString ''m'', JString ''m'']), (''link_options'', JArray [])]),
          (''x86_64'', JObject [(''libraries'', JArray [JString ''m'']), (''link_options'', JArray [])])],
        [(''modules/0.selabc'', ''b''), (''modules/1.selabc'', ''b'')])"
    by (simp add: example_links_def link_record_def attach_script_def obj_put_def module_files_def linked_modules_def
        first_module_path smap_emplace_def less_char_def)
  have "obj_put ''target_links'' (JObject
         [(''armv7'', JObject [(''libraries'', JArray [JString ''m'', JString ''m'']), (''link_options'', JArray [])]),
          (''x86_64'', JObject [(''libraries'', JArray [JString ''m'']), (''link_options'', JArray [])])])
      (base_manifest link_codec ''executable'' linked_modules [] [] [''x86_64'', ''armv7''] linked_plan) = linked_manifest"
    by (simp add: obj_put_def base_manifest_def linked_manifest_def module_record_def link_codec_def)
  note target_links = this
  have differ: "linked_manifest \<noteq> object_manifest"
    by (simp add: linked_manifest_def object_manifest_def base_manifest_def)
  have codec: "json_text link_codec (JObject linked_manifest) = ''n''" "json_parse link_codec ''n'' = Inr (JObject linked_manifest)"
    using differ by (simp_all add: link_codec_def)
  have "validatePackage link_codec example_package_files = Inr (JObject linked_manifest)"
    using linked_validated by (simp add: validatePackage_def codec) (simp add: example_package_files_def codec)
  moreover have "smap_put ''manifest.json'' ''n'' [(''modules/0.selabc'', ''b''), (''modules/1.selabc'', ''b'')] = example_package_files"
    by (simp add: example_package_files_def less_char_def)
  moreover have "linked_plan \<noteq> []" "example_links \<noteq> []" by (simp_all add: linked_plan_def example_links_def)
  ultimately show ?thesis
    by (simp add: createArtifact_def attach_script_def manifest target_links codec)
qed

definition example_linked :: linked where
  "example_linked =
     \<lparr>lk_request = example_request, lk_targets = [''x86_64'', ''armv7''], lk_modules = linked_modules, lk_plan = linked_plan,
      lk_links = example_links, lk_package = example_package_files\<rparr>"

lemma example_check: "check_request example_host example_request = Inr ([], [''x86_64'', ''armv7''])"
  by (simp add: check_request_def ordinaryLoader_def deref_def example_host_def rejectInputAlias_def publicationTargets_def
      parseTargetSelection_def parse_selection_def select_field_def all_target_ids_eq check_target_settings_def
      check_input_domain_def example_request_def initial_request_def all_targets_def info_x86_64_def)

lemma example_link_inputs: "link_inputs example_host example_request = Inr example_linked"
proof -
  have host: "lh_codec example_host = link_codec" by (simp add: example_host_def)
  have fields: "lr_unitOrders example_request = [(''armv7'', [1, 0])]" "lr_targetLinks example_request = []"
    "lr_libraries example_request = []" "lr_versionScript example_request = []" "lr_kind example_request = ''executable''"
    by (simp_all add: example_request_def initial_request_def)
  show ?thesis
    using example_created
    by (simp add: link_inputs_def example_check example_gather host fields order_units_def permute_unit_def smap_emplace_def
        final_link_def example_linked_def linked_plan_def example_links_def less_char_def Let_def)
qed

end
