(* ===== verification/Native_Objects.thy ===== *)
theory Native_Objects
  imports Artifact Publication_Link
begin

text \<open>
  What the native build observer (Build.cpp) reads of paths, object files and archives, and the provenance of
  one object. Paths are texts; \<open>absolutePath\<close> is the host's canonical form, absolute and without a trailing
  separator. The object and archive libraries answer with the parts the code inspects. The host's answers are
  those at the moment of the call.
\<close>

section \<open>Paths and quoting\<close>

definition path_parts :: "string \<Rightarrow> string list" where
  "path_parts p = filter (\<lambda>c. c \<noteq> []) (split_on CHR ''/'' p)"

fun drop_common :: "string list \<Rightarrow> string list \<Rightarrow> string list \<times> string list" where
  "drop_common (x # xs) (y # ys) = (if x = y then drop_common xs ys else (x # xs, y # ys))"
| "drop_common xs ys = (xs, ys)"

text \<open>\<open>fs::path::lexically_relative\<close> on absolute paths; \<open>None\<close> is the empty path.\<close>

definition lexically_relative :: "string \<Rightarrow> string \<Rightarrow> string list option" where
  "lexically_relative path base =
     (if is_absolute path \<noteq> is_absolute base then None
      else
        (case drop_common (path_parts path) (path_parts base) of (rest, over) \<Rightarrow>
           if rest = [] \<and> over = [] then Some [''.'']
           else
             let up = int (length (filter (\<lambda>c. c \<noteq> ''.'' \<and> c \<noteq> ''..'') over)) - int (length (filter (\<lambda>c. c = ''..'') over)) in
             if up < 0 then None
             else if up = 0 \<and> rest = [] then Some [''.'']
             else Some (replicate (nat up) ''..'' @ rest)))"

definition inside :: "string \<Rightarrow> string \<Rightarrow> bool" where
  "inside path base = (case lexically_relative path base of None \<Rightarrow> False | Some parts \<Rightarrow> hd parts \<noteq> ''..'')"

text \<open>Every occurrence, from the left; the replacement is not searched again.\<close>

function replace_all :: "string \<Rightarrow> string \<Rightarrow> string \<Rightarrow> string" where
  "replace_all from_text to_text t =
     (if from_text = [] then t
      else
        (case t of
           [] \<Rightarrow> []
         | c # cs \<Rightarrow>
             if starts_with from_text t then to_text @ replace_all from_text to_text (drop (length from_text) t)
             else c # replace_all from_text to_text cs))"
  by pat_completeness auto

termination
  by (relation "measure (\<lambda>(a, b, t). length t)") (auto split: list.splits)

declare replace_all.simps [simp del]

definition normalize_lane :: "string \<Rightarrow> string \<Rightarrow> string" where
  "normalize_lane text base = replace_all base ''$PRIVATE'' text"

definition quoteConfig :: "string \<Rightarrow> string" where
  "quoteConfig argument =
     [CHR 0x22] @ concat (map (\<lambda>c. if c = CHR 0x5C \<or> c = CHR 0x22 then [CHR 0x5C, c] else [c]) argument) @ [CHR 0x22, newline]"

definition shellQuote :: "string \<Rightarrow> string" where
  "shellQuote argument =
     [CHR 0x27] @ concat (map (\<lambda>c. if c = CHR 0x27 then [CHR 0x27, CHR 0x5C, CHR 0x27, CHR 0x27] else [c]) argument) @ [CHR 0x27]"

section \<open>The host\<close>

datatype elf_kind = ElfRel | ElfDyn | ElfOther nat

datatype dyn_tag = DtNeeded | DtSoname | DtOther nat

record elf_section =
  es_dynamic :: bool
  es_table :: "string expected"
  es_entries :: "(dyn_tag \<times> nat) list expected"

record elf_header =
  eh_kind :: elf_kind
  eh_machine :: nat
  eh_addressBytes :: nat
  eh_little :: bool
  eh_flags :: nat
  eh_sections :: "elf_section list expected"

record native_object =
  no_sections :: "(string expected \<times> string expected) list"
  no_elf :: "elf_header option"

record archive_child =
  ac_name :: "string expected"
  ac_fullName :: "string expected"
  ac_buffer :: "string expected"

record native_archive =
  na_thin :: bool
  na_children :: "archive_child list"
  na_end :: "string option"

record build_host =
  bh_codec :: codec
  bh_canonical :: "string \<Rightarrow> string"
  bh_read :: "string \<Rightarrow> nat \<Rightarrow> string expected"
  bh_write :: "string \<Rightarrow> string \<Rightarrow> unit expected"
  bh_exists :: "string \<Rightarrow> bool"
  bh_isFile :: "string \<Rightarrow> bool"
  bh_isDirectory :: "string \<Rightarrow> bool"
  bh_object :: "string \<Rightarrow> native_object expected"
  bh_archive :: "string \<Rightarrow> native_archive expected"
  bh_tokenize :: "string \<Rightarrow> string list"

definition default_limit :: nat where "default_limit = 64 * 1024 * 1024"

definition readJson :: "build_host \<Rightarrow> string \<Rightarrow> json expected" where
  "readJson h path = bindE (bh_read h path (1024 * 1024)) (json_parse (bh_codec h))"

definition string_array :: "json_object \<Rightarrow> string \<Rightarrow> string list expected" where
  "string_array object key =
     (case obj_get object key of
        None \<Rightarrow> Inr []
      | Some value \<Rightarrow>
          (case getAsArray value of
             None \<Rightarrow> Inl (''private build field must be a string array: '' @ key)
           | Some items \<Rightarrow>
               mapE (\<lambda>item. case getAsString item of
                       None \<Rightarrow> Inl ''invalid private build string''
                     | Some t \<Rightarrow> if CHR 0x00 \<in> set t then Inl ''invalid private build string'' else Inr t) items))"

definition metadataPath :: "build_host \<Rightarrow> string \<Rightarrow> string \<Rightarrow> string \<Rightarrow> string" where
  "metadataPath h directory output kind =
     directory @ ''/'' @ digest (bh_codec h) (bh_canonical h output) @ ''.'' @ kind @ ''.json''"

function expandResponses :: "build_host \<Rightarrow> string list \<Rightarrow> string list \<Rightarrow> nat \<Rightarrow> string list expected" where
  "expandResponses h arguments result depth =
     (if depth > 8 then Inl ''response-file nesting exceeds capture limit''
      else
        (case arguments of
           [] \<Rightarrow> Inr result
         | argument # rest \<Rightarrow>
             if argument = [] \<or> hd argument \<noteq> CHR ''@'' then expandResponses h rest (result @ [argument]) depth
             else
               bindE (bh_read h (tl argument) (1024 * 1024)) (\<lambda>contents.
               bindE (expandResponses h (bh_tokenize h contents) [] (depth + 1)) (\<lambda>expanded.
               if length (result @ expanded) > 16384 then Inl ''too many linker arguments''
               else expandResponses h rest (result @ expanded) depth))))"
  by pat_completeness auto

termination
  by (relation "(\<lambda>(h, arguments, result, depth). 9 - depth) <*mlex*> measure (\<lambda>(h, arguments, result, depth). length arguments)")
    (auto simp: mlex_prod_def)

declare expandResponses.simps [simp del]

section \<open>Capture markers\<close>

text \<open>The NUL-terminated journal paths of a witness section.\<close>

function split_witness :: "string \<Rightarrow> string \<Rightarrow> string list expected" where
  "split_witness name remaining =
     (if remaining = [] then Inr []
      else
        let item = takeWhile (\<lambda>c. c \<noteq> CHR 0x00) remaining in
        if item = [] \<or> length item = length remaining \<or> length item > 4096
        then Inl (''invalid private capture witness in '' @ name)
        else bindE (split_witness name (drop (length item + 1) remaining)) (\<lambda>rest. Inr (item # rest)))"
  by pat_completeness auto

termination
  by (relation "measure (\<lambda>(name, remaining). length remaining)") auto

declare split_witness.simps [simp del]

definition marker_section ::
  "string \<Rightarrow> string expected \<times> string expected \<Rightarrow> bool \<times> string list \<Rightarrow> (bool \<times> string list) expected" where
  "marker_section name s st =
     (case s of (sectionName, sectionContents) \<Rightarrow>
        (case st of (seen, result) \<Rightarrow>
           bindE sectionName (\<lambda>n.
           if n \<noteq> ''.sela.capture'' then Inr st
           else if seen then Inl (''multiple private capture sections in '' @ name)
           else
             bindE sectionContents (\<lambda>contents.
             if length contents > 8 * 1024 * 1024 then Inl (''private capture witness exceeds limit: '' @ name)
             else bindE (split_witness name contents) (\<lambda>items. Inr (True, result @ items))))))"

definition captureMarkers :: "native_object \<Rightarrow> string \<Rightarrow> string list expected" where
  "captureMarkers ob name =
     bindE (foldE (marker_section name) (no_sections ob) (False, [])) (\<lambda>(seen, result). Inr result)"

section \<open>Provenance of an object\<close>

definition check_dependency :: "build_host \<Rightarrow> json \<Rightarrow> unit expected" where
  "check_dependency h dependency =
     (case getAsObject dependency of
        None \<Rightarrow> Inl ''invalid compiler input provenance''
      | Some input \<Rightarrow>
          (case (getString input ''path'', getString input ''sha256'') of
             (Some path, Some sha) \<Rightarrow>
               bindE (bh_read h path default_limit) (\<lambda>contents.
               if digest (bh_codec h) contents \<noteq> sha then Inl (''compiler input changed before link: '' @ path) else Inr ())
           | _ \<Rightarrow> Inl ''invalid compiler input provenance''))"

definition saved_object :: "build_host \<Rightarrow> string \<Rightarrow> string \<Rightarrow> bool \<Rightarrow> string expected" where
  "saved_object h bytes metadata retained =
     (let saved = metadata @ ''/'' @ digest (bh_codec h) bytes @ ''.native.o'' in
      if retained then
        (if \<not> inside (bh_canonical h saved) metadata \<or> \<not> bh_isFile h saved
         then Inl ''retained original native object is missing or escaped metadata''
         else
           bindE (bh_read h saved default_limit) (\<lambda>original.
           if original \<noteq> bytes then Inl ''retained original native object changed'' else Inr saved))
      else if \<not> bh_exists h saved then bindE (bh_write h saved bytes) (\<lambda>_. Inr saved)
      else Inr saved)"

definition check_journal ::
  "build_host \<Rightarrow> string \<Rightarrow> string \<Rightarrow> string \<Rightarrow> bool \<Rightarrow> string \<Rightarrow> json_object \<Rightarrow> json expected" where
  "check_journal h bytes name metadata retained journalPath item =
     (case (getString item ''capture'', getString item ''capture_sha256'', getString item ''native_sha256'',
            getArray item ''dependencies'') of
        (Some capture, Some capture_sha, Some native_sha, Some dependencies) \<Rightarrow>
          if getString item ''source'' = None \<or> getString item ''optimization'' = None \<or> getArray item ''flags'' = None
          then Inl (''invalid immutable native capture journal: '' @ journalPath)
          else if native_sha \<noteq> digest (bh_codec h) bytes
          then Inl (''native object changed after successful Clang code generation: '' @ name)
          else if \<not> inside (bh_canonical h capture) metadata then Inl ''LLVM capture escapes private metadata''
          else
            bindE (bh_read h capture default_limit) (\<lambda>captured.
            if digest (bh_codec h) captured \<noteq> capture_sha then Inl ''LLVM capture changed after native code generation''
            else
              bindE (forE (check_dependency h) dependencies) (\<lambda>_.
              bindE (saved_object h bytes metadata retained) (\<lambda>saved.
              Inr (JObject (obj_put ''native_object'' (JString saved)
                     (obj_put ''native_sha256'' (JString (digest (bh_codec h) bytes)) item))))))
      | _ \<Rightarrow> Inl (''invalid immutable native capture journal: '' @ journalPath))"

definition consumedObject :: "build_host \<Rightarrow> string \<Rightarrow> string \<Rightarrow> string \<Rightarrow> bool \<Rightarrow> json expected" where
  "consumedObject h bytes name metadata retained =
     bindE (bh_object h bytes) (\<lambda>ob.
     bindE (captureMarkers ob name) (\<lambda>markers.
     if markers = [] then Inl (''native object has no private capture marker: '' @ name)
     else if length markers \<noteq> 1 then Inl (''native object has multiple private capture markers: '' @ name)
     else
       let journalPath = hd markers in
       if \<not> is_absolute journalPath \<or> \<not> inside (bh_canonical h journalPath) metadata
       then Inl (''object capture journal escapes private metadata: '' @ name)
       else
         bindE (readJson h journalPath) (\<lambda>journal.
         (case getAsObject journal of
            None \<Rightarrow> Inl (''invalid immutable native capture journal: '' @ journalPath)
          | Some item \<Rightarrow> check_journal h bytes name metadata retained journalPath item))))"

section \<open>Dynamic dependencies\<close>

record DynamicInfo =
  di_soname :: string
  di_needed :: "string list"

definition dynamic_entry :: "string \<Rightarrow> dyn_tag \<times> nat \<Rightarrow> DynamicInfo \<Rightarrow> DynamicInfo expected" where
  "dynamic_entry table entry info =
     (case entry of (tag, offset) \<Rightarrow>
        if tag \<noteq> DtNeeded \<and> tag \<noteq> DtSoname then Inr info
        else if offset \<ge> length table then Inl ''invalid ELF dynamic string offset''
        else
          let tail = drop offset table; name = takeWhile (\<lambda>c. c \<noteq> CHR 0x00) tail in
          if length name = length tail then Inl ''unterminated ELF dynamic name''
          else if name = [] \<or> length name > 255 \<or> CHR ''/'' \<in> set name \<or> name = ''.'' \<or> name = ''..''
          then Inl ''nonportable native dependency identity''
          else if tag = DtNeeded then Inr (info\<lparr>di_needed := di_needed info @ [name]\<rparr>)
          else Inr (info\<lparr>di_soname := name\<rparr>))"

definition dynamic_section :: "elf_section \<Rightarrow> DynamicInfo \<Rightarrow> DynamicInfo expected" where
  "dynamic_section s info =
     (if \<not> es_dynamic s then Inr info
      else bindE (es_table s) (\<lambda>table. bindE (es_entries s) (\<lambda>entries. foldE (dynamic_entry table) entries info)))"

definition dynamicInfo :: "native_object \<Rightarrow> DynamicInfo expected" where
  "dynamicInfo ob =
     (case no_elf ob of
        Some elf \<Rightarrow>
          if eh_little elf
          then bindE (eh_sections elf) (\<lambda>sections. foldE dynamic_section sections \<lparr>di_soname = [], di_needed = []\<rparr>)
          else Inl ''native build observer requires a qualified little-endian ELF object''
      | None \<Rightarrow> Inl ''native build observer requires a qualified little-endian ELF object'')"

section \<open>Selected archive members\<close>

definition archive_candidate ::
  "build_host \<Rightarrow> bool \<Rightarrow> string \<Rightarrow> string \<Rightarrow> string \<Rightarrow> archive_child \<Rightarrow> string option \<Rightarrow> string option expected" where
  "archive_candidate h thin memberName lane expectedJournal child found =
     bindE (ac_name child) (\<lambda>name.
     if name \<noteq> memberName then Inr found
     else
       bindE (if thin then bindE (ac_fullName child) (\<lambda>p.
                if \<not> inside (bh_canonical h p) lane
                then Inl (''thin archive member escapes private build: '' @ memberName) else Inr ())
              else Inr ()) (\<lambda>_.
       bindE (ac_buffer child) (\<lambda>contents.
       if length contents > 64 * 1024 * 1024 then Inl ''archive member exceeds capture limit''
       else
         (case bindE (bh_object h contents) (\<lambda>ob. captureMarkers ob name) of
            Inl _ \<Rightarrow> Inr found
          | Inr markers \<Rightarrow>
              if markers \<noteq> [expectedJournal] then Inr found
              else if found \<noteq> None then Inl (''ambiguous repeated-journal archive member: '' @ memberName)
              else Inr (Some contents)))))"

definition selectedArchiveMember ::
  "build_host \<Rightarrow> string \<Rightarrow> string \<Rightarrow> string \<Rightarrow> string \<Rightarrow> string expected" where
  "selectedArchiveMember h path memberName lane expectedJournal =
     bindE (bh_read h path default_limit) (\<lambda>bytes.
     bindE (bh_archive h bytes) (\<lambda>archive.
     bindE (foldE (archive_candidate h (na_thin archive) memberName lane expectedJournal) (na_children archive) None) (\<lambda>found.
     (case na_end archive of
        Some message \<Rightarrow> Inl message
      | None \<Rightarrow>
          (case found of
             None \<Rightarrow> Inl (''archive member does not match final native capture witness: '' @ memberName)
           | Some contents \<Rightarrow> Inr contents)))))"

end
