(* ===== verification/Native_Record.thy ===== *)
theory Native_Record
  imports Native_Objects Sdk
begin

text \<open>
  The record of one native link (Build.cpp, \<open>recordNativeLink\<close>): the linker's arguments, its trace of inputs
  compared with the witness in the output, and the dynamic dependencies. A semantic the publication cannot
  reproduce is collected in \<open>unsupported\<close> and does not fail the native build.
\<close>

section \<open>Linker arguments\<close>

record link_observation =
  lo_output :: string
  lo_kind :: string
  lo_versionScript :: string
  lo_interpreter :: string
  lo_hashStyle :: string
  lo_linkOptions :: "string list"
  lo_unsupported :: "string list"

definition observation_start :: link_observation where
  "observation_start =
     \<lparr>lo_output = ''a.out'', lo_kind = ''executable'', lo_versionScript = [], lo_interpreter = [], lo_hashStyle = ''gnu'',
      lo_linkOptions = [], lo_unsupported = []\<rparr>"

definition reserve :: "string \<Rightarrow> link_observation \<Rightarrow> link_observation" where
  "reserve reason s = s\<lparr>lo_unsupported := lo_unsupported s @ [reason]\<rparr>"

definition valued_native :: "string list" where
  "valued_native = [''-m'', ''-z'', ''-rpath'', ''--rpath'', ''-rpath-link'', ''--rpath-link'', ''-dynamic-linker'',
     ''--dynamic-linker'', ''-L'']"

definition ordinary_native :: "string list" where
  "ordinary_native = [''-pie'', ''--pie'', ''--eh-frame-hdr'', ''--as-needed'', ''--no-as-needed'', ''--enable-new-dtags'',
     ''--build-id'', ''-s'', ''--strip-all'', ''--whole-archive'', ''--no-whole-archive'', ''--start-group'', ''--end-group'',
     ''-('', ''-)'', ''-t'', ''--trace'']"

record link_context =
  lc_host :: build_host
  lc_sdk :: string
  lc_lane :: string
  lc_target :: TargetInfo

definition search_path_ok :: "link_context \<Rightarrow> string \<Rightarrow> bool" where
  "search_path_ok c value =
     (let p = bh_canonical (lc_host c) value in
      inside p (bh_canonical (lc_host c) (lc_sdk c)) \<or> inside p (lc_lane c) \<or> p = lc_lane c)"

definition search_options :: "string list" where
  "search_options = [''-L'', ''-rpath'', ''--rpath'', ''-rpath-link'', ''--rpath-link'']"

definition observe_valued :: "link_context \<Rightarrow> string \<Rightarrow> string \<Rightarrow> link_observation \<Rightarrow> link_observation" where
  "observe_valued c arg value s =
     (let s = (if arg = ''-m'' \<and> value \<noteq> lldEmulation (lc_target c)
               then reserve (''native linker emulation contradicts target profile: '' @ value) s else s);
          s = (if arg = ''-dynamic-linker'' \<or> arg = ''--dynamic-linker'' then s\<lparr>lo_interpreter := value\<rparr> else s);
          s = (if arg = ''-z'' \<and> value \<noteq> ''relro'' \<and> value \<noteq> ''now'' \<and> value \<noteq> ''nodefaultlib''
               then reserve (''unqualified native -z setting '' @ value) s else s) in
      if arg \<in> set search_options \<and> \<not> search_path_ok c value
      then reserve (''library search path outside captured build/SDK '' @ normalize_lane value (lc_lane c)) s else s)"

definition observe_script :: "link_context \<Rightarrow> string \<Rightarrow> link_observation \<Rightarrow> link_observation expected" where
  "observe_script c script s =
     (if lo_versionScript s \<noteq> [] then Inl ''multiple version scripts are not yet qualified''
      else bindE (bh_read (lc_host c) script (1024 * 1024)) (\<lambda>contents. Inr (s\<lparr>lo_versionScript := contents\<rparr>)))"

definition soname_option :: "string \<Rightarrow> link_observation \<Rightarrow> link_observation" where
  "soname_option name s = s\<lparr>lo_linkOptions := lo_linkOptions s @ [''-soname'', name]\<rparr>"

text \<open>The options that consume the next argument, in the order they are tested.\<close>

definition takes_value :: "string \<Rightarrow> bool" where
  "takes_value arg \<longleftrightarrow> arg = ''-o'' \<or> arg = ''-soname'' \<or> arg = ''--soname'' \<or> arg = ''-h'' \<or> arg \<in> set valued_native \<or>
     arg = ''--version-script'' \<or> arg = ''-T''"

definition missing_value :: "string \<Rightarrow> string" where
  "missing_value arg =
     (if arg = ''-o'' then ''native linker -o has no value''
      else if arg = ''-soname'' \<or> arg = ''--soname'' \<or> arg = ''-h'' then ''native linker SONAME has no value''
      else if arg \<in> set valued_native then ''native linker option has no value''
      else if arg = ''--version-script'' then ''version script has no path''
      else ''native linker script has no value'')"

definition observe_pair :: "link_context \<Rightarrow> string \<Rightarrow> string \<Rightarrow> link_observation \<Rightarrow> link_observation expected" where
  "observe_pair c arg value s =
     (if arg = ''-o'' then Inr (s\<lparr>lo_output := value\<rparr>)
      else if arg = ''-soname'' \<or> arg = ''--soname'' \<or> arg = ''-h'' then Inr (soname_option value s)
      else if arg \<in> set valued_native then Inr (observe_valued c arg value s)
      else if arg = ''--version-script'' then observe_script c value s
      else Inr (reserve (''unqualified link semantic '' @ arg) s))"

definition after_equals :: "string \<Rightarrow> string" where
  "after_equals arg = drop 1 (dropWhile (\<lambda>c. c \<noteq> CHR ''='') arg)"

definition observe_single :: "link_context \<Rightarrow> string list \<Rightarrow> string \<Rightarrow> link_observation \<Rightarrow> link_observation expected" where
  "observe_single c args arg s =
     (if starts_with ''-o'' arg \<and> length arg > 2 then Inr (s\<lparr>lo_output := drop 2 arg\<rparr>)
      else if arg = ''-shared'' \<or> arg = ''--shared'' then Inr (s\<lparr>lo_kind := ''shared''\<rparr>)
      else if starts_with ''--soname='' arg \<or> starts_with ''-soname='' arg then Inr (soname_option (after_equals arg) s)
      else if arg = ''-export-dynamic'' \<or> arg = ''--export-dynamic'' \<or> arg = ''-E''
      then Inr (s\<lparr>lo_linkOptions := lo_linkOptions s @ [''--export-dynamic'']\<rparr>)
      else if arg = ''--hash-style=both'' \<or> arg = ''--hash-style=gnu'' then Inr (s\<lparr>lo_hashStyle := drop 13 arg\<rparr>)
      else if starts_with ''--dynamic-linker='' arg then Inr (s\<lparr>lo_interpreter := drop 17 arg\<rparr>)
      else if arg = ''--undefined-version'' then Inr (s\<lparr>lo_linkOptions := lo_linkOptions s @ [arg]\<rparr>)
      else if arg = ''-EL'' \<or> arg = ''--little-endian'' then
        Inr (if byteOrder (lc_target c) \<noteq> ''little''
             then reserve ''native linker byte order contradicts target profile'' s else s)
      else if arg = ''-X'' \<or> arg = ''--discard-locals'' then
        Inr (if ''--strip-all'' \<notin> set args \<and> ''-s'' \<notin> set args
             then reserve ''discard-locals requires the qualified full-stripping policy'' s else s)
      else if arg = ''-lc'' \<or> starts_with ''-l'' arg then Inr s
      else if starts_with ''--version-script='' arg then observe_script c (drop 17 arg) s
      else if arg = ''-r'' \<or> arg = ''--relocatable'' \<or> arg = ''-static''
      then Inr (reserve (''unqualified link semantic '' @ arg) s)
      else if \<not> starts_with ''-'' arg \<and> arg \<noteq> [] then Inr s
      else if starts_with ''-L'' arg then
        Inr (if search_path_ok c (drop 2 arg) then s
             else reserve (''library search path outside captured build/SDK '' @ normalize_lane arg (lc_lane c)) s)
      else if arg \<notin> set ordinary_native \<and> \<not> starts_with ''--sysroot='' arg \<and> arg \<noteq> ''--build-id=fast''
      then Inr (reserve (''unknown native link semantic '' @ arg) s)
      else Inr s)"

fun observe_args :: "link_context \<Rightarrow> string list \<Rightarrow> string list \<Rightarrow> link_observation \<Rightarrow> link_observation expected" where
  "observe_args c all [] s = Inr s"
| "observe_args c all (arg # rest) s =
     (if takes_value arg then
        (case rest of
           [] \<Rightarrow> Inl (missing_value arg)
         | value # rest' \<Rightarrow> bindE (observe_pair c arg value s) (observe_args c all rest'))
      else bindE (observe_single c all arg s) (observe_args c all rest))"

section \<open>The input trace\<close>

record trace_state =
  ts_position :: nat
  ts_units :: "json list"
  ts_privateDSOs :: "(string, string) smap"
  ts_managedLoader :: bool
  ts_archiveNames :: "string list"
  ts_unsupported :: "string list"

definition trace_reserve :: "string \<Rightarrow> trace_state \<Rightarrow> trace_state" where
  "trace_reserve reason s = s\<lparr>ts_unsupported := ts_unsupported s @ [reason]\<rparr>"

text \<open>A nonempty line of the trace: a file, or \<open>archive(member)\<close>.\<close>

definition archive_line :: "string \<Rightarrow> (string \<times> string) option" where
  "archive_line line =
     (if CHR ''('' \<in> set line \<and> last line = CHR '')'' then
        let member = rev (takeWhile (\<lambda>c. c \<noteq> CHR ''('') (rev line)) in
        Some (take (length line - length member - 1) line, butlast member)
      else None)"

text \<open>
  What the line contributes before its object is parsed: nothing more to do, or its path, whether it is a
  member, and its bytes.
\<close>

definition trace_source ::
  "link_context \<Rightarrow> string \<Rightarrow> string list \<Rightarrow> string \<Rightarrow> trace_state \<Rightarrow> trace_state \<times> (string \<times> bool \<times> string) option" where
  "trace_source c expectedInterpreter journals line s =
     (let h = lc_host c; sdk = bh_canonical h (lc_sdk c) in
      case archive_line line of
        Some (archive, member) \<Rightarrow>
          let path = bh_canonical h archive in
          if inside path sdk then (s, None)
          else if \<not> inside path (lc_lane c) then (trace_reserve ''archive input outside private build'' s, None)
          else
            let s = s\<lparr>ts_archiveNames := List.insert line (ts_archiveNames s)\<rparr> in
            if ts_position s = length journals
            then (trace_reserve ''archive extraction exceeds final native capture witness'' s, None)
            else
              (case selectedArchiveMember h path member (lc_lane c) (journals ! ts_position s) of
                 Inl message \<Rightarrow> (trace_reserve message s, None)
               | Inr contents \<Rightarrow> (s, Some (path, True, contents)))
      | None \<Rightarrow>
          let path = bh_canonical h line in
          if inside path sdk then
            (if path = bh_canonical h expectedInterpreter then s\<lparr>ts_managedLoader := True\<rparr> else s, None)
          else if \<not> inside path (lc_lane c)
          then (trace_reserve (''native input outside private build: '' @ line) s, None)
          else
            (case bh_read h path default_limit of
               Inl message \<Rightarrow> (trace_reserve message s, None)
             | Inr contents \<Rightarrow> (s, Some (path, False, contents))))"

definition trace_dso ::
  "link_context \<Rightarrow> string \<Rightarrow> string \<Rightarrow> string \<Rightarrow> string \<Rightarrow> native_object \<Rightarrow> trace_state \<Rightarrow> trace_state expected" where
  "trace_dso c metadata line path contents ob s =
     (let h = lc_host c in
      case dynamicInfo ob of
        Inl message \<Rightarrow> Inr (trace_reserve message s)
      | Inr info \<Rightarrow>
          (case readJson h (metadataPath h metadata path ''link'') of
             Inl _ \<Rightarrow> Inr (trace_reserve (''DSO lacks private build provenance: '' @ line) s)
           | Inr dependency \<Rightarrow>
               (case getAsObject dependency of
                  None \<Rightarrow> Inr (trace_reserve (''DSO identity/provenance mismatch: '' @ line) s)
                | Some record \<Rightarrow>
                    if getString record ''native_sha256'' \<noteq> Some (digest (bh_codec h) contents) \<or>
                       getString record ''kind'' \<noteq> Some ''shared'' \<or> di_soname info = []
                    then Inr (trace_reserve (''DSO identity/provenance mismatch: '' @ line) s)
                    else
                      bindE (string_array record ''unsupported'') (\<lambda>errors.
                      if errors \<noteq> [] then Inr (trace_reserve (''unqualified DSO dependency: '' @ hd errors) s)
                      else
                        (case smap_at (ts_privateDSOs s) (di_soname info) of
                           None \<Rightarrow> Inr (s\<lparr>ts_privateDSOs := smap_put (di_soname info) path (ts_privateDSOs s)\<rparr>)
                         | Some other \<Rightarrow>
                             Inr (if other \<noteq> path
                                  then trace_reserve (''conflicting native DSO SONAME: '' @ di_soname info) s else s))))))"

definition trace_unit ::
  "link_context \<Rightarrow> string \<Rightarrow> string list \<Rightarrow> string \<Rightarrow> string \<Rightarrow> native_object \<Rightarrow> trace_state \<Rightarrow> trace_state" where
  "trace_unit c metadata journals line contents ob s =
     (case captureMarkers ob line of
        Inl message \<Rightarrow> trace_reserve message s
      | Inr markers \<Rightarrow>
          if length markers \<noteq> 1 \<or> ts_position s \<ge> length journals \<or> hd markers \<noteq> journals ! ts_position s
          then trace_reserve (''native trace/final capture witness order mismatch: '' @ line) s
          else
            let s = s\<lparr>ts_position := ts_position s + 1\<rparr> in
            (case consumedObject (lc_host c) contents line metadata False of
               Inl message \<Rightarrow> trace_reserve message s
             | Inr journal \<Rightarrow> s\<lparr>ts_units := ts_units s @ [journal]\<rparr>))"

definition trace_line ::
  "link_context \<Rightarrow> string \<Rightarrow> string \<Rightarrow> string list \<Rightarrow> string \<Rightarrow> trace_state \<Rightarrow> trace_state expected" where
  "trace_line c metadata expectedInterpreter journals line s =
     (case trace_source c expectedInterpreter journals line s of
        (s, None) \<Rightarrow> Inr s
      | (s, Some (path, member, contents)) \<Rightarrow>
          (case bh_object (lc_host c) contents of
             Inl message \<Rightarrow> Inr (trace_reserve message s)
           | Inr ob \<Rightarrow>
               (case no_elf ob of
                  None \<Rightarrow> Inr (trace_reserve ''non-ELF native input'' s)
                | Some elf \<Rightarrow>
                    if \<not> member \<and> eh_kind elf = ElfDyn then trace_dso c metadata line path contents ob s
                    else if eh_kind elf \<noteq> ElfRel then Inr (trace_reserve ''non-relocatable ordinary link input'' s)
                    else Inr (trace_unit c metadata journals line contents ob s))))"

section \<open>The output\<close>

text \<open>The lines after the header of LLD's extraction report.\<close>

definition check_extraction :: "link_context \<Rightarrow> string list \<Rightarrow> string \<Rightarrow> unit expected" where
  "check_extraction c archiveNames line =
     (let fields = split_on (CHR 0x09) line in
      if length fields \<noteq> 3 then Inl ''malformed LLD archive extraction evidence''
      else if CHR ''('' \<notin> set (fields ! 1) then Inl ''invalid extracted member identity''
      else
        let member = takeWhile (\<lambda>c. c \<noteq> CHR ''('') (rev (fields ! 1));
            archive = take (length (fields ! 1) - length member - 1) (fields ! 1) in
        if inside (bh_canonical (lc_host c) archive) (bh_canonical (lc_host c) (lc_sdk c)) then Inr ()
        else if fields ! 1 \<notin> set archiveNames then Inl ''LLD archive extraction/trace mismatch''
        else Inr ())"

definition lines_of :: "string \<Rightarrow> string list" where
  "lines_of text = filter (\<lambda>l. l \<noteq> []) (split_on newline text)"

text \<open>\<open>EF_ARM_EABIMASK\<close>, \<open>EF_ARM_EABI_VER5\<close>, \<open>EF_ARM_ABI_FLOAT_HARD\<close>, \<open>EF_ARM_ABI_FLOAT_SOFT\<close>, \<open>EF_ARM_BE8\<close>.\<close>

definition arm_flags_ok :: "nat \<Rightarrow> bool" where
  "arm_flags_ok flags \<longleftrightarrow>
     flags div 2 ^ 24 mod 256 = 5 \<and> flags div 2 ^ 10 mod 2 = 1 \<and> flags div 2 ^ 9 mod 2 = 0 \<and> flags div 2 ^ 23 mod 2 = 0"

definition output_reservations :: "TargetInfo \<Rightarrow> native_object \<Rightarrow> string list" where
  "output_reservations target ob =
     (case no_elf ob of
        None \<Rightarrow> [''selected native output is not the qualified PIE/shared ELF kind'']
      | Some elf \<Rightarrow>
          (if eh_kind elf \<noteq> ElfDyn then [''selected native output is not the qualified PIE/shared ELF kind''] else []) @
          (if eh_machine elf \<noteq> elfMachine target \<or> eh_addressBytes elf * 8 \<noteq> wordBits target \<or> \<not> eh_little elf
           then [''selected native ELF ABI contradicts target profile''] else []) @
          (if target_abi target = ''aapcs32-vfp'' \<and> \<not> arm_flags_ok (eh_flags elf)
           then [''selected native ELF is not the required little-endian ARM EABI5 hard-float ABI''] else []))"

definition needed_library ::
  "TargetInfo \<Rightarrow> trace_state \<Rightarrow> string \<Rightarrow> string list \<times> string list \<Rightarrow> string list \<times> string list" where
  "needed_library target s needed st =
     (case st of (libraries, unsupported) \<Rightarrow>
        if smap_at (ts_privateDSOs s) needed \<noteq> None then (libraries @ ['':'' @ needed], unsupported)
        else if needed = ''libc.so.6'' then (libraries, unsupported)
        else if needed = loader target \<and> ts_managedLoader s then (libraries, unsupported)
        else if needed = ''libm.so.6'' then (libraries @ [''m''], unsupported)
        else (libraries, unsupported @ [''native dependency is not a captured/managed DSO: '' @ needed]))"

record native_link =
  nl_sha :: string
  nl_kind :: string
  nl_units :: "json list"
  nl_libraries :: "string list"
  nl_linkOptions :: "string list"
  nl_versionScript :: string
  nl_unsupported :: "string list"

definition repeated_journals :: "string list \<Rightarrow> string list" where
  "repeated_journals journals =
     map (\<lambda>_. ''repeated journal in final native capture witness'')
       (filter (\<lambda>i. journals ! i \<in> set (take i journals)) [0..<length journals])"

definition expected_interpreter :: "build_config \<Rightarrow> link_context \<Rightarrow> string" where
  "expected_interpreter b c =
     path_join (path_join (path_join (sdk_sysroot b (lc_sdk c) (target_id (lc_target c))) ''usr/lib'') (multiarch (lc_target c)))
       (loader (lc_target c))"

text \<open>The observation of a link whose output is in the lane.\<close>

definition record_output ::
  "build_config \<Rightarrow> link_context \<Rightarrow> string \<Rightarrow> string \<Rightarrow> string \<Rightarrow> link_observation \<Rightarrow> native_link expected" where
  "record_output b c metadata trace whyExtract o1 =
     (let h = lc_host c; output = lo_output o1; interpreter = expected_interpreter b c;
          linkOptions = lo_linkOptions o1 @ (if lo_hashStyle o1 = ''both'' then [''--hash-style=both''] else []);
          u1 = lo_unsupported o1 @
            (if lo_kind o1 = ''executable'' \<and> lo_interpreter o1 \<noteq> interpreter
             then [''unqualified native dynamic interpreter '' @ lo_interpreter o1] else []) in
      bindE (bh_read h output default_limit) (\<lambda>bytes.
      bindE (bh_object h bytes) (\<lambda>ob.
      let journals = (case captureMarkers ob output of Inl _ \<Rightarrow> [] | Inr ms \<Rightarrow> ms);
          u2 = u1 @ (case captureMarkers ob output of Inl message \<Rightarrow> [message] | Inr _ \<Rightarrow> []) @ repeated_journals journals in
      bindE (bh_read h trace (8 * 1024 * 1024)) (\<lambda>traceText.
      bindE (bh_read h whyExtract (8 * 1024 * 1024)) (\<lambda>extraction.
      bindE (foldE (trace_line c metadata interpreter journals) (lines_of traceText)
          \<lparr>ts_position = 0, ts_units = [], ts_privateDSOs = [], ts_managedLoader = False, ts_archiveNames = [],
           ts_unsupported = u2\<rparr>) (\<lambda>s.
      let u3 = ts_unsupported s @
            (if ts_position s \<noteq> length journals then [''final native capture witness contains unmatched input journals''] else []) in
      bindE (forE (check_extraction c (ts_archiveNames s)) (tl (lines_of extraction))) (\<lambda>_.
      bindE (dynamicInfo ob) (\<lambda>info.
      let (libraries, unsupported) = fold (needed_library (lc_target c) s) (di_needed info)
            ([], u3 @ output_reservations (lc_target c) ob) in
      Inr \<lparr>nl_sha = digest (bh_codec h) bytes, nl_kind = lo_kind o1, nl_units = ts_units s, nl_libraries = libraries,
           nl_linkOptions = linkOptions, nl_versionScript = lo_versionScript o1, nl_unsupported = unsupported\<rparr>))))))))"

definition link_json :: "native_link \<Rightarrow> json" where
  "link_json r =
     JObject [(''native_sha256'', JString (nl_sha r)), (''kind'', JString (nl_kind r)), (''units'', JArray (nl_units r)),
       (''libraries'', JArray (map JString (nl_libraries r))), (''link_options'', JArray (map JString (nl_linkOptions r))),
       (''version_script'', JString (nl_versionScript r)), (''unsupported'', JArray (map JString (nl_unsupported r)))]"

text \<open>\<open>recordNativeLink\<close>: nothing is recorded for the discarded output \<open>/dev/null\<close>.\<close>

definition recordNativeLink ::
  "build_config \<Rightarrow> build_host \<Rightarrow> string \<Rightarrow> string option \<Rightarrow> string list \<Rightarrow> string \<Rightarrow> string \<Rightarrow> string \<Rightarrow> string \<Rightarrow>
   native_link option expected" where
  "recordNativeLink b h sdk profile args lane metadata trace whyExtract =
     (case Option.bind profile targets_find of
        None \<Rightarrow> Inl ''native linker lacks a qualified profile''
      | Some target \<Rightarrow>
          let c = \<lparr>lc_host = h, lc_sdk = sdk, lc_lane = lane, lc_target = target\<rparr> in
          bindE (observe_args c args args observation_start) (\<lambda>o1.
          let output = bh_canonical h (lo_output o1) in
          if output = ''/dev/null'' then Inr None
          else if \<not> inside output lane then Inl ''native link output escaped private build lane''
          else
            bindE (record_output b c metadata trace whyExtract (o1\<lparr>lo_output := output\<rparr>)) (\<lambda>r.
            bindE (bh_write h (metadataPath h metadata output ''link'') (json_text (bh_codec h) (link_json r))) (\<lambda>_.
            Inr (Some r)))))"

end
