(* ===== verification/Native_Record_Facts.thy ===== *)
theory Native_Record_Facts
  imports Native_Record
begin

text \<open>
  A native link recorded without a reservation: the journals witnessed by the output are distinct, every one of
  them is the provenance of the consumed object at its place, and the output has the target's ELF kind.
\<close>

section \<open>Provenance\<close>

definition genuine_unit :: "build_host \<Rightarrow> string \<Rightarrow> string \<Rightarrow> json \<Rightarrow> bool" where
  "genuine_unit h metadata journal unit \<longleftrightarrow>
     (\<exists>bytes name ob item capture captured saved.
        bh_object h bytes = Inr ob \<and> captureMarkers ob name = Inr [journal] \<and>
        is_absolute journal \<and> inside (bh_canonical h journal) metadata \<and>
        readJson h journal = Inr (JObject item) \<and>
        getString item ''native_sha256'' = Some (digest (bh_codec h) bytes) \<and>
        getString item ''capture'' = Some capture \<and> inside (bh_canonical h capture) metadata \<and>
        bh_read h capture default_limit = Inr captured \<and>
        getString item ''capture_sha256'' = Some (digest (bh_codec h) captured) \<and>
        unit = JObject (obj_put ''native_object'' (JString saved)
          (obj_put ''native_sha256'' (JString (digest (bh_codec h) bytes)) item)))"

lemma check_journal_facts:
  assumes "check_journal h bytes name metadata retained journal item = Inr unit"
  shows "\<exists>capture captured saved. getString item ''native_sha256'' = Some (digest (bh_codec h) bytes) \<and>
    getString item ''capture'' = Some capture \<and> inside (bh_canonical h capture) metadata \<and>
    bh_read h capture default_limit = Inr captured \<and>
    getString item ''capture_sha256'' = Some (digest (bh_codec h) captured) \<and>
    unit = JObject (obj_put ''native_object'' (JString saved)
      (obj_put ''native_sha256'' (JString (digest (bh_codec h) bytes)) item))"
  using assms by (auto simp: check_journal_def bindE_Inr_iff split: option.splits if_splits)

lemma consumed_genuine:
  assumes "consumedObject h bytes name metadata retained = Inr unit" "bh_object h bytes = Inr ob"
    "captureMarkers ob name = Inr markers"
  shows "markers = [hd markers] \<and> genuine_unit h metadata (hd markers) unit"
proof -
  from assms obtain item where len: "length markers = 1"
    and j: "is_absolute (hd markers)" "inside (bh_canonical h (hd markers)) metadata"
    "readJson h (hd markers) = Inr (JObject item)" "check_journal h bytes name metadata retained (hd markers) item = Inr unit"
    by (auto simp: consumedObject_def Let_def bindE_Inr_iff split: if_splits option.splits json.splits elim!: getAsObject.elims)
  have one: "markers = [hd markers]" using len by (cases markers) auto
  from check_journal_facts [OF j(4)] one assms(2,3) j(1-3) show ?thesis unfolding genuine_unit_def by metis
qed

section \<open>The input trace\<close>

definition trace_ok :: "build_host \<Rightarrow> string \<Rightarrow> string list \<Rightarrow> string list \<Rightarrow> trace_state \<Rightarrow> bool" where
  "trace_ok h metadata journals before s \<longleftrightarrow>
     ts_position s \<le> length journals \<and>
     (ts_unsupported s = [] \<longrightarrow>
        before = [] \<and> list_all2 (genuine_unit h metadata) (take (ts_position s) journals) (ts_units s))"

lemma trace_reserve_ok [simp]:
  "trace_ok h metadata journals before s \<Longrightarrow> trace_ok h metadata journals before (trace_reserve reason s)"
  by (simp add: trace_ok_def trace_reserve_def)

lemma trace_source_ok:
  assumes "trace_source c interpreter journals line s = (s', next)" "trace_ok h metadata journals before s"
  shows "trace_ok h metadata journals before s'"
proof -
  have upd: "trace_ok h metadata journals before (s\<lparr>ts_archiveNames := n\<rparr>)"
    "trace_ok h metadata journals before (s\<lparr>ts_managedLoader := m\<rparr>)" for n m
    using assms(2) by (simp_all add: trace_ok_def)
  show ?thesis using assms upd
    by (auto simp: trace_source_def Let_def split: option.splits prod.splits if_splits sum.splits)
qed

lemma trace_dso_ok:
  assumes "trace_dso c metadata line path contents ob s = Inr s'" "trace_ok h metadata journals before s"
  shows "trace_ok h metadata journals before s'"
proof -
  have upd: "trace_ok h metadata journals before (s\<lparr>ts_privateDSOs := m\<rparr>)" for m
    using assms(2) by (simp add: trace_ok_def)
  show ?thesis using assms upd
    by (auto simp: trace_dso_def Let_def bindE_Inr_iff split: option.splits if_splits sum.splits)
qed

lemma trace_unit_ok:
  assumes "bh_object (lc_host c) contents = Inr ob" "trace_ok (lc_host c) metadata journals before s"
  shows "trace_ok (lc_host c) metadata journals before (trace_unit c metadata journals line contents ob s)"
proof (cases "captureMarkers ob line")
  case (Inl message)
  with assms(2) show ?thesis by (simp add: trace_unit_def)
next
  case (Inr markers)
  let ?s = "s\<lparr>ts_position := ts_position s + 1\<rparr>"
  show ?thesis
  proof (cases "length markers \<noteq> 1 \<or> ts_position s \<ge> length journals \<or> hd markers \<noteq> journals ! ts_position s")
    case True
    with Inr assms(2) show ?thesis by (simp add: trace_unit_def)
  next
    case match: False
    then have take: "take (ts_position s + 1) journals = take (ts_position s) journals @ [hd markers]"
      by (simp add: take_Suc_conv_app_nth)
    show ?thesis
    proof (cases "consumedObject (lc_host c) contents line metadata False")
      case (Inl message)
      with Inr match assms(2) show ?thesis by (simp add: trace_unit_def trace_reserve_def trace_ok_def)
    next
      case consumed: (Inr journal)
      from consumed_genuine [OF this assms(1) Inr] have "genuine_unit (lc_host c) metadata (hd markers) journal" by blast
      with match assms(2) take have "trace_ok (lc_host c) metadata journals before (?s\<lparr>ts_units := ts_units s @ [journal]\<rparr>)"
        by (auto simp: trace_ok_def intro!: list_all2_appendI)
      with Inr match consumed show ?thesis by (simp add: trace_unit_def)
    qed
  qed
qed

lemma trace_line_ok:
  assumes "trace_line c metadata interpreter journals line s = Inr s'" "trace_ok (lc_host c) metadata journals before s"
  shows "trace_ok (lc_host c) metadata journals before s'"
proof -
  obtain s1 more where src: "trace_source c interpreter journals line s = (s1, more)" by fastforce
  note ok = trace_source_ok [OF src assms(2)]
  show ?thesis
  proof (cases more)
    case None
    with assms(1) src ok show ?thesis by (simp add: trace_line_def)
  next
    case (Some m)
    then obtain path member contents where m: "more = Some (path, member, contents)" by (cases m) auto
    show ?thesis
    proof (cases "bh_object (lc_host c) contents")
      case (Inl e)
      with assms(1) src m ok show ?thesis by (auto simp: trace_line_def)
    next
      case (Inr ob)
      note unit = trace_unit_ok [OF Inr ok]
      from assms(1) src m Inr show ?thesis
        using ok unit trace_dso_ok [OF _ ok]
        by (auto simp: trace_line_def split: option.splits if_splits)
    qed
  qed
qed

section \<open>The record\<close>

lemma repeated_none:
  assumes "repeated_journals journals = []"
  shows "distinct journals"
proof -
  have before: "journals ! i \<notin> set (take i journals)" if "i < length journals" for i
    using assms that by (simp add: repeated_journals_def filter_empty_conv)
  have "journals ! j \<noteq> journals ! i" if "j < i" "i < length journals" for i j
    using before [OF that(2)] that by (auto simp: in_set_conv_nth)
  then show ?thesis unfolding distinct_conv_nth by (metis linorder_neqE_nat)
qed

lemma needed_libraries_unsupported:
  "snd (fold (needed_library target s) needed (libraries, unsupported)) = [] \<Longrightarrow> unsupported = []"
proof (induction needed arbitrary: libraries unsupported)
  case (Cons n needed)
  obtain l u where st: "needed_library target s n (libraries, unsupported) = (l, u)" by fastforce
  with Cons have "u = []" by simp
  with st show ?case by (auto simp: needed_library_def split: if_splits)
qed simp

definition target_output :: "TargetInfo \<Rightarrow> native_object \<Rightarrow> bool" where
  "target_output target ob \<longleftrightarrow>
     (\<exists>elf. no_elf ob = Some elf \<and> eh_kind elf = ElfDyn \<and> eh_machine elf = elfMachine target \<and>
        eh_addressBytes elf * 8 = wordBits target \<and> eh_little elf)"

lemma output_reservations_none: "output_reservations target ob = [] \<Longrightarrow> target_output target ob"
  by (auto simp: output_reservations_def target_output_def split: option.splits if_splits)

lemma record_output_facts:
  assumes "record_output b c metadata trace whyExtract o1 = Inr r" "nl_unsupported r = []"
  shows "\<exists>bytes ob journals. bh_read (lc_host c) (lo_output o1) default_limit = Inr bytes \<and>
    nl_sha r = digest (bh_codec (lc_host c)) bytes \<and> bh_object (lc_host c) bytes = Inr ob \<and>
    captureMarkers ob (lo_output o1) = Inr journals \<and> distinct journals \<and>
    list_all2 (genuine_unit (lc_host c) metadata) journals (nl_units r) \<and> target_output (lc_target c) ob \<and>
    lo_unsupported o1 = []"
proof -
  let ?h = "lc_host c"
  let ?journals = "\<lambda>ob. case captureMarkers ob (lo_output o1) of Inl _ \<Rightarrow> [] | Inr ms \<Rightarrow> ms"
  let ?before = "\<lambda>ob. (lo_unsupported o1 @
    (if lo_kind o1 = ''executable'' \<and> lo_interpreter o1 \<noteq> expected_interpreter b c
     then [''unqualified native dynamic interpreter '' @ lo_interpreter o1] else [])) @
    (case captureMarkers ob (lo_output o1) of Inl message \<Rightarrow> [message] | Inr _ \<Rightarrow> []) @ repeated_journals (?journals ob)"
  let ?start = "\<lambda>ob. \<lparr>ts_position = 0, ts_units = [], ts_privateDSOs = [], ts_managedLoader = False,
    ts_archiveNames = [], ts_unsupported = ?before ob\<rparr>"
  let ?deps = "\<lambda>ob s (info :: DynamicInfo). fold (needed_library (lc_target c) s) (di_needed info)
      ([], (ts_unsupported s @ (if ts_position s \<noteq> length (?journals ob)
          then [''final native capture witness contains unmatched input journals''] else [])) @
        output_reservations (lc_target c) ob)"
  from assms(1) [unfolded record_output_def Let_def bindE_Inr_iff] obtain bytes ob traceText s info where
    read: "bh_read ?h (lo_output o1) default_limit = Inr bytes" "bh_object ?h bytes = Inr ob"
    and info: "dynamicInfo ob = Inr info"
    and trace: "foldE (trace_line c metadata (expected_interpreter b c) (?journals ob)) (lines_of traceText) (?start ob) = Inr s"
    and link: "(case ?deps ob s info of (libraries, unsupported) \<Rightarrow>
      Inr \<lparr>nl_sha = digest (bh_codec ?h) bytes, nl_kind = lo_kind o1, nl_units = ts_units s, nl_libraries = libraries,
           nl_linkOptions = lo_linkOptions o1 @ (if lo_hashStyle o1 = ''both'' then [''--hash-style=both''] else []),
           nl_versionScript = lo_versionScript o1, nl_unsupported = unsupported\<rparr>) = (Inr r :: native_link expected)" by blast
  have r: "nl_sha r = digest (bh_codec ?h) bytes" "nl_units r = ts_units s" "nl_unsupported r = snd (?deps ob s info)"
    using link by (auto simp del: fold_simps split: prod.splits)
  from needed_libraries_unsupported [OF assms(2) [unfolded r(3)]]
  have none: "ts_unsupported s = []" "ts_position s = length (?journals ob)" "output_reservations (lc_target c) ob = []"
    by (auto split: if_splits)
  have "trace_ok ?h metadata (?journals ob) (?before ob) s"
  proof (rule foldE_invariant [where P = "trace_ok ?h metadata (?journals ob) (?before ob)", OF trace])
    show "trace_ok ?h metadata (?journals ob) (?before ob) (?start ob)" unfolding trace_ok_def by simp
  qed (rule trace_line_ok)
  with none have before: "?before ob = []"
    and units: "list_all2 (genuine_unit ?h metadata) (?journals ob) (ts_units s)"
    unfolding trace_ok_def by simp_all
  from before obtain journals where journals: "captureMarkers ob (lo_output o1) = Inr journals" by (auto split: sum.splits)
  with before have "distinct journals" "lo_unsupported o1 = []" using repeated_none by auto
  with read r(1,2) journals units output_reservations_none [OF none(3)] show ?thesis by auto
qed

text \<open>
  A recorded link without a reservation is the one the output witnesses: its units are the provenance of the
  output's distinct journals, in their order.
\<close>

definition witnessed_link :: "build_host \<Rightarrow> TargetInfo \<Rightarrow> string \<Rightarrow> string \<Rightarrow> string \<Rightarrow> native_link \<Rightarrow> bool" where
  "witnessed_link h target lane metadata output r \<longleftrightarrow> inside output lane \<and>
     (\<exists>bytes ob journals. bh_read h output default_limit = Inr bytes \<and> nl_sha r = digest (bh_codec h) bytes \<and>
        bh_object h bytes = Inr ob \<and> captureMarkers ob output = Inr journals \<and> distinct journals \<and>
        list_all2 (genuine_unit h metadata) journals (nl_units r) \<and> target_output target ob)"

lemma recorded_link_witnessed:
  assumes "recordNativeLink b h sdk (Some profile) args lane metadata trace whyExtract = Inr (Some r)" "nl_unsupported r = []"
  shows "\<exists>target output. targets_find profile = Some target \<and> witnessed_link h target lane metadata output r"
proof -
  from assms(1) obtain target o1 where t: "targets_find profile = Some target"
    and out: "inside (bh_canonical h (lo_output o1)) lane"
    and rec: "record_output b \<lparr>lc_host = h, lc_sdk = sdk, lc_lane = lane, lc_target = target\<rparr> metadata trace whyExtract
        (o1\<lparr>lo_output := bh_canonical h (lo_output o1)\<rparr>) = Inr r"
    by (auto simp: recordNativeLink_def Let_def bindE_Inr_iff split: option.splits if_splits)
  from record_output_facts [OF rec assms(2)] out
  have "witnessed_link h target lane metadata (bh_canonical h (lo_output o1)) r" by (auto simp: witnessed_link_def)
  with t show ?thesis by blast
qed

end
