(* ===== verification/Native_Select.thy ===== *)
theory Native_Select
  imports Native_Objects Publication_Link_Facts
begin

text \<open>
  The selection of a captured build (Build.cpp): the units of one target's output from its link journal or its
  archive, and the combination of the targets' selections into units captured on several targets, with the
  order each target links them in.
\<close>

section \<open>The units of one output\<close>

record SelectedUnit =
  su_capture :: string
  su_source :: string
  su_key :: string
  su_flags :: string
  su_optimization :: string
  su_member :: string

record SelectedBuild =
  sb_units :: "SelectedUnit list"
  sb_libraries :: "string list"
  sb_linkOptions :: "string list"
  sb_kind :: string
  sb_versionScript :: string
  sb_target :: string

text \<open>The fields a checked journal has; a missing one would be an unguarded access.\<close>

definition unit_of_journal :: "codec \<Rightarrow> json_object \<Rightarrow> string \<Rightarrow> SelectedUnit expected" where
  "unit_of_journal c item member =
     bindE (deref (getString item ''capture'')) (\<lambda>capture.
     bindE (deref (getString item ''source'')) (\<lambda>source.
     bindE (deref (getString item ''key'')) (\<lambda>key.
     bindE (deref (obj_get item ''flags'')) (\<lambda>flags.
     bindE (deref (getString item ''optimization'')) (\<lambda>optimization.
     Inr \<lparr>su_capture = capture, su_source = source, su_key = key, su_flags = json_text c flags,
          su_optimization = optimization, su_member = member\<rparr>)))))"

definition portable_member :: "string \<Rightarrow> bool" where
  "portable_member name \<longleftrightarrow> name \<noteq> [] \<and> length name \<le> 128 \<and> CHR ''/'' \<notin> set name \<and> CHR 0x5C \<notin> set name \<and>
     CHR 0x00 \<notin> set name \<and> name \<noteq> ''.'' \<and> name \<noteq> ''..''"

definition select_member ::
  "build_host \<Rightarrow> bool \<Rightarrow> string \<Rightarrow> string \<Rightarrow> bool \<Rightarrow> archive_child \<Rightarrow> SelectedUnit list \<Rightarrow> SelectedUnit list expected" where
  "select_member h thin metadata lane retained child units =
     bindE (ac_name child) (\<lambda>name.
     if \<not> portable_member name then Inl (''static archive member needs a portable basename: '' @ name)
     else
       bindE (if thin then bindE (ac_fullName child) (\<lambda>p.
                if \<not> inside (bh_canonical h p) lane then Inl ''thin static output member escapes private build'' else Inr ())
              else Inr ()) (\<lambda>_.
       bindE (ac_buffer child) (\<lambda>contents.
       if length contents > 64 * 1024 * 1024 then Inl ''static archive member exceeds capture limit''
       else
         bindE (consumedObject h contents name metadata retained) (\<lambda>journal.
         bindE (deref (getAsObject journal)) (\<lambda>item.
         if getString item ''key'' = None then Inl ''static member lacks native compile role''
         else bindE (unit_of_journal (bh_codec h) item name) (\<lambda>unit. Inr (units @ [unit])))))))"

definition selectArchive :: "build_host \<Rightarrow> string \<Rightarrow> string \<Rightarrow> string \<Rightarrow> bool \<Rightarrow> SelectedBuild expected" where
  "selectArchive h metadata lane bytes retained =
     bindE (bh_archive h bytes) (\<lambda>archive.
     bindE (foldE (select_member h (na_thin archive) metadata lane retained) (na_children archive) []) (\<lambda>units.
     (case na_end archive of
        Some message \<Rightarrow> Inl message
      | None \<Rightarrow> Inr \<lparr>sb_units = units, sb_libraries = [], sb_linkOptions = [], sb_kind = ''static'', sb_versionScript = [],
                    sb_target = []\<rparr>)))"

lemma json_array_mem: "x \<in> set xs \<Longrightarrow> size x < size (JArray xs)"
  by (induction xs) auto

lemma json_object_mem: "(k, v) \<in> set m \<Longrightarrow> size v < size (JObject m)"
  by (induction m) auto

text \<open>Objects are equal when they have the same fields, in any order.\<close>

function json_same :: "json \<Rightarrow> json \<Rightarrow> bool" where
  "json_same (JObject m) (JObject n) =
     (length m = length n \<and>
      list_all (\<lambda>(k, v). case map_of n k of None \<Rightarrow> False | Some w \<Rightarrow> json_same v w) m)"
| "json_same (JArray xs) (JArray ys) = (length xs = length ys \<and> list_all (\<lambda>(x, y). json_same x y) (zip xs ys))"
| "\<not> (\<exists>m n. a = JObject m \<and> b = JObject n) \<Longrightarrow> \<not> (\<exists>xs ys. a = JArray xs \<and> b = JArray ys) \<Longrightarrow> json_same a b = (a = b)"
  by (atomize_elim, auto)

termination
  by (relation "measure (\<lambda>(a, b). size a)")
    (auto simp del: json.size simp: json_object_mem json_array_mem dest!: set_zip_leftD)

definition check_retained ::
  "build_host \<Rightarrow> string \<Rightarrow> json \<Rightarrow> json_object \<Rightarrow> string \<Rightarrow> string \<Rightarrow> unit expected" where
  "check_retained h metadata unit item native expectedJournal =
     bindE (deref (getString item ''native_object'')) (\<lambda>p.
     let nativePath = bh_canonical h p in
     if \<not> inside nativePath metadata then Inl ''retained original native object escaped metadata''
     else
       bindE (bh_object h native) (\<lambda>ob.
       bindE (captureMarkers ob nativePath) (\<lambda>markers.
       if markers \<noteq> [expectedJournal] then Inl ''retained unit order differs from the final native capture witness''
       else
         bindE (consumedObject h native nativePath metadata True) (\<lambda>immutable.
         if \<not> json_same immutable unit then Inl ''retained consumed unit differs from its immutable compile journal'' else Inr ()))))"

definition select_unit ::
  "build_host \<Rightarrow> string \<Rightarrow> string list option \<Rightarrow> nat \<times> json \<Rightarrow> SelectedUnit list \<Rightarrow> SelectedUnit list expected" where
  "select_unit h metadata witness x units =
     (case x of (position, unit) \<Rightarrow>
        (case getAsObject unit of
           None \<Rightarrow> Inl ''invalid consumed compile journal''
         | Some item \<Rightarrow>
             (case (getString item ''capture'', getString item ''native_object'', getString item ''capture_sha256'',
                    getString item ''native_sha256'') of
                (Some capturePath, Some nativePath, Some capture_sha, Some native_sha) \<Rightarrow>
                  if getString item ''source'' = None \<or> getString item ''key'' = None \<or>
                     getString item ''optimization'' = None \<or> getArray item ''flags'' = None
                  then Inl ''invalid consumed compile journal''
                  else if witness \<noteq> None \<and>
                     (\<not> inside (bh_canonical h capturePath) metadata \<or> \<not> inside (bh_canonical h nativePath) metadata)
                  then Inl ''retained native/capture input escaped metadata''
                  else
                    bindE (bh_read h capturePath default_limit) (\<lambda>capture.
                    bindE (bh_read h nativePath default_limit) (\<lambda>native.
                    if digest (bh_codec h) capture \<noteq> capture_sha \<or> digest (bh_codec h) native \<noteq> native_sha
                    then Inl ''private native/capture input changed after link''
                    else
                      bindE (case witness of None \<Rightarrow> Inr ()
                             | Some journals \<Rightarrow> check_retained h metadata unit item native (journals ! position)) (\<lambda>_.
                      bindE (unit_of_journal (bh_codec h) item []) (\<lambda>u. Inr (units @ [u])))))
              | _ \<Rightarrow> Inl ''invalid consumed compile journal'')))"

text \<open>The witness of a retained output, which has one distinct journal per recorded unit.\<close>

definition retained_witness :: "build_host \<Rightarrow> string \<Rightarrow> string \<Rightarrow> string \<Rightarrow> nat \<Rightarrow> string list expected" where
  "retained_witness h output bytes kind units =
     (if kind \<noteq> ''executable'' \<and> kind \<noteq> ''shared'' then Inl ''unqualified retained native output kind''
      else
        bindE (bh_object h bytes) (\<lambda>ob.
        if map_option eh_kind (no_elf ob) \<noteq> Some ElfDyn then Inl ''retained native output is not a qualified PIE/shared ELF''
        else
          bindE (captureMarkers ob output) (\<lambda>journals.
          if length journals \<noteq> units then Inl ''retained native output witness and unit inventory differ''
          else if \<not> distinct journals then Inl ''retained native output has ambiguous repeated journal witnesses''
          else Inr journals)))"

definition select_linked ::
  "build_host \<Rightarrow> string \<Rightarrow> string \<Rightarrow> string \<Rightarrow> bool \<Rightarrow> json_object \<Rightarrow> SelectedBuild expected" where
  "select_linked h metadata output selectedBytes retained record =
     (case (getString record ''native_sha256'', getString record ''kind'', getArray record ''units'') of
        (Some sha, Some kind, Some units) \<Rightarrow>
          bindE (bh_read h output default_limit) (\<lambda>bytes.
          if digest (bh_codec h) bytes \<noteq> sha then Inl ''selected output changed after capture''
          else
            bindE (string_array record ''unsupported'') (\<lambda>unsupported.
            if unsupported \<noteq> [] then Inl (''selected link is not yet qualified: '' @ hd unsupported)
            else
              bindE (string_array record ''libraries'') (\<lambda>libraries.
              bindE (string_array record ''link_options'') (\<lambda>options.
              bindE (if retained
                     then bindE (retained_witness h output selectedBytes kind (length units)) (\<lambda>journals. Inr (Some journals))
                     else Inr None) (\<lambda>witness.
              bindE (foldE (select_unit h metadata witness) (List.enumerate 0 units) []) (\<lambda>selected.
              if selected = [] then Inl ''selected link contains no captured application units''
              else
                Inr \<lparr>sb_units = selected, sb_libraries = libraries, sb_linkOptions = options, sb_kind = kind,
                     sb_versionScript = (case getString record ''version_script'' of None \<Rightarrow> [] | Some t \<Rightarrow> t),
                     sb_target = []\<rparr>))))))
      | _ \<Rightarrow> Inl ''invalid private native link journal'')"

definition selectOutput :: "build_host \<Rightarrow> string \<Rightarrow> string \<Rightarrow> string \<Rightarrow> bool \<Rightarrow> SelectedBuild expected" where
  "selectOutput h metadata lane output retained =
     (if \<not> inside (bh_canonical h output) lane then Inl ''selected output escaped private build lane''
      else
        bindE (bh_read h output default_limit) (\<lambda>selectedBytes.
        if starts_with (''!<arch>'' @ [newline]) selectedBytes \<or> starts_with (''!<thin>'' @ [newline]) selectedBytes
        then selectArchive h metadata lane selectedBytes retained
        else
          (case readJson h (metadataPath h metadata output ''link'') of
             Inl message \<Rightarrow> Inl (''selected output has no native link journal: '' @ output @ '': '' @ message)
           | Inr journal \<Rightarrow>
               (case getAsObject journal of
                  None \<Rightarrow> Inl ''invalid private native link journal''
                | Some record \<Rightarrow> select_linked h metadata output selectedBytes retained record))))"

section \<open>Combination of the targets\<close>

record CapturedUnit =
  cu_paths :: "(string, string list) smap"
  cu_optimization :: string
  cu_member :: string

record CapturedBuild =
  cb_units :: "CapturedUnit list"
  cb_architectures :: "string list"
  cb_orders :: "(string, nat list) smap"
  cb_libraries :: "string list"
  cb_linkOptions :: "string list"
  cb_kind :: string
  cb_versionScript :: string
  cb_links :: LinkPlan

definition unit_matches :: "SelectedUnit \<Rightarrow> SelectedUnit \<Rightarrow> bool" where
  "unit_matches left right =
     ((su_source left = su_source right \<or> su_key left = su_key right) \<and> su_flags left = su_flags right \<and>
      su_optimization left = su_optimization right \<and> su_member left = su_member right)"

fun peer_search :: "SelectedUnit list \<Rightarrow> SelectedUnit list \<Rightarrow> nat list \<Rightarrow> nat list" where
  "peer_search units [] peers = peers"
| "peer_search units (u # reference) peers =
     (case filter (\<lambda>j. unit_matches u (units ! j)) [0..<length units] of
        [j] \<Rightarrow> if j \<in> set peers then peers else peer_search units reference (peers @ [j])
      | _ \<Rightarrow> peers)"

text \<open>The peers of the reference units in a profile; \<open>None\<close> where they do not correspond.\<close>

definition profile_peers :: "string \<Rightarrow> SelectedUnit list \<Rightarrow> SelectedBuild \<Rightarrow> nat list option" where
  "profile_peers kind reference profile =
     (if length (sb_units profile) \<noteq> length reference then None
      else if list_all (\<lambda>i. unit_matches (reference ! i) (sb_units profile ! i)) [0..<length reference]
      then Some [0..<length reference]
      else if kind = ''static'' then None
      else
        let peers = peer_search (sb_units profile) reference [] in
        if length peers \<noteq> length reference then None else Some peers)"

definition all_peers :: "string \<Rightarrow> SelectedUnit list \<Rightarrow> SelectedBuild list \<Rightarrow> nat list list option" where
  "all_peers kind reference selected =
     (if list_all (\<lambda>p. profile_peers kind reference p \<noteq> None) selected
      then Some (map (\<lambda>p. the (profile_peers kind reference p)) selected) else None)"

definition push_path :: "string \<Rightarrow> string \<Rightarrow> (string, string list) smap \<Rightarrow> (string, string list) smap" where
  "push_path target path m = smap_put target ((case smap_at m target of None \<Rightarrow> [] | Some ps \<Rightarrow> ps) @ [path]) m"

definition corresponding_unit :: "SelectedBuild list \<Rightarrow> nat list list \<Rightarrow> nat \<times> SelectedUnit \<Rightarrow> CapturedUnit" where
  "corresponding_unit selected peers x =
     (case x of (i, reference) \<Rightarrow>
        \<lparr>cu_paths = fold (\<lambda>(p, js). push_path (sb_target p) (su_capture (sb_units p ! (js ! i)))) (zip selected peers) [],
         cu_optimization = su_optimization reference, cu_member = su_member reference\<rparr>)"

text \<open>\<open>order[peers[i]] = i\<close> for every \<open>i\<close>, from an order of zeros.\<close>

definition inverse_order :: "nat list \<Rightarrow> nat list" where
  "inverse_order peers = fold (\<lambda>(i, j) order. order[j := i]) (List.enumerate 0 peers) (replicate (length peers) 0)"

definition corresponding_orders :: "SelectedBuild list \<Rightarrow> nat list list \<Rightarrow> (string, nat list) smap" where
  "corresponding_orders selected peers =
     fold (\<lambda>(p, js) orders. if js = [0..<length js] then orders else smap_put (sb_target p) (inverse_order js) orders)
       (zip selected peers) []"

record grouping =
  gr_representatives :: "SelectedUnit list"
  gr_units :: "CapturedUnit list"
  gr_orders :: "(string, nat list) smap"

fun representative_position :: "SelectedUnit \<Rightarrow> string \<Rightarrow> SelectedUnit list \<Rightarrow> CapturedUnit list \<Rightarrow> nat" where
  "representative_position native target (r # rs) (u # us) =
     (if \<not> unit_matches r native \<or> smap_at (cu_paths u) target \<noteq> None
      then Suc (representative_position native target rs us) else 0)"
| "representative_position native target _ _ = 0"

definition group_unit :: "string \<Rightarrow> SelectedUnit \<Rightarrow> grouping \<Rightarrow> grouping" where
  "group_unit target native g =
     (let index = representative_position native target (gr_representatives g) (gr_units g);
          g = (if index = length (gr_representatives g)
               then g\<lparr>gr_representatives := gr_representatives g @ [native],
                      gr_units := gr_units g @ [\<lparr>cu_paths = [], cu_optimization = su_optimization native, cu_member = su_member native\<rparr>]\<rparr>
               else g);
          u = gr_units g ! index in
      g\<lparr>gr_units := (gr_units g)[index := u\<lparr>cu_paths := push_path target (su_capture native) (cu_paths u)\<rparr>],
        gr_orders := smap_put target ((case smap_at (gr_orders g) target of None \<Rightarrow> [] | Some o1 \<Rightarrow> o1) @ [index]) (gr_orders g)\<rparr>)"

definition group_profile :: "SelectedBuild \<Rightarrow> grouping \<Rightarrow> grouping" where
  "group_profile p g =
     fold (group_unit (sb_target p)) (sb_units p)
       (g\<lparr>gr_orders := (case smap_at (gr_orders g) (sb_target p) of None \<Rightarrow> smap_put (sb_target p) [] (gr_orders g)
                                                        | Some _ \<Rightarrow> gr_orders g)\<rparr>)"

definition check_profile :: "string \<Rightarrow> SelectedBuild \<Rightarrow> string set \<Rightarrow> string set expected" where
  "check_profile kind p labels =
     (if targets_find (sb_target p) = None \<or> sb_target p \<in> labels
      then Inl ''unsupported or duplicate native selection target''
      else if kind \<noteq> sb_kind p then Inl ''one publication cannot mix native output kinds''
      else Inr (insert (sb_target p) labels))"

definition build_settings :: "SelectedBuild list \<Rightarrow> CapturedBuild" where
  "build_settings selected =
     (let first = hd selected;
          base = \<lparr>cb_units = [], cb_architectures = map sb_target selected, cb_orders = [], cb_libraries = sb_libraries first,
            cb_linkOptions = sb_linkOptions first, cb_kind = sb_kind first, cb_versionScript = sb_versionScript first, cb_links = []\<rparr> in
      if list_ex (\<lambda>p. sb_libraries p \<noteq> cb_libraries base \<or> sb_linkOptions p \<noteq> cb_linkOptions base \<or>
                      sb_versionScript p \<noteq> cb_versionScript base) selected
      then base\<lparr>cb_links := fold (\<lambda>p. smap_put (sb_target p) \<lparr>al_libraries = sb_libraries p, al_options = sb_linkOptions p,
                                   al_versionScript = sb_versionScript p\<rparr>) selected [],
                cb_libraries := [], cb_linkOptions := [], cb_versionScript := []\<rparr>
      else base)"

definition single_group :: "SelectedBuild list \<Rightarrow> CapturedUnit" where
  "single_group selected =
     \<lparr>cu_paths = fold (\<lambda>p. fold (\<lambda>u. push_path (sb_target p) (su_capture u)) (sb_units p)) selected [],
      cu_optimization = su_optimization (hd (sb_units (hd selected))), cu_member = []\<rparr>"

definition combineSelected :: "SelectedBuild list \<Rightarrow> CapturedBuild expected" where
  "combineSelected selected =
     (if selected = [] then Inl ''native selection requires labelled target profiles''
      else
        bindE (foldE (check_profile (sb_kind (hd selected))) selected {}) (\<lambda>labels.
        let result = build_settings selected; reference = sb_units (hd selected) in
        (case all_peers (cb_kind result) reference selected of
           Some peers \<Rightarrow>
             Inr (result\<lparr>cb_units := map (corresponding_unit selected peers) (List.enumerate 0 reference),
                         cb_orders := corresponding_orders selected peers\<rparr>)
         | None \<Rightarrow>
             if reference = [] \<or> list_ex (\<lambda>p. sb_units p = []) selected then Inl ''empty profile-selected application inventory''
             else if cb_kind result \<noteq> ''static'' \<and>
                     list_all (\<lambda>p. list_all (\<lambda>u. su_flags u = su_flags (hd reference) \<and>
                       su_optimization u = su_optimization (hd reference)) (sb_units p)) selected
             then Inr (result\<lparr>cb_units := [single_group selected]\<rparr>)
             else
               let g = fold group_profile selected \<lparr>gr_representatives = [], gr_units = [], gr_orders = []\<rparr> in
               Inr (result\<lparr>cb_units := gr_units g, cb_orders := gr_orders g\<rparr>))))"

end
