(* ===== verification/Native_Select_Facts.thy ===== *)
theory Native_Select_Facts
  imports Native_Select
begin

text \<open>
  The combination keeps every target's native link: following the order recorded for a target, the captures of
  the combined units are exactly those of the target's own link, in its order, each once.
\<close>

section \<open>Specification\<close>

definition active_units :: "CapturedUnit list \<Rightarrow> string \<Rightarrow> nat list" where
  "active_units units t = filter (\<lambda>i. smap_at (cu_paths (units ! i)) t \<noteq> None) [0..<length units]"

definition unit_order :: "CapturedUnit list \<Rightarrow> (string, nat list) smap \<Rightarrow> string \<Rightarrow> nat list" where
  "unit_order units orders t = (case smap_at orders t of Some o1 \<Rightarrow> o1 | None \<Rightarrow> active_units units t)"

definition captures_at :: "CapturedUnit list \<Rightarrow> string \<Rightarrow> nat \<Rightarrow> string list" where
  "captures_at units t i = (case smap_at (cu_paths (units ! i)) t of None \<Rightarrow> [] | Some ps \<Rightarrow> ps)"

definition native_sequence :: "CapturedUnit list \<Rightarrow> (string, nat list) smap \<Rightarrow> string \<Rightarrow> string list" where
  "native_sequence units orders t = concat (map (captures_at units t) (unit_order units orders t))"

definition keeps_link :: "CapturedUnit list \<Rightarrow> (string, nat list) smap \<Rightarrow> SelectedBuild \<Rightarrow> bool" where
  "keeps_link units orders p \<longleftrightarrow>
     distinct (unit_order units orders (sb_target p)) \<and>
     set (unit_order units orders (sb_target p)) = set (active_units units (sb_target p)) \<and>
     native_sequence units orders (sb_target p) = map su_capture (sb_units p)"

section \<open>Paths by target\<close>

lemma push_path_at:
  "smap_wf m \<Longrightarrow> smap_wf (push_path t c m) \<and>
   smap_at (push_path t c m) x =
     (if x = t then Some ((case smap_at m t of None \<Rightarrow> [] | Some ps \<Rightarrow> ps) @ [c]) else smap_at m x)"
  by (simp add: push_path_def smap_at_put smap_put_wf)

lemma push_paths_distinct:
  assumes "distinct (map f xs)" "smap_wf m" "\<forall>x \<in> set xs. smap_at m (f x) = None"
  shows "smap_wf (fold (\<lambda>x. push_path (f x) (g x)) xs m) \<and>
    (\<forall>x \<in> set xs. smap_at (fold (\<lambda>x. push_path (f x) (g x)) xs m) (f x) = Some [g x]) \<and>
    (\<forall>t. t \<notin> f ` set xs \<longrightarrow> smap_at (fold (\<lambda>x. push_path (f x) (g x)) xs m) t = smap_at m t)"
  using assms
proof (induction xs arbitrary: m)
  case Nil
  then show ?case by simp
next
  case (Cons x xs)
  let ?m = "push_path (f x) (g x) m"
  have wf: "smap_wf ?m" using push_path_at [OF Cons.prems(2)] by blast
  have at: "smap_at ?m y = (if y = f x then Some [g x] else smap_at m y)" for y
    using push_path_at [OF Cons.prems(2), of "f x" "g x" y] Cons.prems(3) by auto
  have new: "f x \<notin> f ` set xs" using Cons.prems(1) by simp
  have "\<forall>y \<in> set xs. smap_at ?m (f y) = None"
  proof
    fix y assume y: "y \<in> set xs"
    with new have "f y \<noteq> f x" by (metis imageI)
    with at Cons.prems(3) y show "smap_at ?m (f y) = None" by simp
  qed
  from Cons.IH [OF _ wf this] Cons.prems(1) new at show ?case by auto
qed

lemma push_paths_same:
  "smap_wf m \<Longrightarrow> smap_wf (fold (\<lambda>u. push_path t (g u)) us m) \<and>
   (\<forall>x. x \<noteq> t \<longrightarrow> smap_at (fold (\<lambda>u. push_path t (g u)) us m) x = smap_at m x) \<and>
   smap_at (fold (\<lambda>u. push_path t (g u)) us m) t =
     (if us = [] then smap_at m t else Some ((case smap_at m t of None \<Rightarrow> [] | Some ps \<Rightarrow> ps) @ map g us))"
proof (induction us arbitrary: m)
  case (Cons u us)
  note p = push_path_at [OF Cons.prems, of t "g u"]
  from Cons.IH [OF conjunct1 [OF p]] p show ?case by auto
qed simp

section \<open>Corresponding units\<close>

lemma peer_search_facts:
  "distinct peers \<Longrightarrow> \<forall>j \<in> set peers. j < length units \<Longrightarrow>
   distinct (peer_search units reference peers) \<and> (\<forall>j \<in> set (peer_search units reference peers). j < length units)"
proof (induction units reference peers rule: peer_search.induct)
  case (2 units u reference peers)
  show ?case
  proof (cases "\<exists>j. filter (\<lambda>j. unit_matches u (units ! j)) [0..<length units] = [j]")
    case True
    then obtain j where j: "filter (\<lambda>j. unit_matches u (units ! j)) [0..<length units] = [j]" by blast
    then have "j \<in> set (filter (\<lambda>j. unit_matches u (units ! j)) [0..<length units])" by simp
    then have "j < length units" by simp
    with 2 j show ?thesis by (cases "j \<in> set peers") auto
  next
    case False
    then have "peer_search units (u # reference) peers = peers" by (auto split: list.splits)
    with 2 show ?thesis by simp
  qed
qed simp

lemma profile_peers_facts:
  assumes "profile_peers kind reference p = Some js"
  shows "length js = length (sb_units p)" "length js = length reference" "distinct js" "\<forall>j \<in> set js. j < length js"
proof -
  have "length js = length reference \<and> length (sb_units p) = length reference \<and> distinct js \<and>
      (\<forall>j \<in> set js. j < length (sb_units p))"
    using assms peer_search_facts [of "[]" "sb_units p" reference]
    by (auto simp: profile_peers_def Let_def split: if_splits)
  then show "length js = length (sb_units p)" "length js = length reference" "distinct js" "\<forall>j \<in> set js. j < length js"
    by auto
qed

lemma inverse_order_nth:
  assumes "distinct js" "\<forall>j \<in> set js. j < length js"
  shows "length (inverse_order js) = length js" "i < length js \<Longrightarrow> inverse_order js ! (js ! i) = i"
proof -
  have gen: "length (fold (\<lambda>(i, j) o1. o1[j := i]) (List.enumerate k js') o1) = length o1 \<and>
      (distinct js' \<longrightarrow> (\<forall>j \<in> set js'. j < length o1) \<longrightarrow>
        (\<forall>i < length js'. fold (\<lambda>(i, j) o1. o1[j := i]) (List.enumerate k js') o1 ! (js' ! i) = k + i) \<and>
        (\<forall>j < length o1. j \<notin> set js' \<longrightarrow> fold (\<lambda>(i, j) o1. o1[j := i]) (List.enumerate k js') o1 ! j = o1 ! j))"
    for js' k and o1 :: "nat list"
  proof (induction js' arbitrary: k o1)
    case (Cons j js')
    note IH = Cons.IH [of "Suc k" "o1[j := k]"]
    show ?case
    proof (intro conjI impI allI)
      show "length (fold (\<lambda>(i, j) o1. o1[j := i]) (List.enumerate k (j # js')) o1) = length o1" using IH by simp
    next
      fix i assume d: "distinct (j # js')" "\<forall>j \<in> set (j # js'). j < length o1" "i < length (j # js')"
      then show "fold (\<lambda>(i, j) o1. o1[j := i]) (List.enumerate k (j # js')) o1 ! ((j # js') ! i) = k + i"
        using IH by (cases i) auto
    next
      fix l assume d: "distinct (j # js')" "\<forall>j \<in> set (j # js'). j < length o1" "l < length o1" "l \<notin> set (j # js')"
      then show "fold (\<lambda>(i, j) o1. o1[j := i]) (List.enumerate k (j # js')) o1 ! l = o1 ! l" using IH by auto
    qed
  qed simp
  show "length (inverse_order js) = length js" using gen by (simp add: inverse_order_def)
  show "i < length js \<Longrightarrow> inverse_order js ! (js ! i) = i" using gen [where k = 0] assms by (simp add: inverse_order_def)
qed

lemma permutation_inverse:
  assumes "distinct js" "\<forall>j \<in> set js. j < length js"
  shows "set js = {..<length js}" "distinct (inverse_order js)" "set (inverse_order js) = {..<length js}"
    "k < length js \<Longrightarrow> js ! (inverse_order js ! k) = k" "k < length js \<Longrightarrow> inverse_order js ! k < length js"
proof -
  have sub: "set js \<subseteq> {..<length js}" using assms(2) by auto
  have "card (set js) = length js" using assms(1) by (simp add: distinct_card)
  with sub show s: "set js = {..<length js}" by (simp add: card_subset_eq)
  note inv = inverse_order_nth [OF assms]
  have at: "\<exists>i < length js. js ! i = k \<and> inverse_order js ! k = i" if "k < length js" for k
  proof -
    from that s have "k \<in> set js" by simp
    then obtain i where "i < length js" "js ! i = k" by (auto simp: in_set_conv_nth)
    with inv show ?thesis by auto
  qed
  show "k < length js \<Longrightarrow> js ! (inverse_order js ! k) = k" "k < length js \<Longrightarrow> inverse_order js ! k < length js"
    using at [of k] by auto
  show "distinct (inverse_order js)" unfolding distinct_conv_nth inv(1) using at by metis
  show "set (inverse_order js) = {..<length js}"
  proof (intro equalityI subsetI)
    fix i assume "i \<in> set (inverse_order js)"
    then show "i \<in> {..<length js}" using at inv(1) by (force simp: in_set_conv_nth)
  next
    fix i assume "i \<in> {..<length js}"
    then have "inverse_order js ! (js ! i) = i" "js ! i < length js" using inv(2) assms(2) by auto
    then show "i \<in> set (inverse_order js)" using inv(1) by (metis nth_mem)
  qed
qed

lemma corresponding_paths:
  assumes "distinct (map sb_target selected)" "length peers = length selected" "q < length selected"
  shows "smap_at (cu_paths (corresponding_unit selected peers (i, reference))) (sb_target (selected ! q)) =
    Some [su_capture (sb_units (selected ! q) ! (peers ! q ! i))]"
proof -
  let ?g = "\<lambda>x. su_capture (sb_units (fst x) ! (snd x ! i))"
  have f: "fold (\<lambda>(p, js). push_path (sb_target p) (su_capture (sb_units p ! (js ! i)))) (zip selected peers) [] =
      fold (\<lambda>x. push_path ((sb_target \<circ> fst) x) (?g x)) (zip selected peers) []"
    by (simp add: case_prod_unfold)
  have d: "distinct (map (sb_target \<circ> fst) (zip selected peers))"
    using assms(1) by (simp only: map_map [symmetric] map_fst_zip [OF assms(2) [symmetric]])
  have "(selected ! q, peers ! q) \<in> set (zip selected peers)" using assms(2,3) by (auto simp: in_set_zip)
  with push_paths_distinct [OF d smap_wf_Nil, of ?g] show ?thesis
    unfolding corresponding_unit_def prod.case CapturedUnit.select_convs f by force
qed

lemma corresponding_orders_at:
  assumes "distinct (map sb_target selected)" "length peers = length selected" "q < length selected"
  shows "smap_at (corresponding_orders selected peers) (sb_target (selected ! q)) =
    (if peers ! q = [0..<length (peers ! q)] then None else Some (inverse_order (peers ! q)))"
proof -
  have gen: "distinct (map (sb_target \<circ> fst) xs) \<Longrightarrow> smap_wf m \<Longrightarrow> \<forall>x \<in> set xs. smap_at m (sb_target (fst x)) = None \<Longrightarrow>
      x \<in> set xs \<Longrightarrow>
      smap_at (fold (\<lambda>(p, js) orders. if js = [0..<length js] then orders else smap_put (sb_target p) (inverse_order js) orders) xs m)
        (sb_target (fst x)) = (if snd x = [0..<length (snd x)] then None else Some (inverse_order (snd x)))" for xs m x
  proof (induction xs arbitrary: m)
    case (Cons y ys)
    obtain p js where y: "y = (p, js)" by fastforce
    let ?step = "\<lambda>(p, js) orders. if js = [0..<length js] then orders else smap_put (sb_target p) (inverse_order js) orders"
    let ?m = "if js = [0..<length js] then m else smap_put (sb_target p) (inverse_order js) m"
    have wf: "smap_wf ?m" using Cons.prems(2) by (simp add: smap_put_wf)
    have at: "smap_at ?m t = (if t = sb_target p \<and> js \<noteq> [0..<length js] then Some (inverse_order js) else smap_at m t)" for t
      using Cons.prems(2) by (auto simp: smap_at_put)
    have keep: "smap_wf m' \<Longrightarrow> t \<notin> (sb_target \<circ> fst) ` set zs \<Longrightarrow> smap_at (fold ?step zs m') t = smap_at m' t" for zs m' t
    proof (induction zs arbitrary: m')
      case (Cons z zs)
      obtain a b where z: "z = (a, b)" by fastforce
      with Cons show ?case by (simp add: smap_put_wf smap_at_put)
    qed simp
    show ?case
    proof (cases "x = y")
      case True
      have "sb_target p \<notin> (sb_target \<circ> fst) ` set ys" using Cons.prems(1) by (simp add: y comp_def)
      from keep [OF wf this] at show ?thesis using True Cons.prems(3) by (auto simp: y)
    next
      case False
      then have x: "x \<in> set ys" using Cons.prems(4) by simp
      have other: "sb_target (fst z) \<noteq> sb_target p" if "z \<in> set ys" for z
        using Cons.prems(1) that by (auto simp: y image_iff)
      have "\<forall>z \<in> set ys. smap_at ?m (sb_target (fst z)) = None" using at other Cons.prems(3) by auto
      with Cons.IH [OF _ wf _ x] Cons.prems(1) show ?thesis by (simp add: y)
    qed
  qed simp
  have d: "distinct (map (sb_target \<circ> fst) (zip selected peers))"
    using assms(1) by (simp only: map_map [symmetric] map_fst_zip [OF assms(2) [symmetric]])
  have "(selected ! q, peers ! q) \<in> set (zip selected peers)" using assms(2,3) by (auto simp: in_set_zip)
  from gen [OF d smap_wf_Nil _ this] show ?thesis by (simp add: corresponding_orders_def)
qed

lemma corresponding_keeps:
  assumes "distinct (map sb_target selected)" "all_peers kind reference selected = Some peers" "p \<in> set selected"
  shows "keeps_link (map (corresponding_unit selected peers) (List.enumerate 0 reference)) (corresponding_orders selected peers) p"
proof -
  let ?units = "map (corresponding_unit selected peers) (List.enumerate 0 reference)"
  from assms(3) obtain q where q: "q < length selected" "selected ! q = p" by (auto simp: in_set_conv_nth)
  from assms(2) have peers: "peers = map (\<lambda>p. the (profile_peers kind reference p)) selected"
    and some: "\<forall>p \<in> set selected. profile_peers kind reference p \<noteq> None"
    by (auto simp: all_peers_def list_all_iff split: if_splits)
  have len: "length peers = length selected" by (simp add: peers)
  have "profile_peers kind reference p = Some (peers ! q)" using some q by (auto simp: peers)
  note js = profile_peers_facts [OF this]
  note inv = permutation_inverse [OF js(3,4)]
  have unit: "smap_at (cu_paths (?units ! i)) (sb_target p) = Some [su_capture (sb_units p ! (peers ! q ! i))]"
    if "i < length reference" for i
    using corresponding_paths [OF assms(1) len q(1), of i "reference ! i"] that q(2) by (simp add: nth_enumerate_eq)
  have active: "active_units ?units (sb_target p) = [0..<length reference]"
  proof -
    have "length ?units = length reference" by simp
    then show ?thesis unfolding active_units_def by (intro trans [OF filter_True]) (auto simp: unit simp del: nth_map)
  qed
  note order = corresponding_orders_at [OF assms(1) len q(1), unfolded q(2)]
  have seq: "concat (map (captures_at ?units (sb_target p)) is) = map (\<lambda>i. su_capture (sb_units p ! (peers ! q ! i))) is"
    if "set is \<subseteq> {..<length reference}" for "is"
    using that by (induction "is") (auto simp: captures_at_def unit simp del: nth_map)
  show ?thesis
  proof (cases "peers ! q = [0..<length (peers ! q)]")
    case True
    then have o1: "unit_order ?units (corresponding_orders selected peers) (sb_target p) = [0..<length reference]"
      using order active by (simp add: unit_order_def)
    have "peers ! q ! i = i" if "i < length reference" for i using True js(2) that by (metis add_0 nth_upt)
    then have "map (\<lambda>i. su_capture (sb_units p ! (peers ! q ! i))) [0..<length reference] = map su_capture (sb_units p)"
      using js(1,2) by (intro nth_equalityI) auto
    with o1 active seq [of "[0..<length reference]"] show ?thesis
      by (simp add: keeps_link_def native_sequence_def atLeast0LessThan)
  next
    case False
    then have o1: "unit_order ?units (corresponding_orders selected peers) (sb_target p) = inverse_order (peers ! q)"
      using order by (simp add: unit_order_def)
    have "map (\<lambda>i. su_capture (sb_units p ! (peers ! q ! i))) (inverse_order (peers ! q)) = map su_capture (sb_units p)"
      using js inverse_order_nth(1) [OF js(3,4)] inv(4) by (intro nth_equalityI) auto
    moreover have "set (inverse_order (peers ! q)) \<subseteq> {..<length reference}" using inv(3) js(2) by simp
    ultimately show ?thesis using o1 active seq inv js(2)
      by (auto simp: keeps_link_def native_sequence_def)
  qed
qed

section \<open>Separate units\<close>

definition unit_paths :: "CapturedUnit list \<Rightarrow> string \<Rightarrow> nat \<Rightarrow> string list option" where
  "unit_paths units t i = (if i < length units then smap_at (cu_paths (units ! i)) t else None)"

definition grouped :: "grouping \<Rightarrow> bool" where
  "grouped g \<longleftrightarrow> length (gr_representatives g) = length (gr_units g) \<and> smap_wf (gr_orders g) \<and>
     (\<forall>u \<in> set (gr_units g). smap_wf (cu_paths u))"

text \<open>What the grouping has recorded of a target: its order, and the captures the order visits.\<close>

definition tracks :: "grouping \<Rightarrow> string \<Rightarrow> string list \<Rightarrow> bool" where
  "tracks g t cs \<longleftrightarrow> (\<exists>o1. smap_at (gr_orders g) t = Some o1 \<and> distinct o1 \<and>
     set o1 = {i. unit_paths (gr_units g) t i \<noteq> None} \<and>
     concat (map (\<lambda>i. case unit_paths (gr_units g) t i of None \<Rightarrow> [] | Some ps \<Rightarrow> ps) o1) = cs)"

definition untouched :: "grouping \<Rightarrow> string \<Rightarrow> bool" where
  "untouched g t \<longleftrightarrow> smap_at (gr_orders g) t = None \<and> (\<forall>i. unit_paths (gr_units g) t i = None)"

lemma representative_position_cases:
  "length reps = length units \<Longrightarrow> representative_position native t reps units \<le> length units \<and>
   (representative_position native t reps units < length units \<longrightarrow>
      smap_at (cu_paths (units ! representative_position native t reps units)) t = None)"
  by (induction reps units rule: list_induct2) auto

lemma group_unit_step:
  assumes "grouped g"
  shows "\<exists>k. unit_paths (gr_units g) t k = None \<and> grouped (group_unit t u g) \<and>
    (\<forall>x i. unit_paths (gr_units (group_unit t u g)) x i =
       (if x = t \<and> i = k then Some [su_capture u] else unit_paths (gr_units g) x i)) \<and>
    gr_orders (group_unit t u g) =
      smap_put t ((case smap_at (gr_orders g) t of None \<Rightarrow> [] | Some o1 \<Rightarrow> o1) @ [k]) (gr_orders g)"
proof -
  define k where "k = representative_position u t (gr_representatives g) (gr_units g)"
  define us where "us = (if k = length (gr_units g)
    then gr_units g @ [\<lparr>cu_paths = [], cu_optimization = su_optimization u, cu_member = su_member u\<rparr>] else gr_units g)"
  from assms have len: "length (gr_representatives g) = length (gr_units g)" and owf: "smap_wf (gr_orders g)"
    and wf: "\<forall>u \<in> set (gr_units g). smap_wf (cu_paths u)" by (auto simp: grouped_def)
  have k: "k \<le> length (gr_units g)" "k < length (gr_units g) \<Longrightarrow> smap_at (cu_paths (gr_units g ! k)) t = None"
    using representative_position_cases [OF len, of u t] by (simp_all add: k_def)
  have ku: "k < length us" using k(1) by (auto simp: us_def)
  have wfu: "smap_wf (cu_paths (us ! k))" using wf ku k(1) by (auto simp: us_def nth_append)
  have none: "smap_at (cu_paths (us ! k)) t = None" using k by (auto simp: us_def nth_append)
  have same: "unit_paths us x i = unit_paths (gr_units g) x i" for x i
    by (auto simp: us_def unit_paths_def nth_append)
  have units: "gr_units (group_unit t u g) = us[k := (us ! k)\<lparr>cu_paths := push_path t (su_capture u) (cu_paths (us ! k))\<rparr>]"
    and reps: "length (gr_representatives (group_unit t u g)) = length us"
    and orders: "gr_orders (group_unit t u g) =
      smap_put t ((case smap_at (gr_orders g) t of None \<Rightarrow> [] | Some o1 \<Rightarrow> o1) @ [k]) (gr_orders g)"
    using len k(1) by (auto simp: group_unit_def Let_def k_def [symmetric] us_def)
  note push = push_path_at [OF wfu, of t "su_capture u"]
  have "unit_paths (gr_units (group_unit t u g)) x i = (if x = t \<and> i = k then Some [su_capture u] else unit_paths us x i)" for x i
    using push ku none by (auto simp: units unit_paths_def nth_list_update)
  moreover have "grouped (group_unit t u g)"
  proof -
    have "\<forall>v \<in> set us. smap_wf (cu_paths v)" using wf by (auto simp: us_def)
    then show ?thesis
      using push owf by (auto simp: grouped_def units reps orders smap_put_wf dest!: set_update_subset_insert [THEN subsetD])
  qed
  moreover have "unit_paths (gr_units g) t k = None" using k(2) by (simp add: unit_paths_def)
  ultimately show ?thesis using orders same by auto
qed

lemma group_unit_tracks:
  assumes "grouped g" "tracks g t cs"
  shows "tracks (group_unit t u g) t (cs @ [su_capture u])"
proof -
  from assms(2) obtain o1 where o1: "smap_at (gr_orders g) t = Some o1" "distinct o1"
    "set o1 = {i. unit_paths (gr_units g) t i \<noteq> None}"
    "concat (map (\<lambda>i. case unit_paths (gr_units g) t i of None \<Rightarrow> [] | Some ps \<Rightarrow> ps) o1) = cs"
    by (auto simp: tracks_def)
  from group_unit_step [OF assms(1), of t u] obtain k where k: "unit_paths (gr_units g) t k = None"
    "\<And>x i. unit_paths (gr_units (group_unit t u g)) x i =
       (if x = t \<and> i = k then Some [su_capture u] else unit_paths (gr_units g) x i)"
    "gr_orders (group_unit t u g) = smap_put t (o1 @ [k]) (gr_orders g)" using o1(1) by auto
  have new: "k \<notin> set o1" using k(1) o1(3) by simp
  have wf: "smap_wf (gr_orders g)" using assms(1) by (simp add: grouped_def)
  have "map (\<lambda>i. case unit_paths (gr_units (group_unit t u g)) t i of None \<Rightarrow> [] | Some ps \<Rightarrow> ps) o1 =
      map (\<lambda>i. case unit_paths (gr_units g) t i of None \<Rightarrow> [] | Some ps \<Rightarrow> ps) o1"
    using new by (intro map_cong) (auto simp: k(2))
  then have "concat (map (\<lambda>i. case unit_paths (gr_units (group_unit t u g)) t i of None \<Rightarrow> [] | Some ps \<Rightarrow> ps) o1) = cs"
    using o1(4) by (simp only:)
  moreover have "unit_paths (gr_units (group_unit t u g)) t k = Some [su_capture u]" by (simp add: k(2))
  moreover have "set (o1 @ [k]) = {i. unit_paths (gr_units (group_unit t u g)) t i \<noteq> None}"
    using o1(3) by (auto simp: k(2))
  ultimately show ?thesis unfolding tracks_def
    by (intro exI [of _ "o1 @ [k]"]) (use o1(2) new wf in \<open>simp add: k(3) smap_at_put\<close>)
qed

lemma group_unit_other:
  assumes "grouped g" "x \<noteq> t"
  shows "tracks g x cs \<Longrightarrow> tracks (group_unit t u g) x cs" "untouched g x \<Longrightarrow> untouched (group_unit t u g) x"
proof -
  from group_unit_step [OF assms(1), of t u] obtain k o1 where k:
    "\<And>y i. unit_paths (gr_units (group_unit t u g)) y i =
       (if y = t \<and> i = k then Some [su_capture u] else unit_paths (gr_units g) y i)"
    "gr_orders (group_unit t u g) = smap_put t o1 (gr_orders g)" by blast
  have paths: "unit_paths (gr_units (group_unit t u g)) x i = unit_paths (gr_units g) x i" for i
    using assms(2) by (simp add: k(1))
  have "smap_at (gr_orders (group_unit t u g)) x = smap_at (gr_orders g) x"
    using assms by (simp add: k(2) smap_at_put grouped_def)
  then show "tracks g x cs \<Longrightarrow> tracks (group_unit t u g) x cs" "untouched g x \<Longrightarrow> untouched (group_unit t u g) x"
    by (simp_all add: tracks_def untouched_def paths)
qed

lemma group_units:
  assumes "grouped g" "tracks g t cs"
  shows "grouped (fold (group_unit t) us g) \<and> tracks (fold (group_unit t) us g) t (cs @ map su_capture us) \<and>
    (\<forall>x ds. x \<noteq> t \<longrightarrow> (tracks g x ds \<longrightarrow> tracks (fold (group_unit t) us g) x ds) \<and>
       (untouched g x \<longrightarrow> untouched (fold (group_unit t) us g) x))"
  using assms
proof (induction us arbitrary: g cs)
  case (Cons u us)
  have g: "grouped (group_unit t u g)" using group_unit_step [OF Cons.prems(1), of t u] by blast
  have t: "tracks (group_unit t u g) t (cs @ [su_capture u])" by (rule group_unit_tracks [OF Cons.prems])
  from Cons.IH [OF g t] group_unit_other [OF Cons.prems(1), where t = t and u = u] show ?case by simp
qed simp

lemma group_profile_step:
  assumes "grouped g" "untouched g (sb_target p)"
  shows "grouped (group_profile p g)" "tracks (group_profile p g) (sb_target p) (map su_capture (sb_units p))"
    "x \<noteq> sb_target p \<Longrightarrow> tracks g x ds \<Longrightarrow> tracks (group_profile p g) x ds"
    "x \<noteq> sb_target p \<Longrightarrow> untouched g x \<Longrightarrow> untouched (group_profile p g) x"
proof -
  let ?g = "g\<lparr>gr_orders := smap_put (sb_target p) [] (gr_orders g)\<rparr>"
  have def: "group_profile p g = fold (group_unit (sb_target p)) (sb_units p) ?g"
    using assms(2) by (simp add: group_profile_def untouched_def)
  have wf: "smap_wf (gr_orders g)" using assms(1) by (simp add: grouped_def)
  have g: "grouped ?g" using assms(1) by (simp add: grouped_def smap_put_wf)
  have t: "tracks ?g (sb_target p) []" using assms(2) wf by (simp add: tracks_def untouched_def smap_at_put)
  have other: "x \<noteq> sb_target p \<Longrightarrow> smap_at (gr_orders ?g) x = smap_at (gr_orders g) x" for x
    using wf by (simp add: smap_at_put)
  note f = group_units [OF g t, of "sb_units p"]
  show "grouped (group_profile p g)" "tracks (group_profile p g) (sb_target p) (map su_capture (sb_units p))"
    using f by (simp_all add: def)
  show "x \<noteq> sb_target p \<Longrightarrow> tracks g x ds \<Longrightarrow> tracks (group_profile p g) x ds"
    "x \<noteq> sb_target p \<Longrightarrow> untouched g x \<Longrightarrow> untouched (group_profile p g) x"
    using f other [of x] by (simp_all add: def tracks_def untouched_def)
qed

lemma group_profiles:
  assumes "distinct (map sb_target ps)" "grouped g" "\<forall>p \<in> set ps. untouched g (sb_target p)"
  shows "(\<forall>p \<in> set ps. tracks (fold group_profile ps g) (sb_target p) (map su_capture (sb_units p))) \<and>
    (\<forall>x ds. x \<notin> sb_target ` set ps \<longrightarrow> tracks g x ds \<longrightarrow> tracks (fold group_profile ps g) x ds)"
  using assms
proof (induction ps arbitrary: g)
  case (Cons p ps)
  have u: "untouched g (sb_target p)" using Cons.prems by simp
  note s = group_profile_step [OF Cons.prems(2) u]
  have new: "sb_target p \<notin> sb_target ` set ps" and d: "distinct (map sb_target ps)" using Cons.prems by simp_all
  have "\<forall>q \<in> set ps. untouched (group_profile p g) (sb_target q)"
  proof
    fix q assume q: "q \<in> set ps"
    with new have "sb_target q \<noteq> sb_target p" by (metis imageI)
    with q Cons.prems(3) show "untouched (group_profile p g) (sb_target q)" by (intro s(4)) auto
  qed
  from Cons.IH [OF d s(1) this] s new show ?case by simp
qed simp

lemma tracks_keeps:
  assumes "tracks g (sb_target p) (map su_capture (sb_units p))"
  shows "keeps_link (gr_units g) (gr_orders g) p"
proof -
  let ?t = "sb_target p"
  from assms obtain o1 where o1: "smap_at (gr_orders g) ?t = Some o1" "distinct o1"
    "set o1 = {i. unit_paths (gr_units g) ?t i \<noteq> None}"
    "concat (map (\<lambda>i. case unit_paths (gr_units g) ?t i of None \<Rightarrow> [] | Some ps \<Rightarrow> ps) o1) = map su_capture (sb_units p)"
    unfolding tracks_def by blast
  have order: "unit_order (gr_units g) (gr_orders g) ?t = o1" by (simp add: unit_order_def o1(1))
  have active: "set (active_units (gr_units g) ?t) = {i. unit_paths (gr_units g) ?t i \<noteq> None}"
    by (auto simp: active_units_def unit_paths_def)
  have "map (captures_at (gr_units g) ?t) o1 = map (\<lambda>i. case unit_paths (gr_units g) ?t i of None \<Rightarrow> [] | Some ps \<Rightarrow> ps) o1"
  proof (rule map_cong [OF refl])
    fix i assume "i \<in> set o1"
    with o1(3) have "i < length (gr_units g)" by (auto simp: unit_paths_def split: if_splits)
    then show "captures_at (gr_units g) ?t i = (case unit_paths (gr_units g) ?t i of None \<Rightarrow> [] | Some ps \<Rightarrow> ps)"
      by (simp add: captures_at_def unit_paths_def)
  qed
  then have "concat (map (captures_at (gr_units g) ?t) o1) = map su_capture (sb_units p)" using o1(4) by (simp only:)
  then show ?thesis unfolding keeps_link_def native_sequence_def order active using o1(2,3) by simp
qed

section \<open>One unit for the whole output\<close>

lemma single_paths:
  assumes "distinct (map sb_target ps)" "smap_wf m"
  shows "(\<forall>x. x \<notin> sb_target ` set ps \<longrightarrow>
      smap_at (fold (\<lambda>p. fold (\<lambda>u. push_path (sb_target p) (su_capture u)) (sb_units p)) ps m) x = smap_at m x) \<and>
    (\<forall>p \<in> set ps. smap_at m (sb_target p) = None \<longrightarrow> sb_units p \<noteq> [] \<longrightarrow>
      smap_at (fold (\<lambda>p. fold (\<lambda>u. push_path (sb_target p) (su_capture u)) (sb_units p)) ps m) (sb_target p) =
      Some (map su_capture (sb_units p)))"
  using assms
proof (induction ps arbitrary: m)
  case (Cons q ps)
  let ?m = "fold (\<lambda>u. push_path (sb_target q) (su_capture u)) (sb_units q) m"
  have new: "sb_target q \<notin> sb_target ` set ps" and d: "distinct (map sb_target ps)" using Cons.prems by simp_all
  have s: "smap_wf ?m" "\<And>x. x \<noteq> sb_target q \<Longrightarrow> smap_at ?m x = smap_at m x"
    "smap_at m (sb_target q) = None \<Longrightarrow> sb_units q \<noteq> [] \<Longrightarrow> smap_at ?m (sb_target q) = Some (map su_capture (sb_units q))"
    using push_paths_same [OF Cons.prems(2), of "sb_target q" su_capture "sb_units q"] by simp_all
  have other: "sb_target p \<noteq> sb_target q" if "p \<in> set ps" for p using new that by (metis imageI)
  note IH = Cons.IH [OF d s(1)]
  show ?case
  proof (intro conjI allI ballI impI)
    fix x assume "x \<notin> sb_target ` set (q # ps)"
    with IH s(2) show "smap_at (fold (\<lambda>p. fold (\<lambda>u. push_path (sb_target p) (su_capture u)) (sb_units p)) (q # ps) m) x =
        smap_at m x" by simp
  next
    fix p assume p: "p \<in> set (q # ps)" "smap_at m (sb_target p) = None" "sb_units p \<noteq> []"
    show "smap_at (fold (\<lambda>p. fold (\<lambda>u. push_path (sb_target p) (su_capture u)) (sb_units p)) (q # ps) m) (sb_target p) =
        Some (map su_capture (sb_units p))"
    proof (cases "p \<in> set ps")
      case True
      with p IH s(2) other show ?thesis by simp
    next
      case False
      with p IH s(3) new show ?thesis by auto
    qed
  qed
qed simp

lemma single_keeps:
  assumes "distinct (map sb_target selected)" "p \<in> set selected" "sb_units p \<noteq> []"
  shows "keeps_link [single_group selected] [] p"
proof -
  have "smap_at (cu_paths (single_group selected)) (sb_target p) = Some (map su_capture (sb_units p))"
    using single_paths [OF assms(1) smap_wf_Nil] assms(2,3) by (simp add: single_group_def)
  then show ?thesis
    by (simp add: keeps_link_def native_sequence_def unit_order_def active_units_def captures_at_def)
qed

section \<open>The combination\<close>

lemma check_profiles_distinct:
  "foldE (check_profile kind) ps labels = Inr labels' \<Longrightarrow>
   distinct (map sb_target ps) \<and> (\<forall>p \<in> set ps. sb_target p \<notin> labels \<and> sb_kind p = kind \<and> targets_find (sb_target p) \<noteq> None)"
proof (induction ps arbitrary: labels)
  case (Cons p ps)
  then obtain l where l: "check_profile kind p labels = Inr l" "foldE (check_profile kind) ps l = Inr labels'"
    by (auto simp: bindE_Inr_iff)
  from l(1) have "l = insert (sb_target p) labels" "sb_target p \<notin> labels" "sb_kind p = kind" "targets_find (sb_target p) \<noteq> None"
    by (auto simp: check_profile_def split: if_splits)
  with Cons.IH [OF l(2)] show ?case by auto
qed simp

lemma build_settings_orders: "cb_orders (build_settings selected) = []" "cb_kind (build_settings selected) = sb_kind (hd selected)"
  by (auto simp: build_settings_def Let_def)

lemma combined_keeps_link:
  assumes "combineSelected selected = Inr b" "p \<in> set selected"
  shows "keeps_link (cb_units b) (cb_orders b) p"
proof -
  let ?reference = "sb_units (hd selected)"
  let ?kind = "cb_kind (build_settings selected)"
  from assms(1) obtain labels where "foldE (check_profile (sb_kind (hd selected))) selected {} = Inr labels"
    by (auto simp: combineSelected_def bindE_Inr_iff split: if_splits)
  then have d: "distinct (map sb_target selected)" by (simp add: check_profiles_distinct)
  note body = assms(1) [unfolded combineSelected_def Let_def bindE_Inr_iff]
  show ?thesis
  proof (cases "all_peers ?kind ?reference selected")
    case (Some peers)
    with assms(1) have "cb_units b = map (corresponding_unit selected peers) (List.enumerate 0 ?reference)"
      "cb_orders b = corresponding_orders selected peers"
      by (auto simp: combineSelected_def Let_def bindE_Inr_iff split: if_splits)
    with corresponding_keeps [OF d Some assms(2)] show ?thesis by simp
  next
    case None
    then consider (one) "b = build_settings selected\<lparr>cb_units := [single_group selected]\<rparr>" "sb_units p \<noteq> []"
      | (many) "cb_units b = gr_units (fold group_profile selected \<lparr>gr_representatives = [], gr_units = [], gr_orders = []\<rparr>)"
        "cb_orders b = gr_orders (fold group_profile selected \<lparr>gr_representatives = [], gr_units = [], gr_orders = []\<rparr>)"
      using assms by (auto simp: combineSelected_def Let_def bindE_Inr_iff list_ex_iff split: if_splits)
    then show ?thesis
    proof cases
      case one
      with single_keeps [OF d assms(2)] show ?thesis by (simp add: build_settings_orders)
    next
      case many
      let ?g = "\<lparr>gr_representatives = [], gr_units = [], gr_orders = []\<rparr>"
      have "grouped ?g" "\<forall>p \<in> set selected. untouched ?g (sb_target p)"
        by (simp_all add: grouped_def untouched_def unit_paths_def)
      from group_profiles [OF d this] assms(2)
      have "tracks (fold group_profile selected ?g) (sb_target p) (map su_capture (sb_units p))" by blast
      from tracks_keeps [OF this] many show ?thesis by simp
    qed
  qed
qed

end
