(* ===== verification/Native_Example.thy ===== *)
theory Native_Example
  imports Native_Record_Facts Native_Select_Facts
begin

text \<open>
  Concrete inputs for the native observer: a shared library linked from two captured objects, and two targets
  that link the same two units in opposite orders.
\<close>

section \<open>A recorded link\<close>

definition capture_journal :: "string \<Rightarrow> string \<Rightarrow> json_object" where
  "capture_journal capture native =
     [(''capture'', JString capture), (''capture_sha256'', JString ''C''), (''dependencies'', JArray []),
      (''flags'', JArray []), (''native_sha256'', JString native), (''optimization'', JString ''O2''),
      (''source'', JString ''s.c'')]"

definition native_codec :: codec where
  "native_codec =
     \<lparr>json_parse = \<lambda>t. if t = ''J'' then Inr (JObject (capture_journal ''/l/m/c'' ''A''))
        else Inr (JObject (capture_journal ''/l/m/d'' ''B'')),
      json_text = \<lambda>_. ''record'', digest = \<lambda>s. s\<rparr>"

definition marked_object :: "elf_kind \<Rightarrow> string list \<Rightarrow> native_object" where
  "marked_object kind journals =
     \<lparr>no_sections = [(Inr ''.text'', Inr ''code''), (Inr ''.sela.capture'', Inr (concat (map (\<lambda>j. j @ [CHR 0x00]) journals)))],
      no_elf = Some \<lparr>eh_kind = kind, eh_machine = elfMachine info_x86_64, eh_addressBytes = 8, eh_little = True, eh_flags = 0,
        eh_sections = Inr [\<lparr>es_dynamic = True, es_table = Inr (''libc.so.6'' @ [CHR 0x00]),
          es_entries = Inr [(DtNeeded, 0)]\<rparr>]\<rparr>\<rparr>"

definition native_trace :: string where "native_trace = ''/l/a'' @ [newline] @ ''/l/b'' @ [newline]"

definition native_extraction :: string where "native_extraction = ''header'' @ [newline]"

definition native_host :: build_host where
  "native_host =
     \<lparr>bh_codec = native_codec, bh_canonical = \<lambda>p. p,
      bh_read = \<lambda>p _.
        (if p = ''/l/o'' then Inr ''OUT'' else if p = ''/l/a'' then Inr ''A'' else if p = ''/l/b'' then Inr ''B''
         else if p = ''/l/m/j'' then Inr ''J'' else if p = ''/l/m/k'' then Inr ''K''
         else if p = ''/l/m/c'' \<or> p = ''/l/m/d'' then Inr ''C''
         else if p = ''t'' then Inr native_trace
         else if p = ''w'' then Inr native_extraction else Inl ''no file''),
      bh_write = \<lambda>_ _. Inr (), bh_exists = \<lambda>_. True, bh_isFile = \<lambda>_. True, bh_isDirectory = \<lambda>_. True,
      bh_object = \<lambda>b.
        (if b = ''OUT'' then Inr (marked_object ElfDyn [''/l/m/j'', ''/l/m/k''])
         else if b = ''A'' then Inr (marked_object ElfRel [''/l/m/j''])
         else if b = ''B'' then Inr (marked_object ElfRel [''/l/m/k'']) else Inl ''no object''),
      bh_archive = \<lambda>_. Inl ''no archive'', bh_tokenize = \<lambda>_. []\<rparr>"

definition native_config :: build_config where
  "native_config = \<lparr>device_target = None, host_arch = ''x86_64'', sdk_lock = [], require_receipt = False\<rparr>"

definition recorded_unit :: "string \<Rightarrow> string \<Rightarrow> json" where
  "recorded_unit capture native =
     JObject [(''capture'', JString capture), (''capture_sha256'', JString ''C''), (''dependencies'', JArray []),
      (''flags'', JArray []), (''optimization'', JString ''O2''), (''source'', JString ''s.c''),
      (''native_sha256'', JString native), (''native_object'', JString (''/l/m/'' @ native @ ''.native.o''))]"

definition recorded_link :: native_link where
  "recorded_link =
     \<lparr>nl_sha = ''OUT'', nl_kind = ''shared'', nl_units = [recorded_unit ''/l/m/c'' ''A'', recorded_unit ''/l/m/d'' ''B''],
      nl_libraries = [], nl_linkOptions = [''-soname'', ''o''], nl_versionScript = [], nl_unsupported = []\<rparr>"

abbreviation "native_context \<equiv> \<lparr>lc_host = native_host, lc_sdk = ''/s'', lc_lane = ''/l'', lc_target = info_x86_64\<rparr>"

lemma example_observed:
  "observe_args native_context args [''-shared'', ''-o'', ''/l/o'', ''-soname'', ''o'', ''-lc''] observation_start =
   Inr (observation_start\<lparr>lo_output := ''/l/o'', lo_kind := ''shared'', lo_linkOptions := [''-soname'', ''o'']\<rparr>)"
  by (simp add: starts_with_def takes_value_def observe_pair_def observe_single_def observation_start_def valued_native_def soname_option_def)

lemmas inside_defs = inside_def lexically_relative_def path_parts_def is_absolute_def starts_with_def

lemma example_inside:
  "inside ''/l/o'' ''/l''" "inside ''/l/a'' ''/l''" "inside ''/l/b'' ''/l''" "\<not> inside ''/l/a'' ''/s''" "\<not> inside ''/l/b'' ''/s''"
  "inside ''/l/m/j'' ''/l/m''" "inside ''/l/m/k'' ''/l/m''" "inside ''/l/m/c'' ''/l/m''" "inside ''/l/m/d'' ''/l/m''"
  by (simp_all add: inside_defs)

lemma example_markers:
  "captureMarkers (marked_object kind [''/l/m/j'']) name = Inr [''/l/m/j'']"
  "captureMarkers (marked_object kind [''/l/m/k'']) name = Inr [''/l/m/k'']"
  "captureMarkers (marked_object kind [''/l/m/j'', ''/l/m/k'']) name = Inr [''/l/m/j'', ''/l/m/k'']"
  by (simp_all add: captureMarkers_def marker_section_def marked_object_def split_witness.simps)

lemma example_objects:
  "bh_object native_host ''A'' = Inr (marked_object ElfRel [''/l/m/j''])"
  "bh_object native_host ''B'' = Inr (marked_object ElfRel [''/l/m/k''])"
  "bh_object native_host ''OUT'' = Inr (marked_object ElfDyn [''/l/m/j'', ''/l/m/k''])"
  by (simp_all add: native_host_def)

lemma example_consumed:
  "consumedObject native_host ''A'' name ''/l/m'' False = Inr (recorded_unit ''/l/m/c'' ''A'')"
  "consumedObject native_host ''B'' name ''/l/m'' False = Inr (recorded_unit ''/l/m/d'' ''B'')"
  by (simp_all add: consumedObject_def example_objects example_markers is_absolute_def starts_with_def Let_def)
    (simp_all add: native_host_def native_codec_def example_inside readJson_def capture_journal_def check_journal_def json_get_defs
      saved_object_def recorded_unit_def obj_put_def less_char_def)

lemma example_trace:
  "lines_of native_trace = [''/l/a'', ''/l/b'']" "tl (lines_of native_extraction) = []"
  by (simp_all add: lines_of_def newline_def native_trace_def native_extraction_def)

lemma example_trace_lines:
  "trace_line native_context ''/l/m'' interpreter [''/l/m/j'', ''/l/m/k''] ''/l/a''
     \<lparr>ts_position = 0, ts_units = [], ts_privateDSOs = [], ts_managedLoader = False, ts_archiveNames = [], ts_unsupported = []\<rparr> =
   Inr \<lparr>ts_position = Suc 0, ts_units = [recorded_unit ''/l/m/c'' ''A''], ts_privateDSOs = [], ts_managedLoader = False,
     ts_archiveNames = [], ts_unsupported = []\<rparr>"
  "trace_line native_context ''/l/m'' interpreter [''/l/m/j'', ''/l/m/k''] ''/l/b''
     \<lparr>ts_position = Suc 0, ts_units = us, ts_privateDSOs = [], ts_managedLoader = False, ts_archiveNames = [], ts_unsupported = []\<rparr> =
   Inr \<lparr>ts_position = Suc (Suc 0), ts_units = us @ [recorded_unit ''/l/m/d'' ''B''], ts_privateDSOs = [], ts_managedLoader = False,
     ts_archiveNames = [], ts_unsupported = []\<rparr>"
proof -
  have read: "bh_read native_host ''/l/a'' l = Inr ''A''" "bh_read native_host ''/l/b'' l = Inr ''B''" "bh_canonical native_host p = p" for l p
    by (simp_all add: native_host_def)
  have elf: "no_elf (marked_object ElfRel js) = Some e \<longrightarrow> eh_kind e = ElfRel" "no_elf (marked_object ElfRel js) \<noteq> None" for js e
    by (auto simp: marked_object_def)
  note defs = trace_line_def trace_source_def archive_line_def trace_unit_def read example_inside example_objects example_markers
    example_consumed Let_def
  show "trace_line native_context ''/l/m'' interpreter [''/l/m/j'', ''/l/m/k''] ''/l/a''
     \<lparr>ts_position = 0, ts_units = [], ts_privateDSOs = [], ts_managedLoader = False, ts_archiveNames = [], ts_unsupported = []\<rparr> =
   Inr \<lparr>ts_position = Suc 0, ts_units = [recorded_unit ''/l/m/c'' ''A''], ts_privateDSOs = [], ts_managedLoader = False,
     ts_archiveNames = [], ts_unsupported = []\<rparr>"
    using elf [of "[''/l/m/j'']"] by (auto simp: defs split: option.splits)
  show "trace_line native_context ''/l/m'' interpreter [''/l/m/j'', ''/l/m/k''] ''/l/b''
     \<lparr>ts_position = Suc 0, ts_units = us, ts_privateDSOs = [], ts_managedLoader = False, ts_archiveNames = [], ts_unsupported = []\<rparr> =
   Inr \<lparr>ts_position = Suc (Suc 0), ts_units = us @ [recorded_unit ''/l/m/d'' ''B''], ts_privateDSOs = [], ts_managedLoader = False,
     ts_archiveNames = [], ts_unsupported = []\<rparr>"
    using elf [of "[''/l/m/k'']"] by (auto simp: defs split: option.splits)
qed

lemma example_recorded:
  "recordNativeLink native_config native_host ''/s'' (Some ''x86_64'') [''-shared'', ''-o'', ''/l/o'', ''-soname'', ''o'', ''-lc'']
     ''/l'' ''/l/m'' ''t'' ''w'' = Inr (Some recorded_link)"
proof -
  have host: "bh_canonical native_host p = p" "bh_read native_host ''/l/o'' l = Inr ''OUT''"
    "bh_read native_host ''t'' l = Inr native_trace"
    "bh_read native_host ''w'' l = Inr native_extraction" "bh_write native_host p x = Inr ()"
    "digest (bh_codec native_host) d = d" for p l x d
    by (simp_all add: native_host_def native_codec_def)
  have dynamic: "dynamicInfo (marked_object ElfDyn js) = Inr \<lparr>di_soname = [], di_needed = [''libc.so.6'']\<rparr>"
    "output_reservations info_x86_64 (marked_object ElfDyn js) = []" for js
    by (simp_all add: dynamicInfo_def marked_object_def dynamic_section_def dynamic_entry_def output_reservations_def info_x86_64_def)
  have observed: "observe_args native_context args [''-shared'', ''-o'', ''/l/o'', ''-soname'', ''o'', ''-lc''] observation_start =
      Inr \<lparr>lo_output = ''/l/o'', lo_kind = ''shared'', lo_versionScript = [], lo_interpreter = [], lo_hashStyle = ''gnu'',
        lo_linkOptions = [''-soname'', ''o''], lo_unsupported = []\<rparr>" for args
    using example_observed by (simp add: observation_start_def)
  have target: "targets_find ''x86_64'' = Some info_x86_64" by (simp add: targets_find_def all_targets_def info_x86_64_def)
  have repeated: "repeated_journals [''/l/m/j'', ''/l/m/k''] = []" by (simp add: repeated_journals_def upt_rec)
  note trace = example_trace example_trace_lines
  show ?thesis
    unfolding recordNativeLink_def Option.bind.simps target option.case Let_def observed
    by (simp add: host example_inside Let_def record_output_def example_objects example_markers repeated trace dynamic
        needed_library_def recorded_link_def)
qed

section \<open>Two targets\<close>

definition selected_unit :: "string \<Rightarrow> string \<Rightarrow> SelectedUnit" where
  "selected_unit capture key =
     \<lparr>su_capture = capture, su_source = capture, su_key = key, su_flags = ''[]'', su_optimization = ''O2'', su_member = []\<rparr>"

definition selected_build :: "string \<Rightarrow> SelectedUnit list \<Rightarrow> SelectedBuild" where
  "selected_build target units =
     \<lparr>sb_units = units, sb_libraries = [], sb_linkOptions = [], sb_kind = ''executable'', sb_versionScript = [], sb_target = target\<rparr>"

definition selected_pair :: "SelectedBuild list" where
  "selected_pair =
     [selected_build ''x86_64'' [selected_unit ''a1'' ''a'', selected_unit ''b1'' ''b''],
      selected_build ''armv7'' [selected_unit ''b2'' ''b'', selected_unit ''a2'' ''a'']]"

definition combined_pair :: CapturedBuild where
  "combined_pair =
     \<lparr>cb_units = [\<lparr>cu_paths = [(''armv7'', [''a2'']), (''x86_64'', [''a1''])], cu_optimization = ''O2'', cu_member = []\<rparr>,
        \<lparr>cu_paths = [(''armv7'', [''b2'']), (''x86_64'', [''b1''])], cu_optimization = ''O2'', cu_member = []\<rparr>],
      cb_architectures = [''x86_64'', ''armv7''], cb_orders = [(''armv7'', [1, 0])], cb_libraries = [], cb_linkOptions = [],
      cb_kind = ''executable'', cb_versionScript = [], cb_links = []\<rparr>"

lemma example_combined: "combineSelected selected_pair = Inr combined_pair"
  by code_simp

end
