(* ===== verification/Common_Types.thy ===== *)
theory Common_Types
  imports Specialization_Facts
begin

text \<open>
  The merger of producer modules (\<open>src/ir/CommonMerge.cpp\<close>): the types and attributes observed on several
  targets become one type or attribute that stands for all of them. An observation is the index of its target
  in \<open>ids\<close> with what was seen there.
\<close>

section \<open>Observations and storage identities\<close>

type_synonym 'a observations = "(nat \<times> 'a) list"

text \<open>\<open>storageIdentities\<close>, per target from local to shared identity, and \<open>nextStorageIdentity\<close>.\<close>

record identities =
  mi_maps :: "(string, string) smap list"
  mi_next :: nat

fun local_identity :: "sty \<Rightarrow> string" where
  "local_identity (RecordT i p fs) = i"
| "local_identity (OverlapT i as ds) = i"
| "local_identity _ = []"

definition known_identity :: "identities \<Rightarrow> nat \<Rightarrow> string \<Rightarrow> string option" where
  "known_identity s i l = smap_at (mi_maps s ! i) l"

definition find_common :: "bool \<Rightarrow> identities \<Rightarrow> nat \<times> sty \<Rightarrow> string \<Rightarrow> string expected" where
  "find_common anonymous s x common =
     (let l = local_identity (snd x) in
      if (l = []) \<noteq> anonymous then Inl ''named and anonymous storage lack correspondence''
      else
        (case known_identity s (fst x) l of
           None \<Rightarrow> Inr common
         | Some c \<Rightarrow> if common \<noteq> [] \<and> common \<noteq> c then Inl ''storage identity correspondence changed between uses'' else Inr c))"

definition claim_common :: "string \<Rightarrow> nat \<times> sty \<Rightarrow> identities \<Rightarrow> identities expected" where
  "claim_common common x s =
     (let l = local_identity (snd x); m = mi_maps s ! fst x in
      if list_ex (\<lambda>(other, mapped). mapped = common \<and> other \<noteq> l) m
      then Inl ''distinct storage identities cannot collapse into one shared identity''
      else Inr (s\<lparr>mi_maps := (mi_maps s)[fst x := smap_put l common m]\<rparr>))"

definition storageIdentity :: "sty observations \<Rightarrow> identities \<Rightarrow> (string \<times> identities) expected" where
  "storageIdentity observations s =
     (let anonymous = (local_identity (snd (hd observations)) = []) in
      bindE (foldE (find_common anonymous s) observations []) (\<lambda>common.
      if anonymous then Inr ([], s)
      else
        let fresh = (common = []);
            common = (if fresh then CHR ''r'' # to_string (mi_next s) else common);
            s = (if fresh then s\<lparr>mi_next := mi_next s + 1\<rparr> else s) in
        bindE (foldE (claim_common common) observations s) (\<lambda>s. Inr (common, s))))"

section \<open>Types\<close>

text \<open>A loop that pushes one converted element per iteration and threads a state.\<close>

fun mapS :: "('a \<Rightarrow> 's \<Rightarrow> ('b \<times> 's) expected) \<Rightarrow> 'a list \<Rightarrow> 's \<Rightarrow> ('b list \<times> 's) expected" where
  "mapS f [] s = Inr ([], s)"
| "mapS f (x # xs) s = bindE (f x s) (\<lambda>(y, s). bindE (mapS f xs s) (\<lambda>(ys, s). Inr (y # ys, s)))"

lemma mapS_cong [fundef_cong]:
  assumes "xs = ys" "s = t" and "\<And>x s. x \<in> set ys \<Longrightarrow> f x s = g x s"
  shows "mapS f xs s = mapS g ys t"
proof -
  have "(\<forall>x \<in> set ys. \<forall>s. f x s = g x s) \<Longrightarrow> mapS f ys t = mapS g ys t"
    by (induction ys arbitrary: t) (auto intro!: bindE_cong)
  with assms show ?thesis by auto
qed

definition target_word :: "string list \<Rightarrow> nat \<Rightarrow> nat" where
  "target_word ids i = (case targets_find (ids ! i) of None \<Rightarrow> 0 | Some info \<Rightarrow> wordBits info)"

definition choice :: "string list \<Rightarrow> attr observations \<Rightarrow> attr" where
  "choice ids observations = the (targetChoice (map (\<lambda>(i, v). (ids ! i, v)) observations))"

definition at_type :: "(sty \<Rightarrow> sty) \<Rightarrow> sty observations \<Rightarrow> sty observations" where
  "at_type f observations = map (\<lambda>(i, t). (i, f t)) observations"

definition type_choice :: "string list \<Rightarrow> sty observations \<Rightarrow> sty" where
  "type_choice ids observations = ChoiceT (choice ids (map (\<lambda>(i, t). (i, TypeA t)) observations))"

fun structural :: "sty \<Rightarrow> bool" where
  "structural (ArrayT _ _) = True"
| "structural (RecordT _ _ _) = True"
| "structural (OverlapT _ _ _) = True"
| "structural (FunctionT _ _) = True"
| "structural _ = False"

fun integer_sty :: "sty \<Rightarrow> bool" where
  "integer_sty (IntegerT _) = True"
| "integer_sty _ = False"

fun is_array :: "sty \<Rightarrow> bool" where
  "is_array (ArrayT _ _) = True"
| "is_array _ = False"

fun is_record :: "sty \<Rightarrow> bool" where
  "is_record (RecordT _ _ _) = True"
| "is_record _ = False"

fun is_overlap :: "sty \<Rightarrow> bool" where
  "is_overlap (OverlapT _ _ _) = True"
| "is_overlap _ = False"

fun is_function :: "sty \<Rightarrow> bool" where
  "is_function (FunctionT _ _) = True"
| "is_function _ = False"

fun array_element :: "sty \<Rightarrow> sty" where
  "array_element (ArrayT e c) = e"
| "array_element t = t"

fun array_count :: "sty \<Rightarrow> attr" where
  "array_count (ArrayT e c) = c"
| "array_count t = UnitA"

text \<open>The parts of a record, an overlap (its alternatives) or a function (its inputs, then its results).\<close>

fun type_parts :: "sty \<Rightarrow> sty list" where
  "type_parts (RecordT i p fs) = fs"
| "type_parts (OverlapT i as ds) = as"
| "type_parts (FunctionT is rs) = is @ rs"
| "type_parts _ = []"

fun arity :: "sty \<Rightarrow> nat \<times> nat" where
  "arity (FunctionT is rs) = (length is, length rs)"
| "arity _ = (0, 0)"

fun packed :: "sty \<Rightarrow> bool" where
  "packed (RecordT i p fs) = p"
| "packed _ = False"

fun overlap_domains :: "sty \<Rightarrow> attr list" where
  "overlap_domains (OverlapT i as ds) = ds"
| "overlap_domains _ = []"

text \<open>The observations of part \<open>k\<close>, of the targets that have one.\<close>

definition part_observations :: "sty observations \<Rightarrow> nat \<Rightarrow> sty observations" where
  "part_observations observations k =
     map (\<lambda>(i, t). (i, type_parts t ! k)) (filter (\<lambda>(i, t). k < length (type_parts t)) observations)"

definition part_count :: "sty observations \<Rightarrow> nat" where
  "part_count observations = fold (\<lambda>(i, t). max (length (type_parts t))) observations 0"

text \<open>The observations of every part.\<close>

definition all_parts :: "sty observations \<Rightarrow> sty observations list" where
  "all_parts observations = map (part_observations observations) [0..<part_count observations]"

lemma size_parts: "x \<in> set (type_parts t) \<Longrightarrow> size x < size t"
  by (cases t) (auto simp del: sty.size intro: sty_size_mem)

lemma size_array_element: "is_array t \<Longrightarrow> size (array_element t) < size t"
  by (cases t) auto

definition observed_size :: "sty observations \<Rightarrow> nat" where
  "observed_size observations = sum_list (map (\<lambda>(i, t). size t) observations)"

lemma part_observations_size:
  assumes "k < part_count observations"
  shows "observed_size (part_observations observations k) < observed_size observations"
proof -
  have le: "sum_list (map (\<lambda>(i, t). size t) (part_observations obs k)) \<le> sum_list (map (\<lambda>(i, t). size t) obs)" for obs
  proof (induction obs)
    case (Cons x obs)
    obtain i t where x: "x = (i, t)" by fastforce
    have "k < length (type_parts t) \<Longrightarrow> size (type_parts t ! k) < size t" by (rule size_parts) simp
    with Cons show ?case by (auto simp: part_observations_def x)
  qed (simp add: part_observations_def)
  have "\<exists>x \<in> set observations. k < length (type_parts (snd x))"
  proof (rule ccontr)
    assume "\<not> ?thesis"
    then have "\<forall>x \<in> set observations. length (type_parts (snd x)) \<le> k" by auto
    then have "fold (\<lambda>(i, t). max (length (type_parts t))) observations n \<le> max n k" for n
    proof (induction observations arbitrary: n)
      case (Cons x observations)
      have "fold (\<lambda>(i, t). max (length (type_parts t))) observations (max (length (type_parts (snd x))) n) \<le>
          max (max (length (type_parts (snd x))) n) k"
        using Cons.prems by (intro Cons.IH) simp
      with Cons.prems show ?case by (auto simp: case_prod_unfold)
    qed simp
    from this [of 0] assms show False by (simp add: part_count_def)
  qed
  then obtain x xs ys where x: "observations = xs @ x # ys" "k < length (type_parts (snd x))" by (auto dest: split_list)
  obtain i t where "x = (i, t)" by fastforce
  with x(2) have "part_observations (x # ys) k = (i, type_parts t ! k) # part_observations ys k" "size (type_parts t ! k) < size t"
    by (auto simp: part_observations_def intro: size_parts)
  moreover have "part_observations observations k = part_observations xs k @ part_observations (x # ys) k"
    by (simp add: x(1) part_observations_def)
  ultimately show ?thesis using le [of xs] le [of ys] \<open>x = (i, t)\<close> by (simp add: observed_size_def x(1))
qed

function merge_type :: "string list \<Rightarrow> sty observations \<Rightarrow> identities \<Rightarrow> (sty \<times> identities) expected" where
  "merge_type ids observations s =
     (if observations = [] then Inl ''missing type observations''
      else
        let first = snd (hd observations) in
        if \<not> structural first \<and> list_all (\<lambda>x. snd x = first) observations then Inr (first, s)
        else if list_all (\<lambda>x. integer_sty (snd x)) observations then
          (if list_all (\<lambda>(i, t). t = IntegerT (target_word ids i)) observations then Inr (WordT, s)
           else Inr (type_choice ids observations, s))
        else if list_all (\<lambda>x. is_array (snd x)) observations then
          bindE (merge_type ids (at_type array_element observations) s) (\<lambda>(e, s).
          Inr (ArrayT e (choice ids (map (\<lambda>(i, t). (i, array_count t)) observations)), s))
        else if is_record first then
          (if list_ex (\<lambda>x. \<not> is_record (snd x)) observations
           then Inl ''logical record kind needs additional correspondence proof''
           else
             bindE (storageIdentity observations s) (\<lambda>(identity, s).
             bindE (mapS (merge_type ids) (all_parts observations) s) (\<lambda>(fields, s).
             if list_all (\<lambda>x. packed (snd x) = packed first \<and> length (type_parts (snd x)) = length (type_parts first)) observations
             then Inr (RecordT identity (packed first) fields, s)
             else
               Inr (type_choice ids
                 (at_type (\<lambda>t. RecordT identity (packed t) (take (length (type_parts t)) fields)) observations), s))))
        else if is_function first then
          (if list_ex (\<lambda>x. \<not> is_function (snd x) \<or> arity (snd x) \<noteq> arity first) observations
           then Inl ''logical callable arity differs''
           else
             bindE (mapS (merge_type ids) (all_parts observations) s) (\<lambda>(ts, s).
             Inr (FunctionT (take (fst (arity first)) ts) (drop (fst (arity first)) ts), s)))
        else if is_overlap first then
          (if list_ex (\<lambda>x. \<not> is_overlap (snd x)) observations then Inl ''overlap kinds disagree''
           else
             bindE (storageIdentity observations s) (\<lambda>(identity, s).
             if list_ex (\<lambda>x. length (type_parts (snd x)) \<noteq> length (type_parts first)) observations
             then Inr (type_choice ids (at_type (\<lambda>t. OverlapT identity (type_parts t) (overlap_domains t)) observations), s)
             else
               bindE (mapS (merge_type ids) (all_parts observations) s) (\<lambda>(alternatives, s).
               Inr (OverlapT identity alternatives
                 (map (\<lambda>_. targetSet (map (\<lambda>x. ids ! fst x) observations)) alternatives), s))))
        else Inl ''unproved logical type correspondence'')"
  by pat_completeness auto

termination
proof (relation "measure (\<lambda>(ids, observations, s). observed_size observations)", goal_cases)
  case (2 ids observations s first)
  then have "observations \<noteq> []" "\<forall>x \<in> set observations. is_array (snd x)" by (auto simp: list_all_iff)
  then have "observed_size (at_type array_element observations) < observed_size observations"
  proof (induction observations)
    case (Cons x observations)
    obtain i t where x: "x = (i, t)" by fastforce
    with Cons.prems have "size (array_element t) < size t" by (auto intro: size_array_element)
    with Cons x show ?case by (cases "observations = []") (auto simp: observed_size_def at_type_def)
  qed simp
  then show ?case by simp
qed (auto simp: all_parts_def intro: part_observations_size)

declare merge_type.simps [simp del]

section \<open>Attributes\<close>

fun composite :: "attr \<Rightarrow> bool" where
  "composite (TypeA _) = True"
| "composite (ArrayA _) = True"
| "composite (DictA _) = True"
| "composite _ = False"

fun type_of_attr :: "attr \<Rightarrow> sty" where
  "type_of_attr (TypeA t) = t"
| "type_of_attr _ = OtherT []"

fun array_elements :: "attr \<Rightarrow> attr list" where
  "array_elements (ArrayA xs) = xs"
| "array_elements _ = []"

fun dict_entries :: "attr \<Rightarrow> dict" where
  "dict_entries (DictA d) = d"
| "dict_entries _ = []"

definition same_arrays :: "attr observations \<Rightarrow> bool" where
  "same_arrays observations =
     (as_array (snd (hd observations)) \<noteq> None \<and>
      list_all (\<lambda>(i, v). as_array v \<noteq> None \<and> length (array_elements v) = length (array_elements (snd (hd observations)))) observations)"

definition same_dictionaries :: "attr observations \<Rightarrow> bool" where
  "same_dictionaries observations =
     (as_dict (snd (hd observations)) \<noteq> None \<and>
      list_all (\<lambda>(i, v). as_dict v \<noteq> None \<and> length (dict_entries v) = length (dict_entries (snd (hd observations))) \<and>
        list_all (\<lambda>p. map_of (dict_entries v) (fst p) \<noteq> None) (dict_entries (snd (hd observations)))) observations)"

definition element_observations :: "attr observations \<Rightarrow> nat \<Rightarrow> attr observations" where
  "element_observations observations k = map (\<lambda>(i, v). (i, array_elements v ! k)) observations"

definition field_observations :: "attr observations \<Rightarrow> string \<Rightarrow> attr observations" where
  "field_observations observations key = map (\<lambda>(i, v). (i, the (map_of (dict_entries v) key))) observations"

definition observed_attr_size :: "attr observations \<Rightarrow> nat" where
  "observed_attr_size observations = sum_list (map (\<lambda>(i, v). size v) observations)"

lemma observed_less:
  assumes "observations \<noteq> []" "\<And>i v. (i, v) \<in> set observations \<Longrightarrow> size (f v) < size v"
  shows "observed_attr_size (map (\<lambda>(i, v). (i, f v)) observations) < observed_attr_size observations"
  using assms
proof (induction observations)
  case (Cons x observations)
  obtain i v where x: "x = (i, v)" by fastforce
  have "size (f v) < size v" using Cons.prems(2) [of i v] x by simp
  with Cons x show ?case by (cases "observations = []") (auto simp: observed_attr_size_def intro: add_strict_mono)
qed simp

text \<open>The code takes the front of a vector that is never empty.\<close>

function merge_attribute :: "string list \<Rightarrow> attr observations \<Rightarrow> identities \<Rightarrow> (attr \<times> identities) expected" where
  "merge_attribute ids observations s =
     (if observations = [] then Inl ''missing attribute observations''
      else
        let first = snd (hd observations) in
        if \<not> composite first \<and> list_all (\<lambda>x. snd x = first) observations then Inr (first, s)
        else if list_all (\<lambda>x. as_type (snd x) \<noteq> None) observations then
          bindE (merge_type ids (map (\<lambda>(i, v). (i, type_of_attr v)) observations) s) (\<lambda>(t, s). Inr (TypeA t, s))
        else if same_arrays observations then
          bindE (mapS (merge_attribute ids) (map (element_observations observations) [0..<length (array_elements first)]) s) (\<lambda>(vs, s).
          Inr (ArrayA vs, s))
        else if same_dictionaries observations then
          bindE (mapS (merge_attribute ids) (map (field_observations observations) (map fst (dict_entries first))) s) (\<lambda>(vs, s).
          Inr (DictA (zip (map fst (dict_entries first)) vs), s))
        else Inr (choice ids observations, s))"
  by pat_completeness auto

termination
proof (relation "measure (\<lambda>(ids, observations, s). observed_attr_size observations)", goal_cases)
  case (2 ids observations s first x sa)
  then obtain k where k: "x = element_observations observations k" "k < length (array_elements first)" by auto
  have "observed_attr_size x < observed_attr_size observations"
    unfolding k(1) element_observations_def
  proof (rule observed_less)
    fix i v assume "(i, v) \<in> set observations"
    with 2 k(2) have "as_array v \<noteq> None" "k < length (array_elements v)" by (auto simp: same_arrays_def list_all_iff)
    then show "size (array_elements v ! k) < size v" by (cases v) (auto simp del: attr.size intro: size_array_mem)
  qed (use 2 in simp)
  then show ?case by simp
next
  case (3 ids observations s first x sa)
  then obtain p where p: "p \<in> set (dict_entries first)" "x = field_observations observations (fst p)" by auto
  have "observed_attr_size x < observed_attr_size observations"
    unfolding p(2) field_observations_def
  proof (rule observed_less)
    fix i v assume "(i, v) \<in> set observations"
    with 3 p(1) have "as_dict v \<noteq> None" "map_of (dict_entries v) (fst p) \<noteq> None"
      by (auto simp: same_dictionaries_def list_all_iff)
    then show "size (the (map_of (dict_entries v) (fst p))) < size v"
      by (cases v) (auto simp del: attr.size intro: size_dict_get)
  qed (use 3 in simp)
  then show ?case by simp
qed auto

declare merge_attribute.simps [simp del]

text \<open>The attributes of corresponding operations, in the order of the first one.\<close>

definition merge_entry ::
  "string list \<Rightarrow> op observations \<Rightarrow> string list \<Rightarrow> string \<times> attr \<Rightarrow> dict \<times> identities \<Rightarrow> (dict \<times> identities) expected" where
  "merge_entry ids operations omitted field st =
     (case st of (result, s) \<Rightarrow>
        if fst field \<in> set omitted then Inr st
        else if list_ex (\<lambda>(i, x). op_attr x (fst field) = None) operations then Inl ''operation attribute inventories differ''
        else
          bindE (merge_attribute ids (map (\<lambda>(i, x). (i, the (op_attr x (fst field)))) operations) s) (\<lambda>(v, s).
          Inr (result @ [(fst field, v)], s)))"

definition merge_attributes ::
  "string list \<Rightarrow> op observations \<Rightarrow> string list \<Rightarrow> identities \<Rightarrow> (dict \<times> identities) expected" where
  "merge_attributes ids operations omitted s =
     (let first = snd (hd operations) in
      if list_ex (\<lambda>(i, x). list_ex (\<lambda>(k, v). k \<notin> set omitted \<and> op_attr first k = None) (op_attrs x)) operations
      then Inl ''operation attribute inventories differ''
      else foldE (merge_entry ids operations omitted) (op_attrs first) ([], s))"

end
