(* ===== verification/Common_Order.thy ===== *)
theory Common_Order
  imports Sela_Prelude
begin

text \<open>
  The common order of block groups and of switch cases (\<open>src/ir/CommonMerge.cpp\<close>): every target contributes
  its own order as edges between consecutive nodes, and a topological order that always takes the smallest
  ready node is accepted only when it has every node.
\<close>

text \<open>\<open>edges\<close>, a set of successors per node in ascending order, and \<open>indegree\<close>.\<close>

type_synonym order_graph = "nat list list \<times> nat list"

definition add_edge :: "nat \<times> nat \<Rightarrow> order_graph \<Rightarrow> order_graph" where
  "add_edge e g =
     (case (e, g) of ((a, b), (edges, indegree)) \<Rightarrow>
        if b \<in> set (edges ! a) then g
        else (edges[a := insort b (edges ! a)], indegree[b := indegree ! b + 1]))"

definition order_pairs :: "nat list \<Rightarrow> (nat \<times> nat) list" where
  "order_pairs xs = zip xs (tl xs)"

definition build_order :: "nat \<Rightarrow> nat list list \<Rightarrow> order_graph" where
  "build_order n orders = fold add_edge (concat (map order_pairs orders)) (replicate n [], replicate n 0)"

text \<open>Removing the edge to \<open>next\<close>: its node becomes available with its last one.\<close>

definition release :: "nat \<Rightarrow> nat list \<times> nat list \<Rightarrow> nat list \<times> nat list" where
  "release next' st =
     (case st of (available, indegree) \<Rightarrow>
        let indegree = indegree[next' := indegree ! next' - 1] in
        (if indegree ! next' = 0 then insort next' available else available, indegree))"

text \<open>The first argument bounds the number of nodes that are taken.\<close>

fun take_ready :: "nat \<Rightarrow> nat list list \<Rightarrow> nat list \<Rightarrow> nat list \<Rightarrow> nat list \<Rightarrow> nat list" where
  "take_ready fuel edges [] indegree ordered = ordered"
| "take_ready 0 edges (index # available) indegree ordered = ordered"
| "take_ready (Suc fuel) edges (index # available) indegree ordered =
     (case fold release (edges ! index) (available, indegree) of (available, indegree) \<Rightarrow>
        take_ready fuel edges available indegree (ordered @ [index]))"

definition common_order :: "nat \<Rightarrow> nat list list \<Rightarrow> nat list option" where
  "common_order n orders =
     (case build_order n orders of (edges, indegree) \<Rightarrow>
        let ordered = take_ready n edges (filter (\<lambda>i. indegree ! i = 0) [0..<n]) indegree [] in
        if length ordered \<noteq> n then None else Some ordered)"

section \<open>The graph\<close>

definition edge_set :: "nat list list \<Rightarrow> (nat \<times> nat) set" where
  "edge_set orders = (\<Union>xs \<in> set orders. set (order_pairs xs))"

definition incoming :: "(nat \<times> nat) set \<Rightarrow> nat set \<Rightarrow> nat \<Rightarrow> nat" where
  "incoming E done' v = card {u. (u, v) \<in> E \<and> u \<notin> done'}"

definition graph_of :: "nat \<Rightarrow> (nat \<times> nat) set \<Rightarrow> order_graph \<Rightarrow> bool" where
  "graph_of n E g \<longleftrightarrow> length (fst g) = n \<and> length (snd g) = n \<and> finite E \<and> E \<subseteq> {..<n} \<times> {..<n} \<and>
     (\<forall>u < n. distinct (fst g ! u) \<and> set (fst g ! u) = {v. (u, v) \<in> E}) \<and> (\<forall>v < n. snd g ! v = incoming E {} v)"

lemma incoming_insert:
  "finite E \<Longrightarrow> (a, b) \<notin> E \<Longrightarrow> incoming (insert (a, b) E) {} v = incoming E {} v + (if v = b then 1 else 0)"
proof -
  assume E: "finite E" "(a, b) \<notin> E"
  have fin: "finite {u. (u, v) \<in> E}"
    by (rule finite_subset [of _ "fst ` E"]) (use E in force)+
  have "{u. (u, v) \<in> insert (a, b) E} = (if v = b then insert a {u. (u, v) \<in> E} else {u. (u, v) \<in> E})" by auto
  with fin E(2) show ?thesis by (auto simp: incoming_def)
qed

lemma add_edge_graph:
  assumes "graph_of n E g" "a < n" "b < n"
  shows "graph_of n (insert (a, b) E) (add_edge (a, b) g)"
proof (cases "(a, b) \<in> E")
  case True
  then have "add_edge (a, b) g = g" using assms by (cases g) (auto simp: add_edge_def graph_of_def)
  with assms True show ?thesis by (simp add: insert_absorb)
next
  case False
  obtain edges indegree where g: "g = (edges, indegree)" by fastforce
  have "b \<notin> set (edges ! a)" using False assms by (auto simp: graph_of_def g)
  then have "add_edge (a, b) g = (edges[a := insort b (edges ! a)], indegree[b := indegree ! b + 1])"
    by (simp add: add_edge_def g)
  with assms False \<open>b \<notin> set (edges ! a)\<close> show ?thesis
    by (auto simp: graph_of_def g nth_list_update incoming_insert set_insort_key distinct_insort)
qed

lemma order_graph_ok:
  assumes "\<forall>xs \<in> set orders. set xs \<subseteq> {..<n}"
  shows "graph_of n (edge_set orders) (build_order n orders)"
proof -
  have "\<forall>(a, b) \<in> set (order_pairs xs). a < n \<and> b < n" if "xs \<in> set orders" for xs
    using assms that by (cases xs) (fastforce simp: order_pairs_def dest: set_zip_leftD set_zip_rightD)+
  then have es: "\<forall>(a, b) \<in> set (concat (map order_pairs orders)). a < n \<and> b < n" by auto
  have "\<forall>(a, b) \<in> set es. a < n \<and> b < n \<Longrightarrow> graph_of n E g \<Longrightarrow> graph_of n (E \<union> set es) (fold add_edge es g)" for es E g
  proof (induction es arbitrary: E g)
    case (Cons e es)
    obtain a b where e: "e = (a, b)" by fastforce
    with Cons.prems have "graph_of n (insert e E) (add_edge e g)" by (auto intro: add_edge_graph)
    then have "graph_of n (insert e E \<union> set es) (fold add_edge es (add_edge e g))"
      using Cons.prems by (intro Cons.IH) auto
    then show ?case by simp
  qed simp
  from this [OF es, of "{}" "(replicate n [], replicate n 0)"]
  have "graph_of n (set (concat (map order_pairs orders))) (build_order n orders)"
    by (simp add: build_order_def graph_of_def incoming_def)
  then show ?thesis by (simp add: edge_set_def)
qed

section \<open>Taking ready nodes\<close>

definition ready_state :: "nat \<Rightarrow> (nat \<times> nat) set \<Rightarrow> nat list \<Rightarrow> nat list \<Rightarrow> nat list \<Rightarrow> bool" where
  "ready_state n E available indegree ordered \<longleftrightarrow>
     sorted available \<and> distinct (available @ ordered) \<and> set ordered \<subseteq> {..<n} \<and> length indegree = n \<and>
     set available = {v. v < n \<and> v \<notin> set ordered \<and> incoming E (set ordered) v = 0} \<and>
     (\<forall>v < n. v \<notin> set ordered \<longrightarrow> indegree ! v = incoming E (set ordered) v) \<and>
     (\<forall>us v vs. ordered = us @ v # vs \<longrightarrow> {u. (u, v) \<in> E} \<subseteq> set us)"

lemma releases:
  assumes "distinct ns" "\<forall>v \<in> set ns. v < length indegree \<and> 0 < indegree ! v \<and> v \<notin> set available" "sorted available" "distinct available"
  shows "\<exists>available' indegree'. fold release ns (available, indegree) = (available', indegree') \<and>
    length indegree' = length indegree \<and> (\<forall>v < length indegree. indegree' ! v = indegree ! v - (if v \<in> set ns then 1 else 0)) \<and>
    sorted available' \<and> distinct available' \<and> set available' = set available \<union> {v \<in> set ns. indegree ! v = 1}"
  using assms
proof (induction ns arbitrary: available indegree)
  case (Cons v ns)
  let ?i = "indegree[v := indegree ! v - 1]"
  let ?a = "if indegree ! v = 1 then insort v available else available"
  have step: "release v (available, indegree) = (?a, ?i)" using Cons.prems by (auto simp: release_def Let_def)
  have a: "sorted ?a" "distinct ?a" "set ?a = set available \<union> (if indegree ! v = 1 then {v} else {})"
    using Cons.prems by (auto simp: sorted_insort set_insort_key distinct_insort)
  have "\<forall>w \<in> set ns. w < length ?i \<and> 0 < ?i ! w \<and> w \<notin> set ?a"
    unfolding a(3) using Cons.prems by (auto simp: nth_list_update)
  from Cons.IH [OF _ this] Cons.prems(1) a obtain available' indegree' where
    r: "fold release ns (?a, ?i) = (available', indegree')" "length indegree' = length ?i"
      "\<forall>w < length ?i. indegree' ! w = ?i ! w - (if w \<in> set ns then 1 else 0)"
      "sorted available'" "distinct available'" "set available' = set ?a \<union> {w \<in> set ns. ?i ! w = 1}" by auto
  have "{w \<in> set ns. ?i ! w = 1} = {w \<in> set ns. indegree ! w = 1}" using Cons.prems by (auto simp: nth_list_update)
  moreover have "?i ! w - (if w \<in> set ns then 1 else 0) = indegree ! w - (if w \<in> set (v # ns) then 1 else 0)"
    if "w < length indegree" for w
    using Cons.prems(1) that by (cases "w = v") (auto simp: nth_list_update)
  moreover have "set ?a \<union> {w \<in> set ns. indegree ! w = 1} = set available \<union> {w \<in> set (v # ns). indegree ! w = 1}"
    unfolding a(3) by auto
  ultimately show ?case using r by (simp add: step)
qed auto

lemma incoming_done:
  assumes "finite E" "x \<notin> D"
  shows "incoming E (insert x D) v = incoming E D v - (if (x, v) \<in> E then 1 else 0)"
proof -
  have "finite {u. (u, v) \<in> E \<and> u \<notin> D}"
    by (rule finite_subset [of _ "fst ` E"]) (use assms(1) in force)+
  moreover have "{u. (u, v) \<in> E \<and> u \<notin> insert x D} = {u. (u, v) \<in> E \<and> u \<notin> D} - {x}" by auto
  ultimately show ?thesis using assms(2) by (auto simp: incoming_def card_Diff_singleton_if)
qed

lemma incoming_zero: "finite E \<Longrightarrow> incoming E D v = 0 \<longleftrightarrow> {u. (u, v) \<in> E} \<subseteq> D"
proof -
  assume "finite E"
  then have "finite {u. (u, v) \<in> E \<and> u \<notin> D}"
    by (intro finite_subset [of "{u. (u, v) \<in> E \<and> u \<notin> D}" "fst ` E"]) force+
  then show ?thesis by (auto simp: incoming_def)
qed

lemma split_snoc: "ordered @ [x] = us @ v # vs \<Longrightarrow> (vs = [] \<and> v = x \<and> us = ordered) \<or> (\<exists>ws. vs = ws @ [x] \<and> ordered = us @ v # ws)"
  by (cases vs rule: rev_cases) auto

lemma ready_step:
  assumes st: "ready_state n E (x # available) indegree ordered" and E: "finite E" "E \<subseteq> {..<n} \<times> {..<n}"
    and ns: "distinct ns" "set ns = {v. (x, v) \<in> E}"
  shows "case fold release ns (available, indegree) of (available', indegree') \<Rightarrow>
    ready_state n E available' indegree' (ordered @ [x])"
proof -
  let ?D = "set ordered"
  have x: "x < n" "x \<notin> ?D" "{u. (u, x) \<in> E} \<subseteq> ?D"
    using st E(1) incoming_zero [of E ?D x] by (auto simp: ready_state_def)
  then have irr: "(x, x) \<notin> E" by blast
  have pre: "\<And>u v. v \<in> ?D \<Longrightarrow> (u, v) \<in> E \<Longrightarrow> u \<in> ?D"
  proof -
    fix u v assume "v \<in> ?D" "(u, v) \<in> E"
    moreover then obtain us vs where "ordered = us @ v # vs" by (auto dest: split_list)
    ultimately show "u \<in> ?D" using st by (fastforce simp: ready_state_def)
  qed
  have nD: "v \<notin> ?D \<and> 0 < incoming E ?D v" if "(x, v) \<in> E" for v
    using pre [of v x] x(2) that incoming_zero [OF E(1), of ?D v] by auto
  have len: "length indegree = n" using st by (simp add: ready_state_def)
  have deg: "indegree ! v = incoming E ?D v" if "v < n" "v \<notin> ?D" for v using st that by (simp add: ready_state_def)
  have av: "set (x # available) = {v. v < n \<and> v \<notin> ?D \<and> incoming E ?D v = 0}" using st by (simp add: ready_state_def)
  have "\<forall>v \<in> set ns. v < length indegree \<and> 0 < indegree ! v \<and> v \<notin> set available"
  proof
    fix v assume "v \<in> set ns"
    then have v: "(x, v) \<in> E" "v < n" using ns E by auto
    with nD [of v] deg [of v] have "0 < indegree ! v" by simp
    moreover have "v \<notin> set (x # available)" unfolding av using nD [OF v(1)] by simp
    ultimately show "v < length indegree \<and> 0 < indegree ! v \<and> v \<notin> set available" using v len by simp
  qed
  moreover have sd: "sorted available" "distinct available" "x \<notin> set available" "set available \<inter> ?D = {}" "distinct ordered"
    using st by (auto simp: ready_state_def)
  ultimately obtain available' indegree' where
    r: "fold release ns (available, indegree) = (available', indegree')" "length indegree' = n"
      "\<forall>v < n. indegree' ! v = indegree ! v - (if v \<in> set ns then 1 else 0)"
      "sorted available'" "distinct available'" "set available' = set available \<union> {v \<in> set ns. indegree ! v = 1}"
    using releases [OF ns(1), of indegree available] len by auto
  have inc: "incoming E (set (ordered @ [x])) v = incoming E ?D v - (if v \<in> set ns then 1 else 0)" for v
    using incoming_done [OF E(1) x(2), of v] ns(2) by simp
  have deg': "indegree' ! v = incoming E (set (ordered @ [x])) v" if "v < n" "v \<notin> set (ordered @ [x])" for v
    using r(3) deg [of v] inc [of v] that by simp
  have av': "set available' = {v. v < n \<and> v \<notin> set (ordered @ [x]) \<and> incoming E (set (ordered @ [x])) v = 0}" (is "_ = ?R")
  proof (intro set_eqI iffI)
    fix v assume "v \<in> set available'"
    then consider "v \<in> set available" | "v \<in> set ns" "indegree ! v = 1" using r(6) by auto
    then show "v \<in> ?R"
    proof cases
      case 1
      then have "v < n \<and> v \<notin> ?D \<and> incoming E ?D v = 0" using av by auto
      with 1 sd(3) inc [of v] show ?thesis by auto
    next
      case 2
      then have v: "(x, v) \<in> E" "v < n" "v \<noteq> x" using ns E irr by auto
      with 2 nD [of v] deg [of v] inc [of v] show ?thesis by auto
    qed
  next
    fix v assume v: "v \<in> ?R"
    then have vD: "v < n" "v \<notin> ?D" "v \<noteq> x" "incoming E ?D v - (if v \<in> set ns then 1 else 0) = 0" using inc [of v] by auto
    show "v \<in> set available'"
    proof (cases "v \<in> set ns")
      case True
      then have "(x, v) \<in> E" using ns by simp
      with vD True nD [of v] deg [of v] r(6) show ?thesis by auto
    next
      case False
      then have "v \<in> set (x # available)" unfolding av using vD by simp
      with vD r(6) show ?thesis by simp
    qed
  qed
  have ord: "{u. (u, v) \<in> E} \<subseteq> set us" if "ordered @ [x] = us @ v # vs" for us v vs
  proof -
    have "\<And>us v vs. ordered = us @ v # vs \<Longrightarrow> {u. (u, v) \<in> E} \<subseteq> set us" using st by (simp add: ready_state_def)
    with split_snoc [OF that] x(3) show ?thesis by blast
  qed
  have "distinct (available' @ ordered @ [x])"
    using r(5) sd(5) x(2) av' by auto
  then show ?thesis using r(1,2,4) av' deg' ord x(1) st by (auto simp: ready_state_def)
qed

lemma take_ready_ok:
  assumes "graph_of n E (edges, degrees)" "ready_state n E available indegree ordered" "n \<le> fuel + length ordered"
  shows "\<exists>indegree'. ready_state n E [] indegree' (take_ready fuel edges available indegree ordered)"
  using assms
proof (induction fuel edges available indegree ordered rule: take_ready.induct)
  case (2 edges x available indegree ordered)
  then have "distinct (x # ordered)" "set (x # ordered) \<subseteq> {..<n}" by (auto simp: ready_state_def)
  then have "length (x # ordered) \<le> n" using distinct_card [of "x # ordered"] card_mono [of "{..<n}" "set (x # ordered)"] by simp
  with 2 show ?case by simp
next
  case (3 fuel edges x available indegree ordered)
  have E: "finite E" "E \<subseteq> {..<n} \<times> {..<n}" using 3 by (auto simp: graph_of_def)
  have "x < n" using 3 by (auto simp: ready_state_def)
  then have ns: "distinct (edges ! x)" "set (edges ! x) = {v. (x, v) \<in> E}" using 3 by (auto simp: graph_of_def)
  obtain available' indegree' where r: "fold release (edges ! x) (available, indegree) = (available', indegree')" by fastforce
  have "ready_state n E available' indegree' (ordered @ [x])"
    using ready_step [OF 3(3) E ns] by (simp add: r)
  from 3(1) [OF r [symmetric] 3(2) this] 3(4) show ?case by (simp add: r)
qed auto

section \<open>What an accepted order is\<close>

lemma in_order_pairs: "(u, v) \<in> set (order_pairs xs) \<longleftrightarrow> (\<exists>us vs. xs = us @ u # v # vs)"
proof (induction xs rule: induct_list012)
  case (3 x y xs)
  have "(u, v) \<in> set (order_pairs (x # y # xs)) \<longleftrightarrow> (u, v) = (x, y) \<or> (u, v) \<in> set (order_pairs (y # xs))"
    by (simp add: order_pairs_def)
  also have "\<dots> \<longleftrightarrow> (u, v) = (x, y) \<or> (\<exists>us vs. y # xs = us @ u # v # vs)" using 3(2) by simp
  also have "\<dots> \<longleftrightarrow> (\<exists>us vs. x # y # xs = us @ u # v # vs)"
    by (auto simp: Cons_eq_append_conv)
  finally show ?case .
qed (auto simp: order_pairs_def Cons_eq_append_conv)

text \<open>An order whose consecutive nodes are in this order in another one is a subsequence of it.\<close>

definition keeps_order :: "nat list \<Rightarrow> nat list \<Rightarrow> bool" where
  "keeps_order xs ordered \<longleftrightarrow> distinct ordered \<and> set xs \<subseteq> set ordered \<and> filter (\<lambda>x. x \<in> set xs) ordered = xs"

lemma keeps_order_pairs:
  assumes "keeps_order xs ordered" "ordered = us @ v # vs" "(u, v) \<in> set (order_pairs xs)"
  shows "u \<in> set us"
proof -
  obtain as bs where xs: "xs = as @ u # v # bs" using assms(3) by (auto simp: in_order_pairs)
  have d: "distinct xs" using assms(1) distinct_filter by (metis keeps_order_def)
  let ?P = "\<lambda>x. x \<in> set xs"
  have "?P v" by (simp add: xs)
  then have "filter ?P us @ v # filter ?P vs = as @ u # v # bs" using assms(1,2) xs by (simp add: keeps_order_def)
  moreover have "v \<notin> set (as @ [u])" "v \<notin> set bs" using d xs by auto
  ultimately have "filter ?P us = as @ [u]"
    using append_Cons_eq_iff [of v "as @ [u]" bs "filter ?P us" "filter ?P vs"] by simp
  then have "u \<in> set (filter ?P us)" by simp
  then show ?thesis by simp
qed

lemma precedes_distinct:
  assumes "distinct ordered" "set xs \<subseteq> set ordered"
    and "\<And>us v vs u. ordered = us @ v # vs \<Longrightarrow> (u, v) \<in> set (order_pairs xs) \<Longrightarrow> u \<in> set us"
  shows "distinct xs"
proof -
  let ?pos = "\<lambda>x. length (takeWhile (\<lambda>y. y \<noteq> x) ordered)"
  have less: "?pos u < ?pos v" if uv: "(u, v) \<in> set (order_pairs xs)" for u v
  proof -
    have "v \<in> set xs" using uv by (auto simp: in_order_pairs)
    then obtain us vs where o: "ordered = us @ v # vs" using assms(2) by (meson in_mono split_list)
    then have "u \<in> set us" using assms(3) uv by blast
    then obtain as bs where "us = as @ u # bs" by (auto dest: split_list)
    with o assms(1) have "takeWhile (\<lambda>y. y \<noteq> u) ordered = as" "takeWhile (\<lambda>y. y \<noteq> v) ordered = us"
      by (auto simp: takeWhile_tail intro!: takeWhile_append2 [THEN trans])
    with \<open>us = as @ u # bs\<close> show ?thesis by simp
  qed
  have "sorted_wrt (<) (map ?pos xs)"
    using less
  proof (induction xs rule: induct_list012)
    case (3 x y zs)
    then have "sorted_wrt (<) (map ?pos (y # zs))" by (simp add: order_pairs_def)
    moreover have "?pos x < ?pos y" using 3(3) [of x y] by (simp add: order_pairs_def)
    ultimately show ?case by (auto simp: order_pairs_def)
  qed auto
  then show ?thesis by (simp add: strict_sorted_iff distinct_map)
qed

lemma keeps_orderI:
  assumes "distinct ordered" "set xs \<subseteq> set ordered"
    and "\<And>us v vs u. ordered = us @ v # vs \<Longrightarrow> (u, v) \<in> set (order_pairs xs) \<Longrightarrow> u \<in> set us"
  shows "keeps_order xs ordered"
proof -
  have "distinct xs" using assms by (rule precedes_distinct)
  with assms(1,2) this assms(3) have "filter (\<lambda>x. x \<in> set xs) ordered = xs"
  proof (induction xs arbitrary: ordered rule: rev_induct)
    case (snoc x xs)
    obtain us vs where o: "ordered = us @ x # vs" using snoc.prems(2) by (auto dest: split_list)
    have prefix: "(u, v) \<in> set (order_pairs xs) \<Longrightarrow> (u, v) \<in> set (order_pairs (xs @ [x]))" for u v
      by (fastforce simp: in_order_pairs)
    have "set xs \<subseteq> set us"
    proof -
      have "y \<in> set us" if "xs = as @ y # bs" for y as bs
        using that
      proof (induction bs arbitrary: as y)
        case Nil
        then have "(y, x) \<in> set (order_pairs (xs @ [x]))" by (auto simp: in_order_pairs)
        then show ?case using snoc.prems(4) [OF o] by simp
      next
        case (Cons z bs)
        then have "z \<in> set us" by (metis append.assoc append_Cons append_Nil)
        then obtain ps qs where "us = ps @ z # qs" by (auto dest: split_list)
        moreover have "(y, z) \<in> set (order_pairs (xs @ [x]))" using Cons.prems by (auto simp: in_order_pairs)
        ultimately have "y \<in> set ps" using snoc.prems(4) [of ps z "qs @ x # vs" y] o by simp
        with \<open>us = _\<close> show ?case by simp
      qed
      then show ?thesis by (metis split_list subsetI)
    qed
    moreover have "filter (\<lambda>y. y \<in> set xs) us = xs" if "set xs \<subseteq> set us"
    proof (rule snoc.IH)
      show "\<And>us' v vs' u. us = us' @ v # vs' \<Longrightarrow> (u, v) \<in> set (order_pairs xs) \<Longrightarrow> u \<in> set us'"
        using snoc.prems(4) prefix by (simp add: o)
    qed (use snoc.prems(1,3) that in \<open>auto simp: o\<close>)
    moreover have "filter (\<lambda>y. y \<in> set (xs @ [x])) us = filter (\<lambda>y. y \<in> set xs) us"
      using snoc.prems(1) by (intro filter_cong) (auto simp: o)
    moreover have "set xs \<subseteq> set us \<Longrightarrow> filter (\<lambda>y. y \<in> set (xs @ [x])) vs = []"
      using snoc.prems(1) by (auto simp: o filter_empty_conv)
    ultimately show ?case by (simp add: o)
  qed simp
  with assms show ?thesis by (simp add: keeps_order_def)
qed

text \<open>Every node once, and every target's order kept: exactly when there is such an order it is found.\<close>

definition extends_orders :: "nat \<Rightarrow> nat list list \<Rightarrow> nat list \<Rightarrow> bool" where
  "extends_orders n orders ordered \<longleftrightarrow>
     distinct ordered \<and> set ordered = {..<n} \<and> (\<forall>xs \<in> set orders. keeps_order xs ordered)"

lemma common_order_state:
  assumes "\<forall>xs \<in> set orders. set xs \<subseteq> {..<n}"
  obtains ordered indegree where "ready_state n (edge_set orders) [] indegree ordered"
    "common_order n orders = (if length ordered \<noteq> n then None else Some ordered)"
proof -
  obtain edges degrees where g: "build_order n orders = (edges, degrees)" by fastforce
  have ok: "graph_of n (edge_set orders) (edges, degrees)" using order_graph_ok [of orders n] assms by (auto simp: g)
  let ?a = "filter (\<lambda>i. degrees ! i = 0) [0..<n]"
  have "ready_state n (edge_set orders) ?a degrees []"
    using ok by (auto simp: ready_state_def graph_of_def sorted_wrt_filter)
  from take_ready_ok [OF ok this, of n] obtain indegree where
    "ready_state n (edge_set orders) [] indegree (take_ready n edges ?a degrees [])" by auto
  then show thesis by (rule that) (simp add: common_order_def g Let_def)
qed

lemma ready_keeps_order:
  assumes "ready_state n (edge_set orders) [] indegree ordered" "length ordered = n"
    and "\<forall>xs \<in> set orders. set xs \<subseteq> {..<n}"
  shows "extends_orders n orders ordered"
proof -
  have d: "distinct ordered" "set ordered \<subseteq> {..<n}" using assms(1) by (auto simp: ready_state_def)
  then have s: "set ordered = {..<n}" using assms(2) distinct_card [of ordered] card_subset_eq [of "{..<n}" "set ordered"] by simp
  have "keeps_order xs ordered" if "xs \<in> set orders" for xs
  proof (rule keeps_orderI)
    fix us v vs u assume "ordered = us @ v # vs" "(u, v) \<in> set (order_pairs xs)"
    moreover from this(2) that have "(u, v) \<in> edge_set orders" by (auto simp: edge_set_def)
    ultimately show "u \<in> set us" using assms(1) by (fastforce simp: ready_state_def)
  qed (use d s assms(3) that in auto)
  with d s show ?thesis by (simp add: extends_orders_def)
qed

lemma unfinished_contradicts:
  assumes "ready_state n (edge_set orders) [] indegree ordered" "length ordered \<noteq> n"
    and "\<forall>xs \<in> set orders. set xs \<subseteq> {..<n}"
  shows "\<not> extends_orders n orders w"
proof
  assume w: "extends_orders n orders w"
  have d: "distinct ordered" "set ordered \<subseteq> {..<n}" using assms(1) by (auto simp: ready_state_def)
  have "set ordered \<noteq> {..<n}"
  proof
    assume "set ordered = {..<n}"
    then have "length ordered = n" using distinct_card [OF d(1)] by simp
    with assms(2) show False by simp
  qed
  then have "\<exists>v. v < n \<and> v \<notin> set ordered" using d(2) by blast
  with w have "\<exists>v \<in> set w. v \<notin> set ordered" by (simp add: extends_orders_def Bex_def)
  from split_list_first_prop [OF this] obtain us v vs where
    v: "w = us @ v # vs" "v \<notin> set ordered" "\<forall>u \<in> set us. u \<in> set ordered" by auto
  have "v < n" using v(1) w by (auto simp: extends_orders_def)
  have E: "finite (edge_set orders)" by (simp add: edge_set_def)
  have "incoming (edge_set orders) (set ordered) v \<noteq> 0" using assms(1) v(2) \<open>v < n\<close> by (auto simp: ready_state_def)
  then obtain u where u: "(u, v) \<in> edge_set orders" "u \<notin> set ordered" unfolding incoming_zero [OF E] by blast
  then obtain xs where "xs \<in> set orders" "(u, v) \<in> set (order_pairs xs)" by (auto simp: edge_set_def)
  with w v(1) have "u \<in> set us" by (auto simp: extends_orders_def intro: keeps_order_pairs)
  with u(2) v(3) show False by simp
qed

lemma common_order_ok:
  assumes "\<forall>xs \<in> set orders. set xs \<subseteq> {..<n}"
  shows "case common_order n orders of
      None \<Rightarrow> \<not> (\<exists>ordered. extends_orders n orders ordered)
    | Some ordered \<Rightarrow> extends_orders n orders ordered"
proof -
  obtain ordered indegree where r: "ready_state n (edge_set orders) [] indegree ordered"
    "common_order n orders = (if length ordered \<noteq> n then None else Some ordered)"
    using common_order_state [OF assms] .
  show ?thesis
    using ready_keeps_order [OF r(1) _ assms] unfinished_contradicts [OF r(1) _ assms] by (simp add: r(2))
qed

end
