(* ===== verification/Common_Merge.thy ===== *)
theory Common_Merge
  imports Common_Types Common_Order Conditional_CFG "HOL-Library.AList"
begin

text \<open>
  The merger of producer modules (\<open>src/ir/CommonMerge.cpp\<close>), continued: SSA values, control flow, operations,
  functions and modules. A value of a source module is a number in its function, one of the output is fresh; a
  block is known by its number. LLVM's function verifier, MLIR's module verifier and printer are parameters,
  and the messages leave out the prefix \<open>fail\<close> puts before them.
\<close>

section \<open>Values\<close>

text \<open>\<open>mg_values\<close> is \<open>values\<close>, from the value of every target (or none) to the shared one; \<open>mg_blocks\<close> is \<open>blocks\<close>.\<close>

record merger =
  mg_ids :: identities
  mg_values :: "(nat option list \<times> nat) list"
  mg_blocks :: "(nat \<times> nat) list list"
  mg_fresh :: nat

definition value_key :: "nat \<Rightarrow> nat observations \<Rightarrow> nat option list" where
  "value_key n observations = fold (\<lambda>(i, v) result. result[i := Some v]) observations (replicate n None)"

definition match_candidate :: "nat option list \<Rightarrow> nat option list \<times> nat \<Rightarrow> nat option \<Rightarrow> nat option expected" where
  "match_candidate tuple candidate result =
     (if list_ex (\<lambda>i. tuple ! i \<noteq> None \<and> fst candidate ! i \<noteq> tuple ! i) [0..<length tuple] then Inr result
      else if result \<noteq> None \<and> result \<noteq> Some (snd candidate) then Inl ''ambiguous conditional SSA correspondence''
      else Inr (Some (snd candidate)))"

definition operand :: "nat \<Rightarrow> nat observations \<Rightarrow> merger \<Rightarrow> nat expected" where
  "operand n observations m =
     (let tuple = value_key n observations in
      case map_of (mg_values m) tuple of
        Some v \<Rightarrow> Inr v
      | None \<Rightarrow>
          bindE (foldE (match_candidate tuple) (mg_values m) None) (\<lambda>result.
          case result of
            None \<Rightarrow> Inl ''missing or escaping conditional SSA correspondence''
          | Some v \<Rightarrow> Inr v))"

text \<open>\<open>values[key(observations)] = result\<close> for a result that is new.\<close>

definition new_value :: "nat \<Rightarrow> nat observations \<Rightarrow> merger \<Rightarrow> nat \<times> merger" where
  "new_value n observations m =
     (mg_fresh m, m\<lparr>mg_values := AList.update (value_key n observations) (mg_fresh m) (mg_values m), mg_fresh := mg_fresh m + 1\<rparr>)"

text \<open>The types of the values of a function.\<close>

definition region_values :: "block list \<Rightarrow> (nat \<times> sty) list" where
  "region_values region =
     concat (map (\<lambda>b. map (\<lambda>(v, t, l). (v, t)) (block_args b) @ concat (map op_results (block_ops b))) region)"

definition typed :: "(identities \<Rightarrow> ('a \<times> identities) expected) \<Rightarrow> merger \<Rightarrow> ('a \<times> merger) expected" where
  "typed f m = bindE (f (mg_ids m)) (\<lambda>(r, s). Inr (r, m\<lparr>mg_ids := s\<rparr>))"

section \<open>Control flow\<close>

definition switch_label :: "nat \<Rightarrow> attr \<times> nat \<Rightarrow> (nat \<times> nat) expected" where
  "switch_label width c =
     (case as_integer (fst c) of
        None \<Rightarrow> Inl ''conditional graph proof needs exact integer labels''
      | Some (w, n) \<Rightarrow> Inr (n mod 2 ^ width, snd c))"

definition graph_terminator :: "(nat \<times> sty) list \<Rightarrow> op \<Rightarrow> terminator expected" where
  "graph_terminator types x =
     (if op_name x = ''sela.br'' then Inr (BranchT [op_succs x ! 0])
      else if op_name x = ''sela.cond_br'' then Inr (BranchT [op_succs x ! 0, op_succs x ! 1])
      else if op_name x = ''sela.switch'' then
        (case (map_of types (hd (op_operands x)), op_get as_array x ''cases'') of
           (Some (IntegerT width), Some labels) \<Rightarrow>
             bindE (mapE (switch_label width) (zip labels (tl (op_succs x)))) (\<lambda>cases.
             Inr (SwitchT width (op_succs x ! 0) cases))
         | _ \<Rightarrow> Inl ''conditional graph proof needs specialized switch labels'')
      else if op_name x = ''sela.return'' then Inr ReturnT
      else if op_name x = ''sela.unreachable'' then Inr UnreachableT
      else Inl ''unsupported public terminator in correspondence proof'')"

text \<open>
  One native block per block; a block argument is a PHI and no native instruction has a user. Every block of a
  verified function has a terminator.
\<close>

definition graph_block :: "(nat \<times> sty) list \<Rightarrow> nat \<times> block \<Rightarrow> basic_block expected" where
  "graph_block types p =
     (if block_ops (snd p) = [] then Inl ''unsupported public terminator in correspondence proof''
      else
        bindE (graph_terminator types (last (block_ops (snd p)))) (\<lambda>t.
        Inr \<lparr>bb_id = block_id (snd p), bb_terminator = Some t, bb_phis = (fst p \<noteq> 0 \<and> block_args (snd p) \<noteq> []),
             bb_addressTaken = False, bb_users = []\<rparr>))"

definition function_region :: "op \<Rightarrow> block list" where
  "function_region f = (case op_regions f of [] \<Rightarrow> [] | r # _ \<Rightarrow> r)"

definition function_graph :: "(native_function \<Rightarrow> bool) \<Rightarrow> op \<Rightarrow> native_function expected" where
  "function_graph verifies f =
     (let region = function_region f in
      bindE (mapE (graph_block (region_values region)) (List.enumerate 0 region)) (\<lambda>g.
      if verifies g then Inr g else Inl ''invalid private structural correspondence graph''))"

text \<open>
  \<open>groups\<close> (the block of each target), \<open>arms\<close> (keyed by the head group, width, label and position in the arm)
  and the group of each block of the function at hand.
\<close>

record block_grouping =
  gr_groups :: "nat option list list"
  gr_arms :: "((nat \<times> nat \<times> nat \<times> nat) \<times> nat) list"
  gr_index :: "(nat \<times> nat) list"

definition place_block :: "nat \<Rightarrow> nat \<Rightarrow> nat \<Rightarrow> block_grouping \<Rightarrow> block_grouping" where
  "place_block target b g s =
     s\<lparr>gr_groups := (gr_groups s)[g := (gr_groups s ! g)[target := Some b]], gr_index := (b, g) # gr_index s\<rparr>"

definition shared_pair :: "(nat \<times> nat) list \<Rightarrow> nat \<Rightarrow> ConditionalCFGBlockPair \<Rightarrow> block_grouping \<Rightarrow> block_grouping" where
  "shared_pair base target p s =
     (case (bp_left p, bp_right p) of
        (Some l, Some r) \<Rightarrow> place_block target r (lookup0 base l) s
      | _ \<Rightarrow> s)"

definition arm_group :: "nat \<Rightarrow> nat \<times> nat \<times> nat \<times> nat \<Rightarrow> block_grouping \<Rightarrow> nat \<times> block_grouping" where
  "arm_group n key s =
     (case map_of (gr_arms s) key of
        Some g \<Rightarrow> (g, s)
      | None \<Rightarrow>
          let g = length (gr_groups s) in
          (g, s\<lparr>gr_arms := (key, g) # gr_arms s, gr_groups := gr_groups s @ [replicate n None]\<rparr>))"

lemma arm_group_index: "arm_group n key s = (g, s') \<Longrightarrow> gr_index s' = gr_index s"
  by (auto simp: arm_group_def Let_def split: option.splits)

lemma arm_groups_less:
  assumes "map_of (gr_index s) b = None" "arm_group n key s = (g, s')" "block_terminator f (Some b) = Some t"
  shows "length (filter (\<lambda>x. map_of (gr_index (place_block target b g s')) (bb_id x) = None) f) <
    length (filter (\<lambda>x. map_of (gr_index s) (bb_id x) = None) f)"
proof -
  let ?P = "\<lambda>s x. map_of (gr_index s) (bb_id x) = None"
  let ?s = "place_block target b g s'"
  have i: "gr_index ?s = (b, g) # gr_index s" using arm_group_index [OF assms(2)] by (simp add: place_block_def)
  obtain x where x: "find_bb f b = Some x" using assms(3) by (auto simp: block_terminator_def bind_eq_Some_conv)
  then have "x \<in> set f" "bb_id x = b" unfolding find_bb_def find_Some_iff by auto
  then have b: "x \<in> set (filter (?P s) f)" "\<not> ?P ?s x" using assms(1) by (auto simp: i)
  have "filter (?P ?s) f = filter (?P ?s) (filter (?P s) f)" by (auto simp: i intro!: filter_cong)
  also have "length \<dots> < length (filter (?P s) f)" using b by (rule length_filter_less)
  finally show ?thesis .
qed

function arm_groups ::
  "nat \<Rightarrow> native_function \<Rightarrow> nat \<Rightarrow> nat \<times> nat \<times> nat \<Rightarrow> nat \<Rightarrow> nat \<Rightarrow> block_grouping \<Rightarrow> block_grouping expected" where
  "arm_groups n f target arm position block s =
     (if map_of (gr_index s) block \<noteq> None then Inr s
      else
        case arm_group n (fst arm, fst (snd arm), snd (snd arm), position) s of (g, s') \<Rightarrow>
          (case block_terminator f (Some block) of
             Some (BranchT [next']) \<Rightarrow> arm_groups n f target arm (position + 1) next' (place_block target block g s')
           | _ \<Rightarrow> Inl ''conditional arm lacks its proved closed chain''))"
  by pat_completeness auto

termination
  by (relation "measure (\<lambda>(n, f, target, arm, position, b, s). length (filter (\<lambda>x. map_of (gr_index s) (bb_id x) = None) f))")
    (simp, simp, rule arm_groups_less, simp, erule sym, simp)

declare arm_groups.simps [simp del]

definition conditional_case ::
  "nat \<Rightarrow> (nat \<times> nat) list \<Rightarrow> native_function \<Rightarrow> nat \<Rightarrow> ConditionalCFG \<Rightarrow> ConditionalCFGSwitchPair \<Rightarrow> nat \<Rightarrow>
   ConditionalCFGCasePair \<Rightarrow> block_grouping \<Rightarrow> block_grouping expected" where
  "conditional_case n base f target proof' selection width entry s =
     (if cp_domain entry \<noteq> 2 then Inr s
      else
        case bp_right (cc_blocks proof' ! cp_successor entry) of
          None \<Rightarrow> Inr s
        | Some block \<Rightarrow>
            arm_groups n f target (lookup0 base (sp_left selection), width, the (cp_right entry)) 0 block s)"

text \<open>The width of the labels of a switch.\<close>

definition switch_width :: "native_function \<Rightarrow> nat \<Rightarrow> nat" where
  "switch_width f b = (case block_terminator f (Some b) of Some (SwitchT w d cases) \<Rightarrow> w | _ \<Rightarrow> 0)"

definition place_function ::
  "string list \<Rightarrow> nat \<times> op \<times> native_function \<times> (nat \<times> nat) list \<Rightarrow> nat \<times> op \<times> native_function \<Rightarrow>
   block_grouping \<times> (nat \<times> nat) list list \<Rightarrow> (block_grouping \<times> (nat \<times> nat) list list) expected" where
  "place_function ids first input st =
     (case (first, input, st) of ((baseIndex, f0, left, base), (target, f, right), (s, indices)) \<Rightarrow>
        bindE (case pairConditionalCFG left right of
                 None \<Rightarrow> Inl ''''
               | Some (Inl e) \<Rightarrow> Inl (the (op_get as_string f0 ''id'') @ '' ('' @ ids ! baseIndex @ ''/'' @ ids ! target @ ''): '' @ e)
               | Some (Inr p) \<Rightarrow> Inr p) (\<lambda>p.
        bindE (foldE (\<lambda>w. foldE (conditional_case (length ids) base right target p w (switch_width right (sp_right w))) (sp_cases w))
                (cc_switches p) (fold (shared_pair base target) (cc_blocks p) (s\<lparr>gr_index := []\<rparr>))) (\<lambda>s.
        if list_ex (\<lambda>b. map_of (gr_index s) (block_id b) = None) (function_region f) then Inl ''unmatched conditional block''
        else Inr (s, indices @ [gr_index s]))))"

definition correspondence :: "(native_function \<Rightarrow> bool) \<Rightarrow> string list \<Rightarrow> op observations \<Rightarrow> nat option list list expected" where
  "correspondence verifies ids functions' =
     bindE (mapE (\<lambda>(i, f). function_graph verifies f) functions') (\<lambda>inputs.
     let (baseIndex, f0) = hd functions';
         ids0 = map block_id (function_region f0);
         base = zip ids0 [0..<length ids0];
         s = \<lparr>gr_groups = map (\<lambda>b. (replicate (length ids) None)[baseIndex := Some b]) ids0, gr_arms = [], gr_index = base\<rparr> in
     bindE (foldE (place_function ids (baseIndex, f0, hd inputs, base)) (map (\<lambda>((i, f), g). (i, f, g)) (zip (tl functions') (tl inputs)))
              (s, [base])) (\<lambda>(s, indices).
     case common_order (length (gr_groups s))
            (map (\<lambda>((i, f), index). map (\<lambda>b. lookup0 index (block_id b)) (function_region f)) (zip functions' indices)) of
       None \<Rightarrow> Inl ''target block orders contradict one another''
     | Some ordered \<Rightarrow> Inr (map (\<lambda>i. gr_groups s ! i) ordered)))"

section \<open>Operations\<close>

text \<open>A case shared by some of the targets; \<open>sc_sources\<close> are its operations with the offsets of their arguments.\<close>

record switch_case =
  sc_successor :: nat
  sc_labels :: "attr observations"
  sc_sources :: "(nat \<times> op \<times> nat) list"
  sc_count :: nat

text \<open>\<open>cases\<close>, \<open>identities\<close>, the order of the operation at hand and \<open>offset\<close>.\<close>

type_synonym case_scan = "switch_case list \<times> ((nat \<times> attr) \<times> nat) list \<times> nat list \<times> nat"

definition scan_case :: "(nat \<times> nat) list \<Rightarrow> nat \<Rightarrow> op \<Rightarrow> attr \<times> nat \<times> int \<Rightarrow> case_scan \<Rightarrow> case_scan expected" where
  "scan_case blocks target x c st =
     (case (c, st) of ((label, successor, count), (cases, identities, order, offset)) \<Rightarrow>
        (case map_of blocks successor of
           None \<Rightarrow> Inl ''invalid switch operand segment''
         | Some successor \<Rightarrow>
             if count < 0 \<or> offset + nat count > length (op_operands x) then Inl ''invalid switch operand segment''
             else
               let new_case = (map_of identities (successor, label) = None);
                   k = (case map_of identities (successor, label) of None \<Rightarrow> length cases | Some k \<Rightarrow> k);
                   entry = (if new_case then \<lparr>sc_successor = successor, sc_labels = [], sc_sources = [], sc_count = nat count\<rparr>
                            else cases ! k) in
               if sc_count entry \<noteq> nat count then Inl ''switch case argument counts differ''
               else
                 let entry = entry\<lparr>sc_labels := sc_labels entry @ [(target, label)],
                                   sc_sources := sc_sources entry @ [(target, x, offset)]\<rparr> in
                 Inr (if new_case then cases @ [entry] else cases[k := entry],
                      if new_case then ((successor, label), k) # identities else identities,
                      order @ [k], offset + nat count)))"

record switch_scan =
  ss_cases :: "switch_case list"
  ss_identities :: "((nat \<times> attr) \<times> nat) list"
  ss_orders :: "nat list list"
  ss_default :: "(nat \<times> nat) option"

text \<open>\<open>ss_default\<close> is \<open>defaultSuccessor\<close> and \<open>defaultCount\<close>.\<close>

definition scan_switch :: "merger \<Rightarrow> nat \<times> op \<Rightarrow> switch_scan \<Rightarrow> switch_scan expected" where
  "scan_switch m input st =
     (case input of (target, x) \<Rightarrow>
        (case (op_get as_array x ''cases'', op_get as_i32s x ''argument_counts'') of
           (Some labels, Some counts) \<Rightarrow>
             if length counts \<noteq> length labels + 1 \<or> length (op_succs x) \<noteq> length counts \<or> op_operands x = []
             then Inl ''invalid switch observation''
             else
               (case map_of (mg_blocks m ! target) (hd (op_succs x)) of
                  None \<Rightarrow> Inl ''switch default correspondence differs''
                | Some mapped \<Rightarrow>
                    if hd counts < 0 \<or> (ss_default st \<noteq> None \<and> ss_default st \<noteq> Some (mapped, nat (hd counts)))
                    then Inl ''switch default correspondence differs''
                    else
                      bindE (foldE (scan_case (mg_blocks m ! target) target x) (zip labels (zip (tl (op_succs x)) (tl counts)))
                               (ss_cases st, ss_identities st, [], 1 + nat (hd counts)))
                        (\<lambda>(cases, identities, order, offset).
                      if offset \<noteq> length (op_operands x) then Inl ''switch has undeclared operand segments''
                      else Inr (st\<lparr>ss_cases := cases, ss_identities := identities, ss_orders := ss_orders st @ [order],
                                   ss_default := Some (mapped, nat (hd counts))\<rparr>)))
         | _ \<Rightarrow> Inl ''invalid switch observation''))"

text \<open>The shared values of \<open>count\<close> consecutive operands, which start at an offset of every operation.\<close>

definition operands_at :: "nat \<Rightarrow> (nat \<times> op \<times> nat) list \<Rightarrow> nat \<Rightarrow> merger \<Rightarrow> nat list expected" where
  "operands_at n sources count m =
     mapE (\<lambda>i. operand n (map (\<lambda>(target, x, offset). (target, op_operands x ! (offset + i))) sources) m) [0..<count]"

definition emit_case ::
  "string list \<Rightarrow> switch_case \<Rightarrow> (attr \<times> attr \<times> nat list) list \<times> merger \<Rightarrow> ((attr \<times> attr \<times> nat list) list \<times> merger) expected" where
  "emit_case ids entry st =
     (case st of (emitted, m) \<Rightarrow>
        bindE (typed (merge_attribute ids (sc_labels entry)) m) (\<lambda>(label, m).
        bindE (operands_at (length ids) (sc_sources entry) (sc_count entry) m) (\<lambda>vs.
        Inr (emitted @ [(label, targetSet (map (\<lambda>(target, x, offset). ids ! target) (sc_sources entry)), vs)], m))))"

definition switchOperation :: "string list \<Rightarrow> op observations \<Rightarrow> merger \<Rightarrow> (op \<times> merger) expected" where
  "switchOperation ids operations m =
     bindE (foldE (scan_switch m) operations \<lparr>ss_cases = [], ss_identities = [], ss_orders = [], ss_default = None\<rparr>) (\<lambda>st.
     case common_order (length (ss_cases st)) (ss_orders st) of
       None \<Rightarrow> Inl ''switch case orders contradict one another''
     | Some ordered \<Rightarrow>
         bindE (operand (length ids) (map (\<lambda>(i, x). (i, hd (op_operands x))) operations) m) (\<lambda>selector.
         let (successor, count) = the (ss_default st); cases = map (\<lambda>k. ss_cases st ! k) ordered in
         bindE (operands_at (length ids) (map (\<lambda>(i, x). (i, x, 1)) operations) count m) (\<lambda>defaults.
         bindE (foldE (emit_case ids) cases ([], m)) (\<lambda>(emitted, m).
         Inr (Op ''sela.switch''
                [(''argument_counts'', DenseI32A (int count # map (\<lambda>c. int (sc_count c)) cases)),
                 (''case_domains'', ArrayA (map (\<lambda>(l, d, vs). d) emitted)), (''cases'', ArrayA (map (\<lambda>(l, d, vs). l) emitted))]
                (selector # defaults @ concat (map (\<lambda>(l, d, vs). vs) emitted)) []
                (successor # map sc_successor cases) [] True, m)))))"

text \<open>The successors of the operations at one position, which all lead to one block of the output.\<close>

definition shared_successor :: "merger \<Rightarrow> op observations \<Rightarrow> nat \<Rightarrow> nat expected" where
  "shared_successor m operations i =
     (let mapped = map (\<lambda>(target, x). map_of (mg_blocks m ! target) (op_succs x ! i)) operations in
      case hd mapped of
        None \<Rightarrow> Inl ''branch successors lack common correspondence''
      | Some b \<Rightarrow>
          if list_all (\<lambda>b'. b' = Some b) mapped then Inr b else Inl ''branch successors lack common correspondence'')"

definition new_result :: "nat \<Rightarrow> op observations \<Rightarrow> nat \<times> sty \<Rightarrow> (nat \<times> sty) list \<times> merger \<Rightarrow> (nat \<times> sty) list \<times> merger" where
  "new_result n operations p st =
     (case (p, st) of ((i, t), (results, m)) \<Rightarrow>
        (case new_value n (map (\<lambda>(target, x). (target, fst (op_results x ! i))) operations) m of (v, m) \<Rightarrow> (results @ [(v, t)], m)))"

definition operation :: "string list \<Rightarrow> op observations \<Rightarrow> merger \<Rightarrow> (op \<times> merger) expected" where
  "operation ids operations m =
     (let first = snd (hd operations) in
      if list_all (\<lambda>(i, x). op_name x = ''sela.switch'') operations then switchOperation ids operations m
      else if list_ex (\<lambda>(i, x). op_name x \<noteq> op_name first \<or> length (op_operands x) \<noteq> length (op_operands first) \<or>
          length (op_results x) \<noteq> length (op_results first) \<or> op_regions x \<noteq> [] \<or>
          length (op_succs x) \<noteq> length (op_succs first)) operations
      then Inl ''instruction shape needs additional common-graph normalization''
      else
        bindE (typed (merge_attributes ids operations []) m) (\<lambda>(attrs, m).
        bindE (typed (mapS (\<lambda>i. merge_type ids (map (\<lambda>(target, x). (target, snd (op_results x ! i))) operations))
                       [0..<length (op_results first)]) m) (\<lambda>(types, m).
        bindE (operands_at (length ids) (map (\<lambda>(i, x). (i, x, 0)) operations) (length (op_operands first)) m) (\<lambda>operands.
        bindE (mapE (shared_successor m operations) [0..<length (op_succs first)]) (\<lambda>successors.
        case fold (new_result (length ids) operations) (List.enumerate 0 types) ([], m) of (results, m) \<Rightarrow>
        Inr (Op (op_name first) attrs operands results successors [] True, m))))))"

section \<open>Functions\<close>

text \<open>The next instruction of every target that is present in the group and has one left.\<close>

definition next_input :: "nat option list \<Rightarrow> op list list \<Rightarrow> op observations" where
  "next_input g rest =
     List.map_filter (\<lambda>(i, b, xs). if b = None \<or> xs = [] then None else Some (i, hd xs)) (List.enumerate 0 (zip g rest))"

definition same_input :: "nat option list \<Rightarrow> op list list \<Rightarrow> bool" where
  "same_input g rest =
     (list_all (\<lambda>(b, xs). b \<noteq> None \<longrightarrow> xs \<noteq> []) (zip g rest) \<and>
      list_all (\<lambda>(i, x). op_name x = op_name (snd (hd (next_input g rest)))) (next_input g rest))"

definition advance :: "nat list \<Rightarrow> op list list \<Rightarrow> op list list" where
  "advance targets rest = map (\<lambda>(i, xs). if i \<in> set targets then tl xs else xs) (List.enumerate 0 rest)"

text \<open>An integer extension or truncation, which can be absent where its source and result types coincide.\<close>

definition is_integer_type :: "sty option \<Rightarrow> bool" where
  "is_integer_type t = (case t of Some t \<Rightarrow> integer_sty t | None \<Rightarrow> False)"

definition optional_cast :: "(nat \<times> sty) list list \<Rightarrow> nat \<times> op \<Rightarrow> bool" where
  "optional_cast types input =
     (case input of (i, x) \<Rightarrow>
        op_name x = ''sela.cast'' \<and> op_get as_string x ''opcode'' \<in> {Some ''sext'', Some ''zext'', Some ''trunc''} \<and>
        length (op_operands x) = 1 \<and> length (op_results x) = 1 \<and>
        is_integer_type (map_of (types ! i) (hd (op_operands x))) \<and> integer_sty (snd (hd (op_results x))))"

definition describe_input :: "string list \<Rightarrow> nat list \<Rightarrow> op list list \<Rightarrow> nat \<times> op \<Rightarrow> string" where
  "describe_input ids sizes rest input =
     (case input of (i, x) \<Rightarrow>
        ids ! i @ ''='' @ op_name x @ ''@'' @ to_string (sizes ! i - length (rest ! i)) @
        (case op_get as_string x ''callee'' of None \<Rightarrow> '''' | Some c \<Rightarrow> '':'' @ c))"

fun join_comma :: "string list \<Rightarrow> string" where
  "join_comma [] = ''''"
| "join_comma [x] = x"
| "join_comma (x # xs) = x @ '', '' @ join_comma xs"

definition match_source ::
  "nat option list \<Rightarrow> op observations \<Rightarrow> nat option list \<times> nat \<Rightarrow> (nat option list \<times> nat) option \<Rightarrow>
   (nat option list \<times> nat) option expected" where
  "match_source g casts candidate found =
     (case candidate of (tuple, v) \<Rightarrow>
        if list_ex (\<lambda>(i, x). tuple ! i \<noteq> Some (hd (op_operands x))) casts \<or>
           list_ex (\<lambda>i. g ! i \<noteq> None \<and> tuple ! i = None) [0..<length g] then Inr found
        else if found \<noteq> None then Inl ''ambiguous optional-cast source correspondence''
        else Inr (Some candidate))"

text \<open>Per target of the group: the original value, its type and the opcode that leads to it.\<close>

definition cast_case ::
  "(nat \<times> sty) list list \<Rightarrow> op observations \<Rightarrow> nat option list \<Rightarrow> nat \<Rightarrow> nat \<times> nat \<times> sty \<times> attr" where
  "cast_case types casts tuple i =
     (case map_of casts i of
        Some x \<Rightarrow>
          (i, fst (hd (op_results x)), snd (hd (op_results x)), StringA (''native_'' @ the (op_get as_string x ''opcode'')))
      | None \<Rightarrow> (i, the (tuple ! i), the (map_of (types ! i) (the (tuple ! i))), StringA ''native_zext''))"

definition merge_cast ::
  "string list \<Rightarrow> (nat \<times> sty) list list \<Rightarrow> nat option list \<Rightarrow> op observations \<Rightarrow> merger \<Rightarrow> (op \<times> merger) expected" where
  "merge_cast ids types g casts m =
     bindE (foldE (match_source g casts) (mg_values m) None) (\<lambda>found.
     case found of
       None \<Rightarrow> Inl ''optional cast lacks shared source evidence''
     | Some (tuple, v) \<Rightarrow>
         let cases = map (cast_case types casts tuple) (filter (\<lambda>i. g ! i \<noteq> None) [0..<length g]) in
         bindE (typed (merge_type ids (map (\<lambda>(i, o', t, a). (i, t)) cases)) m) (\<lambda>(t, m).
         case new_value (length ids) (map (\<lambda>(i, o', t, a). (i, o')) cases) m of (r, m) \<Rightarrow>
         Inr (Op ''sela.cast'' [(''opcode'', choice ids (map (\<lambda>(i, o', t, a). (i, a)) cases))] [v] [(r, t)] [] [] True, m)))"

lemma next_input_mem: "(i, x) \<in> set (next_input g rest) \<Longrightarrow> i < length rest \<and> rest ! i \<noteq> []"
  by (auto simp: next_input_def map_filter_def in_set_enumerate_eq split: if_splits)

lemma advance_less:
  assumes "i \<in> set targets" "i < length rest" "rest ! i \<noteq> []"
  shows "sum_list (map length (advance targets rest)) < sum_list (map length rest)"
proof -
  have le: "sum_list (map length (map (\<lambda>(i, xs). if i \<in> A then tl xs else xs) (List.enumerate k zs))) \<le> sum_list (map length zs)"
    for A k and zs :: "op list list"
    by (induction zs arbitrary: k) (fastforce intro: add_mono)+
  have "sum_list (map length (map (\<lambda>(i, xs). if i \<in> A then tl xs else xs) (List.enumerate k zs))) < sum_list (map length zs)"
    if "k + j \<in> A" "j < length zs" "zs ! j \<noteq> []" for A j k and zs :: "op list list"
    using that
  proof (induction zs arbitrary: k j)
    case (Cons z zs)
    show ?case
    proof (cases j)
      case 0
      with Cons.prems le [of A "Suc k" zs] show ?thesis by (cases z) auto
    next
      case (Suc j')
      with Cons.prems Cons.IH [of "Suc k" j'] show ?thesis by (auto intro: add_le_less_mono)
    qed
  qed simp
  from this [of 0 i "set targets" rest] assms show ?thesis by (simp add: advance_def)
qed

lemma advance_input_less:
  assumes "xs \<noteq> []" "set xs \<subseteq> set (next_input g rest)"
  shows "sum_list (map length (advance (map fst xs) rest)) < sum_list (map length rest)"
proof -
  obtain i x where "(i, x) \<in> set xs" using assms(1) by (cases xs) auto
  with assms(2) next_input_mem show ?thesis by (intro advance_less [of i]) force+
qed

text \<open>The instructions of a group, taken together while all targets have the same next one.\<close>

function merge_instructions ::
  "string list \<Rightarrow> (nat \<times> sty) list list \<Rightarrow> nat option list \<Rightarrow> nat list \<Rightarrow> op list list \<Rightarrow> merger \<Rightarrow> (op list \<times> merger) expected" where
  "merge_instructions ids types g sizes rest m =
     (let input = next_input g rest in
      if input = [] then Inr ([], m)
      else if same_input g rest then
        bindE (operation ids input m) (\<lambda>(x, m).
        bindE (merge_instructions ids types g sizes (advance (map fst input) rest) m) (\<lambda>(xs, m). Inr (x # xs, m)))
      else
        let casts = filter (optional_cast types) input in
        if casts = [] then
          Inl (''instruction sequences need additional local semantic normalization ('' @
               join_comma (map (describe_input ids sizes rest) input) @ '')'')
        else
          bindE (merge_cast ids types g casts m) (\<lambda>(x, m).
          bindE (merge_instructions ids types g sizes (advance (map fst casts) rest) m) (\<lambda>(xs, m). Inr (x # xs, m))))"
  by pat_completeness auto

termination
  by (relation "measure (\<lambda>(ids, types, g, sizes, rest, m). sum_list (map length rest))") (auto intro!: advance_input_less)

declare merge_instructions.simps [simp del]

text \<open>The block of a group in the output: its arguments, with the values they stand for.\<close>

definition source_block :: "op list \<Rightarrow> nat \<Rightarrow> nat \<Rightarrow> block" where
  "source_block functions' i b = the (List.find (\<lambda>x. block_id x = b) (function_region (functions' ! i)))"

definition group_sources :: "op list \<Rightarrow> nat option list \<Rightarrow> block observations" where
  "group_sources functions' g =
     List.map_filter (\<lambda>(i, b). map_option (\<lambda>b. (i, source_block functions' i b)) b) (List.enumerate 0 g)"

definition merge_argument ::
  "string list \<Rightarrow> block observations \<Rightarrow> nat \<Rightarrow> (nat \<times> sty \<times> bool) list \<times> merger \<Rightarrow>
   ((nat \<times> sty \<times> bool) list \<times> merger) expected" where
  "merge_argument ids sources a st =
     (case st of (args, m) \<Rightarrow>
        bindE (typed (merge_type ids (map (\<lambda>(i, b). (i, fst (snd (block_args b ! a)))) sources)) m) (\<lambda>(t, m).
        case new_value (length ids) (map (\<lambda>(i, b). (i, fst (block_args b ! a))) sources) m of (v, m) \<Rightarrow>
        Inr (args @ [(v, t, True)], m)))"

definition merge_header ::
  "string list \<Rightarrow> op list \<Rightarrow> nat \<times> nat option list \<Rightarrow> (attr \<times> (nat \<times> sty \<times> bool) list) list \<times> merger \<Rightarrow>
   ((attr \<times> (nat \<times> sty \<times> bool) list) list \<times> merger) expected" where
  "merge_header ids functions' p st =
     (case (p, st) of ((k, g), (headers, m)) \<Rightarrow>
        let sources = group_sources functions' g;
            m = m\<lparr>mg_blocks := map (\<lambda>(i, table). case g ! i of None \<Rightarrow> table | Some b \<Rightarrow> (b, k) # table)
                                 (List.enumerate 0 (mg_blocks m))\<rparr> in
        if list_ex (\<lambda>(i, b). length (block_args b) \<noteq> length (block_args (snd (hd sources)))) sources
        then Inl ''block argument arities differ''
        else
          bindE (foldE (merge_argument ids sources) [0..<(if sources = [] then 0 else length (block_args (snd (hd sources))))] ([], m))
            (\<lambda>(args, m).
          Inr (headers @ [(targetSet (map (\<lambda>(i, b). ids ! i) sources), args)], m)))"

definition merge_body ::
  "string list \<Rightarrow> op list \<Rightarrow> nat \<times> nat option list \<times> attr \<times> (nat \<times> sty \<times> bool) list \<Rightarrow> block list \<times> merger \<Rightarrow>
   (block list \<times> merger) expected" where
  "merge_body ids functions' p st =
     (case (p, st) of ((k, g, d, args), (blocks, m)) \<Rightarrow>
        let rest = map (\<lambda>(i, b). case b of None \<Rightarrow> [] | Some b \<Rightarrow> block_ops (source_block functions' i b)) (List.enumerate 0 g) in
        bindE (merge_instructions ids (map (\<lambda>f. region_values (function_region f)) functions') g (map length rest) rest m) (\<lambda>(xs, m).
        Inr (blocks @ [Block k args xs], m)))"

text \<open>\<open>function\<close>: the functions are those of all targets, in the order of \<open>ids\<close>.\<close>

definition merge_function ::
  "(native_function \<Rightarrow> bool) \<Rightarrow> string list \<Rightarrow> op list \<Rightarrow> merger \<Rightarrow> (op \<times> merger) expected" where
  "merge_function verifies ids functions' m =
     (let input = List.enumerate 0 functions'; empty = (function_region (hd functions') = []) in
      bindE (typed (merge_attributes ids input [''block_domains'']) m) (\<lambda>(attrs, m).
      if list_ex (\<lambda>f. (function_region f = []) \<noteq> empty) functions'
      then Inl ''conditional function definition presence is not proved''
      else if empty then Inr (Op ''sela.func'' attrs [] [] [] [[]] True, m)
      else
        bindE (correspondence verifies ids input) (\<lambda>groups.
        let m = m\<lparr>mg_values := [], mg_blocks := replicate (length ids) []\<rparr> in
        bindE (foldE (merge_header ids functions') (List.enumerate 0 groups) ([], m)) (\<lambda>(headers, m).
        bindE (foldE (merge_body ids functions') (List.enumerate 0 (zip groups headers)) ([], m)) (\<lambda>(blocks, m).
        Inr (Op ''sela.func'' (dict_set ''block_domains'' (ArrayA (map fst headers)) attrs) [] [] [] [blocks] True, m))))))"

section \<open>Modules\<close>

text \<open>Identical flags are kept once, with the targets that have them.\<close>

definition merge_flag :: "string \<Rightarrow> attr \<Rightarrow> (dict \<times> string list) list \<Rightarrow> (dict \<times> string list) list expected" where
  "merge_flag target raw flags =
     (case as_dict raw of
        None \<Rightarrow> Inl ''invalid module flag observation''
      | Some d \<Rightarrow>
          let key = dict_erase ''targets'' d in
          if key \<in> fst ` set flags
          then Inr (map (\<lambda>(k, ts). if k = key then (k, ts @ [target]) else (k, ts)) flags)
          else Inr (flags @ [(key, [target])]))"

definition merge_flags :: "(string \<times> op) list \<Rightarrow> attr list expected" where
  "merge_flags modules =
     bindE (foldE (\<lambda>(target, x). foldE (merge_flag target)
              (case op_get as_array x ''sela.module_flags'' of None \<Rightarrow> [] | Some flags \<Rightarrow> flags)) modules []) (\<lambda>flags.
     Inr (map (\<lambda>(d, ts). DictA (dict_set ''targets'' (targetSet ts) d)) flags))"

definition add_inventory :: "op \<Rightarrow> (string, op) smap \<Rightarrow> (string, op) smap expected" where
  "add_inventory x inventory =
     (case op_get as_string x ''id'' of
        None \<Rightarrow> Inl ''missing or duplicate semantic definition identity''
      | Some i \<Rightarrow>
          if smap_at inventory i \<noteq> None then Inl ''missing or duplicate semantic definition identity''
          else Inr (smap_put i x inventory))"

definition take_definition :: "string \<Rightarrow> string \<Rightarrow> (string, op) smap \<Rightarrow> (op \<times> (string, op) smap) expected" where
  "take_definition name i inventory =
     (case smap_at inventory i of
        None \<Rightarrow> Inl ''semantic definition inventories do not correspond''
      | Some x \<Rightarrow>
          if op_name x \<noteq> name then Inl ''semantic definition inventories do not correspond''
          else Inr (x, filter (\<lambda>p. fst p \<noteq> i) inventory))"

definition merge_definition ::
  "(native_function \<Rightarrow> bool) \<Rightarrow> string list \<Rightarrow> op \<Rightarrow> op list \<times> (string, op) smap list \<times> merger \<Rightarrow>
   (op list \<times> (string, op) smap list \<times> merger) expected" where
  "merge_definition verifies ids x st =
     (case st of (body, inventories, m) \<Rightarrow>
        let i = the (op_get as_string x ''id'') in
        bindE (mapE (take_definition (op_name x) i) inventories) (\<lambda>taken.
        let input = map fst taken in
        bindE (if op_name x = ''sela.func'' then
                 (case merge_function verifies ids input m of Inl e \<Rightarrow> Inl (i @ '': '' @ e) | Inr r \<Rightarrow> Inr r)
               else
                 bindE (typed (merge_attributes ids (List.enumerate 0 input) []) m) (\<lambda>(attrs, m).
                 Inr (Op (op_name x) attrs [] [] [] [] True, m))) (\<lambda>(y, m).
        Inr (body @ [y], map snd taken, m))))"

definition merged_attrs :: "string list \<Rightarrow> attr list \<Rightarrow> dict" where
  "merged_attrs ids flags =
     dict_set ''sela.module_flags'' (ArrayA flags)
       (dict_set ''sela.targets'' (targetSet ids) (dict_set ''sela.schema'' (IntegerA 32 1) []))"

definition merge_modules :: "(native_function \<Rightarrow> bool) \<Rightarrow> string list \<Rightarrow> op list \<Rightarrow> (op \<times> merger) expected" where
  "merge_modules verifies ids modules =
     bindE (merge_flags (zip ids modules)) (\<lambda>flags.
     bindE (mapE (\<lambda>x. foldE add_inventory (body_ops x) []) modules) (\<lambda>inventories.
     bindE (foldE (merge_definition verifies ids) (body_ops (hd modules))
              ([], inventories,
               \<lparr>mg_ids = \<lparr>mi_maps = replicate (length ids) [], mi_next = 0\<rparr>, mg_values = [],
                mg_blocks = replicate (length ids) [], mg_fresh = 0\<rparr>)) (\<lambda>(body, inventories, m).
     case List.find (\<lambda>(i, inventory). inventory \<noteq> []) (zip ids inventories) of
       Some (i, inventory) \<Rightarrow> Inl (''unmatched semantic definition for '' @ i @ '': '' @ fst (hd inventory))
     | None \<Rightarrow> Inr (module_op (merged_attrs ids flags) body, m))))"

text \<open>A \<open>CommonModule\<close>: the module and its storage identities.\<close>

definition mergeCommonModules ::
  "(native_function \<Rightarrow> bool) \<Rightarrow> (op \<Rightarrow> bool) \<Rightarrow> op list \<Rightarrow> string list \<Rightarrow> (op \<times> (string, string) smap list) expected" where
  "mergeCommonModules verifies verify modules ids =
     (if modules = [] \<or> length modules \<noteq> length ids then Inl ''invalid observation inventory''
      else
        bindE (merge_modules verifies ids modules) (\<lambda>(x, m).
        if verify x then Inr (x, mi_maps (mg_ids m)) else Inl ''factored shared graph failed structural verification''))"

section \<open>Scoped factoring\<close>

text \<open>
  The definitions at one position, by their printed text, with the targets that have them. All modules are in
  one MLIR context here.
\<close>

definition scope_definition ::
  "(op \<Rightarrow> string) \<Rightarrow> nat \<Rightarrow> string \<times> op list \<Rightarrow> (string \<times> op \<times> string list) list \<Rightarrow> (string \<times> op \<times> string list) list" where
  "scope_definition print k input groups =
     (case input of (target, definitions) \<Rightarrow>
        if length definitions \<le> k then groups
        else
          let x = definitions ! k in
          if print x \<in> fst ` set groups
          then map (\<lambda>(key, y, ts). if key = print x then (key, y, ts @ [target]) else (key, y, ts)) groups
          else groups @ [(print x, x, [target])])"

definition scoped_copy :: "string list \<Rightarrow> string \<times> op \<times> string list \<Rightarrow> op" where
  "scoped_copy ids g =
     (case g of (key, x, ts) \<Rightarrow>
        if length ts \<noteq> length ids then set_attrs (dict_set ''targets'' (targetSet ts) (op_attrs x)) x else x)"

definition factorScopedModules ::
  "(op \<Rightarrow> string) \<Rightarrow> op list \<Rightarrow> string list \<Rightarrow> (op \<times> (string, string) smap list) expected" where
  "factorScopedModules print modules ids =
     (if modules = [] \<or> length modules \<noteq> length ids then Inl ''invalid scoped observation inventory''
      else
        let definitions = map body_ops modules;
            flags = concat (map (\<lambda>x. case op_get as_array x ''sela.module_flags'' of None \<Rightarrow> [] | Some fs \<Rightarrow> fs) modules);
            count = fold (\<lambda>xs. max (length xs)) definitions 0 in
        Inr (module_op (merged_attrs ids flags)
               (concat (map (\<lambda>k. map (scoped_copy ids) (fold (scope_definition print k) (zip ids definitions) [])) [0..<count])), []))"

end
