(* ===== verification/Common_Types_Facts.thy ===== *)
theory Common_Types_Facts
  imports Common_Types
begin

text \<open>
  Merged types and attributes stand for what was observed: specialized to a target they are that target's
  observation, up to the shared names of its storage identities, and those names are a bijection per target.
\<close>

section \<open>Storage identities\<close>

definition identities_ok :: "nat \<Rightarrow> identities \<Rightarrow> bool" where
  "identities_ok n s \<longleftrightarrow> length (mi_maps s) = n \<and>
     (\<forall>m \<in> set (mi_maps s). smap_wf m \<and> (\<forall>l. smap_at m l \<noteq> Some []) \<and>
        (\<forall>a b c. smap_at m a = Some c \<and> smap_at m b = Some c \<longrightarrow> a = b))"

definition extends_identities :: "identities \<Rightarrow> identities \<Rightarrow> bool" where
  "extends_identities s s' \<longleftrightarrow>
     (\<forall>i < length (mi_maps s). \<forall>l c. known_identity s i l = Some c \<longrightarrow> known_identity s' i l = Some c) \<and>
     length (mi_maps s') = length (mi_maps s)"

definition renamed :: "identities \<Rightarrow> nat \<Rightarrow> string \<Rightarrow> string \<Rightarrow> bool" where
  "renamed s i l c \<longleftrightarrow> (l = [] \<and> c = []) \<or> (l \<noteq> [] \<and> i < length (mi_maps s) \<and> known_identity s i l = Some c)"

lemma identities_refl [simp]: "extends_identities s s"
  by (simp add: extends_identities_def)

lemma identities_trans: "extends_identities s t \<Longrightarrow> extends_identities t u \<Longrightarrow> extends_identities s u"
  by (simp add: extends_identities_def)

lemma renamed_extends: "renamed s i l c \<Longrightarrow> extends_identities s s' \<Longrightarrow> renamed s' i l c"
  by (auto simp: renamed_def extends_identities_def)

lemma find_common_result:
  "foldE (find_common anonymous s) obs c0 = Inr c \<Longrightarrow>
   (\<forall>x \<in> set obs. \<forall>d. known_identity s (fst x) (local_identity (snd x)) = Some d \<longrightarrow> d \<noteq> []) \<Longrightarrow>
   (c0 \<noteq> [] \<longrightarrow> c = c0) \<and>
   (\<forall>x \<in> set obs. (local_identity (snd x) = []) = anonymous \<and>
      (\<forall>d. known_identity s (fst x) (local_identity (snd x)) = Some d \<longrightarrow> c = d))"
proof (induction obs arbitrary: c0)
  case (Cons x obs)
  then obtain c1 where c: "find_common anonymous s x c0 = Inr c1" "foldE (find_common anonymous s) obs c1 = Inr c"
    by (auto simp: bindE_Inr_iff)
  from Cons.IH [OF c(2)] Cons.prems(2) have IH: "c1 \<noteq> [] \<longrightarrow> c = c1"
    "\<forall>x \<in> set obs. (local_identity (snd x) = []) = anonymous \<and>
      (\<forall>d. known_identity s (fst x) (local_identity (snd x)) = Some d \<longrightarrow> c = d)" by auto
  from c(1) Cons.prems(2) IH show ?case
    by (auto simp: find_common_def Let_def split: option.splits if_splits)
qed simp

lemma claim_common_step:
  assumes "claim_common c x s = Inr s'" "identities_ok n s" "fst x < n" "c \<noteq> []"
    and "known_identity s (fst x) (local_identity (snd x)) \<in> {None, Some c}"
  shows "identities_ok n s'" "extends_identities s s'"
    "known_identity s' i l = (if i = fst x \<and> l = local_identity (snd x) then Some c else known_identity s i l)"
proof -
  let ?l = "local_identity (snd x)" and ?m = "mi_maps s ! fst x"
  from assms(1) have s': "s' = s\<lparr>mi_maps := (mi_maps s)[fst x := smap_put ?l c ?m]\<rparr>"
    and new: "\<not> (\<exists>p \<in> set ?m. snd p = c \<and> fst p \<noteq> ?l)"
    by (auto simp: claim_common_def Let_def list_ex_iff split: if_splits)
  from assms(2,3) have len: "fst x < length (mi_maps s)" and wf: "smap_wf ?m" by (auto simp: identities_ok_def)
  from assms(2,3) have inj: "smap_at ?m a = Some d \<and> smap_at ?m b = Some d \<longrightarrow> a = b" and ne: "smap_at ?m a \<noteq> Some []" for a b d
    using nth_mem [OF len] unfolding identities_ok_def by blast+
  have at: "smap_at (smap_put ?l c ?m) k = (if k = ?l then Some c else smap_at ?m k)" for k
    by (simp add: smap_at_put [OF wf])
  show known: "known_identity s' i l = (if i = fst x \<and> l = ?l then Some c else known_identity s i l)" for i l
    using len at by (auto simp: known_identity_def s' nth_list_update)
  show "extends_identities s s'" using assms(5) known by (auto simp: extends_identities_def s')
  have "smap_at ?m a = Some c \<Longrightarrow> a = ?l" for a using new map_of_SomeD [of ?m a c] by auto
  then have inj': "smap_at (smap_put ?l c ?m) a = Some d \<and> smap_at (smap_put ?l c ?m) b = Some d \<longrightarrow> a = b" for a b d
    using inj [of a d b] by (auto simp: at split: if_splits)
  have "\<forall>m \<in> set (mi_maps s'). m = smap_put ?l c ?m \<or> m \<in> set (mi_maps s)"
    using set_update_subset_insert [of "mi_maps s" "fst x" "smap_put ?l c ?m"] by (auto simp: s')
  moreover have "smap_at (smap_put ?l c ?m) k \<noteq> Some []" for k using at ne [of k] assms(4) by auto
  ultimately show "identities_ok n s'"
    using assms(2) smap_put_wf [OF wf] inj' unfolding identities_ok_def by (auto simp: s')
qed

lemma claim_commons:
  assumes "foldE (claim_common c) obs s = Inr s'" "identities_ok n s" "c \<noteq> []" "distinct (map fst obs)"
    and "\<forall>x \<in> set obs. fst x < n \<and> local_identity (snd x) \<noteq> [] \<and>
      known_identity s (fst x) (local_identity (snd x)) \<in> {None, Some c}"
  shows "identities_ok n s' \<and> extends_identities s s' \<and> (\<forall>x \<in> set obs. renamed s' (fst x) (local_identity (snd x)) c)"
  using assms
proof (induction obs arbitrary: s)
  case (Cons x obs)
  then obtain u where u: "claim_common c x s = Inr u" "foldE (claim_common c) obs u = Inr s'" by (auto simp: bindE_Inr_iff)
  have x: "fst x < n" "local_identity (snd x) \<noteq> []" "known_identity s (fst x) (local_identity (snd x)) \<in> {None, Some c}"
    using Cons.prems(5) by auto
  note step = claim_common_step [OF u(1) Cons.prems(2) x(1) Cons.prems(3) x(3)]
  have "\<forall>y \<in> set obs. fst y < n \<and> local_identity (snd y) \<noteq> [] \<and>
      known_identity u (fst y) (local_identity (snd y)) \<in> {None, Some c}"
    using Cons.prems(5) step(3) by auto
  with Cons.IH [OF u(2) step(1) Cons.prems(3)] Cons.prems(4)
  have IH: "identities_ok n s'" "extends_identities u s'" "\<forall>y \<in> set obs. renamed s' (fst y) (local_identity (snd y)) c"
    by auto
  have "renamed u (fst x) (local_identity (snd x)) c"
    using step(1,3) x(1,2) by (simp add: renamed_def identities_ok_def)
  with IH renamed_extends identities_trans [OF step(2)] show ?case by auto
qed simp

lemma storageIdentity_ok:
  assumes "storageIdentity obs s = Inr (c, s')" "identities_ok n s" "obs \<noteq> []" "distinct (map fst obs)"
    "\<forall>x \<in> set obs. fst x < n"
  shows "identities_ok n s' \<and> extends_identities s s' \<and> (\<forall>x \<in> set obs. renamed s' (fst x) (local_identity (snd x)) c)"
proof -
  let ?anonymous = "local_identity (snd (hd obs)) = []"
  from assms(1) obtain c0 where c0: "foldE (find_common ?anonymous s) obs [] = Inr c0"
    by (auto simp: storageIdentity_def Let_def bindE_Inr_iff)
  have "\<forall>x \<in> set obs. \<forall>d. known_identity s (fst x) (local_identity (snd x)) = Some d \<longrightarrow> d \<noteq> []"
    using assms(2,5) nth_mem unfolding identities_ok_def known_identity_def by metis
  note found = find_common_result [OF c0 this]
  show ?thesis
  proof (cases ?anonymous)
    case True
    with assms(1) c0 have "c = []" "s' = s" by (auto simp: storageIdentity_def Let_def)
    with found True assms(2) show ?thesis by (auto simp: renamed_def)
  next
    case False
    let ?s = "if c0 = [] then s\<lparr>mi_next := mi_next s + 1\<rparr> else s"
    have same: "known_identity ?s i l = known_identity s i l" "mi_maps ?s = mi_maps s" for i l by (auto simp: known_identity_def)
    from assms(1) c0 False have c: "c \<noteq> []" "c0 \<noteq> [] \<Longrightarrow> c = c0" and claim: "foldE (claim_common c) obs ?s = Inr s'"
      by (auto simp: storageIdentity_def Let_def bindE_Inr_iff split: if_splits)
    have "\<forall>x \<in> set obs. fst x < n \<and> local_identity (snd x) \<noteq> [] \<and>
        known_identity ?s (fst x) (local_identity (snd x)) \<in> {None, Some c}"
    proof
      fix x assume x: "x \<in> set obs"
      with found False have "local_identity (snd x) \<noteq> []" "\<forall>d. known_identity s (fst x) (local_identity (snd x)) = Some d \<longrightarrow> c0 = d"
        by auto
      moreover have "\<forall>d. known_identity s (fst x) (local_identity (snd x)) = Some d \<longrightarrow> d \<noteq> []"
        using \<open>\<forall>x \<in> set obs. \<forall>d. known_identity s (fst x) (local_identity (snd x)) = Some d \<longrightarrow> d \<noteq> []\<close> x by blast
      ultimately show "fst x < n \<and> local_identity (snd x) \<noteq> [] \<and>
          known_identity ?s (fst x) (local_identity (snd x)) \<in> {None, Some c}"
        using assms(5) x c(2) unfolding same by (cases "known_identity s (fst x) (local_identity (snd x))") auto
    qed
    moreover have "identities_ok n ?s" using assms(2) by (auto simp: identities_ok_def)
    moreover have "extends_identities s ?s" by (simp add: extends_identities_def same)
    ultimately show ?thesis using claim_commons [OF claim _ c(1) assms(4)] identities_trans by blast
  qed
qed

section \<open>Shared types\<close>

text \<open>
  \<open>shared_type s i t u\<close>: \<open>u\<close> is the type \<open>t\<close> of target \<open>i\<close> with shared storage names. The alternatives of an
  overlap keep their local names where the targets disagree on how many there are.
\<close>

inductive shared_type :: "identities \<Rightarrow> nat \<Rightarrow> sty \<Rightarrow> sty \<Rightarrow> bool" for s i where
  shared_plain: "\<not> structural t \<Longrightarrow> shared_type s i t t"
| shared_array: "shared_type s i e e' \<Longrightarrow> shared_type s i (ArrayT e c) (ArrayT e' c)"
| shared_record: "renamed s i l c \<Longrightarrow> list_all2 (shared_type s i) fs fs' \<Longrightarrow> shared_type s i (RecordT l p fs) (RecordT c p fs')"
| shared_overlap: "renamed s i l c \<Longrightarrow> list_all2 (shared_type s i) as as' \<Longrightarrow> shared_type s i (OverlapT l as ds) (OverlapT c as' ds)"
| shared_kept: "renamed s i l c \<Longrightarrow> shared_type s i (OverlapT l as ds) (OverlapT c as ds)"
| shared_function: "list_all2 (shared_type s i) xs xs' \<Longrightarrow> list_all2 (shared_type s i) rs rs' \<Longrightarrow>
    shared_type s i (FunctionT xs rs) (FunctionT xs' rs')"

lemma shared_type_extends:
  "shared_type s i t u \<Longrightarrow> extends_identities s s' \<Longrightarrow> shared_type s' i t u"
proof (induction rule: shared_type.induct)
  case (shared_record l c fs fs' p)
  then show ?case by (intro shared_type.shared_record) (auto intro: renamed_extends elim: list_all2_mono)
next
  case (shared_overlap l c as as' ds)
  then show ?case by (intro shared_type.shared_overlap) (auto intro: renamed_extends elim: list_all2_mono)
next
  case (shared_function xs xs' rs rs')
  then show ?case by (intro shared_type.shared_function) (auto elim: list_all2_mono)
qed (auto intro: shared_type.intros renamed_extends)

section \<open>Loops over a state of identities\<close>

lemma mapS_identities:
  assumes "mapS f xs s = Inr (ys, s')" "identities_ok n s"
    and step: "\<And>x s y s'. x \<in> set xs \<Longrightarrow> identities_ok n s \<Longrightarrow> f x s = Inr (y, s') \<Longrightarrow>
      identities_ok n s' \<and> extends_identities s s' \<and> P x y s'"
    and mono: "\<And>x y s s'. P x y s \<Longrightarrow> extends_identities s s' \<Longrightarrow> P x y s'"
  shows "identities_ok n s' \<and> extends_identities s s' \<and> list_all2 (\<lambda>x y. P x y s') xs ys"
  using assms(1,2) step
proof (induction xs arbitrary: s ys)
  case (Cons x xs)
  from Cons.prems(1) obtain y u zs where u: "f x s = Inr (y, u)" "mapS f xs u = Inr (zs, s')" "ys = y # zs"
    by (auto simp: bindE_Inr_iff split: prod.splits)
  have x: "identities_ok n u" "extends_identities s u" "P x y u" using Cons.prems(3) [OF _ Cons.prems(2) u(1)] by auto
  have IH: "identities_ok n s'" "extends_identities u s'" "list_all2 (\<lambda>x y. P x y s') xs zs"
    using Cons.IH [OF u(2) x(1)] Cons.prems(3) by auto
  with x u(3) mono identities_trans show ?case by auto
qed simp

section \<open>Choices\<close>

text \<open>The observations the merger is given: one per target, of registered targets that differ.\<close>

definition observed :: "string list \<Rightarrow> (nat \<times> 'a) list \<Rightarrow> bool" where
  "observed ids obs \<longleftrightarrow> obs \<noteq> [] \<and> distinct ids \<and> distinct (map fst obs) \<and> (\<forall>x \<in> set obs. fst x < length ids)"

lemma observed_map: "observed ids obs \<Longrightarrow> observed ids (map (\<lambda>(i, v). (i, f v)) obs)"
  by (auto simp: observed_def comp_def case_prod_unfold)

lemma choice_select:
  assumes "observed ids obs" "(i, v) \<in> set obs" "\<not> is_choice v"
  shows "selectAttribute (Some (choice ids obs)) (ids ! i) = Inr v"
proof -
  let ?obs = "map (\<lambda>(i, v). (ids ! i, v)) obs"
  have "inj_on ((!) ids) (fst ` set obs)"
    using assms(1) by (auto simp: observed_def inj_on_def nth_eq_iff_index_eq)
  moreover have "map fst ?obs = map ((!) ids) (map fst obs)" by (simp add: comp_def case_prod_unfold)
  moreover have "distinct (map fst obs)" using assms(1) by (simp add: observed_def)
  ultimately have "distinct (map fst ?obs)" by (simp only: distinct_map [of "(!) ids"] set_map)
  moreover have "(ids ! i, v) \<in> set ?obs" using assms(2) by force
  ultimately have sel: "selectAttribute (targetChoice ?obs) (ids ! i) = Inr v" using assms(3) by (rule targetChoice_select)
  then obtain a where "targetChoice ?obs = Some a" by (cases "targetChoice ?obs") (auto simp: selectAttribute_def)
  with sel show ?thesis by (simp add: choice_def)
qed

lemma type_choice_specialize:
  assumes "observed ids obs" "(i, t) \<in> set obs" "ids ! i = target_id info"
  shows "specializeType (type_choice ids obs) info = specializeType t info"
proof -
  have "observed ids (map (\<lambda>(i, t). (i, TypeA t)) obs)" by (rule observed_map [OF assms(1)])
  moreover have "(i, TypeA t) \<in> set (map (\<lambda>(i, t). (i, TypeA t)) obs)" using assms(2) by force
  ultimately have "selectAttribute (Some (choice ids (map (\<lambda>(i, t). (i, TypeA t)) obs))) (target_id info) = Inr (TypeA t)"
    using choice_select assms(3) by fastforce
  then show ?thesis by (simp add: type_choice_def specializeType.simps [of "ChoiceT _"])
qed

section \<open>The parts of the observations\<close>

lemma part_observations_mem:
  "(i, u) \<in> set (part_observations obs k) \<longleftrightarrow> (\<exists>t. (i, t) \<in> set obs \<and> k < length (type_parts t) \<and> u = type_parts t ! k)"
  by (auto simp: part_observations_def)

lemma fold_max_ge: "(n :: nat) \<le> fold (\<lambda>x. max (g x)) xs n" and fold_max_mem: "x \<in> set xs \<Longrightarrow> g x \<le> fold (\<lambda>x. max (g x)) xs n"
proof -
  have start: "n \<le> fold (\<lambda>x. max (g x)) xs n" for xs and n :: nat
  proof (induction xs arbitrary: n)
    case (Cons y xs)
    have "n \<le> max (g y) n" by simp
    also have "\<dots> \<le> fold (\<lambda>x. max (g x)) xs (max (g y) n)" by (rule Cons.IH)
    finally show ?case by simp
  qed simp
  then show "n \<le> fold (\<lambda>x. max (g x)) xs n" .
  show "x \<in> set xs \<Longrightarrow> g x \<le> fold (\<lambda>x. max (g x)) xs n"
  proof (induction xs arbitrary: n)
    case (Cons y xs)
    then show ?case using start [of "max (g y) n" xs] by auto
  qed simp
qed

lemma part_count_fold: "part_count obs = fold (\<lambda>x. max (length (type_parts (snd x)))) obs 0"
  by (simp add: part_count_def case_prod_unfold)

lemma part_count_ge: "(i, t) \<in> set obs \<Longrightarrow> length (type_parts t) \<le> part_count obs"
  using fold_max_mem [of "(i, t)" obs "\<lambda>x. length (type_parts (snd x))" 0] by (simp add: part_count_fold)

lemma part_count_le: "(\<And>i t. (i, t) \<in> set obs \<Longrightarrow> length (type_parts t) \<le> m) \<Longrightarrow> part_count obs \<le> m"
proof -
  have "(\<forall>x \<in> set obs. length (type_parts (snd x)) \<le> m) \<Longrightarrow> n \<le> m \<Longrightarrow> fold (\<lambda>(i, t). max (length (type_parts t))) obs n \<le> m" for n
    by (induction obs arbitrary: n) (auto simp: case_prod_unfold)
  then show "(\<And>i t. (i, t) \<in> set obs \<Longrightarrow> length (type_parts t) \<le> m) \<Longrightarrow> part_count obs \<le> m"
    by (force simp: part_count_def)
qed

lemma part_count_same:
  assumes "obs \<noteq> []" "\<forall>x \<in> set obs. length (type_parts (snd x)) = length (type_parts (snd (hd obs)))"
  shows "part_count obs = length (type_parts (snd (hd obs)))"
proof (rule antisym)
  show "part_count obs \<le> length (type_parts (snd (hd obs)))" using assms(2) by (intro part_count_le) force
  have "(fst (hd obs), snd (hd obs)) \<in> set obs" using assms(1) by simp
  then show "length (type_parts (snd (hd obs))) \<le> part_count obs" by (rule part_count_ge)
qed

lemma observed_parts:
  assumes "observed ids obs" "k < part_count obs"
  shows "observed ids (part_observations obs k)"
proof -
  have "part_observations obs k \<noteq> []"
    using part_observations_size [OF assms(2)] part_count_le [of obs k] assms(2) part_observations_mem [of _ _ obs k]
    by (metis empty_iff empty_set leD leI)
  moreover have "map fst (part_observations obs k) = map fst (filter (\<lambda>(i, t). k < length (type_parts t)) obs)"
    by (simp add: part_observations_def comp_def case_prod_unfold)
  ultimately show ?thesis
    using assms(1) by (fastforce simp: observed_def part_observations_mem distinct_map_filter)
qed

section \<open>Merged types\<close>

text \<open>A type observed on its target is concrete there.\<close>

definition native_types :: "string list \<Rightarrow> sty observations \<Rightarrow> bool" where
  "native_types ids obs \<longleftrightarrow>
     (\<forall>(i, t) \<in> set obs. concrete_type (ids ! i) t \<and> (\<exists>info. targets_find (ids ! i) = Some info \<and> target_id info = ids ! i))"

definition stands_for :: "string list \<Rightarrow> sty observations \<Rightarrow> sty \<Rightarrow> identities \<Rightarrow> bool" where
  "stands_for ids obs t s \<longleftrightarrow>
     (\<forall>(i, u) \<in> set obs. \<forall>info. targets_find (ids ! i) = Some info \<longrightarrow>
        (\<exists>v. specializeType t info = Inr v \<and> shared_type s i u v))"

lemma stands_for_extends: "stands_for ids obs t s \<Longrightarrow> extends_identities s s' \<Longrightarrow> stands_for ids obs t s'"
  unfolding stands_for_def using shared_type_extends by fastforce

lemma concrete_parts:
  "concrete_type i t \<Longrightarrow> k < length (type_parts t) \<Longrightarrow> concrete_type i (type_parts t ! k)"
  by (cases t) (auto simp: list_all_length nth_append)

lemma native_parts: "native_types ids obs \<Longrightarrow> native_types ids (part_observations obs k)"
  by (force simp: native_types_def part_observations_mem concrete_parts)

lemma specializeType_record:
  "list_all2 (\<lambda>f g. specializeType f info = Inr g) fs gs \<Longrightarrow>
   specializeType (RecordT l p fs) info = Inr (RecordT l p gs)"
  by (simp add: specializeType.simps [of "RecordT _ _ _"] mapE_Inr_iff [symmetric])

lemma specializeType_function:
  "list_all2 (\<lambda>f g. specializeType f info = Inr g) xs ys \<Longrightarrow> list_all2 (\<lambda>f g. specializeType f info = Inr g) rs ss \<Longrightarrow>
   specializeType (FunctionT xs rs) info = Inr (FunctionT ys ss)"
  by (simp add: specializeType.simps [of "FunctionT _ _"] mapE_Inr_iff [symmetric])

lemma specializeType_overlap:
  assumes "list_all2 (\<lambda>f g. specializeType f info = Inr g) as bs" "as \<noteq> []" "target_id info \<in> set ids"
  shows "specializeType (OverlapT l as (map (\<lambda>_. targetSet ids) as)) info =
    Inr (OverlapT l bs (replicate (length bs) (targetSet [target_id info])))"
proof -
  let ?d = "targetSet ids"
  have "filter (\<lambda>(a, d). containsTarget (Some d) (target_id info)) (zip as (replicate (length as) ?d)) =
      zip as (replicate (length as) ?d)"
    by (rule zip_replicate_filter) (simp add: assms(3))
  moreover have "mapE (\<lambda>(a, d). specializeType a info) (zip as (replicate (length as) ?d)) = Inr bs"
    using assms(1) by (auto simp: mapE_Inr_iff list_all2_conv_all_nth)
  moreover have "bs \<noteq> []" using assms(1,2) by auto
  ultimately show ?thesis by (simp add: specializeType.simps [of "OverlapT _ _ _"] map_replicate_const)
qed

text \<open>The merged parts, specialized, are the parts of every observation.\<close>

lemma merged_parts:
  assumes "list_all2 (\<lambda>xs t. stands_for ids xs t s) (all_parts obs) ts" "(i, u) \<in> set obs" "targets_find (ids ! i) = Some info"
  shows "\<exists>vs. list_all2 (\<lambda>f g. specializeType f info = Inr g) (take (length (type_parts u)) ts) vs \<and>
    list_all2 (shared_type s i) (type_parts u) vs"
proof -
  have len: "length ts = part_count obs" using list_all2_lengthD [OF assms(1)] by (simp add: all_parts_def)
  have le: "length (type_parts u) \<le> length ts" using part_count_ge [OF assms(2)] len by simp
  have "\<exists>v. specializeType (ts ! k) info = Inr v \<and> shared_type s i (type_parts u ! k) v" if "k < length (type_parts u)" for k
  proof -
    have "stands_for ids (part_observations obs k) (ts ! k) s"
      using list_all2_nthD [OF assms(1), of k] that le len by (simp add: all_parts_def)
    moreover have "(i, type_parts u ! k) \<in> set (part_observations obs k)"
      using assms(2) that by (auto simp: part_observations_mem)
    ultimately show ?thesis using assms(3) by (force simp: stands_for_def)
  qed
  then obtain v where v: "\<And>k. k < length (type_parts u) \<Longrightarrow> specializeType (ts ! k) info = Inr (v k) \<and> shared_type s i (type_parts u ! k) (v k)"
    by metis
  show ?thesis
    using v le by (intro exI [of _ "map v [0..<length (type_parts u)]"]) (auto simp: list_all2_conv_all_nth)
qed

lemma registered_target:
  assumes "native_types ids obs" "(i, u) \<in> set obs" "targets_find (ids ! i) = Some info"
  shows "target_id info = ids ! i" "concrete_type (target_id info) u" "specializeType u info = Inr u"
proof -
  from assms show t: "target_id info = ids ! i" and c: "concrete_type (target_id info) u"
    by (auto simp: native_types_def)
  from c show "specializeType u info = Inr u" by (rule concrete_type_stable)
qed

text \<open>The choice of the observations, each changed in the same way.\<close>

lemma choice_stands_for:
  assumes "observed ids obs" "native_types ids obs"
    and "\<And>i u info. (i, u) \<in> set obs \<Longrightarrow> targets_find (ids ! i) = Some info \<Longrightarrow> target_id info = ids ! i \<Longrightarrow>
      \<exists>v. specializeType (f u) info = Inr v \<and> shared_type s i u v"
  shows "stands_for ids obs (type_choice ids (at_type f obs)) s"
  unfolding stands_for_def
proof clarify
  fix i u info assume u: "(i, u) \<in> set obs" "targets_find (ids ! i) = Some info"
  have t: "target_id info = ids ! i" by (rule registered_target [OF assms(2) u])
  have "observed ids (at_type f obs)" unfolding at_type_def by (rule observed_map [OF assms(1)])
  moreover have "(i, f u) \<in> set (at_type f obs)" using u(1) by (force simp: at_type_def)
  ultimately have "specializeType (type_choice ids (at_type f obs)) info = specializeType (f u) info"
    by (rule type_choice_specialize) (simp add: t)
  with assms(3) [OF u t] show "\<exists>v. specializeType (type_choice ids (at_type f obs)) info = Inr v \<and> shared_type s i u v" by simp
qed

lemma merge_scalar_ok:
  assumes "observed ids obs" "native_types ids obs" "\<forall>x \<in> set obs. integer_sty (snd x)"
  shows "stands_for ids obs (type_choice ids obs) s"
    "list_all (\<lambda>(i, t). t = IntegerT (target_word ids i)) obs \<Longrightarrow> stands_for ids obs WordT s"
proof -
  have plain: "shared_type s i u u" if "(i, u) \<in> set obs" for i u
    using assms(3) that by (cases u) (auto intro: shared_plain)
  have "stands_for ids obs (type_choice ids (at_type (\<lambda>t. t) obs)) s"
    by (rule choice_stands_for [OF assms(1,2)]) (use registered_target [OF assms(2)] plain in blast)
  then show "stands_for ids obs (type_choice ids obs) s" by (simp add: at_type_def)
  show "stands_for ids obs WordT s" if "list_all (\<lambda>(i, t). t = IntegerT (target_word ids i)) obs"
    unfolding stands_for_def
  proof clarify
    fix i u info assume u: "(i, u) \<in> set obs" "targets_find (ids ! i) = Some info"
    with that have "u = IntegerT (wordBits info)" by (auto simp: list_all_iff target_word_def)
    with plain [OF u(1)] show "\<exists>v. specializeType WordT info = Inr v \<and> shared_type s i u v"
      by (simp add: specializeType.simps [of WordT])
  qed
qed

lemma merge_array_ok:
  assumes "observed ids obs" "native_types ids obs" "\<forall>x \<in> set obs. is_array (snd x)"
    "stands_for ids (at_type array_element obs) e s"
  shows "stands_for ids obs (ArrayT e (choice ids (map (\<lambda>(i, t). (i, array_count t)) obs))) s"
  unfolding stands_for_def
proof clarify
  fix i u info assume u: "(i, u) \<in> set obs" "targets_find (ids ! i) = Some info"
  note t = registered_target [OF assms(2) u]
  from u(1) assms(3) t(2) obtain d n where d: "u = ArrayT d (IntegerA 64 n)"
    by (cases u) (auto split: attr.splits)
  have "(i, d) \<in> set (at_type array_element obs)" using u(1) d by (force simp: at_type_def)
  with assms(4) u(2) obtain v where v: "specializeType e info = Inr v" "shared_type s i d v" by (force simp: stands_for_def)
  have "(i, IntegerA 64 n) \<in> set (map (\<lambda>(i, t). (i, array_count t)) obs)" using u(1) d by force
  then have "selectAttribute (Some (choice ids (map (\<lambda>(i, t). (i, array_count t)) obs))) (target_id info) = Inr (IntegerA 64 n)"
    unfolding t(1) by (intro choice_select observed_map assms(1)) simp_all
  then have "evaluateInteger (Some (choice ids (map (\<lambda>(i, t). (i, array_count t)) obs))) info = Inr n"
    by (simp add: evaluateInteger_def)
  with v d show "\<exists>v. specializeType (ArrayT e (choice ids (map (\<lambda>(i, t). (i, array_count t)) obs))) info = Inr v \<and>
      shared_type s i u v"
    by (auto simp: specializeType.simps [of "ArrayT _ _"] intro: shared_array)
qed

lemma merge_record_ok:
  assumes "observed ids obs" "native_types ids obs" "\<forall>x \<in> set obs. is_record (snd x)"
    "list_all2 (\<lambda>xs t. stands_for ids xs t s) (all_parts obs) gs"
    "\<forall>x \<in> set obs. renamed s (fst x) (local_identity (snd x)) c"
  shows "stands_for ids obs (type_choice ids (at_type (\<lambda>t. RecordT c (packed t) (take (length (type_parts t)) gs)) obs)) s"
    "list_all (\<lambda>x. packed (snd x) = p \<and> length (type_parts (snd x)) = length gs) obs \<Longrightarrow>
      stands_for ids obs (RecordT c p gs) s"
proof -
  have one: "\<exists>v. specializeType (RecordT c (packed u) (take (length (type_parts u)) gs)) info = Inr v \<and> shared_type s i u v"
    if u: "(i, u) \<in> set obs" "targets_find (ids ! i) = Some info" for i u info
  proof -
    from u(1) assms(3) obtain l q fs where r: "u = RecordT l q fs" by (cases u) auto
    from merged_parts [OF assms(4) u] obtain vs where
      vs: "list_all2 (\<lambda>f g. specializeType f info = Inr g) (take (length (type_parts u)) gs) vs" "list_all2 (shared_type s i) (type_parts u) vs"
      by blast
    from assms(5) u(1) r have "renamed s i l c" by auto
    with vs(2) r have "shared_type s i u (RecordT c q vs)" by (auto intro: shared_record)
    with specializeType_record [OF vs(1), of c "packed u"] r show ?thesis by auto
  qed
  show "stands_for ids obs (type_choice ids (at_type (\<lambda>t. RecordT c (packed t) (take (length (type_parts t)) gs)) obs)) s"
    by (rule choice_stands_for [OF assms(1,2)]) (use one in blast)
  assume same: "list_all (\<lambda>x. packed (snd x) = p \<and> length (type_parts (snd x)) = length gs) obs"
  show "stands_for ids obs (RecordT c p gs) s"
    unfolding stands_for_def using one same by (force simp: list_all_iff)
qed

lemma merge_function_ok:
  assumes "native_types ids obs" "\<forall>x \<in> set obs. is_function (snd x) \<and> arity (snd x) = (a, b)"
    "list_all2 (\<lambda>xs t. stands_for ids xs t s) (all_parts obs) ts"
  shows "stands_for ids obs (FunctionT (take a ts) (drop a ts)) s"
  unfolding stands_for_def
proof clarify
  fix i u info assume u: "(i, u) \<in> set obs" "targets_find (ids ! i) = Some info"
  from u(1) assms(2) obtain xs rs where f: "u = FunctionT xs rs" "length xs = a" "length rs = b" by (cases u) auto
  from merged_parts [OF assms(3) u] obtain vs where
    vs: "list_all2 (\<lambda>f g. specializeType f info = Inr g) (take (a + b) ts) vs" "list_all2 (shared_type s i) (xs @ rs) vs"
    by (auto simp: f)
  have "part_count obs \<le> a + b"
  proof (rule part_count_le)
    fix j t assume "(j, t) \<in> set obs"
    with assms(2) show "length (type_parts t) \<le> a + b" by (cases t) auto
  qed
  then have "length ts \<le> a + b" using list_all2_lengthD [OF assms(3)] by (simp add: all_parts_def)
  with vs(1) have sp: "list_all2 (\<lambda>f g. specializeType f info = Inr g) ts vs" by simp
  have split: "list_all2 P (take a ts) (take a vs)" "list_all2 P (drop a ts) (drop a vs)" if "list_all2 P ts vs" for P
    using that by (simp_all add: list_all2_takeI list_all2_dropI)
  from vs(2) have "list_all2 (shared_type s i) xs (take a vs)" "list_all2 (shared_type s i) rs (drop a vs)"
    using f(2) by (auto simp: list_all2_append1)
  with specializeType_function [OF split [OF sp]] f(1)
  show "\<exists>v. specializeType (FunctionT (take a ts) (drop a ts)) info = Inr v \<and> shared_type s i u v"
    by (auto intro: shared_function)
qed

lemma merge_overlap_ok:
  assumes "observed ids obs" "native_types ids obs" "\<forall>x \<in> set obs. is_overlap (snd x)"
    "\<forall>x \<in> set obs. renamed s (fst x) (local_identity (snd x)) c"
  shows "stands_for ids obs (type_choice ids (at_type (\<lambda>t. OverlapT c (type_parts t) (overlap_domains t)) obs)) s"
    "list_all2 (\<lambda>xs t. stands_for ids xs t s) (all_parts obs) as \<Longrightarrow>
      \<forall>x \<in> set obs. length (type_parts (snd x)) = length as \<Longrightarrow>
      stands_for ids obs (OverlapT c as (map (\<lambda>_. targetSet (map (\<lambda>x. ids ! fst x) obs)) as)) s"
proof -
  have one: "u = OverlapT (local_identity u) (type_parts u) (overlap_domains u) \<and> renamed s i (local_identity u) c \<and> type_parts u \<noteq> [] \<and>
      overlap_domains u = replicate (length (type_parts u)) (targetSet [target_id info])"
    if u: "(i, u) \<in> set obs" "targets_find (ids ! i) = Some info" for i u info
    using assms(3,4) u registered_target [OF assms(2) u] by (cases u) auto
  show "stands_for ids obs (type_choice ids (at_type (\<lambda>t. OverlapT c (type_parts t) (overlap_domains t)) obs)) s"
  proof (rule choice_stands_for [OF assms(1,2)])
    fix i u info assume u: "(i, u) \<in> set obs" "targets_find (ids ! i) = Some info" "target_id info = ids ! i"
    note o1 = one [OF u(1,2)]
    have "concrete_type (target_id info) (OverlapT c (type_parts u) (overlap_domains u))"
      using registered_target(2) [OF assms(2) u(1,2)] o1 by (metis concrete_type.simps(5))
    then have "specializeType (OverlapT c (type_parts u) (overlap_domains u)) info = Inr (OverlapT c (type_parts u) (overlap_domains u))"
      by (rule concrete_type_stable)
    moreover have "shared_type s i u (OverlapT c (type_parts u) (overlap_domains u))" using o1 shared_kept by metis
    ultimately show "\<exists>v. specializeType (OverlapT c (type_parts u) (overlap_domains u)) info = Inr v \<and> shared_type s i u v" by blast
  qed
  assume as: "list_all2 (\<lambda>xs t. stands_for ids xs t s) (all_parts obs) as" "\<forall>x \<in> set obs. length (type_parts (snd x)) = length as"
  show "stands_for ids obs (OverlapT c as (map (\<lambda>_. targetSet (map (\<lambda>x. ids ! fst x) obs)) as)) s"
    unfolding stands_for_def
  proof clarify
    fix i u info assume u: "(i, u) \<in> set obs" "targets_find (ids ! i) = Some info"
    note o1 = one [OF u]
    from merged_parts [OF as(1) u] as(2) u(1) obtain vs where
      vs: "list_all2 (\<lambda>f g. specializeType f info = Inr g) as vs" "list_all2 (shared_type s i) (type_parts u) vs" by auto
    have "as \<noteq> []" using o1 as(2) u(1) by auto
    moreover have "target_id info \<in> set (map (\<lambda>x. ids ! fst x) obs)"
      using registered_target(1) [OF assms(2) u] u(1) by force
    ultimately have "specializeType (OverlapT c as (map (\<lambda>_. targetSet (map (\<lambda>x. ids ! fst x) obs)) as)) info =
        Inr (OverlapT c vs (replicate (length vs) (targetSet [target_id info])))"
      by (intro specializeType_overlap vs(1))
    moreover have "shared_type s i u (OverlapT c vs (replicate (length vs) (targetSet [target_id info])))"
      using o1 vs(2) list_all2_lengthD [OF vs(2)] shared_overlap by metis
    ultimately show "\<exists>v. specializeType (OverlapT c as (map (\<lambda>_. targetSet (map (\<lambda>x. ids ! fst x) obs)) as)) info = Inr v \<and>
        shared_type s i u v" by blast
  qed
qed

text \<open>The merged type stands for every observation.\<close>

lemma merge_type_ok:
  "merge_type ids obs s = Inr (t, s') \<Longrightarrow> observed ids obs \<Longrightarrow> native_types ids obs \<Longrightarrow> identities_ok (length ids) s \<Longrightarrow>
   identities_ok (length ids) s' \<and> extends_identities s s' \<and> stands_for ids obs t s'"
proof (induction "observed_size obs" arbitrary: obs s t s' rule: less_induct)
  case less
  note obs = less.prems(2) and native = less.prems(3) and ok = less.prems(4)
  let ?first = "snd (hd obs)"
  have ne: "obs \<noteq> []" using obs by (simp add: observed_def)
  have idx: "distinct (map fst obs)" "\<forall>x \<in> set obs. fst x < length ids" using obs by (auto simp: observed_def)
  note body = less.prems(1) [unfolded merge_type.simps [of ids obs] Let_def]
  have parts_ok: "identities_ok (length ids) s2 \<and> extends_identities s1 s2 \<and>
      list_all2 (\<lambda>xs t. stands_for ids xs t s2) (all_parts obs) ts"
    if "mapS (merge_type ids) (all_parts obs) s1 = Inr (ts, s2)" "identities_ok (length ids) s1" for s1 s2 ts
  proof (rule mapS_identities [OF that])
    fix x s y s' assume x: "x \<in> set (all_parts obs)" "identities_ok (length ids) s" "merge_type ids x s = Inr (y, s')"
    then obtain k where k: "x = part_observations obs k" "k < part_count obs" by (auto simp: all_parts_def)
    show "identities_ok (length ids) s' \<and> extends_identities s s' \<and> stands_for ids x y s'"
      using less.hyps [OF _ x(3)] x(2) k part_observations_size observed_parts [OF obs] native_parts [OF native] by simp
  qed (rule stands_for_extends)
  consider (same) "\<not> structural ?first \<and> list_all (\<lambda>x. snd x = ?first) obs"
    | (scalar) "\<not> (\<not> structural ?first \<and> list_all (\<lambda>x. snd x = ?first) obs)" "list_all (\<lambda>x. integer_sty (snd x)) obs"
    | (array) "\<not> (\<not> structural ?first \<and> list_all (\<lambda>x. snd x = ?first) obs)" "\<not> list_all (\<lambda>x. integer_sty (snd x)) obs"
      "list_all (\<lambda>x. is_array (snd x)) obs"
    | (other) "\<not> (\<not> structural ?first \<and> list_all (\<lambda>x. snd x = ?first) obs)" "\<not> list_all (\<lambda>x. integer_sty (snd x)) obs"
      "\<not> list_all (\<lambda>x. is_array (snd x)) obs" by blast
  then show ?case
  proof cases
    case same
    with body ne have t: "t = ?first" "s' = s" by simp_all
    have "stands_for ids obs t s"
      unfolding stands_for_def
    proof clarify
      fix i u info assume u: "(i, u) \<in> set obs" "targets_find (ids ! i) = Some info"
      with same t have "u = t" "\<not> structural t" by (auto simp: list_all_iff)
      with registered_target(3) [OF native u] show "\<exists>v. specializeType t info = Inr v \<and> shared_type s i u v"
        by (auto intro: shared_plain)
    qed
    with t ok show ?thesis by simp
  next
    case scalar
    then have "\<forall>x \<in> set obs. integer_sty (snd x)" by (simp add: list_all_iff)
    from merge_scalar_ok [OF obs native this] scalar body ne ok show ?thesis by (auto split: if_splits)
  next
    case array
    then have arrays: "\<forall>x \<in> set obs. is_array (snd x)" by (simp add: list_all_iff)
    from body array ne obtain e where e: "merge_type ids (at_type array_element obs) s = Inr (e, s')"
      "t = ArrayT e (choice ids (map (\<lambda>(i, t). (i, array_count t)) obs))"
      by (simp add: bindE_Inr_iff split: prod.splits) blast
    have "observed_size (at_type array_element obs) < observed_size obs"
      using arrays ne
    proof (induction obs)
      case (Cons x obs)
      obtain i t where x: "x = (i, t)" by fastforce
      with Cons.prems have "size (array_element t) < size t" by (auto intro: size_array_element)
      with Cons x show ?case by (cases "obs = []") (auto simp: observed_size_def at_type_def)
    qed simp
    moreover have "observed ids (at_type array_element obs)" unfolding at_type_def by (rule observed_map [OF obs])
    moreover have "native_types ids (at_type array_element obs)"
    proof -
      have "concrete_type i (array_element u)" if "concrete_type i u" for i u using that by (cases u) auto
      with native show ?thesis by (force simp: native_types_def at_type_def)
    qed
    ultimately have "identities_ok (length ids) s' \<and> extends_identities s s' \<and> stands_for ids (at_type array_element obs) e s'"
      using less.hyps [OF _ e(1)] ok by blast
    with merge_array_ok [OF obs native arrays] e(2) show ?thesis by blast
  next
    case other
    consider (rec) "is_record ?first" | (callable) "is_function ?first" | (overlap) "is_overlap ?first"
      | (none) "\<not> is_record ?first" "\<not> is_function ?first" "\<not> is_overlap ?first" by blast
    then show ?thesis
    proof cases
      case rec
      from body ne other rec obtain c s1 gs where
        kinds: "\<not> list_ex (\<lambda>x. \<not> is_record (snd x)) obs" and
        c: "storageIdentity obs s = Inr (c, s1)" and gs: "mapS (merge_type ids) (all_parts obs) s1 = Inr (gs, s')" and
        t: "t = (if list_all (\<lambda>x. packed (snd x) = packed ?first \<and> length (type_parts (snd x)) = length (type_parts ?first)) obs
          then RecordT c (packed ?first) gs
          else type_choice ids (at_type (\<lambda>t. RecordT c (packed t) (take (length (type_parts t)) gs)) obs))"
        by (auto simp: bindE_Inr_iff split: if_splits)
      have records: "\<forall>x \<in> set obs. is_record (snd x)" using kinds by (simp add: list_ex_iff)
      note id = storageIdentity_ok [OF c ok ne idx]
      note ps = parts_ok [OF gs conjunct1 [OF id]]
      have names: "\<forall>x \<in> set obs. renamed s' (fst x) (local_identity (snd x)) c" using id ps renamed_extends by blast
      note merged = merge_record_ok [OF obs native records _ names, of gs]
      have "stands_for ids obs t s'"
      proof (cases "list_all (\<lambda>x. packed (snd x) = packed ?first \<and> length (type_parts (snd x)) = length (type_parts ?first)) obs")
        case True
        have "part_count obs = length (type_parts ?first)"
          using True by (intro part_count_same [OF ne]) (simp add: list_all_iff)
        moreover have "length gs = part_count obs" using ps by (auto dest!: list_all2_lengthD simp: all_parts_def)
        ultimately have "length gs = length (type_parts ?first)" by simp
        with True merged(2) ps t show ?thesis by simp
      next
        case False
        with merged(1) ps t show ?thesis by simp
      qed
      with id ps identities_trans show ?thesis by blast
    next
      case callable
      then have nr: "\<not> is_record ?first" by (cases ?first) auto
      from body ne other callable nr obtain ts where
        kinds: "\<not> list_ex (\<lambda>x. \<not> is_function (snd x) \<or> arity (snd x) \<noteq> arity ?first) obs" and
        ts: "mapS (merge_type ids) (all_parts obs) s = Inr (ts, s')" and
        t: "t = FunctionT (take (fst (arity ?first)) ts) (drop (fst (arity ?first)) ts)"
        by (auto simp: bindE_Inr_iff split: if_splits)
      obtain a b where ab: "arity ?first = (a, b)" by fastforce
      have callables: "\<forall>x \<in> set obs. is_function (snd x) \<and> arity (snd x) = (a, b)" using kinds ab by (auto simp: list_ex_iff)
      note ps = parts_ok [OF ts ok]
      from merge_function_ok [OF native callables] ps t ab show ?thesis by simp
    next
      case overlap
      then have nr: "\<not> is_record ?first" "\<not> is_function ?first" by (cases ?first; simp)+
      from body ne other overlap nr obtain c s1 where
        kinds: "\<not> list_ex (\<lambda>x. \<not> is_overlap (snd x)) obs" and
        c: "storageIdentity obs s = Inr (c, s1)" and
        rest: "(if list_ex (\<lambda>x. length (type_parts (snd x)) \<noteq> length (type_parts ?first)) obs
          then Inr (type_choice ids (at_type (\<lambda>t. OverlapT c (type_parts t) (overlap_domains t)) obs), s1)
          else bindE (mapS (merge_type ids) (all_parts obs) s1) (\<lambda>(as, s).
            Inr (OverlapT c as (map (\<lambda>_. targetSet (map (\<lambda>x. ids ! fst x) obs)) as), s))) = (Inr (t, s') :: (sty \<times> identities) expected)"
        by (auto simp: bindE_Inr_iff split: if_splits)
      have overlapping: "\<forall>x \<in> set obs. is_overlap (snd x)" using kinds by (simp add: list_ex_iff)
      note id = storageIdentity_ok [OF c ok ne idx]
      show ?thesis
      proof (cases "list_ex (\<lambda>x. length (type_parts (snd x)) \<noteq> length (type_parts ?first)) obs")
        case True
        with rest have "t = type_choice ids (at_type (\<lambda>t. OverlapT c (type_parts t) (overlap_domains t)) obs)" "s' = s1" by auto
        with id merge_overlap_ok(1) [OF obs native overlapping] show ?thesis by blast
      next
        case False
        with rest obtain as where as: "mapS (merge_type ids) (all_parts obs) s1 = Inr (as, s')"
          and t: "t = OverlapT c as (map (\<lambda>_. targetSet (map (\<lambda>x. ids ! fst x) obs)) as)"
          by (auto simp: bindE_Inr_iff)
        note ps = parts_ok [OF as conjunct1 [OF id]]
        have names: "\<forall>x \<in> set obs. renamed s' (fst x) (local_identity (snd x)) c" using id ps renamed_extends by blast
        have same: "\<forall>x \<in> set obs. length (type_parts (snd x)) = length (type_parts ?first)" using False by (simp add: list_ex_iff)
        have "part_count obs = length (type_parts ?first)"
          using same by (intro part_count_same [OF ne])
        moreover have "length as = part_count obs" using ps by (auto dest!: list_all2_lengthD simp: all_parts_def)
        ultimately have "length as = length (type_parts ?first)" by simp
        with same ps merge_overlap_ok(2) [OF obs native overlapping names, of as] t id identities_trans show ?thesis by auto
      qed
    next
      case none
      with body ne other show ?thesis by simp
    qed
  qed
qed

end
