(* ===== verification/Common_Attributes_Facts.thy ===== *)
theory Common_Attributes_Facts
  imports Common_Types_Facts
begin

text \<open>
  Merged attributes: specialized to a target, each is the attribute observed there with shared storage names.
\<close>

section \<open>Settled attributes\<close>

text \<open>
  An attribute a producer observes on one target: its types are concrete, it has no choice, no symbolic
  integer, and the extent of a conditional array is that of its data.
\<close>

definition extent_settled :: "dict \<Rightarrow> bool" where
  "extent_settled d =
     (case (get_as as_array d ''array'', map_of d ''count'') of
        (Some xs, Some c) \<Rightarrow> (case c of IntegerA w n \<Rightarrow> w \<le> 64 \<and> n = length xs | _ \<Rightarrow> False)
      | _ \<Rightarrow> True)"

function settled :: "string \<Rightarrow> bool \<Rightarrow> attr \<Rightarrow> bool" where
  "settled i numeric (TypeA t) = concrete_type i t"
| "settled i numeric (ArrayA xs) = list_all (settled i numeric) xs"
| "settled i numeric (DictA d) =
     (smap_wf d \<and> map_of d ''target_cases'' = None \<and> extent_settled d \<and>
      list_all (\<lambda>p. settled i (numeric \<or> fst p = ''integer'') (snd p)) d)"
| "settled i numeric (StringA s) = (\<not> (numeric \<and> s = ''pointer_bytes''))"
| "settled i numeric (IntegerA w n) = True"
| "settled i numeric (FloatA t n) = True"
| "settled i numeric UnitA = True"
| "settled i numeric (DenseI32A xs) = True"
| "settled i numeric (OtherA s) = True"
  by pat_completeness auto

termination
proof (relation "measure (\<lambda>(i, numeric, a). size a)", goal_cases)
  case (2 i numeric xs x)
  then show ?case using size_array_mem [of x xs] by simp
next
  case (3 i numeric d p)
  then show ?case using size_dict_mem [of "fst p" "snd p" d] by simp
qed simp

lemma settled_not_choice: "settled i numeric a \<Longrightarrow> \<not> is_choice a"
  by (cases a) auto

lemma smap_put_same: "smap_wf m \<Longrightarrow> map_of m k = Some v \<Longrightarrow> smap_put k v m = m"
proof (induction m)
  case (Cons p m)
  obtain a b where p: "p = (a, b)" by fastforce
  show ?case
  proof (cases "a = k")
    case True
    with Cons.prems p show ?thesis by simp
  next
    case False
    with Cons.prems p have at: "map_of m k = Some v" by simp
    then have "a < k" using Cons.prems(1) p map_of_SomeD [OF at] by (auto simp: smap_wf_def strict_sorted_iff)
    moreover have "smap_wf m" using Cons.prems(1) p by (simp add: smap_wf_def)
    ultimately show ?thesis using Cons.IH at p by (auto dest: less_not_sym)
  qed
qed simp

lemma cut_array_settled:
  assumes "smap_wf d" "extent_settled d"
  shows "cut_array target d = Inr (DictA d)"
proof (cases "get_as as_array d ''array''")
  case None
  then show ?thesis by (simp add: cut_array_def)
next
  case (Some xs)
  then have at: "map_of d ''array'' = Some (ArrayA xs)" by (simp add: get_as_Some)
  show ?thesis
  proof (cases "map_of d ''count''")
    case None
    with Some show ?thesis by (simp add: cut_array_def)
  next
    case count: (Some c)
    with assms(2) Some obtain w where "c = IntegerA w (length xs)" "w \<le> 64"
      by (auto simp: extent_settled_def split: attr.splits)
    with Some count at smap_put_same [OF assms(1) at] show ?thesis by (simp add: cut_array_def dict_set_def)
  qed
qed

lemma mapE_pairs_fixed: "(\<And>p. p \<in> set d \<Longrightarrow> f p = Inr (snd p)) \<Longrightarrow> mapE (\<lambda>p. bindE (f p) (\<lambda>v. Inr (fst p, v))) d = Inr d"
  by (induction d) auto

lemma settled_fixed:
  "settled (target_id info) numeric a \<Longrightarrow> specializeAttribute a info numeric = Inr a"
proof (induction a info numeric rule: specializeAttribute.induct)
  case (1 a info numeric)
  have sel: "selectAttribute (Some a) (target_id info) = Inr a"
    using settled_not_choice [OF "1.prems"] by (rule selectAttribute_plain)
  show ?case
  proof (cases a)
    case (TypeA t)
    with 1 have "specializeType t info = Inr t" by (simp add: concrete_type_stable)
    with TypeA sel show ?thesis by (simp add: specializeAttribute.simps [of "TypeA _"])
  next
    case (ArrayA xs)
    with 1 sel have "mapE (\<lambda>e. specializeAttribute e info numeric) xs = Inr xs" by (intro mapE_fixed) (auto simp: list_all_iff)
    with ArrayA sel show ?thesis by (simp add: specializeAttribute.simps [of "ArrayA _"])
  next
    case (DictA d)
    with "1.prems" have d: "smap_wf d" "extent_settled d" and
      mem: "\<forall>p \<in> set d. settled (target_id info) (numeric \<or> fst p = ''integer'') (snd p)"
      by (auto simp: list_all_iff)
    have "mapE (\<lambda>e. bindE (specializeAttribute (snd e) info (numeric \<or> fst e = ''integer'')) (\<lambda>v. Inr (fst e, v))) d = Inr d"
      using mem 1(2) [OF sel] DictA by (intro mapE_pairs_fixed) simp
    with DictA sel cut_array_settled [OF d] show ?thesis by (simp add: specializeAttribute.simps [of "DictA _"])
  qed (use sel 1 in \<open>simp_all add: specializeAttribute.simps\<close>)
qed

section \<open>Shared attributes\<close>

inductive shared_attr :: "identities \<Rightarrow> nat \<Rightarrow> attr \<Rightarrow> attr \<Rightarrow> bool" for s i where
  shared_same: "shared_attr s i a a"
| shared_typed: "shared_type s i t u \<Longrightarrow> shared_attr s i (TypeA t) (TypeA u)"
| shared_elements: "list_all2 (shared_attr s i) xs ys \<Longrightarrow> shared_attr s i (ArrayA xs) (ArrayA ys)"
| shared_entries: "map fst d = map fst e \<Longrightarrow> list_all2 (shared_attr s i) (map snd d) (map snd e) \<Longrightarrow>
    shared_attr s i (DictA d) (DictA e)"

lemma shared_attr_extends:
  "shared_attr s i a b \<Longrightarrow> extends_identities s s' \<Longrightarrow> shared_attr s' i a b"
proof (induction rule: shared_attr.induct)
  case (shared_elements xs ys)
  then show ?case by (intro shared_attr.shared_elements) (auto elim: list_all2_mono)
next
  case (shared_entries d e)
  then show ?case by (intro shared_attr.shared_entries) (auto elim: list_all2_mono)
qed (auto intro: shared_attr.intros shared_type_extends)

lemma shared_attr_integer: "shared_attr s i (IntegerA w n) b \<Longrightarrow> b = IntegerA w n"
  by (auto elim: shared_attr.cases)

lemma shared_attr_array: "shared_attr s i (ArrayA xs) b \<Longrightarrow> \<exists>ys. b = ArrayA ys \<and> length ys = length xs"
  by (auto elim!: shared_attr.cases dest: list_all2_lengthD)

lemma shared_attr_array_inv: "shared_attr s i a (ArrayA ys) \<Longrightarrow> \<exists>xs. a = ArrayA xs \<and> length xs = length ys"
  by (auto elim!: shared_attr.cases dest: list_all2_lengthD)

definition attr_stands_for :: "string list \<Rightarrow> bool \<Rightarrow> attr observations \<Rightarrow> attr \<Rightarrow> identities \<Rightarrow> bool" where
  "attr_stands_for ids numeric obs a s \<longleftrightarrow>
     (\<forall>(i, u) \<in> set obs. \<forall>info. targets_find (ids ! i) = Some info \<longrightarrow>
        (\<exists>v. specializeAttribute a info numeric = Inr v \<and> shared_attr s i u v))"

definition settled_observations :: "string list \<Rightarrow> bool \<Rightarrow> attr observations \<Rightarrow> bool" where
  "settled_observations ids numeric obs \<longleftrightarrow>
     (\<forall>(i, a) \<in> set obs. settled (ids ! i) numeric a \<and> (\<exists>info. targets_find (ids ! i) = Some info \<and> target_id info = ids ! i))"

lemma attr_stands_for_extends:
  "attr_stands_for ids numeric obs a s \<Longrightarrow> extends_identities s s' \<Longrightarrow> attr_stands_for ids numeric obs a s'"
  unfolding attr_stands_for_def using shared_attr_extends by fastforce

lemma settled_target:
  assumes "settled_observations ids numeric obs" "(i, u) \<in> set obs" "targets_find (ids ! i) = Some info"
  shows "target_id info = ids ! i" "settled (ids ! i) numeric u" "specializeAttribute u info numeric = Inr u"
proof -
  from assms show t: "target_id info = ids ! i" and c: "settled (ids ! i) numeric u" by (auto simp: settled_observations_def)
  from c show "specializeAttribute u info numeric = Inr u" unfolding t [symmetric] by (rule settled_fixed)
qed

section \<open>Merged attributes\<close>

lemma specialized_selected:
  "selectAttribute (Some a) (target_id info) = Inr v \<Longrightarrow> \<not> is_choice v \<Longrightarrow>
   specializeAttribute a info numeric = specializeAttribute v info numeric"
  by (simp add: specializeAttribute.simps [of a] specializeAttribute.simps [of v] selectAttribute_plain)

lemma merge_choice_ok:
  assumes "observed ids obs" "settled_observations ids numeric obs"
  shows "attr_stands_for ids numeric obs (choice ids obs) s"
  unfolding attr_stands_for_def
proof clarify
  fix i u info assume u: "(i, u) \<in> set obs" "targets_find (ids ! i) = Some info"
  note t = settled_target [OF assms(2) u]
  have plain: "\<not> is_choice u" by (rule settled_not_choice [OF t(2)])
  from choice_select [OF assms(1) u(1) plain] have "selectAttribute (Some (choice ids obs)) (target_id info) = Inr u" by (simp add: t(1))
  from specialized_selected [OF this plain, of numeric] t(3)
  show "\<exists>v. specializeAttribute (choice ids obs) info numeric = Inr v \<and> shared_attr s i u v"
    using shared_same by auto
qed

lemma merge_typed_ok:
  assumes "\<forall>x \<in> set obs. as_type (snd x) \<noteq> None"
    "stands_for ids (map (\<lambda>(i, v). (i, type_of_attr v)) obs) t s"
  shows "attr_stands_for ids numeric obs (TypeA t) s"
  unfolding attr_stands_for_def
proof clarify
  fix i u info assume u: "(i, u) \<in> set obs" "targets_find (ids ! i) = Some info"
  with assms(1) obtain w where w: "u = TypeA w" by fastforce
  with u(1) have "(i, w) \<in> set (map (\<lambda>(i, v). (i, type_of_attr v)) obs)" by force
  with assms(2) u(2) obtain v where "specializeType t info = Inr v" "shared_type s i w v" by (force simp: stands_for_def)
  with w show "\<exists>v. specializeAttribute (TypeA t) info numeric = Inr v \<and> shared_attr s i u v"
    by (auto simp: specializeAttribute.simps [of "TypeA _"] selectAttribute_plain intro: shared_typed)
qed

lemma merge_elements_ok:
  assumes "settled_observations ids numeric obs" "same_arrays obs"
    "list_all2 (\<lambda>xs a. attr_stands_for ids numeric xs a s)
       (map (element_observations obs) [0..<length (array_elements (snd (hd obs)))]) vs"
  shows "attr_stands_for ids numeric obs (ArrayA vs) s"
  unfolding attr_stands_for_def
proof clarify
  fix i u info assume u: "(i, u) \<in> set obs" "targets_find (ids ! i) = Some info"
  let ?n = "length (array_elements (snd (hd obs)))"
  from u(1) assms(2) obtain xs where xs: "u = ArrayA xs" "length xs = ?n" by (auto simp: same_arrays_def list_all_iff)
  have len: "length vs = ?n" using assms(3) by (auto dest: list_all2_lengthD)
  have "\<exists>w. specializeAttribute (vs ! k) info numeric = Inr w \<and> shared_attr s i (xs ! k) w" if "k < ?n" for k
  proof -
    have "attr_stands_for ids numeric (element_observations obs k) (vs ! k) s"
      using list_all2_nthD [OF assms(3), of k] that by simp
    moreover have "(i, xs ! k) \<in> set (element_observations obs k)" using u(1) xs(1) by (force simp: element_observations_def)
    ultimately show ?thesis using u(2) by (force simp: attr_stands_for_def)
  qed
  then obtain w where w: "\<And>k. k < ?n \<Longrightarrow> specializeAttribute (vs ! k) info numeric = Inr (w k) \<and> shared_attr s i (xs ! k) (w k)"
    by metis
  let ?ws = "map w [0..<?n]"
  have "mapE (\<lambda>e. specializeAttribute e info numeric) vs = Inr ?ws"
    using w len by (simp add: mapE_Inr_iff list_all2_conv_all_nth)
  then have "specializeAttribute (ArrayA vs) info numeric = Inr (ArrayA ?ws)"
    by (simp add: specializeAttribute.simps [of "ArrayA _"] selectAttribute_plain)
  moreover have "shared_attr s i u (ArrayA ?ws)"
    unfolding xs(1) by (rule shared_elements) (use w xs(2) in \<open>simp add: list_all2_conv_all_nth\<close>)
  ultimately show "\<exists>v. specializeAttribute (ArrayA vs) info numeric = Inr v \<and> shared_attr s i u v" by blast
qed

lemma mapE_entries:
  "list_all2 (\<lambda>p w. f p = Inr w) d ws \<Longrightarrow> mapE (\<lambda>p. bindE (f p) (\<lambda>v. Inr (fst p, v))) d = Inr (zip (map fst d) ws)"
  by (induction d ws rule: list_all2_induct) auto

lemma map_of_zip_shared:
  assumes "list_all2 P xs ys" "length ks = length xs" "map_of (zip ks xs) k = Some x"
  shows "\<exists>y. map_of (zip ks ys) k = Some y \<and> P x y"
  using assms
proof (induction xs ys arbitrary: ks rule: list_all2_induct)
  case (Cons x xs y ys)
  then show ?case by (cases ks) (auto split: if_splits)
qed simp

lemma map_of_zip_none: "list_all2 P xs ys \<Longrightarrow> length ks = length xs \<Longrightarrow> map_of (zip ks xs) k = None \<Longrightarrow> map_of (zip ks ys) k = None"
proof (induction xs ys arbitrary: ks rule: list_all2_induct)
  case (Cons x xs y ys)
  then show ?case by (cases ks) (auto split: if_splits)
qed simp

text \<open>A dictionary with shared entries has the extent of the observed one.\<close>

lemma extent_shared:
  assumes "extent_settled d" "map fst d = map fst e" "list_all2 (shared_attr s i) (map snd d) (map snd e)"
  shows "extent_settled e"
proof -
  have z: "d = zip (map fst d) (map snd d)" "e = zip (map fst d) (map snd e)"
    using zip_map_fst_snd [of d] zip_map_fst_snd [of e] assms(2) by simp_all
  have at: "\<exists>b. map_of e k = Some b \<and> shared_attr s i a b" if "map_of d k = Some a" for k a
    using map_of_zip_shared [OF assms(3), of "map fst d" k a] that z by simp
  have no: "map_of e k = None" if "map_of d k = None" for k
    using map_of_zip_none [OF assms(3), of "map fst d" k] that z by simp
  show ?thesis
  proof (cases "get_as as_array e ''array''")
    case None
    then show ?thesis by (simp add: extent_settled_def)
  next
    case (Some ys)
    show ?thesis
    proof (cases "map_of e ''count''")
      case None
      with Some show ?thesis by (simp add: extent_settled_def)
    next
      case count: (Some c)
      from Some have "map_of e ''array'' = Some (ArrayA ys)" by (simp add: get_as_Some)
      with at no obtain x where x: "map_of d ''array'' = Some x" "shared_attr s i x (ArrayA ys)"
        by (cases "map_of d ''array''") fastforce+
      from shared_attr_array_inv [OF x(2)] obtain xs where xs: "x = ArrayA xs" "length xs = length ys" by blast
      from at no count obtain b where b: "map_of d ''count'' = Some b" "shared_attr s i b c"
        by (cases "map_of d ''count''") fastforce+
      have "get_as as_array d ''array'' = Some xs" using x(1) xs(1) by (simp add: get_as_Some)
      with assms(1) b(1) xs(2) obtain w where w: "b = IntegerA w (length ys)" "w \<le> 64"
        by (auto simp: extent_settled_def split: attr.splits)
      from shared_attr_integer [OF b(2) [unfolded w(1)]] w(2) Some count show ?thesis by (simp add: extent_settled_def)
    qed
  qed
qed

lemma same_keys:
  assumes "smap_wf d" "smap_wf e" "length e = length d" "\<forall>p \<in> set d. map_of e (fst p) \<noteq> None"
  shows "map fst e = map fst d"
proof -
  have sub: "set (map fst d) \<subseteq> set (map fst e)"
  proof
    fix k assume "k \<in> set (map fst d)"
    with assms(4) have "map_of e k \<noteq> None" by auto
    then show "k \<in> set (map fst e)" by (simp add: map_of_eq_None_iff)
  qed
  have dist: "distinct (map fst d)" "distinct (map fst e)" using smap_wf_distinct assms(1,2) by auto
  then have "card (set (map fst e)) = card (set (map fst d))" using assms(3) by (metis distinct_card length_map)
  with sub have "set (map fst d) = set (map fst e)" by (intro card_subset_eq) simp_all
  with assms(1,2) show ?thesis by (intro strict_sorted_equal) (simp_all add: smap_wf_def)
qed

lemma settled_dict:
  assumes "settled i numeric (DictA d)"
  shows "smap_wf d" "extent_settled d" "map_of d ''target_cases'' = None"
    "map_of d k = Some v \<Longrightarrow> settled i (numeric \<or> k = ''integer'') v"
  using assms by (auto simp: list_all_iff dest!: map_of_SomeD)

lemma map_of_at_key: "distinct (map fst d) \<Longrightarrow> k < length d \<Longrightarrow> map_of d (map fst d ! k) = Some (map snd d ! k)"
  by (simp add: map_of_eq_Some_iff [of d "fst (d ! k)"])

lemma merge_fields_ok:
  assumes "settled_observations ids numeric obs" "obs \<noteq> []" "same_dictionaries obs"
    and keys: "keys = map fst (dict_entries (snd (hd obs)))"
    and fields: "list_all2 (\<lambda>k a. attr_stands_for ids (numeric \<or> k = ''integer'') (field_observations obs k) a s) keys vs"
    and registered: "\<forall>(i, a) \<in> set obs. \<exists>info. targets_find (ids ! i) = Some info"
  shows "attr_stands_for ids numeric obs (DictA (zip keys vs)) s"
  unfolding attr_stands_for_def
proof clarify
  fix i u info assume u: "(i, u) \<in> set obs" "targets_find (ids ! i) = Some info"
  note t = settled_target [OF assms(1) u]
  obtain i0 u0 where hd0: "hd obs = (i0, u0)" "(i0, u0) \<in> set obs" using assms(2) by (metis hd_in_set surj_pair)
  from assms(3) hd0 obtain d0 where d0: "u0 = DictA d0" by (auto simp: same_dictionaries_def)
  from assms(3) u(1) hd0 d0 obtain d where d: "u = DictA d" "length d = length d0" "\<forall>p \<in> set d0. map_of d (fst p) \<noteq> None"
    by (auto simp: same_dictionaries_def list_all_iff)
  have s0: "settled (ids ! i0) numeric (DictA d0)" using assms(1) hd0(2) d0 by (auto simp: settled_observations_def)
  have sd: "settled (ids ! i) numeric (DictA d)" using t(2) d(1) by simp
  have k: "keys = map fst d" using same_keys [OF settled_dict(1) [OF s0] settled_dict(1) [OF sd] d(2,3)] keys hd0(1) d0 by simp
  have dist: "distinct (map fst d)" by (rule smap_wf_distinct [OF settled_dict(1) [OF sd]])
  have len: "length vs = length d" using list_all2_lengthD [OF fields] k by simp
  have "\<exists>w. specializeAttribute (vs ! j) info (numeric \<or> map fst d ! j = ''integer'') = Inr w \<and> shared_attr s i (map snd d ! j) w"
    if "j < length d" for j
  proof -
    have "attr_stands_for ids (numeric \<or> map fst d ! j = ''integer'') (field_observations obs (map fst d ! j)) (vs ! j) s"
      using list_all2_nthD [OF fields, of j] that k by simp
    moreover have "(i, map snd d ! j) \<in> set (field_observations obs (map fst d ! j))"
      using u(1) d(1) map_of_at_key [OF dist that] by (force simp: field_observations_def)
    ultimately show ?thesis using u(2) by (force simp: attr_stands_for_def)
  qed
  then obtain w where w: "\<And>j. j < length d \<Longrightarrow>
      specializeAttribute (vs ! j) info (numeric \<or> map fst d ! j = ''integer'') = Inr (w j) \<and> shared_attr s i (map snd d ! j) (w j)"
    by metis
  let ?e = "zip (map fst d) (map w [0..<length d])"
  have fst_e: "map fst ?e = map fst d" by simp
  have snd_e: "list_all2 (shared_attr s i) (map snd d) (map snd ?e)" using w by (simp add: list_all2_conv_all_nth)
  have "list_all2 (\<lambda>p x. specializeAttribute (snd p) info (numeric \<or> fst p = ''integer'') = Inr x) (zip keys vs) (map w [0..<length d])"
    using w len k by (simp add: list_all2_conv_all_nth)
  from mapE_entries [OF this] have dict_entries: "mapE (\<lambda>e. bindE (specializeAttribute (snd e) info (numeric \<or> fst e = ''integer''))
      (\<lambda>v. Inr (fst e, v))) (zip keys vs) = Inr ?e"
    using len k by simp
  have wf: "smap_wf ?e" using settled_dict(1) [OF sd] by (simp add: smap_wf_def)
  have cut: "cut_array info ?e = Inr (DictA ?e)"
    by (rule cut_array_settled [OF wf extent_shared [OF settled_dict(2) [OF sd] fst_e [symmetric] snd_e]])
  have "map_of (zip keys vs) ''target_cases'' = None"
  proof -
    have "''target_cases'' \<notin> set keys" using settled_dict(3) [OF sd] k by (simp add: map_of_eq_None_iff)
    then show ?thesis unfolding map_of_eq_None_iff set_map [symmetric] using len k by simp
  qed
  then have "\<not> is_choice (DictA (zip keys vs))" by simp
  then have "specializeAttribute (DictA (zip keys vs)) info numeric = Inr (DictA ?e)"
    using dict_entries cut by (simp add: specializeAttribute.simps [of "DictA _"] selectAttribute_plain del: is_choice.simps)
  moreover have "shared_attr s i u (DictA ?e)" unfolding d(1) by (rule shared_entries [OF fst_e [symmetric] snd_e])
  ultimately show "\<exists>v. specializeAttribute (DictA (zip keys vs)) info numeric = Inr v \<and> shared_attr s i u v" by blast
qed

lemma settled_types:
  assumes "settled_observations ids numeric obs" "\<forall>x \<in> set obs. as_type (snd x) \<noteq> None"
  shows "native_types ids (map (\<lambda>(i, v). (i, type_of_attr v)) obs)"
  unfolding native_types_def
proof clarify
  fix i t assume "(i, t) \<in> set (map (\<lambda>(i, v). (i, type_of_attr v)) obs)"
  then obtain v where v: "(i, v) \<in> set obs" "t = type_of_attr v" by auto
  with assms(2) have "v = TypeA t" by (cases v) auto
  with assms(1) v(1) show "concrete_type (ids ! i) t \<and> (\<exists>info. targets_find (ids ! i) = Some info \<and> target_id info = ids ! i)"
    by (auto simp: settled_observations_def)
qed

lemma settled_elements:
  assumes "settled_observations ids numeric obs" "same_arrays obs" "k < length (array_elements (snd (hd obs)))"
  shows "settled_observations ids numeric (element_observations obs k)"
  unfolding settled_observations_def
proof clarify
  fix i w assume "(i, w) \<in> set (element_observations obs k)"
  then obtain u where u: "(i, u) \<in> set obs" "w = array_elements u ! k" by (auto simp: element_observations_def)
  with assms(2,3) obtain xs where "u = ArrayA xs" "k < length xs" by (auto simp: same_arrays_def list_all_iff)
  with assms(1) u show "settled (ids ! i) numeric w \<and> (\<exists>info. targets_find (ids ! i) = Some info \<and> target_id info = ids ! i)"
    by (auto simp: settled_observations_def list_all_length)
qed

lemma settled_fields:
  assumes "settled_observations ids numeric obs" "same_dictionaries obs" "k \<in> set (map fst (dict_entries (snd (hd obs))))"
  shows "settled_observations ids (numeric \<or> k = ''integer'') (field_observations obs k)"
  unfolding settled_observations_def
proof clarify
  fix i w assume "(i, w) \<in> set (field_observations obs k)"
  then obtain u where u: "(i, u) \<in> set obs" "w = the (map_of (dict_entries u) k)" by (auto simp: field_observations_def)
  from assms(3) obtain p where p: "p \<in> set (dict_entries (snd (hd obs)))" "k = fst p" by auto
  from assms(2) u(1) have "as_dict u \<noteq> None \<and> list_all (\<lambda>p. map_of (dict_entries u) (fst p) \<noteq> None) (dict_entries (snd (hd obs)))"
    by (auto simp: same_dictionaries_def list_all_iff)
  with p obtain d v where d: "u = DictA d" "map_of d k = Some v" by (auto simp: list_all_iff)
  have "settled (ids ! i) numeric (DictA d)" using assms(1) u(1) d(1) by (auto simp: settled_observations_def)
  from settled_dict(4) [OF this d(2)] assms(1) u d
  show "settled (ids ! i) (numeric \<or> k = ''integer'') w \<and> (\<exists>info. targets_find (ids ! i) = Some info \<and> target_id info = ids ! i)"
    by (auto simp: settled_observations_def)
qed

text \<open>The merged attribute stands for every observation.\<close>

lemma merge_attribute_ok:
  "merge_attribute ids obs s = Inr (a, s') \<Longrightarrow> observed ids obs \<Longrightarrow> settled_observations ids numeric obs \<Longrightarrow>
   identities_ok (length ids) s \<Longrightarrow>
   identities_ok (length ids) s' \<and> extends_identities s s' \<and>
   (\<forall>numeric. settled_observations ids numeric obs \<longrightarrow> attr_stands_for ids numeric obs a s')"
proof (induction "observed_attr_size obs" arbitrary: obs s a s' numeric rule: less_induct)
  case less
  note obs = less.prems(2) and ok = less.prems(4) and settled = less.prems(3)
  let ?first = "snd (hd obs)"
  have ne: "obs \<noteq> []" using obs by (simp add: observed_def)
  note body = less.prems(1) [unfolded merge_attribute.simps [of ids obs] Let_def]
  let ?good = "\<lambda>xs v s. \<forall>numeric. settled_observations ids numeric xs \<longrightarrow> attr_stands_for ids numeric xs v s"
  have loop: "identities_ok (length ids) s' \<and> extends_identities s s' \<and> list_all2 (\<lambda>xs v. ?good xs v s') xss vs"
    if "mapS (merge_attribute ids) xss s = Inr (vs, s')"
      and xss: "\<And>xs. xs \<in> set xss \<Longrightarrow> observed_attr_size xs < observed_attr_size obs \<and> observed ids xs \<and>
        (\<exists>numeric. settled_observations ids numeric xs)" for xss vs
  proof (rule mapS_identities [OF that(1) ok])
    fix x s y s' assume x: "x \<in> set xss" "identities_ok (length ids) s" "merge_attribute ids x s = Inr (y, s')"
    from xss [OF x(1)] obtain n where n: "observed_attr_size x < observed_attr_size obs" "observed ids x" "settled_observations ids n x"
      by blast
    from less.hyps [OF n(1) x(3) n(2,3) x(2)]
    show "identities_ok (length ids) s' \<and> extends_identities s s' \<and> ?good x y s'" .
  next
    fix x y s s' assume "?good x y s" "extends_identities s s'"
    then show "?good x y s'" using attr_stands_for_extends by blast
  qed
  show ?case
  proof (cases "\<not> composite ?first \<and> list_all (\<lambda>x. snd x = ?first) obs")
    case True
    with body ne have a: "a = ?first" "s' = s" by simp_all
    have "attr_stands_for ids numeric obs a s" if "settled_observations ids numeric obs" for numeric
      unfolding attr_stands_for_def
    proof clarify
      fix i u info assume u: "(i, u) \<in> set obs" "targets_find (ids ! i) = Some info"
      with True a have "u = a" by (auto simp: list_all_iff)
      with settled_target(3) [OF that u] show "\<exists>v. specializeAttribute a info numeric = Inr v \<and> shared_attr s i u v"
        using shared_same by auto
    qed
    with a ok show ?thesis by simp
  next
    case same: False
    show ?thesis
    proof (cases "list_all (\<lambda>x. as_type (snd x) \<noteq> None) obs")
      case True
      let ?types = "map (\<lambda>(i, v). (i, type_of_attr v)) obs"
      from body ne same True obtain t where t: "merge_type ids ?types s = Inr (t, s')" "a = TypeA t"
        by (auto simp: bindE_Inr_iff)
      have all: "\<forall>x \<in> set obs. as_type (snd x) \<noteq> None" using True by (simp add: list_all_iff)
      from merge_type_ok [OF t(1) observed_map [OF obs] settled_types [OF settled all] ok] merge_typed_ok [OF all] t(2)
      show ?thesis by blast
    next
      case types: False
      show ?thesis
      proof (cases "same_arrays obs")
        case True
        let ?xss = "map (element_observations obs) [0..<length (array_elements ?first)]"
        from body ne same types True obtain vs where vs: "mapS (merge_attribute ids) ?xss s = Inr (vs, s')" "a = ArrayA vs"
          by (auto simp: bindE_Inr_iff)
        have "identities_ok (length ids) s' \<and> extends_identities s s' \<and> list_all2 (\<lambda>xs v. ?good xs v s') ?xss vs"
        proof (rule loop [OF vs(1)])
          fix xs assume "xs \<in> set ?xss"
          then obtain k where k: "xs = element_observations obs k" "k < length (array_elements ?first)" by auto
          have "observed_attr_size xs < observed_attr_size obs" unfolding k(1) element_observations_def
          proof (rule observed_less [OF ne])
            fix i v assume "(i, v) \<in> set obs"
            with True k(2) have "as_array v \<noteq> None" "k < length (array_elements v)" by (auto simp: same_arrays_def list_all_iff)
            then show "size (array_elements v ! k) < size v" by (cases v) (auto simp del: attr.size intro: size_array_mem)
          qed
          moreover have "observed ids xs" unfolding k(1) element_observations_def by (rule observed_map [OF obs])
          ultimately show "observed_attr_size xs < observed_attr_size obs \<and> observed ids xs \<and>
              (\<exists>numeric. settled_observations ids numeric xs)"
            using settled_elements [OF settled True k(2)] k(1) by blast
        qed
        moreover have "attr_stands_for ids numeric obs (ArrayA vs) s'"
          if "list_all2 (\<lambda>xs v. ?good xs v s') ?xss vs" "settled_observations ids numeric obs" for numeric
        proof (rule merge_elements_ok [OF that(2) True])
          show "list_all2 (\<lambda>xs a. attr_stands_for ids numeric xs a s') ?xss vs"
            using that(1) settled_elements [OF that(2) True] by (auto simp: list_all2_conv_all_nth)
        qed
        ultimately show ?thesis using vs(2) by blast
      next
        case arrays: False
        show ?thesis
        proof (cases "same_dictionaries obs")
          case True
          let ?keys = "map fst (dict_entries ?first)"
          let ?xss = "map (field_observations obs) ?keys"
          from body ne same types arrays True obtain vs where
            vs: "mapS (merge_attribute ids) ?xss s = Inr (vs, s')" "a = DictA (zip ?keys vs)"
            by (auto simp: bindE_Inr_iff)
          have "identities_ok (length ids) s' \<and> extends_identities s s' \<and> list_all2 (\<lambda>xs v. ?good xs v s') ?xss vs"
          proof (rule loop [OF vs(1)])
            fix xs assume "xs \<in> set ?xss"
            then obtain k where k: "xs = field_observations obs k" "k \<in> set ?keys" by auto
            have "observed_attr_size xs < observed_attr_size obs" unfolding k(1) field_observations_def
            proof (rule observed_less [OF ne])
              fix i v assume "(i, v) \<in> set obs"
              with True k(2) have "as_dict v \<noteq> None" "map_of (dict_entries v) k \<noteq> None"
                by (auto simp: same_dictionaries_def list_all_iff)
              then show "size (the (map_of (dict_entries v) k)) < size v" by (cases v) (auto simp del: attr.size intro: size_dict_get)
            qed
            moreover have "observed ids xs" unfolding k(1) field_observations_def by (rule observed_map [OF obs])
            ultimately show "observed_attr_size xs < observed_attr_size obs \<and> observed ids xs \<and>
                (\<exists>numeric. settled_observations ids numeric xs)"
              using settled_fields [OF settled True k(2)] k(1) by blast
          qed
          moreover have "attr_stands_for ids numeric obs (DictA (zip ?keys vs)) s'"
            if good: "list_all2 (\<lambda>xs v. ?good xs v s') ?xss vs" and n: "settled_observations ids numeric obs" for numeric
          proof (rule merge_fields_ok [OF n ne True refl])
            show "list_all2 (\<lambda>k a. attr_stands_for ids (numeric \<or> k = ''integer'') (field_observations obs k) a s') ?keys vs"
              using good settled_fields [OF n True] nth_mem [of _ ?keys]
              by (auto simp: list_all2_conv_all_nth simp del: set_map)
          qed (use n in \<open>auto simp: settled_observations_def\<close>)
          ultimately show ?thesis using vs(2) by blast
        next
          case False
          with body ne same types arrays have "a = choice ids obs" "s' = s" by auto
          with merge_choice_ok [OF obs] ok show ?thesis by simp
        qed
      qed
    qed
  qed
qed

end
