(* ===== verification/Common_Merge_Facts.thy ===== *)
theory Common_Merge_Facts
  imports Common_Merge Common_Attributes_Facts Conditional_CFG_Facts
begin

text \<open>
  What the merger of functions keeps of each target: the groups of blocks of a function, restricted to a target,
  are the blocks of that target in their order, and the definitions of scoped modules are recovered per target.
\<close>

section \<open>Groups of blocks\<close>

text \<open>The blocks of target \<open>j\<close> in the groups are those its index sends there.\<close>

definition column :: "nat \<Rightarrow> nat list \<Rightarrow> (nat \<times> nat) list \<Rightarrow> nat option list list \<Rightarrow> bool" where
  "column j bs I G \<longleftrightarrow>
     (\<forall>b g. map_of I b = Some g \<longrightarrow> b \<in> set bs \<and> g < length G \<and> (\<exists>b'. G ! g ! j = Some b' \<and> map_of I b' = Some g)) \<and>
     (\<forall>g < length G. \<forall>b. G ! g ! j = Some b \<longrightarrow> map_of I b = Some g)"

lemma column_index:
  assumes "column j bs I G" "map_of I b = Some g"
  obtains b' where "b \<in> set bs" "g < length G" "G ! g ! j = Some b'" "map_of I b' = Some g"
proof -
  have "b \<in> set bs \<and> g < length G \<and> (\<exists>b'. G ! g ! j = Some b' \<and> map_of I b' = Some g)"
    by (rule assms(1) [unfolded column_def, THEN conjunct1, THEN spec, THEN spec, THEN mp, OF assms(2)])
  then obtain b' where "b \<in> set bs" "g < length G" "G ! g ! j = Some b'" "map_of I b' = Some g" by (elim conjE exE)
  then show thesis by (rule that)
qed

lemma column_slot: "column j bs I G \<Longrightarrow> g < length G \<Longrightarrow> G ! g ! j = Some b \<Longrightarrow> map_of I b = Some g"
  by (erule column_def [THEN iffD1, THEN conjunct2, THEN spec, THEN mp, THEN spec, THEN mp])

lemma columnI:
  assumes "\<And>b g. map_of I b = Some g \<Longrightarrow> b \<in> set bs \<and> g < length G \<and> (\<exists>b'. G ! g ! j = Some b' \<and> map_of I b' = Some g)"
    and "\<And>g b. g < length G \<Longrightarrow> G ! g ! j = Some b \<Longrightarrow> map_of I b = Some g"
  shows "column j bs I G"
  unfolding column_def using assms by blast

definition groups_wf :: "nat \<Rightarrow> block_grouping \<Rightarrow> bool" where
  "groups_wf n s \<longleftrightarrow> (\<forall>g \<in> set (gr_groups s). length g = n) \<and> (\<forall>p \<in> set (gr_arms s). snd p < length (gr_groups s))"

text \<open>Only target \<open>i\<close> has changed, and new groups are empty for the others.\<close>

definition only_target :: "nat \<Rightarrow> nat \<Rightarrow> nat option list list \<Rightarrow> nat option list list \<Rightarrow> bool" where
  "only_target n i G G' \<longleftrightarrow> length G \<le> length G' \<and>
     (\<forall>g < length G'. \<forall>j < n. j \<noteq> i \<longrightarrow> G' ! g ! j = (if g < length G then G ! g ! j else None))"

lemma only_target_trans: "only_target n i G H \<Longrightarrow> only_target n i H K \<Longrightarrow> only_target n i G K"
  by (auto simp: only_target_def)

lemma only_target_refl [simp]: "only_target n i G G"
  by (simp add: only_target_def)

lemma column_kept: "column j bs I G \<Longrightarrow> only_target n i G G' \<Longrightarrow> j \<noteq> i \<Longrightarrow> j < n \<Longrightarrow> column j bs I G'"
proof -
  assume col: "column j bs I G" and G: "only_target n i G G'" "j \<noteq> i" "j < n"
  have at: "g < length G \<Longrightarrow> g < length G' \<and> G' ! g ! j = G ! g ! j" "g < length G' \<Longrightarrow> G' ! g ! j \<noteq> None \<Longrightarrow> g < length G" for g
    using G by (auto simp: only_target_def split: if_splits)
  show "column j bs I G'"
  proof (rule columnI)
    fix b g assume "map_of I b = Some g"
    from column_index [OF col this] at(1) [of g]
    show "b \<in> set bs \<and> g < length G' \<and> (\<exists>b'. G' ! g ! j = Some b' \<and> map_of I b' = Some g)" by metis
  next
    fix g b assume g: "g < length G'" "G' ! g ! j = Some b"
    then have "g < length G" using at(2) [of g] by simp
    then show "map_of I b = Some g" using column_slot [OF col] at(1) [of g] g(2) by simp
  qed
qed

definition placing :: "nat \<Rightarrow> nat \<Rightarrow> nat list \<Rightarrow> block_grouping \<Rightarrow> block_grouping \<Rightarrow> bool" where
  "placing n i bs s s' \<longleftrightarrow> groups_wf n s' \<and> only_target n i (gr_groups s) (gr_groups s') \<and> column i bs (gr_index s') (gr_groups s')"

lemma placing_trans: "placing n i bs s t \<Longrightarrow> placing n i bs t u \<Longrightarrow> placing n i bs s u"
  using only_target_trans by (auto simp: placing_def)

lemma place_block_placing:
  assumes "placing n i bs s t" "map_of (gr_index t) b = None" "b \<in> set bs" "g < length (gr_groups t)" "i < n"
  shows "placing n i bs s (place_block i b g t)"
proof -
  let ?G = "gr_groups t" and ?I = "gr_index t"
  let ?G' = "?G[g := (?G ! g)[i := Some b]]"
  have len: "length (?G ! g) = n" using assms(1,4) by (auto simp: placing_def groups_wf_def)
  have at: "?G' ! k ! j = (if k = g \<and> j = i then Some b else ?G ! k ! j)" if "k < length ?G" for k j
    using that len assms(5) by (cases "k = g") (auto simp: nth_list_update)
  have col: "column i bs ?I ?G" using assms(1) by (simp add: placing_def)
  have "column i bs ((b, g) # ?I) ?G'"
  proof (rule columnI)
    fix c k assume c: "map_of ((b, g) # ?I) c = Some k"
    show "c \<in> set bs \<and> k < length ?G' \<and> (\<exists>b'. ?G' ! k ! i = Some b' \<and> map_of ((b, g) # ?I) b' = Some k)"
    proof (cases "c = b")
      case True
      with c at [of g i] assms(3,4) show ?thesis by simp
    next
      case False
      with c have "map_of ?I c = Some k" by simp
      from column_index [OF col this] obtain b' where b': "c \<in> set bs" "k < length ?G" "?G ! k ! i = Some b'" "map_of ?I b' = Some k" .
      show ?thesis
      proof (cases "k = g")
        case True
        with b' at [of k i] show ?thesis by simp
      next
        case False
        with b' at [of k i] assms(2) show ?thesis by (intro conjI exI [of _ b']) auto
      qed
    qed
  next
    fix k c assume k: "k < length ?G'" "?G' ! k ! i = Some c"
    then have kl: "k < length ?G" by simp
    show "map_of ((b, g) # ?I) c = Some k"
    proof (cases "k = g")
      case False
      with at [OF kl, of i] k(2) have "map_of ?I c = Some k" using column_slot [OF col kl] by simp
      with assms(2) show ?thesis by auto
    qed (use at [OF kl, of i] k(2) in simp)
  qed
  moreover have "only_target n i ?G ?G'" using at by (auto simp: only_target_def)
  moreover have "groups_wf n (place_block i b g t)"
    using assms(1) len set_update_subset_insert [of ?G g "(?G ! g)[i := Some b]"]
    by (auto simp: placing_def groups_wf_def place_block_def)
  ultimately show ?thesis using assms(1) only_target_trans by (auto simp: placing_def place_block_def)
qed

lemma arm_group_placing:
  assumes "placing n i bs s t" "arm_group n key t = (g, t')" "i < n"
  shows "placing n i bs s t'" "g < length (gr_groups t')" "gr_index t' = gr_index t"
proof -
  have wf: "groups_wf n t" "column i bs (gr_index t) (gr_groups t)" using assms(1) by (auto simp: placing_def)
  have new: "groups_wf n t' \<and> only_target n i (gr_groups t) (gr_groups t') \<and> column i bs (gr_index t') (gr_groups t') \<and>
      g < length (gr_groups t')"
    if t': "t' = t\<lparr>gr_arms := (key, g) # gr_arms t, gr_groups := gr_groups t @ [replicate n None]\<rparr>" and g: "g = length (gr_groups t)"
  proof -
    have at: "(gr_groups t @ [replicate n None]) ! k ! j = (if k < length (gr_groups t) then gr_groups t ! k ! j else None)"
      if "k < length (gr_groups t) + 1" "j < n" for k j using that by (auto simp: nth_append)
    have "only_target n i (gr_groups t) (gr_groups t')" using at by (auto simp: only_target_def t')
    moreover have "column i bs (gr_index t') (gr_groups t')"
    proof (rule columnI)
      fix b k assume "map_of (gr_index t') b = Some k"
      then have "map_of (gr_index t) b = Some k" by (simp add: t')
      from column_index [OF wf(2) this] obtain b' where b': "b \<in> set bs" "k < length (gr_groups t)"
        "gr_groups t ! k ! i = Some b'" "map_of (gr_index t) b' = Some k" .
      then show "b \<in> set bs \<and> k < length (gr_groups t') \<and> (\<exists>b'. gr_groups t' ! k ! i = Some b' \<and> map_of (gr_index t') b' = Some k)"
        using at [of k i] assms(3) by (intro conjI exI [of _ b']) (simp_all add: t')
    next
      fix k b assume "k < length (gr_groups t')" "gr_groups t' ! k ! i = Some b"
      with at [of k i] assms(3) have "k < length (gr_groups t)" "gr_groups t ! k ! i = Some b"
        by (auto simp: t' split: if_splits)
      then show "map_of (gr_index t') b = Some k" using column_slot [OF wf(2)] by (simp add: t')
    qed
    moreover have "groups_wf n t'" using wf(1) by (fastforce simp: groups_wf_def t' g)
    ultimately show ?thesis by (simp add: t' g)
  qed
  consider (old) "t' = t" "map_of (gr_arms t) key = Some g" |
      (fresh) "t' = t\<lparr>gr_arms := (key, g) # gr_arms t, gr_groups := gr_groups t @ [replicate n None]\<rparr>" "g = length (gr_groups t)"
  proof (cases "map_of (gr_arms t) key")
    case (Some k)
    then have "k = g" "t' = t" using assms(2) by (simp_all add: arm_group_def)
    with Some old show thesis by simp
  next
    case None
    then have "g = length (gr_groups t)" "t' = t\<lparr>gr_arms := (key, length (gr_groups t)) # gr_arms t, gr_groups := gr_groups t @ [replicate n None]\<rparr>"
      using assms(2) by (auto simp: arm_group_def Let_def)
    with fresh show thesis by simp
  qed
  then have "placing n i bs s t' \<and> g < length (gr_groups t') \<and> gr_index t' = gr_index t"
  proof cases
    case old
    then have "(key, g) \<in> set (gr_arms t)" by (simp add: map_of_SomeD)
    with old wf(1) assms(1) show ?thesis by (force simp: groups_wf_def)
  next
    case fresh
    with new [OF fresh] assms(1) show ?thesis
      unfolding placing_def using only_target_trans [of n i "gr_groups s" "gr_groups t"] by simp
  qed
  then show "placing n i bs s t'" "g < length (gr_groups t')" "gr_index t' = gr_index t" by auto
qed

lemma arm_groups_placing:
  "arm_groups n f i arm position b t = Inr u \<Longrightarrow> placing n i (bb_ids f) s t \<Longrightarrow> i < n \<Longrightarrow> placing n i (bb_ids f) s u"
proof (induction n f i arm position b t rule: arm_groups.induct)
  case (1 n f i arm position b t)
  show ?case
  proof (cases "map_of (gr_index t) b")
    case None
    obtain g t' where g: "arm_group n (fst arm, fst (snd arm), snd (snd arm), position) t = (g, t')" by fastforce
    from 1(2) None g obtain next' where n': "block_terminator f (Some b) = Some (BranchT [next'])"
      "arm_groups n f i arm (position + 1) next' (place_block i b g t') = Inr u"
      by (subst (asm) arm_groups.simps) (auto split: option.splits terminator.splits list.splits)
    then have "b \<in> set (bb_ids f)"
      by (auto simp: block_terminator_def find_bb_def bb_ids_def bind_eq_Some_conv find_Some_iff)
    moreover note a = arm_group_placing [OF 1(3) g 1(4)]
    ultimately have "placing n i (bb_ids f) s (place_block i b g t')"
      using None 1(4) by (intro place_block_placing) auto
    from 1(1) [OF _ g [symmetric] n'(1) refl refl refl n'(2) this 1(4)] None show ?thesis by simp
  qed (use 1(2,3) in \<open>simp add: arm_groups.simps\<close>)
qed

lemma shared_pairs_placing:
  assumes "placing n i bs s t" "i < n" "distinct (List.map_filter bp_right ps)"
    and "set (List.map_filter bp_right ps) \<subseteq> set bs" "\<forall>r \<in> set (List.map_filter bp_right ps). map_of (gr_index t) r = None"
    and "\<forall>p \<in> set ps. \<forall>l. bp_left p = Some l \<longrightarrow> lookup0 base l < length (gr_groups s)"
  shows "placing n i bs s (fold (shared_pair base i) ps t)"
  using assms
proof (induction ps arbitrary: t)
  case (Cons p ps)
  show ?case
  proof (cases "bp_left p = None \<or> bp_right p = None")
    case True
    then have "shared_pair base i p t = t" by (auto simp: shared_pair_def split: option.splits)
    with Cons show ?thesis by (auto simp: map_filter_simps split: option.splits)
  next
    case False
    then obtain l r where p: "bp_left p = Some l" "bp_right p = Some r" by auto
    let ?t = "place_block i r (lookup0 base l) t"
    have "length (gr_groups s) \<le> length (gr_groups t)" using Cons.prems(1) by (simp add: placing_def only_target_def)
    moreover have "lookup0 base l < length (gr_groups s)" using Cons.prems(6) p by simp
    ultimately have "placing n i bs s ?t"
      using Cons.prems p by (intro place_block_placing) (auto simp: map_filter_simps)
    moreover have "\<forall>x \<in> set (List.map_filter bp_right ps). map_of (gr_index ?t) x = None"
      using Cons.prems(3,5) p by (auto simp: map_filter_simps place_block_def)
    ultimately have "placing n i bs s (fold (shared_pair base i) ps ?t)"
      using Cons.prems p by (intro Cons.IH) (auto simp: map_filter_simps)
    moreover have "shared_pair base i p t = ?t" by (simp add: shared_pair_def p)
    ultimately show ?thesis by simp
  qed
qed simp

lemma conditional_cases_placing:
  assumes "foldE (conditional_case n base f i pr w width) cs t = Inr u" "placing n i (bb_ids f) s t" "i < n"
  shows "placing n i (bb_ids f) s u"
  using assms(1,2)
proof (induction cs arbitrary: t)
  case (Cons c cs)
  then obtain v where v: "conditional_case n base f i pr w width c t = Inr v"
    "foldE (conditional_case n base f i pr w width) cs v = Inr u" by (auto simp: bindE_Inr_iff)
  from v(1) Cons.prems(2) assms(3) have "placing n i (bb_ids f) s v"
    by (auto simp: conditional_case_def split: if_splits option.splits intro: arm_groups_placing)
  with v(2) show ?case by (rule Cons.IH)
qed simp

lemma switches_placing:
  assumes "foldE (\<lambda>w. foldE (conditional_case n base f i pr w (g w)) (sp_cases w)) ws t = Inr u" "placing n i (bb_ids f) s t" "i < n"
  shows "placing n i (bb_ids f) s u"
  using assms(1,2)
proof (induction ws arbitrary: t)
  case (Cons w ws)
  then obtain v where v: "foldE (conditional_case n base f i pr w (g w)) (sp_cases w) t = Inr v"
    "foldE (\<lambda>w. foldE (conditional_case n base f i pr w (g w)) (sp_cases w)) ws v = Inr u" by (auto simp: bindE_Inr_iff)
  from conditional_cases_placing [OF v(1) Cons.prems(2) assms(3)] show ?case by (rule Cons.IH [OF v(2)])
qed simp

text \<open>A further function: its column is filled, the others are kept.\<close>

lemma place_function_ok:
  assumes run: "place_function ids (bi, f0, left, base) (i, f, right) (s, indices) = Inr (s', indices')"
    and ids: "bb_ids left = map block_id (function_region f0)" "bb_ids right = map block_id (function_region f)"
      "distinct (bb_ids left)" "distinct (bb_ids right)"
    and base: "\<forall>l \<in> set (bb_ids left). lookup0 base l < length (gr_groups s)"
    and s: "groups_wf (length ids) s" "\<forall>g < length (gr_groups s). gr_groups s ! g ! i = None" "i < length ids"
  shows "\<exists>I. indices' = indices @ [I] \<and> groups_wf (length ids) s' \<and> only_target (length ids) i (gr_groups s) (gr_groups s') \<and>
    column i (bb_ids right) I (gr_groups s') \<and> (\<forall>b \<in> set (bb_ids right). map_of I b \<noteq> None)"
proof -
  from pairConditionalCFG_result [OF ids(3,4)] obtain r where r: "pairConditionalCFG left right = Some r"
    "\<And>cfg. r = Inr cfg \<Longrightarrow> List.map_filter bp_left (cc_blocks cfg) = bb_ids left \<and> List.map_filter bp_right (cc_blocks cfg) = bb_ids right"
    by blast
  from run r(1) obtain p where p: "r = Inr p" and
    run': "foldE (\<lambda>w. foldE (conditional_case (length ids) base right i p w (switch_width right (sp_right w))) (sp_cases w))
        (cc_switches p) (fold (shared_pair base i) (cc_blocks p) (s\<lparr>gr_index := []\<rparr>)) = Inr s'"
    "\<not> list_ex (\<lambda>b. map_of (gr_index s') (block_id b) = None) (function_region f)" "indices' = indices @ [gr_index s']"
    by (cases r) (auto simp: place_function_def bindE_Inr_iff split: if_splits)
  let ?t = "s\<lparr>gr_index := []\<rparr>"
  have "column i (bb_ids right) [] (gr_groups s)" by (rule columnI) (use s(2) in auto)
  then have "placing (length ids) i (bb_ids right) ?t ?t" using s(1) by (simp add: placing_def groups_wf_def)
  moreover have "lookup0 base l < length (gr_groups ?t)" if "x \<in> set (cc_blocks p)" "bp_left x = Some l" for x l
  proof -
    have "l \<in> set (List.map_filter bp_left (cc_blocks p))" using that by (force simp: map_filter_def)
    then show ?thesis using r(2) [OF p] base by simp
  qed
  ultimately have "placing (length ids) i (bb_ids right) ?t (fold (shared_pair base i) (cc_blocks p) ?t)"
    using r(2) [OF p] ids(4) s(3) by (intro shared_pairs_placing) auto
  from switches_placing [OF run'(1) this s(3)] have "placing (length ids) i (bb_ids right) ?t s'" .
  with run'(2,3) ids(2) show ?thesis by (auto simp: placing_def list_ex_iff)
qed

text \<open>A column with a slot for every block of its target.\<close>

definition filled :: "nat option list list \<Rightarrow> nat \<times> nat list \<Rightarrow> (nat \<times> nat) list \<Rightarrow> bool" where
  "filled G d I \<longleftrightarrow> column (fst d) (snd d) I G \<and> (\<forall>b \<in> set (snd d). map_of I b \<noteq> None)"

lemma place_functions_ok:
  assumes "foldE (place_function ids (bi, f0, left, base)) xs (s, indices) = Inr (s', indices')"
    and "bb_ids left = map block_id (function_region f0)" "distinct (bb_ids left)"
    and "\<forall>(i, f, g) \<in> set xs. bb_ids g = map block_id (function_region f) \<and> distinct (bb_ids g) \<and> i < length ids"
    and "distinct (map fst ds @ map fst xs)" "\<forall>d \<in> set ds. fst d < length ids"
    and "\<forall>l \<in> set (bb_ids left). lookup0 base l < length (gr_groups s)" "groups_wf (length ids) s"
    and "\<forall>g < length (gr_groups s). \<forall>j < length ids. j \<notin> fst ` set ds \<longrightarrow> gr_groups s ! g ! j = None"
    and "list_all2 (filled (gr_groups s)) ds indices"
  shows "groups_wf (length ids) s' \<and> list_all2 (filled (gr_groups s'))
      (ds @ map (\<lambda>(i, f, g). (i, bb_ids g)) xs) indices'"
  using assms
proof (induction xs arbitrary: ds s indices)
  case (Cons x xs)
  obtain i f g where x: "x = (i, f, g)" by (cases x) auto
  let ?n = "length ids"
  from Cons.prems(1) obtain t indices1 where t: "place_function ids (bi, f0, left, base) (i, f, g) (s, indices) = Inr (t, indices1)"
    "foldE (place_function ids (bi, f0, left, base)) xs (t, indices1) = Inr (s', indices')" by (auto simp: x bindE_Inr_iff)
  have i: "bb_ids g = map block_id (function_region f)" "distinct (bb_ids g)" "i < ?n" "i \<notin> fst ` set ds"
    using Cons.prems(4,5) by (auto simp: x)
  from place_function_ok [OF t(1) Cons.prems(2) i(1) Cons.prems(3) i(2) Cons.prems(7,8) _ i(3)] Cons.prems(9) i(3,4)
  obtain I where I: "indices1 = indices @ [I]" "groups_wf ?n t" "only_target ?n i (gr_groups s) (gr_groups t)"
    "column i (bb_ids g) I (gr_groups t)" "\<forall>b \<in> set (bb_ids g). map_of I b \<noteq> None" by auto
  have len: "length (gr_groups s) \<le> length (gr_groups t)" using I(3) by (simp add: only_target_def)
  have "groups_wf ?n s' \<and> list_all2 (filled (gr_groups s'))
      ((ds @ [(i, bb_ids g)]) @ map (\<lambda>(i, f, g). (i, bb_ids g)) xs) indices'"
  proof (rule Cons.IH [OF t(2) Cons.prems(2,3)])
    show "list_all2 (filled (gr_groups t)) (ds @ [(i, bb_ids g)]) indices1"
      unfolding I(1)
    proof (rule list_all2_appendI)
      show "list_all2 (filled (gr_groups t)) ds indices"
        using Cons.prems(10)
      proof (rule list.rel_mono_strong)
        fix d I assume d: "d \<in> set ds" "filled (gr_groups s) d I"
        moreover from d(1) i(4) have "fst d \<noteq> i" by auto
        ultimately show "filled (gr_groups t) d I"
          using column_kept [OF _ I(3)] Cons.prems(6) by (simp add: filled_def)
      qed
    qed (use I(4,5) in \<open>simp add: filled_def\<close>)
    show "\<forall>k < length (gr_groups t). \<forall>j < ?n. j \<notin> fst ` set (ds @ [(i, bb_ids g)]) \<longrightarrow> gr_groups t ! k ! j = None"
      using I(3) Cons.prems(9) by (simp add: only_target_def)
  qed (use Cons.prems(4-7) I(2) len i(3) in \<open>auto simp: x\<close>)
  then show ?case by (simp add: x)
qed simp

lemma function_graph_ids: "function_graph verifies f = Inr g \<Longrightarrow> bb_ids g = map block_id (function_region f)"
proof -
  assume "function_graph verifies f = Inr g"
  then have "list_all2 (\<lambda>p b. graph_block (region_values (function_region f)) p = Inr b) (List.enumerate 0 (function_region f)) g"
    by (auto simp: function_graph_def Let_def bindE_Inr_iff mapE_Inr_iff split: if_splits)
  then have "list_all2 (\<lambda>p b. bb_id b = block_id (snd p)) (List.enumerate 0 (function_region f)) g"
    by (rule list_all2_mono) (auto simp: graph_block_def bindE_Inr_iff split: if_splits)
  then have "map bb_id g = map (\<lambda>p. block_id (snd p)) (List.enumerate 0 (function_region f))"
    by (auto simp: list_all2_conv_all_nth intro!: nth_equalityI)
  also have "\<dots> = map block_id (map snd (List.enumerate 0 (function_region f)))" by (simp only: map_map comp_def)
  finally show ?thesis by (simp only: bb_ids_def map_snd_enumerate)
qed

text \<open>An order that keeps the order of a filled column lists the blocks of its target in their order.\<close>

lemma filled_projection:
  assumes "filled G (j, bs) I" "keeps_order (map (lookup0 I) bs) ordered" "set ordered = {..<length G}"
  shows "List.map_filter (\<lambda>g. g ! j) (map (\<lambda>k. G ! k) ordered) = bs"
proof -
  let ?xs = "map (lookup0 I) bs"
  have col: "column j bs I G" and all: "\<And>b. b \<in> set bs \<Longrightarrow> map_of I b = Some (lookup0 I b)"
    using assms(1) by (auto simp: filled_def lookup0_def split: option.splits)
  have dist: "distinct ?xs" using assms(2) distinct_filter by (metis keeps_order_def)
  have at: "G ! lookup0 I b ! j = Some b" if b: "b \<in> set bs" for b
  proof -
    from column_index [OF col all [OF b]] obtain b' where b': "G ! lookup0 I b ! j = Some b'" "map_of I b' = Some (lookup0 I b)" .
    from column_index [OF col b'(2)] have "b' \<in> set bs" .
    moreover have "lookup0 I b' = lookup0 I b" using b'(2) by (simp add: lookup0_def)
    ultimately have "b' = b" using dist b by (auto simp: distinct_map dest: inj_onD)
    with b'(1) show ?thesis by simp
  qed
  have mem: "G ! k ! j \<noteq> None \<longleftrightarrow> k \<in> set ?xs" if k: "k < length G" for k
  proof
    assume "G ! k ! j \<noteq> None"
    then obtain b where b: "G ! k ! j = Some b" by auto
    from column_slot [OF col k b] have I: "map_of I b = Some k" .
    from column_index [OF col this] have "b \<in> set bs" .
    moreover have "k = lookup0 I b" using I by (simp add: lookup0_def)
    ultimately show "k \<in> set ?xs" by simp
  qed (use at in auto)
  have "List.map_filter (\<lambda>g. g ! j) (map (\<lambda>k. G ! k) ordered) =
      map (\<lambda>k. the (G ! k ! j)) (filter (\<lambda>k. G ! k ! j \<noteq> None) ordered)"
    by (simp add: map_filter_def filter_map comp_def)
  also have "filter (\<lambda>k. G ! k ! j \<noteq> None) ordered = filter (\<lambda>k. k \<in> set ?xs) ordered"
    using mem assms(3) by (intro filter_cong) auto
  also have "\<dots> = ?xs" using assms(2) by (simp only: keeps_order_def)
  also have "map (\<lambda>k. the (G ! k ! j)) ?xs = bs" using at by (simp add: map_idI)
  finally show ?thesis .
qed

lemma map_of_zip_upto:
  assumes "distinct bs"
  shows "map_of (zip bs [0..<length bs]) b = Some k \<longleftrightarrow> k < length bs \<and> bs ! k = b"
proof -
  have "map_of (zip bs [0..<length bs]) b = Some k \<longleftrightarrow> (b, k) \<in> set (zip bs [0..<length bs])"
    using assms by (intro map_of_eq_Some_iff) simp
  then show ?thesis by (auto simp: in_set_zip)
qed

lemma correspondence_ok:
  assumes run: "correspondence verifies ids fs = Inr groups" and fs: "fs \<noteq> []" "distinct (map fst fs)"
    and f: "\<forall>(i, f) \<in> set fs. i < length ids \<and> distinct (map block_id (function_region f))"
  shows "(\<forall>g \<in> set groups. length g = length ids) \<and>
    (\<forall>(i, f) \<in> set fs. List.map_filter (\<lambda>g. g ! i) groups = map block_id (function_region f))"
proof -
  obtain bi f0 fs' where fs': "fs = (bi, f0) # fs'" using fs(1) by (cases fs) auto
  let ?n = "length ids" and ?bs = "map block_id (function_region f0)"
  let ?base = "zip ?bs [0..<length ?bs]"
  let ?s = "\<lparr>gr_groups = map (\<lambda>b. (replicate ?n None)[bi := Some b]) ?bs, gr_arms = [], gr_index = ?base\<rparr>"
  from run obtain inputs s' indices ordered where
    inputs: "mapE (\<lambda>(i, f). function_graph verifies f) fs = Inr inputs" and
    place: "foldE (place_function ids (bi, f0, hd inputs, ?base)) (map (\<lambda>((i, f), g). (i, f, g)) (zip fs' (tl inputs)))
        (?s, [?base]) = Inr (s', indices)" and
    order: "common_order (length (gr_groups s'))
        (map (\<lambda>((i, f), index). map (\<lambda>b. lookup0 index (block_id b)) (function_region f)) (zip fs indices)) = Some ordered" and
    groups: "groups = map (\<lambda>i. gr_groups s' ! i) ordered"
    by (auto simp: correspondence_def fs' Let_def bindE_Inr_iff split: option.splits)
  obtain left rights where in': "inputs = left # rights" "function_graph verifies f0 = Inr left"
    "list_all2 (\<lambda>p g. function_graph verifies (snd p) = Inr g) fs' rights"
    using inputs by (auto simp: fs' bindE_Inr_iff mapE_Inr_iff case_prod_unfold)
  note left = function_graph_ids [OF in'(2)]
  have rights: "list_all2 (\<lambda>p g. bb_ids g = map block_id (function_region (snd p))) fs' rights"
    using in'(3) by (rule list_all2_mono) (rule function_graph_ids)
  let ?xs = "map (\<lambda>((i, f), g). (i, f, g)) (zip fs' rights)"
  have len: "length rights = length fs'" using rights by (simp add: list_all2_lengthD)
  have d0: "distinct ?bs" "bi < ?n" using f by (auto simp: fs')
  have base: "map_of ?base b = Some k \<longleftrightarrow> k < length ?bs \<and> ?bs ! k = b" for b k
    by (rule map_of_zip_upto [OF d0(1)])
  let ?G = "gr_groups ?s"
  have G: "?G ! k ! j = (if j = bi then Some (?bs ! k) else None)" if "k < length ?bs" "j < ?n" for k j
    using that d0(2) by (simp add: nth_list_update)
  have "filled ?G (bi, ?bs) ?base"
    unfolding filled_def fst_conv snd_conv
  proof (rule conjI [OF columnI], goal_cases)
    case (1 b k)
    then have b: "k < length ?bs" "?bs ! k = b" by (simp_all only: base)
    with G [OF b(1) d0(2)] have "?G ! k ! bi = Some b" by simp
    moreover have "map_of ?base b = Some k" using b by (simp only: base)
    moreover have "b \<in> set ?bs" using b nth_mem by blast
    ultimately show "b \<in> set ?bs \<and> k < length ?G \<and> (\<exists>b'. ?G ! k ! bi = Some b' \<and> map_of ?base b' = Some k)"
      using b(1) by auto
  next
    case (2 k b)
    then have "k < length ?bs" by simp
    moreover from G [OF this d0(2)] 2(2) have "?bs ! k = b" by simp
    ultimately show "map_of ?base b = Some k" by (simp only: base)
  next
    case 3
    show ?case
    proof
      fix b assume "b \<in> set ?bs"
      then obtain k where "k < length ?bs" "?bs ! k = b" by (metis in_set_conv_nth)
      then have "map_of ?base b = Some k" by (simp only: base)
      then show "map_of ?base b \<noteq> None" by simp
    qed
  qed
  moreover have "lookup0 ?base l < length ?G" if "l \<in> set ?bs" for l
  proof -
    from that obtain k where "k < length ?bs" "?bs ! k = l" by (metis in_set_conv_nth)
    then have "map_of ?base l = Some k" by (simp only: base)
    with \<open>k < length ?bs\<close> show ?thesis by (simp add: lookup0_def)
  qed
  moreover have "\<forall>g < length ?G. \<forall>j < ?n. j \<notin> fst ` set [(bi, ?bs)] \<longrightarrow> ?G ! g ! j = None"
    using G by auto
  moreover have "groups_wf ?n ?s" by (auto simp: groups_wf_def)
  moreover have xs: "\<forall>(i, f, g) \<in> set ?xs. bb_ids g = map block_id (function_region f) \<and> distinct (bb_ids g) \<and> i < ?n"
  proof clarify
    fix i f g assume "(i, f, g) \<in> set ?xs"
    then have p: "((i, f), g) \<in> set (zip fs' rights)" by auto
    then have "bb_ids g = map block_id (function_region f)" using rights unfolding list_all2_iff by fastforce
    moreover have "(i, f) \<in> set fs" using set_zip_leftD [OF p] by (simp add: fs')
    ultimately show "bb_ids g = map block_id (function_region f) \<and> distinct (bb_ids g) \<and> i < ?n" using assms(4) by auto
  qed
  moreover have "map fst ?xs = map fst fs'"
    using len by (induction fs' rights rule: list_induct2') auto
  then have "distinct (map fst [(bi, ?bs)] @ map fst ?xs)" using fs(2) by (simp add: fs')
  ultimately have "groups_wf ?n s' \<and>
      list_all2 (filled (gr_groups s')) ([(bi, ?bs)] @ map (\<lambda>(i, f, g). (i, bb_ids g)) ?xs) indices"
    using place_functions_ok [of ids bi f0 left ?base ?xs ?s "[?base]" s' indices "[(bi, ?bs)]"] place left d0
    by (simp add: in'(1))
  moreover have "[(bi, ?bs)] @ map (\<lambda>(i, f, g). (i, bb_ids g)) ?xs = map (\<lambda>(i, f). (i, map block_id (function_region f))) fs"
    using rights by (simp add: fs') (induction fs' rights rule: list_all2_induct, auto)
  ultimately have wf: "groups_wf ?n s'" and
    fill: "list_all2 (\<lambda>(i, f) I. filled (gr_groups s') (i, map block_id (function_region f)) I) fs indices"
    by (auto simp: list_all2_map1 case_prod_unfold)
  let ?order = "\<lambda>((i, f), I). map (\<lambda>b. lookup0 I (block_id b)) (function_region f)"
  have "\<forall>xs \<in> set (map ?order (zip fs indices)). set xs \<subseteq> {..<length (gr_groups s')}"
  proof clarsimp
    fix i f I b assume p: "((i, f), I) \<in> set (zip fs indices)" "b \<in> set (function_region f)"
    with fill have "filled (gr_groups s') (i, map block_id (function_region f)) I" by (auto simp: list_all2_iff)
    with p(2) obtain k where k: "column i (map block_id (function_region f)) I (gr_groups s')" "map_of I (block_id b) = Some k"
      by (auto simp: filled_def)
    from column_index [OF this] have "k < length (gr_groups s')" .
    with k(2) show "lookup0 I (block_id b) < length (gr_groups s')" by (simp add: lookup0_def)
  qed
  from common_order_ok [OF this] order
  have ext: "extends_orders (length (gr_groups s')) (map ?order (zip fs indices)) ordered" by simp
  have "List.map_filter (\<lambda>g. g ! i) groups = map block_id (function_region f)" if "(i, f) \<in> set fs" for i f
  proof -
    from that fill obtain I where I: "((i, f), I) \<in> set (zip fs indices)"
      by (metis in_set_impl_in_set_zip1 list_all2_lengthD)
    with fill have "filled (gr_groups s') (i, map block_id (function_region f)) I" by (auto simp: list_all2_iff)
    moreover have "keeps_order (map (lookup0 I) (map block_id (function_region f))) ordered"
      using ext I by (force simp: extends_orders_def comp_def)
    moreover have "set ordered = {..<length (gr_groups s')}" using ext by (simp add: extends_orders_def)
    ultimately show ?thesis unfolding groups by (rule filled_projection)
  qed
  moreover have "length g = ?n" if "g \<in> set groups" for g
  proof -
    from that obtain k where "k \<in> set ordered" "g = gr_groups s' ! k" by (auto simp: groups)
    moreover from this(1) ext have "k < length (gr_groups s')" by (auto simp: extends_orders_def)
    ultimately show ?thesis using wf by (simp add: groups_wf_def)
  qed
  ultimately show ?thesis by blast
qed

end
