(* ===== verification/Common_Operation_Facts.thy ===== *)
theory Common_Operation_Facts
  imports Common_Merge_Facts
begin

text \<open>
  Merged operations: read at one of the targets, a merged operation is that target's operation, its operands
  and results renamed. A shared value stands for at most one value of a target.
\<close>

section \<open>Shared values\<close>

text \<open>A naming gives every shared value the values it stands for.\<close>

type_synonym naming = "nat \<Rightarrow> nat option list option"

definition shared_value :: "naming \<Rightarrow> nat \<Rightarrow> nat \<Rightarrow> nat option" where
  "shared_value H i v = Option.bind (H v) (\<lambda>k. k ! i)"

definition naming_ok :: "nat \<Rightarrow> naming \<Rightarrow> merger \<Rightarrow> bool" where
  "naming_ok n H m \<longleftrightarrow> (\<forall>p \<in> set (mg_values m). H (snd p) = Some (fst p)) \<and>
     (\<forall>v k. H v = Some k \<longrightarrow> v < mg_fresh m \<and> length k = n)"

lemma shared_value_mono: "shared_value H i v = Some x \<Longrightarrow> H \<subseteq>\<^sub>m H' \<Longrightarrow> shared_value H' i v = Some x"
  by (auto simp: shared_value_def bind_eq_Some_conv map_le_def dom_def)

lemma fold_update_other:
  "(\<forall>p \<in> set obs. fst p \<noteq> i) \<Longrightarrow> fold (\<lambda>(i, v) r. r[i := Some v]) obs r ! i = r ! i"
  by (induction obs arbitrary: r) auto

lemma length_fold_update: "length (fold (\<lambda>(i, v) r. r[i := Some v]) obs r) = length r"
  by (induction obs arbitrary: r) auto

lemma value_key_length [simp]: "length (value_key n obs) = n"
  by (simp add: value_key_def length_fold_update)

lemma value_key_at:
  assumes "distinct (map fst obs)" "(i, v) \<in> set obs" "i < n"
  shows "value_key n obs ! i = Some v"
proof -
  have "fold (\<lambda>(i, v) r. r[i := Some v]) obs r ! i = Some v" if "i < length r" for r :: "nat option list"
    using assms(1,2) that
  proof (induction obs arbitrary: r)
    case (Cons p obs)
    obtain j w where p: "p = (j, w)" by fastforce
    show ?case
    proof (cases "(i, v) \<in> set obs")
      case True
      then have "fold (\<lambda>(i, v) r. r[i := Some v]) obs (r[j := Some w]) ! i = Some v"
        using Cons.prems by (intro Cons.IH) auto
      then show ?thesis by (simp add: p)
    next
      case False
      with Cons.prems p have "j = i" "w = v" "\<forall>q \<in> set obs. fst q \<noteq> i" by force+
      then show ?thesis using Cons.prems(3) fold_update_other [of obs i "r[i := Some v]"] by (simp add: p)
    qed
  qed simp
  from this [of "replicate n None"] assms(3) show ?thesis by (simp add: value_key_def)
qed

lemma match_candidates:
  "foldE (match_candidate tuple) vs r = Inr (Some v) \<Longrightarrow> r = Some v \<or>
   (\<exists>k. (k, v) \<in> set vs \<and> (\<forall>i < length tuple. tuple ! i \<noteq> None \<longrightarrow> k ! i = tuple ! i))"
proof (induction vs arbitrary: r)
  case (Cons c vs)
  then obtain u where u: "match_candidate tuple c r = Inr u" "foldE (match_candidate tuple) vs u = Inr (Some v)"
    by (auto simp: bindE_Inr_iff)
  obtain k w where c: "c = (k, w)" by fastforce
  have "u = r \<or> (u = Some w \<and> (\<forall>i < length tuple. tuple ! i \<noteq> None \<longrightarrow> k ! i = tuple ! i))"
  proof (cases "list_ex (\<lambda>i. tuple ! i \<noteq> None \<and> k ! i \<noteq> tuple ! i) [0..<length tuple]")
    case True
    with u(1) show ?thesis by (simp add: match_candidate_def c)
  next
    case False
    then have "\<forall>i < length tuple. tuple ! i \<noteq> None \<longrightarrow> k ! i = tuple ! i"
      unfolding list_ex_iff set_upt by (meson atLeastLessThan_iff zero_le)
    with False u(1) show ?thesis by (simp add: match_candidate_def c split: if_splits)
  qed
  with Cons.IH [OF u(2)] show ?case unfolding c by (metis list.set_intros option.inject)
qed simp

lemma operand_ok:
  assumes "operand n obs m = Inr v" "naming_ok n H m" "distinct (map fst obs)" "(i, x) \<in> set obs" "i < n"
  shows "shared_value H i v = Some x"
proof -
  let ?t = "value_key n obs"
  have at: "?t ! i = Some x" by (rule value_key_at [OF assms(3-5)])
  have "\<exists>k. (k, v) \<in> set (mg_values m) \<and> k ! i = Some x"
  proof (cases "map_of (mg_values m) ?t")
    case None
    with assms(1) have "foldE (match_candidate ?t) (mg_values m) None = Inr (Some v)"
      by (auto simp: operand_def Let_def bindE_Inr_iff split: option.splits)
    from match_candidates [OF this] at assms(5) show ?thesis by auto
  next
    case (Some w)
    with assms(1) have "map_of (mg_values m) ?t = Some v" by (simp add: operand_def Let_def)
    then show ?thesis using map_of_SomeD at by metis
  qed
  then obtain k where k: "(k, v) \<in> set (mg_values m)" "k ! i = Some x" by blast
  with assms(2) have "H v = Some k" by (auto simp: naming_ok_def)
  with k(2) show ?thesis by (simp add: shared_value_def)
qed

text \<open>What a step of the merger keeps.\<close>

definition merger_grows :: "nat \<Rightarrow> naming \<Rightarrow> merger \<Rightarrow> naming \<Rightarrow> merger \<Rightarrow> bool" where
  "merger_grows n H m H' m' \<longleftrightarrow> naming_ok n H' m' \<and> H \<subseteq>\<^sub>m H' \<and> identities_ok n (mg_ids m') \<and>
     extends_identities (mg_ids m) (mg_ids m') \<and> mg_blocks m' = mg_blocks m"

definition merger_ok :: "nat \<Rightarrow> naming \<Rightarrow> merger \<Rightarrow> bool" where
  "merger_ok n H m \<longleftrightarrow> naming_ok n H m \<and> identities_ok n (mg_ids m)"

lemma merger_grows_refl: "merger_ok n H m \<Longrightarrow> merger_grows n H m H m"
  by (simp add: merger_grows_def merger_ok_def)

lemma merger_grows_trans: "merger_grows n H m I u \<Longrightarrow> merger_grows n I u J w \<Longrightarrow> merger_grows n H m J w"
  using identities_trans map_le_trans by (fastforce simp: merger_grows_def)

lemma grows_ok: "merger_grows n H m H' m' \<Longrightarrow> merger_ok n H' m'"
  by (simp add: merger_grows_def merger_ok_def)

lemma set_alist_update: "set (AList.update k v al) \<subseteq> insert (k, v) (set al)"
  by (induction al) auto

lemma new_value_ok:
  assumes "new_value n obs m = (v, m')" "merger_ok n H m"
  shows "merger_grows n H m (H(v \<mapsto> value_key n obs)) m'"
    and "distinct (map fst obs) \<Longrightarrow> (i, x) \<in> set obs \<Longrightarrow> i < n \<Longrightarrow> shared_value (H(v \<mapsto> value_key n obs)) i v = Some x"
proof -
  have v: "v = mg_fresh m" and m': "m' = m\<lparr>mg_values := AList.update (value_key n obs) v (mg_values m), mg_fresh := mg_fresh m + 1\<rparr>"
    using assms(1) by (auto simp: new_value_def)
  have fresh: "H v = None" using assms(2) by (cases "H v") (auto simp: merger_ok_def naming_ok_def v)
  have "naming_ok n (H(v \<mapsto> value_key n obs)) m'"
    unfolding naming_ok_def
  proof (intro conjI ballI allI impI)
    fix p assume "p \<in> set (mg_values m')"
    then have "p = (value_key n obs, v) \<or> p \<in> set (mg_values m)" using set_alist_update by (fastforce simp: m')
    then show "(H(v \<mapsto> value_key n obs)) (snd p) = Some (fst p)"
      using assms(2) fresh by (auto simp: merger_ok_def naming_ok_def)
  next
    fix w k assume "(H(v \<mapsto> value_key n obs)) w = Some k"
    then show "w < mg_fresh m'" "length k = n"
      using assms(2) by (auto simp: merger_ok_def naming_ok_def m' v less_Suc_eq split: if_splits)
  qed
  moreover have "H \<subseteq>\<^sub>m H(v \<mapsto> value_key n obs)" using fresh by (auto simp: map_le_def dom_def)
  ultimately show "merger_grows n H m (H(v \<mapsto> value_key n obs)) m'" using assms(2) by (simp add: merger_grows_def m' merger_ok_def)
  show "distinct (map fst obs) \<Longrightarrow> (i, x) \<in> set obs \<Longrightarrow> i < n \<Longrightarrow> shared_value (H(v \<mapsto> value_key n obs)) i v = Some x"
    by (simp add: shared_value_def value_key_at)
qed

lemma typed_ok:
  assumes "typed f m = Inr (r, m')" "merger_ok n H m"
    and "\<And>s'. f (mg_ids m) = Inr (r, s') \<Longrightarrow> identities_ok n s' \<and> extends_identities (mg_ids m) s' \<and> P s'"
  shows "merger_grows n H m H m' \<and> P (mg_ids m')"
  using assms by (auto simp: typed_def bindE_Inr_iff merger_grows_def merger_ok_def naming_ok_def)

section \<open>Attributes\<close>

definition registered :: "string list \<Rightarrow> bool" where
  "registered ids \<longleftrightarrow> distinct ids \<and> (\<forall>t \<in> set ids. \<exists>info. targets_find t = Some info \<and> target_id info = t)"

text \<open>An operation as a producer leaves it for one target.\<close>

definition native_op :: "string \<Rightarrow> op \<Rightarrow> bool" where
  "native_op t x \<longleftrightarrow> (\<forall>p \<in> set (op_results x). concrete_type t (snd p)) \<and>
     (\<forall>p \<in> set (op_attrs x). settled t (numeric_field (fst p)) (snd p))"

definition type_at :: "string list \<Rightarrow> identities \<Rightarrow> nat \<Rightarrow> sty \<Rightarrow> sty \<Rightarrow> bool" where
  "type_at ids s i t u \<longleftrightarrow>
     (\<forall>info. targets_find (ids ! i) = Some info \<longrightarrow> (\<exists>v. specializeType t info = Inr v \<and> shared_type s i u v))"

definition attr_at :: "string list \<Rightarrow> identities \<Rightarrow> nat \<Rightarrow> bool \<Rightarrow> attr \<Rightarrow> attr \<Rightarrow> bool" where
  "attr_at ids s i numeric a u \<longleftrightarrow>
     (\<forall>info. targets_find (ids ! i) = Some info \<longrightarrow> (\<exists>v. specializeAttribute a info numeric = Inr v \<and> shared_attr s i u v))"

text \<open>The merged attributes at a target, but for those that are omitted.\<close>

definition attrs_at :: "string list \<Rightarrow> identities \<Rightarrow> nat \<Rightarrow> string list \<Rightarrow> dict \<Rightarrow> dict \<Rightarrow> bool" where
  "attrs_at ids s i omitted merged attrs \<longleftrightarrow>
     (\<forall>k. k \<notin> set omitted \<longrightarrow>
        (case map_of attrs k of
           None \<Rightarrow> map_of merged k = None
         | Some u \<Rightarrow> \<exists>a. map_of merged k = Some a \<and> attr_at ids s i (numeric_field k) a u))"

lemma type_at_extends: "type_at ids s i t u \<Longrightarrow> extends_identities s s' \<Longrightarrow> type_at ids s' i t u"
  unfolding type_at_def using shared_type_extends by blast

lemma attr_at_extends: "attr_at ids s i b t u \<Longrightarrow> extends_identities s s' \<Longrightarrow> attr_at ids s' i b t u"
  unfolding attr_at_def using shared_attr_extends by blast

lemma attrs_at_extends: "attrs_at ids s i om d e \<Longrightarrow> extends_identities s s' \<Longrightarrow> attrs_at ids s' i om d e"
proof -
  assume d: "attrs_at ids s i om d e" and s: "extends_identities s s'"
  show "attrs_at ids s' i om d e"
    unfolding attrs_at_def
  proof (intro allI impI)
    fix k assume k: "k \<notin> set om"
    show "case map_of e k of None \<Rightarrow> map_of d k = None
        | Some u \<Rightarrow> \<exists>a. map_of d k = Some a \<and> attr_at ids s' i (numeric_field k) a u"
    proof (cases "map_of e k")
      case (Some u)
      with d k obtain a where "map_of d k = Some a" "attr_at ids s i (numeric_field k) a u" by (fastforce simp: attrs_at_def)
      with Some show ?thesis using attr_at_extends [OF _ s] by simp
    next
      case None
      with d k have "map_of d k = None" by (fastforce simp: attrs_at_def)
      with None show ?thesis by simp
    qed
  qed
qed

lemma merge_entries_ok:
  assumes "foldE (merge_entry ids ops omitted) fs (r, s) = Inr (r', s')" "observed ids ops" "registered ids"
    and "\<forall>(i, x) \<in> set ops. native_op (ids ! i) x" "identities_ok (length ids) s"
  shows "identities_ok (length ids) s' \<and> extends_identities s s' \<and> (\<exists>zs. r' = r @ zs \<and>
    map fst zs = filter (\<lambda>k. k \<notin> set omitted) (map fst fs) \<and>
    (\<forall>(k, a) \<in> set zs. \<forall>(i, x) \<in> set ops. \<exists>u. op_attr x k = Some u \<and> attr_at ids s' i (numeric_field k) a u))"
  using assms(1,5)
proof (induction fs arbitrary: r s)
  case (Cons f fs)
  obtain k v where f: "f = (k, v)" by fastforce
  from Cons.prems(1) obtain r1 s1 where step: "merge_entry ids ops omitted f (r, s) = Inr (r1, s1)"
    "foldE (merge_entry ids ops omitted) fs (r1, s1) = Inr (r', s')" by (auto simp: bindE_Inr_iff)
  show ?case
  proof (cases "k \<in> set omitted")
    case True
    with step(1) have "r1 = r" "s1 = s" by (auto simp: merge_entry_def f)
    with Cons.IH [OF step(2)] Cons.prems(2) True show ?thesis by (simp add: f)
  next
    case False
    let ?obs = "map (\<lambda>(i, x). (i, the (op_attr x k))) ops"
    from step(1) False obtain a where a: "\<forall>p \<in> set ops. op_attr (snd p) k \<noteq> None"
      "merge_attribute ids ?obs s = Inr (a, s1)" "r1 = r @ [(k, a)]"
      by (auto simp: merge_entry_def f bindE_Inr_iff list_ex_iff case_prod_unfold split: if_splits)
    have "settled_observations ids (numeric_field k) ?obs"
      unfolding settled_observations_def
    proof clarify
      fix i u assume "(i, u) \<in> set ?obs"
      then obtain x where x: "(i, x) \<in> set ops" "op_attr x k = Some u" using a(1) by fastforce
      then have "settled (ids ! i) (numeric_field k) u"
        using assms(4) by (fastforce simp: native_op_def op_attr_def dest: map_of_SomeD)
      moreover have "i < length ids" using assms(2) x(1) by (auto simp: observed_def)
      ultimately show "settled (ids ! i) (numeric_field k) u \<and> (\<exists>info. targets_find (ids ! i) = Some info \<and> target_id info = ids ! i)"
        using assms(3) by (auto simp: registered_def)
    qed
    moreover have "observed ids ?obs" by (rule observed_map [OF assms(2)])
    ultimately have m: "identities_ok (length ids) s1" "extends_identities s s1" "attr_stands_for ids (numeric_field k) ?obs a s1"
      using merge_attribute_ok [OF a(2)] Cons.prems(2) by blast+
    from Cons.IH [OF step(2) m(1)] obtain zs where zs: "identities_ok (length ids) s'" "extends_identities s1 s'" "r' = r1 @ zs"
      "map fst zs = filter (\<lambda>k. k \<notin> set omitted) (map fst fs)"
      "\<forall>(k, a) \<in> set zs. \<forall>(i, x) \<in> set ops. \<exists>u. op_attr x k = Some u \<and> attr_at ids s' i (numeric_field k) a u" by blast
    have "\<exists>u. op_attr x k = Some u \<and> attr_at ids s' i (numeric_field k) a u" if "(i, x) \<in> set ops" for i x
    proof -
      from a(1) that obtain u where u: "op_attr x k = Some u" by fastforce
      with that have "(i, u) \<in> set ?obs" by force
      with m(3) have "attr_at ids s1 i (numeric_field k) a u" by (auto simp: attr_stands_for_def attr_at_def)
      with u zs(2) show ?thesis by (auto intro: attr_at_extends)
    qed
    with zs False identities_trans [OF m(2) zs(2)] show ?thesis
      by (intro conjI exI [of _ "(k, a) # zs"]) (auto simp: f a(3))
  qed
qed simp

lemma map_of_keys: "map fst zs = ks \<Longrightarrow> map_of zs k = None \<longleftrightarrow> k \<notin> set ks"
  by (force simp: map_of_eq_None_iff)

lemma merge_attributes_ok:
  assumes "merge_attributes ids ops omitted s = Inr (d, s')" "observed ids ops" "registered ids"
    and "\<forall>(i, x) \<in> set ops. native_op (ids ! i) x" "identities_ok (length ids) s"
  shows "identities_ok (length ids) s' \<and> extends_identities s s' \<and>
    (\<forall>(i, x) \<in> set ops. attrs_at ids s' i omitted d (op_attrs x)) \<and> fst ` set d \<inter> set omitted = {}"
proof -
  let ?first = "snd (hd ops)"
  from assms(1) have f: "foldE (merge_entry ids ops omitted) (op_attrs ?first) ([], s) = Inr (d, s')"
    and sub: "\<forall>(i, x) \<in> set ops. \<forall>(k, v) \<in> set (op_attrs x). k \<in> set omitted \<or> op_attr ?first k \<noteq> None"
    by (auto simp: merge_attributes_def Let_def list_ex_iff case_prod_unfold split: if_splits)
  from merge_entries_ok [OF f assms(2-5)] have ok: "identities_ok (length ids) s'" "extends_identities s s'"
    "map fst d = filter (\<lambda>k. k \<notin> set omitted) (map fst (op_attrs ?first))"
    "\<forall>(k, a) \<in> set d. \<forall>(i, x) \<in> set ops. \<exists>u. op_attr x k = Some u \<and> attr_at ids s' i (numeric_field k) a u" by auto
  have "attrs_at ids s' i omitted d (op_attrs x)" if ix: "(i, x) \<in> set ops" for i x
    unfolding attrs_at_def
  proof (intro allI impI)
    fix k assume k: "k \<notin> set omitted"
    show "case map_of (op_attrs x) k of None \<Rightarrow> map_of d k = None
        | Some u \<Rightarrow> \<exists>a. map_of d k = Some a \<and> attr_at ids s' i (numeric_field k) a u"
    proof (cases "map_of d k")
      case None
      then have "op_attr ?first k = None" using k by (simp add: map_of_keys [OF ok(3)] op_attr_def) (force simp: map_of_eq_None_iff)
      then have "map_of (op_attrs x) k = None" using sub ix k by (fastforce simp: map_of_eq_None_iff)
      with None show ?thesis by simp
    next
      case (Some a)
      from map_of_SomeD [OF this] ok(4) ix obtain u where "op_attr x k = Some u" "attr_at ids s' i (numeric_field k) a u" by fast
      with Some show ?thesis by (simp add: op_attr_def)
    qed
  qed
  moreover have "fst ` set d \<inter> set omitted = {}" using arg_cong [OF ok(3), of set] by auto
  ultimately show ?thesis using ok(1,2) by blast
qed

section \<open>Operations\<close>

definition values_at :: "naming \<Rightarrow> nat \<Rightarrow> nat list \<Rightarrow> nat list \<Rightarrow> bool" where
  "values_at H i vs ws \<longleftrightarrow> list_all2 (\<lambda>v w. shared_value H i v = Some w) vs ws"

definition results_at :: "string list \<Rightarrow> naming \<Rightarrow> identities \<Rightarrow> nat \<Rightarrow> (nat \<times> sty) list \<Rightarrow> (nat \<times> sty) list \<Rightarrow> bool" where
  "results_at ids H s i ys xs \<longleftrightarrow>
     list_all2 (\<lambda>p q. shared_value H i (fst p) = Some (fst q) \<and> type_at ids s i (snd p) (snd q)) ys xs"

text \<open>The merged operation at a target, up to the renaming of values, blocks and storage.\<close>

definition same_op :: "string list \<Rightarrow> naming \<Rightarrow> merger \<Rightarrow> nat \<Rightarrow> op \<Rightarrow> op \<Rightarrow> bool" where
  "same_op ids H m i y x \<longleftrightarrow>
     op_name y = op_name x \<and> attrs_at ids (mg_ids m) i [] (op_attrs y) (op_attrs x) \<and>
     values_at H i (op_operands y) (op_operands x) \<and> results_at ids H (mg_ids m) i (op_results y) (op_results x) \<and>
     list_all2 (\<lambda>b c. map_of (mg_blocks m ! i) c = Some b) (op_succs y) (op_succs x) \<and> op_regions y = [] \<and> op_regions x = []"

lemma values_at_mono: "values_at H i vs ws \<Longrightarrow> H \<subseteq>\<^sub>m H' \<Longrightarrow> values_at H' i vs ws"
  unfolding values_at_def by (erule list_all2_mono) (rule shared_value_mono)

lemma results_at_mono:
  "results_at ids H s i ys xs \<Longrightarrow> H \<subseteq>\<^sub>m H' \<Longrightarrow> extends_identities s s' \<Longrightarrow> results_at ids H' s' i ys xs"
  unfolding results_at_def by (erule list_all2_mono) (auto intro: shared_value_mono type_at_extends)

lemma same_op_mono: "same_op ids H m i y x \<Longrightarrow> merger_grows n H m H' m' \<Longrightarrow> same_op ids H' m' i y x"
  by (auto simp: same_op_def merger_grows_def intro: attrs_at_extends values_at_mono results_at_mono)

lemma operands_at_ok:
  assumes "operands_at n sources count m = Inr vs" "naming_ok n H m" "distinct (map fst sources)" "(i, x, offset) \<in> set sources"
    "i < n" "offset + count \<le> length (op_operands x)"
  shows "values_at H i vs (take count (drop offset (op_operands x)))"
proof -
  from assms(1) have vs: "list_all2 (\<lambda>j v. operand n (map (\<lambda>(t, x, offset). (t, op_operands x ! (offset + j))) sources) m = Inr v) [0..<count] vs"
    by (simp add: operands_at_def mapE_Inr_iff)
  have "shared_value H i (vs ! j) = Some (op_operands x ! (offset + j))" if "j < count" for j
  proof (rule operand_ok)
    show "operand n (map (\<lambda>(t, x, offset). (t, op_operands x ! (offset + j))) sources) m = Inr (vs ! j)"
      using vs that by (auto simp: list_all2_conv_all_nth)
    show "(i, op_operands x ! (offset + j)) \<in> set (map (\<lambda>(t, x, offset). (t, op_operands x ! (offset + j))) sources)"
      using assms(4) by force
  qed (use assms in \<open>auto simp: comp_def case_prod_unfold\<close>)
  moreover have "length vs = count" using list_all2_lengthD [OF vs] by simp
  ultimately show ?thesis using assms(6) by (auto simp: values_at_def list_all2_conv_all_nth)
qed

lemma new_results_ok:
  assumes "fold (new_result n ops) (List.enumerate k types) (rs, m) = (rs', m')" "merger_ok n H m" "distinct (map fst ops)"
    "\<forall>p \<in> set ops. fst p < n"
  shows "\<exists>H' zs. merger_grows n H m H' m' \<and> rs' = rs @ zs \<and> map snd zs = types \<and>
    (\<forall>(i, x) \<in> set ops. \<forall>j < length types. shared_value H' i (fst (zs ! j)) = Some (fst (op_results x ! (k + j))))"
  using assms(1,2)
proof (induction types arbitrary: k rs m H)
  case Nil
  then show ?case using merger_grows_refl [OF Nil(2)] by auto
next
  case (Cons t types)
  let ?obs = "map (\<lambda>(target, x). (target, fst (op_results x ! k))) ops"
  obtain v m1 where v: "new_value n ?obs m = (v, m1)" by fastforce
  let ?H = "H(v \<mapsto> value_key n ?obs)"
  note g = new_value_ok [OF v Cons.prems(2)]
  have "new_result n ops (k, t) (rs, m) = (rs @ [(v, t)], m1)" using v by (simp add: new_result_def)
  then have "fold (new_result n ops) (List.enumerate (Suc k) types) (rs @ [(v, t)], m1) = (rs', m')"
    using Cons.prems(1) by simp
  from Cons.IH [OF this grows_ok [OF g(1)]] obtain H' zs where zs: "merger_grows n ?H m1 H' m'" "rs' = (rs @ [(v, t)]) @ zs" "map snd zs = types"
    "\<forall>(i, x) \<in> set ops. \<forall>j < length types. shared_value H' i (fst (zs ! j)) = Some (fst (op_results x ! (Suc k + j)))" by blast
  have "shared_value H' i (fst (((v, t) # zs) ! j)) = Some (fst (op_results x ! (k + j)))"
    if ix: "(i, x) \<in> set ops" and j: "j < length (t # types)" for i x j
  proof (cases j)
    case 0
    have "(i, fst (op_results x ! k)) \<in> set ?obs" using ix by force
    then have "shared_value ?H i v = Some (fst (op_results x ! k))"
      using g(2) [of i] assms(3,4) ix by (auto simp: comp_def case_prod_unfold)
    then have "shared_value H' i v = Some (fst (op_results x ! k))" using zs(1) by (auto simp: merger_grows_def intro: shared_value_mono)
    with 0 show ?thesis by simp
  next
    case (Suc j')
    with zs(4) ix j show ?thesis by fastforce
  qed
  then show ?case using merger_grows_trans [OF g(1) zs(1)] zs(2,3)
    by (intro exI [of _ H'] exI [of _ "(v, t) # zs"]) auto
qed

lemma result_types_ok:
  assumes "typed (mapS (\<lambda>j. merge_type ids (map (\<lambda>(target, x). (target, snd (op_results x ! j))) ops)) [0..<k]) m = Inr (ts, m')"
    and "observed ids ops" "registered ids" "\<forall>(i, x) \<in> set ops. native_op (ids ! i) x \<and> length (op_results x) = k"
    and "merger_ok (length ids) H m"
  shows "merger_grows (length ids) H m H m' \<and> length ts = k \<and>
    (\<forall>(i, x) \<in> set ops. \<forall>j < k. type_at ids (mg_ids m') i (ts ! j) (snd (op_results x ! j)))"
proof -
  let ?obs = "\<lambda>j. map (\<lambda>(target, x). (target, snd (op_results x ! j))) ops"
  let ?P = "\<lambda>j t s. stands_for ids (?obs j) t s"
  have native: "native_types ids (?obs j)" if "j < k" for j
    unfolding native_types_def
  proof clarify
    fix i u assume "(i, u) \<in> set (?obs j)"
    then obtain x where x: "(i, x) \<in> set ops" "u = snd (op_results x ! j)" by auto
    with assms(4) that have "concrete_type (ids ! i) u" by (fastforce simp: native_op_def)
    moreover have "i < length ids" using assms(2) x(1) by (auto simp: observed_def)
    ultimately show "concrete_type (ids ! i) u \<and> (\<exists>info. targets_find (ids ! i) = Some info \<and> target_id info = ids ! i)"
      using assms(3) by (auto simp: registered_def)
  qed
  have "identities_ok (length ids) s' \<and> extends_identities (mg_ids m) s' \<and> list_all2 (\<lambda>j t. ?P j t s') [0..<k] ts"
    if "mapS (\<lambda>j. merge_type ids (?obs j)) [0..<k] (mg_ids m) = Inr (ts, s')" for s'
  proof (rule mapS_identities [OF that])
    show "identities_ok (length ids) (mg_ids m)" using assms(5) by (simp add: merger_ok_def)
    show "\<And>j s t s'. j \<in> set [0..<k] \<Longrightarrow> identities_ok (length ids) s \<Longrightarrow> merge_type ids (?obs j) s = Inr (t, s') \<Longrightarrow>
        identities_ok (length ids) s' \<and> extends_identities s s' \<and> ?P j t s'"
      using merge_type_ok observed_map [OF assms(2)] native by fastforce
  qed (rule stands_for_extends)
  from typed_ok [OF assms(1,5), of "\<lambda>s. list_all2 (\<lambda>j t. ?P j t s) [0..<k] ts", OF this]
  have g: "merger_grows (length ids) H m H m'" and ts: "list_all2 (\<lambda>j t. ?P j t (mg_ids m')) [0..<k] ts" by auto
  have "type_at ids (mg_ids m') i (ts ! j) (snd (op_results x ! j))" if "(i, x) \<in> set ops" "j < k" for i x j
  proof -
    have "?P j (ts ! j) (mg_ids m')" using ts that(2) by (auto simp: list_all2_conv_all_nth)
    moreover have "(i, snd (op_results x ! j)) \<in> set (?obs j)" using that(1) by force
    ultimately show ?thesis by (auto simp: stands_for_def type_at_def)
  qed
  with g ts show ?thesis by (auto dest: list_all2_lengthD)
qed

lemma shared_successors_ok:
  assumes "mapE (shared_successor m ops) [0..<k] = Inr bs" "ops \<noteq> []" "(i, x) \<in> set ops" "length (op_succs x) = k"
  shows "list_all2 (\<lambda>b c. map_of (mg_blocks m ! i) c = Some b) bs (op_succs x)"
proof -
  from assms(1) have bs: "list_all2 (\<lambda>j b. shared_successor m ops j = Inr b) [0..<k] bs" by (simp add: mapE_Inr_iff)
  have "map_of (mg_blocks m ! i) (op_succs x ! j) = Some (bs ! j)" if "j < k" for j
  proof -
    have "shared_successor m ops j = Inr (bs ! j)" using bs that by (auto simp: list_all2_conv_all_nth)
    then have "\<forall>p \<in> set ops. map_of (mg_blocks m ! fst p) (op_succs (snd p) ! j) = Some (bs ! j)"
      by (auto simp: shared_successor_def Let_def list_all_iff case_prod_unfold split: option.splits if_splits)
    with assms(3) show ?thesis by fastforce
  qed
  with list_all2_lengthD [OF bs] assms(4) show ?thesis by (simp add: list_all2_conv_all_nth)
qed

lemma plain_operation_steps:
  assumes "operation ids ops m = Inr (y, m')" "\<not> list_all (\<lambda>(i, x). op_name x = ''sela.switch'') ops"
  obtains attrs m1 ts m2 vs bs rs where
    "\<forall>(i, x) \<in> set ops. op_name x = op_name (snd (hd ops)) \<and> length (op_operands x) = length (op_operands (snd (hd ops))) \<and>
      length (op_results x) = length (op_results (snd (hd ops))) \<and> op_regions x = [] \<and> length (op_succs x) = length (op_succs (snd (hd ops)))"
    "typed (merge_attributes ids ops []) m = Inr (attrs, m1)"
    "typed (mapS (\<lambda>j. merge_type ids (map (\<lambda>(target, x). (target, snd (op_results x ! j))) ops))
        [0..<length (op_results (snd (hd ops)))]) m1 = Inr (ts, m2)"
    "operands_at (length ids) (map (\<lambda>(i, x). (i, x, 0)) ops) (length (op_operands (snd (hd ops)))) m2 = Inr vs"
    "mapE (shared_successor m2 ops) [0..<length (op_succs (snd (hd ops)))] = Inr bs"
    "fold (new_result (length ids) ops) (List.enumerate 0 ts) ([], m2) = (rs, m')"
    "y = Op (op_name (snd (hd ops))) attrs vs rs bs [] True"
  using assms
  by (auto simp: operation_def Let_def bindE_Inr_iff list_ex_iff case_prod_unfold split: if_splits prod.splits)

lemma plain_operation_ok:
  assumes run: "operation ids ops m = Inr (y, m')" and plain: "\<not> list_all (\<lambda>(i, x). op_name x = ''sela.switch'') ops"
    and obs: "observed ids ops" "registered ids" "\<forall>(i, x) \<in> set ops. native_op (ids ! i) x" and ok: "merger_ok (length ids) H m"
  shows "\<exists>H'. merger_grows (length ids) H m H' m' \<and> (\<forall>(i, x) \<in> set ops. same_op ids H' m' i y x)"
proof -
  let ?n = "length ids" and ?first = "snd (hd ops)"
  have ne: "ops \<noteq> []" "distinct (map fst ops)" "\<forall>p \<in> set ops. fst p < ?n" using obs(1) by (auto simp: observed_def)
  from plain_operation_steps [OF run plain] obtain attrs m1 ts m2 vs bs rs where
    shape: "\<forall>(i, x) \<in> set ops. op_name x = op_name ?first \<and> length (op_operands x) = length (op_operands ?first) \<and>
      length (op_results x) = length (op_results ?first) \<and> op_regions x = [] \<and> length (op_succs x) = length (op_succs ?first)" and
    attrs: "typed (merge_attributes ids ops []) m = Inr (attrs, m1)" and
    types: "typed (mapS (\<lambda>j. merge_type ids (map (\<lambda>(target, x). (target, snd (op_results x ! j))) ops))
        [0..<length (op_results ?first)]) m1 = Inr (ts, m2)" and
    vs: "operands_at ?n (map (\<lambda>(i, x). (i, x, 0)) ops) (length (op_operands ?first)) m2 = Inr vs" and
    bs: "mapE (shared_successor m2 ops) [0..<length (op_succs ?first)] = Inr bs" and
    rs: "fold (new_result ?n ops) (List.enumerate 0 ts) ([], m2) = (rs, m')" and
    y: "y = Op (op_name ?first) attrs vs rs bs [] True" .
  have "identities_ok ?n (mg_ids m)" using ok by (simp add: merger_ok_def)
  from typed_ok [OF attrs ok, of "\<lambda>s. \<forall>(i, x) \<in> set ops. attrs_at ids s i [] attrs (op_attrs x)"]
    merge_attributes_ok [OF _ obs this]
  have g1: "merger_grows ?n H m H m1" and a1: "\<forall>(i, x) \<in> set ops. attrs_at ids (mg_ids m1) i [] attrs (op_attrs x)" by auto
  from result_types_ok [OF types obs(1,2) _ grows_ok [OF g1]] obs(3) shape
  have g2: "merger_grows ?n H m1 H m2" and t2: "length ts = length (op_results ?first)"
    "\<forall>(i, x) \<in> set ops. \<forall>j < length (op_results ?first). type_at ids (mg_ids m2) i (ts ! j) (snd (op_results x ! j))" by auto
  from new_results_ok [OF rs grows_ok [OF g2] ne(2,3)] obtain H' where
    g3: "merger_grows ?n H m2 H' m'" and r3: "map snd rs = ts"
      "\<forall>(i, x) \<in> set ops. \<forall>j < length ts. shared_value H' i (fst (rs ! j)) = Some (fst (op_results x ! j))" by auto
  have ext: "extends_identities (mg_ids m1) (mg_ids m')" "extends_identities (mg_ids m2) (mg_ids m')" "H \<subseteq>\<^sub>m H'" "mg_blocks m' = mg_blocks m2"
    using g2 g3 identities_trans by (auto simp: merger_grows_def)
  have "same_op ids H' m' i y x" if ix: "(i, x) \<in> set ops" for i x
  proof -
    have sh: "op_name x = op_name ?first" "length (op_operands x) = length (op_operands ?first)"
      "length (op_results x) = length (op_results ?first)" "op_regions x = []" "length (op_succs x) = length (op_succs ?first)"
      using shape ix by auto
    have "(i, x, 0) \<in> set (map (\<lambda>(i, x). (i, x, 0)) ops)" using ix by force
    from operands_at_ok [OF vs _ _ this] ne ix g2 sh(2)
    have "values_at H i vs (op_operands x)" by (auto simp: merger_grows_def comp_def case_prod_unfold)
    moreover have "attrs_at ids (mg_ids m') i [] attrs (op_attrs x)" using a1 ix ext(1) by (auto intro: attrs_at_extends)
    moreover have "length rs = length ts" using arg_cong [OF r3(1), of length] by simp
    then have "results_at ids H' (mg_ids m') i rs (op_results x)"
      using r3 t2 ix sh(3) ext(2) by (fastforce simp: results_at_def list_all2_conv_all_nth intro: type_at_extends)
    moreover have "list_all2 (\<lambda>b c. map_of (mg_blocks m2 ! i) c = Some b) bs (op_succs x)"
      using shared_successors_ok [OF bs ne(1) ix sh(5)] .
    ultimately show ?thesis using sh ext values_at_mono by (auto simp: same_op_def y)
  qed
  with merger_grows_trans [OF merger_grows_trans [OF g1 g2] g3] show ?thesis by blast
qed

end
