(* ===== verification/Common_Switch_Facts.thy ===== *)
theory Common_Switch_Facts
  imports Common_Operation_Facts
begin

text \<open>
  Merged switches: the cases of a merged switch that are active at a target are that target's cases in their
  order, with their labels, successors and arguments renamed.
\<close>

section \<open>The arms of a switch\<close>

text \<open>A switch lists the arguments of the default edge, then those of every case.\<close>

definition switch_segments :: "op \<Rightarrow> nat list list" where
  "switch_segments x =
     (case op_get as_i32s x ''argument_counts'' of None \<Rightarrow> [] | Some counts \<Rightarrow> segments counts (tl (op_operands x)))"

definition switch_labels :: "op \<Rightarrow> attr list" where
  "switch_labels x = (case op_get as_array x ''cases'' of None \<Rightarrow> [] | Some labels \<Rightarrow> labels)"

definition switch_arms :: "op \<Rightarrow> (attr \<times> nat \<times> nat list) list" where
  "switch_arms x = zip (switch_labels x) (zip (tl (op_succs x)) (tl (switch_segments x)))"

definition active_arms :: "string \<Rightarrow> op \<Rightarrow> (attr \<times> nat \<times> nat list) list" where
  "active_arms t x =
     map snd (filter (\<lambda>p. containsTarget (Some (fst p)) t)
       (zip (case op_get as_array x ''case_domains'' of None \<Rightarrow> [] | Some ds \<Rightarrow> ds) (switch_arms x)))"

definition arm_at :: "string list \<Rightarrow> naming \<Rightarrow> merger \<Rightarrow> nat \<Rightarrow> attr \<times> nat \<times> nat list \<Rightarrow> attr \<times> nat \<times> nat list \<Rightarrow> bool" where
  "arm_at ids H m i p q \<longleftrightarrow> attr_at ids (mg_ids m) i False (fst p) (fst q) \<and>
     map_of (mg_blocks m ! i) (fst (snd q)) = Some (fst (snd p)) \<and> values_at H i (snd (snd p)) (snd (snd q))"

definition same_switch :: "string list \<Rightarrow> naming \<Rightarrow> merger \<Rightarrow> nat \<Rightarrow> op \<Rightarrow> op \<Rightarrow> bool" where
  "same_switch ids H m i y x \<longleftrightarrow>
     op_name y = ''sela.switch'' \<and> op_name x = ''sela.switch'' \<and>
     shared_value H i (hd (op_operands y)) = Some (hd (op_operands x)) \<and>
     map_of (mg_blocks m ! i) (hd (op_succs x)) = Some (hd (op_succs y)) \<and>
     values_at H i (hd (switch_segments y)) (hd (switch_segments x)) \<and>
     list_all2 (arm_at ids H m i) (active_arms (ids ! i) y) (switch_arms x)"

lemma arm_at_mono: "arm_at ids H m i p q \<Longrightarrow> merger_grows n H m H' m' \<Longrightarrow> arm_at ids H' m' i p q"
  by (auto simp: arm_at_def merger_grows_def intro: attr_at_extends values_at_mono)

lemma same_switch_mono: "same_switch ids H m i y x \<Longrightarrow> merger_grows n H m H' m' \<Longrightarrow> same_switch ids H' m' i y x"
  unfolding same_switch_def by (auto simp: merger_grows_def intro: shared_value_mono values_at_mono elim!: list_all2_mono dest: arm_at_mono [of _ _ _ _ _ _ n H' m'])

lemma segments_concat: "list_all2 (\<lambda>c xs. length xs = nat c) cs xss \<Longrightarrow> segments cs (concat xss) = xss"
  by (induction rule: list_all2_induct) auto

section \<open>Scanning the operations\<close>

text \<open>One case of one operation, as the scan adds it.\<close>

record switch_arm =
  ar_target :: nat
  ar_op :: op
  ar_case :: nat
  ar_label :: attr
  ar_succ :: nat
  ar_offset :: nat
  ar_count :: nat

definition arm_arguments :: "switch_arm \<Rightarrow> nat list" where
  "arm_arguments a = take (ar_count a) (drop (ar_offset a) (op_operands (ar_op a)))"

definition built :: "(nat \<times> nat) list list \<Rightarrow> switch_arm list \<Rightarrow> switch_case list \<Rightarrow> bool" where
  "built B T cases \<longleftrightarrow>
     (\<forall>a \<in> set T. ar_case a < length cases \<and> sc_count (cases ! ar_case a) = ar_count a \<and>
        map_of (B ! ar_target a) (ar_succ a) = Some (sc_successor (cases ! ar_case a)) \<and>
        ar_offset a + ar_count a \<le> length (op_operands (ar_op a))) \<and>
     (\<forall>k < length cases. \<exists>a \<in> set T. ar_case a = k) \<and>
     (\<forall>k < length cases. sc_labels (cases ! k) = map (\<lambda>a. (ar_target a, ar_label a)) (filter (\<lambda>a. ar_case a = k) T) \<and>
        sc_sources (cases ! k) = map (\<lambda>a. (ar_target a, ar_op a, ar_offset a)) (filter (\<lambda>a. ar_case a = k) T))"

definition known_cases :: "((nat \<times> attr) \<times> nat) list \<Rightarrow> switch_case list \<Rightarrow> bool" where
  "known_cases idt cases \<longleftrightarrow> (\<forall>p \<in> set idt. snd p < length cases \<and> sc_successor (cases ! snd p) = fst (fst p))"

fun arms_from :: "nat \<Rightarrow> op \<Rightarrow> nat \<Rightarrow> (attr \<times> nat \<times> int) list \<Rightarrow> switch_arm list \<Rightarrow> bool" where
  "arms_from i x off [] A = (A = [])"
| "arms_from i x off (c # cs) A =
     (\<exists>a A'. A = a # A' \<and> ar_target a = i \<and> ar_op a = x \<and> ar_label a = fst c \<and> ar_succ a = fst (snd c) \<and>
        ar_offset a = off \<and> ar_count a = nat (snd (snd c)) \<and> arms_from i x (off + nat (snd (snd c))) cs A')"

lemma scan_case_ok:
  assumes "scan_case (B ! i) i x c (cases, idt, order, off) = Inr (cases', idt', order', off')"
    "built B T cases" "known_cases idt cases"
  obtains a where "built B (T @ [a]) cases'" "known_cases idt' cases'" "order' = order @ [ar_case a]" "off' = off + ar_count a"
    "ar_target a = i" "ar_op a = x" "ar_label a = fst c" "ar_succ a = fst (snd c)" "ar_offset a = off" "ar_count a = nat (snd (snd c))"
proof -
  obtain l s0 cnt where c: "c = (l, s0, cnt)" by (cases c) auto
  let ?n = "nat cnt"
  from assms(1) obtain s where s: "map_of (B ! i) s0 = Some s" "off + ?n \<le> length (op_operands x)"
    by (auto simp: scan_case_def c split: option.splits if_splits)
  let ?arm = "\<lambda>k. \<lparr>ar_target = i, ar_op = x, ar_case = k, ar_label = l, ar_succ = s0, ar_offset = off, ar_count = ?n\<rparr>"
  let ?add = "\<lambda>e. e\<lparr>sc_labels := sc_labels e @ [(i, l)], sc_sources := sc_sources e @ [(i, x, off)]\<rparr>"
  show thesis
  proof (cases "map_of idt (s, l)")
    case None
    let ?k = "length cases"
    let ?e = "\<lparr>sc_successor = s, sc_labels = [(i, l)], sc_sources = [(i, x, off)], sc_count = ?n\<rparr>"
    from assms(1) s None have r: "cases' = cases @ [?e]" "idt' = ((s, l), ?k) # idt" "order' = order @ [?k]" "off' = off + ?n"
      by (auto simp: scan_case_def c Let_def split: if_splits)
    have "filter (\<lambda>a. ar_case a = ?k) T = []" using assms(2) by (auto simp: built_def filter_empty_conv)
    then have "built B (T @ [?arm ?k]) cases'"
      using assms(2) s by (auto simp: built_def r nth_append less_Suc_eq)
    moreover have "known_cases idt' cases'" using assms(3) by (auto simp: known_cases_def r nth_append)
    ultimately show ?thesis by (intro that [of "?arm ?k"]) (simp_all add: r c)
  next
    case (Some k)
    then have k: "k < length cases" "sc_successor (cases ! k) = s"
      using assms(3) map_of_SomeD [OF Some] by (auto simp: known_cases_def)
    from assms(1) s Some have r: "cases' = cases[k := ?add (cases ! k)]" "idt' = idt" "order' = order @ [k]" "off' = off + ?n"
      "sc_count (cases ! k) = ?n"
      by (auto simp: scan_case_def c Let_def split: if_splits)
    have "built B (T @ [?arm k]) cases'"
      using assms(2) s k r(5) by (auto simp: built_def r(1) nth_list_update)
    moreover have "known_cases idt' cases'" using assms(3) k by (auto simp: known_cases_def r(1,2) nth_list_update)
    ultimately show ?thesis by (intro that [of "?arm k"]) (simp_all add: r c)
  qed
qed

lemma scan_cases_ok:
  assumes "foldE (scan_case (B ! i) i x) cs (cases, idt, order, off) = Inr (cases', idt', order', off')"
    "built B T cases" "known_cases idt cases"
  shows "\<exists>A. built B (T @ A) cases' \<and> known_cases idt' cases' \<and> order' = order @ map ar_case A \<and> arms_from i x off cs A"
  using assms
proof (induction cs arbitrary: T cases idt order off)
  case (Cons c cs)
  obtain c1 i1 o1 f1 where step: "scan_case (B ! i) i x c (cases, idt, order, off) = Inr (c1, i1, o1, f1)"
    "foldE (scan_case (B ! i) i x) cs (c1, i1, o1, f1) = Inr (cases', idt', order', off')"
    using Cons.prems(1) by (auto simp: bindE_Inr_iff)
  from scan_case_ok [OF step(1) Cons.prems(2,3)] obtain a where
    a: "built B (T @ [a]) c1" "known_cases i1 c1" "o1 = order @ [ar_case a]" "f1 = off + ar_count a"
      "ar_target a = i" "ar_op a = x" "ar_label a = fst c" "ar_succ a = fst (snd c)" "ar_offset a = off"
      "ar_count a = nat (snd (snd c))" .
  from Cons.IH [OF step(2) a(1,2)] obtain A where "built B ((T @ [a]) @ A) cases'" "known_cases idt' cases'"
    "order' = o1 @ map ar_case A" "arms_from i x f1 cs A" by blast
  with a show ?case by (intro exI [of _ "a # A"]) auto
qed auto

lemma arms_from_target: "arms_from i x off cs A \<Longrightarrow> \<forall>a \<in> set A. ar_target a = i \<and> ar_op a = x"
proof (induction cs arbitrary: off A)
  case (Cons c cs)
  then obtain a A' where a: "A = a # A'" "ar_target a = i" "ar_op a = x" "arms_from i x (off + nat (snd (snd c))) cs A'"
    unfolding arms_from.simps by blast
  from Cons.IH [OF a(4)] a(1-3) show ?case by (metis set_ConsD)
qed simp

lemma arms_from_arms:
  "arms_from i x off (zip ls (zip ss cs)) A \<Longrightarrow> length ss = length ls \<Longrightarrow> length cs = length ls \<Longrightarrow>
   map (\<lambda>a. (ar_label a, ar_succ a, arm_arguments a)) A = zip ls (zip ss (segments cs (drop off (op_operands x))))"
proof (induction ls arbitrary: ss cs off A)
  case (Cons l ls)
  then obtain s ss' c cs' where sc: "ss = s # ss'" "cs = c # cs'" by (cases ss; cases cs) auto
  with Cons show ?case by (auto simp: arm_arguments_def add.commute)
qed simp

definition arms_of :: "merger \<Rightarrow> nat \<times> nat \<Rightarrow> nat \<times> op \<Rightarrow> switch_arm list \<Rightarrow> bool" where
  "arms_of m d p A \<longleftrightarrow>
     (\<exists>labels counts. op_get as_array (snd p) ''cases'' = Some labels \<and> op_get as_i32s (snd p) ''argument_counts'' = Some counts \<and>
        length counts = length labels + 1 \<and> length (op_succs (snd p)) = length counts \<and> op_operands (snd p) \<noteq> [] \<and>
        map_of (mg_blocks m ! fst p) (hd (op_succs (snd p))) = Some (fst d) \<and> nat (hd counts) = snd d \<and>
        1 + snd d \<le> length (op_operands (snd p)) \<and>
        arms_from (fst p) (snd p) (1 + snd d) (zip labels (zip (tl (op_succs (snd p))) (tl counts))) A)"

lemma scan_offset_mono:
  "foldE (scan_case b i x) cs (cases, idt, order, off) = Inr (cases', idt', order', off') \<Longrightarrow> off \<le> off'"
proof (induction cs arbitrary: cases idt order off)
  case (Cons c cs)
  obtain c1 i1 o1 f1 where step: "scan_case b i x c (cases, idt, order, off) = Inr (c1, i1, o1, f1)"
    "foldE (scan_case b i x) cs (c1, i1, o1, f1) = Inr (cases', idt', order', off')"
    using Cons.prems by (auto simp: bindE_Inr_iff)
  moreover from step(1) have "off \<le> f1" by (auto simp: scan_case_def Let_def split: prod.splits option.splits if_splits)
  ultimately show ?case using Cons.IH [OF step(2)] by simp
qed simp

lemma scan_switch_ok:
  assumes "scan_switch m p st = Inr st'" "built (mg_blocks m) T (ss_cases st)" "known_cases (ss_identities st) (ss_cases st)"
  shows "\<exists>A d. built (mg_blocks m) (T @ A) (ss_cases st') \<and> known_cases (ss_identities st') (ss_cases st') \<and>
    ss_orders st' = ss_orders st @ [map ar_case A] \<and> ss_default st' = Some d \<and> (ss_default st = None \<or> ss_default st = Some d) \<and>
    arms_of m d p A"
proof -
  obtain i x where p: "p = (i, x)" by fastforce
  from assms(1) obtain labels counts b cases idt order where
    r: "op_get as_array x ''cases'' = Some labels" "op_get as_i32s x ''argument_counts'' = Some counts"
      "length counts = length labels + 1" "length (op_succs x) = length counts" "op_operands x \<noteq> []"
      "map_of (mg_blocks m ! i) (hd (op_succs x)) = Some b" "hd counts \<ge> 0"
      "ss_default st = None \<or> ss_default st = Some (b, nat (hd counts))" and
    f: "foldE (scan_case (mg_blocks m ! i) i x) (zip labels (zip (tl (op_succs x)) (tl counts)))
        (ss_cases st, ss_identities st, [], 1 + nat (hd counts)) = Inr (cases, idt, order, length (op_operands x))" and
    st': "ss_cases st' = cases" "ss_identities st' = idt" "ss_orders st' = ss_orders st @ [order]"
      "ss_default st' = Some (b, nat (hd counts))"
    by (cases "ss_default st") (auto simp: scan_switch_def p bindE_Inr_iff not_less split: option.splits if_splits prod.splits)
  from scan_cases_ok [OF f assms(2,3)] obtain A where A: "built (mg_blocks m) (T @ A) cases" "known_cases idt cases"
    "order = map ar_case A" "arms_from i x (1 + nat (hd counts)) (zip labels (zip (tl (op_succs x)) (tl counts))) A" by auto
  from scan_offset_mono [OF f] have "1 + nat (hd counts) \<le> length (op_operands x)" by simp
  with A r have "arms_of m (b, nat (hd counts)) (i, x) A" by (auto simp: arms_of_def)
  with A r(8) show ?thesis by (intro exI [of _ A] exI [of _ "(b, nat (hd counts))"]) (simp add: st' p)
qed

lemma scan_switches_ok:
  assumes "foldE (scan_switch m) ops st = Inr st'" "built (mg_blocks m) T (ss_cases st)" "known_cases (ss_identities st) (ss_cases st)"
    "ops \<noteq> []"
  shows "\<exists>As d. built (mg_blocks m) (T @ concat As) (ss_cases st') \<and> ss_orders st' = ss_orders st @ map (map ar_case) As \<and>
    ss_default st' = Some d \<and> (ss_default st = None \<or> ss_default st = Some d) \<and> list_all2 (arms_of m d) ops As"
  using assms
proof (induction ops arbitrary: T st)
  case (Cons p ops)
  then obtain s1 where s1: "scan_switch m p st = Inr s1" "foldE (scan_switch m) ops s1 = Inr st'" by (auto simp: bindE_Inr_iff)
  from scan_switch_ok [OF s1(1) Cons.prems(2,3)] obtain A d where
    A: "built (mg_blocks m) (T @ A) (ss_cases s1)" "known_cases (ss_identities s1) (ss_cases s1)"
      "ss_orders s1 = ss_orders st @ [map ar_case A]" "ss_default s1 = Some d" "ss_default st = None \<or> ss_default st = Some d"
      "arms_of m d p A" by blast
  show ?case
  proof (cases "ops = []")
    case True
    with s1 A show ?thesis by (intro exI [of _ "[A]"] exI [of _ d]) simp
  next
    case False
    from Cons.IH [OF s1(2) A(1,2) False] obtain As d' where
      "built (mg_blocks m) ((T @ A) @ concat As) (ss_cases st')" "ss_orders st' = ss_orders s1 @ map (map ar_case) As"
      "ss_default st' = Some d'" "ss_default s1 = None \<or> ss_default s1 = Some d'" "list_all2 (arms_of m d') ops As" by blast
    with A show ?thesis by (intro exI [of _ "A # As"] exI [of _ d]) auto
  qed
qed simp

section \<open>Emitting the cases\<close>

definition emitted_case :: "string list \<Rightarrow> naming \<Rightarrow> merger \<Rightarrow> switch_case \<Rightarrow> attr \<times> attr \<times> nat list \<Rightarrow> bool" where
  "emitted_case ids H m e z \<longleftrightarrow>
     fst (snd z) = targetSet (map (\<lambda>p. ids ! fst p) (sc_sources e)) \<and> length (snd (snd z)) = sc_count e \<and>
     (\<forall>(i, l) \<in> set (sc_labels e). attr_at ids (mg_ids m) i False (fst z) l) \<and>
     (\<forall>(i, x, off) \<in> set (sc_sources e). values_at H i (snd (snd z)) (take (sc_count e) (drop off (op_operands x))))"

definition case_ok :: "string list \<Rightarrow> switch_case \<Rightarrow> bool" where
  "case_ok ids e \<longleftrightarrow> observed ids (sc_labels e) \<and> (\<forall>(i, l) \<in> set (sc_labels e). settled (ids ! i) False l) \<and>
     distinct (map fst (sc_sources e)) \<and>
     (\<forall>(i, x, off) \<in> set (sc_sources e). i < length ids \<and> off + sc_count e \<le> length (op_operands x))"

lemma emitted_case_mono: "emitted_case ids H m e z \<Longrightarrow> merger_grows n H m H m' \<Longrightarrow> emitted_case ids H m' e z"
  by (fastforce simp: emitted_case_def merger_grows_def intro: attr_at_extends)

lemma operands_at_length: "operands_at n sources count m = Inr vs \<Longrightarrow> length vs = count"
  by (auto simp: operands_at_def dest!: mapE_length)

lemma emit_case_ok:
  assumes "emit_case ids e (acc, m) = Inr (acc', m')" "case_ok ids e" "registered ids" "merger_ok (length ids) H m"
  shows "merger_grows (length ids) H m H m' \<and> (\<exists>z. acc' = acc @ [z] \<and> emitted_case ids H m' e z)"
proof -
  let ?n = "length ids"
  from assms(1) obtain l vs where l: "typed (merge_attribute ids (sc_labels e)) m = Inr (l, m')"
    "operands_at ?n (sc_sources e) (sc_count e) m' = Inr vs"
    "acc' = acc @ [(l, targetSet (map (\<lambda>(t, x, off). ids ! t) (sc_sources e)), vs)]"
    by (auto simp: emit_case_def bindE_Inr_iff)
  have obs: "observed ids (sc_labels e)" using assms(2) by (simp add: case_ok_def)
  have "settled_observations ids False (sc_labels e)"
    unfolding settled_observations_def
  proof clarify
    fix i u assume u: "(i, u) \<in> set (sc_labels e)"
    then have "i < length ids" using obs by (auto simp: observed_def)
    with u assms(2,3) show "settled (ids ! i) False u \<and> (\<exists>info. targets_find (ids ! i) = Some info \<and> target_id info = ids ! i)"
      by (auto simp: case_ok_def registered_def)
  qed
  moreover have "identities_ok ?n (mg_ids m)" using assms(4) by (simp add: merger_ok_def)
  ultimately have "identities_ok ?n s' \<and> extends_identities (mg_ids m) s' \<and> attr_stands_for ids False (sc_labels e) l s'"
    if "merge_attribute ids (sc_labels e) (mg_ids m) = Inr (l, s')" for s'
    using merge_attribute_ok [OF that obs] by blast
  from typed_ok [OF l(1) assms(4), of "attr_stands_for ids False (sc_labels e) l", OF this]
  have g: "merger_grows ?n H m H m'" and a: "attr_stands_for ids False (sc_labels e) l (mg_ids m')" by auto
  have "values_at H i vs (take (sc_count e) (drop off (op_operands x)))" if "(i, x, off) \<in> set (sc_sources e)" for i x off
    using operands_at_ok [OF l(2) _ _ that] g assms(2) that by (auto simp: merger_grows_def case_ok_def)
  with a operands_at_length [OF l(2)] have "emitted_case ids H m' e (l, targetSet (map (\<lambda>(t, x, off). ids ! t) (sc_sources e)), vs)"
    by (auto simp: emitted_case_def attr_stands_for_def attr_at_def case_prod_unfold)
  with g l(3) show ?thesis by blast
qed

lemma emit_cases_ok:
  assumes "foldE (emit_case ids) es (acc, m) = Inr (acc', m')" "\<forall>e \<in> set es. case_ok ids e" "registered ids"
    "merger_ok (length ids) H m"
  shows "merger_grows (length ids) H m H m' \<and> (\<exists>zs. acc' = acc @ zs \<and> list_all2 (emitted_case ids H m') es zs)"
  using assms
proof (induction es arbitrary: acc m)
  case Nil
  then show ?case using merger_grows_refl by fastforce
next
  case (Cons e es)
  then obtain acc1 m1 where s: "emit_case ids e (acc, m) = Inr (acc1, m1)" "foldE (emit_case ids) es (acc1, m1) = Inr (acc', m')"
    by (auto simp: bindE_Inr_iff)
  from emit_case_ok [OF s(1) _ Cons.prems(3,4)] Cons.prems(2) obtain z where
    z: "merger_grows (length ids) H m H m1" "acc1 = acc @ [z]" "emitted_case ids H m1 e z" by auto
  from Cons.IH [OF s(2) _ Cons.prems(3) grows_ok [OF z(1)]] Cons.prems(2) obtain zs where
    zs: "merger_grows (length ids) H m1 H m'" "acc' = acc1 @ zs" "list_all2 (emitted_case ids H m') es zs" by auto
  from emitted_case_mono [OF z(3) zs(1)] zs z(2) merger_grows_trans [OF z(1) zs(1)] show ?case
    by (intro conjI exI [of _ "z # zs"]) auto
qed

section \<open>The merged switch\<close>

lemma arms_of_arms:
  assumes "arms_of m d (i, x) A"
  shows "switch_arms x = map (\<lambda>a. (ar_label a, ar_succ a, arm_arguments a)) A"
    and "hd (switch_segments x) = take (snd d) (tl (op_operands x))"
    and "\<forall>a \<in> set A. ar_target a = i \<and> ar_op a = x \<and> ar_label a \<in> set (switch_labels x)"
    and "map_of (mg_blocks m ! i) (hd (op_succs x)) = Some (fst d)" "1 + snd d \<le> length (op_operands x)"
proof -
  from assms obtain labels counts where a: "op_get as_array x ''cases'' = Some labels"
    "op_get as_i32s x ''argument_counts'' = Some counts" "length counts = length labels + 1" "length (op_succs x) = length counts"
    "op_operands x \<noteq> []" "map_of (mg_blocks m ! i) (hd (op_succs x)) = Some (fst d)" "nat (hd counts) = snd d"
    "1 + snd d \<le> length (op_operands x)"
    "arms_from i x (1 + snd d) (zip labels (zip (tl (op_succs x)) (tl counts))) A" by (auto simp: arms_of_def)
  then show "map_of (mg_blocks m ! i) (hd (op_succs x)) = Some (fst d)" "1 + snd d \<le> length (op_operands x)" by auto
  obtain c cs where c: "counts = c # cs" using a(3) by (cases counts) auto
  have seg: "switch_segments x = take (snd d) (tl (op_operands x)) # segments cs (drop (1 + snd d) (op_operands x))"
    using a(2,7) by (simp add: switch_segments_def c drop_Suc)
  then show "hd (switch_segments x) = take (snd d) (tl (op_operands x))" by simp
  have arms: "map (\<lambda>a. (ar_label a, ar_succ a, arm_arguments a)) A =
      zip labels (zip (tl (op_succs x)) (segments cs (drop (1 + snd d) (op_operands x))))"
    using arms_from_arms [OF a(9)] a(3,4) by (simp add: c)
  then show "switch_arms x = map (\<lambda>a. (ar_label a, ar_succ a, arm_arguments a)) A"
    using a(1) by (simp add: switch_arms_def switch_labels_def seg)
  have "ar_label a \<in> set labels" if "a \<in> set A" for a
  proof -
    from that have "(ar_label a, ar_succ a, arm_arguments a) \<in> set (map (\<lambda>a. (ar_label a, ar_succ a, arm_arguments a)) A)" by simp
    then show ?thesis unfolding arms by (rule set_zip_leftD)
  qed
  with arms_from_target [OF a(9)] a(1) show "\<forall>a \<in> set A. ar_target a = i \<and> ar_op a = x \<and> ar_label a \<in> set (switch_labels x)"
    by (simp add: switch_labels_def)
qed

lemma case_targets_distinct:
  assumes "list_all2 (\<lambda>p A. \<forall>a \<in> set A. ar_target a = fst p) ops As" "distinct (map fst ops)" "\<forall>A \<in> set As. distinct (map ar_case A)"
  shows "distinct (map ar_target (filter (\<lambda>a. ar_case a = k) (concat As)))"
  using assms
proof (induction rule: list_all2_induct)
  case (Cons p ops A As)
  have "length (filter (\<lambda>a. ar_case a = k) A) \<le> 1"
  proof -
    have "distinct (map ar_case (filter (\<lambda>a. ar_case a = k) A))" using Cons.prems by (simp add: distinct_map_filter)
    from distinct_card [OF this] have "length (filter (\<lambda>a. ar_case a = k) A) = card (set (map ar_case (filter (\<lambda>a. ar_case a = k) A)))"
      by simp
    also have "\<dots> \<le> card {k}" by (rule card_mono) auto
    finally show ?thesis by simp
  qed
  then have "distinct (map ar_target (filter (\<lambda>a. ar_case a = k) A))"
    by (cases "filter (\<lambda>a. ar_case a = k) A") auto
  moreover have "ar_target a \<noteq> ar_target b" if "a \<in> set A" "b \<in> set (concat As)" for a b
  proof -
    from that(2) obtain C where C: "C \<in> set As" "b \<in> set C" by auto
    from C(1) obtain j where j: "j < length As" "As ! j = C" by (auto simp: in_set_conv_nth)
    have "length ops = length As" "\<forall>b \<in> set (As ! j). ar_target b = fst (ops ! j)"
      using Cons.hyps(2) j(1) unfolding list_all2_conv_all_nth by simp_all
    with C j have "ops ! j \<in> set ops" "ar_target b = fst (ops ! j)" by auto
    then obtain q where "q \<in> set ops" "ar_target b = fst q" by blast
    moreover from this(1) Cons.prems(1) have "fst q \<noteq> fst p" by (simp add: image_iff) metis
    ultimately show ?thesis using that(1) Cons.hyps(1) by metis
  qed
  moreover have "distinct (map ar_target (filter (\<lambda>a. ar_case a = k) (concat As)))" using Cons by simp
  ultimately show ?case by auto
qed simp

lemma filter_zip_keys:
  "length xs = length ys \<Longrightarrow> map fst (filter (\<lambda>p. fst p \<in> S) (zip xs ys)) = filter (\<lambda>x. x \<in> S) xs"
  by (induction xs ys rule: list_induct2) auto

text \<open>The case an entry of the scan is, when the targets differ and no target has two arms in one case.\<close>

lemma scanned_case_ok:
  assumes built: "built B (concat As) cases" and arms: "list_all2 (arms_of m d) ops As"
    and ops: "observed ids ops" "\<forall>(i, x) \<in> set ops. native_op (ids ! i) x"
    and dist: "\<forall>A \<in> set As. distinct (map ar_case A)" and k: "k < length cases"
  shows "case_ok ids (cases ! k)"
proof -
  let ?T = "filter (\<lambda>a. ar_case a = k) (concat As)"
  have from': "ar_target a < length ids \<and> settled (ids ! ar_target a) False (ar_label a)" if "a \<in> set (concat As)" for a
  proof -
    from that obtain C where "C \<in> set As" "a \<in> set C" by auto
    then obtain j where j: "j < length As" "a \<in> set (As ! j)" by (metis in_set_conv_nth)
    have p: "ops ! j \<in> set ops" "arms_of m d (fst (ops ! j), snd (ops ! j)) (As ! j)"
      using arms j(1) by (auto simp: list_all2_conv_all_nth)
    from arms_of_arms(3) [OF p(2)] j(2) have a: "ar_target a = fst (ops ! j)" "ar_label a \<in> set (switch_labels (snd (ops ! j)))" by auto
    then obtain labels where "op_get as_array (snd (ops ! j)) ''cases'' = Some labels" "ar_label a \<in> set labels"
      by (cases "op_get as_array (snd (ops ! j)) ''cases''") (auto simp: switch_labels_def)
    then have "(''cases'', ArrayA labels) \<in> set (op_attrs (snd (ops ! j)))"
      by (auto simp: op_get_def get_as_Some dest: map_of_SomeD)
    with ops(2) p(1) have "settled (ids ! fst (ops ! j)) (numeric_field ''cases'') (ArrayA labels)"
      by (fastforce simp: native_op_def)
    then have "\<forall>l \<in> set labels. settled (ids ! fst (ops ! j)) False l" by (simp add: numeric_field_def list_all_iff)
    with a \<open>ar_label a \<in> set labels\<close> p(1) ops(1) show ?thesis by (auto simp: observed_def)
  qed
  have eqs: "sc_labels (cases ! k) = map (\<lambda>a. (ar_target a, ar_label a)) ?T"
    "sc_sources (cases ! k) = map (\<lambda>a. (ar_target a, ar_op a, ar_offset a)) ?T" "?T \<noteq> []"
    using built k by (auto simp: built_def filter_empty_conv)
  have "list_all2 (\<lambda>p A. \<forall>a \<in> set A. ar_target a = fst p) ops As"
    using arms by (rule list_all2_mono) (use arms_of_arms(3) in \<open>metis prod.collapse\<close>)
  from case_targets_distinct [OF this _ dist] ops(1) have d: "distinct (map ar_target ?T)" by (simp add: observed_def)
  have "observed ids (sc_labels (cases ! k))"
    using eqs d ops(1) from' by (auto simp: observed_def comp_def)
  moreover have "distinct (map fst (sc_sources (cases ! k)))" using d by (simp add: eqs comp_def)
  moreover have "ar_offset a + sc_count (cases ! k) \<le> length (op_operands (ar_op a))" if "a \<in> set ?T" for a
    using built that by (auto simp: built_def)
  ultimately show ?thesis using from' by (auto simp: case_ok_def eqs(1,2))
qed

lemma switch_at_target:
  assumes built: "built (mg_blocks m) (concat As) cases" and arms: "arms_of m d (i, x) A" "A \<in> set As"
    and other: "\<forall>a \<in> set (concat As). ar_target a = i \<longrightarrow> a \<in> set A"
    and ids: "distinct ids" "i < length ids" "\<forall>a \<in> set (concat As). ar_target a < length ids"
    and order: "keeps_order (map ar_case A) ordered" "set ordered = {..<length cases}"
    and zs: "list_all2 (emitted_case ids H m) (map (\<lambda>k. cases ! k) ordered) zs"
    and y: "op_get as_array y ''cases'' = Some (map (\<lambda>(l, d, vs). l) zs)"
      "op_get as_array y ''case_domains'' = Some (map (\<lambda>(l, d, vs). d) zs)"
      "tl (op_succs y) = map sc_successor (map (\<lambda>k. cases ! k) ordered)" "tl (switch_segments y) = map (\<lambda>(l, d, vs). vs) zs"
  shows "list_all2 (arm_at ids H m i) (active_arms (ids ! i) y) (switch_arms x)"
proof -
  let ?S = "set (map ar_case A)" and ?Z = "zip ordered zs"
  let ?arm = "\<lambda>(k, l, d, vs). (l, sc_successor (cases ! k), vs)"
  have len: "length ordered = length zs" using list_all2_lengthD [OF zs] by simp
  have e: "emitted_case ids H m (cases ! fst p) (snd p) \<and> fst p < length cases" if "p \<in> set ?Z" for p
  proof -
    from that obtain j where j: "j < length zs" "p = (ordered ! j, zs ! j)" by (auto simp: set_zip)
    with zs len have "emitted_case ids H m (cases ! (ordered ! j)) (zs ! j)" by (auto simp: list_all2_conv_all_nth)
    moreover have "ordered ! j \<in> set ordered" using j len by simp
    ultimately show ?thesis using order(2) j(2) by auto
  qed
  have act: "containsTarget (Some (fst (snd (snd p)))) (ids ! i) \<longleftrightarrow> fst p \<in> ?S" if p: "p \<in> set ?Z" for p
  proof -
    let ?T = "filter (\<lambda>a. ar_case a = fst p) (concat As)"
    have "fst (snd (snd p)) = targetSet (map (\<lambda>q. ids ! fst q) (sc_sources (cases ! fst p)))"
      using e [OF p] by (simp add: emitted_case_def)
    also have "sc_sources (cases ! fst p) = map (\<lambda>a. (ar_target a, ar_op a, ar_offset a)) ?T"
      using built e [OF p] by (simp add: built_def)
    finally have "containsTarget (Some (fst (snd (snd p)))) (ids ! i) \<longleftrightarrow> (\<exists>a \<in> set ?T. ids ! i = ids ! ar_target a)"
      by (auto simp: comp_def)
    also have "\<dots> \<longleftrightarrow> (\<exists>a \<in> set ?T. ar_target a = i)"
      using ids by (auto simp: nth_eq_iff_index_eq)
    also have "\<dots> \<longleftrightarrow> (\<exists>a \<in> set A. ar_case a = fst p)"
      (is "?l \<longleftrightarrow> ?r")
    proof
      assume ?l
      then obtain a where "a \<in> set (concat As)" "ar_target a = i" "ar_case a = fst p" by auto
      with other show ?r by blast
    next
      assume ?r
      then obtain a where a: "a \<in> set A" "ar_case a = fst p" by blast
      moreover have "a \<in> set (concat As)" using a(1) arms(2) by auto
      moreover have "ar_target a = i" using a(1) arms_of_arms(3) [OF arms(1)] by blast
      ultimately show ?l by auto
    qed
    also have "\<dots> \<longleftrightarrow> fst p \<in> ?S" by force
    finally show ?thesis .
  qed
  have "zip (map (\<lambda>(l, d, vs). d) zs) (switch_arms y) = map (\<lambda>p. (fst (snd (snd p)), ?arm p)) ?Z"
    using len y(1,3,4) unfolding switch_arms_def switch_labels_def
    by (auto simp: list_eq_iff_nth_eq case_prod_unfold)
  then have "active_arms (ids ! i) y = map ?arm (filter (\<lambda>p. containsTarget (Some (fst (snd (snd p)))) (ids ! i)) ?Z)"
    unfolding active_arms_def y(2) by (simp add: filter_map comp_def)
  also have "filter (\<lambda>p. containsTarget (Some (fst (snd (snd p)))) (ids ! i)) ?Z = filter (\<lambda>p. fst p \<in> ?S) ?Z"
    using act by (intro filter_cong) auto
  finally have active: "active_arms (ids ! i) y = map ?arm (filter (\<lambda>p. fst p \<in> ?S) ?Z)" .
  have keys: "map fst (filter (\<lambda>p. fst p \<in> ?S) ?Z) = map ar_case A"
    using filter_zip_keys [OF len] order(1) by (simp only: keeps_order_def)
  have "list_all2 (\<lambda>p a. arm_at ids H m i (?arm p) (ar_label a, ar_succ a, arm_arguments a)) (filter (\<lambda>p. fst p \<in> ?S) ?Z) A"
    unfolding list_all2_conv_all_nth
  proof (intro conjI allI impI)
    show "length (filter (\<lambda>p. fst p \<in> ?S) ?Z) = length A" using arg_cong [OF keys, of length] by simp
    fix j assume j: "j < length (filter (\<lambda>p. fst p \<in> ?S) ?Z)"
    let ?p = "filter (\<lambda>p. fst p \<in> ?S) ?Z ! j" and ?a = "A ! j"
    have jA: "j < length A" using j arg_cong [OF keys, of length] by simp
    have k: "fst ?p = ar_case ?a" using arg_cong [OF keys, of "\<lambda>xs. xs ! j"] j jA by simp
    have "?p \<in> set ?Z" using nth_mem [OF j] by auto
    from e [OF this, unfolded k] have em: "emitted_case ids H m (cases ! ar_case ?a) (snd ?p)" "ar_case ?a < length cases"
      by simp_all
    have "?a \<in> set A" using jA by simp
    then have a: "?a \<in> set (concat As)" "ar_target ?a = i" "ar_op ?a = x"
      using arms(2) arms_of_arms(3) [OF arms(1)] by auto
    have mem: "?a \<in> set (filter (\<lambda>a. ar_case a = ar_case ?a) (concat As))" using a(1) by simp
    have eqs: "sc_labels (cases ! ar_case ?a) = map (\<lambda>a. (ar_target a, ar_label a)) (filter (\<lambda>a. ar_case a = ar_case ?a) (concat As))"
      "sc_sources (cases ! ar_case ?a) = map (\<lambda>a. (ar_target a, ar_op a, ar_offset a)) (filter (\<lambda>a. ar_case a = ar_case ?a) (concat As))"
      "sc_count (cases ! ar_case ?a) = ar_count ?a"
      "map_of (mg_blocks m ! ar_target ?a) (ar_succ ?a) = Some (sc_successor (cases ! ar_case ?a))"
      using built a(1) em(2) unfolding built_def by blast+
    have b: "(i, ar_label ?a) \<in> set (sc_labels (cases ! ar_case ?a))"
      using imageI [OF mem, of "\<lambda>a. (ar_target a, ar_label a)"] a(2) unfolding eqs(1) set_map by simp
    have b': "(i, x, ar_offset ?a) \<in> set (sc_sources (cases ! ar_case ?a))"
      using imageI [OF mem, of "\<lambda>a. (ar_target a, ar_op a, ar_offset a)"] a(2,3) unfolding eqs(2) set_map by simp
    note b = b b' eqs(3) eqs(4) [unfolded a(2)]
    have "\<forall>q \<in> set (sc_labels (cases ! ar_case ?a)). attr_at ids (mg_ids m) (fst q) False (fst (snd ?p)) (snd q)"
      "\<forall>q \<in> set (sc_sources (cases ! ar_case ?a)). values_at H (fst q) (snd (snd (snd ?p)))
        (take (sc_count (cases ! ar_case ?a)) (drop (snd (snd q)) (op_operands (fst (snd q)))))"
      using em(1) unfolding emitted_case_def by (auto simp: case_prod_unfold)
    from bspec [OF this(1) b(1)] bspec [OF this(2) b(2)]
    show "arm_at ids H m i (?arm ?p) (ar_label ?a, ar_succ ?a, arm_arguments ?a)"
      by (simp only: arm_at_def arm_arguments_def case_prod_unfold fst_conv snd_conv k b(3,4) a(3))
  qed
  then show ?thesis by (simp add: active arms_of_arms(1) [OF arms(1)] list_all2_map1 list_all2_map2)
qed

lemma arms_of_mono: "arms_of m d p A \<Longrightarrow> mg_blocks m' = mg_blocks m \<Longrightarrow> arms_of m' d p A"
  by (simp add: arms_of_def)

text \<open>Two lists of arms of one target are those of one operation.\<close>

lemma arms_of_target:
  assumes "list_all2 (arms_of m d) ops As" "distinct (map fst ops)" "(i, x) \<in> set ops"
  obtains A where "A \<in> set As" "arms_of m d (i, x) A" "\<forall>a \<in> set (concat As). ar_target a = i \<longrightarrow> a \<in> set A"
proof -
  from assms(3) obtain j where j: "j < length ops" "ops ! j = (i, x)" by (metis in_set_conv_nth)
  have len: "length As = length ops" using list_all2_lengthD [OF assms(1)] by simp
  have arms: "arms_of m d (ops ! k) (As ! k)" if "k < length ops" for k using assms(1) that by (simp add: list_all2_conv_all_nth)
  have "a \<in> set (As ! j)" if a: "a \<in> set (concat As)" "ar_target a = i" for a
  proof -
    from a(1) obtain C where "C \<in> set As" "a \<in> set C" by auto
    then obtain k where k: "k < length ops" "a \<in> set (As ! k)" using len by (metis in_set_conv_nth)
    have "arms_of m d (fst (ops ! k), snd (ops ! k)) (As ! k)" using arms [OF k(1)] by simp
    from arms_of_arms(3) [OF this] k(2) a(2) have "fst (ops ! k) = i" by auto
    then have "map fst ops ! k = map fst ops ! j" using j k(1) by simp
    then have "k = j" using nth_eq_iff_index_eq [OF assms(2), of k j] j(1) k(1) by simp
    with k(2) show ?thesis by simp
  qed
  with that [of "As ! j"] arms [OF j(1)] j len show thesis by auto
qed

lemma switch_operation_ok:
  assumes run: "switchOperation ids ops m = Inr (y, m')" and names: "\<forall>(i, x) \<in> set ops. op_name x = ''sela.switch''"
    and obs: "observed ids ops" "registered ids" "\<forall>(i, x) \<in> set ops. native_op (ids ! i) x" and ok: "merger_ok (length ids) H m"
  shows "merger_grows (length ids) H m H m' \<and> (\<forall>(i, x) \<in> set ops. same_switch ids H m' i y x)"
proof -
  let ?n = "length ids" and ?st = "\<lparr>ss_cases = [], ss_identities = [], ss_orders = [], ss_default = None\<rparr>"
  have ne: "ops \<noteq> []" "distinct (map fst ops)" "\<forall>p \<in> set ops. fst p < ?n" using obs(1) by (auto simp: observed_def)
  from run obtain st where scan: "foldE (scan_switch m) ops ?st = Inr st" by (auto simp: switchOperation_def bindE_Inr_iff)
  have "built (mg_blocks m) [] (ss_cases ?st)" "known_cases (ss_identities ?st) (ss_cases ?st)"
    by (simp_all add: built_def known_cases_def)
  from scan_switches_ok [OF scan this ne(1)] obtain As d where
    built: "built (mg_blocks m) (concat As) (ss_cases st)" and orders: "ss_orders st = map (map ar_case) As" and
    default: "ss_default st = Some d" and arms: "list_all2 (arms_of m d) ops As" by auto
  let ?cases = "ss_cases st"
  from run scan default obtain ordered sel ds zs where
    order: "common_order (length ?cases) (ss_orders st) = Some ordered" and
    sel: "operand ?n (map (\<lambda>(i, x). (i, hd (op_operands x))) ops) m = Inr sel" and
    ds: "operands_at ?n (map (\<lambda>(i, x). (i, x, 1)) ops) (snd d) m = Inr ds" and
    zs: "foldE (emit_case ids) (map (\<lambda>k. ?cases ! k) ordered) ([], m) = Inr (zs, m')" and
    y: "y = Op ''sela.switch''
        [(''argument_counts'', DenseI32A (int (snd d) # map (\<lambda>c. int (sc_count c)) (map (\<lambda>k. ?cases ! k) ordered))),
         (''case_domains'', ArrayA (map (\<lambda>(l, d, vs). d) zs)), (''cases'', ArrayA (map (\<lambda>(l, d, vs). l) zs))]
        (sel # ds @ concat (map (\<lambda>(l, d, vs). vs) zs)) [] (fst d # map sc_successor (map (\<lambda>k. ?cases ! k) ordered)) [] True"
    by (auto simp: switchOperation_def bindE_Inr_iff Let_def case_prod_unfold split: option.splits)
  have "\<forall>xs \<in> set (ss_orders st). set xs \<subseteq> {..<length ?cases}"
    using built unfolding orders by (fastforce simp: built_def)
  from common_order_ok [OF this] order have ext: "extends_orders (length ?cases) (map (map ar_case) As) ordered" by (simp add: orders)
  have keeps: "keeps_order (map ar_case A) ordered" if "A \<in> set As" for A using ext that by (auto simp: extends_orders_def)
  have dist: "\<forall>A \<in> set As. distinct (map ar_case A)"
  proof
    fix A assume "A \<in> set As"
    from keeps [OF this] show "distinct (map ar_case A)" by (metis distinct_filter keeps_order_def)
  qed
  have "\<forall>e \<in> set (map (\<lambda>k. ?cases ! k) ordered). case_ok ids e"
    using scanned_case_ok [OF built arms obs(1,3) dist] ext by (auto simp: extends_orders_def)
  from emit_cases_ok [OF zs this obs(2) ok] have g: "merger_grows ?n H m H m'" and
    em: "list_all2 (emitted_case ids H m') (map (\<lambda>k. ?cases ! k) ordered) zs" by auto
  have len: "length zs = length ordered" using list_all2_lengthD [OF em] by simp
  have "list_all2 (\<lambda>c xs. length xs = nat c) (int (snd d) # map (\<lambda>c. int (sc_count c)) (map (\<lambda>k. ?cases ! k) ordered))
      (ds # map (\<lambda>(l, d, vs). vs) zs)"
    using list_all2_mono [OF em, of "\<lambda>e z. length (snd (snd z)) = sc_count e"] operands_at_length [OF ds]
    by (simp add: emitted_case_def list_all2_map1 list_all2_map2 case_prod_unfold)
  from segments_concat [OF this] have seg: "switch_segments y = ds # map (\<lambda>(l, d, vs). vs) zs"
    by (simp add: switch_segments_def op_get_def get_as_def y)
  have blocks: "mg_blocks m' = mg_blocks m" using g by (simp add: merger_grows_def)
  have "same_switch ids H m' i y x" if ix: "(i, x) \<in> set ops" for i x
  proof -
    have i: "i < ?n" using ne(3) ix by force
    from arms_of_target [OF arms ne(2) ix] obtain A where A: "A \<in> set As" "arms_of m d (i, x) A"
      "\<forall>a \<in> set (concat As). ar_target a = i \<longrightarrow> a \<in> set A" .
    have targets: "\<forall>a \<in> set (concat As). ar_target a < ?n"
    proof
      fix a assume "a \<in> set (concat As)"
      then obtain C where "C \<in> set As" "a \<in> set C" by auto
      then obtain k where k: "k < length As" "a \<in> set (As ! k)" by (metis in_set_conv_nth)
      then have "arms_of m d (fst (ops ! k), snd (ops ! k)) (As ! k)" "ops ! k \<in> set ops"
        using arms by (auto simp: list_all2_conv_all_nth)
      with arms_of_arms(3) [OF this(1)] k(2) ne(3) show "ar_target a < ?n" by auto
    qed
    have "list_all2 (arm_at ids H m' i) (active_arms (ids ! i) y) (switch_arms x)"
    proof (rule switch_at_target [OF _ _ A(1,3) _ i targets keeps [OF A(1)] _ em])
      show "built (mg_blocks m') (concat As) ?cases" using built by (simp add: blocks)
      show "arms_of m' d (i, x) A" using A(2) blocks by (rule arms_of_mono)
    qed (use obs(1) ext seg in \<open>simp_all add: observed_def extends_orders_def op_get_def get_as_def, simp_all add: y\<close>)
    moreover have "shared_value H i sel = Some (hd (op_operands x))"
      by (rule operand_ok [OF sel _ _ _ i]) (use ok ne(2) ix in \<open>force simp: merger_ok_def comp_def case_prod_unfold\<close>)+
    moreover have "(i, x, 1) \<in> set (map (\<lambda>(i, x). (i, x, 1)) ops)" using ix by force
    from operands_at_ok [OF ds _ _ this i] arms_of_arms(5) [OF A(2)] ok ne(2)
    have "values_at H i ds (take (snd d) (drop 1 (op_operands x)))"
      by (simp add: merger_ok_def comp_def case_prod_unfold)
    ultimately show ?thesis
      using arms_of_arms(2,4) [OF A(2)] names ix
      by (auto simp: same_switch_def seg drop_Suc blocks) (auto simp: y)
  qed
  with g show ?thesis by blast
qed

text \<open>An operation of the merger, whichever kind it is.\<close>

definition op_at :: "string list \<Rightarrow> naming \<Rightarrow> merger \<Rightarrow> nat \<Rightarrow> op \<Rightarrow> op \<Rightarrow> bool" where
  "op_at ids H m i y x \<longleftrightarrow> (if op_name x = ''sela.switch'' then same_switch ids H m i y x else same_op ids H m i y x)"

lemma op_at_mono: "op_at ids H m i y x \<Longrightarrow> merger_grows n H m H' m' \<Longrightarrow> op_at ids H' m' i y x"
  using same_op_mono same_switch_mono by (auto simp: op_at_def)

lemma operation_ok:
  assumes run: "operation ids ops m = Inr (y, m')" and obs: "observed ids ops" "registered ids" "\<forall>(i, x) \<in> set ops. native_op (ids ! i) x"
    and ok: "merger_ok (length ids) H m"
  shows "\<exists>H'. merger_grows (length ids) H m H' m' \<and> (\<forall>(i, x) \<in> set ops. op_at ids H' m' i y x)"
proof (cases "list_all (\<lambda>(i, x). op_name x = ''sela.switch'') ops")
  case True
  then have "switchOperation ids ops m = Inr (y, m')" "\<forall>(i, x) \<in> set ops. op_name x = ''sela.switch''"
    using run by (simp_all add: operation_def list_all_iff)
  from switch_operation_ok [OF this obs ok] True show ?thesis by (fastforce simp: op_at_def list_all_iff)
next
  case False
  from plain_operation_ok [OF run False obs ok] obtain H' where
    H': "merger_grows (length ids) H m H' m'" "\<forall>(i, x) \<in> set ops. same_op ids H' m' i y x" by blast
  have "op_name x \<noteq> ''sela.switch''" if "(i, x) \<in> set ops" for i x
  proof
    assume "op_name x = ''sela.switch''"
    with H'(2) that have "op_name y = ''sela.switch''" by (auto simp: same_op_def)
    with H'(2) False show False by (auto simp: same_op_def list_all_iff)
  qed
  with H' show ?thesis by (fastforce simp: op_at_def)
qed

end
