(* ===== verification/Common_Function_Facts.thy ===== *)
theory Common_Function_Facts
  imports Common_Switch_Facts
begin

text \<open>
  Merged functions: read at one of the targets, a merged function is that target's function. Its active blocks
  are the blocks of the target in their order, with the same arguments and, but for casts that are the identity
  there, the same operations.
\<close>

section \<open>Instructions taken together\<close>

lemma next_input_iff:
  "length g = length rest \<Longrightarrow>
   (i, x) \<in> set (next_input g rest) \<longleftrightarrow> i < length rest \<and> g ! i \<noteq> None \<and> rest ! i \<noteq> [] \<and> x = hd (rest ! i)"
  by (auto simp: next_input_def map_filter_def in_set_enumerate_eq image_iff split: if_splits)

lemma next_input_distinct: "distinct (map fst (next_input g rest))"
proof -
  have "distinct (map fst (List.map_filter (\<lambda>(i, b, xs). if b = None \<or> xs = [] then None else Some (i, hd xs)) (List.enumerate k zs))) \<and>
      (\<forall>p \<in> set (List.map_filter (\<lambda>(i, b, xs). if b = None \<or> xs = [] then None else Some (i, hd xs)) (List.enumerate k zs)). k \<le> fst p)"
    for k and zs :: "(nat option \<times> op list) list"
  proof (induction zs arbitrary: k)
    case (Cons z zs)
    from Cons [of "Suc k"] show ?case by (cases z) (force simp: map_filter_simps)
  qed (simp add: map_filter_simps)
  then show ?thesis by (simp add: next_input_def)
qed

lemma advance_nth: "i < length rest \<Longrightarrow> advance ts rest ! i = (if i \<in> set ts then tl (rest ! i) else rest ! i)"
  by (simp add: advance_def nth_enumerate_eq)

lemma advance_length [simp]: "length (advance ts rest) = length rest"
  by (simp add: advance_def)

lemma same_input_all: "same_input g rest \<Longrightarrow> length g = length rest \<Longrightarrow> i < length rest \<Longrightarrow> g ! i \<noteq> None \<Longrightarrow> rest ! i \<noteq> []"
proof -
  assume a: "same_input g rest" "length g = length rest" "i < length rest" "g ! i \<noteq> None"
  then have "(g ! i, rest ! i) \<in> set (zip g rest)" by (auto simp: in_set_zip)
  with a show "rest ! i \<noteq> []" unfolding same_input_def list_all_iff by fastforce
qed

section \<open>The values of the source functions\<close>

definition all_known :: "(nat \<times> sty) list list \<Rightarrow> merger \<Rightarrow> bool" where
  "all_known types m \<longleftrightarrow>
     (\<forall>p \<in> set (mg_values m). \<forall>i < length types. \<forall>x. fst p ! i = Some x \<longrightarrow> x \<in> fst ` set (types ! i))"

definition native_values :: "string list \<Rightarrow> (nat \<times> sty) list list \<Rightarrow> bool" where
  "native_values ids types \<longleftrightarrow> length types = length ids \<and> (\<forall>i < length ids. \<forall>p \<in> set (types ! i). concrete_type (ids ! i) (snd p))"

definition known_op :: "string list \<Rightarrow> (nat \<times> sty) list list \<Rightarrow> nat \<Rightarrow> op \<Rightarrow> bool" where
  "known_op ids types i x \<longleftrightarrow> native_op (ids ! i) x \<and> set (op_results x) \<subseteq> set (types ! i)"

lemma value_key_Some: "value_key n obs ! i = Some x \<Longrightarrow> i < n \<Longrightarrow> (i, x) \<in> set obs"
proof -
  have "fold (\<lambda>(i, v) r. r[i := Some v]) obs r ! i = Some x \<Longrightarrow> i < length r \<Longrightarrow> (i, x) \<in> set obs \<or> r ! i = Some x" for r
  proof (induction obs arbitrary: r)
    case (Cons p obs)
    obtain j w where p: "p = (j, w)" by fastforce
    from Cons.IH [of "r[j := Some w]"] Cons.prems show ?case by (cases "i = j") (auto simp: p)
  qed simp
  from this [of "replicate n None"] show "value_key n obs ! i = Some x \<Longrightarrow> i < n \<Longrightarrow> (i, x) \<in> set obs"
    by (simp add: value_key_def)
qed

lemma new_value_known:
  assumes "new_value n obs m = (v, m')" "all_known types m" "length types = n" "\<forall>(i, x) \<in> set obs. x \<in> fst ` set (types ! i)"
  shows "all_known types m'"
  unfolding all_known_def
proof (intro ballI allI impI)
  fix p i x assume p: "p \<in> set (mg_values m')" "i < length types" "fst p ! i = Some x"
  from assms(1) p(1) have "p \<in> insert (value_key n obs, v) (set (mg_values m))"
    using set_alist_update by (fastforce simp: new_value_def)
  then consider "p = (value_key n obs, v)" | "p \<in> set (mg_values m)" by blast
  then show "x \<in> fst ` set (types ! i)"
  proof cases
    case 1
    with value_key_Some [of n obs i x] p assms(3,4) show ?thesis by auto
  qed (use assms(2) p in \<open>auto simp: all_known_def\<close>)
qed

lemma new_results_known:
  assumes "fold (new_result n ops) (List.enumerate k types') (rs, m) = (rs', m')" "all_known types m" "length types = n"
    and "\<forall>(i, x) \<in> set ops. k + length types' \<le> length (op_results x) \<and> set (op_results x) \<subseteq> set (types ! i)"
  shows "all_known types m'"
  using assms(1,2,4)
proof (induction types' arbitrary: k rs m)
  case (Cons t types')
  let ?obs = "map (\<lambda>(target, x). (target, fst (op_results x ! k))) ops"
  obtain v m1 where v: "new_value n ?obs m = (v, m1)" by fastforce
  then have "new_result n ops (k, t) (rs, m) = (rs @ [(v, t)], m1)" by (simp add: new_result_def)
  then have r: "fold (new_result n ops) (List.enumerate (Suc k) types') (rs @ [(v, t)], m1) = (rs', m')"
    using Cons.prems(1) by simp
  have "\<forall>(i, x) \<in> set ?obs. x \<in> fst ` set (types ! i)"
  proof clarsimp
    fix i x assume ix: "(i, x) \<in> set ops"
    then have "k < length (op_results x)" "set (op_results x) \<subseteq> set (types ! i)" using Cons.prems(3) by fastforce+
    then have "op_results x ! k \<in> set (types ! i)" by (meson in_mono nth_mem)
    then show "fst (op_results x ! k) \<in> fst ` set (types ! i)" by simp
  qed
  from new_value_known [OF v Cons.prems(2) assms(3) this] Cons.prems(3) show ?case
    by (intro Cons.IH [OF r]) auto
qed simp

lemma typed_values: "typed f m = Inr (r, m') \<Longrightarrow> mg_values m' = mg_values m \<and> mg_blocks m' = mg_blocks m"
  by (auto simp: typed_def bindE_Inr_iff)

lemma emit_cases_values: "foldE (emit_case ids) es (acc, m) = Inr (acc', m') \<Longrightarrow> mg_values m' = mg_values m"
proof (induction es arbitrary: acc m)
  case (Cons e es)
  then obtain acc1 m1 where s: "emit_case ids e (acc, m) = Inr (acc1, m1)" "foldE (emit_case ids) es (acc1, m1) = Inr (acc', m')"
    by (auto simp: bindE_Inr_iff)
  from s(1) have "mg_values m1 = mg_values m" by (auto simp: emit_case_def bindE_Inr_iff dest: typed_values)
  with Cons.IH [OF s(2)] show ?case by simp
qed simp

lemma mapS_length: "mapS f xs s = Inr (ys, s') \<Longrightarrow> length ys = length xs"
  by (induction xs arbitrary: s ys) (auto simp: bindE_Inr_iff)

lemma operation_known:
  assumes "operation ids ops m = Inr (y, m')" "all_known types m" "length types = length ids"
    and "\<forall>(i, x) \<in> set ops. set (op_results x) \<subseteq> set (types ! i)"
  shows "all_known types m'"
proof (cases "list_all (\<lambda>(i, x). op_name x = ''sela.switch'') ops")
  case True
  with assms(1) obtain es acc acc' where "foldE (emit_case ids) es (acc, m) = Inr (acc', m')"
    by (auto simp: operation_def switchOperation_def bindE_Inr_iff Let_def case_prod_unfold split: option.splits)
  from emit_cases_values [OF this] assms(2) show ?thesis by (simp add: all_known_def)
next
  case False
  let ?first = "snd (hd ops)"
  from plain_operation_steps [OF assms(1) False] obtain attrs m1 ts m2 rs where
    shape: "\<forall>(i, x) \<in> set ops. length (op_results x) = length (op_results ?first)" and
    attrs: "typed (merge_attributes ids ops []) m = Inr (attrs, m1)" and
    types: "typed (mapS (\<lambda>j. merge_type ids (map (\<lambda>(target, x). (target, snd (op_results x ! j))) ops))
        [0..<length (op_results ?first)]) m1 = Inr (ts, m2)" and
    rs: "fold (new_result (length ids) ops) (List.enumerate 0 ts) ([], m2) = (rs, m')"
    by (smt (verit) case_prodD case_prodI2)
  have "length ts = length (op_results ?first)" using types by (auto simp: typed_def bindE_Inr_iff dest: mapS_length)
  moreover have "all_known types m2"
    using typed_values [OF attrs] typed_values [OF types] assms(2) by (simp add: all_known_def)
  moreover have "\<forall>(i, x) \<in> set ops. 0 + length ts \<le> length (op_results x) \<and> set (op_results x) \<subseteq> set (types ! i)"
    using calculation(1) shape assms(4) by fastforce
  ultimately show ?thesis using new_results_known [OF rs _ assms(3)] by blast
qed

section \<open>Optional casts\<close>

text \<open>A merged cast at a target that has it, and at one where it is the identity.\<close>

definition cast_at :: "string list \<Rightarrow> naming \<Rightarrow> merger \<Rightarrow> nat \<Rightarrow> op \<Rightarrow> op \<Rightarrow> bool" where
  "cast_at ids H m i y x \<longleftrightarrow>
     op_name y = ''sela.cast'' \<and> op_name x = ''sela.cast'' \<and> values_at H i (op_operands y) (op_operands x) \<and>
     results_at ids H (mg_ids m) i (op_results y) (op_results x) \<and>
     (\<exists>opcode. op_get as_string x ''opcode'' = Some opcode \<and>
        selectAttribute (op_attr y ''opcode'') (ids ! i) = Inr (StringA (''native_'' @ opcode)))"

definition absent_at :: "string list \<Rightarrow> naming \<Rightarrow> nat \<Rightarrow> op \<Rightarrow> bool" where
  "absent_at ids H i y \<longleftrightarrow>
     op_name y = ''sela.cast'' \<and> length (op_operands y) = 1 \<and> length (op_results y) = 1 \<and>
     shared_value H i (hd (op_operands y)) \<noteq> None \<and> shared_value H i (fst (hd (op_results y))) = shared_value H i (hd (op_operands y)) \<and>
     selectAttribute (op_attr y ''opcode'') (ids ! i) = Inr (StringA ''native_zext'')"

lemma cast_at_mono: "cast_at ids H m i y x \<Longrightarrow> merger_grows n H m H' m' \<Longrightarrow> cast_at ids H' m' i y x"
  by (auto simp: cast_at_def merger_grows_def intro: values_at_mono results_at_mono)

lemma absent_at_mono: "absent_at ids H i y \<Longrightarrow> merger_grows n H m H' m' \<Longrightarrow> absent_at ids H' i y"
  unfolding absent_at_def merger_grows_def using shared_value_mono by (metis option.exhaust)

lemma match_sources:
  "foldE (match_source g casts) vs r = Inr (Some (tuple, v)) \<Longrightarrow> r = Some (tuple, v) \<or>
   ((tuple, v) \<in> set vs \<and> (\<forall>(i, x) \<in> set casts. tuple ! i = Some (hd (op_operands x))) \<and>
    (\<forall>i < length g. g ! i \<noteq> None \<longrightarrow> tuple ! i \<noteq> None))"
proof (induction vs arbitrary: r)
  case (Cons c vs)
  then obtain u where u: "match_source g casts c r = Inr u" "foldE (match_source g casts) vs u = Inr (Some (tuple, v))"
    by (auto simp: bindE_Inr_iff)
  obtain k w where c: "c = (k, w)" by fastforce
  have "u = r \<or> (u = Some c \<and> (\<forall>(i, x) \<in> set casts. k ! i = Some (hd (op_operands x))) \<and> (\<forall>i < length g. g ! i \<noteq> None \<longrightarrow> k ! i \<noteq> None))"
  proof (cases "list_ex (\<lambda>(i, x). k ! i \<noteq> Some (hd (op_operands x))) casts \<or> list_ex (\<lambda>i. g ! i \<noteq> None \<and> k ! i = None) [0..<length g]")
    case True
    with u(1) show ?thesis by (simp add: match_source_def c)
  next
    case False
    then have "(\<forall>(i, x) \<in> set casts. k ! i = Some (hd (op_operands x)))" "\<forall>i < length g. g ! i \<noteq> None \<longrightarrow> k ! i \<noteq> None"
      unfolding list_ex_iff by fastforce+
    with False u(1) show ?thesis by (simp add: match_source_def c split: if_splits)
  qed
  with Cons.IH [OF u(2)] show ?case by (auto simp: c)
qed simp

lemma optional_cast_shape:
  "optional_cast types (i, x) \<Longrightarrow> op_name x = ''sela.cast'' \<and> (\<exists>opcode. op_get as_string x ''opcode'' = Some opcode) \<and>
     (\<exists>v w t. op_operands x = [v] \<and> op_results x = [(w, t)])"
  by (auto simp: optional_cast_def length_Suc_conv)

lemma merge_cast_ok:
  assumes run: "merge_cast ids types g casts m = Inr (y, m')" and g: "length g = length ids" "registered ids"
    and casts: "casts \<noteq> []" "distinct (map fst casts)"
      "\<forall>(i, x) \<in> set casts. i < length ids \<and> g ! i \<noteq> None \<and> optional_cast types (i, x) \<and> known_op ids types i x"
    and ok: "merger_ok (length ids) H m" "all_known types m" "native_values ids types"
  shows "\<exists>H'. merger_grows (length ids) H m H' m' \<and> all_known types m' \<and>
    (\<forall>i < length ids. g ! i \<noteq> None \<longrightarrow>
      (case map_of casts i of Some x \<Rightarrow> cast_at ids H' m' i y x | None \<Rightarrow> absent_at ids H' i y))"
proof -
  let ?n = "length ids"
  from run obtain tuple v where found: "foldE (match_source g casts) (mg_values m) None = Inr (Some (tuple, v))"
    by (auto simp: merge_cast_def bindE_Inr_iff split: option.splits)
  from match_sources [OF this] have tv: "(tuple, v) \<in> set (mg_values m)" "\<And>i x. (i, x) \<in> set casts \<Longrightarrow> tuple ! i = Some (hd (op_operands x))"
    "\<And>i. i < ?n \<Longrightarrow> g ! i \<noteq> None \<Longrightarrow> tuple ! i \<noteq> None" using g(1) by auto
  have Hv: "H v = Some tuple" using ok(1) tv(1) by (auto simp: merger_ok_def naming_ok_def)
  define cs where "cs = map (cast_case types casts tuple) (filter (\<lambda>i. g ! i \<noteq> None) [0..<length g])"
  let ?tobs = "map (\<lambda>(i, o', t, a). (i, t)) cs" and ?vobs = "map (\<lambda>(i, o', t, a). (i, o')) cs" and ?aobs = "map (\<lambda>(i, o', t, a). (i, a)) cs"
  have "bindE (typed (merge_type ids ?tobs) m) (\<lambda>(t, m1). case new_value ?n ?vobs m1 of (r, m2) \<Rightarrow>
      Inr (Op ''sela.cast'' [(''opcode'', choice ids ?aobs)] [v] [(r, t)] [] [] True, m2)) = Inr (y, m')"
    using run unfolding merge_cast_def found bindE_simps by (simp add: Let_def cs_def)
  then obtain q where q: "typed (merge_type ids ?tobs) m = Inr q" "(case q of (t, m1) \<Rightarrow> case new_value ?n ?vobs m1 of (r, m2) \<Rightarrow>
      Inr (Op ''sela.cast'' [(''opcode'', choice ids ?aobs)] [v] [(r, t)] [] [] True, m2)) = (Inr (y, m') :: (op \<times> merger) expected)"
    by (rule bindE_InrE)
  obtain t m1 where p: "q = (t, m1)" by fastforce
  obtain r m2 where r: "new_value ?n ?vobs m1 = (r, m2)" by fastforce
  from q r have t: "typed (merge_type ids ?tobs) m = Inr (t, m1)" "new_value ?n ?vobs m1 = (r, m')"
    "y = Op ''sela.cast'' [(''opcode'', choice ids ?aobs)] [v] [(r, t)] [] [] True"
    unfolding p by auto
  have fst_case: "fst (cast_case types casts tuple i) = i" for i by (simp add: cast_case_def split: option.splits)
  have keys: "map fst ?tobs = filter (\<lambda>i. g ! i \<noteq> None) [0..<length g]" "map fst ?vobs = filter (\<lambda>i. g ! i \<noteq> None) [0..<length g]"
    "map fst ?aobs = filter (\<lambda>i. g ! i \<noteq> None) [0..<length g]"
    using fst_case by (simp_all add: cs_def comp_def case_prod_unfold)
  from casts(1,3) obtain i0 where "i0 < ?n" "g ! i0 \<noteq> None" by (cases casts) auto
  then have nonempty: "filter (\<lambda>i. g ! i \<noteq> None) [0..<length g] \<noteq> []" using g(1) by (auto simp: filter_empty_conv)
  have observed: "observed ids obs" if "map fst obs = filter (\<lambda>i. g ! i \<noteq> None) [0..<length g]" for obs :: "(nat \<times> 'b) list"
  proof -
    have "distinct (map fst obs)" unfolding that by simp
    moreover have "obs \<noteq> []" using nonempty that by (cases obs) auto
    moreover have "set (map fst obs) \<subseteq> {..<length g}" unfolding that by auto
    ultimately show ?thesis using g by (auto simp: observed_def registered_def)
  qed
  have cases: "\<exists>x. map_of casts i = Some x \<and> (i, x) \<in> set casts \<and> cast_case types casts tuple i =
        (i, fst (hd (op_results x)), snd (hd (op_results x)), StringA (''native_'' @ the (op_get as_string x ''opcode'')))"
    if "map_of casts i \<noteq> None" for i using that by (auto simp: cast_case_def dest: map_of_SomeD)
  have other: "\<exists>w u. tuple ! i = Some w \<and> map_of (types ! i) w = Some u \<and> (w, u) \<in> set (types ! i) \<and>
      cast_case types casts tuple i = (i, w, u, StringA ''native_zext'')"
    if i: "i < ?n" "g ! i \<noteq> None" "map_of casts i = None" for i
  proof -
    from tv(3) [OF i(1,2)] obtain w where w: "tuple ! i = Some w" by auto
    with ok(2) tv(1) i(1) ok(3) have "w \<in> fst ` set (types ! i)" by (fastforce simp: all_known_def native_values_def)
    then obtain u where u: "map_of (types ! i) w = Some u" by (metis map_of_eq_None_iff option.exhaust)
    with w i(3) map_of_SomeD [OF u] show ?thesis by (simp add: cast_case_def)
  qed
  have known: "w \<in> fst ` set (types ! i) \<and> concrete_type (ids ! i) u" if "(i, w, u, a) \<in> set cs" for i w u a
  proof -
    from that fst_case have i: "i < ?n" "g ! i \<noteq> None" "cast_case types casts tuple i = (i, w, u, a)"
      using g(1) by (auto simp: cs_def) (metis fst_conv fst_case)+
    show ?thesis
    proof (cases "map_of casts i")
      case None
      from other [OF i(1,2) None] i(1,3) ok(3) show ?thesis by (force simp: native_values_def)
    next
      case (Some x)
      then obtain x where x: "(i, x) \<in> set casts" "w = fst (hd (op_results x))" "u = snd (hd (op_results x))"
        using cases [of i] i(3) by auto
      with casts(3) have k: "known_op ids types i x" "optional_cast types (i, x)" by auto
      from optional_cast_shape [OF k(2)] x(2,3) have "(w, u) \<in> set (op_results x)" by auto
      with k(1) show ?thesis by (force simp: known_op_def native_op_def)
    qed
  qed
  have "native_types ids ?tobs"
    unfolding native_types_def
  proof clarify
    fix i u assume iu: "(i, u) \<in> set ?tobs"
    then have "concrete_type (ids ! i) u" using known by fastforce
    moreover have "i < ?n" using iu observed [OF keys(1)] by (force simp: observed_def)
    ultimately show "concrete_type (ids ! i) u \<and> (\<exists>info. targets_find (ids ! i) = Some info \<and> target_id info = ids ! i)"
      using g(2) by (auto simp: registered_def)
  qed
  moreover have "identities_ok ?n (mg_ids m)" using ok(1) by (simp add: merger_ok_def)
  ultimately have "identities_ok ?n s' \<and> extends_identities (mg_ids m) s' \<and> stands_for ids ?tobs t s'"
    if "merge_type ids ?tobs (mg_ids m) = Inr (t, s')" for s'
    using merge_type_ok [OF that observed [OF keys(1)]] by blast
  from typed_ok [OF t(1) ok(1), of "stands_for ids ?tobs t", OF this]
  have g1: "merger_grows ?n H m H m1" and st: "stands_for ids ?tobs t (mg_ids m1)" by auto
  let ?H = "H(r \<mapsto> value_key ?n ?vobs)"
  note g2 = new_value_ok [OF t(2) grows_ok [OF g1]]
  have grow: "merger_grows ?n H m ?H m'" using g1 g2(1) by (rule merger_grows_trans)
  have ids': "mg_ids m' = mg_ids m1" using t(2) by (auto simp: new_value_def)
  have "all_known types m'"
  proof (rule new_value_known [OF t(2)])
    show "all_known types m1" using typed_values [OF t(1)] ok(2) by (simp add: all_known_def)
    show "\<forall>(i, x) \<in> set ?vobs. x \<in> fst ` set (types ! i)" using known by fastforce
  qed (use ok(3) in \<open>simp add: native_values_def\<close>)
  moreover have "case map_of casts i of Some x \<Rightarrow> cast_at ids ?H m' i y x | None \<Rightarrow> absent_at ids ?H i y"
    if i: "i < ?n" "g ! i \<noteq> None" for i
  proof -
    have mem: "cast_case types casts tuple i \<in> set cs" using i g(1) by (auto simp: cs_def)
    have sel: "selectAttribute (Some (choice ids ?aobs)) (ids ! i) = Inr (StringA a)"
      if "cast_case types casts tuple i = (i, w, u, StringA a)" for w u a
      by (rule choice_select [OF observed [OF keys(3)]]) (use mem that in \<open>force+\<close>)
    have res: "shared_value ?H i r = Some w" if "cast_case types casts tuple i = (i, w, u, a)" for w u a
      by (rule g2(2)) (use mem that i keys(2) in \<open>force+\<close>)
    have ty: "type_at ids (mg_ids m') i t u" if "cast_case types casts tuple i = (i, w, u, a)" for w u a
      using st mem that by (force simp: stands_for_def type_at_def ids')
    have src: "shared_value ?H i v = tuple ! i"
      using Hv grow by (auto simp: shared_value_def merger_grows_def map_le_def dom_def)
    show ?thesis
    proof (cases "map_of casts i")
      case None
      from other [OF i None] obtain w u where w: "tuple ! i = Some w" "cast_case types casts tuple i = (i, w, u, StringA ''native_zext'')" by auto
      then have "absent_at ids ?H i y" using src res [OF w(2)] sel [OF w(2)] by (simp add: absent_at_def t(3) op_attr_def)
      with None show ?thesis by simp
    next
      case (Some x)
      then obtain w u where x: "(i, x) \<in> set casts" "cast_case types casts tuple i =
        (i, fst (hd (op_results x)), snd (hd (op_results x)), StringA (''native_'' @ the (op_get as_string x ''opcode'')))"
        using cases [of i] by auto
      with casts(3) have "optional_cast types (i, x)" by auto
      from optional_cast_shape [OF this] obtain opc a b c where sh: "op_name x = ''sela.cast''" "op_get as_string x ''opcode'' = Some opc"
        "op_operands x = [a]" "op_results x = [(b, c)]" by auto
      have "cast_at ids ?H m' i y x"
        using src tv(2) [OF x(1)] res [OF x(2)] ty [OF x(2)] sel [OF x(2)] sh
        by (simp add: cast_at_def t(3) op_attr_def values_at_def results_at_def)
      with Some show ?thesis by simp
    qed
  qed
  ultimately show ?thesis using grow by blast
qed

section \<open>Blocks\<close>

text \<open>The instructions of a merged block against those of the block of a target.\<close>

inductive aligned :: "string list \<Rightarrow> naming \<Rightarrow> merger \<Rightarrow> nat \<Rightarrow> op list \<Rightarrow> op list \<Rightarrow> bool" for ids H m i where
  aligned_end: "aligned ids H m i [] []"
| aligned_op: "op_at ids H m i y x \<Longrightarrow> aligned ids H m i ys xs \<Longrightarrow> aligned ids H m i (y # ys) (x # xs)"
| aligned_cast: "cast_at ids H m i y x \<Longrightarrow> aligned ids H m i ys xs \<Longrightarrow> aligned ids H m i (y # ys) (x # xs)"
| aligned_absent: "absent_at ids H i y \<Longrightarrow> aligned ids H m i ys xs \<Longrightarrow> aligned ids H m i (y # ys) xs"

inductive_simps aligned_Nil [simp]: "aligned ids H m i [] xs"

lemma aligned_mono: "aligned ids H m i ys xs \<Longrightarrow> merger_grows n H m H' m' \<Longrightarrow> aligned ids H' m' i ys xs"
  by (induction rule: aligned.induct) (auto intro: aligned.intros op_at_mono cast_at_mono absent_at_mono)

lemma merge_instructions_ok:
  assumes "merge_instructions ids types g sizes rest m = Inr (ys, m')"
    and "length g = length ids" "length rest = length ids" "registered ids" "native_values ids types"
    and "\<forall>i < length ids. \<forall>x \<in> set (rest ! i). known_op ids types i x"
    and "merger_ok (length ids) H m" "all_known types m"
  shows "\<exists>H'. merger_grows (length ids) H m H' m' \<and> all_known types m' \<and>
    (\<forall>i < length ids. g ! i \<noteq> None \<longrightarrow> aligned ids H' m' i ys (rest ! i))"
  using assms
proof (induction ids types g sizes rest m arbitrary: ys m' H rule: merge_instructions.induct)
  case (1 ids types g sizes rest m)
  note len = 1(4,5) and reg = 1(6) and vals = 1(7) and known = 1(8) and ok = 1(9,10)
  let ?n = "length ids" and ?input = "next_input g rest"
  have iff: "(i, x) \<in> set ?input \<longleftrightarrow> i < ?n \<and> g ! i \<noteq> None \<and> rest ! i \<noteq> [] \<and> x = hd (rest ! i)" for i x
    using next_input_iff [of g rest i x] len by simp
  have known': "\<forall>i < ?n. \<forall>x \<in> set (advance ts rest ! i). known_op ids types i x" for ts
  proof (intro allI impI ballI)
    fix i x assume i: "i < ?n" "x \<in> set (advance ts rest ! i)"
    have "set (tl zs) \<subseteq> set zs" for zs :: "op list" by (cases zs) auto
    with i len(2) have "x \<in> set (rest ! i)" by (auto simp: advance_nth split: if_splits)
    with known i(1) show "known_op ids types i x" by blast
  qed
  note run = 1(3) [unfolded merge_instructions.simps [of ids types g sizes rest m] Let_def]
  consider (done') "?input = []" | (same) "?input \<noteq> []" "same_input g rest" | (cast) "?input \<noteq> []" "\<not> same_input g rest" by blast
  then show ?case
  proof cases
    case done'
    then have "rest ! i = []" if "i < ?n" "g ! i \<noteq> None" for i using iff [of i "hd (rest ! i)"] that by auto
    moreover have "ys = []" "m' = m" using run done' by simp_all
    ultimately show ?thesis using merger_grows_refl [OF ok(1)] ok(2) by auto
  next
    case same
    from run same obtain y m1 zs where step: "operation ids ?input m = Inr (y, m1)"
      "merge_instructions ids types g sizes (advance (map fst ?input) rest) m1 = Inr (zs, m')" "ys = y # zs"
      by (auto simp: bindE_Inr_iff)
    have obs: "observed ids ?input"
      using same(1) next_input_distinct reg iff by (auto simp: observed_def registered_def)
    have kn: "\<forall>(i, x) \<in> set ?input. known_op ids types i x" using known iff by (auto intro!: hd_in_set)
    then have nat: "\<forall>(i, x) \<in> set ?input. native_op (ids ! i) x" "\<forall>(i, x) \<in> set ?input. set (op_results x) \<subseteq> set (types ! i)"
      by (auto simp: known_op_def)
    from operation_ok [OF step(1) obs reg nat(1) ok(1)] obtain H1 where
      H1: "merger_grows ?n H m H1 m1" "\<forall>(i, x) \<in> set ?input. op_at ids H1 m1 i y x" by blast
    have k1: "all_known types m1" using operation_known [OF step(1) ok(2) _ nat(2)] vals by (simp add: native_values_def)
    have "\<exists>H'. merger_grows ?n H1 m1 H' m' \<and> all_known types m' \<and>
        (\<forall>i < ?n. g ! i \<noteq> None \<longrightarrow> aligned ids H' m' i zs (advance (map fst ?input) rest ! i))"
      using 1(1) [OF refl same step(1) refl step(2)] len reg vals known' grows_ok [OF H1(1)] k1 by simp
    then obtain H' where H': "merger_grows ?n H1 m1 H' m'" "all_known types m'"
      "\<forall>i < ?n. g ! i \<noteq> None \<longrightarrow> aligned ids H' m' i zs (advance (map fst ?input) rest ! i)" by blast
    have "aligned ids H' m' i ys (rest ! i)" if i: "i < ?n" "g ! i \<noteq> None" for i
    proof -
      have ne: "rest ! i \<noteq> []" using same_input_all [OF same(2)] len i by simp
      then have "(i, hd (rest ! i)) \<in> set ?input" using iff i by simp
      then have "op_at ids H1 m1 i y (hd (rest ! i))" "i \<in> set (map fst ?input)" using H1(2) by force+
      then have "op_at ids H' m' i y (hd (rest ! i))" "advance (map fst ?input) rest ! i = tl (rest ! i)"
        using op_at_mono [OF _ H'(1)] i len(2) by (simp_all add: advance_nth)
      moreover have "aligned ids H' m' i zs (advance (map fst ?input) rest ! i)" using H'(3) i by blast
      ultimately have "aligned ids H' m' i (y # zs) (hd (rest ! i) # tl (rest ! i))" by (auto intro: aligned_op)
      then show ?thesis unfolding step(3) using ne by simp
    qed
    with H' merger_grows_trans [OF H1(1) H'(1)] show ?thesis by blast
  next
    case cast
    let ?casts = "filter (optional_cast types) ?input"
    from run cast obtain y m1 zs where step: "?casts \<noteq> []" "merge_cast ids types g ?casts m = Inr (y, m1)"
      "merge_instructions ids types g sizes (advance (map fst ?casts) rest) m1 = Inr (zs, m')" "ys = y # zs"
      by (auto simp: bindE_Inr_iff split: if_splits)
    have d: "distinct (map fst ?casts)" using next_input_distinct [of g rest] by (simp add: distinct_map_filter)
    have cs: "\<forall>(i, x) \<in> set ?casts. i < ?n \<and> g ! i \<noteq> None \<and> optional_cast types (i, x) \<and> known_op ids types i x"
      using iff known by (auto intro!: hd_in_set)
    from merge_cast_ok [OF step(2) len(1) reg step(1) d cs ok vals] obtain H1 where
      H1: "merger_grows ?n H m H1 m1" "all_known types m1" "\<forall>i < ?n. g ! i \<noteq> None \<longrightarrow>
        (case map_of ?casts i of Some x \<Rightarrow> cast_at ids H1 m1 i y x | None \<Rightarrow> absent_at ids H1 i y)" by blast
    have "\<exists>H'. merger_grows ?n H1 m1 H' m' \<and> all_known types m' \<and>
        (\<forall>i < ?n. g ! i \<noteq> None \<longrightarrow> aligned ids H' m' i zs (advance (map fst ?casts) rest ! i))"
      using 1(2) [OF refl cast refl step(1,2) refl step(3)] len reg vals known' grows_ok [OF H1(1)] H1(2) by simp
    then obtain H' where H': "merger_grows ?n H1 m1 H' m'" "all_known types m'"
      "\<forall>i < ?n. g ! i \<noteq> None \<longrightarrow> aligned ids H' m' i zs (advance (map fst ?casts) rest ! i)" by blast
    have "aligned ids H' m' i ys (rest ! i)" if i: "i < ?n" "g ! i \<noteq> None" for i
    proof (cases "map_of ?casts i")
      case None
      then have "i \<notin> set (map fst ?casts)" by (simp add: map_of_eq_None_iff)
      then have "advance (map fst ?casts) rest ! i = rest ! i" using i(1) len(2) by (simp only: advance_nth if_False)
      moreover have "aligned ids H' m' i zs (advance (map fst ?casts) rest ! i)" using H'(3) i by blast
      ultimately have "aligned ids H' m' i zs (rest ! i)" by simp
      moreover have "absent_at ids H1 i y" using H1(3) i None by (metis (no_types, lifting) option.simps(4))
      ultimately show ?thesis unfolding step(4) using absent_at_mono [OF _ H'(1)] by (blast intro: aligned_absent)
    next
      case (Some x)
      then have x: "(i, x) \<in> set ?casts" by (rule map_of_SomeD)
      then have "x = hd (rest ! i)" "rest ! i \<noteq> []" "i \<in> set (map fst ?casts)" using iff by force+
      moreover have "cast_at ids H1 m1 i y x" using H1(3) i Some by (metis (no_types, lifting) option.simps(5))
      then have "cast_at ids H' m' i y x" using H'(1) by (rule cast_at_mono)
      moreover have "advance (map fst ?casts) rest ! i = tl (rest ! i)" using i len(2) calculation(3) by (simp add: advance_nth)
      moreover have "aligned ids H' m' i zs (advance (map fst ?casts) rest ! i)" using H'(3) i by blast
      ultimately have "aligned ids H' m' i (y # zs) (hd (rest ! i) # tl (rest ! i))" by (metis aligned_cast)
      then show ?thesis unfolding step(4) using \<open>rest ! i \<noteq> []\<close> by simp
    qed
    with H' merger_grows_trans [OF H1(1) H'(1)] show ?thesis by blast
  qed
qed

section \<open>Headers and bodies\<close>

definition native_region :: "string \<Rightarrow> block list \<Rightarrow> bool" where
  "native_region t region \<longleftrightarrow> distinct (map block_id region) \<and>
     (\<forall>b \<in> set region. (\<forall>p \<in> set (block_args b). concrete_type t (fst (snd p))) \<and> (\<forall>x \<in> set (block_ops b). native_op t x))"

lemma native_region_values: "native_region t region \<Longrightarrow> p \<in> set (region_values region) \<Longrightarrow> concrete_type t (snd p)"
  by (fastforce simp: native_region_def region_values_def native_op_def)

lemma region_values_arg: "b \<in> set region \<Longrightarrow> q \<in> set (block_args b) \<Longrightarrow> (fst q, fst (snd q)) \<in> set (region_values region)"
proof -
  assume b: "b \<in> set region" "q \<in> set (block_args b)"
  have "(fst q, fst (snd q)) = (\<lambda>(v, t, l). (v, t)) q" by (simp add: case_prod_unfold)
  with b(2) have "(fst q, fst (snd q)) \<in> (\<lambda>(v, t, l). (v, t)) ` set (block_args b)" by (metis imageI)
  then have "(fst q, fst (snd q)) \<in> set (map (\<lambda>(v, t, l). (v, t)) (block_args b) @ concat (map op_results (block_ops b)))"
    by (simp only: set_append set_map) (rule UnI1)
  then show ?thesis
    unfolding region_values_def set_concat set_map by (rule UnionI [OF imageI [OF imageI [OF b(1)]]])
qed

lemma region_values_op: "b \<in> set region \<Longrightarrow> x \<in> set (block_ops b) \<Longrightarrow> set (op_results x) \<subseteq> set (region_values region)"
  by (auto simp: region_values_def)

lemma find_block: "distinct (map block_id region) \<Longrightarrow> b \<in> set region \<Longrightarrow> List.find (\<lambda>x. block_id x = block_id b) region = Some b"
  by (induction region) auto

definition args_at :: "string list \<Rightarrow> naming \<Rightarrow> identities \<Rightarrow> nat \<Rightarrow> (nat \<times> sty \<times> bool) list \<Rightarrow> (nat \<times> sty \<times> bool) list \<Rightarrow> bool" where
  "args_at ids H s i ys xs \<longleftrightarrow>
     list_all2 (\<lambda>p q. shared_value H i (fst p) = Some (fst q) \<and> type_at ids s i (fst (snd p)) (fst (snd q))) ys xs"

lemma args_at_mono: "args_at ids H s i ys xs \<Longrightarrow> H \<subseteq>\<^sub>m H' \<Longrightarrow> extends_identities s s' \<Longrightarrow> args_at ids H' s' i ys xs"
  unfolding args_at_def by (erule list_all2_mono) (auto intro: shared_value_mono type_at_extends)

lemma merge_arguments_ok:
  assumes "foldE (merge_argument ids sources) [k..<n] (acc, m) = Inr (acc', m')"
    and "observed ids sources" "registered ids" "k \<le> n"
    and "\<forall>(i, b) \<in> set sources. length (block_args b) = n \<and>
      (\<forall>q \<in> set (block_args b). concrete_type (ids ! i) (fst (snd q)) \<and> fst q \<in> fst ` set (types ! i))"
    and "merger_ok (length ids) H m" "all_known types m" "length types = length ids"
    and "\<forall>(i, b) \<in> set sources. args_at ids H (mg_ids m) i acc (take k (block_args b))"
  shows "\<exists>H'. merger_grows (length ids) H m H' m' \<and> all_known types m' \<and>
    (\<forall>(i, b) \<in> set sources. args_at ids H' (mg_ids m') i acc' (block_args b))"
  using assms(1,4,6,7,9)
proof (induction "n - k" arbitrary: k acc m H)
  case 0
  then have "k = n" by simp
  then have "acc' = acc" "m' = m" using 0(2) by simp_all
  moreover have "\<forall>(i, b) \<in> set sources. take k (block_args b) = block_args b" using assms(5) \<open>k = n\<close> by auto
  ultimately show ?case using 0 merger_grows_refl by (intro exI [of _ H]) fastforce
next
  case (Suc l)
  let ?n = "length ids"
  have k: "k < n" using Suc(2) by simp
  then have up: "[k..<n] = k # [Suc k..<n]" by (rule upt_conv_Cons)
  let ?tobs = "map (\<lambda>(i, b). (i, fst (snd (block_args b ! k)))) sources" and ?vobs = "map (\<lambda>(i, b). (i, fst (block_args b ! k))) sources"
  from Suc(3) obtain acc1 m1 where step: "merge_argument ids sources k (acc, m) = Inr (acc1, m1)"
    "foldE (merge_argument ids sources) [Suc k..<n] (acc1, m1) = Inr (acc', m')"
    by (auto simp: up bindE_Inr_iff)
  obtain t u where t0: "typed (merge_type ids ?tobs) m = Inr (t, u)"
    "(case new_value ?n ?vobs u of (v, m) \<Rightarrow> Inr (acc @ [(v, t, True)], m)) = (Inr (acc1, m1) :: ((nat \<times> sty \<times> bool) list \<times> merger) expected)"
    using step(1) unfolding merge_argument_def by (auto elim!: bindE_InrE)
  obtain v w where v: "new_value ?n ?vobs u = (v, w)" by fastforce
  with t0 have t: "typed (merge_type ids ?tobs) m = Inr (t, u)" "new_value ?n ?vobs u = (v, m1)" "acc1 = acc @ [(v, t, True)]" by auto
  have src: "i < ?n \<and> block_args b ! k \<in> set (block_args b) \<and> length (block_args b) = n" if "(i, b) \<in> set sources" for i b
    using that assms(2,5) k by (fastforce simp: observed_def)
  have "native_types ids ?tobs"
    unfolding native_types_def
  proof clarify
    fix i w assume "(i, w) \<in> set ?tobs"
    then obtain b where b: "(i, b) \<in> set sources" "w = fst (snd (block_args b ! k))" by auto
    with src [OF b(1)] assms(3,5) show "concrete_type (ids ! i) w \<and> (\<exists>info. targets_find (ids ! i) = Some info \<and> target_id info = ids ! i)"
      by (fastforce simp: registered_def)
  qed
  moreover have "identities_ok ?n (mg_ids m)" using Suc(5) by (simp add: merger_ok_def)
  ultimately have "identities_ok ?n s' \<and> extends_identities (mg_ids m) s' \<and> stands_for ids ?tobs t s'"
    if "merge_type ids ?tobs (mg_ids m) = Inr (t, s')" for s'
    using merge_type_ok [OF that observed_map [OF assms(2)]] by blast
  from typed_ok [OF t(1) Suc(5), of "stands_for ids ?tobs t", OF this]
  have g1: "merger_grows ?n H m H u" and st: "stands_for ids ?tobs t (mg_ids u)" by auto
  let ?H = "H(v \<mapsto> value_key ?n ?vobs)"
  note g2 = new_value_ok [OF t(2) grows_ok [OF g1]]
  have grow: "merger_grows ?n H m ?H m1" using g1 g2(1) by (rule merger_grows_trans)
  have ids': "mg_ids m1 = mg_ids u" using t(2) by (auto simp: new_value_def)
  have "\<forall>(i, x) \<in> set ?vobs. x \<in> fst ` set (types ! i)"
  proof clarify
    fix i x assume "(i, x) \<in> set ?vobs"
    then obtain b where b: "(i, b) \<in> set sources" "x = fst (block_args b ! k)" by auto
    from src [OF b(1)] assms(5) b show "x \<in> fst ` set (types ! i)" by blast
  qed
  then have k1: "all_known types m1"
    using new_value_known [OF t(2) _ assms(8)] typed_values [OF t(1)] Suc(6) by (simp add: all_known_def)
  have "args_at ids ?H (mg_ids m1) i acc1 (take (Suc k) (block_args b))" if b: "(i, b) \<in> set sources" for i b
  proof -
    have "args_at ids H (mg_ids m) i acc (take k (block_args b))" using Suc(7) b by fast
    then have "args_at ids ?H (mg_ids m1) i acc (take k (block_args b))"
      using grow by (auto simp: merger_grows_def intro: args_at_mono)
    moreover have "(i, fst (block_args b ! k)) \<in> set ?vobs" "(i, fst (snd (block_args b ! k))) \<in> set ?tobs" using b by force+
    then have "shared_value ?H i v = Some (fst (block_args b ! k))" "type_at ids (mg_ids m1) i t (fst (snd (block_args b ! k)))"
      using g2(2) [of i] src [OF b] assms(2) st by (auto simp: observed_def comp_def case_prod_unfold stands_for_def type_at_def ids')
    ultimately show ?thesis using src [OF b] k
      by (auto simp: args_at_def t(3) take_Suc_conv_app_nth intro!: list_all2_appendI)
  qed
  then have "\<forall>(i, b) \<in> set sources. args_at ids ?H (mg_ids m1) i acc1 (take (Suc k) (block_args b))" by blast
  moreover have "l = n - Suc k" "Suc k \<le> n" using Suc(2) k by simp_all
  ultimately have "\<exists>H'. merger_grows ?n ?H m1 H' m' \<and> all_known types m' \<and>
      (\<forall>(i, b) \<in> set sources. args_at ids H' (mg_ids m') i acc' (block_args b))"
    using Suc(1) [OF _ step(2) _ grows_ok [OF grow] k1] by blast
  with merger_grows_trans [OF grow] show ?case by blast
qed

end
