(* ===== verification/Common_Module_Facts.thy ===== *)
theory Common_Module_Facts
  imports Common_Function_Facts "HOL-Library.Multiset"
begin

text \<open>
  Merged functions and modules: a merged function, read at one of the targets, has that target's blocks in
  their order, and every definition of a target has its merged counterpart.
\<close>

section \<open>Groups and their sources\<close>

definition grows_values :: "nat \<Rightarrow> naming \<Rightarrow> merger \<Rightarrow> naming \<Rightarrow> merger \<Rightarrow> bool" where
  "grows_values n H m H' m' \<longleftrightarrow> merger_ok n H' m' \<and> H \<subseteq>\<^sub>m H' \<and> extends_identities (mg_ids m) (mg_ids m')"

lemma grows_values_trans: "grows_values n H m I u \<Longrightarrow> grows_values n I u J w \<Longrightarrow> grows_values n H m J w"
  using identities_trans map_le_trans by (fastforce simp: grows_values_def)

lemma grows_grows_values: "merger_grows n H m H' m' \<Longrightarrow> grows_values n H m H' m'"
  by (simp add: merger_grows_def grows_values_def merger_ok_def)

lemma group_sources_iff:
  "(i, s) \<in> set (group_sources fs g) \<longleftrightarrow> i < length g \<and> (\<exists>b. g ! i = Some b \<and> s = source_block fs i b)"
  by (force simp: group_sources_def map_filter_def in_set_enumerate_eq image_iff)

lemma group_sources_distinct: "distinct (map fst (group_sources fs g))"
proof -
  have "distinct (map fst (List.map_filter (\<lambda>(i, b). map_option (\<lambda>b. (i, source_block fs i b)) b) (List.enumerate k g))) \<and>
      (\<forall>p \<in> set (List.map_filter (\<lambda>(i, b). map_option (\<lambda>b. (i, source_block fs i b)) b) (List.enumerate k g)). k \<le> fst p)" for k
  proof (induction g arbitrary: k)
    case (Cons b g)
    from Cons [of "Suc k"] show ?case by (cases b) (force simp: map_filter_simps)+
  qed (simp add: map_filter_simps)
  then show ?thesis by (simp add: group_sources_def)
qed

lemma source_block_mem:
  assumes "distinct (map block_id (function_region (fs ! i)))" "b \<in> set (map block_id (function_region (fs ! i)))"
  shows "source_block fs i b \<in> set (function_region (fs ! i))" "block_id (source_block fs i b) = b"
proof -
  from assms(2) obtain x where x: "x \<in> set (function_region (fs ! i))" "b = block_id x" by auto
  with find_block [OF assms(1) x(1)] show "source_block fs i b \<in> set (function_region (fs ! i))" "block_id (source_block fs i b) = b"
    by (simp_all add: source_block_def)
qed

text \<open>The functions of the targets, and groups that name their blocks.\<close>

definition native_functions :: "string list \<Rightarrow> op list \<Rightarrow> bool" where
  "native_functions ids fs \<longleftrightarrow> length fs = length ids \<and>
     (\<forall>i < length ids. native_op (ids ! i) (fs ! i) \<and> native_region (ids ! i) (function_region (fs ! i)))"

definition function_values :: "op list \<Rightarrow> (nat \<times> sty) list list" where
  "function_values fs = map (\<lambda>f. region_values (function_region f)) fs"

definition group_ok :: "string list \<Rightarrow> op list \<Rightarrow> nat option list \<Rightarrow> bool" where
  "group_ok ids fs g \<longleftrightarrow> length g = length ids \<and>
     (\<forall>i < length ids. \<forall>b. g ! i = Some b \<longrightarrow> b \<in> set (map block_id (function_region (fs ! i))))"

lemma native_function_values: "native_functions ids fs \<Longrightarrow> native_values ids (function_values fs)"
  by (auto simp: native_functions_def native_values_def function_values_def dest: native_region_values)

lemma group_block:
  assumes "native_functions ids fs" "group_ok ids fs g" "i < length ids" "g ! i = Some b"
  shows "source_block fs i b \<in> set (function_region (fs ! i))" "block_id (source_block fs i b) = b"
    and "\<forall>q \<in> set (block_args (source_block fs i b)). concrete_type (ids ! i) (fst (snd q)) \<and> fst q \<in> fst ` set (function_values fs ! i)"
    and "\<forall>x \<in> set (block_ops (source_block fs i b)). known_op ids (function_values fs) i x"
proof -
  let ?r = "function_region (fs ! i)"
  have n: "native_region (ids ! i) ?r" "length fs = length ids" using assms(1,3) by (auto simp: native_functions_def)
  have vs: "function_values fs ! i = region_values ?r" using n(2) assms(3) by (simp add: function_values_def)
  have d: "distinct (map block_id ?r)" using n(1) by (simp add: native_region_def)
  have "b \<in> set (map block_id ?r)" using assms(2-4) by (auto simp: group_ok_def)
  from source_block_mem [OF d this] show s: "source_block fs i b \<in> set ?r" "block_id (source_block fs i b) = b" .
  show "\<forall>q \<in> set (block_args (source_block fs i b)). concrete_type (ids ! i) (fst (snd q)) \<and> fst q \<in> fst ` set (function_values fs ! i)"
  proof
    fix q assume q: "q \<in> set (block_args (source_block fs i b))"
    then have "concrete_type (ids ! i) (fst (snd q))" using n(1) s(1) by (auto simp: native_region_def)
    moreover have "fst (fst q, fst (snd q)) \<in> fst ` set (region_values ?r)" using region_values_arg [OF s(1) q] by (rule imageI)
    ultimately show "concrete_type (ids ! i) (fst (snd q)) \<and> fst q \<in> fst ` set (function_values fs ! i)" by (simp add: vs)
  qed
  show "\<forall>x \<in> set (block_ops (source_block fs i b)). known_op ids (function_values fs) i x"
    using n(1) s(1) region_values_op [OF s(1)] by (auto simp: native_region_def known_op_def vs)
qed

section \<open>Headers\<close>

definition header_at ::
  "string list \<Rightarrow> op list \<Rightarrow> naming \<Rightarrow> identities \<Rightarrow> nat option list \<Rightarrow> attr \<times> (nat \<times> sty \<times> bool) list \<Rightarrow> bool" where
  "header_at ids fs H s g h \<longleftrightarrow>
     (\<forall>i < length ids. containsTarget (Some (fst h)) (ids ! i) \<longleftrightarrow> g ! i \<noteq> None) \<and>
     (\<forall>i < length ids. \<forall>b. g ! i = Some b \<longrightarrow> args_at ids H s i (snd h) (block_args (source_block fs i b)))"

lemma header_at_mono: "header_at ids fs H s g h \<Longrightarrow> H \<subseteq>\<^sub>m H' \<Longrightarrow> extends_identities s s' \<Longrightarrow> header_at ids fs H' s' g h"
  unfolding header_at_def using args_at_mono by blast

definition record_group :: "nat \<Rightarrow> nat option list \<Rightarrow> (nat \<times> nat) list list \<Rightarrow> (nat \<times> nat) list list" where
  "record_group k g tables = map (\<lambda>(i, table). case g ! i of None \<Rightarrow> table | Some b \<Rightarrow> (b, k) # table) (List.enumerate 0 tables)"

lemma merge_header_ok:
  assumes run: "merge_header ids fs (k, g) (hs, m) = Inr (hs', m')"
    and fs: "native_functions ids fs" "registered ids" "group_ok ids fs g"
    and ok: "merger_ok (length ids) H m" "all_known (function_values fs) m"
  shows "\<exists>H' h. grows_values (length ids) H m H' m' \<and> all_known (function_values fs) m' \<and> hs' = hs @ [h] \<and>
    header_at ids fs H' (mg_ids m') g h \<and> mg_blocks m' = record_group k g (mg_blocks m)"
proof -
  let ?n = "length ids" and ?src = "group_sources fs g" and ?m = "m\<lparr>mg_blocks := record_group k g (mg_blocks m)\<rparr>"
  let ?count = "if ?src = [] then 0 else length (block_args (snd (hd ?src)))"
  note r = run [unfolded merge_header_def prod.case Let_def, folded record_group_def]
  have no: "\<not> list_ex (\<lambda>(i, b). length (block_args b) \<noteq> length (block_args (snd (hd ?src)))) ?src"
  proof
    assume "list_ex (\<lambda>(i, b). length (block_args b) \<noteq> length (block_args (snd (hd ?src)))) ?src"
    with r show False by simp
  qed
  then have same: "\<forall>p \<in> set ?src. length (block_args (snd p)) = length (block_args (snd (hd ?src)))"
    unfolding list_ex_iff by fastforce
  obtain args where a: "foldE (merge_argument ids ?src) [0..<?count] ([], ?m) = Inr (args, m')"
    "hs' = hs @ [(targetSet (map (\<lambda>(i, b). ids ! i) ?src), args)]"
    using r [unfolded if_not_P [OF no]] by (elim bindE_InrE) auto
  have ok': "merger_ok ?n H ?m" "all_known (function_values fs) ?m"
    using ok by (simp_all add: merger_ok_def naming_ok_def all_known_def)
  have len: "length g = ?n" using fs(3) by (simp add: group_ok_def)
  have src: "i < ?n \<and> g ! i \<noteq> None \<and> length (block_args b) = ?count \<and> (\<forall>q \<in> set (block_args b).
      concrete_type (ids ! i) (fst (snd q)) \<and> fst q \<in> fst ` set (function_values fs ! i))" if ib: "(i, b) \<in> set ?src" for i b
  proof -
    from ib len obtain c where c: "i < ?n" "g ! i = Some c" "b = source_block fs i c" by (auto simp: group_sources_iff)
    note q = group_block(3) [OF fs(1,3) c(1,2), folded c(3)]
    have "length (block_args (snd (i, b))) = length (block_args (snd (hd ?src)))" using bspec [OF same ib] .
    moreover have "?src \<noteq> []" using ib by auto
    ultimately have "length (block_args b) = ?count" by (simp only: if_False snd_conv)
    with c(1,2) q show ?thesis by (intro conjI) simp_all
  qed
  have "\<exists>H'. merger_grows ?n H ?m H' m' \<and> all_known (function_values fs) m' \<and>
      (\<forall>(i, b) \<in> set ?src. args_at ids H' (mg_ids m') i args (block_args b))"
  proof (cases "?src = []")
    case True
    with a(1) have "m' = ?m" by simp
    with True ok' merger_grows_refl show ?thesis by fastforce
  next
    case False
    have "observed ids ?src" using False group_sources_distinct src fs(2) by (fastforce simp: observed_def registered_def)
    moreover have "length (function_values fs) = ?n" using fs(1) by (simp add: function_values_def native_functions_def)
    ultimately show ?thesis
      using src by (intro merge_arguments_ok [OF a(1) _ fs(2) _ _ ok']) (auto simp: args_at_def)
  qed
  then obtain H' where H': "merger_grows ?n H ?m H' m'" "all_known (function_values fs) m'"
    "\<forall>(i, b) \<in> set ?src. args_at ids H' (mg_ids m') i args (block_args b)" by blast
  have "containsTarget (Some (targetSet (map (\<lambda>(i, b). ids ! i) ?src))) (ids ! i) \<longleftrightarrow> g ! i \<noteq> None" if i: "i < ?n" for i
  proof -
    have "ids ! i \<in> set (map (\<lambda>(i, b). ids ! i) ?src) \<longleftrightarrow> (\<exists>j b. (j, b) \<in> set ?src \<and> ids ! j = ids ! i)" by force
    also have "\<dots> \<longleftrightarrow> (\<exists>b. (i, b) \<in> set ?src)"
      using src i fs(2) by (metis nth_eq_iff_index_eq registered_def)
    also have "\<dots> \<longleftrightarrow> g ! i \<noteq> None" using i len by (auto simp: group_sources_iff)
    finally show ?thesis by simp
  qed
  moreover have "args_at ids H' (mg_ids m') i args (block_args (source_block fs i b))" if "i < ?n" "g ! i = Some b" for i b
    using H'(3) that len group_sources_iff [of i "source_block fs i b" fs g] by fastforce
  ultimately have "header_at ids fs H' (mg_ids m') g (targetSet (map (\<lambda>(i, b). ids ! i) ?src), args)"
    by (simp add: header_at_def)
  with H'(1,2) a(2) show ?thesis by (fastforce simp: merger_grows_def grows_values_def merger_ok_def)
qed

lemma record_group_at:
  "i < length tables \<Longrightarrow> record_group k g tables ! i = (case g ! i of None \<Rightarrow> tables ! i | Some b \<Rightarrow> (b, k) # tables ! i)"
  by (simp add: record_group_def nth_enumerate_eq)

lemma record_group_length [simp]: "length (record_group k g tables) = length tables"
  by (simp add: record_group_def)

text \<open>The groups of the blocks of each target, as \<open>blocks\<close> records them.\<close>

definition tabled :: "nat \<Rightarrow> nat \<Rightarrow> nat option list list \<Rightarrow> (nat \<times> nat) list list \<Rightarrow> (nat \<times> nat) list list \<Rightarrow> bool" where
  "tabled n k gs T T' \<longleftrightarrow> length T' = n \<and>
     (\<forall>i < n. \<forall>b j. map_of (T' ! i) b = Some j \<longrightarrow> map_of (T ! i) b = Some j \<or> (\<exists>l < length gs. j = k + l \<and> gs ! l ! i = Some b)) \<and>
     (\<forall>i < n. \<forall>b. map_of (T ! i) b \<noteq> None \<or> (\<exists>l < length gs. gs ! l ! i = Some b) \<longrightarrow> map_of (T' ! i) b \<noteq> None)"

lemma tabled_group:
  "tabled n k gs T T' \<Longrightarrow> i < n \<Longrightarrow> map_of (T' ! i) b = Some j \<Longrightarrow>
   map_of (T ! i) b = Some j \<or> (\<exists>l < length gs. j = k + l \<and> gs ! l ! i = Some b)"
  by (simp only: tabled_def)

lemma tabled_known:
  "tabled n k gs T T' \<Longrightarrow> i < n \<Longrightarrow> map_of (T ! i) b \<noteq> None \<or> (\<exists>l < length gs. gs ! l ! i = Some b) \<Longrightarrow> map_of (T' ! i) b \<noteq> None"
  unfolding tabled_def by (elim conjE) blast

lemma tabled_Cons:
  assumes t: "tabled n (Suc k) gs (record_group k g T) T'" and n: "length T = n"
  shows "tabled n k (g # gs) T T'"
  unfolding tabled_def
proof (intro conjI allI impI)
  show "length T' = n" using t by (simp add: tabled_def)
  have at: "map_of (record_group k g T ! i) b = (if g ! i = Some b then Some k else map_of (T ! i) b)" if "i < n" for i b
    using record_group_at [of i T k g] that n by (cases "g ! i") simp_all
  fix i b assume i: "i < n"
  show "map_of (T ! i) b = Some j \<or> (\<exists>l < length (g # gs). j = k + l \<and> (g # gs) ! l ! i = Some b)"
    if "map_of (T' ! i) b = Some j" for j
    using tabled_group [OF t i that]
  proof (elim disjE exE conjE)
    assume "map_of (record_group k g T ! i) b = Some j"
    then show ?thesis by (cases "g ! i = Some b") (auto simp only: at [OF i] if_True if_False option.inject intro!: exI [of _ 0], simp_all)
  next
    fix l assume "l < length gs" "j = Suc k + l" "gs ! l ! i = Some b"
    then show ?thesis by (intro disjI2 exI [of _ "Suc l"]) simp
  qed
  assume b: "map_of (T ! i) b \<noteq> None \<or> (\<exists>l < length (g # gs). (g # gs) ! l ! i = Some b)"
  show "map_of (T' ! i) b \<noteq> None"
  proof (rule tabled_known [OF t i], cases "g ! i = Some b")
    case True
    then show "map_of (record_group k g T ! i) b \<noteq> None \<or> (\<exists>l < length gs. gs ! l ! i = Some b)"
      by (simp only: at [OF i]) simp
  next
    case False
    have "map_of (T ! i) b \<noteq> None \<or> (\<exists>l < length gs. gs ! l ! i = Some b)"
      using b
    proof (elim disjE exE conjE)
      fix l assume "l < length (g # gs)" "(g # gs) ! l ! i = Some b"
      with False show ?thesis by (cases l) auto
    qed blast
    then show "map_of (record_group k g T ! i) b \<noteq> None \<or> (\<exists>l < length gs. gs ! l ! i = Some b)"
      by (simp only: at [OF i] False if_False)
  qed
qed

lemma merge_headers_ok:
  assumes "foldE (merge_header ids fs) (List.enumerate k gs) (hs, m) = Inr (hs', m')"
    and "native_functions ids fs" "registered ids" "\<forall>g \<in> set gs. group_ok ids fs g"
    and "merger_ok (length ids) H m" "all_known (function_values fs) m" "length (mg_blocks m) = length ids"
  shows "\<exists>H' zs. grows_values (length ids) H m H' m' \<and> all_known (function_values fs) m' \<and> hs' = hs @ zs \<and>
    list_all2 (header_at ids fs H' (mg_ids m')) gs zs \<and> tabled (length ids) k gs (mg_blocks m) (mg_blocks m')"
  using assms(1,4-7)
proof (induction gs arbitrary: k hs m H)
  case Nil
  then show ?case by (auto simp: grows_values_def tabled_def)
next
  case (Cons g gs)
  let ?n = "length ids"
  obtain hs1 m1 where step: "merge_header ids fs (k, g) (hs, m) = Inr (hs1, m1)"
    "foldE (merge_header ids fs) (List.enumerate (Suc k) gs) (hs1, m1) = Inr (hs', m')"
    using Cons.prems(1) by (auto simp: bindE_Inr_iff)
  have "group_ok ids fs g" using Cons.prems(2) by simp
  from merge_header_ok [OF step(1) assms(2,3) this Cons.prems(3,4)] obtain H1 h where
    h: "grows_values ?n H m H1 m1" "all_known (function_values fs) m1" "hs1 = hs @ [h]" "header_at ids fs H1 (mg_ids m1) g h"
      "mg_blocks m1 = record_group k g (mg_blocks m)" by blast
  have "\<exists>H' zs. grows_values ?n H1 m1 H' m' \<and> all_known (function_values fs) m' \<and> hs' = hs1 @ zs \<and>
      list_all2 (header_at ids fs H' (mg_ids m')) gs zs \<and> tabled ?n (Suc k) gs (mg_blocks m1) (mg_blocks m')"
  proof (rule Cons.IH [OF step(2)])
    show "\<forall>g \<in> set gs. group_ok ids fs g" using Cons.prems(2) by simp
    show "merger_ok ?n H1 m1" using h(1) by (simp add: grows_values_def)
    show "length (mg_blocks m1) = ?n" using Cons.prems(5) by (simp add: h(5))
  qed (fact h(2))
  then obtain H' zs where z: "grows_values ?n H1 m1 H' m'" "all_known (function_values fs) m'" "hs' = hs1 @ zs"
    "list_all2 (header_at ids fs H' (mg_ids m')) gs zs" "tabled ?n (Suc k) gs (mg_blocks m1) (mg_blocks m')" by blast
  have "tabled ?n k (g # gs) (mg_blocks m) (mg_blocks m')" using z(5) Cons.prems(5) unfolding h(5) by (rule tabled_Cons)
  moreover have "header_at ids fs H' (mg_ids m') g h" using h(4) z(1) by (auto simp: grows_values_def intro: header_at_mono)
  ultimately show ?case using z h(3) grows_values_trans [OF h(1) z(1)]
    by (intro exI [of _ H'] exI [of _ "h # zs"]) simp
qed

section \<open>Bodies\<close>

text \<open>A merged block at a target that its group has.\<close>

definition body_at :: "string list \<Rightarrow> op list \<Rightarrow> naming \<Rightarrow> merger \<Rightarrow> nat option list \<Rightarrow> block \<Rightarrow> bool" where
  "body_at ids fs H m g y \<longleftrightarrow>
     (\<forall>i < length ids. \<forall>b. g ! i = Some b \<longrightarrow> aligned ids H m i (block_ops y) (block_ops (source_block fs i b)))"

lemma body_at_mono: "body_at ids fs H m g y \<Longrightarrow> merger_grows n H m H' m' \<Longrightarrow> body_at ids fs H' m' g y"
  unfolding body_at_def using aligned_mono by blast

lemma merge_body_ok:
  assumes run: "merge_body ids fs (k, g, d, args) (bs, m) = Inr (bs', m')"
    and fs: "native_functions ids fs" "registered ids" "group_ok ids fs g"
    and ok: "merger_ok (length ids) H m" "all_known (function_values fs) m"
  shows "\<exists>H' y. merger_grows (length ids) H m H' m' \<and> all_known (function_values fs) m' \<and> bs' = bs @ [y] \<and>
    block_id y = k \<and> block_args y = args \<and> body_at ids fs H' m' g y"
proof -
  let ?n = "length ids"
  define rest where
    "rest = map (\<lambda>(i, b). case b of None \<Rightarrow> [] | Some b \<Rightarrow> block_ops (source_block fs i b)) (List.enumerate 0 g)"
  obtain xs where xs: "merge_instructions ids (function_values fs) g (map length rest) rest m = Inr (xs, m')" "bs' = bs @ [Block k args xs]"
    using run unfolding merge_body_def function_values_def by (auto simp: rest_def elim!: bindE_InrE)
  have len: "length g = ?n" using fs(3) by (simp add: group_ok_def)
  have at: "rest ! i = (case g ! i of None \<Rightarrow> [] | Some b \<Rightarrow> block_ops (source_block fs i b))" if "i < ?n" for i
    using that len by (simp add: rest_def nth_enumerate_eq)
  have "\<forall>i < ?n. \<forall>x \<in> set (rest ! i). known_op ids (function_values fs) i x"
  proof (intro allI impI)
    fix i assume i: "i < ?n"
    show "\<forall>x \<in> set (rest ! i). known_op ids (function_values fs) i x"
    proof (cases "g ! i")
      case (Some b)
      from group_block(4) [OF fs(1,3) i Some] show ?thesis by (simp add: at [OF i] Some)
    qed (simp add: at [OF i])
  qed
  moreover have "length rest = ?n" by (simp add: rest_def len)
  ultimately obtain H' where H': "merger_grows ?n H m H' m'" "all_known (function_values fs) m'"
    "\<forall>i < ?n. g ! i \<noteq> None \<longrightarrow> aligned ids H' m' i xs (rest ! i)"
    using merge_instructions_ok [OF xs(1) len _ fs(2) native_function_values [OF fs(1)] _ ok] by blast
  have "body_at ids fs H' m' g (Block k args xs)"
    unfolding body_at_def
  proof (intro allI impI)
    fix i b assume i: "i < ?n" "g ! i = Some b"
    then have "aligned ids H' m' i xs (rest ! i)" using H'(3) by simp
    then show "aligned ids H' m' i (block_ops (Block k args xs)) (block_ops (source_block fs i b))" by (simp add: at i)
  qed
  with H' xs(2) show ?thesis by (intro exI [of _ H'] exI [of _ "Block k args xs"]) simp
qed

lemma merge_bodies_ok:
  assumes "foldE (merge_body ids fs) (List.enumerate k (zip gs hs)) (bs, m) = Inr (bs', m')"
    and "native_functions ids fs" "registered ids" "\<forall>g \<in> set gs. group_ok ids fs g" "length hs = length gs"
    and "merger_ok (length ids) H m" "all_known (function_values fs) m"
  shows "\<exists>H' ys. merger_grows (length ids) H m H' m' \<and> bs' = bs @ ys \<and> map block_id ys = [k..<k + length gs] \<and>
    map block_args ys = map snd hs \<and> list_all2 (body_at ids fs H' m') gs ys"
  using assms(1,4-7)
proof (induction gs hs arbitrary: k bs m H rule: list_induct2')
  case 1
  then show ?case using merger_grows_refl by (intro exI [of _ H] exI [of _ "[]"]) simp
next
  case (4 g gs h hs)
  let ?n = "length ids"
  obtain d args where hd: "h = (d, args)" by fastforce
  obtain bs1 m1 where step: "merge_body ids fs (k, g, d, args) (bs, m) = Inr (bs1, m1)"
    "foldE (merge_body ids fs) (List.enumerate (Suc k) (zip gs hs)) (bs1, m1) = Inr (bs', m')"
    using 4(2) by (auto simp: bindE_Inr_iff hd)
  have "group_ok ids fs g" using 4(3) by simp
  from merge_body_ok [OF step(1) assms(2,3) this 4(5,6)] obtain H1 y where
    y: "merger_grows ?n H m H1 m1" "all_known (function_values fs) m1" "bs1 = bs @ [y]" "block_id y = k" "block_args y = args"
      "body_at ids fs H1 m1 g y" by blast
  have "\<exists>H' ys. merger_grows ?n H1 m1 H' m' \<and> bs' = bs1 @ ys \<and> map block_id ys = [Suc k..<Suc k + length gs] \<and>
    map block_args ys = map snd hs \<and> list_all2 (body_at ids fs H' m') gs ys"
    using 4(3,4) by (intro 4(1) [OF step(2)] y(2) grows_ok [OF y(1)]) simp_all
  then obtain H' ys where z: "merger_grows ?n H1 m1 H' m'" "bs' = bs1 @ ys" "map block_id ys = [Suc k..<Suc k + length gs]"
    "map block_args ys = map snd hs" "list_all2 (body_at ids fs H' m') gs ys" by blast
  moreover have "body_at ids fs H' m' g y" using y(6) z(1) by (rule body_at_mono)
  moreover have "[k..<k + length (g # gs)] = k # [Suc k..<Suc k + length gs]"
    using upt_conv_Cons [of k "k + length (g # gs)"] by (simp del: upt_Suc)
  ultimately show ?case using y merger_grows_trans [OF y(1) z(1)]
    by (intro exI [of _ H'] exI [of _ "y # ys"]) (simp add: hd)
qed simp_all

section \<open>Functions\<close>

text \<open>The blocks of a merged function that are active for a target.\<close>

definition function_domains :: "op \<Rightarrow> attr list" where
  "function_domains y = (case op_get as_array y ''block_domains'' of None \<Rightarrow> [] | Some ds \<Rightarrow> ds)"

definition active_blocks :: "string \<Rightarrow> op \<Rightarrow> block list" where
  "active_blocks t y = map snd (filter (\<lambda>(d, b). containsTarget (Some d) t) (zip (function_domains y) (function_region y)))"

definition block_at :: "string list \<Rightarrow> naming \<Rightarrow> merger \<Rightarrow> nat \<Rightarrow> block \<Rightarrow> block \<Rightarrow> bool" where
  "block_at ids H m i y b \<longleftrightarrow>
     map_of (mg_blocks m ! i) (block_id b) = Some (block_id y) \<and>
     args_at ids H (mg_ids m) i (block_args y) (block_args b) \<and> aligned ids H m i (block_ops y) (block_ops b)"

definition function_at :: "string list \<Rightarrow> naming \<Rightarrow> merger \<Rightarrow> nat \<Rightarrow> op \<Rightarrow> op \<Rightarrow> bool" where
  "function_at ids H m i y f \<longleftrightarrow>
     op_name y = ''sela.func'' \<and> attrs_at ids (mg_ids m) i [''block_domains''] (op_attrs y) (op_attrs f) \<and>
     list_all2 (block_at ids H m i) (active_blocks (ids ! i) y) (function_region f)"

lemma map_of_put: "map_of (smap_put k v d) = (map_of d)(k \<mapsto> v)"
  by (induction k v d rule: smap_put.induct) auto

lemma attrs_at_cong: "(\<And>l. l \<notin> set om \<Longrightarrow> map_of d l = map_of d' l) \<Longrightarrow> attrs_at ids s i om d e = attrs_at ids s i om d' e"
  unfolding attrs_at_def by (rule all_cong1, rule imp_cong, rule refl) (simp split: option.split)

lemma attrs_at_put: "k \<in> set om \<Longrightarrow> attrs_at ids s i om (dict_set k v d) e = attrs_at ids s i om d e"
  by (rule attrs_at_cong) (auto simp: dict_set_def map_of_put)

lemma active_list:
  assumes "length zs = length gs" "length ys = length gs"
    and "\<forall>k < length gs. (C (zs ! k) \<longleftrightarrow> h (gs ! k) \<noteq> None) \<and> (\<forall>b. h (gs ! k) = Some b \<longrightarrow> Q (ys ! k) b)"
  shows "list_all2 Q (map snd (filter (\<lambda>(d, y). C d) (zip zs ys))) (List.map_filter h gs)"
  using assms
proof (induction gs arbitrary: zs ys)
  case Nil
  then show ?case by (simp add: map_filter_simps)
next
  case (Cons g gs)
  obtain z zs' y ys' where e: "zs = z # zs'" "ys = y # ys'" using Cons.prems(1,2) by (metis length_Suc_conv)
  have "list_all2 Q (map snd (filter (\<lambda>(d, y). C d) (zip zs' ys'))) (List.map_filter h gs)"
    using Cons.prems by (intro Cons.IH) (auto simp: e)
  moreover have "C z \<longleftrightarrow> h g \<noteq> None" "\<forall>b. h g = Some b \<longrightarrow> Q y b" using Cons.prems(3) by (auto simp: e)
  ultimately show ?case by (cases "h g") (auto simp: e map_filter_simps)
qed

lemma map_filter_unique:
  "distinct (List.map_filter h gs) \<Longrightarrow> j < length gs \<Longrightarrow> l < length gs \<Longrightarrow> h (gs ! j) = Some b \<Longrightarrow> h (gs ! l) = Some b \<Longrightarrow> j = l"
proof (induction gs arbitrary: j l)
  case (Cons g gs)
  have mem: "b \<in> set (List.map_filter h gs)" if "k < length gs" "h (gs ! k) = Some b" for k
    using that by (force simp: map_filter_def image_iff)
  have d: "distinct (List.map_filter h gs)" "h g = Some b \<Longrightarrow> b \<notin> set (List.map_filter h gs)"
    using Cons.prems(1) by (cases "h g"; simp add: map_filter_simps)+
  show ?case
  proof (cases j; cases l)
    fix j' l' assume "j = Suc j'" "l = Suc l'"
    then show ?thesis using Cons.IH [OF d(1), of j' l'] Cons.prems by simp
  next
    fix l' assume "j = 0" "l = Suc l'"
    then show ?thesis using Cons.prems d(2) mem [of l'] by simp
  next
    fix j' assume "j = Suc j'" "l = 0"
    then show ?thesis using Cons.prems d(2) mem [of j'] by simp
  qed simp
qed simp

lemma merged_function_ok:
  assumes run: "merge_function verifies ids fs m = Inr (y, m')"
    and fs: "native_functions ids fs" "registered ids" "ids \<noteq> []" and ok: "identities_ok (length ids) (mg_ids m)"
  shows "extends_identities (mg_ids m) (mg_ids m') \<and> identities_ok (length ids) (mg_ids m') \<and>
    (\<exists>H u. mg_ids u = mg_ids m' \<and> merger_ok (length ids) H u \<and> (\<forall>i < length ids. function_at ids H u i y (fs ! i)))"
proof -
  let ?n = "length ids" and ?in = "List.enumerate 0 fs"
  have len: "length fs = ?n" using fs(1) by (simp add: native_functions_def)
  have mem: "(i, f) \<in> set ?in \<longleftrightarrow> i < ?n \<and> f = fs ! i" for i f by (auto simp: in_set_enumerate_eq len)
  have "distinct (map fst ?in)" by simp
  moreover have "?in \<noteq> []" using fs(3) len by (cases fs) auto
  ultimately have obs: "observed ids ?in" using fs(2) by (auto simp: observed_def registered_def mem)
  have native: "\<forall>(i, f) \<in> set ?in. native_op (ids ! i) f" using fs(1) by (auto simp: mem native_functions_def)
  let ?empty = "function_region (hd fs) = []"
  note r = run [unfolded merge_function_def Let_def]
  obtain attrs m1 where attrs: "typed (merge_attributes ids ?in [''block_domains'']) m = Inr (attrs, m1)"
    using r by (elim bindE_InrE) auto
  note r = r [unfolded attrs bindE_simps prod.case]
  have same: "\<not> list_ex (\<lambda>f. (function_region f = []) \<noteq> ?empty) fs"
  proof
    assume "list_ex (\<lambda>f. (function_region f = []) \<noteq> ?empty) fs"
    with r show False by simp
  qed
  note r = r [unfolded if_not_P [OF same]]
  obtain s' where s': "merge_attributes ids ?in [''block_domains''] (mg_ids m) = Inr (attrs, s')" "m1 = m\<lparr>mg_ids := s'\<rparr>"
    using attrs by (auto simp: typed_def bindE_Inr_iff)
  note a = merge_attributes_ok [OF s'(1) obs fs(2) native ok]
  have at: "attrs_at ids s' i [''block_domains''] attrs (op_attrs (fs ! i))" if "i < ?n" for i using a mem that by blast
  show ?thesis
  proof (cases ?empty)
    case True
    then have y: "y = Op ''sela.func'' attrs [] [] [] [[]] True" "m' = m1" using r by simp_all
    have "function_region (fs ! i) = []" if "i < ?n" for i
      using same True that len by (auto simp: list_ex_iff)
    then have "function_at ids Map.empty (m1\<lparr>mg_values := []\<rparr>) i y (fs ! i)" if "i < ?n" for i
      using at [OF that] that by (simp add: function_at_def y active_blocks_def function_region_def s'(2))
    moreover have "merger_ok ?n Map.empty (m1\<lparr>mg_values := []\<rparr>)" using a by (simp add: merger_ok_def naming_ok_def s'(2))
    moreover have "mg_ids (m1\<lparr>mg_values := []\<rparr>) = mg_ids m'" by (simp add: y)
    ultimately show ?thesis using a s'(2) y(2) by (intro conjI exI [of _ Map.empty] exI [of _ "m1\<lparr>mg_values := []\<rparr>"]) simp_all
  next
    case False
    obtain groups where groups: "correspondence verifies ids ?in = Inr groups" using r False by (auto elim!: bindE_InrE)
    note r = r [unfolded if_not_P [OF False] groups bindE_simps]
    let ?m1 = "m1\<lparr>mg_values := [], mg_blocks := replicate ?n []\<rparr>"
    obtain hs m2 bs where hs: "foldE (merge_header ids fs) (List.enumerate 0 groups) ([], ?m1) = Inr (hs, m2)"
      "foldE (merge_body ids fs) (List.enumerate 0 (zip groups hs)) ([], m2) = Inr (bs, m')"
      "y = Op ''sela.func'' (dict_set ''block_domains'' (ArrayA (map fst hs)) attrs) [] [] [] [bs] True"
      using r by (auto elim!: bindE_InrE)
    have "\<forall>(i, f) \<in> set ?in. i < ?n \<and> distinct (map block_id (function_region f))"
      using fs(1) by (auto simp: mem native_functions_def native_region_def)
    from correspondence_ok [OF groups _ _ this] obs have
      G: "\<forall>g \<in> set groups. length g = ?n" "\<And>i. i < ?n \<Longrightarrow> List.map_filter (\<lambda>g. g ! i) groups = map block_id (function_region (fs ! i))"
      unfolding observed_def using mem by blast+
    have gok: "\<forall>g \<in> set groups. group_ok ids fs g"
      unfolding group_ok_def
    proof (intro ballI conjI allI impI)
      fix g i b assume g: "g \<in> set groups" "i < ?n" "g ! i = Some b"
      then have "b \<in> set (List.map_filter (\<lambda>g. g ! i) groups)" by (force simp: map_filter_def image_iff)
      then show "b \<in> set (map block_id (function_region (fs ! i)))" by (simp only: G(2) [OF g(2)])
    qed (use G(1) in blast)
    have ok1: "merger_ok ?n Map.empty ?m1" "all_known (function_values fs) ?m1"
      using a by (simp_all add: merger_ok_def naming_ok_def all_known_def s'(2))
    from merge_headers_ok [OF hs(1) fs(1,2) gok ok1] obtain H1 where
      h: "grows_values ?n Map.empty ?m1 H1 m2" "all_known (function_values fs) m2"
        "list_all2 (header_at ids fs H1 (mg_ids m2)) groups hs" "tabled ?n 0 groups (mg_blocks ?m1) (mg_blocks m2)" by auto
    have lh: "length hs = length groups" using list_all2_lengthD [OF h(3)] by simp
    from h(1) have ok2: "merger_ok ?n H1 m2" by (simp add: grows_values_def)
    from merge_bodies_ok [OF hs(2) fs(1,2) gok lh ok2 h(2)] obtain H where
      b: "merger_grows ?n H1 m2 H m'" "map block_id bs = [0..<length groups]" "map block_args bs = map snd hs"
        "list_all2 (body_at ids fs H m') groups bs" by auto
    have lb: "length bs = length groups" using list_all2_lengthD [OF b(4)] by simp
    have grown: "H1 \<subseteq>\<^sub>m H" "extends_identities (mg_ids m2) (mg_ids m')" "mg_blocks m' = mg_blocks m2"
      using b(1) by (simp_all add: merger_grows_def)
    have "function_at ids H m' i y (fs ! i)" if i: "i < ?n" for i
    proof -
      let ?R = "function_region (fs ! i)"
      have nat: "distinct (map block_id ?R)" using fs(1) i by (simp add: native_functions_def native_region_def)
      have blk: "block_at ids H m' i (bs ! k) (source_block fs i b)" if k: "k < length groups" "groups ! k ! i = Some b" for k b
      proof -
        have gk: "group_ok ids fs (groups ! k)" using gok k(1) by simp
        have id: "block_id (source_block fs i b) = b" by (rule group_block(2) [OF fs(1) gk i k(2)])
        have "map_of (mg_blocks m2 ! i) b \<noteq> None" by (rule tabled_known [OF h(4) i]) (use k in blast)
        then obtain j where j: "map_of (mg_blocks m2 ! i) b = Some j" by blast
        have "map_of (mg_blocks ?m1 ! i) b \<noteq> Some j" using i by simp
        with tabled_group [OF h(4) i j] obtain l where l: "l < length groups" "j = 0 + l" "groups ! l ! i = Some b" by blast
        have "distinct (List.map_filter (\<lambda>g. g ! i) groups)" unfolding G(2) [OF i] by (rule nat)
        from map_filter_unique [OF this l(1) k(1) l(3) k(2)] l(2) have "j = k" by simp
        moreover have "block_id (bs ! k) = k" using arg_cong [OF b(2), of "\<lambda>xs. xs ! k"] k(1) lb by simp
        moreover have "header_at ids fs H1 (mg_ids m2) (groups ! k) (hs ! k)" using h(3) k(1) by (simp add: list_all2_conv_all_nth)
        then have "args_at ids H1 (mg_ids m2) i (snd (hs ! k)) (block_args (source_block fs i b))"
          using i k(2) by (simp add: header_at_def)
        then have "args_at ids H (mg_ids m') i (snd (hs ! k)) (block_args (source_block fs i b))"
          using grown(1,2) by (rule args_at_mono)
        moreover have "block_args (bs ! k) = snd (hs ! k)" using arg_cong [OF b(3), of "\<lambda>xs. xs ! k"] k(1) lb lh by simp
        moreover have "body_at ids fs H m' (groups ! k) (bs ! k)" using b(4) k(1) by (simp add: list_all2_conv_all_nth)
        then have "aligned ids H m' i (block_ops (bs ! k)) (block_ops (source_block fs i b))"
          using i k(2) by (simp add: body_at_def)
        ultimately show ?thesis using j by (simp add: block_at_def id grown(3))
      qed
      have dom: "containsTarget (Some (map fst hs ! k)) (ids ! i) \<longleftrightarrow> groups ! k ! i \<noteq> None" if "k < length groups" for k
        using h(3) that i lh by (simp add: list_all2_conv_all_nth header_at_def)
      have "list_all2 (\<lambda>y b. block_at ids H m' i y (source_block fs i b))
          (map snd (filter (\<lambda>(d, b). containsTarget (Some d) (ids ! i)) (zip (map fst hs) bs))) (List.map_filter (\<lambda>g. g ! i) groups)"
        by (rule active_list) (use lh lb blk dom in simp_all)
      moreover have "map snd (filter (\<lambda>(d, b). containsTarget (Some d) (ids ! i)) (zip (map fst hs) bs)) = active_blocks (ids ! i) y"
        by (simp add: active_blocks_def function_domains_def function_region_def hs(3) op_get_def get_as_def dict_set_def map_of_put)
      moreover have "map (source_block fs i) (map block_id ?R) = ?R"
        using find_block [OF nat] by (simp add: map_idI source_block_def)
      then have "list_all2 (\<lambda>y b. block_at ids H m' i y (source_block fs i b)) zs (map block_id ?R) = list_all2 (block_at ids H m' i) zs ?R" for zs
        by (metis list_all2_map2)
      ultimately have "list_all2 (block_at ids H m' i) (active_blocks (ids ! i) y) ?R" by (simp only: G(2) [OF i])
      moreover have "attrs_at ids (mg_ids m') i [''block_domains''] attrs (op_attrs (fs ! i))"
        using at [OF i] identities_trans h(1) grown(2) by (auto simp: grows_values_def s'(2) intro: attrs_at_extends)
      then have "attrs_at ids (mg_ids m') i [''block_domains''] (op_attrs y) (op_attrs (fs ! i))"
        by (simp add: hs(3) attrs_at_put)
      ultimately show ?thesis by (simp add: function_at_def hs(3))
    qed
    moreover have "extends_identities (mg_ids m) (mg_ids m')"
      using a h(1) grown(2) identities_trans by (auto simp: grows_values_def s'(2))
    moreover have "identities_ok ?n (mg_ids m')" using b(1) by (simp add: merger_grows_def)
    ultimately show ?thesis using grows_ok [OF b(1)] by blast
  qed
qed

section \<open>Modules\<close>

definition producer_module :: "string \<Rightarrow> op \<Rightarrow> bool" where
  "producer_module t x \<longleftrightarrow>
     (\<forall>d \<in> set (body_ops x). native_op t d \<and> (op_name d = ''sela.func'' \<longrightarrow> native_region t (function_region d)))"

text \<open>A merged definition at a target, over the storage identities of the merged module.\<close>

definition definition_at :: "string list \<Rightarrow> identities \<Rightarrow> nat \<Rightarrow> op \<Rightarrow> op \<Rightarrow> bool" where
  "definition_at ids s i y x \<longleftrightarrow> op_name y = op_name x \<and>
     (if op_name x = ''sela.func'' then \<exists>H u. mg_ids u = s \<and> merger_ok (length ids) H u \<and> function_at ids H u i y x
      else attrs_at ids s i [] (op_attrs y) (op_attrs x))"

lemma block_at_mono:
  assumes "merger_grows n H m H' m'" "block_at ids H m i y b"
  shows "block_at ids H' m' i y b"
  using assms aligned_mono [OF _ assms(1)] by (auto simp: block_at_def merger_grows_def intro: args_at_mono)

lemma function_at_mono:
  assumes g: "merger_grows n H m H' m'" and f: "function_at ids H m i y x"
  shows "function_at ids H' m' i y x"
proof -
  have "extends_identities (mg_ids m) (mg_ids m')" using g by (simp add: merger_grows_def)
  then have "attrs_at ids (mg_ids m') i [''block_domains''] (op_attrs y) (op_attrs x)"
    using f attrs_at_extends by (auto simp: function_at_def)
  moreover have "list_all2 (block_at ids H' m' i) (active_blocks (ids ! i) y) (function_region x)"
    using f block_at_mono [OF g] unfolding function_at_def by (auto elim: list_all2_mono)
  ultimately show ?thesis using f by (simp add: function_at_def)
qed

lemma definition_at_extends:
  assumes d: "definition_at ids s i y x" and e: "extends_identities s s'" "identities_ok (length ids) s'"
  shows "definition_at ids s' i y x"
proof (cases "op_name x = ''sela.func''")
  case True
  with d obtain H u where u: "mg_ids u = s" "merger_ok (length ids) H u" "function_at ids H u i y x"
    by (auto simp: definition_at_def)
  have "merger_grows (length ids) H u H (u\<lparr>mg_ids := s'\<rparr>)"
    using u(1,2) e by (simp add: merger_grows_def merger_ok_def naming_ok_def)
  then have "merger_ok (length ids) H (u\<lparr>mg_ids := s'\<rparr>)" "function_at ids H (u\<lparr>mg_ids := s'\<rparr>) i y x"
    using u(3) by (auto intro: grows_ok function_at_mono)
  with True d show ?thesis unfolding definition_at_def by (intro conjI) (auto intro!: exI [of _ H] exI [of _ "u\<lparr>mg_ids := s'\<rparr>"])
qed (use d e(1) in \<open>auto simp: definition_at_def intro: attrs_at_extends\<close>)

text \<open>The definitions of a module by their names.\<close>

definition inventory_ok :: "string \<Rightarrow> (string, op) smap \<Rightarrow> bool" where
  "inventory_ok t tab \<longleftrightarrow> distinct (map fst tab) \<and>
     (\<forall>x \<in> snd ` set tab. native_op t x \<and> (op_name x = ''sela.func'' \<longrightarrow> native_region t (function_region x)))"

lemma put_new:
  "k \<notin> fst ` set d \<Longrightarrow> mset (smap_put k v d) = add_mset (k, v) (mset d)"
  by (induction k v d rule: smap_put.induct) auto

lemma add_inventories:
  "foldE add_inventory xs tab = Inr tab' \<Longrightarrow> distinct (map fst tab) \<Longrightarrow>
   distinct (map fst tab') \<and> mset (map snd tab') = mset (map snd tab) + mset xs"
proof (induction xs arbitrary: tab)
  case (Cons x xs)
  obtain tab1 where s: "add_inventory x tab = Inr tab1" "foldE add_inventory xs tab1 = Inr tab'"
    using Cons.prems(1) by (auto simp: bindE_Inr_iff)
  from s(1) obtain k where k: "k \<notin> fst ` set tab" "tab1 = smap_put k x tab"
    by (auto simp: add_inventory_def map_of_eq_None_iff split: option.splits if_splits)
  have m: "mset tab1 = add_mset (k, x) (mset tab)" using put_new k by simp
  have "mset (map fst tab1) = mset (map fst ((k, x) # tab))" using arg_cong [OF m, of "image_mset fst"] by simp
  then have "distinct (map fst tab1)" using mset_eq_imp_distinct_iff Cons.prems(2) k(1) by fastforce
  moreover have "mset (map snd tab1) = add_mset x (mset (map snd tab))" using arg_cong [OF m, of "image_mset snd"] by simp
  ultimately show ?case using Cons.IH [OF s(2)] by simp
qed simp

lemma take_definition_ok:
  assumes "take_definition name k tab = Inr (x, tab')" "inventory_ok t tab"
  shows "inventory_ok t tab'" "mset (map snd tab) = add_mset x (mset (map snd tab'))" "op_name x = name"
    "native_op t x" "op_name x = ''sela.func'' \<Longrightarrow> native_region t (function_region x)"
proof -
  have x: "map_of tab k = Some x" "op_name x = name" "tab' = filter (\<lambda>p. fst p \<noteq> k) tab"
    using assms(1) by (auto simp: take_definition_def split: option.splits if_splits)
  then have mem: "(k, x) \<in> set tab" by (simp add: map_of_SomeD)
  have d: "distinct (map fst tab)" using assms(2) by (simp add: inventory_ok_def)
  have "mset tab = add_mset (k, x) (mset (filter (\<lambda>p. fst p \<noteq> k) tab))"
    using mem d
  proof (induction tab)
    case (Cons p tab)
    show ?case
    proof (cases "p = (k, x)")
      case True
      then have "filter (\<lambda>p. fst p \<noteq> k) tab = tab" using Cons.prems(2) by (force simp: filter_id_conv)
      with True show ?thesis by simp
    next
      case False
      then have "(k, x) \<in> set tab" using Cons.prems(1) by simp
      moreover from imageI [OF this, of fst] have "fst p \<noteq> k" using Cons.prems(2) by auto
      ultimately show ?thesis using Cons.IH Cons.prems(2) by simp
    qed
  qed simp
  from arg_cong [OF this, of "image_mset snd"] show "mset (map snd tab) = add_mset x (mset (map snd tab'))" by (simp add: x(3))
  show "inventory_ok t tab'" using assms(2) by (auto simp: inventory_ok_def x(3) distinct_map_filter)
  show "op_name x = name" "native_op t x" "op_name x = ''sela.func'' \<Longrightarrow> native_region t (function_region x)"
    using x(2) mem assms(2) by (force simp: inventory_ok_def)+
qed

lemma merge_definition_ok:
  assumes run: "merge_definition verifies ids x (body, invs, m) = Inr (body', invs', m')"
    and ids: "registered ids" "ids \<noteq> []" and invs: "length invs = length ids" "\<forall>i < length ids. inventory_ok (ids ! i) (invs ! i)"
    and ok: "identities_ok (length ids) (mg_ids m)"
  shows "\<exists>y xs. body' = body @ [y] \<and> length invs' = length ids \<and> (\<forall>i < length ids. inventory_ok (ids ! i) (invs' ! i)) \<and>
    identities_ok (length ids) (mg_ids m') \<and> extends_identities (mg_ids m) (mg_ids m') \<and>
    (\<forall>i < length ids. mset (map snd (invs ! i)) = add_mset (xs ! i) (mset (map snd (invs' ! i))) \<and> definition_at ids (mg_ids m') i y (xs ! i))"
proof -
  let ?n = "length ids" and ?k = "the (op_get as_string x ''id'')"
  obtain taken y where taken: "mapE (take_definition (op_name x) ?k) invs = Inr taken" and
    y: "(if op_name x = ''sela.func'' then
           (case merge_function verifies ids (map fst taken) m of Inl e \<Rightarrow> Inl (?k @ '': '' @ e) | Inr r \<Rightarrow> Inr r)
         else
           bindE (typed (merge_attributes ids (List.enumerate 0 (map fst taken)) []) m) (\<lambda>(attrs, m).
           Inr (Op (op_name x) attrs [] [] [] [] True, m))) = Inr (y, m')" and out: "body' = body @ [y]" "invs' = map snd taken"
    using run unfolding merge_definition_def prod.case Let_def by (elim bindE_InrE) (auto elim!: bindE_InrE)
  have len: "length taken = ?n" using mapE_length [OF taken] invs(1) by simp
  have take: "take_definition (op_name x) ?k (invs ! i) = Inr (fst (taken ! i), invs' ! i)" if "i < ?n" for i
    using taken that invs(1) len by (simp add: out(2) mapE_Inr_iff list_all2_conv_all_nth)
  note t = take_definition_ok [OF take]
  have tab: "\<forall>i < ?n. inventory_ok (ids ! i) (invs' ! i)" using t(1) invs(2) by blast
  let ?xs = "map fst taken"
  have xs: "mset (map snd (invs ! i)) = add_mset (?xs ! i) (mset (map snd (invs' ! i)))" "op_name (?xs ! i) = op_name x"
    "native_op (ids ! i) (?xs ! i)" "op_name x = ''sela.func'' \<Longrightarrow> native_region (ids ! i) (function_region (?xs ! i))" if "i < ?n" for i
    using t(2-5) [OF that, of "ids ! i"] invs(2) that len by simp_all
  have "identities_ok ?n (mg_ids m') \<and> extends_identities (mg_ids m) (mg_ids m') \<and> (\<forall>i < ?n. definition_at ids (mg_ids m') i y (?xs ! i))"
  proof (cases "op_name x = ''sela.func''")
    case True
    with y have f: "merge_function verifies ids ?xs m = Inr (y, m')" by (simp split: sum.splits)
    have "native_functions ids ?xs" using xs(3,4) True len by (simp add: native_functions_def)
    from merged_function_ok [OF f this ids ok] obtain H u where u: "extends_identities (mg_ids m) (mg_ids m')" "identities_ok ?n (mg_ids m')"
      "mg_ids u = mg_ids m'" "merger_ok ?n H u" "\<forall>i < ?n. function_at ids H u i y (?xs ! i)" by blast
    have "definition_at ids (mg_ids m') i y (?xs ! i)" if "i < ?n" for i
    proof -
      have f: "function_at ids H u i y (?xs ! i)" using u(5) that by blast
      moreover from f have "op_name y = ''sela.func''" by (simp add: function_at_def)
      ultimately show ?thesis unfolding definition_at_def using u(3,4) xs(2) [OF that] True by auto
    qed
    with u(1,2) show ?thesis by blast
  next
    case False
    with y obtain attrs where a: "typed (merge_attributes ids (List.enumerate 0 ?xs) []) m = Inr (attrs, m')"
      "y = Op (op_name x) attrs [] [] [] [] True" by (auto elim!: bindE_InrE)
    then have a': "merge_attributes ids (List.enumerate 0 ?xs) [] (mg_ids m) = Inr (attrs, mg_ids m')" by (auto simp: typed_def bindE_Inr_iff)
    have mem: "(i, z) \<in> set (List.enumerate 0 ?xs) \<longleftrightarrow> i < ?n \<and> z = ?xs ! i" for i z using len by (auto simp: in_set_enumerate_eq)
    have "distinct (map fst (List.enumerate 0 ?xs))" by simp
    moreover have "List.enumerate 0 ?xs \<noteq> []" using ids(2) len by (cases taken) auto
    ultimately have "observed ids (List.enumerate 0 ?xs)" using ids(1) by (auto simp: observed_def registered_def mem)
    note r = merge_attributes_ok [OF a' this ids(1) _ ok]
    have "\<forall>(i, z) \<in> set (List.enumerate 0 ?xs). native_op (ids ! i) z" using xs(3) by (auto simp: mem)
    note r = r [OF this]
    have "definition_at ids (mg_ids m') i y (?xs ! i)" if "i < ?n" for i
    proof -
      have "attrs_at ids (mg_ids m') i [] attrs (op_attrs (?xs ! i))" using r mem that by blast
      then show ?thesis using False xs(2) [OF that] by (simp add: definition_at_def a(2))
    qed
    with r show ?thesis by blast
  qed
  with xs(1) tab out len show ?thesis by (intro exI [of _ y] exI [of _ ?xs]) simp
qed

lemma merge_definitions_ok:
  assumes "foldE (merge_definition verifies ids) ds (body, invs, m) = Inr (body', invs', m')"
    and "registered ids" "ids \<noteq> []" and "length invs = length ids" "\<forall>i < length ids. inventory_ok (ids ! i) (invs ! i)"
    and "identities_ok (length ids) (mg_ids m)"
  shows "\<exists>ys. body' = body @ ys \<and> length invs' = length ids \<and>
    identities_ok (length ids) (mg_ids m') \<and> extends_identities (mg_ids m) (mg_ids m') \<and>
    (\<forall>i < length ids. \<exists>xs. mset (map snd (invs ! i)) = mset xs + mset (map snd (invs' ! i)) \<and>
       list_all2 (definition_at ids (mg_ids m') i) ys xs)"
  using assms(1,4-6)
proof (induction ds arbitrary: body invs m)
  case Nil
  then show ?case by (auto intro!: exI [of _ "[]"])
next
  case (Cons d ds)
  let ?n = "length ids"
  obtain body1 invs1 m1 where step: "merge_definition verifies ids d (body, invs, m) = Inr (body1, invs1, m1)"
    "foldE (merge_definition verifies ids) ds (body1, invs1, m1) = Inr (body', invs', m')"
    using Cons.prems(1) by (auto simp: bindE_Inr_iff)
  from merge_definition_ok [OF step(1) assms(2,3) Cons.prems(2-4)] obtain y xs where
    y: "body1 = body @ [y]" "length invs1 = ?n" "\<forall>i < ?n. inventory_ok (ids ! i) (invs1 ! i)"
      "identities_ok ?n (mg_ids m1)" "extends_identities (mg_ids m) (mg_ids m1)"
      "\<And>i. i < ?n \<Longrightarrow> mset (map snd (invs ! i)) = add_mset (xs ! i) (mset (map snd (invs1 ! i)))"
      "\<And>i. i < ?n \<Longrightarrow> definition_at ids (mg_ids m1) i y (xs ! i)" by blast
  from Cons.IH [OF step(2) y(2-4)] obtain ys where
    z: "body' = body1 @ ys" "length invs' = ?n" "identities_ok ?n (mg_ids m')" "extends_identities (mg_ids m1) (mg_ids m')"
      "\<And>i. i < ?n \<Longrightarrow> \<exists>xs. mset (map snd (invs1 ! i)) = mset xs + mset (map snd (invs' ! i)) \<and>
       list_all2 (definition_at ids (mg_ids m') i) ys xs" by blast
  have "\<exists>zs. mset (map snd (invs ! i)) = mset zs + mset (map snd (invs' ! i)) \<and> list_all2 (definition_at ids (mg_ids m') i) (y # ys) zs"
    if i: "i < ?n" for i
  proof -
    from z(5) [OF i] obtain zs where zs: "mset (map snd (invs1 ! i)) = mset zs + mset (map snd (invs' ! i))"
      "list_all2 (definition_at ids (mg_ids m') i) ys zs" by blast
    have "definition_at ids (mg_ids m') i y (xs ! i)" by (rule definition_at_extends [OF y(7) [OF i] z(4,3)])
    with zs y(6) [OF i] show ?thesis by (intro exI [of _ "xs ! i # zs"]) simp
  qed
  with z(1-3) y(1) identities_trans [OF y(5) z(4)] show ?case by (intro exI [of _ "y # ys"]) simp
qed

lemma merge_modules_ok:
  assumes run: "merge_modules verifies ids modules = Inr (y, m)" and ids: "registered ids" "ids \<noteq> []" "length modules = length ids"
    and native: "\<forall>i < length ids. producer_module (ids ! i) (modules ! i)" and i: "i < length ids"
  shows "\<exists>xs. mset xs = mset (body_ops (modules ! i)) \<and> list_all2 (definition_at ids (mg_ids m) i) (body_ops y) xs"
proof -
  let ?n = "length ids"
  define m0 where "m0 = \<lparr>mg_ids = \<lparr>mi_maps = replicate ?n [], mi_next = 0\<rparr>, mg_values = [], mg_blocks = replicate ?n [], mg_fresh = 0\<rparr>"
  obtain flags invs body invs' where
    invs: "mapE (\<lambda>x. foldE add_inventory (body_ops x) []) modules = Inr invs" and
    run': "foldE (merge_definition verifies ids) (body_ops (hd modules)) ([], invs, m0) = Inr (body, invs', m)" and
    all: "List.find (\<lambda>(i, inventory). inventory \<noteq> []) (zip ids invs') = None" and
    y: "y = module_op (merged_attrs ids flags) body"
    using run unfolding merge_modules_def m0_def by (elim bindE_InrE) (auto elim!: bindE_InrE split: option.splits)
  have len: "length invs = ?n" using mapE_length [OF invs] ids(3) by simp
  have tab: "distinct (map fst (invs ! j)) \<and> mset (map snd (invs ! j)) = mset (body_ops (modules ! j))" if "j < ?n" for j
  proof -
    have "foldE add_inventory (body_ops (modules ! j)) [] = Inr (invs ! j)"
      using invs that ids(3) by (simp add: mapE_Inr_iff list_all2_conv_all_nth)
    from add_inventories [OF this] show ?thesis by simp
  qed
  have "inventory_ok (ids ! j) (invs ! j)" if "j < ?n" for j
  proof -
    have "snd ` set (invs ! j) = set (body_ops (modules ! j))" using arg_cong [OF conjunct2 [OF tab [OF that]], of set_mset] by simp
    then show ?thesis using tab [OF that] native that by (simp add: inventory_ok_def producer_module_def)
  qed
  moreover have "identities_ok ?n (mg_ids m0)" by (simp add: m0_def identities_ok_def)
  ultimately obtain xs where xs: "length invs' = ?n" "mset (map snd (invs ! i)) = mset xs + mset (map snd (invs' ! i))"
    "list_all2 (definition_at ids (mg_ids m) i) body xs"
    using merge_definitions_ok [OF run' ids(1,2) len] i by auto
  have "(ids ! i, invs' ! i) \<in> set (zip ids invs')" using i xs(1) by (auto simp: in_set_zip)
  with all have "invs' ! i = []" by (fastforce simp: find_None_iff)
  with xs tab [OF i] show ?thesis by (intro exI [of _ xs]) (simp add: y module_op_def body_ops_def)
qed

end
