(* ===== verification/Common_Example.thy ===== *)
theory Common_Example
  imports Common_Module_Facts
begin

text \<open>
  Two targets to merge: the function returns a long, so x86-64 extends its argument where i686 has nothing to
  do, and the constant has another value and another place in the module.
\<close>

definition merge_ids :: "string list" where
  "merge_ids = [''x86_64'', ''i686'']"

definition merge_op :: "string \<Rightarrow> dict \<Rightarrow> nat list \<Rightarrow> (nat \<times> sty) list \<Rightarrow> op" where
  "merge_op name attrs vs rs = Op name attrs vs rs [] [] True"

definition merge_fun :: "op list \<Rightarrow> op" where
  "merge_fun xs = Op ''sela.func'' [(''id'', StringA ''f'')] [] [] [] [[Block 0 [(1, IntegerT 32, True)] xs]] True"

definition merge_const :: "nat \<Rightarrow> op" where
  "merge_const n = merge_op ''sela.global'' [(''id'', StringA ''g''), (''value'', IntegerA 32 n)] [] []"

definition merge_x86 :: op where
  "merge_x86 = module_op []
     [merge_fun [merge_op ''sela.cast'' [(''opcode'', StringA ''sext'')] [1] [(2, IntegerT 64)], merge_op ''sela.return'' [] [2] []],
      merge_const 8]"

definition merge_i686 :: op where
  "merge_i686 = module_op [] [merge_const 4, merge_fun [merge_op ''sela.return'' [] [1] []]]"

text \<open>The functions in the order of the targets, and the merger before and after them.\<close>

definition merge_functions :: "op list" where
  "merge_functions = [hd (body_ops merge_x86), last (body_ops merge_i686)]"

definition merge_state :: "(nat option list \<times> nat) list \<Rightarrow> (nat \<times> nat) list list \<Rightarrow> nat \<Rightarrow> merger" where
  "merge_state vs bs n = \<lparr>mg_ids = \<lparr>mi_maps = [[], []], mi_next = 0\<rparr>, mg_values = vs, mg_blocks = bs, mg_fresh = n\<rparr>"

lemma merge_order_example: "common_order (Suc 0) [[0], [0]] = Some [0]"
  by (simp add: common_order_def build_order_def order_pairs_def)

lemma matchPairs_numeral: "matchPairs left right (numeral k) index s =
     (if index \<ge> length (pr_pairs s) then Some (Inr s)
      else case matchBlock left right (pr_pairs s ! index) s of
        Inl e \<Rightarrow> Some (Inl e)
      | Inr s' \<Rightarrow> matchPairs left right (pred_numeral k) (Suc index) s')"
  by (simp add: numeral_eq_Suc)

lemma merge_groups_example: "correspondence (\<lambda>_. True) merge_ids (List.enumerate 0 merge_functions) = Inr [[Some 0, Some 0]]"
  by (simp add: correspondence_def merge_functions_def merge_x86_def merge_i686_def merge_fun_def merge_op_def merge_const_def
    function_graph_def function_region_def graph_block_def graph_terminator_def Let_def merge_ids_def place_function_def
    pairConditionalCFG_def matchShared_def pair_blocks_def find_bb_def matchPairs_numeral matchBlock_def block_terminator_def
    same_kind_def finish_pairing_def bb_ids_def lookup0_def merged_graph_def shared_pair_def place_block_def merge_order_example)

text \<open>What the merger makes of them: the shared cast extends on x86-64 and is the identity on i686.\<close>

definition merged_block :: block where
  "merged_block = Block 0 [(0, IntegerT 32, True)]
     [merge_op ''sela.cast''
        [(''opcode'', choice merge_ids [(0, StringA ''native_sext''), (1, StringA ''native_zext'')])] [0] [(1, WordT)],
      merge_op ''sela.return'' [] [1] []]"

definition merged_function :: op where
  "merged_function = Op ''sela.func'' [(''block_domains'', ArrayA [targetSet merge_ids]), (''id'', StringA ''f'')] [] [] []
     [[merged_block]] True"

definition merged_constant :: op where
  "merged_constant = merge_op ''sela.global''
     [(''id'', StringA ''g''), (''value'', choice merge_ids [(0, IntegerA 32 8), (1, IntegerA 32 4)])] [] []"

definition merged_state :: merger where
  "merged_state = merge_state [([Some 1, Some 1], 0), ([Some 2, Some 1], 1)] [[(0, 0)], [(0, 0)]] 2"

lemma merge_header_example:
  "merge_header merge_ids merge_functions (0, [Some 0, Some 0]) ([], merge_state [] [[], []] 0) =
     Inr ([(targetSet merge_ids, [(0, IntegerT 32, True)])], merge_state [([Some 1, Some 1], 0)] [[(0, 0)], [(0, 0)]] 1)"
  by code_simp

lemma merge_body_example:
  "merge_body merge_ids merge_functions (0, [Some 0, Some 0], targetSet merge_ids, [(0, IntegerT 32, True)])
     ([], merge_state [([Some 1, Some 1], 0)] [[(0, 0)], [(0, 0)]] 1) = Inr ([merged_block], merged_state)"
  by code_simp

lemma merge_attributes_example:
  "typed (merge_attributes merge_ids (List.enumerate 0 merge_functions) [''block_domains'']) (merge_state [] [[], []] 0) =
     Inr ([(''id'', StringA ''f'')], merge_state [] [[], []] 0)"
  by code_simp

lemma merge_constant_example:
  "typed (merge_attributes merge_ids (List.enumerate 0 [merge_const 8, merge_const 4]) []) merged_state =
     Inr (op_attrs merged_constant, merged_state)"
  by code_simp

lemma merge_function_example:
  "merge_function (\<lambda>_. True) merge_ids merge_functions (merge_state [] [[], []] 0) = Inr (merged_function, merged_state)"
proof -
  have "(function_region (hd merge_functions) = []) = False" "\<not> list_ex (\<lambda>f. (function_region f = []) \<noteq> False) merge_functions"
    by code_simp+
  moreover have "merge_state [] [[], []] 0\<lparr>mg_values := [], mg_blocks := replicate (length merge_ids) []\<rparr> = merge_state [] [[], []] 0"
    by code_simp
  moreover have "dict_set ''block_domains'' (ArrayA [targetSet merge_ids]) [(''id'', StringA ''f'')] =
      [(''block_domains'', ArrayA [targetSet merge_ids]), (''id'', StringA ''f'')]" by (simp add: dict_set_def)
  ultimately show ?thesis
    by (simp add: merge_function_def Let_def merge_attributes_example merge_groups_example merge_header_example merge_body_example [simplified]
      merged_function_def)
qed

text \<open>The definitions of both modules by name.\<close>

definition merge_inventories :: "(string, op) smap list" where
  "merge_inventories =
     [[(''f'', hd (body_ops merge_x86)), (''g'', merge_const 8)], [(''f'', last (body_ops merge_i686)), (''g'', merge_const 4)]]"

lemma merge_inventories_example: "mapE (\<lambda>x. foldE add_inventory (body_ops x) []) [merge_x86, merge_i686] = Inr merge_inventories"
  by (simp add: merge_inventories_def add_inventory_def merge_x86_def merge_i686_def merge_const_def merge_fun_def merge_op_def
    op_get_def get_as_def)

lemma merge_names_example:
  "op_get as_string (hd (body_ops merge_x86)) ''id'' = Some ''f''" "op_get as_string (merge_const n) ''id'' = Some ''g''"
  "op_name (hd (body_ops merge_x86)) = ''sela.func''" "op_name (last (body_ops merge_i686)) = ''sela.func''"
  "op_name (merge_const n) = ''sela.global''"
  by code_simp+

lemma merge_definitions_example:
  "merge_definition (\<lambda>_. True) merge_ids (hd (body_ops merge_x86)) ([], merge_inventories, merge_state [] [[], []] 0) =
     Inr ([merged_function], [[(''g'', merge_const 8)], [(''g'', merge_const 4)]], merged_state)"
  "merge_definition (\<lambda>_. True) merge_ids (merge_const 8)
       ([merged_function], [[(''g'', merge_const 8)], [(''g'', merge_const 4)]], merged_state) =
     Inr ([merged_function, merged_constant], [[], []], merged_state)"
  using merge_constant_example
  by (simp_all add: merge_definition_def Let_def merge_inventories_def take_definition_def merge_names_example
    merge_function_example [unfolded merge_functions_def] merged_constant_def merge_op_def)

lemma merge_example:
  "mergeCommonModules (\<lambda>_. True) (\<lambda>_. True) [merge_x86, merge_i686] merge_ids =
     Inr (module_op (merged_attrs merge_ids []) [merged_function, merged_constant], [[], []])"
proof -
  have flags: "merge_flags (zip merge_ids [merge_x86, merge_i686]) = Inr []" by code_simp
  have init: "\<lparr>mg_ids = \<lparr>mi_maps = replicate 2 [], mi_next = 0\<rparr>, mg_values = [],
      mg_blocks = replicate 2 [], mg_fresh = 0\<rparr> = merge_state [] [[], []] 0" by code_simp
  have body: "body_ops (hd [merge_x86, merge_i686]) = [hd (body_ops merge_x86), merge_const 8]" by code_simp
  have left: "List.find (\<lambda>(i, inventory). inventory \<noteq> []) (zip merge_ids [[], []]) = None"
    "mi_maps (mg_ids merged_state) = [[], []]" "length merge_ids = 2" by code_simp+
  show ?thesis
    by (simp add: mergeCommonModules_def merge_modules_def flags merge_inventories_example init body merge_definitions_example left
      del: list.sel mapE.simps)
qed

lemma merge_registered: "registered merge_ids"
  by (simp add: registered_def merge_ids_def)

lemma merge_native: "producer_module ''x86_64'' merge_x86" "producer_module ''i686'' merge_i686"
  by (simp_all add: producer_module_def merge_x86_def merge_i686_def merge_fun_def merge_const_def merge_op_def native_op_def
    native_region_def function_region_def)

end
