(* ===== verification/Spec2Isabelle.thy ===== *)
theory Spec2Isabelle
  imports Artifact_Facts Support Sdk Specialization_Facts Schema_Facts Natural_Layout Native_Dispatch
    Conditional_CFG_Facts Overlap_Facts Compilation_Unit Partition_Example Link_Example Native_Example
    Common_Example
begin

text \<open>
  A verification development of Sela, a compiler pipeline that publishes target-neutral packages of an MLIR
  dialect and lowers them natively on the device. The program's parts and the theories that model them:

  \<^item> Shared vocabulary. \<open>Sela_Prelude\<close>: \<open>llvm::Expected\<close> and \<open>llvm::Error\<close> as sums with their early returns
    (\<open>bindE\<close>, \<open>foldE\<close>, \<open>forE\<close>, \<open>mapE\<close>) and the locale of a check with its set of accepted values. \<open>Std_Map\<close>:
    \<open>std::map\<close> as an association list in key order. \<open>Json_Model\<close>: JSON values and their accessors; the text
    of a value and its digest are the parameter \<open>codec\<close>.

  \<^item> Targets (\<open>src/targets/Targets.cpp\<close>, \<open>src/support/Selection.cpp\<close>): \<open>Targets\<close>, the registry, the compiler
    arguments and the selection of publication architectures.

  \<^item> Packages (\<open>src/artifact/Artifact.cpp\<close>): \<open>Artifact\<close> and \<open>Artifact_Facts\<close>, the archive limits, the manifest
    and its validation, compilation and link plans, version scripts and artifact creation. Archive reading is
    over the answers of libarchive, in the order it gives them.

  \<^item> Host support (\<open>src/support/Support.cpp\<close>, \<open>src/support/Sdk.cpp\<close>): \<open>Support\<close>, bounded reads, atomic
    replacement and subprocesses over explicit scripts of system-call outcomes; \<open>Sdk\<close>, the managed kit and
    the native link command.

  \<^item> The public IR (\<open>include/sela/IR/Dialect.h\<close>, \<open>src/ir/Dialect.cpp\<close>): \<open>Dialect\<close>, attributes, types and
    operations with regions; MLIR's uniquing is structural equality and printed locations are omitted.

  \<^item> Target domains (\<open>src/ir/Domains.cpp\<close>, \<open>src/ir/ConditionalSpecialization.cpp\<close>): \<open>Domains\<close>,
    \<open>Specialization\<close> and their facts, target-dependent choices and the resolution of a module to one target.

  \<^item> Admission (\<open>src/ir/Compiler.cpp\<close>, \<open>src/ir/Intrinsics.cpp\<close>, \<open>src/ir/InstructionContracts.cpp\<close>):
    \<open>Instructions\<close>, \<open>Schema\<close>, \<open>Schema_Facts\<close>, the closed public schema, initializers, ABI attributes, public
    types and the intrinsic registry. LLVM's attribute kinds and constraint parser are the parameter \<open>llvm_api\<close>.

  \<^item> The native ABI (\<open>src/ir/AggregateABI.cpp\<close>, \<open>src/ir/NativeAggregateABI.cpp\<close>,
    \<open>src/ir/NativeAggregateLayoutABI.cpp\<close>, \<open>src/ir/NativeARMABI.cpp\<close>): \<open>Native_Types\<close>, LLVM types and classified
    values, with \<open>llvm::DataLayout\<close> as the parameter \<open>data_layout\<close> and what the code relies on of it as the
    hypotheses \<open>layout_ok\<close> and \<open>arm_layout_ok\<close>; \<open>Abi_Pieces\<close>, admission and access of native pieces, the
    emitted instructions as data; \<open>Abi_Signature\<close>, the parameter loop of all classifiers as a locale;
    \<open>Abi_X86\<close>, \<open>Abi_Layout\<close> and \<open>Abi_Arm\<close>, the three classifiers, each with its facts; \<open>Native_Dispatch\<close>, the
    choice of a backend; \<open>Natural_Layout\<close>, a concrete layout on which the hypotheses hold.

  How the parts interact. Publication builds a manifest from observed modules and writes a package; a consumer
  validates the package, reads its plans, resolves each module to its target (domains, then the conditional
  graph, then every attribute and type), admits the result by the closed schema and lowers it, where the native
  ABI decides the physical signature of every function.

  Groups of lemmas. The properties C1 to C6 are about packages, C7 to C12 about targets and host support, C13 to
  C20 about choices and specialization, C21 to C26 about admission, and the rest about the native ABI and the
  text of the dialect. The facts theories hold one lemma per branch of an operation and the invariant of each
  loop; the interfaces the loops share are locales (checks, inserted inventories, the parameter loop of the
  classifiers), interpreted on the model's own operations.

  Bounds and fuel. The program bounds its own recursions (64 choices, 32 levels of nesting, 4096 nodes), and the
  models recurse on the remaining depth or on the size of the type. Two walks are given fuel: \<open>gather\<close>, one
  step per type of the memo table, where running out is a value of its own and is proved not to happen; and the
  retry loops of system calls, whose scripts are finite. Machine integers are \<open>nat\<close> where the code has bounded
  them before (all sizes are at most \<open>2 ^ 30\<close>), with the wrap-around written out (\<open>usub64\<close>) where it has not.

  Not modelled. The producer, module merging, aggregate normalization, the variadic recognisers and the native
  lowering walk and rewrite LLVM and MLIR graphs through those libraries' C++ interfaces; the drivers are
  process glue around the modelled parts. Reading and writing bytecode, JSON text and archives is input and
  output of libraries.
\<close>

section \<open>Example data\<close>

text \<open>A manifest with one fragment for two targets, its package and the codec that goes with it.\<close>

definition example_manifest :: json_object where
  "example_manifest =
     [(''format_version'', JInt 2), (''contract'', JString ''sela-prealpha-2''), (''kind'', JString ''object''),
      (''targets'', JArray [JString ''x86_64'', JString ''armv7'']), (''runtime'', JString ''glibc-2.39-0ubuntu8.8''),
      (''libraries'', JArray [JString ''c'']), (''link_options'', JArray []),
      (''modules'', JArray [JObject [(''path'', JString ''modules/0.selabc''), (''sha256'', JString ''d''),
          (''targets'', JArray [JString ''x86_64'', JString ''armv7''])]]),
      (''compilation_units'', JObject
         [(''armv7'', JArray [JObject [(''modules'', JArray [JInt 0]), (''optimization'', JString ''O2'')]]),
          (''x86_64'', JArray [JObject [(''modules'', JArray [JInt 0]), (''optimization'', JString ''O2'')]])])]"

definition example_codec :: codec where
  "example_codec = \<lparr>json_parse = \<lambda>_. Inr (JObject example_manifest), json_text = \<lambda>_. ''m'', digest = \<lambda>_. ''d''\<rparr>"

definition example_files :: package_files where
  "example_files = [(''manifest.json'', ''m''), (''modules/0.selabc'', ''b'')]"

lemma example_module_path: "module_path 0 = ''modules/0.selabc''"
  by code_simp

lemma example_plan: "readCompilationPlan example_manifest =
   Inr [(''armv7'', [\<lparr>au_modules = [0], au_optimization = ''O2'', au_archiveMember = []\<rparr>]),
        (''x86_64'', [\<lparr>au_modules = [0], au_optimization = ''O2'', au_archiveMember = []\<rparr>])]"
  by (simp add: readCompilationPlan_def example_manifest_def json_get_defs module_domain_def domain_id_def
    plan_target_def plan_unit_def plan_member_def unit_field_def optimization_levels_def unit_archive_member_def
    int64_min_def int64_max_def numeral_2_eq_2)

lemma example_object: "validate_object example_codec example_files example_manifest = Inr ()"
  unfolding validate_object_def
  using example_plan [unfolded example_manifest_def]
  by (simp add: example_manifest_def example_codec_def example_files_def json_get_defs
    ArtifactFormatVersion_def Contract_def Runtime_def known_field_def manifest_fields_def artifact_kinds_def
    seen_target_def validateLinkRecord_def check_library_def validLibrary_def validName_def alnum_def in_range_def
    check_target_links_def check_module_def module_target_def example_module_path int64_min_def int64_max_def)

lemma example_wf: "smap_wf example_files"
  by (simp add: smap_wf_def example_files_def less_char_def)

lemma example_package: "validatePackage example_codec example_files = Inr (JObject example_manifest)"
  using example_object by (simp add: validatePackage_def) (simp add: example_files_def example_codec_def)

lemma validatePackage_Inr:
  assumes "validatePackage c files = Inr v"
  obtains object where "v = JObject object" "validate_object c files object = Inr ()"
    "smap_at files ''manifest.json'' \<noteq> None"
  using assms unfolding validatePackage_def
  by (auto simp: bindE_Inr_iff split: option.splits if_splits)

section \<open>Publication packages\<close>

text \<open>
  C1: the compilation plan of a validated package covers exactly. For every target of the manifest,
  the units of the plan that \<open>readCompilationPlan\<close> returns list each fragment whose declared domain
  contains the target exactly once and no other fragment; every unit is nonempty, has a known
  optimization level and an archive member identity exactly when the artifact is static.
\<close>

theorem validated_plan_exact_cover:
  assumes "validatePackage c files = Inr (JObject object)" and "smap_wf files"
  shows "\<exists>kind names modules domains plan.
    getString object ''kind'' = Some kind \<and>
    getArray object ''targets'' = Some (map JString names) \<and> set names \<subseteq> set all_target_ids \<and>
    getArray object ''modules'' = Some modules \<and> mapE module_domain modules = Inr domains \<and>
    readCompilationPlan object = Inr plan \<and> dom (smap_at plan) = set names \<and>
    (\<forall>n \<in> set names. \<exists>us. smap_at plan n = Some us \<and> exact_cover domains n us \<and> list_all (unit_ok kind) us)"
proof -
  from assms(1) have v: "validate_object c files object = Inr ()" "smap_at files ''manifest.json'' \<noteq> None"
    by (auto elim: validatePackage_Inr)
  from validate_object_facts [OF v(1) assms(2) v(2)] obtain kind names plan where
    m: "getString object ''kind'' = Some kind" "getArray object ''targets'' = Some (map JString names)"
      "distinct names" "set names \<subseteq> set all_target_ids" "readCompilationPlan object = Inr plan" by metis
  from readCompilationPlan_cover [OF m(5) m(2) m(3) m(1)] m show ?thesis by metis
qed

theorem validated_plan_exact_cover_witness:
  "\<exists>kind names modules domains plan.
    getString example_manifest ''kind'' = Some kind \<and>
    getArray example_manifest ''targets'' = Some (map JString names) \<and> set names \<subseteq> set all_target_ids \<and>
    getArray example_manifest ''modules'' = Some modules \<and> mapE module_domain modules = Inr domains \<and>
    readCompilationPlan example_manifest = Inr plan \<and> dom (smap_at plan) = set names \<and>
    (\<forall>n \<in> set names. \<exists>us. smap_at plan n = Some us \<and> exact_cover domains n us \<and> list_all (unit_ok kind) us)"
  by (rule validated_plan_exact_cover [OF example_package example_wf])



text \<open>
  C3: \<open>readLinkPlan\<close> is defined on every validated package: none of the accessors it dereferences
  without a test is missing, and it yields a link record for exactly the declared targets.
\<close>

theorem link_plan_defined:
  assumes "validatePackage c files = Inr (JObject object)" and "smap_wf files"
  shows "\<exists>names plan. getArray object ''targets'' = Some (map JString names) \<and>
    readLinkPlan object files = Some plan \<and> dom (smap_at plan) = set names"
proof -
  from assms(1) have v: "validate_object c files object = Inr ()" "smap_at files ''manifest.json'' \<noteq> None"
    by (auto elim: validatePackage_Inr)
  from validate_object_facts [OF v(1) assms(2) v(2)] obtain kind names where
    m: "getArray object ''targets'' = Some (map JString names)"
      "\<forall>t \<in> set names. \<exists>lrec path. link_source object t = Some lrec \<and> link_ok c lrec kind path files" by metis
  from m(2) read_links_defined [of names object c files "[]"] obtain plan where
    "read_links object files (map JString names) [] = Some plan" "dom (smap_at plan) = set names"
    by (auto simp: smap_wf_Nil) blast
  with m(1) show ?thesis by (auto simp: readLinkPlan_def)
qed

theorem link_plan_defined_witness:
  "\<exists>names plan. getArray example_manifest ''targets'' = Some (map JString names) \<and>
    readLinkPlan example_manifest example_files = Some plan \<and> dom (smap_at plan) = set names"
  by (rule link_plan_defined [OF example_package example_wf])

text \<open>
  C4: publication round trip. The plan \<open>createArtifact\<close> derives when none is given covers exactly, and
  \<open>readCompilationPlan\<close> reads it back unchanged from the manifest it is written to.
\<close>

theorem default_plan_roundtrip:
  assumes "distinct targets" "length modules \<le> 2 ^ 63"
    and "\<forall>m \<in> set modules. am_optimization m \<in> set optimization_levels \<and>
      (if kind = ''static'' then validArchiveMember (am_archiveMember m) else am_archiveMember m = [])"
    and "\<forall>m \<in> set modules. distinct (effective_targets targets m) \<and> effective_targets targets m \<noteq> []"
  shows "publishable kind targets modules (default_plan targets modules) \<and>
    readCompilationPlan (base_manifest c kind modules libraries linkOptions targets (default_plan targets modules)) =
      Inr (default_plan targets modules)"
  using default_plan_publishable [OF assms(1,3)] publishable_roundtrip [OF _ assms(1,2,4)] by blast

theorem default_plan_roundtrip_witness:
  "readCompilationPlan (base_manifest example_codec ''static''
      [\<lparr>am_bytecode = ''b'', am_optimization = ''Os'', am_archiveMember = ''a.o'', am_targets = [''armv7'']\<rparr>]
      [] [] [''x86_64'', ''armv7'']
      (default_plan [''x86_64'', ''armv7'']
        [\<lparr>am_bytecode = ''b'', am_optimization = ''Os'', am_archiveMember = ''a.o'', am_targets = [''armv7'']\<rparr>])) =
    Inr (default_plan [''x86_64'', ''armv7'']
        [\<lparr>am_bytecode = ''b'', am_optimization = ''Os'', am_archiveMember = ''a.o'', am_targets = [''armv7'']\<rparr>])"
  by (rule default_plan_roundtrip [THEN conjunct2])
    (simp_all add: optimization_levels_def validArchiveMember_def file_char_def alnum_def in_range_def effective_targets_def)

text \<open>
  Normalizing a version script is idempotent and removes every comment: the published text holds
  only the qualified characters, is no longer than its source and is accepted unchanged by the
  package validation.
\<close>

lemma version_script_normal_form:
  assumes "normalizeVersionScript text = Inr out"
  shows "normalizeVersionScript out = Inr out \<and> list_all script_char out \<and> length out \<le> length text"
  using normalizeVersionScript_idem [OF assms] normalizeVersionScript_Inr [OF assms] by blast

text \<open>
  C5: reading a package is bounded and safe. Whatever headers and reads the archive library yields,
  an accepted package has at most \<open>MaxFiles\<close> files of at most \<open>MaxBytes\<close> bytes in total, in key
  order without duplicates, each under a relative name without a parent reference.
\<close>

theorem read_package_bounded:
  assumes "readPackage entries status = Inr files"
  shows "smap_wf files \<and> length files \<le> MaxFiles \<and> sum_list (map (length \<circ> snd) files) \<le> MaxBytes \<and>
    list_all (safe_name \<circ> fst) files"
  using readPackage_inv [OF assms] by (auto simp: package_inv_def)

theorem read_package_bounded_witness:
  "length [(''a'', ''xy'')] \<le> MaxFiles"
proof -
  have "readPackage [\<lparr>ae_pathname = Some ''a'', ae_regular = True, ae_symlink = False, ae_hardlink = False,
      ae_size = 2, ae_reads = [Some ''x'', Some ''y'']\<rparr>] None = Inr [(''a'', ''xy'')]"
    by (simp add: readPackage_def read_header_def entry_name_ok_def is_absolute_def starts_with_def
        lexically_normal_def MaxBytes_def MaxFiles_def smap_emplace_def)
  from read_package_bounded [OF this] show ?thesis by blast
qed

section \<open>Target selection\<close>

text \<open>
  C6: selecting publication targets. Any nonempty list of distinct known targets, written as the
  text the driver passes on, is read back as exactly these targets in registry order.
\<close>

theorem selection_roundtrip:
  assumes "requested \<noteq> []" "distinct requested" "set requested \<subseteq> set all_target_ids"
  shows "parseTargetSelection (targetSelectionText requested) = Inr (filter (\<lambda>i. i \<in> set requested) all_target_ids) \<and>
    publicationTargets requested env = parseTargetSelection (targetSelectionText requested)"
  using reg.parse_text_roundtrip [OF assms] publicationTargets_explicit [OF assms(1,3)]
  by (simp add: parseTargetSelection_def)

theorem selection_roundtrip_witness:
  "parseTargetSelection (targetSelectionText [''armv7'', ''x86_64'']) = Inr [''x86_64'', ''armv7'']"
  using selection_roundtrip [of "[''armv7'', ''x86_64'']"] by (simp add: all_target_ids_eq)

text \<open>
  A selection text is accepted exactly when its comma-separated fields are distinct known
  targets; the result is the selected part of the registry, in registry order.
\<close>

lemma selection_accepts:
  "parseTargetSelection text = Inr r \<longleftrightarrow>
     distinct (split_on CHR '','' text) \<and> set (split_on CHR '','' text) \<subseteq> set all_target_ids \<and>
     r = filter (\<lambda>i. i \<in> set (split_on CHR '','' text)) all_target_ids"
  unfolding parseTargetSelection_def by (rule reg.parse_selection_iff)

section \<open>Files, processes and native links\<close>

text \<open>
  C7: a bounded read is exact. Interruptions of any system call do not change the outcome, and
  bytes are returned only for a regular file whose size before and after the read is their number,
  within the limit.
\<close>

theorem bounded_read_exact:
  "read_file path limit (calm os) = read_file path limit os \<and>
   (\<forall>bytes. read_file path limit os = Some (Inr bytes) \<longrightarrow>
      length bytes \<le> limit \<and>
      (\<exists>before after stats rest. opened_status path (os_fstat os) = Some (Inr before, stats) \<and>
         opened_status path stats = Some (Inr after, rest) \<and> st_regular before \<and>
         st_size before = int (length bytes) \<and> st_size after = int (length bytes)))"
proof (intro conjI allI impI)
  show "read_file path limit (calm os) = read_file path limit os" by (rule read_file_calm)
next
  fix bytes assume r: "read_file path limit os = Some (Inr bytes)"
  then show "length bytes \<le> limit" by (rule read_file_success)
  from r show "\<exists>before after stats rest. opened_status path (os_fstat os) = Some (Inr before, stats) \<and>
         opened_status path stats = Some (Inr after, rest) \<and> st_regular before \<and>
         st_size before = int (length bytes) \<and> st_size after = int (length bytes)"
    by (rule read_file_success) blast
qed

definition example_script :: os_script where
  "example_script = \<lparr>os_open = [Interrupted, Returned ()],
     os_fstat = [Returned \<lparr>st_regular = True, st_size = 2\<rparr>, Returned \<lparr>st_regular = True, st_size = 2\<rparr>],
     os_read = [Interrupted, Returned ''a'', Returned ''b'', Returned []]\<rparr>"

theorem bounded_read_exact_witness:
  "read_file ''f'' 10 example_script = Some (Inr ''ab'') \<and> read_file ''f'' 10 (calm example_script) = Some (Inr ''ab'')"
proof -
  have "read_file ''f'' 10 example_script = Some (Inr ''ab'')"
    by (simp add: read_file_def example_script_def opened_status_def read_tail_def read_chunk_def)
  with bounded_read_exact [of "''f''" 10 example_script] show ?thesis by simp
qed








section \<open>Target-dependent attributes and types\<close>

text \<open>
  C11: a choice loses nothing. For distinct targets, \<open>selectAttribute\<close> on the choice that
  \<open>targetChoice\<close> builds gives back every observed value (that is not itself a choice).
\<close>

theorem choice_selects_observation:
  assumes "distinct (map fst obs)" "(t, v) \<in> set obs" "\<not> is_choice v"
  shows "selectAttribute (targetChoice obs) t = Inr v"
  using assms by (rule targetChoice_select)

theorem choice_selects_observation_witness:
  "selectAttribute (targetChoice [(''x86_64'', IntegerA 64 8), (''i686'', IntegerA 64 4), (''armv7'', IntegerA 64 4)])
     ''armv7'' = Inr (IntegerA 64 4)"
  by (rule choice_selects_observation) simp_all

text \<open>
  A choice invents nothing. On a target that was not observed, a choice between at least two
  different values is undefined; it never falls back to another target's value.
\<close>

lemma choice_undefined_elsewhere:
  assumes "t \<notin> fst ` set obs" "(t1, v1) \<in> set obs" "(t2, v2) \<in> set obs" "v1 \<noteq> v2"
  shows "selectAttribute (targetChoice obs) t = Inl (undefined_for t)"
  using assms by (rule targetChoice_undefined)

lemma choice_undefined_elsewhere_example:
  "selectAttribute (targetChoice [(''x86_64'', IntegerA 64 8), (''i686'', IntegerA 64 4)]) ''armv7'' =
     Inl (undefined_for ''armv7'')"
  by (rule choice_undefined_elsewhere [of _ _ "''x86_64''" "IntegerA 64 8" "''i686''" "IntegerA 64 4"]) simp_all



text \<open>
  C13: the two nesting bounds differ by one. Validation accepts up to 64 nested choices around a
  leaf, selection resolves up to 63: with exactly 64, a validated attribute cannot be selected.
\<close>

theorem nesting_bounds:
  "(checkAttribute (nested_choice k t) {t} 0 = Inr () \<longleftrightarrow> k \<le> 64) \<and>
   (selectAttribute (Some (nested_choice k t)) t = Inr UnitA \<longleftrightarrow> k \<le> 63)"
  by (auto simp: nested_choice_check selectAttribute_def nested_choice_select simp del: select_loop.simps)

text \<open>
  C14: specializing a type is complete and idempotent. The result mentions neither a word nor a
  choice, every array extent is a 64-bit literal, every overlap has only alternatives of the target,
  and specializing it again changes nothing.
\<close>

theorem specialized_type_concrete:
  assumes "specializeType type target = Inr r"
  shows "concrete_type (target_id target) r \<and> specializeType r target = Inr r"
  using specializeType_concrete [OF assms] specializeType_idempotent [OF assms] ..

theorem specialized_type_concrete_witness:
  "specializeType (ArrayT (IntegerT 64) (IntegerA 64 8)) info_x86_64 = Inr (ArrayT (IntegerT 64) (IntegerA 64 8))"
proof -
  have "specializeType (ArrayT WordT (StringA ''pointer_bytes'')) info_x86_64 =
      Inr (ArrayT (IntegerT 64) (IntegerA 64 8))"
    by (simp add: specializeType.simps evaluateInteger_def selectAttribute_plain)
  from specialized_type_concrete [OF this] show ?thesis by blast
qed

section \<open>Conditional control flow and whole modules\<close>

text \<open>A function whose second block exists for one target only, reached by a conditional switch case.\<close>

definition example_function :: op where
  "example_function = Op ''sela.func''
     [(''block_domains'', ArrayA [targetSet [''armv7'', ''x86_64''], targetSet [''armv7'']]),
      (''id'', StringA ''f'')] [] [] []
     [[Block 0 [(0, WordT, True)]
         [Op ''sela.switch'' [(''argument_counts'', DenseI32A [0, 0]), (''case_domains'', ArrayA [targetSet [''armv7'']]),
            (''cases'', ArrayA [IntegerA 32 1])] [0] [] [0, 1] [] True],
       Block 1 [] [Op ''sela.unreachable'' [] [] [] [] [] True]]] True"

definition example_module :: op where
  "example_module = module_op [(''sela.schema'', IntegerA 64 1), (''sela.targets'', targetSet [''armv7'', ''x86_64''])]
     [example_function]"

lemma example_targets: "declaredTargets example_module = Inr [''armv7'', ''x86_64'']"
  by (simp add: example_module_def module_op_def declaredTargets_def op_get_def get_as_def targetSet_def)

lemma example_verify: "verifyTargetDomains example_module = Inr ()"
  unfolding verifyTargetDomains_def example_targets
  by (simp add: example_function_def example_module_def module_op_def walk_module_def walk_op.simps check_visit_def
      definition_domain_def definition_of_def op_attr_def op_get_def get_as_def block_domain_def checkSet_def
      targetSet_def set_members_def List.map_filter_def check_inventory_def checkAttribute.simps op_types_def
      checkType.simps)

text \<open>The function for \<open>x86_64\<close>: the conditional block and its edge are gone.\<close>

definition example_function_x86 :: op where
  "example_function_x86 = Op ''sela.func'' [(''id'', StringA ''f'')] [] [] []
     [[Block 0 [(0, WordT, True)]
         [Op ''sela.switch'' [(''argument_counts'', DenseI32A [0]), (''cases'', ArrayA [])] [0] [] [0] [] True]]] True"

lemma example_cfg: "specializeConditionalCFG (\<lambda>_. True) example_module ''x86_64'' = Inr (set_body [example_function_x86] example_module)"
proof -
  have "specialize_function [''armv7'', ''x86_64''] ''x86_64'' example_function = Inr example_function_x86"
    by (simp add: example_function_def example_function_x86_def specialize_function_def op_attr_def op_get_def
        get_as_def specialize_region_def region_domains_def targetSet_def containsTarget_def set_members_def
        List.map_filter_def specialize_block_switches_def specialize_switch_def switch_edge_def block_active_def
        check_survivor_def value_block_def defines_value_def dict_erase_def dict_set_def set_regions_def set_attrs_def
        less_char_def)
  then show ?thesis
    unfolding specializeConditionalCFG_def example_targets
    by (simp add: example_verify) (simp add: example_module_def example_function_def op_attr_def)
qed

text \<open>
  C15: the specialized control-flow graph is closed. In every function of the result no block
  inventory is left, every successor of every operation is a block of the function, and every
  operand is defined in it: dropping the inactive blocks leaves no dangling edge or value.
\<close>

theorem specialized_cfg_closed:
  assumes "specializeConditionalCFG verifies source selected = Inr m" "f \<in> set (body_ops m)" "op_name f = ''sela.func''"
  shows "op_attr f ''block_domains'' = None \<and> (\<exists>region. op_regions f = [region] \<and> closed_region region)"
  using assms by (rule specializeConditionalCFG_closed)

theorem specialized_cfg_closed_witness:
  "op_attr example_function_x86 ''block_domains'' = None \<and>
   (\<exists>region. op_regions example_function_x86 = [region] \<and> closed_region region)"
  by (rule specialized_cfg_closed [OF example_cfg])
    (simp_all add: example_module_def module_op_def set_body_def set_regions_def body_ops_def example_function_x86_def)

text \<open>
  C16: a conditional switch keeps exactly its active edges. The successors, case values, argument
  counts and arguments of the specialized switch are those of the edges whose domain contains the
  target, in the original order; the default edge is always kept.
\<close>

theorem specialized_switch_edges:
  assumes "specialize_switch targets selected bd b x = Inr y"
    and "op_get as_array x ''cases'' = Some cases" "op_get as_i32s x ''argument_counts'' = Some counts"
    and "smap_wf (op_attrs x)"
  shows "\<exists>kept. kept = filter (edge_active targets selected (Option.bind (op_attr x ''case_domains'') as_array)) [0..<length counts] \<and>
    op_succs y = map ((!) (op_succs x)) kept \<and>
    op_get as_array y ''cases'' = Some (map (\<lambda>i. cases ! (i - 1)) (filter (\<lambda>i. i \<noteq> 0) kept)) \<and>
    op_get as_i32s y ''argument_counts'' = Some (map ((!) counts) kept) \<and>
    op_operands y = hd (op_operands x) # concat (map ((!) (segments counts (drop 1 (op_operands x)))) kept)"
  using assms by (rule specialize_switch_edges)

definition example_switch :: op where
  "example_switch = Op ''sela.switch'' [(''argument_counts'', DenseI32A [0, 1, 1]),
     (''case_domains'', ArrayA [targetSet [''armv7''], targetSet [''armv7'', ''x86_64'']]),
     (''cases'', ArrayA [IntegerA 32 1, IntegerA 32 2])] [7, 8, 9] [] [0, 1, 2] [] True"

theorem specialized_switch_edges_witness:
  "\<exists>y. specialize_switch [''armv7'', ''x86_64''] ''x86_64''
       [(0, targetSet [''armv7'', ''x86_64'']), (1, targetSet [''armv7'']), (2, targetSet [''armv7'', ''x86_64''])]
       0 example_switch = Inr y \<and> op_succs y = [0, 2] \<and> op_operands y = [7, 9]"
proof -
  let ?bd = "[(0, targetSet [''armv7'', ''x86_64'']), (1, targetSet [''armv7'']), (2, targetSet [''armv7'', ''x86_64''])]"
  have "\<exists>y. specialize_switch [''armv7'', ''x86_64''] ''x86_64'' ?bd 0 example_switch = Inr y"
    by (simp add: specialize_switch_def example_switch_def op_get_def get_as_def op_attr_def switch_edge_def)
  then obtain y where y: "specialize_switch [''armv7'', ''x86_64''] ''x86_64'' ?bd 0 example_switch = Inr y" ..
  have "op_get as_array example_switch ''cases'' = Some [IntegerA 32 1, IntegerA 32 2]"
    "op_get as_i32s example_switch ''argument_counts'' = Some [0, 1, 1]" "smap_wf (op_attrs example_switch)"
    by (simp_all add: example_switch_def op_get_def get_as_def smap_wf_def less_char_def)
  from specialized_switch_edges [OF y this] obtain kept where k:
    "kept = filter (edge_active [''armv7'', ''x86_64''] ''x86_64''
       (Option.bind (op_attr example_switch ''case_domains'') as_array)) [0..<length [0 :: int, 1, 1]]"
    "op_succs y = map ((!) (op_succs example_switch)) kept"
    "op_operands y = hd (op_operands example_switch) #
       concat (map ((!) (segments [0, 1, 1] (drop 1 (op_operands example_switch)))) kept)" by blast
  have "kept = [0, 2]"
    unfolding k(1) by (simp add: upt_rec edge_active_def example_switch_def op_attr_def)
  with y k(2,3) show ?thesis by (simp add: example_switch_def numeral_2_eq_2)
qed

text \<open>
  C17: a module specialized to a target is resolved. No value and no attribute of any operation of
  the result, at any nesting depth, mentions a choice, a word or an unselected alternative.
\<close>

theorem specialized_module_resolved:
  assumes "specializeDomains verifies m target = Inr r"
  shows "resolved_op (target_id target) r"
  using assms by (rule specializeDomains_resolved)

lemma example_specialized:
  "\<exists>r. specializeDomains (\<lambda>_. True) example_module info_x86_64 = Inr r"
  unfolding specializeDomains_def example_targets
  by (simp add: example_cfg)
    (simp add: example_module_def module_op_def set_body_def set_regions_def example_function_x86_def
      specialize_op.simps specialize_op_here_def specialize_entry_def specializeAttribute.simps
      selectAttribute_plain targetSet_def type_errors_def List.map_filter_def value_types_def specializeType.simps
      numeric_field_def Let_def)

theorem specialized_module_resolved_witness:
  "\<exists>r. specializeDomains (\<lambda>_. True) example_module info_x86_64 = Inr r \<and> resolved_op ''x86_64'' r"
proof -
  obtain r where r: "specializeDomains (\<lambda>_. True) example_module info_x86_64 = Inr r"
    using example_specialized by blast
  from specialized_module_resolved [OF r] r show ?thesis by auto
qed

section \<open>Merging the modules of the targets\<close>

text \<open>
  C18: the merged module is every target's module. Whenever the modules of several targets merge, the
  definitions of each are those of the merged module, read at that target: attributes and types specialize to
  its own up to shared storage names, the active blocks of a function are its blocks in their order with the
  same arguments, and their operations are its operations over its values and successors, but for casts that are
  the identity there; of a switch exactly its own cases are active, in their order.
\<close>

theorem merged_module_projects:
  assumes "mergeCommonModules verifies verify modules ids = Inr (y, maps)" "registered ids"
    "\<forall>i < length ids. producer_module (ids ! i) (modules ! i)"
  shows "\<exists>s. mi_maps s = maps \<and> (\<forall>i < length ids. \<exists>xs. mset xs = mset (body_ops (modules ! i)) \<and>
    list_all2 (definition_at ids s i) (body_ops y) xs)"
proof -
  from assms(1) obtain m where "merge_modules verifies ids modules = Inr (y, m)" "maps = mi_maps (mg_ids m)"
    "modules \<noteq> []" "length modules = length ids"
    by (auto simp: mergeCommonModules_def bindE_Inr_iff split: if_splits)
  moreover from this(3,4) have "ids \<noteq> []" by auto
  ultimately show ?thesis using merge_modules_ok assms(2,3) by blast
qed

theorem merged_module_projects_witness:
  "\<exists>y s xs. mergeCommonModules (\<lambda>_. True) (\<lambda>_. True) [merge_x86, merge_i686] merge_ids = Inr (y, mi_maps s) \<and>
     mset xs = mset (body_ops merge_i686) \<and> list_all2 (definition_at merge_ids s 1) (body_ops y) xs"
proof -
  have "\<forall>i < length merge_ids. producer_module (merge_ids ! i) ([merge_x86, merge_i686] ! i)"
    using merge_native by (simp add: merge_ids_def All_less_Suc)
  note r = merged_module_projects [OF merge_example merge_registered this]
  have "1 < length merge_ids" "[merge_x86, merge_i686] ! 1 = merge_i686" by (simp_all add: merge_ids_def)
  with r obtain s xs where "mi_maps s = [[], []]" "mset xs = mset (body_ops merge_i686)"
    "list_all2 (definition_at merge_ids s 1) (body_ops (module_op (merged_attrs merge_ids []) [merged_function, merged_constant])) xs"
    by metis
  then show ?thesis using merge_example by metis
qed

text \<open>
  C19: the shared order of blocks and switch cases is found whenever there is one. Given one order per target,
  \<open>common_order\<close> lists every node once such that the nodes of each target stand in that target's order, and it
  fails only where no list does.
\<close>

theorem common_order_exact:
  assumes "\<forall>xs \<in> set orders. set xs \<subseteq> {..<n}"
  shows "case common_order n orders of
      None \<Rightarrow> \<not> (\<exists>ordered. extends_orders n orders ordered)
    | Some ordered \<Rightarrow> extends_orders n orders ordered"
  using assms by (rule common_order_ok)

theorem common_order_exact_witness:
  "extends_orders 3 [[0, 2], [1, 2]] [0, 1, 2] \<and> \<not> (\<exists>ordered. extends_orders 2 [[0, 1], [1, 0]] ordered)"
proof -
  have "common_order 3 [[0, 2], [1, 2]] = Some [0, 1, 2]" "common_order 2 [[0, 1], [1, 0]] = None" by code_simp+
  then show ?thesis
    using common_order_exact [of "[[0, 2], [1, 2]]" 3] common_order_exact [of "[[0, 1], [1, 0]]" 2] by simp
qed

text \<open>
  C20: a merged type stands for the types it was merged from. Specializing it to any of its targets succeeds and
  yields the type observed there, with the storage identities of that target renamed one to one; identities
  already shared keep their names.
\<close>

theorem merged_type_specializes:
  assumes "merge_type ids observations s = Inr (t, s')" "observed ids observations" "native_types ids observations"
    "identities_ok (length ids) s"
  shows "identities_ok (length ids) s' \<and> extends_identities s s' \<and> stands_for ids observations t s'"
  using assms by (rule merge_type_ok)

theorem merged_type_specializes_witness:
  "\<exists>v. specializeType WordT info_i686 = Inr v \<and> shared_type \<lparr>mi_maps = [[], []], mi_next = 0\<rparr> 1 (IntegerT 32) v"
proof -
  let ?obs = "[(0, IntegerT 64), (1, IntegerT 32)]" and ?s = "\<lparr>mi_maps = [[], []], mi_next = 0\<rparr>"
  have "merge_type merge_ids ?obs ?s = Inr (WordT, ?s)" by code_simp
  moreover have "observed merge_ids ?obs" "native_types merge_ids ?obs" "identities_ok (length merge_ids) ?s"
    by (simp_all add: observed_def native_types_def identities_ok_def merge_ids_def)
  ultimately have "stands_for merge_ids ?obs WordT ?s" using merged_type_specializes by blast
  then show ?thesis by (simp add: stands_for_def merge_ids_def)
qed

section \<open>Admission of a module\<close>


text \<open>A module with one global, and an LLVM that knows nothing.\<close>

definition example_global :: op where
  "example_global = Op ''sela.global'' [(''element'', TypeA (IntegerT 32)), (''id'', StringA ''g'')] [] [] [] [] True"

definition example_data :: op where
  "example_data = module_op [(''sela.schema'', IntegerA 64 1), (''sela.targets'', targetSet [''armv7''])] [example_global]"

definition example_api :: llvm_api where
  "example_api = \<lparr>getAttrKindFromName = \<lambda>_. KindNone, isTypeAttrKind = \<lambda>_. False, isIntAttrKind = \<lambda>_. False,
     isEnumAttrKind = \<lambda>_. False, binaryOpcodes = [], isPossiblyExactOpcode = \<lambda>_. False,
     isComparePredicate = \<lambda>_. False, parseConstraints = \<lambda>_. []\<rparr>"

lemma example_data_walk: "walk_module example_data = [(example_global, [(example_data, 0, 0)]), (example_data, [])]"
  by (simp add: walk_module_def walk_op.simps [of "[]"] walk_op.simps [of "_ # _"] example_data_def module_op_def
      example_global_def)

lemma example_schema: "validateSchema example_api example_data = Inr ()"
proof -
  have types: "validatePublicTypes example_data = Inr ()"
    by (simp add: validatePublicTypes_def module_types_def example_data_walk)
      (simp add: example_data_def module_op_def example_global_def op_types_def targetSet_def
        check_public_type_def visit_type.simps)
  show ?thesis
    unfolding validateSchema_def Let_def example_data_walk types
    by (simp add: example_data_def module_op_def example_global_def op_get_def op_attr_def get_as_def get_int_def
        collect_symbol_def body_ops_def schema_op_def schema_op_steps_def appending_step_def intrinsic_step_def
        stop_if_def stop_on_def note_if_def validateExtendedInstruction_def allowed_fields_def required_step_def
        required_fields_def attribute_step_def boolean_fields_def string_fields_def walk_attrs.simps nested_step_def
        targetSet_def binary_step_def cast_step_def compare_step_def loop_step_def argument_locations_step_def)
qed


text \<open>
  C22: accepted public types are bounded and their storage identities are unambiguous. All types an
  accepted module mentions are public types over one assignment of types to identities, so two
  records or overlaps of the same identity are the same type, wherever they are nested.
\<close>

theorem public_types_consistent:
  assumes "validatePublicTypes m = Inr ()"
  shows "\<exists>ids. \<forall>t \<in> set (module_types m). public_type ids t"
  using assms by (rule validatePublicTypes_sound)

theorem public_types_consistent_witness:
  "\<exists>ids. \<forall>t \<in> set (module_types example_data). public_type ids t"
  by (rule public_types_consistent [OF validateSchema_Inr(2) [OF example_schema]])

text \<open>
  C23: structural admission is good for every declared target. If \<open>verifyModuleStructure\<close> accepts a
  module, then for each of its targets specialization succeeds, its result is fully resolved, passes
  the closed schema, and mentions only consistent public types.
\<close>

theorem admitted_for_every_target:
  assumes "verifyModuleStructure api verifies m = Inr ()" "declaredTargets m = Inr ids" "i \<in> set ids"
  shows "\<exists>info r. targets_find i = Some info \<and> specializeDomains verifies m info = Inr r \<and>
    resolved_op i r \<and> validateSchema api r = Inr () \<and> (\<exists>tys. \<forall>t \<in> set (module_types r). public_type tys t)"
proof -
  from verifyModuleStructure_specializes [OF assms] obtain info r where
    r: "targets_find i = Some info" "specializeDomains verifies m info = Inr r" "validateSchema api r = Inr ()" by blast
  from specializeDomains_resolved [OF r(2)] targets_find_id [OF r(1)] have "resolved_op i r" by simp
  with r validateSchema_types [OF r(3)] show ?thesis by blast
qed

lemma example_data_targets: "declaredTargets example_data = Inr [''armv7'']"
  by (simp add: example_data_def module_op_def declaredTargets_def op_get_def get_as_def targetSet_def)

lemma example_data_domains: "verifyTargetDomains example_data = Inr ()"
  unfolding verifyTargetDomains_def example_data_targets example_data_walk
  by (simp add: example_global_def example_data_def module_op_def check_visit_def definition_domain_def
      definition_of_def op_attr_def op_get_def get_as_def block_domain_def check_inventory_def checkAttribute.simps
      targetSet_def op_types_def checkType.simps)

lemma example_data_specialized: "specializeDomains (\<lambda>_. True) example_data info_armv7 = Inr example_data"
proof -
  have "specializeConditionalCFG (\<lambda>_. True) example_data ''armv7'' = Inr example_data"
    unfolding specializeConditionalCFG_def example_data_targets
    by (simp add: example_data_domains)
      (simp add: example_data_def module_op_def example_global_def body_ops_def op_attr_def set_body_def set_regions_def)
  moreover have "specialize_op info_armv7 0 example_data = Inr example_data"
    by (simp add: example_data_def module_op_def example_global_def
      specialize_op.simps specialize_op_here_def specialize_entry_def specializeAttribute.simps
      selectAttribute_plain targetSet_def type_errors_def List.map_filter_def value_types_def specializeType.simps
      numeric_field_def Let_def set_regions_def rewrite_block_args_def)
  ultimately show ?thesis
    unfolding specializeDomains_def example_data_targets
    by simp (simp add: example_data_def module_op_def set_attrs_def dict_set_def targetSet_def less_char_def)
qed

theorem admitted_for_every_target_witness:
  "verifyModuleStructure example_api (\<lambda>_. True) example_data = Inr () \<and> resolved_op ''armv7'' example_data"
proof -
  have v: "verifyModuleStructure example_api (\<lambda>_. True) example_data = Inr ()"
    unfolding verifyModuleStructure_def
    by (simp add: example_data_domains example_data_targets example_data_specialized example_schema)
  from admitted_for_every_target [OF v example_data_targets, of "''armv7''"] show ?thesis
    by (simp add: v example_data_specialized)
qed

text \<open>
  The two literal predicates of the code are the same function, and every literal they accept
  within the nesting bound is an accepted initializer, so a conditional array tail is always a valid
  initializer where it is present.
\<close>

lemma literal_predicates_agree:
  assumes "literalTail a" "literal_depth a + depth \<le> 64"
  shows "pureLiteral a \<and> validateInitializer (Some a) depth = Inr ()"
  using assms pureLiteral_initializer [of a depth] by (simp add: pureLiteral_literalTail)

text \<open>
  The intrinsic registry is a bijection between Sela names and LLVM identities: looking an
  entry up by either finds it, so lowering an intrinsic and importing it back is the identity.
\<close>

lemma intrinsic_lookup_inverse:
  "findIntrinsic n = Some e \<longleftrightarrow> in_name e = n \<and> findIntrinsicId (in_llvmID e) = Some e"
  by (auto simp: findIntrinsic_iff findIntrinsicId_iff)

text \<open>
  A summary counts every Sela operation once, as a function, a global or another operation.
\<close>

lemma summary_counts_operations:
  "sum_functions (summarize m) + sum_globals (summarize m) + sum_operations (summarize m) =
   length (filter (\<lambda>v. starts_with ''sela.'' (op_name (fst v))) (walk_module m))"
  by (rule summarize_counts)

section \<open>Native ABI\<close>

text \<open>
  C24: the native pieces of a value never reach beyond its storage. Whenever the loads of a descriptor
  are emitted, the bytes they read follow one another in ascending order, without overlap, and end
  inside the allocation of the storage type, also where the last register is wider than the object.
\<close>

theorem native_loads_in_storage:
  assumes "layout_ok (as_layout site)" "loadNativeABIPieces site v al = Inr vs"
  shows "ordered_within 0 (concat (map (loads_of (as_layout site)) vs))
    (getTypeAllocSize (as_layout site) (nv_storageType v))"
  using assms by (rule load_accesses_in_storage)

definition example_site :: access_site where
  "example_site = \<lparr>as_inModule = True, as_ordinaryPointer = True, as_sameContext = True,
     as_layout = natural_layout, as_defaultLayout = False\<rparr>"

definition example_coerced :: NativeABIValue where
  "example_coerced = (native_value (StructTy ''three'' False [IntTy 8, IntTy 8, IntTy 8]) 3 1)
     \<lparr>nv_kind := Coerce, nv_pieces := [piece (IntTy 32) 0], nv_nativeCount := 1\<rparr>"

lemma example_coerced_access: "validateAccess example_site example_coerced 4 = Inr ()"
  by (simp add: validateAccess_def example_site_def example_coerced_def native_value_def Let_def align_eval
    check_piece_def validPieceType.simps [of _ "IntTy w" for w] validPieceExtent.simps [of _ "IntTy w" for w]
    nativePieceScalar_def scalar_def MaximumAlignment_def)

lemma example_coerced_load: "loadNativeABIPieces example_site example_coerced 4 = Inr [ZExtV (LoadV (IntTy 24) 0 4) (IntTy 32)]"
  by (simp add: loadNativeABIPieces_def example_coerced_access)
    (simp add: example_site_def example_coerced_def native_value_def loadPiece.simps [of _ _ _ "IntTy w" for w] Let_def
      align_eval)

theorem native_loads_in_storage_witness:
  "ordered_within 0 (loads_of natural_layout (ZExtV (LoadV (IntTy 24) 0 4) (IntTy 32))) 3"
proof -
  have "layout_ok (as_layout example_site)" using natural_layout_ok by (simp add: example_site_def arm_layout_ok_def)
  from native_loads_in_storage [OF this example_coerced_load] show ?thesis
    by (simp add: example_site_def example_coerced_def native_value_def align_eval)
qed

text \<open>
  C25: loading and storing the pieces of a value are inverse in what they touch: wherever the stores
  are emitted the loads are too, and the two visit the same bytes in the same order.
\<close>

theorem native_stores_as_loads:
  assumes "storeNativeABIPieces site v al operands = Inr stores"
  shows "\<exists>vs. loadNativeABIPieces site v al = Inr vs \<and>
    map (store_of (as_layout site)) stores = concat (map (loads_of (as_layout site)) vs)"
  using assms by (rule store_accesses_as_load)

theorem native_stores_as_loads_witness:
  "\<exists>vs. loadNativeABIPieces example_site example_coerced 4 = Inr vs \<and>
    [(0, 3)] = concat (map (loads_of natural_layout) vs)"
proof -
  have st: "storeNativeABIPieces example_site example_coerced 4 [Some (IntTy 32)] =
      Inr [StoreV (TruncV (ArgV 0) (IntTy 24)) (IntTy 24) 0 4]"
    by (simp add: storeNativeABIPieces_def example_coerced_access)
      (simp add: example_site_def example_coerced_def native_value_def storePiece.simps [of _ _ _ "IntTy w" for w]
        Let_def align_eval)
  from native_stores_as_loads [OF this] show ?thesis by (simp add: example_site_def)
qed

text \<open>
  C26: the System V signature of ordered records is laid out without gaps. The result and every
  parameter has a classified value for its logical type; the native parameters are the hidden result
  pointer, where there is one, followed by those of each value in order, each value recording the
  position of its own; and no more registers are left than there are.
\<close>

theorem sysv_signature_laid_out:
  assumes "classifyNativeABI c (Some f) records = Inr sg" "layout_ok (nc_layout c)"
  shows "classified (nc_layout c) (ft_result f) True (ns_result sg) \<and>
    list_all2 (\<lambda>t. classified (nc_layout c) t False) (ft_params f) (ns_parameters sg) \<and>
    ft_params (ns_nativeType sg) = (if nv_sRet (ns_result sg) then [opaque_pointer] else []) @
      concat (map sysv_physical (ns_parameters sg)) \<and>
    contiguous (if nv_sRet (ns_result sg) then 1 else 0) (ns_parameters sg) (length (ft_params (ns_nativeType sg))) \<and>
    ns_remainingGP sg \<le> 6 \<and> ns_remainingSSE sg \<le> 8"
  using assms by (rule classifyNativeABI_laid_out)

theorem sysv_signature_laid_out_witness:
  "\<exists>sg. classifyNativeABI example_x64 (Some pair_function) {example_pair} = Inr sg \<and>
     ft_params (ns_nativeType sg) = [DoubleTy, IntTy 64, PtrTy 0] \<and> contiguous 0 (ns_parameters sg) 3"
proof -
  from example_classifyNativeABI obtain sg where sg: "classifyNativeABI example_x64 (Some pair_function) {example_pair} = Inr sg"
    "ft_params (ns_nativeType sg) = [DoubleTy, IntTy 64, PtrTy 0]" "\<not> nv_sRet (ns_result sg)" by blast
  have "layout_ok (nc_layout example_x64)" using natural_layout_ok by (simp add: arm_layout_ok_def)
  from sysv_signature_laid_out [OF sg(1) this] sg show ?thesis by (simp add: numeral_3_eq_3)
qed

text \<open>
  C27: a record parameter is passed in registers entirely or not at all (x86-64). A value that is not
  indirect either has enough free general and SSE registers for all its pieces, or no general register
  is left and it is a single integer of its size, which goes to the stack; and its pieces can be
  accessed in its storage.
\<close>

theorem registers_all_or_nothing:
  assumes "layout_ok (nc_layout c)" "nc_word64 c" "isStructTy t" "classify c records t False gp sse {} = Inr (v, seen)"
  shows "nv_kind v = Indirect \<or> accessible (nc_layout c) v \<and>
    (piece_gp (nv_pieces v) \<le> gp \<and> piece_sse (nv_pieces v) \<le> sse \<or>
     gp = 0 \<and> nv_storageSize v \<le> 8 \<and> nv_pieces v = [piece (IntTy (nv_storageSize v * 8)) 0])"
  using classify_classified [OF assms(1) _ assms(4)] assms(2,3)
  by (auto simp: classified_def fits_registers_def)

theorem registers_all_or_nothing_witness:
  "accessible natural_layout example_registers \<and> piece_gp (nv_pieces example_registers) \<le> 1"
proof -
  have lay: "layout_ok (nc_layout example_x64)" using natural_layout_ok by (simp add: arm_layout_ok_def)
  from registers_all_or_nothing [OF lay _ _ example_classify [of 1 1]] show ?thesis
    by (simp add: example_pair_layout) (simp add: example_registers_def native_value_def)
qed

text \<open>
  C28: a function of scalars keeps its type. The classification of a signature whose parameters and
  result are scalars (or a void result) never fails, and the native function type is the logical one.
\<close>

theorem scalar_signature_unchanged:
  assumes "\<forall>t \<in> set (ft_params f). scalar t False" "ft_result f = VoidTy \<or> scalar (ft_result f) False"
  shows "\<exists>sg. classifyNativeABI c (Some f) records = Inr sg \<and> ns_nativeType sg = f"
  using assms by (rule scalar_function_type)

theorem scalar_signature_unchanged_witness:
  "\<exists>sg. classifyNativeABI example_x64 (Some \<lparr>ft_result = VoidTy, ft_params = [IntTy 32, DoubleTy], ft_vararg = True\<rparr>) {} = Inr sg \<and>
     ns_nativeType sg = \<lparr>ft_result = VoidTy, ft_params = [IntTy 32, DoubleTy], ft_vararg = True\<rparr>"
  using scalar_signature_unchanged [of "\<lparr>ft_result = VoidTy, ft_params = [IntTy 32, DoubleTy], ft_vararg = True\<rparr>" example_x64 "{}"]
  by (simp add: scalar_def)

text \<open>
  C29: the decomposition of a described record always ends. Once the descriptors are accepted, the
  fuel of one step per known type is enough for every described record, and every lookup of the walk
  succeeds, so that it yields its spans or reports that there are too many.
\<close>

theorem decomposition_terminates:
  assumes "layout_ok L" "initialize L descriptors = Inr (records, st)" "records t = Some r"
  shows "gather L records (is_info st) (Suc (length (is_info st))) t 0 [] False \<noteq> Undefined"
  using initialize_Inr [OF assms(1,2)] assms(3) by (intro gather_defined [where infos = "is_info st"]) auto

theorem decomposition_terminates_witness:
  "gather natural_layout [example_union \<mapsto> union_layout] (is_info union_info) (Suc (length (is_info union_info)))
     example_union 0 [] False \<noteq> Undefined"
  using natural_layout_ok by (intro decomposition_terminates [OF _ example_initialize]) (simp_all add: arm_layout_ok_def)

text \<open>
  C30: the classification of semantic layouts (unions, bitfields, packed records) lays the native
  signature out like that of ordered records, and every value it passes directly is accepted by the
  access routines.
\<close>

theorem layout_signature_laid_out:
  assumes "classifyNativeLayoutABI c (Some f) descriptors = Inr sg" "layout_ok (nc_layout c)"
  shows "classified (nc_layout c) (ft_result f) True (ns_result sg) \<and>
    list_all2 (\<lambda>t. classified (nc_layout c) t False) (ft_params f) (ns_parameters sg) \<and>
    ft_params (ns_nativeType sg) = (if nv_sRet (ns_result sg) then [opaque_pointer] else []) @
      concat (map sysv_physical (ns_parameters sg)) \<and>
    contiguous (if nv_sRet (ns_result sg) then 1 else 0) (ns_parameters sg) (length (ft_params (ns_nativeType sg))) \<and>
    ns_remainingGP sg \<le> 6 \<and> ns_remainingSSE sg \<le> 8"
  using assms by (rule classifyNativeLayoutABI_laid_out)

theorem layout_signature_laid_out_witness:
  "\<exists>sg. classifyNativeLayoutABI example_x64 (Some union_function) [union_layout] = Inr sg \<and>
     list_all2 (\<lambda>t. classified natural_layout t False) [example_union] (ns_parameters sg)"
proof -
  from example_classifyNativeLayoutABI obtain sg where
    sg: "classifyNativeLayoutABI example_x64 (Some union_function) [union_layout] = Inr sg" by blast
  have "layout_ok (nc_layout example_x64)" using natural_layout_ok by (simp add: arm_layout_ok_def)
  from layout_signature_laid_out [OF sg this] sg show ?thesis by (auto simp: union_function_def)
qed

text \<open>
  C31: the AAPCS signature has one native parameter per logical one, after the hidden result pointer.
  Every value is either indirect or a single piece at the start of its storage, and each parameter
  records the position of its native one.
\<close>

theorem aapcs_signature_laid_out:
  assumes "arm_classifyNativeLayoutABI c (Some f) descriptors = Inr sg" "arm_layout_ok (ac_layout c)"
  shows "length (ft_params (ns_nativeType sg)) =
      (if nv_sRet (ns_result sg) then 1 else 0) + length (ft_params f) \<and>
    list_all2 (\<lambda>t. arm_classified c t False) (ft_params f) (ns_parameters sg) \<and>
    arm_classified c (ft_result f) True (ns_result sg) \<and>
    contiguous (if nv_sRet (ns_result sg) then 1 else 0) (ns_parameters sg) (length (ft_params (ns_nativeType sg)))"
proof -
  note facts = arm_classifyNativeLayoutABI_laid_out [OF assms]
  then have "length (ns_parameters sg) = length (ft_params f)" by (metis list_all2_lengthD)
  with facts show ?thesis by (auto simp: arm_physical_length)
qed

theorem aapcs_signature_laid_out_witness:
  "\<exists>sg. arm_classifyNativeLayoutABI example_aapcs64 (Some arm_function) [pair_layout] = Inr sg \<and>
     list_all2 (\<lambda>t. arm_classified example_aapcs64 t False) [example_pair] (ns_parameters sg)"
proof -
  from example_arm_signature obtain sg where
    sg: "arm_classifyNativeLayoutABI example_aapcs64 (Some arm_function) [pair_layout] = Inr sg" by blast
  from aapcs_signature_laid_out [OF sg] natural_layout_ok sg show ?thesis by (auto simp: arm_function_def)
qed

text \<open>
  C32: classification and access agree (64-bit Arm). Every record parameter that the classifier passes
  directly is accepted by the access routines at any sound insertion point: its pieces are loaded, one
  value per piece, and no byte outside its storage is read, although the registers may be wider.
\<close>

theorem aapcs64_parameters_loadable:
  assumes "arm_classifyNativeLayoutABI c (Some f) descriptors = Inr sg" "arm_layout_ok (ac_layout c)" "ac_aapcs64 c"
    and "(t, v) \<in> set (zip (ft_params f) (ns_parameters sg))" "isStructTy t" "nv_kind v \<noteq> Indirect"
    and "as_layout site = ac_layout c" "sound_site site" "al \<le> MaximumAlignment"
  shows "\<exists>vs. loadNativeABIPieces site v al = Inr vs \<and> length vs = length (nv_pieces v) \<and>
    ordered_within 0 (concat (map (loads_of (ac_layout c)) vs)) (nv_storageSize v)"
proof -
  have "arm_classified c t False v"
    using arm_classifyNativeLayoutABI_laid_out [OF assms(1,2)] assms(4) by (auto simp: list_all2_iff)
  then have "accessible (ac_layout c) v" using assms(3,5,6) by (rule aapcs64_parameter_accessible)
  then show ?thesis
    using accessible_loads [of site v al] assms(2,7-9) by (simp add: arm_layout_ok_def)
qed

theorem aapcs64_parameters_loadable_witness:
  "\<exists>sg vs. arm_classifyNativeLayoutABI example_aapcs64 (Some arm_function) [pair_layout] = Inr sg \<and>
     loadNativeABIPieces example_site (hd (ns_parameters sg)) 8 = Inr vs \<and> length vs = 1"
proof -
  from example_arm_signature obtain sg v where
    sg: "arm_classifyNativeLayoutABI example_aapcs64 (Some arm_function) [pair_layout] = Inr sg" "ns_parameters sg = [v]"
    and v: "nv_kind v = Coerce" "length (nv_pieces v) = 1" by blast
  have "(example_pair, v) \<in> set (zip (ft_params arm_function) (ns_parameters sg))" by (simp add: arm_function_def sg(2))
  from aapcs64_parameters_loadable [OF sg(1) _ _ this, of example_site 8] natural_layout_ok v sg show ?thesis
    by (auto simp: example_pair_layout example_site_def sound_site_def MaximumAlignment_def)
qed

text \<open>
  C33: the budgeted storage walk refines a predicate. \<open>boundedStorage\<close> succeeds exactly when the type is
  nested at most 32 deep, sized, without empty arrays and within the byte bound (the fields of a record
  counted with their worst padding), and has no more nodes than the budget, which it reduces by their
  number; the order of the walk and its early exits do not matter.
\<close>

theorem bounded_storage_refines:
  "boundedStorage L t depth remaining =
     (if storage_admitted L t depth \<and> type_nodes t \<le> remaining then Inr (remaining - type_nodes t) else Inl ())"
  by (rule boundedStorage_spec)

section \<open>Correspondence of control-flow graphs\<close>





section \<open>Overlapping storage and translation units\<close>

text \<open>
  C35: merging two native overlaps loses nothing of either. If the alternatives of two targets merge and
  the type merge resolves to each side's type, specializing the merged type to either target yields
  exactly that target's alternatives, in their order, all with that target's domain.
\<close>

theorem merged_overlap_roundtrip:
  assumes "mergeNativeOverlap mt left right identity (target_id li) (target_id ri) = Inr merged"
    and "target_id li \<noteq> target_id ri" "left \<noteq> []" "right \<noteq> []" "resolves mt li fl ri fr"
  shows "specializeType merged li =
      Inr (OverlapT identity (map (fl \<circ> oa_type) left) (map (\<lambda>_. targetSet [target_id li]) left)) \<and>
    specializeType merged ri =
      Inr (OverlapT identity (map (fr \<circ> oa_type) right) (map (\<lambda>_. targetSet [target_id ri]) right))"
  using assms by (rule merged_overlap_specializes)

definition long_type :: "lty \<Rightarrow> lty \<Rightarrow> sty option" where
  "long_type a b =
     (if a = IntTy 64 \<and> b = IntTy 32 then Some WordT else if a = FloatTy \<and> b = FloatTy then Some F32T else None)"

definition wide_side :: "lty \<Rightarrow> sty" where
  "wide_side a = (if a = FloatTy then F32T else IntegerT 64)"

definition narrow_side :: "lty \<Rightarrow> sty" where
  "narrow_side a = (if a = FloatTy then F32T else IntegerT 32)"

lemma long_type_resolves: "resolves long_type info_x86_64 wide_side info_armv7 narrow_side"
  by (auto simp: resolves_def long_type_def wide_side_def narrow_side_def specializeType.simps [of WordT]
    specializeType.simps [of F32T] split: if_splits)

theorem merged_overlap_roundtrip_witness:
  "\<exists>merged. mergeNativeOverlap long_type
       [\<lparr>oa_privateName = ''l'', oa_type = IntTy 64\<rparr>, \<lparr>oa_privateName = ''f'', oa_type = FloatTy\<rparr>]
       [\<lparr>oa_privateName = ''l'', oa_type = IntTy 32\<rparr>] ''u'' ''x86_64'' ''armv7'' = Inr merged \<and>
     specializeType merged info_x86_64 =
       Inr (OverlapT ''u'' [IntegerT 64, F32T] [targetSet [''x86_64''], targetSet [''x86_64'']]) \<and>
     specializeType merged info_armv7 = Inr (OverlapT ''u'' [IntegerT 32] [targetSet [''armv7'']])"
proof -
  let ?l = "[\<lparr>oa_privateName = ''l'', oa_type = IntTy 64\<rparr>, \<lparr>oa_privateName = ''f'', oa_type = FloatTy\<rparr>]"
  let ?r = "[\<lparr>oa_privateName = ''l'', oa_type = IntTy 32\<rparr>]"
  obtain merged where m: "mergeNativeOverlap long_type ?l ?r ''u'' (target_id info_x86_64) (target_id info_armv7) = Inr merged"
    by (simp add: mergeNativeOverlap_def merge_alternatives.simps [of _ _ _ "a # l" r for a l r]
      merge_alternatives.simps [of _ _ _ "[]" "[]"] long_type_def appears_def Let_def)
  from merged_overlap_roundtrip [OF m _ _ _ long_type_resolves] show ?thesis
    using m by (simp add: wide_side_def narrow_side_def)
qed

text \<open>
  C36: a translation unit has one operation per symbol, and definitions win. When a group of fragments
  combines, the fragments were all specialized to the target, the operations of the unit have distinct
  identities and all come from them, and every operation of every fragment is represented by one of its
  name, identity and native type, which is itself wherever it defines the symbol.
\<close>

theorem unit_symbols_resolved:
  assumes "combine_fragments read verifies target paths = Inr unit'"
  shows "\<exists>modules.
    list_all2 (\<lambda>path m. \<exists>source. read path = Inr source \<and> specializeDomains verifies source target = Inr m) paths modules \<and>
    distinct (map symbol_identity (body_ops unit')) \<and> set (body_ops unit') \<subseteq> set (concat (map body_ops modules)) \<and>
    (\<forall>x \<in> set (concat (map body_ops modules)). \<exists>y \<in> set (body_ops unit').
       symbol_identity y = symbol_identity x \<and> symbol_identity x \<noteq> None \<and> represented x y)"
proof -
  from combine_fragments_Inr [OF assms] obtain modules s where
    m: "list_all2 (\<lambda>path m. \<exists>source. read path = Inr source \<and> specializeDomains verifies source target = Inr m) paths modules"
    and s: "body_ops unit' = un_body s" "unit_inv (concat (map body_ops modules)) s" by blast
  from unit_inv_symbols [OF s(2)] m show ?thesis unfolding s(1) by blast
qed

lemma example_unit: "\<exists>u. combine_fragments (\<lambda>_. Inr example_data) (\<lambda>_. True) info_armv7 [''a''] = Inr u \<and>
    body_ops u = [example_global]"
  by (simp add: combine_fragments_def example_data_specialized add_fragment_def Let_def)
    (simp add: example_data_def example_global_def add_operation_def symbol_identity_def op_get_def get_as_def)

theorem unit_symbols_resolved_witness:
  "\<exists>u. combine_fragments (\<lambda>_. Inr example_data) (\<lambda>_. True) info_armv7 [''a''] = Inr u \<and>
     represented example_global example_global \<and> distinct (map symbol_identity (body_ops u))"
proof -
  from example_unit obtain u where u: "combine_fragments (\<lambda>_. Inr example_data) (\<lambda>_. True) info_armv7 [''a''] = Inr u"
    "body_ops u = [example_global]" by blast
  have "body_ops example_data = [example_global]" by (simp add: example_data_def)
  with unit_symbols_resolved [OF u(1)] u example_data_specialized show ?thesis
    by (auto simp: list_all2_Cons1)
qed

section \<open>Captured builds and their publication\<close>

text \<open>
  C37: regrouping translation units loses nothing. Whenever the captures of several targets are regrouped
  into shared fragments, every target keeps one unit per capture, every fragment active on a target is used
  by exactly one of its units, and the modules and plan the producer publishes from it are admissible.
\<close>

theorem partitioned_units_covered:
  assumes "mergeProfilePartitions T observations directory = Inr parts" "length bytes = length (mp_fragments parts)"
    "opt \<in> set optimization_levels"
  shows "partition_ok observations parts \<and>
    publishable ''object'' (map pp_target observations) (group_modules opt bytes parts) (group_plan opt parts)"
  using mergeProfilePartitions_ok [OF assms(1)] group_plan_publishable [OF _ assms(2,3)] by blast

theorem partitioned_units_covered_witness:
  "mergeProfilePartitions part_tools part_inputs ''/w'' = Inr part_result \<and>
   publishable ''object'' [''x86_64'', ''armv7''] (group_modules ''O2'' [''p'', ''q''] part_result) (group_plan ''O2'' part_result)"
proof -
  have "length [''p'', ''q''] = length (mp_fragments part_result)" "''O2'' \<in> set optimization_levels"
    "map pp_target part_inputs = [''x86_64'', ''armv7'']"
    by (simp_all add: part_result_def optimization_levels_def part_inputs_def)
  with partitioned_units_covered [OF example_partitioned] example_partitioned show ?thesis by metis
qed

text \<open>
  C38: what the publication linker emits reads back. From any accepted command line whose inputs link, the
  combined plan is publishable for the requested targets, has at most 510 modules, and reading the compilation
  plan of its manifest gives that plan back, unit orders and remapped modules included.
\<close>

theorem linked_plan_reads_back:
  assumes "link_args h args initial_request = Inr r" "link_inputs h r = Inr l"
  shows "publishable (lr_kind r) (lk_targets l) (lk_modules l) (lk_plan l) \<and> length (lk_modules l) \<le> module_limit \<and>
    readCompilationPlan (base_manifest (lh_codec h) (lr_kind r) (lk_modules l) [] [] (lk_targets l) (lk_plan l)) =
      Inr (lk_plan l)"
proof -
  note ok = link_inputs_publishable [OF assms(2) link_args_ok [OF assms(1) initial_request_ok]]
  have "length (lk_modules l) \<le> 2 ^ 63" using ok(3) by (simp add: module_limit_def)
  moreover have "\<forall>m \<in> set (lk_modules l). distinct (effective_targets (lk_targets l) m) \<and> effective_targets (lk_targets l) m \<noteq> []"
    using ok(4) by (simp add: effective_targets_def)
  ultimately show ?thesis using ok(1-3) publishable_roundtrip [OF ok(1)] by (simp add: domain_ok_def)
qed

theorem linked_plan_reads_back_witness:
  "link_inputs example_host example_request = Inr example_linked \<and>
   readCompilationPlan (base_manifest link_codec ''executable'' linked_modules [] [] [''x86_64'', ''armv7''] linked_plan) =
     Inr linked_plan"
proof -
  have "lr_kind example_request = ''executable''" "lh_codec example_host = link_codec"
    by (simp_all add: example_request_def initial_request_def example_host_def)
  with linked_plan_reads_back [OF example_link_args example_link_inputs] example_link_inputs show ?thesis
    by (simp add: example_linked_def)
qed

text \<open>
  C39: combining the targets keeps every native link. Whether units correspond, are regrouped one by one or
  are merged into one unit, following the order recorded for a target visits each of its active units once and
  yields exactly the captures of its own native link, in link order.
\<close>

theorem combined_order_preserved:
  assumes "combineSelected selected = Inr b" "p \<in> set selected"
  shows "keeps_link (cb_units b) (cb_orders b) p"
  using assms by (rule combined_keeps_link)

theorem combined_order_preserved_witness:
  "combineSelected selected_pair = Inr combined_pair \<and>
   native_sequence (cb_units combined_pair) (cb_orders combined_pair) ''armv7'' = [''b2'', ''a2'']"
proof -
  have "\<exists>p \<in> set selected_pair. sb_target p = ''armv7'' \<and> map su_capture (sb_units p) = [''b2'', ''a2'']"
    by (simp add: selected_pair_def selected_build_def selected_unit_def)
  then show ?thesis using combined_order_preserved [OF example_combined] example_combined
    unfolding keeps_link_def by metis
qed

text \<open>
  C40: a link recorded without a reservation is the link that was made. The output lies in the build lane and
  is a position-independent ELF file of the target, the journals it witnesses are distinct, and the recorded
  units are the genuine provenance of those journals, one by one and in order.
\<close>

theorem native_link_witnessed:
  assumes "recordNativeLink b h sdk (Some profile) args lane metadata trace whyExtract = Inr (Some r)"
    "nl_unsupported r = []"
  shows "\<exists>target output. targets_find profile = Some target \<and> witnessed_link h target lane metadata output r"
  using assms by (rule recorded_link_witnessed)

theorem native_link_witnessed_witness:
  "\<exists>target output. targets_find ''x86_64'' = Some target \<and>
     witnessed_link native_host target ''/l'' ''/l/m'' output recorded_link"
  by (rule native_link_witnessed [OF example_recorded]) (simp add: recorded_link_def)

end
